(* ===== verification/Prelude.thy ===== *)
theory Prelude
  imports Main "HOL-Library.Word"
begin

text \<open>
  Shared vocabulary of the development: the machine types of the C and C++ code, the
  conversions between \<open>size_t\<close>, \<open>uint32_t\<close> and \<open>int\<close>, the memory block accesses that the
  code makes with \<open>memcpy\<close>, C strings and the decimal rendering that \<open>printf\<close> uses.
  An access outside an allocated block is the value \<open>None\<close>.
\<close>

unbundle bit_operations_syntax

section \<open>Machine types\<close>

type_synonym byte = "8 word"
type_synonym u16 = "16 word"
type_synonym u32 = "32 word"
type_synonym u64 = "64 word"

named_theorems mem_simps \<open>rules for block loads and stores\<close>

text \<open>A \<open>size_t\<close> is a natural number below \<open>2 ^ 64\<close>; \<open>size_of\<close> is the wrap-around of its
  arithmetic, \<open>u32_of\<close> the conversion to \<open>uint32_t\<close>, \<open>int_of_size\<close> the conversion to \<open>int\<close>.\<close>

definition size_of :: "nat \<Rightarrow> nat" where
  "size_of n = n mod 2 ^ 64"

definition u32_of :: "nat \<Rightarrow> nat" where
  "u32_of n = n mod 2 ^ 32"

definition int_of_size :: "nat \<Rightarrow> int" where
  "int_of_size n = (let m = int n mod 2 ^ 32 in if m < 2 ^ 31 then m else m - 2 ^ 32)"

definition size_add_int :: "nat \<Rightarrow> int \<Rightarrow> nat" where
  "size_add_int n k = nat ((int n + k) mod 2 ^ 64)"

lemma size_of_small [simp]: "n < 2 ^ 64 \<Longrightarrow> size_of n = n"
  by (simp add: size_of_def)

lemma u32_of_small [simp]: "n < 2 ^ 32 \<Longrightarrow> u32_of n = n"
  by (simp add: u32_of_def)

lemma u32_of_le: "u32_of n \<le> n"
  by (simp add: u32_of_def)

lemma int_of_size_small [simp]: "n < 2 ^ 31 \<Longrightarrow> int_of_size n = int n"
  by (simp add: int_of_size_def)

lemma size_add_int_nat [simp]: "n + k < 2 ^ 64 \<Longrightarrow> size_add_int n (int k) = n + k"
  by (simp add: size_add_int_def nat_mod_distrib nat_add_distrib)

section \<open>Memory blocks\<close>

text \<open>A pointer to a heap block is \<open>None\<close> (the null pointer) or the bytes of the block. An
  access of no byte touches no memory.\<close>

definition mem_load :: "'a list option \<Rightarrow> nat \<Rightarrow> nat \<Rightarrow> 'a list option" where
  "mem_load b off n =
     (if n = 0 then Some []
      else case b of None \<Rightarrow> None
           | Some xs \<Rightarrow> if off + n \<le> length xs then Some (take n (drop off xs)) else None)"

definition mem_store :: "'a list option \<Rightarrow> nat \<Rightarrow> 'a list \<Rightarrow> 'a list option option" where
  "mem_store b off ys =
     (if ys = [] then Some b
      else case b of None \<Rightarrow> None
           | Some xs \<Rightarrow>
               if off + length ys \<le> length xs
               then Some (Some (take off xs @ ys @ drop (off + length ys) xs)) else None)"

lemma mem_load_0 [simp]: "mem_load b off 0 = Some []"
  by (simp add: mem_load_def)

lemma mem_load_Some [mem_simps]:
  "off + n \<le> length xs \<Longrightarrow> mem_load (Some xs) off n = Some (take n (drop off xs))"
  by (simp add: mem_load_def)

lemma mem_load_length: "mem_load b off n = Some ys \<Longrightarrow> length ys = n"
  by (auto simp: mem_load_def split: if_splits option.splits)

lemma mem_store_Nil [simp]: "mem_store b off [] = Some b"
  by (simp add: mem_store_def)

lemma mem_store_Some [mem_simps]:
  "off + length ys \<le> length xs \<Longrightarrow>
   mem_store (Some xs) off ys = Some (Some (take off xs @ ys @ drop (off + length ys) xs))"
  by (simp add: mem_store_def)

text \<open>The allocator: \<open>malloc n\<close> is the null pointer or a block of \<open>n\<close> bytes whose content is
  not specified.\<close>

type_synonym allocator = "nat \<Rightarrow> byte list option"

definition malloc_ok :: "allocator \<Rightarrow> bool" where
  "malloc_ok malloc \<longleftrightarrow> (\<forall>n xs. malloc n = Some xs \<longrightarrow> length xs = n)"

definition malloc_total :: "allocator \<Rightarrow> bool" where
  "malloc_total malloc \<longleftrightarrow> (\<forall>n. malloc n \<noteq> None)"

definition zero_malloc :: allocator where
  "zero_malloc n = Some (replicate n 0)"

lemma malloc_okD: "malloc_ok malloc \<Longrightarrow> malloc n = Some xs \<Longrightarrow> length xs = n"
  by (simp add: malloc_ok_def)

lemma zero_malloc_ok [simp]: "malloc_ok zero_malloc" "malloc_total zero_malloc"
  by (simp_all add: malloc_ok_def malloc_total_def zero_malloc_def)

section \<open>Text: C strings and decimal numbers\<close>

definition c_str :: "string \<Rightarrow> string" where
  "c_str s = takeWhile (\<lambda>c. c \<noteq> CHR 0x00) s"

text \<open>What \<open>snprintf(buf, n, ...)\<close> leaves in the buffer, for the formatted text \<open>s\<close>.\<close>

definition snprintf :: "nat \<Rightarrow> string \<Rightarrow> string" where
  "snprintf n s = take (n - 1) s"

definition digit_char :: "nat \<Rightarrow> char" where
  "digit_char d = char_of (48 + d)"

fun dec :: "nat \<Rightarrow> string" where
  "dec n = (if n < 10 then [digit_char n] else dec (n div 10) @ [digit_char (n mod 10)])"

declare dec.simps [simp del]

definition fmt_d :: "int \<Rightarrow> string" where
  "fmt_d i = (if i < 0 then CHR ''-'' # dec (nat (- i)) else dec (nat i))"

lemma snprintf_fits: "length s < n \<Longrightarrow> snprintf n s = s"
  by (simp add: snprintf_def)

lemma c_str_id: "CHR 0x00 \<notin> set s \<Longrightarrow> c_str s = s"
  by (auto simp: c_str_def takeWhile_eq_all_conv)

lemma dec_nonempty [simp]: "dec n \<noteq> []"
  by (subst dec.simps) simp

definition is_digit :: "char \<Rightarrow> bool" where
  "is_digit c \<longleftrightarrow> (48::nat) \<le> of_char c \<and> of_char c \<le> (57::nat)"

lemma of_digit_char: "d < 10 \<Longrightarrow> (of_char (digit_char d) :: nat) = 48 + d"
  by (simp add: digit_char_def)

lemma is_digit_char: "d < 10 \<Longrightarrow> is_digit (digit_char d)"
  by (simp add: is_digit_def of_digit_char)

lemma dec_digits: "\<forall>c \<in> set (dec n). is_digit c"
proof (induction n rule: dec.induct)
  case (1 n)
  then show ?case
    by (subst dec.simps) (auto simp: is_digit_char)
qed

text \<open>Reading a decimal number back gives the number, so rendering is injective.\<close>

fun undec :: "nat \<Rightarrow> string \<Rightarrow> nat" where
  "undec n [] = n"
| "undec n (c # cs) = undec (10 * n + (of_char c - 48)) cs"

lemma undec_append: "undec n (xs @ ys) = undec (undec n xs) ys"
  by (induction xs arbitrary: n) auto

lemma undec_dec: "undec 0 (dec n) = n"
proof (induction n rule: dec.induct)
  case (1 n)
  show ?case
  proof (cases "n < 10")
    case True
    then show ?thesis by (subst dec.simps) (simp add: of_digit_char)
  next
    case False
    with "1.IH" show ?thesis
      by (subst dec.simps) (simp add: undec_append of_digit_char)
  qed
qed

lemma dec_inj: "dec m = dec n \<Longrightarrow> m = n"
  by (metis undec_dec)

lemma hd_dec_not_minus: "dec n \<noteq> CHR ''-'' # s"
proof
  assume "dec n = CHR ''-'' # s"
  then have "is_digit (CHR ''-'')" using dec_digits [of n] by simp
  then show False by (simp add: is_digit_def)
qed

lemma fmt_d_inj: "fmt_d i = fmt_d j \<longleftrightarrow> i = j"
proof
  assume "fmt_d i = fmt_d j"
  then show "i = j"
    using hd_dec_not_minus [of "nat i"] hd_dec_not_minus [of "nat j"]
    by (auto simp: fmt_d_def split: if_splits dest!: dec_inj) metis
qed simp

text \<open>\<open>int\<close> arithmetic as the compilers do it, and \<open>atoi\<close>.\<close>

definition wrap32 :: "int \<Rightarrow> int" where
  "wrap32 i = sint (of_int i :: u32)"

definition white_char :: "char \<Rightarrow> bool" where
  "white_char c \<longleftrightarrow> (let n = (of_char c :: nat) in n = 32 \<or> 9 \<le> n \<and> n \<le> 13)"

definition atoi :: "string \<Rightarrow> int" where
  "atoi s =
     (let s = dropWhile white_char s;
          neg = (take 1 s = ''-'');
          s = (if take 1 s = ''-'' \<or> take 1 s = ''+'' then tl s else s);
          n = int (undec 0 (takeWhile is_digit s))
      in wrap32 (if neg then - n else n))"

section \<open>Bytes and words\<close>

definition ascii :: "string \<Rightarrow> byte list" where
  "ascii s = map (\<lambda>c. of_nat (of_char c)) s"

lemma unat_byte_less [simp]: "unat (b :: byte) < 256"
  using unsigned_less [of b] by simp

lemma mask_8: "(0xFF :: 'a::len word) = mask 8" if "8 \<le> LENGTH('a)"
  by (simp add: mask_eq_exp_minus_1)

lemma unat_and_FF: "unat ((x :: u32) AND 0xFF) = unat x mod 256"
proof -
  have "x AND 0xFF = take_bit 8 x" by (simp only: take_bit_eq_mask mask_eq_exp_minus_1) simp
  then have "x AND 0xFF = x mod 256" by (simp add: take_bit_eq_mod)
  then show ?thesis by (simp add: unat_mod_distrib)
qed

lemma unat_drop_bit: "unat (drop_bit n x) = unat x div 2 ^ n"
  by (rule trans [OF unat_drop_bit_eq drop_bit_eq_div])

lemma unat_ucast_byte [simp]: "unat (ucast (b :: byte) :: u32) = unat b"
proof -
  have "unat b < 2 ^ 32" by (rule less_le_trans [OF unat_byte_less]) simp
  then show ?thesis by (simp add: unsigned_ucast_eq take_bit_nat_eq_self)
qed

section \<open>Programs that may be undefined\<close>

text \<open>A handler is a chain of early returns; these rules take it apart along its branches.\<close>

definition post :: "('a \<Rightarrow> bool) \<Rightarrow> 'a option \<Rightarrow> bool" where
  "post P r \<longleftrightarrow> (\<forall>x. r = Some x \<longrightarrow> P x)"

named_theorems branches

lemma post_None [branches]: "post P None"
  and post_Some [branches]: "P x \<Longrightarrow> post P (Some x)"
  and post_bind [branches]: "(\<And>x. q = Some x \<Longrightarrow> post P (f x)) \<Longrightarrow> post P (Option.bind q f)"
  and post_if [branches]: "(b \<Longrightarrow> post P r) \<Longrightarrow> (\<not> b \<Longrightarrow> post P s) \<Longrightarrow> post P (if b then r else s)"
  and post_option [branches]: "(z = None \<Longrightarrow> post P r) \<Longrightarrow> (\<And>y. z = Some y \<Longrightarrow> post P (g y)) \<Longrightarrow>
    post P (case z of None \<Rightarrow> r | Some y \<Rightarrow> g y)"
  and post_prod [branches]: "(\<And>a b. p = (a, b) \<Longrightarrow> post P (h a b)) \<Longrightarrow> post P (case p of (a, b) \<Rightarrow> h a b)"
  and post_list [branches]: "(l = [] \<Longrightarrow> post P r) \<Longrightarrow> (\<And>y ys. l = y # ys \<Longrightarrow> post P (k y ys)) \<Longrightarrow>
    post P (case l of [] \<Rightarrow> r | y # ys \<Rightarrow> k y ys)"
  and post_map [branches]: "(\<And>x. q = Some x \<Longrightarrow> P (u x)) \<Longrightarrow> post P (map_option u q)"
  by (auto simp: post_def bind_eq_Some_conv split: option.split prod.split list.split)

text \<open>Passing a sequence point with a chosen assertion.\<close>

lemma post_bind_via: "post Q q \<Longrightarrow> (\<And>x. Q x \<Longrightarrow> post P (f x)) \<Longrightarrow> post P (Option.bind q f)"
  by (auto simp: post_def bind_eq_Some_conv)

lemma post_mono: "post Q q \<Longrightarrow> (\<And>x. Q x \<Longrightarrow> P x) \<Longrightarrow> post P q"
  by (auto simp: post_def)

lemma post_map_via: "post (\<lambda>x. P (u x)) q \<Longrightarrow> post P (map_option u q)"
  by (auto simp: post_def)

lemma postD: "post P r \<Longrightarrow> r = Some x \<Longrightarrow> P x"
  by (simp add: post_def)

end
