(* ===== verification/Base64.thy ===== *)
theory Base64
  imports Prelude
begin

text \<open>
  The base64 routines of \<open>loss/src/util/encrypt/base64.c\<close> and the hexadecimal conversions of
  \<open>loss/src/util/encrypt/hconv.c\<close>. A C string is the list of the bytes from the pointer to the
  end of its block; a result string is the list of the bytes written. Lengths are below the
  range of \<open>int\<close>, so the \<open>int\<close> counters are natural numbers. \<open>None\<close> is a read beyond the block.
\<close>

section \<open>Base64\<close>

definition pr2six :: "byte list" where
  "pr2six =
    [64, 64, 64, 64, 64, 64, 64, 64, 64, 64, 64, 64, 64, 64, 64, 64,
     64, 64, 64, 64, 64, 64, 64, 64, 64, 64, 64, 64, 64, 64, 64, 64,
     64, 64, 64, 64, 64, 64, 64, 64, 64, 64, 64, 62, 64, 64, 64, 63,
     52, 53, 54, 55, 56, 57, 58, 59, 60, 61, 64, 64, 64, 64, 64, 64,
     64,  0,  1,  2,  3,  4,  5,  6,  7,  8,  9, 10, 11, 12, 13, 14,
     15, 16, 17, 18, 19, 20, 21, 22, 23, 24, 25, 64, 64, 64, 64, 64,
     64, 26, 27, 28, 29, 30, 31, 32, 33, 34, 35, 36, 37, 38, 39, 40,
     41, 42, 43, 44, 45, 46, 47, 48, 49, 50, 51, 64, 64, 64, 64, 64,
     64, 64, 64, 64, 64, 64, 64, 64, 64, 64, 64, 64, 64, 64, 64, 64,
     64, 64, 64, 64, 64, 64, 64, 64, 64, 64, 64, 64, 64, 64, 64, 64,
     64, 64, 64, 64, 64, 64, 64, 64, 64, 64, 64, 64, 64, 64, 64, 64,
     64, 64, 64, 64, 64, 64, 64, 64, 64, 64, 64, 64, 64, 64, 64, 64,
     64, 64, 64, 64, 64, 64, 64, 64, 64, 64, 64, 64, 64, 64, 64, 64,
     64, 64, 64, 64, 64, 64, 64, 64, 64, 64, 64, 64, 64, 64, 64, 64,
     64, 64, 64, 64, 64, 64, 64, 64, 64, 64, 64, 64, 64, 64, 64, 64,
     64, 64, 64, 64, 64, 64, 64, 64, 64, 64, 64, 64, 64, 64, 64, 64]"

definition six :: "byte \<Rightarrow> byte" where
  "six c = pr2six ! unat c"

text \<open>The scan \<open>while (pr2six[*(bufin++)] <= 63);\<close> and the number of digits before the stop.\<close>

fun scan_digits :: "byte list \<Rightarrow> nat option" where
  "scan_digits [] = None"
| "scan_digits (c # cs) = (if six c \<le> 63 then map_option Suc (scan_digits cs) else Some 0)"

definition Base64decode_len :: "byte list \<Rightarrow> nat option" where
  "Base64decode_len bufcoded =
     map_option (\<lambda>nprbytes. (nprbytes + 3) div 4 * 3 + 1) (scan_digits bufcoded)"

definition out1 :: "byte list \<Rightarrow> byte" where
  "out1 bufin = push_bit 2 (six (bufin ! 0)) OR drop_bit 4 (six (bufin ! 1))"

definition out2 :: "byte list \<Rightarrow> byte" where
  "out2 bufin = push_bit 4 (six (bufin ! 1)) OR drop_bit 2 (six (bufin ! 2))"

definition out3 :: "byte list \<Rightarrow> byte" where
  "out3 bufin = push_bit 6 (six (bufin ! 2)) OR six (bufin ! 3)"

fun decode_quads :: "byte list \<Rightarrow> nat \<Rightarrow> byte list \<Rightarrow> byte list \<times> nat \<times> byte list" where
  "decode_quads bufin nprbytes bufout =
     (if nprbytes > 4
      then decode_quads (drop 4 bufin) (nprbytes - 4) (bufout @ [out1 bufin, out2 bufin, out3 bufin])
      else (bufin, nprbytes, bufout))"

declare decode_quads.simps [simp del]

text \<open>The bytes written, the final zero included, and the returned number of decoded bytes.\<close>

definition Base64decode :: "byte list \<Rightarrow> (byte list \<times> nat) option" where
  "Base64decode bufcoded =
     (case scan_digits bufcoded of None \<Rightarrow> None
      | Some nprbytes \<Rightarrow>
          let nbytesdecoded = (nprbytes + 3) div 4 * 3;
              (bufin, n, bufout) = decode_quads bufcoded nprbytes [];
              bufout = (if n > 1 then bufout @ [out1 bufin] else bufout);
              bufout = (if n > 2 then bufout @ [out2 bufin] else bufout);
              bufout = (if n > 3 then bufout @ [out3 bufin] else bufout);
              bufout = bufout @ [0]
          in Some (bufout, nbytesdecoded - (4 - n) mod 4))"

definition basis_64 :: "byte list" where
  "basis_64 = ascii ''ABCDEFGHIJKLMNOPQRSTUVWXYZabcdefghijklmnopqrstuvwxyz0123456789+/''"

definition Base64encode_len :: "nat \<Rightarrow> nat" where
  "Base64encode_len len = (len + 2) div 3 * 4 + 1"

text \<open>\<open>string\<close> holds \<open>char\<close>s, which may be negative; every shifted value is masked, so the four
  digits depend on the bytes only.\<close>

definition digit :: "byte \<Rightarrow> byte" where
  "digit v = basis_64 ! unat v"

definition dig1 :: "byte \<Rightarrow> byte" where
  "dig1 a = digit (drop_bit 2 a AND 0x3F)"

definition dig2 :: "byte \<Rightarrow> byte \<Rightarrow> byte" where
  "dig2 a b = digit (push_bit 4 (a AND 0x3) OR drop_bit 4 (b AND 0xF0))"

definition dig3 :: "byte \<Rightarrow> byte \<Rightarrow> byte" where
  "dig3 b c = digit (push_bit 2 (b AND 0xF) OR drop_bit 6 (c AND 0xC0))"

definition dig4 :: "byte \<Rightarrow> byte" where
  "dig4 c = digit (c AND 0x3F)"

definition dig2_last :: "byte \<Rightarrow> byte" where
  "dig2_last a = digit (push_bit 4 (a AND 0x3))"

definition dig3_last :: "byte \<Rightarrow> byte" where
  "dig3_last b = digit (push_bit 2 (b AND 0xF))"

fun encode_groups :: "byte list \<Rightarrow> byte list \<Rightarrow> byte list \<times> byte list" where
  "encode_groups (a # b # c # s) p = encode_groups s (p @ [dig1 a, dig2 a b, dig3 b c, dig4 c])"
| "encode_groups s p = (s, p)"

definition Base64encode :: "byte list \<Rightarrow> byte list \<times> nat" where
  "Base64encode s =
     (let (s, p) = encode_groups s [];
          p = (case s of
                 [] \<Rightarrow> p
               | [a] \<Rightarrow> p @ [dig1 a] @ [dig2_last a, 0x3D] @ [0x3D]
               | a # b # _ \<Rightarrow> p @ [dig1 a] @ [dig2 a b, dig3_last b] @ [0x3D]);
          p = p @ [0]
      in (p, length p))"

section \<open>Hexadecimal text\<close>

definition hex_digit :: "nat \<Rightarrow> byte" where
  "hex_digit d = of_nat (if d < 10 then 48 + d else 87 + d)"

fun hex_value :: "byte \<Rightarrow> nat option" where
  "hex_value c = (let n = unat c in
     if 48 \<le> n \<and> n \<le> 57 then Some (n - 48)
     else if 97 \<le> n \<and> n \<le> 102 then Some (n - 87)
     else if 65 \<le> n \<and> n \<le> 70 then Some (n - 55) else None)"

definition is_space :: "byte \<Rightarrow> bool" where
  "is_space c \<longleftrightarrow> c = 32 \<or> 9 \<le> c \<and> c \<le> 13"

text \<open>\<open>sscanf(s, "%02x", &value)\<close>: white space is skipped, then at most two characters are read,
  an optional sign and hexadecimal digits (a bare \<open>0x\<close> is not a number).\<close>

definition sscanf_02x :: "byte list \<Rightarrow> int option" where
  "sscanf_02x s =
     (case take 2 (dropWhile is_space s) of
        [] \<Rightarrow> None
      | [c] \<Rightarrow> map_option int (hex_value c)
      | c # d # _ \<Rightarrow>
          if c = 43 then map_option int (hex_value d)
          else if c = 45 then map_option (\<lambda>v. - int v) (hex_value d)
          else if c = 48 \<and> (d = 120 \<or> d = 88) then None
          else (case hex_value c of None \<Rightarrow> None
                | Some v \<Rightarrow> Some (case hex_value d of None \<Rightarrow> int v
                                  | Some w \<Rightarrow> int (16 * v + w))))"

text \<open>\<open>from\<close> is the block the pointer points into. \<open>None\<close>: the scan leaves the block. The inner
  value is \<open>None\<close> where the code returns 0.\<close>

fun hex_to_bytes :: "byte list \<Rightarrow> byte list option option" where
  "hex_to_bytes [] = None"
| "hex_to_bytes (c # cs) =
     (if c = 0 then Some (Some [])
      else case sscanf_02x (takeWhile (\<lambda>c. c \<noteq> 0) (c # cs)) of
             None \<Rightarrow> Some None
           | Some value \<Rightarrow> map_option (map_option ((#) (word_of_int value))) (hex_to_bytes (tl cs)))"

text \<open>Each \<open>sprintf\<close> writes two digits and a zero, which the next pair overwrites.\<close>

definition sprintf_02x :: "byte \<Rightarrow> byte list" where
  "sprintf_02x b = [hex_digit (unat b div 16), hex_digit (unat b mod 16), 0]"

fun bytes_to_hex :: "byte list \<Rightarrow> byte list" where
  "bytes_to_hex [] = []"
| "bytes_to_hex [b] = sprintf_02x b"
| "bytes_to_hex (b # bs) = take 2 (sprintf_02x b) @ bytes_to_hex bs"

section \<open>Decoding inverts encoding\<close>

lemma six_digit_all: "\<forall>n \<in> set [0..<64]. pr2six ! unat (basis_64 ! n) = of_nat n"
  by code_simp

lemma six_digit: "v \<le> 63 \<Longrightarrow> six (digit v) = v"
proof -
  assume "v \<le> 63"
  then have "unat v \<in> set [0..<64]" by (simp add: word_le_nat_alt)
  then have "six (digit v) = of_nat (unat v)"
    using six_digit_all unfolding six_def digit_def by blast
  then show ?thesis by simp
qed

lemma less_8_cases: "n < 8 \<longleftrightarrow> n \<in> {0, 1, 2, 3, 4, 5, 6, 7 :: nat}"
  by auto

lemma byte_eqI: "(\<And>n. n \<in> {0, 1, 2, 3, 4, 5, 6, 7} \<Longrightarrow> bit (a :: byte) n = bit b n) \<Longrightarrow> a = b"
  by (rule bit_word_eqI) (simp add: less_8_cases)

lemma le_63: "v AND 0x3F = v \<Longrightarrow> v \<le> (63 :: byte)"
  by (metis word_and_le1)

lemma six_dig:
  "six (dig1 a) = drop_bit 2 a AND 0x3F"
  "six (dig2 a b) = push_bit 4 (a AND 0x3) OR drop_bit 4 (b AND 0xF0)"
  "six (dig3 b c) = push_bit 2 (b AND 0xF) OR drop_bit 6 (c AND 0xC0)"
  "six (dig4 c) = c AND 0x3F"
  "six (dig2_last a) = push_bit 4 (a AND 0x3)"
  "six (dig3_last b) = push_bit 2 (b AND 0xF)"
  unfolding dig1_def dig2_def dig3_def dig4_def dig2_last_def dig3_last_def
  by (rule six_digit, rule le_63, rule byte_eqI, auto simp: bit_simps)+

lemma out_bytes:
  "push_bit 2 (six (dig1 a)) OR drop_bit 4 (six (dig2 a b)) = a"
  "push_bit 4 (six (dig2 a b)) OR drop_bit 2 (six (dig3 b c)) = b"
  "push_bit 6 (six (dig3 b c)) OR six (dig4 c) = c"
  "push_bit 2 (six (dig1 a)) OR drop_bit 4 (six (dig2_last a)) = a"
  "push_bit 4 (six (dig2 a b)) OR drop_bit 2 (six (dig3_last b)) = b"
  unfolding six_dig
  by (rule byte_eqI; auto simp: bit_simps numeral_2_eq_2 [symmetric] numeral_3_eq_3 [symmetric])+

lemma outs [simp]:
  "out1 (dig1 a # dig2 a b # t) = a"
  "out2 (x # dig2 a b # dig3 b c # t) = b"
  "out3 (x # y # dig3 b c # dig4 c # t) = c"
  "out1 (dig1 a # dig2_last a # t) = a"
  "out2 (x # dig2 a b # dig3_last b # t) = b"
  by (simp_all add: out1_def out2_def out3_def out_bytes)

lemma decode_quads_step:
  "4 < n \<Longrightarrow> decode_quads buf n out =
     decode_quads (drop 4 buf) (n - 4) (out @ [out1 buf, out2 buf, out3 buf])"
  by (subst decode_quads.simps) simp

lemma decode_quads_stop: "\<not> 4 < n \<Longrightarrow> decode_quads buf n out = (buf, n, out)"
  by (subst decode_quads.simps) simp

text \<open>The text the encoder writes: the digits, and what stands after them.\<close>

fun digits64 :: "byte list \<Rightarrow> byte list" where
  "digits64 [] = []"
| "digits64 [a] = [dig1 a, dig2_last a]"
| "digits64 [a, b] = [dig1 a, dig2 a b, dig3_last b]"
| "digits64 (a # b # c # s) = [dig1 a, dig2 a b, dig3 b c, dig4 c] @ digits64 s"

fun tail64 :: "byte list \<Rightarrow> byte list" where
  "tail64 [] = [0]"
| "tail64 [a] = [0x3D, 0x3D, 0]"
| "tail64 [a, b] = [0x3D, 0]"
| "tail64 (a # b # c # s) = tail64 s"

definition encode_rest :: "byte list \<times> byte list \<Rightarrow> byte list" where
  "encode_rest = (\<lambda>(s, p). case s of
       [] \<Rightarrow> p @ [0]
     | [a] \<Rightarrow> p @ [dig1 a] @ [dig2_last a, 0x3D] @ [0x3D] @ [0]
     | a # b # _ \<Rightarrow> p @ [dig1 a] @ [dig2 a b, dig3_last b] @ [0x3D] @ [0])"

lemma encode_rest_groups: "encode_rest (encode_groups s p) = p @ digits64 s @ tail64 s"
  by (induction s arbitrary: p rule: digits64.induct) (simp_all add: encode_rest_def)

lemma Base64encode_digits:
  "Base64encode s = (digits64 s @ tail64 s, length (digits64 s @ tail64 s))"
proof -
  have "fst (Base64encode s) = encode_rest (encode_groups s [])"
    by (simp add: Base64encode_def encode_rest_def Let_def split: prod.split list.split)
  moreover have "snd (Base64encode s) = length (fst (Base64encode s))"
    by (simp add: Base64encode_def Let_def split: prod.split)
  ultimately show ?thesis by (simp add: encode_rest_groups prod_eq_iff)
qed

lemma digits64_digits: "\<forall>c \<in> set (digits64 s). six c \<le> 63"
proof -
  have le: "drop_bit 2 a AND 0x3F \<le> 63" "push_bit 4 (a AND 0x3) OR drop_bit 4 (b AND 0xF0) \<le> 63"
      "push_bit 2 (b AND 0xF) OR drop_bit 6 (c AND 0xC0) \<le> 63" "c AND 0x3F \<le> 63"
      "push_bit 4 (a AND 0x3) \<le> 63" "push_bit 2 (b AND 0xF) \<le> 63" for a b c :: byte
    by (rule le_63, rule byte_eqI, auto simp: bit_simps)+
  show ?thesis
    by (induction s rule: digits64.induct) (simp_all only: digits64.simps list.set append.simps
        ball_simps six_dig le simp_thms insert_iff empty_iff)
qed

lemma scan_digits_stop:
  "\<forall>c \<in> set xs. six c \<le> 63 \<Longrightarrow> \<not> six z \<le> 63 \<Longrightarrow> scan_digits (xs @ z # t) = Some (length xs)"
  by (induction xs) simp_all

lemma tail64_stop: "\<exists>z t. tail64 s = z # t \<and> \<not> six z \<le> 63"
proof -
  have "\<not> six 0 \<le> 63" "\<not> six 0x3D \<le> 63" by code_simp+
  then show ?thesis by (induction s rule: tail64.induct) simp_all
qed

lemma scan_encoded: "scan_digits (digits64 s @ tail64 s) = Some (length (digits64 s))"
  using tail64_stop [of s] scan_digits_stop [OF digits64_digits [of s]] by metis

definition decode_rest :: "byte list \<times> nat \<times> byte list \<Rightarrow> byte list" where
  "decode_rest = (\<lambda>(bufin, n, bufout).
     bufout @ (if n > 1 then [out1 bufin] else []) @ (if n > 2 then [out2 bufin] else []) @
     (if n > 3 then [out3 bufin] else []) @ [0])"

lemma decode_rest_quads:
  "decode_rest (decode_quads (digits64 s @ t) (length (digits64 s)) out) = out @ s @ [0]"
proof (induction s arbitrary: out rule: digits64.induct)
  case (4 a b c s)
  show ?case
  proof (cases "s = []")
    case True
    then show ?thesis by (simp add: decode_quads_stop decode_rest_def)
  next
    case False
    then have "0 < length (digits64 s)" by (cases s rule: digits64.cases) simp_all
    then show ?thesis using 4 [of "out @ [a, b, c]"] by (simp add: decode_quads_step)
  qed
qed (simp_all add: decode_quads_stop decode_rest_def)

lemma Base64decode_rest:
  "Base64decode buf = (case scan_digits buf of None \<Rightarrow> None
     | Some n \<Rightarrow> Some (decode_rest (decode_quads buf n []),
         (n + 3) div 4 * 3 - (4 - fst (snd (decode_quads buf n []))) mod 4))"
  by (simp add: Base64decode_def decode_rest_def Let_def split: option.split prod.split)

text \<open>The returned count is one less than the number of bytes written.\<close>

lemma decode_quads_count:
  "\<exists>m. fst (snd (decode_quads buf n out)) = m \<and> m \<le> 4 \<and> (0 < n \<longrightarrow> 0 < m) \<and> m mod 4 = n mod 4 \<and>
     length (snd (snd (decode_quads buf n out))) + m div 4 * 3 = length out + n div 4 * 3"
proof (induction buf n out rule: decode_quads.induct)
  case (1 buf n out)
  show ?case
  proof (cases "n > 4")
    case True
    then obtain k where n: "n = k + 4" "0 < k" by (metis less_imp_add_positive add.commute)
    have "(k + 4) div 4 * 3 = k div 4 * 3 + 3" by presburger
    with n 1 show ?thesis by (simp add: decode_quads_step)
  next
    case False
    then show ?thesis by (auto simp: decode_quads_stop)
  qed
qed

lemma count_step:
  "(k + 7) div 4 * 3 - (4 - k mod 4) mod 4 = (k + 3) div 4 * 3 - (4 - k mod 4) mod 4 + (3 :: nat)"
proof -
  obtain q r where k: "k = 4 * q + r" "r < 4"
    by (metis mod_less_divisor mult_div_mod_eq zero_less_numeral)
  have "r = 0 \<or> r = 1 \<or> r = 2 \<or> r = 3" using k(2) by auto
  then show ?thesis unfolding k(1) by auto
qed

lemma hex_digit_all:
  "\<forall>d \<in> set [0..<16]. hex_value (hex_digit d) = Some d \<and> hex_digit d \<notin> {0, 43, 45, 88, 120} \<and>
     \<not> is_space (hex_digit d)"
  by code_simp

lemma hex_digit_facts [simp]:
  assumes "d < 16"
  shows "hex_value (hex_digit d) = Some d" "hex_digit d \<noteq> 0" "hex_digit d \<noteq> 43"
    "hex_digit d \<noteq> 45" "hex_digit d \<noteq> 88" "hex_digit d \<noteq> 120" "\<not> is_space (hex_digit d)"
  using assms hex_digit_all by auto

lemma high_nibble [simp]: "unat (b :: byte) div 16 < 16"
  using unat_byte_less [of b] by (simp add: less_mult_imp_div_less)

lemma sscanf_pair:
  "sscanf_02x (hex_digit (unat b div 16) # hex_digit (unat b mod 16) # t) = Some (int (unat (b :: byte)))"
proof -
  have "int (unat b) div 16 * 16 + int (unat b) mod 16 = int (unat b)" by simp
  then show ?thesis
    by (simp add: sscanf_02x_def del: hex_value.simps flip: zdiv_int zmod_int)
qed

section \<open>Properties\<close>

text \<open>Decoding what \<open>Base64encode\<close> writes gives back every byte string, with its length and
  a final zero.\<close>

theorem base64_roundtrip: "Base64decode (fst (Base64encode s)) = Some (s @ [0], length s)"
proof -
  let ?n = "length (digits64 s)"
  obtain m where m: "fst (snd (decode_quads (digits64 s @ tail64 s) ?n [])) = m" "m \<le> 4"
      "0 < ?n \<longrightarrow> 0 < m" "m mod 4 = ?n mod 4"
    using decode_quads_count by blast
  have "m = 0 \<or> m = 1 \<or> m = 2 \<or> m = 3 \<or> m = 4" using m(2) by auto
  moreover have "(?n + 3) div 4 * 3 - (4 - ?n mod 4) mod 4 = length s"
  proof (induction s rule: digits64.induct)
    case (4 a b c s)
    show ?case using 4 count_step [of "length (digits64 s)"] by (simp add: add.commute)
  qed simp_all
  ultimately have "(?n + 3) div 4 * 3 - (4 - m) mod 4 = length s"
    using m(3,4) by auto
  then show ?thesis
    using decode_rest_quads [of s "tail64 s" "[]"] m(1)
    by (simp add: Base64encode_digits Base64decode_rest scan_encoded)
qed

text \<open>\<open>Base64encode_len\<close> is exactly the room the encoder needs: the number of bytes it
  writes, which is also what it returns.\<close>

theorem base64_encode_length:
  "length (fst (Base64encode s)) = Base64encode_len (length s) \<and>
   snd (Base64encode s) = Base64encode_len (length s)"
proof -
  have "length (digits64 s @ tail64 s) = Base64encode_len (length s)"
  proof (induction s rule: digits64.induct)
    case (4 a b c s)
    have "(k + 5) div 3 * 4 = (k + 2) div 3 * 4 + 4" for k :: nat by presburger
    then show ?case using 4 by (simp add: Base64encode_len_def add.commute)
  qed (simp_all add: Base64encode_len_def)
  then show ?thesis by (simp add: Base64encode_digits)
qed

text \<open>On every input that ends in its block, valid base64 or not, the decoder writes one byte
  more than the count it returns and never more than \<open>Base64decode_len\<close> reserves.\<close>

theorem base64_decode_bounds:
  "case Base64decode buf of None \<Rightarrow> Base64decode_len buf = None
   | Some (out, n) \<Rightarrow> length out = n + 1 \<and> (\<exists>m \<ge> length out. Base64decode_len buf = Some m)"
proof (cases "scan_digits buf")
  case None
  then show ?thesis by (simp add: Base64decode_rest Base64decode_len_def)
next
  case (Some n)
  obtain b m out where q: "decode_quads buf n [] = (b, m, out)" by (cases "decode_quads buf n []") auto
  have m: "m \<le> 4" "0 < n \<Longrightarrow> 0 < m" "m mod 4 = n mod 4" "length out + m div 4 * 3 = n div 4 * 3"
    using decode_quads_count [of buf n "[]"] by (auto simp: q)
  have len: "length (decode_rest (b, m, out)) = length out + (m - 1) + 1"
    using m(1) by (auto simp: decode_rest_def)
  obtain k r where n: "n = 4 * k + r" "r < 4" by (metis mod_less_divisor mult_div_mod_eq zero_less_numeral)
  have "m = 0 \<or> m = 1 \<or> m = 2 \<or> m = 3 \<or> m = 4" "r = 0 \<or> r = 1 \<or> r = 2 \<or> r = 3"
    using m(1) n(2) by auto
  then have "(n + 3) div 4 * 3 - (4 - m) mod 4 = length out + (m - 1)"
      "length out + (m - 1) \<le> (n + 3) div 4 * 3"
    using m n by auto
  with len show ?thesis by (simp add: Base64decode_rest Base64decode_len_def Some q)
qed

text \<open>\<open>hex_to_bytes\<close> reads back the bytes that \<open>bytes_to_hex\<close> printed, up to the zero.\<close>

theorem hex_roundtrip: "hex_to_bytes (bytes_to_hex bs @ [0]) = Some (Some bs)"
proof (induction bs rule: bytes_to_hex.induct)
  case (2 b)
  show ?case using sscanf_pair [of b "[]"] by (simp add: sprintf_02x_def)
next
  case (3 b c bs)
  show ?case
    using 3 sscanf_pair [of b "takeWhile (\<lambda>c. c \<noteq> 0) (bytes_to_hex (c # bs) @ [0])"]
    by (simp add: sprintf_02x_def)
qed simp

end
