(* ===== verification/Interfaces.thy ===== *)
theory Interfaces
  imports Prelude
begin

text \<open>
  The contracts between components, as locales: the operations a client calls and the laws
  it relies on. Each provider interprets them on its own definitions.
\<close>

section \<open>A first-in first-out byte queue\<close>

text \<open>Feeding a queue a list of chunks, stopping where an operation has no result.\<close>

fun put_seq :: "(byte list \<Rightarrow> 'q \<Rightarrow> ('q \<times> int) option) \<Rightarrow> byte list list \<Rightarrow> 'q \<Rightarrow> 'q option" where
  "put_seq put [] q = Some q"
| "put_seq put (xs # xss) q =
     (case put xs q of None \<Rightarrow> None | Some (q', _) \<Rightarrow> put_seq put xss q')"

text \<open>\<open>env\<close> says when the environment (the allocator) can serve the queue, \<open>inv\<close> is the
  invariant, \<open>bytes\<close> the queued bytes and \<open>room n\<close> that \<open>n\<close> more bytes can be queued.\<close>

locale byte_queue =
  fixes env :: "'e \<Rightarrow> bool"
    and inv :: "'q \<Rightarrow> bool"
    and bytes :: "'q \<Rightarrow> byte list"
    and room :: "nat \<Rightarrow> 'q \<Rightarrow> bool"
    and put :: "'e \<Rightarrow> byte list \<Rightarrow> 'q \<Rightarrow> ('q \<times> int) option"
    and get :: "nat \<Rightarrow> 'q \<Rightarrow> ('q \<times> byte list \<times> int) option"
  assumes put_law: "env e \<Longrightarrow> inv q \<Longrightarrow> room (length xs + m) q \<Longrightarrow>
      \<exists>q'. put e xs q = Some (q', int (length xs)) \<and> inv q' \<and> bytes q' = bytes q @ xs \<and> room m q'"
    and get_law: "inv q \<Longrightarrow> n \<le> length (bytes q) \<Longrightarrow> n < 2 ^ 31 \<Longrightarrow>
      \<exists>q'. get n q = Some (q', take n (bytes q), int n) \<and> inv q' \<and> bytes q' = drop n (bytes q)"
    and get_short: "inv q \<Longrightarrow> length (bytes q) < n \<Longrightarrow> get n q = Some (q, [], -1)"
    and room_bound: "room n q \<Longrightarrow> n < 2 ^ 31"
begin

lemma put_obtain:
  assumes "env e" and "inv q" and "room (length xs + m) q"
  obtains q' where "put e xs q = Some (q', int (length xs))" "inv q'"
    "bytes q' = bytes q @ xs" "room m q'"
  using put_law [OF assms] by blast

lemma get_obtain:
  assumes "inv q" and "n \<le> length (bytes q)" and "n < 2 ^ 31"
  obtains q' where "get n q = Some (q', take n (bytes q), int n)" "inv q'"
    "bytes q' = drop n (bytes q)"
  using get_law [OF assms] by blast

lemma put_seq_bytes:
  assumes "env e" and "inv q" and "room (length (concat xss) + m) q"
  shows "\<exists>q'. put_seq (put e) xss q = Some q' \<and> inv q' \<and> bytes q' = bytes q @ concat xss \<and> room m q'"
  using assms(2,3)
proof (induction xss arbitrary: q)
  case Nil
  then show ?case by simp
next
  case (Cons xs xss)
  have "room (length xs + (length (concat xss) + m)) q"
    using Cons.prems(2) by (simp add: add.assoc)
  with assms(1) Cons.prems(1) obtain q1 where
    q1: "put e xs q = Some (q1, int (length xs))" "inv q1" "bytes q1 = bytes q @ xs"
        "room (length (concat xss) + m) q1"
    by (rule put_obtain)
  with Cons.IH [OF q1(2,4)] show ?case by auto
qed

text \<open>What was queued comes out first, in order, whatever the chunks were.\<close>

lemma put_seq_then_get:
  assumes "env e" and "inv q" and "bytes q = []" and "room (length (concat xss)) q"
    and "n \<le> length (concat xss)"
  shows "\<exists>q1 q2. put_seq (put e) xss q = Some q1 \<and>
    get n q1 = Some (q2, take n (concat xss), int n) \<and> inv q2 \<and> bytes q2 = drop n (concat xss)"
proof -
  obtain q1 where q1: "put_seq (put e) xss q = Some q1" "inv q1" "bytes q1 = concat xss"
    using put_seq_bytes [of e q xss 0] assms by auto
  moreover have "n < 2 ^ 31" using room_bound [OF assms(4)] assms(5) by simp
  ultimately show ?thesis using get_law [of q1 n] assms(5) by auto
qed

end

section \<open>Messages framed on a byte queue\<close>

fun enc_all :: "('m \<Rightarrow> 'q \<Rightarrow> 'q option) \<Rightarrow> 'm list \<Rightarrow> 'q \<Rightarrow> 'q option" where
  "enc_all enc [] q = Some q"
| "enc_all enc (m # ms) q = (case enc m q of None \<Rightarrow> None | Some q' \<Rightarrow> enc_all enc ms q')"

fun dec_all :: "('q \<Rightarrow> ('q \<times> 'm) option) \<Rightarrow> nat \<Rightarrow> 'q \<Rightarrow> ('q \<times> 'm list) option" where
  "dec_all dcr 0 q = Some (q, [])"
| "dec_all dcr (Suc n) q =
     (case dcr q of None \<Rightarrow> None
      | Some (q', m) \<Rightarrow> map_option (\<lambda>(q'', ms). (q'', m # ms)) (dec_all dcr n q'))"

text \<open>An encoder appends the frame of a message, a decoder takes one frame off the front.\<close>

locale frame_codec =
  fixes env :: "'e \<Rightarrow> bool"
    and inv :: "'q \<Rightarrow> bool"
    and bytes :: "'q \<Rightarrow> byte list"
    and room :: "nat \<Rightarrow> 'q \<Rightarrow> bool"
    and ok :: "'e \<Rightarrow> 'm \<Rightarrow> bool"
    and frame :: "'e \<Rightarrow> 'm \<Rightarrow> byte list"
    and enc :: "'e \<Rightarrow> 'm \<Rightarrow> 'q \<Rightarrow> 'q option"
    and dcr :: "'e \<Rightarrow> 'q \<Rightarrow> ('q \<times> 'm) option"
  assumes enc_law: "env e \<Longrightarrow> inv q \<Longrightarrow> ok e m \<Longrightarrow> room (length (frame e m) + k) q \<Longrightarrow>
      \<exists>q'. enc e m q = Some q' \<and> inv q' \<and> bytes q' = bytes q @ frame e m \<and> room k q'"
    and dec_law: "env e \<Longrightarrow> inv q \<Longrightarrow> ok e m \<Longrightarrow> bytes q = frame e m @ rest \<Longrightarrow>
      \<exists>q'. dcr e q = Some (q', m) \<and> inv q' \<and> bytes q' = rest"
begin

lemma enc_all_bytes:
  assumes "env e" and "inv q" and "\<forall>m \<in> set ms. ok e m"
    and "room (length (concat (map (frame e) ms)) + k) q"
  shows "\<exists>q'. enc_all (enc e) ms q = Some q' \<and> inv q' \<and>
    bytes q' = bytes q @ concat (map (frame e) ms) \<and> room k q'"
  using assms(2-4)
proof (induction ms arbitrary: q)
  case Nil
  then show ?case by simp
next
  case (Cons m ms)
  have "room (length (frame e m) + (length (concat (map (frame e) ms)) + k)) q"
    using Cons.prems(3) by (simp add: add.assoc)
  moreover have "ok e m" using Cons.prems(2) by simp
  ultimately obtain q1 where q1: "enc e m q = Some q1" "inv q1" "bytes q1 = bytes q @ frame e m"
      "room (length (concat (map (frame e) ms)) + k) q1"
    using enc_law [OF assms(1) Cons.prems(1)] by blast
  moreover have "\<forall>m \<in> set ms. ok e m" using Cons.prems(2) by simp
  ultimately show ?case using Cons.IH [OF q1(2) _ q1(4)] by auto
qed

lemma dec_all_frames:
  assumes "env e" and "inv q" and "\<forall>m \<in> set ms. ok e m"
    and "bytes q = concat (map (frame e) ms) @ rest"
  shows "\<exists>q'. dec_all (dcr e) (length ms) q = Some (q', ms) \<and> inv q' \<and> bytes q' = rest"
  using assms(2-4)
proof (induction ms arbitrary: q)
  case Nil
  then show ?case by simp
next
  case (Cons m ms)
  have "ok e m" "bytes q = frame e m @ (concat (map (frame e) ms) @ rest)"
    using Cons.prems by simp_all
  then obtain q1 where q1: "dcr e q = Some (q1, m)" "inv q1"
      "bytes q1 = concat (map (frame e) ms) @ rest"
    using dec_law [OF assms(1) Cons.prems(1)] by blast
  with Cons.IH [OF q1(2) _ q1(3)] Cons.prems(2) show ?case by auto
qed

text \<open>A sequence of messages queued one after the other is decoded message by message.\<close>

lemma stream:
  assumes "env e" and "inv q" and "bytes q = []" and "\<forall>m \<in> set ms. ok e m"
    and "room (length (concat (map (frame e) ms))) q"
  shows "\<exists>q1 q2. enc_all (enc e) ms q = Some q1 \<and>
    dec_all (dcr e) (length ms) q1 = Some (q2, ms) \<and> inv q2 \<and> bytes q2 = []"
proof -
  obtain q1 where q1: "enc_all (enc e) ms q = Some q1" "inv q1"
      "bytes q1 = concat (map (frame e) ms)"
    using enc_all_bytes [OF assms(1,2,4), of 0] assms(3,5) by auto
  moreover obtain q2 where "dec_all (dcr e) (length ms) q1 = Some (q2, ms)" "inv q2" "bytes q2 = []"
    using dec_all_frames [OF assms(1) q1(2) assms(4), of "[]"] q1(3) by auto
  ultimately show ?thesis by blast
qed

end

end
