(* ===== verification/CBuffer.thy ===== *)
theory CBuffer
  imports Interfaces
begin

text \<open>
  The growing byte buffer \<open>loss::CBuffer\<close> (\<open>loss/src/util/CBuffer.hpp\<close>, \<open>CBuffer.cpp\<close>): a
  heap block with a read and a write index, which every codec and connection of the system
  uses. Sizes are \<open>size_t\<close> values (naturals below \<open>2 ^ 64\<close>, wrap-around written out), results
  of C type \<open>int\<close> go through the conversion the code makes. An operation returns \<open>None\<close> where
  the C++ code has no defined result: an access outside the allocated block, or a loop that
  does not end. \<open>malloc\<close> is an argument; it returns the null pointer or a block with
  unspecified content.
\<close>

section \<open>State and index operations\<close>

record cbuffer =
  m_buffer :: "byte list option"
  m_buffer_len :: nat
  m_write_idx :: nat
  m_read_idx :: nat

definition BUFFER_MAX_READ :: nat where
  "BUFFER_MAX_READ = 8192"

definition DEFAULT_BUFFER_SIZE :: nat where
  "DEFAULT_BUFFER_SIZE = 32"

definition empty_cbuffer :: cbuffer where
  "empty_cbuffer = \<lparr>m_buffer = None, m_buffer_len = 0, m_write_idx = 0, m_read_idx = 0\<rparr>"

definition GetReadIndex :: "cbuffer \<Rightarrow> nat" where
  "GetReadIndex b = m_read_idx b"

definition GetWriteIndex :: "cbuffer \<Rightarrow> nat" where
  "GetWriteIndex b = m_write_idx b"

definition SetReadIndex :: "nat \<Rightarrow> cbuffer \<Rightarrow> cbuffer" where
  "SetReadIndex idx b = b\<lparr>m_read_idx := idx\<rparr>"

definition AdvanceReadIndex :: "int \<Rightarrow> cbuffer \<Rightarrow> cbuffer" where
  "AdvanceReadIndex step b = b\<lparr>m_read_idx := size_add_int (m_read_idx b) step\<rparr>"

definition SetWriteIndex :: "nat \<Rightarrow> cbuffer \<Rightarrow> cbuffer" where
  "SetWriteIndex idx b = b\<lparr>m_write_idx := idx\<rparr>"

definition AdvanceWriteIndex :: "int \<Rightarrow> cbuffer \<Rightarrow> cbuffer" where
  "AdvanceWriteIndex step b = b\<lparr>m_write_idx := size_add_int (m_write_idx b) step\<rparr>"

definition Readable :: "cbuffer \<Rightarrow> bool" where
  "Readable b \<longleftrightarrow> m_write_idx b > m_read_idx b"

definition Writeable :: "cbuffer \<Rightarrow> bool" where
  "Writeable b \<longleftrightarrow> m_buffer_len b > m_write_idx b"

definition ReadableBytes :: "cbuffer \<Rightarrow> nat" where
  "ReadableBytes b = (if Readable b then m_write_idx b - m_read_idx b else 0)"

definition WriteableBytes :: "cbuffer \<Rightarrow> nat" where
  "WriteableBytes b = (if Writeable b then m_buffer_len b - m_write_idx b else 0)"

definition Capacity :: "cbuffer \<Rightarrow> nat" where
  "Capacity b = m_buffer_len b"

definition Limit :: "cbuffer \<Rightarrow> cbuffer" where
  "Limit b = b\<lparr>m_buffer_len := m_write_idx b\<rparr>"

definition Clear :: "cbuffer \<Rightarrow> cbuffer" where
  "Clear b = b\<lparr>m_write_idx := 0, m_read_idx := 0\<rparr>"

definition SkipBytes :: "nat \<Rightarrow> cbuffer \<Rightarrow> cbuffer" where
  "SkipBytes len b = AdvanceReadIndex (int_of_size len) b"

section \<open>Growing\<close>

text \<open>\<open>Compact\<close> computes with \<open>uint32_t\<close> copies of the sizes.\<close>

definition Compact :: "allocator \<Rightarrow> nat \<Rightarrow> cbuffer \<Rightarrow> (cbuffer \<times> nat) option" where
  "Compact malloc leastLength b =
     (let writableBytes = u32_of (WriteableBytes b) in
      if writableBytes < leastLength then Some (b, 0)
      else
        let readableBytes = u32_of (ReadableBytes b);
            total = u32_of (Capacity b);
            ret = u32_of (total + 2 ^ 32 - readableBytes);
            shrink = (\<lambda>newSpace. b\<lparr>m_buffer := newSpace, m_buffer_len := readableBytes,
                                   m_write_idx := readableBytes, m_read_idx := 0\<rparr>)
        in if readableBytes > 0
           then case malloc readableBytes of
                  None \<Rightarrow> Some (b, 0)
                | Some _ \<Rightarrow>
                    map_option (\<lambda>xs. (shrink (Some xs), ret))
                      (mem_load (m_buffer b) (m_read_idx b) readableBytes)
           else Some (shrink None, ret))"

text \<open>The loop \<open>while (newCapacity < minNewCapacity) newCapacity <<= 1\<close>.\<close>

partial_function (option) grow_capacity :: "nat \<Rightarrow> nat \<Rightarrow> nat option" where
  "grow_capacity newCapacity minNewCapacity =
     (if newCapacity < minNewCapacity
      then grow_capacity (size_of (2 * newCapacity)) minNewCapacity
      else Some newCapacity)"

definition EnsureWritableBytes :: "allocator \<Rightarrow> nat \<Rightarrow> cbuffer \<Rightarrow> (cbuffer \<times> bool) option" where
  "EnsureWritableBytes malloc minWritableBytes b0 =
     (if WriteableBytes b0 \<ge> minWritableBytes then Some (b0, True)
      else
        let cap0 = Capacity b0 in
        case (if cap0 > BUFFER_MAX_READ then map_option fst (Compact malloc minWritableBytes b0)
              else Some b0) of
          None \<Rightarrow> None
        | Some b \<Rightarrow>
            let cap1 = (if cap0 = 0 then DEFAULT_BUFFER_SIZE else cap0);
                minNewCapacity = size_of (GetWriteIndex b + minWritableBytes)
            in case grow_capacity cap1 minNewCapacity of
                 None \<Rightarrow> None
               | Some newCapacity \<Rightarrow>
                   (case malloc newCapacity of
                      None \<Rightarrow> Some (b, False)
                    | Some junk \<Rightarrow>
                        (case mem_load (m_buffer b) (m_read_idx b) (ReadableBytes b) of
                           None \<Rightarrow> None
                         | Some xs \<Rightarrow>
                             map_option
                               (\<lambda>tmp. (b\<lparr>m_buffer := tmp, m_buffer_len := newCapacity,
                                        m_write_idx := ReadableBytes b, m_read_idx := 0\<rparr>, True))
                               (mem_store (Some junk) 0 xs))))"

definition Reserve :: "allocator \<Rightarrow> nat \<Rightarrow> cbuffer \<Rightarrow> (cbuffer \<times> bool) option" where
  "Reserve malloc len b = EnsureWritableBytes malloc len b"

definition new_cbuffer :: "allocator \<Rightarrow> nat \<Rightarrow> cbuffer option" where
  "new_cbuffer malloc n = map_option fst (EnsureWritableBytes malloc n empty_cbuffer)"

section \<open>Reading and writing\<close>

definition Read :: "nat \<Rightarrow> cbuffer \<Rightarrow> (cbuffer \<times> byte list \<times> int) option" where
  "Read datlen b =
     (if datlen > ReadableBytes b then Some (b, [], -1)
      else map_option
             (\<lambda>xs. (b\<lparr>m_read_idx := size_of (m_read_idx b + datlen)\<rparr>, xs, int_of_size datlen))
             (mem_load (m_buffer b) (m_read_idx b) datlen))"

definition Write :: "allocator \<Rightarrow> byte list \<Rightarrow> cbuffer \<Rightarrow> (cbuffer \<times> int) option" where
  "Write malloc data_in b0 =
     (case EnsureWritableBytes malloc (length data_in) b0 of
        None \<Rightarrow> None
      | Some (b, ok) \<Rightarrow>
          if \<not> ok then Some (b, -1)
          else map_option
                 (\<lambda>buf. (b\<lparr>m_buffer := buf,
                           m_write_idx := size_of (m_write_idx b + length data_in)\<rparr>,
                         int_of_size (length data_in)))
                 (mem_store (m_buffer b) (m_write_idx b) data_in))"

text \<open>\<open>Write(CBuffer*, size_t)\<close> moves bytes from another buffer; both buffers are returned.\<close>

definition Write_unit ::
  "allocator \<Rightarrow> cbuffer option \<Rightarrow> nat \<Rightarrow> cbuffer \<Rightarrow> (cbuffer \<times> cbuffer option \<times> int) option" where
  "Write_unit malloc unit_opt datlen0 b =
     (case unit_opt of
        None \<Rightarrow> Some (b, None, -1)
      | Some u \<Rightarrow>
          let datlen = (if datlen0 > ReadableBytes u then ReadableBytes u else datlen0) in
          case mem_load (m_buffer u) (m_read_idx u) datlen of
            None \<Rightarrow> None
          | Some xs \<Rightarrow>
              (case Write malloc xs b of
                 None \<Rightarrow> None
               | Some (b', ret) \<Rightarrow>
                   Some (b',
                         Some (if ret > 0
                               then u\<lparr>m_read_idx := size_add_int (m_read_idx u) ret\<rparr> else u),
                         ret)))"

definition WriteByte :: "allocator \<Rightarrow> byte \<Rightarrow> cbuffer \<Rightarrow> (cbuffer \<times> int) option" where
  "WriteByte malloc ch b = Write malloc [ch] b"

definition Read_unit ::
  "allocator \<Rightarrow> cbuffer option \<Rightarrow> nat \<Rightarrow> cbuffer \<Rightarrow> (cbuffer \<times> cbuffer option \<times> int) option" where
  "Read_unit malloc unit_opt datlen b =
     (case unit_opt of
        None \<Rightarrow> Some (b, None, -1)
      | Some u \<Rightarrow>
          (case Write_unit malloc (Some b) datlen u of
             None \<Rightarrow> None
           | Some (u', b', ret) \<Rightarrow> Some (case b' of None \<Rightarrow> b | Some b'' \<Rightarrow> b'', Some u', ret)))"

definition SetBytes :: "byte list option \<Rightarrow> nat \<Rightarrow> cbuffer \<Rightarrow> (cbuffer \<times> int) option" where
  "SetBytes data index b =
     (case data of
        None \<Rightarrow> Some (b, -1)
      | Some xs \<Rightarrow>
          if size_of (index + length xs) > m_write_idx b then Some (b, -1)
          else map_option (\<lambda>buf. (b\<lparr>m_buffer := buf\<rparr>, int_of_size (length xs)))
                 (mem_store (m_buffer b) index xs))"

definition ReadByte :: "cbuffer \<Rightarrow> (cbuffer \<times> byte list \<times> bool) option" where
  "ReadByte b = map_option (\<lambda>(b', xs, ret). (b', xs, ret = 1)) (Read 1 b)"

definition Copyout :: "nat \<Rightarrow> cbuffer \<Rightarrow> (byte list \<times> int) option" where
  "Copyout datlen0 b =
     (if datlen0 = 0 then Some ([], 0)
      else let datlen = (if datlen0 > ReadableBytes b then ReadableBytes b else datlen0)
           in map_option (\<lambda>xs. (xs, int_of_size datlen)) (mem_load (m_buffer b) (m_read_idx b) datlen))"

definition Copyout_unit ::
  "allocator \<Rightarrow> cbuffer option \<Rightarrow> nat \<Rightarrow> cbuffer \<Rightarrow> (cbuffer option \<times> int) option" where
  "Copyout_unit malloc unit_opt datlen b =
     (case unit_opt of
        None \<Rightarrow> Some (None, -1)
      | Some u0 \<Rightarrow>
          (case EnsureWritableBytes malloc datlen u0 of
             None \<Rightarrow> None
           | Some (u, ok) \<Rightarrow>
               if \<not> ok then Some (Some u, -1)
               else (case Copyout datlen b of
                       None \<Rightarrow> None
                     | Some (xs, ret) \<Rightarrow>
                         map_option
                           (\<lambda>buf. let u' = u\<lparr>m_buffer := buf\<rparr> in
                              (Some (if ret > 0
                                     then u'\<lparr>m_write_idx := size_add_int (m_write_idx u) ret\<rparr>
                                     else u'), ret))
                           (mem_store (m_buffer u) (m_write_idx u) xs))))"

definition DiscardReadedBytes :: "cbuffer \<Rightarrow> cbuffer option" where
  "DiscardReadedBytes b =
     (if m_read_idx b > 0
      then if Readable b
           then let tmp = ReadableBytes b in
                case mem_load (m_buffer b) (m_read_idx b) tmp of
                  None \<Rightarrow> None
                | Some xs \<Rightarrow>
                    map_option (\<lambda>buf. b\<lparr>m_buffer := buf, m_write_idx := tmp, m_read_idx := 0\<rparr>)
                      (mem_store (m_buffer b) 0 xs)
           else Some (b\<lparr>m_write_idx := 0, m_read_idx := 0\<rparr>)
      else Some b)"

definition ToString :: "cbuffer \<Rightarrow> byte list option" where
  "ToString b = mem_load (m_buffer b) (m_read_idx b) (ReadableBytes b)"

section \<open>Socket transfer and searching\<close>

text \<open>\<open>send\<close> and \<open>readv\<close> are system calls: their outcome, an \<open>errno\<close> or what was
  transferred, is an argument.\<close>

definition WriteFD :: "int + nat \<Rightarrow> cbuffer \<Rightarrow> cbuffer \<times> int \<times> int option" where
  "WriteFD sent b =
     (if int_of_size (ReadableBytes b) = 0 then (b, 0, None)
      else case sent of
             Inl e \<Rightarrow> (b, -1, Some e)
           | Inr n \<Rightarrow> (b\<lparr>m_read_idx := size_of (m_read_idx b + n)\<rparr>, int n, None))"

definition ReadFD ::
  "allocator \<Rightarrow> int + byte list \<Rightarrow> cbuffer \<Rightarrow> (cbuffer \<times> int \<times> int option) option" where
  "ReadFD malloc received b =
     (let writable = WriteableBytes b in
      case received of
        Inl e \<Rightarrow> Some (b, -1, Some e)
      | Inr xs \<Rightarrow>
          (case mem_store (m_buffer b) (m_write_idx b) (take writable xs) of
             None \<Rightarrow> None
           | Some buf \<Rightarrow>
               if length xs \<le> writable
               then Some (b\<lparr>m_buffer := buf, m_write_idx := size_of (m_write_idx b + length xs)\<rparr>,
                          int (length xs), None)
               else map_option (\<lambda>(b', _). (b', int (length xs), None))
                      (Write malloc (drop writable xs)
                        (b\<lparr>m_buffer := buf, m_write_idx := m_buffer_len b\<rparr>))))"

text \<open>\<open>memchr\<close>: the offset of the first byte \<open>c\<close>.\<close>

fun memchr :: "byte \<Rightarrow> byte list \<Rightarrow> nat option" where
  "memchr c [] = None"
| "memchr c (x # xs) = (if x = c then Some 0 else map_option Suc (memchr c xs))"

lemma memchr_Some: "memchr c xs = Some i \<Longrightarrow> i < length xs \<and> xs ! i = c"
  by (induction xs arbitrary: i) (auto split: if_splits)

lemma memchr_None: "memchr c xs = None \<longleftrightarrow> c \<notin> set xs"
  by (induction xs) auto

text \<open>The search loop of \<open>IndexOf\<close>; \<open>mem\<close> is the block, \<open>start_idx\<close> the loop variable. The
  loop advances by the length of the pattern after a mismatch.\<close>

function IndexOf_loop :: "byte list \<Rightarrow> byte list \<Rightarrow> nat \<Rightarrow> nat \<Rightarrow> int option" where
  "IndexOf_loop mem data start_idx end_idx =
     (if data = [] \<or> \<not> start_idx < end_idx then Some (-1)
      else case memchr (hd data) (take (end_idx - start_idx) (drop start_idx mem)) of
             None \<Rightarrow> Some (-1)
           | Some off \<Rightarrow>
               let idx = start_idx + off in
               if length data = 1 then Some (int_of_size idx)
               else (case mem_load (Some mem) idx (length data) of
                       None \<Rightarrow> None
                     | Some xs \<Rightarrow>
                         if xs = data
                         then Some (if idx + length data > end_idx then -1 else int_of_size idx)
                         else IndexOf_loop mem data (idx + length data) end_idx))"
  by pat_completeness auto
termination
  by (relation "measure (\<lambda>(mem, data, start_idx, end_idx). end_idx - start_idx)")
     (auto simp: neq_Nil_conv)

declare IndexOf_loop.simps [simp del]

definition IndexOf :: "byte list \<Rightarrow> nat \<Rightarrow> nat \<Rightarrow> cbuffer \<Rightarrow> int option" where
  "IndexOf data start end_idx b =
     (if data = [] then Some (-1)
      else if size_of (start + length data) > end_idx \<or> end_idx > m_write_idx b then Some (-1)
      else case m_buffer b of
             None \<Rightarrow> (if start < end_idx then None else Some (-1))
           | Some mem \<Rightarrow> (if end_idx \<le> length mem then IndexOf_loop mem data start end_idx
                         else if start < end_idx then None else Some (-1)))"

definition IndexOf_readable :: "byte list \<Rightarrow> cbuffer \<Rightarrow> int option" where
  "IndexOf_readable data b = IndexOf data (m_read_idx b) (m_write_idx b) b"

section \<open>Well-formed buffers and their content\<close>

definition wf_cbuffer :: "cbuffer \<Rightarrow> bool" where
  "wf_cbuffer b \<longleftrightarrow>
     m_read_idx b \<le> m_write_idx b \<and> m_write_idx b \<le> m_buffer_len b \<and> m_buffer_len b < 2 ^ 63 \<and>
     (case m_buffer b of None \<Rightarrow> m_buffer_len b = 0 | Some xs \<Rightarrow> m_buffer_len b \<le> length xs)"

definition contents :: "cbuffer \<Rightarrow> byte list" where
  "contents b =
     (case m_buffer b of None \<Rightarrow> []
      | Some xs \<Rightarrow> take (m_write_idx b - m_read_idx b) (drop (m_read_idx b) xs))"

text \<open>There is room for \<open>n\<close> more bytes: sizes stay far from the limits of \<open>size_t\<close> and \<open>int\<close>.\<close>

definition room :: "nat \<Rightarrow> cbuffer \<Rightarrow> bool" where
  "room n b \<longleftrightarrow> n < 2 ^ 31 \<and> m_write_idx b + n \<le> 2 ^ 62"

lemmas wf_simps = wf_cbuffer_def contents_def ReadableBytes_def Readable_def

lemma wf_empty [simp]: "wf_cbuffer empty_cbuffer" "contents empty_cbuffer = []"
  by (simp_all add: wf_cbuffer_def contents_def empty_cbuffer_def)

lemma ReadableBytes_diff [simp]: "ReadableBytes b = m_write_idx b - m_read_idx b"
  by (auto simp: ReadableBytes_def Readable_def)

lemma WriteableBytes_diff [simp]: "WriteableBytes b = m_buffer_len b - m_write_idx b"
  by (auto simp: WriteableBytes_def Writeable_def)

lemma length_contents: "wf_cbuffer b \<Longrightarrow> length (contents b) = m_write_idx b - m_read_idx b"
  by (auto simp: wf_cbuffer_def contents_def split: option.splits)

lemma load_contents:
  assumes "wf_cbuffer b" and "n \<le> length (contents b)"
  shows "mem_load (m_buffer b) (m_read_idx b) n = Some (take n (contents b))"
proof (cases "m_buffer b")
  case None
  with assms show ?thesis by (simp add: contents_def)
next
  case (Some xs)
  have "n \<le> m_write_idx b - m_read_idx b" using assms length_contents by simp
  with assms(1) Some show ?thesis
    by (auto simp: wf_cbuffer_def contents_def mem_load_def)
qed

section \<open>The growth loop\<close>

lemma grow_capacity_returns:
  assumes "0 < c" and "c < 2 ^ 63" and "m \<le> 2 ^ 62"
  shows "\<exists>c'. grow_capacity c m = Some c' \<and> m \<le> c' \<and> c \<le> c' \<and> c' < 2 ^ 63"
  using assms
proof (induction "m - c" arbitrary: c rule: less_induct)
  case less
  show ?case
  proof (cases "c < m")
    case False
    with less.prems show ?thesis by (subst grow_capacity.simps) auto
  next
    case True
    with less.prems have step: "2 * c < 2 ^ 63" "m - 2 * c < m - c" by auto
    then have "size_of (2 * c) = 2 * c" by simp
    moreover obtain c' where "grow_capacity (2 * c) m = Some c'" "m \<le> c'" "2 * c \<le> c'" "c' < 2 ^ 63"
      using less.hyps [OF step(2)] less.prems step(1) by auto
    ultimately show ?thesis
      using True by (subst grow_capacity.simps) auto
  qed
qed

text \<open>From a capacity that has been shifted out to zero the loop never ends.\<close>

lemma grow_capacity_zero: "0 < m \<Longrightarrow> grow_capacity 0 m = None"
proof (rule ccontr)
  assume m: "0 < m" and "grow_capacity 0 m \<noteq> None"
  then obtain y where ret: "grow_capacity 0 m = Some y" by blast
  have "\<not> (0 = (0::nat) \<and> 0 < m)"
  proof (rule grow_capacity.raw_induct [where P = "\<lambda>c m y. \<not> (c = 0 \<and> 0 < m)", OF _ ret])
    fix f c m' r
    assume IH: "\<And>c m y. f c m = Some y \<Longrightarrow> \<not> (c = 0 \<and> 0 < m)"
      and eq: "(if c < m' then f (size_of (2 * c)) m' else Some c) = Some r"
    show "\<not> (c = 0 \<and> 0 < m')"
    proof
      assume "c = 0 \<and> 0 < m'"
      with eq have "f 0 m' = Some r" by (simp add: size_of_def)
      with IH \<open>c = 0 \<and> 0 < m'\<close> show False by blast
    qed
  qed
  with m show False by simp
qed

lemma grow_capacity_overflow:
  assumes "k \<le> 63" and "2 ^ 63 < m" and "m < 2 ^ 64"
  shows "grow_capacity (2 ^ k) m = None"
  using assms(1)
proof (induction "63 - k" arbitrary: k)
  case 0
  then have "k = 63" by simp
  with assms show ?case
    by (subst grow_capacity.simps) (simp add: size_of_def grow_capacity_zero)
next
  case (Suc n)
  then have k: "k < 63" "n = 63 - Suc k" by auto
  have "(2::nat) ^ k < 2 ^ 63" using k by (intro power_strict_increasing) auto
  moreover have "(2::nat) ^ Suc k < 2 ^ 64" using k by (intro power_strict_increasing) auto
  moreover have "grow_capacity (2 ^ Suc k) m = None"
    using Suc.hyps(1) [OF k(2)] k by simp
  ultimately show ?case
    using assms by (subst grow_capacity.simps) (simp add: size_of_def)
qed

section \<open>Correctness of the operations\<close>

lemma Compact_noop: "WriteableBytes b < n \<Longrightarrow> Compact malloc n b = Some (b, 0)"
  using u32_of_le [of "WriteableBytes b"] by (simp add: Compact_def Let_def)

lemma EnsureWritableBytes_spec:
  assumes wf: "wf_cbuffer b" and m: "malloc_ok malloc" and n: "m_write_idx b + n \<le> 2 ^ 62"
  shows "\<exists>b' ok. EnsureWritableBytes malloc n b = Some (b', ok) \<and> wf_cbuffer b' \<and>
           contents b' = contents b \<and> m_write_idx b' \<le> m_write_idx b \<and>
           (ok \<longrightarrow> n \<le> m_buffer_len b' - m_write_idx b' \<and> (m_buffer b' = None \<longrightarrow> n = 0)) \<and>
           (\<not> ok \<longrightarrow> b' = b) \<and> (malloc_total malloc \<longrightarrow> ok)"
proof (cases "n \<le> m_buffer_len b - m_write_idx b")
  case True
  with wf show ?thesis
    by (intro exI [of _ b] exI [of _ True])
       (auto simp: EnsureWritableBytes_def wf_cbuffer_def split: option.splits)
next
  case False
  let ?c1 = "if m_buffer_len b = 0 then DEFAULT_BUFFER_SIZE else m_buffer_len b"
  let ?m = "m_write_idx b + n"
  have c1: "0 < ?c1" "?c1 < 2 ^ 63"
    using wf by (auto simp: DEFAULT_BUFFER_SIZE_def wf_cbuffer_def)
  obtain c where c: "grow_capacity ?c1 ?m = Some c" "?m \<le> c" "c < 2 ^ 63"
    using grow_capacity_returns [OF c1 n] by auto
  have sz: "size_of ?m = ?m" using n by simp
  have noop: "(if m_buffer_len b > BUFFER_MAX_READ then map_option fst (Compact malloc n b) else Some b) = Some b"
    using False by (simp add: Compact_noop)
  have ld: "mem_load (m_buffer b) (m_read_idx b) (m_write_idx b - m_read_idx b) = Some (contents b)"
    using load_contents [OF wf, of "length (contents b)"] by (simp add: length_contents [OF wf])
  have eq: "EnsureWritableBytes malloc n b =
      (case malloc c of None \<Rightarrow> Some (b, False)
       | Some junk \<Rightarrow>
           map_option (\<lambda>tmp. (b\<lparr>m_buffer := tmp, m_buffer_len := c,
                               m_write_idx := m_write_idx b - m_read_idx b, m_read_idx := 0\<rparr>, True))
             (mem_store (Some junk) 0 (contents b)))"
    using False noop c(1) sz ld
    by (simp add: EnsureWritableBytes_def Let_def Capacity_def GetWriteIndex_def
        cong: option.case_cong)
  show ?thesis
  proof (cases "malloc c")
    case None
    then have "\<not> malloc_total malloc" by (auto simp: malloc_total_def)
    with None wf eq show ?thesis by auto
  next
    case (Some junk)
    have lj: "length junk = c" using m Some by (rule malloc_okD)
    have lc: "length (contents b) \<le> c"
      using length_contents [OF wf] c(2) by simp
    have st: "mem_store (Some junk) 0 (contents b) =
        Some (Some (contents b @ drop (length (contents b)) junk))"
      using lj lc by (cases "contents b = []") (auto simp: mem_store_def)
    let ?b = "b\<lparr>m_buffer := Some (contents b @ drop (length (contents b)) junk),
                m_buffer_len := c, m_write_idx := m_write_idx b - m_read_idx b, m_read_idx := 0\<rparr>"
    have "EnsureWritableBytes malloc n b = Some (?b, True)"
      using eq Some st by simp
    moreover have "wf_cbuffer ?b" "contents ?b = contents b"
      using c lj lc length_contents [OF wf] by (auto simp: wf_cbuffer_def contents_def)
    moreover have "n \<le> c - (m_write_idx b - m_read_idx b)" using c(2) by simp
    ultimately show ?thesis
      by (intro exI [of _ ?b] exI [of _ True]) simp
  qed
qed

lemma Write_spec:
  assumes wf: "wf_cbuffer b" and m: "malloc_ok malloc" and n: "room (length xs) b"
  shows "\<exists>b' r. Write malloc xs b = Some (b', r) \<and> wf_cbuffer b' \<and>
           m_write_idx b' \<le> m_write_idx b + length xs \<and>
           (r = int (length xs) \<and> contents b' = contents b @ xs \<or> r = -1 \<and> b' = b) \<and>
           (malloc_total malloc \<longrightarrow> r = int (length xs))"
proof -
  obtain b1 ok where e: "EnsureWritableBytes malloc (length xs) b = Some (b1, ok)" "wf_cbuffer b1"
      "contents b1 = contents b" "m_write_idx b1 \<le> m_write_idx b"
    and ok: "ok \<longrightarrow> length xs \<le> m_buffer_len b1 - m_write_idx b1 \<and> (m_buffer b1 = None \<longrightarrow> length xs = 0)"
      "\<not> ok \<longrightarrow> b1 = b" "malloc_total malloc \<longrightarrow> ok"
    using EnsureWritableBytes_spec [OF wf m, of "length xs"] n by (auto simp: room_def)
  show ?thesis
  proof (cases ok)
    case False
    with e ok wf show ?thesis by (auto simp: Write_def)
  next
    case True
    have sz: "size_of (m_write_idx b1 + length xs) = m_write_idx b1 + length xs"
      "int_of_size (length xs) = int (length xs)"
      using n e(4) by (auto simp: room_def)
    show ?thesis
    proof (cases "m_buffer b1")
      case None
      with True ok have "xs = []" by simp
      with e True None sz show ?thesis by (cases b1) (simp add: Write_def)
    next
      case (Some mem)
      let ?mem = "take (m_write_idx b1) mem @ xs @ drop (m_write_idx b1 + length xs) mem"
      have fits: "m_write_idx b1 + length xs \<le> m_buffer_len b1" "m_buffer_len b1 \<le> length mem"
        using e(2) ok True Some by (auto simp: wf_cbuffer_def)
      have st: "mem_store (m_buffer b1) (m_write_idx b1) xs = Some (Some ?mem)"
        using Some fits by (cases "xs = []") (auto simp: mem_store_def)
      let ?b = "b1\<lparr>m_buffer := Some ?mem, m_write_idx := m_write_idx b1 + length xs\<rparr>"
      have "Write malloc xs b = Some (?b, int (length xs))"
        using e(1) True st sz by (simp add: Write_def)
      moreover have "wf_cbuffer ?b"
        using e(2) fits by (auto simp: wf_cbuffer_def)
      moreover have "contents ?b = contents b1 @ xs"
      proof -
        have r: "m_read_idx b1 \<le> m_write_idx b1" using e(2) by (simp add: wf_cbuffer_def)
        have w: "m_write_idx b1 \<le> length mem" using fits by simp
        show ?thesis using Some r w fits
          by (simp add: contents_def drop_take Suc_diff_le)
      qed
      ultimately show ?thesis using e(3,4) by auto
    qed
  qed
qed

lemma Read_spec:
  assumes wf: "wf_cbuffer b" and n: "n \<le> length (contents b)" "n < 2 ^ 31"
  shows "\<exists>b'. Read n b = Some (b', take n (contents b), int n) \<and> wf_cbuffer b' \<and>
           contents b' = drop n (contents b) \<and> m_write_idx b' = m_write_idx b \<and>
           b' = b\<lparr>m_read_idx := m_read_idx b + n\<rparr>"
proof -
  let ?b = "b\<lparr>m_read_idx := m_read_idx b + n\<rparr>"
  have len: "n \<le> m_write_idx b - m_read_idx b" using n length_contents [OF wf] by simp
  have "size_of (m_read_idx b + n) = m_read_idx b + n"
    using wf len by (auto simp: wf_cbuffer_def)
  then have "Read n b = Some (?b, take n (contents b), int n)"
    using load_contents [OF wf n(1)] len n(2) by (simp add: Read_def)
  moreover have "wf_cbuffer ?b" "contents ?b = drop n (contents b)"
    using wf len by (auto simp: wf_cbuffer_def contents_def drop_take add.commute split: option.splits)
  ultimately show ?thesis by simp
qed

lemma Read_short: "wf_cbuffer b \<Longrightarrow> length (contents b) < n \<Longrightarrow> Read n b = Some (b, [], -1)"
  by (simp add: Read_def length_contents)

text \<open>The buffer is the byte queue that the codecs rely on.\<close>

interpretation cbq: byte_queue "\<lambda>m. malloc_ok m \<and> malloc_total m" wf_cbuffer contents room Write Read
proof (unfold_locales, goal_cases)
  case (1 e q xs m)
  then have "room (length xs) q" by (simp add: room_def)
  with 1 obtain b' where b': "Write e xs q = Some (b', int (length xs))" "wf_cbuffer b'"
      "m_write_idx b' \<le> m_write_idx q + length xs" "contents b' = contents q @ xs"
    using Write_spec [of q e xs] by force
  with 1(3) have "room m b'" by (simp add: room_def)
  with b' show ?case by blast
next
  case (2 q n)
  then show ?case using Read_spec by blast
next
  case (3 q n)
  then show ?case by (rule Read_short)
next
  case (4 n q)
  then show ?case by (simp add: room_def)
qed

lemma SkipBytes_spec:
  assumes "wf_cbuffer b" and "n \<le> length (contents b)" and "n < 2 ^ 31"
  shows "wf_cbuffer (SkipBytes n b) \<and> contents (SkipBytes n b) = drop n (contents b) \<and>
    SkipBytes n b = b\<lparr>m_read_idx := m_read_idx b + n\<rparr>"
proof -
  obtain b' where "wf_cbuffer b'" "contents b' = drop n (contents b)"
      "b' = b\<lparr>m_read_idx := m_read_idx b + n\<rparr>"
    using Read_spec [OF assms] by blast
  moreover have "m_read_idx b + n < 2 ^ 64"
    using assms length_contents [OF assms(1)] by (auto simp: wf_cbuffer_def)
  ultimately show ?thesis using assms(3) by (simp add: SkipBytes_def AdvanceReadIndex_def)
qed

lemma SkipBytes_queue:
  assumes "wf_cbuffer b" and "n \<le> length (contents b)" and "n < 2 ^ 31"
  shows "wf_cbuffer (SkipBytes n b)" "contents (SkipBytes n b) = drop n (contents b)"
  using SkipBytes_spec [OF assms] by blast+

lemma ToString_spec: "wf_cbuffer b \<Longrightarrow> ToString b = Some (contents b)"
  using load_contents [of b "length (contents b)"] length_contents [of b]
  by (simp add: ToString_def)

lemma DiscardReadedBytes_spec:
  assumes "wf_cbuffer b"
  shows "\<exists>b'. DiscardReadedBytes b = Some b' \<and> wf_cbuffer b' \<and> contents b' = contents b \<and>
    m_read_idx b' = 0 \<and> m_buffer_len b' = m_buffer_len b"
proof (cases "m_read_idx b > 0 \<and> Readable b")
  case False
  with assms show ?thesis
    by (auto simp: DiscardReadedBytes_def wf_cbuffer_def contents_def Readable_def
        split: option.splits)
next
  case True
  then obtain xs where xs: "m_buffer b = Some xs"
    using assms by (cases "m_buffer b") (auto simp: wf_cbuffer_def Readable_def)
  let ?n = "m_write_idx b - m_read_idx b"
  have n: "length (contents b) = ?n" "?n \<le> length xs" "?n \<le> m_buffer_len b"
    using length_contents [OF assms] assms xs by (auto simp: wf_cbuffer_def)
  have ld: "mem_load (Some xs) (m_read_idx b) ?n = Some (contents b)"
    using load_contents [OF assms, of ?n] n xs by simp
  have st: "mem_store (Some xs) 0 (contents b) = Some (Some (contents b @ drop ?n xs))"
    using n by (cases "contents b = []") (auto simp: mem_store_def)
  let ?b = "b\<lparr>m_buffer := Some (contents b @ drop ?n xs), m_write_idx := ?n, m_read_idx := 0\<rparr>"
  have "DiscardReadedBytes b = Some ?b"
    using True xs ld st by (simp add: DiscardReadedBytes_def Let_def)
  moreover have "wf_cbuffer ?b" "contents ?b = contents b"
    using assms n xs by (auto simp: wf_cbuffer_def contents_def)
  ultimately show ?thesis by simp
qed

text \<open>Moving bytes between two buffers neither loses nor duplicates any.\<close>

lemma Write_unit_moves:
  assumes "wf_cbuffer b" and "wf_cbuffer u" and "malloc_ok malloc" and "malloc_total malloc"
    and "room (min n (length (contents u))) b"
  shows "\<exists>b' u'. Write_unit malloc (Some u) n b = Some (b', Some u', int (min n (length (contents u)))) \<and>
    wf_cbuffer b' \<and> wf_cbuffer u' \<and>
    contents b' = contents b @ take n (contents u) \<and> contents u' = drop n (contents u)"
proof -
  let ?k = "min n (length (contents u))"
  have lu: "length (contents u) = m_write_idx u - m_read_idx u"
    using length_contents [OF assms(2)] .
  have k: "?k \<le> length (contents u)" "?k < 2 ^ 31" "take ?k (contents u) = take n (contents u)"
      "drop ?k (contents u) = drop n (contents u)"
    using assms(5) by (auto simp: room_def min_def)
  have lt: "length (take n (contents u)) = ?k" by simp
  have ld: "mem_load (m_buffer u) (m_read_idx u) ?k = Some (take n (contents u))"
    using load_contents [OF assms(2) k(1)] k(3) by simp
  have "room (length (take n (contents u)) + 0) b" using assms(5) by (simp add: min.commute)
  then obtain b' where w: "Write malloc (take n (contents u)) b = Some (b', int ?k)"
      "wf_cbuffer b'" "contents b' = contents b @ take n (contents u)"
    using cbq.put_obtain [of malloc b "take n (contents u)" 0] assms(1,3,4) lt by metis
  obtain u' where u': "wf_cbuffer u'" "contents u' = drop n (contents u)"
      "u' = u\<lparr>m_read_idx := m_read_idx u + ?k\<rparr>"
    using Read_spec [OF assms(2) k(1,2)] k(4) by metis
  have adv: "size_add_int (m_read_idx u) (int ?k) = m_read_idx u + ?k"
    using assms(2) lu by (intro size_add_int_nat) (auto simp: wf_cbuffer_def)
  have dl: "(if n > ReadableBytes u then ReadableBytes u else n) = ?k"
    using lu by (auto simp: min_def)
  have "Write_unit malloc (Some u) n b = Some (b', Some u', int ?k)"
  proof (cases "?k = 0")
    case True
    then have "u' = u" using u'(3) by (cases u) simp
    moreover have t: "take n (contents u) = []" using True by (auto simp: min_def split: if_splits)
    moreover have "Write malloc [] b = Some (b', 0)" using w(1) True unfolding t by simp
    ultimately show ?thesis using True dl by (simp add: Write_unit_def Let_def)
  next
    case False
    with ld w(1) dl adv u'(3) show ?thesis by (simp add: Write_unit_def Let_def)
  qed
  with w u' show ?thesis by simp
qed

section \<open>Searching\<close>

lemma IndexOf_loop_sound:
  assumes "IndexOf_loop mem data s e = Some i" and "i \<noteq> -1" and "e \<le> length mem" and "e < 2 ^ 31"
  shows "\<exists>k. i = int k \<and> s \<le> k \<and> k + length data \<le> e \<and> take (length data) (drop k mem) = data"
  using assms
proof (induction mem data s e rule: IndexOf_loop.induct)
  case (1 mem data s e)
  from "1.prems" obtain off where cont: "data \<noteq> []" "s < e"
    and off: "memchr (hd data) (take (e - s) (drop s mem)) = Some off"
    by (subst (asm) IndexOf_loop.simps) (auto split: if_splits option.splits)
  let ?k = "s + off"
  have k: "off < e - s" "?k < e" "mem ! ?k = hd data"
    using memchr_Some [OF off] "1.prems"(3) cont by auto
  have ik: "int_of_size ?k = int ?k" using k(2) "1.prems"(4) by simp
  show ?case
  proof (cases "length data = 1")
    case True
    with "1.prems"(1) cont off ik have "i = int ?k"
      by (subst (asm) IndexOf_loop.simps) (simp add: Let_def)
    moreover have "take (length data) (drop ?k mem) = data"
    proof -
      from True obtain x where x: "data = [x]" by (auto simp: length_Suc_conv)
      have "?k < length mem" using k(2) "1.prems"(3) by simp
      then have "drop ?k mem = mem ! ?k # drop (Suc ?k) mem" by (rule Cons_nth_drop_Suc [symmetric])
      with k(3) x show ?thesis by simp
    qed
    ultimately show ?thesis using True k(2) by (intro exI [of _ ?k]) simp
  next
    case False
    from "1.prems"(1) cont off False obtain xs where
      xs: "mem_load (Some mem) ?k (length data) = Some xs"
      by (subst (asm) IndexOf_loop.simps) (auto simp: Let_def split: option.splits)
    show ?thesis
    proof (cases "xs = data")
      case True
      have "i = int ?k" "?k + length data \<le> e"
        using "1.prems"(1,2) cont off False xs True ik
        by (auto simp: IndexOf_loop.simps [of mem data s e] Let_def split: if_splits)
      moreover have "take (length data) (drop ?k mem) = data"
        using xs True cont by (auto simp: mem_load_def split: if_splits)
      ultimately show ?thesis by (intro exI [of _ ?k]) simp
    next
      case ne: False
      have "IndexOf_loop mem data (?k + length data) e = Some i"
        using "1.prems"(1) cont off False xs ne
        by (auto simp: IndexOf_loop.simps [of mem data s e] Let_def)
      from "1.IH" [OF _ off refl False xs ne this] "1.prems" cont
      obtain k' where "i = int k'" "?k + length data \<le> k'" "k' + length data \<le> e"
          "take (length data) (drop k' mem) = data"
        by auto
      then show ?thesis by auto
    qed
  qed
qed

section \<open>Properties\<close>

lemma empty_cbuffer_simps [simp]:
  "m_write_idx empty_cbuffer = 0" "room n empty_cbuffer \<longleftrightarrow> n < 2 ^ 31"
  by (auto simp: empty_cbuffer_def room_def)

text \<open>C34: Whatever chunks are written to a buffer, a read returns the first bytes of their
  concatenation in order, and the rest stays readable.\<close>

theorem cbuffer_fifo:
  assumes "malloc_ok malloc" and "malloc_total malloc" and "wf_cbuffer b" and "contents b = []"
    and "room (length (concat chunks)) b" and "n \<le> length (concat chunks)"
  shows "\<exists>b1 b2. put_seq (Write malloc) chunks b = Some b1 \<and>
    Read n b1 = Some (b2, take n (concat chunks), int n) \<and> wf_cbuffer b2 \<and>
    contents b2 = drop n (concat chunks)"
  using assms by (intro cbq.put_seq_then_get) simp_all

lemma cbuffer_fifo_witness:
  "\<exists>b1 b2. put_seq (Write zero_malloc) [[1, 2], [3]] empty_cbuffer = Some b1 \<and>
     Read 2 b1 = Some (b2, [1, 2], 2) \<and> wf_cbuffer b2 \<and> contents b2 = [3]"
  using cbuffer_fifo [of zero_malloc empty_cbuffer "[[1, 2], [3]]" 2]
  by (simp del: put_seq.simps)

text \<open>Making room never loses a readable byte: growing a well-formed buffer returns, keeps
  the content, and reports success only when the requested bytes fit behind the write index.\<close>

theorem ensure_writable_keeps_content:
  assumes "wf_cbuffer b" and "malloc_ok malloc" and "m_write_idx b + n \<le> 2 ^ 62"
  shows "\<exists>b' ok. EnsureWritableBytes malloc n b = Some (b', ok) \<and> wf_cbuffer b' \<and>
    contents b' = contents b \<and> (ok \<longrightarrow> n \<le> WriteableBytes b') \<and> (\<not> ok \<longrightarrow> b' = b)"
  using EnsureWritableBytes_spec [OF assms] by auto

lemma ensure_writable_keeps_content_witness:
  "\<exists>b' ok. EnsureWritableBytes zero_malloc 40 empty_cbuffer = Some (b', ok) \<and> wf_cbuffer b' \<and>
     contents b' = [] \<and> (ok \<longrightarrow> 40 \<le> WriteableBytes b') \<and> (\<not> ok \<longrightarrow> b' = empty_cbuffer)"
  using ensure_writable_keeps_content [of empty_cbuffer zero_malloc 40] by simp

text \<open>Moving bytes from one buffer to another neither loses, duplicates nor reorders any:
  the first \<open>n\<close> readable bytes of the source are appended to the target.\<close>

theorem write_unit_transfers:
  assumes "wf_cbuffer b" and "wf_cbuffer u" and "malloc_ok malloc" and "malloc_total malloc"
    and "room (min n (length (contents u))) b"
  shows "\<exists>b' u'. Write_unit malloc (Some u) n b = Some (b', Some u', int (min n (length (contents u)))) \<and>
    wf_cbuffer b' \<and> wf_cbuffer u' \<and>
    contents b' = contents b @ take n (contents u) \<and> contents u' = drop n (contents u)"
  by (rule Write_unit_moves [OF assms])

definition sample_buffer :: cbuffer where
  "sample_buffer = \<lparr>m_buffer = Some [9, 1, 2, 3], m_buffer_len = 4, m_write_idx = 4, m_read_idx = 1\<rparr>"

lemma sample_buffer_facts [simp]: "wf_cbuffer sample_buffer" "contents sample_buffer = [1, 2, 3]"
  by (simp_all add: sample_buffer_def wf_cbuffer_def contents_def)

lemma write_unit_transfers_witness:
  "\<exists>b' u'. Write_unit zero_malloc (Some sample_buffer) 2 empty_cbuffer = Some (b', Some u', 2) \<and>
     wf_cbuffer b' \<and> wf_cbuffer u' \<and> contents b' = [1, 2] \<and> contents u' = [3]"
  using write_unit_transfers [of empty_cbuffer sample_buffer zero_malloc 2] by simp

text \<open>Discarding the read bytes moves the readable ones to the front of the block, and keeps
  them.\<close>

theorem discard_readed_bytes:
  assumes "wf_cbuffer b"
  shows "\<exists>b'. DiscardReadedBytes b = Some b' \<and> wf_cbuffer b' \<and> contents b' = contents b \<and>
    m_read_idx b' = 0 \<and> Capacity b' = Capacity b"
  using DiscardReadedBytes_spec [OF assms] by (simp add: Capacity_def)

lemma discard_readed_bytes_witness:
  "\<exists>b'. DiscardReadedBytes sample_buffer = Some b' \<and> wf_cbuffer b' \<and>
     contents b' = contents sample_buffer \<and> m_read_idx b' = 0 \<and> Capacity b' = Capacity sample_buffer"
  by (rule discard_readed_bytes) simp

text \<open>An index that the search over a block returns is an occurrence of the pattern inside
  the searched range.\<close>

theorem index_of_sound:
  assumes "IndexOf_loop mem data s e = Some i" and "i \<noteq> -1" and "e \<le> length mem" and "e < 2 ^ 31"
  shows "\<exists>k. i = int k \<and> s \<le> k \<and> k + length data \<le> e \<and> take (length data) (drop k mem) = data"
  by (rule IndexOf_loop_sound [OF assms])

lemma index_of_sound_witness:
  "\<exists>k. 1 = int k \<and> 0 \<le> k \<and> k + 2 \<le> 3 \<and> take 2 (drop k [7, 8, 9 :: byte]) = [8, 9]"
proof -
  have "IndexOf_loop [7, 8, 9] [8, 9] 0 3 = Some 1"
    by (subst IndexOf_loop.simps) (simp add: mem_load_def)
  from index_of_sound [OF this] show ?thesis by simp
qed

text \<open>The search is not complete: after a mismatch it skips as many bytes as the pattern
  has, so it misses \<open>ab\<close> in \<open>aab\<close>.\<close>

theorem index_of_misses:
  "IndexOf [97, 98] 0 3 \<lparr>m_buffer = Some [97, 97, 98, 0], m_buffer_len = 4, m_write_idx = 3, m_read_idx = 0\<rparr>
     = Some (-1) \<and> take 2 (drop 1 [97, 97, 98 :: byte]) = [97, 98]"
proof -
  have "IndexOf_loop [97, 97, 98, 0] [97, 98] 2 3 = Some (-1)"
    by (subst IndexOf_loop.simps) simp
  then have "IndexOf_loop [97, 97, 98, 0] [97, 98] 0 3 = Some (-1)"
    by (subst IndexOf_loop.simps) (simp add: mem_load_def numeral_2_eq_2)
  then show ?thesis by (simp add: IndexOf_def)
qed

end
