(* ===== verification/Rc5.thy ===== *)
theory Rc5
  imports Prelude
begin

text \<open>
  The RC5 block cipher and its CBC mode (\<open>loss/src/util/encrypt/rc5.c\<close>, \<open>rc5.h\<close>): key
  expansion, block encryption and decryption, and the Init-Update-Final cipher object.
  \<open>RC5_WORD\<close> is a 32-bit word and a block has \<open>BB = 8\<close> bytes. The cipher object's arrays are
  lists of their fixed length; output buffers supplied by a caller are lists whose length is
  the buffer's size. \<open>None\<close> stands for an access outside an array, a division by zero or a
  loop that does not end; a null pointer is the value \<open>None\<close> of an optional object.
\<close>

section \<open>Rotations\<close>

definition BB :: nat where
  "BB = 8"

definition rot_amount :: "u32 \<Rightarrow> nat" where
  "rot_amount s = unat (s AND 31)"

text \<open>The macros \<open>ROTL\<close> and \<open>ROTR\<close>. For a rotation by zero the C code shifts by 32, which the
  language leaves undefined; both the masked and the exhausted shift give the same word.\<close>

definition ROTL :: "u32 \<Rightarrow> u32 \<Rightarrow> u32" where
  "ROTL x s = push_bit (rot_amount s) x OR drop_bit (32 - rot_amount s) x"

definition ROTR :: "u32 \<Rightarrow> u32 \<Rightarrow> u32" where
  "ROTR x s = drop_bit (rot_amount s) x OR push_bit (32 - rot_amount s) x"

lemma rot_amount_less: "rot_amount s < 32"
proof -
  have "s AND 31 \<le> 31" by (rule word_and_le1)
  then have "unat (s AND 31) \<le> 31" by (simp add: word_le_nat_alt)
  then show ?thesis by (simp add: rot_amount_def)
qed

lemma ROTR_ROTL [simp]: "ROTR (ROTL x s) s = x"
proof (rule bit_word_eqI)
  fix n assume n: "n < LENGTH(32)"
  have r: "rot_amount s < 32" by (rule rot_amount_less)
  show "bit (ROTR (ROTL x s) s) n = bit x n"
  proof (cases "n + rot_amount s < 32")
    case True
    with n r show ?thesis
      by (auto simp: ROTL_def ROTR_def bit_or_iff bit_push_bit_iff bit_drop_bit_eq bit_imp_le_length
          add.commute dest: bit_imp_le_length)
  next
    case False
    with n r show ?thesis
      by (auto simp: ROTL_def ROTR_def bit_or_iff bit_push_bit_iff bit_drop_bit_eq
          add.commute dest: bit_imp_le_length)
  qed
qed

section \<open>User keys\<close>

record rc5UserKey =
  keyLength :: nat
  keyBytes :: "byte list option"

definition RC5_Key_Create :: "bool \<Rightarrow> rc5UserKey option" where
  "RC5_Key_Create got_memory =
     (if got_memory then Some \<lparr>keyLength = 0, keyBytes = None\<rparr> else None)"

text \<open>Destroying zeroes the key bytes and frees both blocks; the result is the wiped content
  of the key bytes block, or nothing where the code returns early.\<close>

definition RC5_Key_Destroy :: "rc5UserKey option \<Rightarrow> byte list option" where
  "RC5_Key_Destroy pKey =
     (case pKey of None \<Rightarrow> None
      | Some k \<Rightarrow>
          (case keyBytes k of None \<Rightarrow> None
           | Some bs \<Rightarrow> Some (replicate (keyLength k) 0 @ drop (keyLength k) bs)))"

definition RC5_Key_Set ::
  "bool \<Rightarrow> rc5UserKey \<Rightarrow> nat \<Rightarrow> byte list \<Rightarrow> (rc5UserKey \<times> int) option" where
  "RC5_Key_Set got_memory pKey len bytes =
     (if \<not> got_memory then Some (pKey, 0)
      else map_option (\<lambda>copy. (pKey\<lparr>keyLength := len, keyBytes := Some copy\<rparr>, 1))
             (mem_load (Some bytes) 0 len))"

section \<open>Key expansion\<close>

definition Pw :: u32 where
  "Pw = 0xb7e15163"

definition Qw :: u32 where
  "Qw = 0x9e3779b9"

definition key_words :: "nat \<Rightarrow> nat" where
  "key_words b = (b + 3) div 4"

definition load_key :: "nat \<Rightarrow> byte list \<Rightarrow> u32 list" where
  "load_key b K =
     fold (\<lambda>i L. L[i div 4 := L ! (i div 4) + push_bit (8 * (i mod 4)) (ucast (K ! i))])
       [0..<b] (replicate (key_words b) 0)"

definition init_table :: "nat \<Rightarrow> u32 list \<Rightarrow> u32 list" where
  "init_table T S = fold (\<lambda>i S. S[i := S ! (i - 1) + Qw]) [1..<T] (S[0 := Pw])"

fun mix_key :: "nat \<Rightarrow> nat \<Rightarrow> nat \<Rightarrow> u32 \<Rightarrow> u32 \<Rightarrow> u32 list \<Rightarrow> u32 list \<Rightarrow> u32 list" where
  "mix_key 0 i j A B S L = S"
| "mix_key (Suc k) i j A B S L =
     (let A = ROTL (S ! i + A + B) 3;
          S = S[i := A];
          B = ROTL (L ! j + A + B) (A + B);
          L = L[j := B]
      in mix_key k ((i + 1) mod length S) ((j + 1) mod length L) A B S L)"

text \<open>\<open>S\<close> is the table to fill, of \<open>2 * (R + 1)\<close> words. \<open>L\<close> has room for 64 words; an empty key
  makes the code read \<open>L[0]\<close> uninitialised and take a remainder by zero.\<close>

definition RC5_Key_Expand :: "nat \<Rightarrow> byte list \<Rightarrow> nat \<Rightarrow> u32 list \<Rightarrow> u32 list option" where
  "RC5_Key_Expand b K R S =
     (let LL = key_words b; T = 2 * (R + 1) in
      if LL > 64 \<or> LL = 0 \<or> length K < b \<or> length S \<noteq> T then None
      else let k = (if LL > T then 3 * LL else 3 * T)
           in Some (mix_key k 0 0 0 0 (init_table T S) (load_key b K)))"

section \<open>Blocks\<close>

definition load_word :: "byte \<Rightarrow> byte \<Rightarrow> byte \<Rightarrow> byte \<Rightarrow> u32" where
  "load_word b0 b1 b2 b3 =
     ucast b0 + push_bit 8 (ucast b1) + push_bit 16 (ucast b2) + push_bit 24 (ucast b3)"

definition store_word :: "u32 \<Rightarrow> byte list" where
  "store_word A = [ucast (A AND 0xFF), ucast (drop_bit 8 A AND 0xFF),
                   ucast (drop_bit 16 A AND 0xFF), ucast (drop_bit 24 A AND 0xFF)]"

definition load_block :: "byte list \<Rightarrow> u32 \<times> u32" where
  "load_block b = (load_word (b ! 0) (b ! 1) (b ! 2) (b ! 3), load_word (b ! 4) (b ! 5) (b ! 6) (b ! 7))"

definition encrypt_round :: "u32 list \<Rightarrow> nat \<Rightarrow> u32 \<times> u32 \<Rightarrow> u32 \<times> u32" where
  "encrypt_round S i = (\<lambda>(A, B).
     let A = A XOR B; A = ROTL A B + S ! (2 * i); B = B XOR A; B = ROTL B A + S ! (2 * i + 1)
     in (A, B))"

definition decrypt_round :: "u32 list \<Rightarrow> nat \<Rightarrow> u32 \<times> u32 \<Rightarrow> u32 \<times> u32" where
  "decrypt_round S i = (\<lambda>(A, B).
     let B = ROTR (B - S ! (2 * i + 1)) A; B = B XOR A; A = ROTR (A - S ! (2 * i)) B; A = A XOR B
     in (A, B))"

definition RC5_Block_Encrypt :: "u32 list \<Rightarrow> nat \<Rightarrow> byte list \<Rightarrow> byte list" where
  "RC5_Block_Encrypt S R blk =
     (let (A, B) = load_block blk;
          (A, B) = fold (encrypt_round S) [1..<R + 1] (A + S ! 0, B + S ! 1)
      in store_word A @ store_word B)"

definition RC5_Block_Decrypt :: "u32 list \<Rightarrow> nat \<Rightarrow> byte list \<Rightarrow> byte list" where
  "RC5_Block_Decrypt S R blk =
     (let (A, B) = fold (decrypt_round S) (rev [1..<R + 1]) (load_block blk);
          B = B - S ! 1; A = A - S ! 0
      in store_word A @ store_word B)"

section \<open>The CBC cipher object\<close>

record rc5CBCAlg =
  alg_Pad :: int
  alg_R :: nat
  alg_S :: "u32 list"
  alg_I :: "byte list"
  chainBlock :: "byte list"
  inputBlock :: "byte list"
  inputBlockIndex :: nat

text \<open>\<open>raw\<close> is the uninitialised object that \<open>malloc\<close> returns, or none.\<close>

definition RC5_CBC_Create ::
  "rc5CBCAlg option \<Rightarrow> int \<Rightarrow> int \<Rightarrow> int \<Rightarrow> int \<Rightarrow> byte list \<Rightarrow> rc5CBCAlg option" where
  "RC5_CBC_Create raw Pad R Version bb I =
     (if Version \<noteq> 1 \<or> bb \<noteq> int BB \<or> R < 0 \<or> 255 < R then None
      else case raw of None \<Rightarrow> None
           | Some alg \<Rightarrow> Some (alg\<lparr>alg_Pad := Pad, alg_R := nat R, inputBlockIndex := 0,
                                 alg_I := take BB I\<rparr>))"

definition RC5_CBC_Destroy :: "rc5CBCAlg \<Rightarrow> rc5CBCAlg" where
  "RC5_CBC_Destroy alg =
     alg\<lparr>alg_S := replicate (2 * (1 + alg_R alg)) 0, alg_I := replicate BB 0,
         inputBlock := replicate BB 0, chainBlock := replicate BB 0,
         alg_Pad := 0, alg_R := 0, inputBlockIndex := 0\<rparr>"

definition RC5_CBC_SetIV :: "rc5CBCAlg \<Rightarrow> byte list \<Rightarrow> rc5CBCAlg" where
  "RC5_CBC_SetIV alg I =
     alg\<lparr>inputBlockIndex := 0, alg_I := take BB I, chainBlock := take BB I,
         inputBlock := replicate BB 0\<rparr>"

definition bind_key :: "rc5CBCAlg \<Rightarrow> rc5UserKey \<Rightarrow> rc5CBCAlg option" where
  "bind_key alg key =
     (case (if keyLength key = 0 then Some [] else keyBytes key) of
        None \<Rightarrow> None
      | Some K \<Rightarrow>
          map_option (\<lambda>S. RC5_CBC_SetIV (alg\<lparr>alg_S := S\<rparr>) (alg_I alg))
            (RC5_Key_Expand (keyLength key) K (alg_R alg) (alg_S alg)))"

definition RC5_CBC_Encrypt_Init ::
  "rc5CBCAlg option \<Rightarrow> rc5UserKey option \<Rightarrow> (rc5CBCAlg option \<times> int) option" where
  "RC5_CBC_Encrypt_Init pAlg pKey =
     (case (pAlg, pKey) of
        (Some alg, Some key) \<Rightarrow> map_option (\<lambda>a. (Some a, 1)) (bind_key alg key)
      | _ \<Rightarrow> Some (pAlg, 0))"

definition RC5_CBC_Decrypt_Init ::
  "rc5CBCAlg option \<Rightarrow> rc5UserKey option \<Rightarrow> (rc5CBCAlg option \<times> int) option" where
  "RC5_CBC_Decrypt_Init pAlg pKey =
     (case (pAlg, pKey) of
        (Some alg, Some key) \<Rightarrow> map_option (\<lambda>a. (Some a, 1)) (bind_key alg key)
      | _ \<Rightarrow> Some (pAlg, 0))"

definition xor_block :: "byte list \<Rightarrow> byte list \<Rightarrow> byte list" where
  "xor_block xs ys = map2 (XOR) xs ys"

text \<open>One full input block: xor with the chain block, encrypt into the chain block.\<close>

definition encrypt_input_block :: "rc5CBCAlg \<Rightarrow> rc5CBCAlg" where
  "encrypt_input_block alg =
     (let inb = xor_block (inputBlock alg) (chainBlock alg) in
      alg\<lparr>inputBlock := inb, chainBlock := RC5_Block_Encrypt (alg_S alg) (alg_R alg) inb\<rparr>)"

definition push_input :: "byte \<Rightarrow> rc5CBCAlg \<Rightarrow> rc5CBCAlg" where
  "push_input p alg =
     alg\<lparr>inputBlock := (inputBlock alg)[inputBlockIndex alg := p],
         inputBlockIndex := inputBlockIndex alg + 1\<rparr>"

text \<open>The loop of \<open>RC5_CBC_Encrypt_Update\<close> over the plaintext still to read; the second
  component is the ciphertext it writes.\<close>

partial_function (option) encrypt_loop ::
  "rc5CBCAlg \<Rightarrow> byte list \<Rightarrow> byte list \<Rightarrow> (rc5CBCAlg \<times> byte list) option" where
  "encrypt_loop alg P C =
     (if P = [] then Some (alg, C)
      else
        let alg1 = (if inputBlockIndex alg < BB then push_input (hd P) alg else alg);
            P1 = (if inputBlockIndex alg < BB then tl P else P)
        in if inputBlockIndex alg1 = BB
           then let alg2 = encrypt_input_block (alg1\<lparr>inputBlockIndex := 0\<rparr>)
                in encrypt_loop alg2 P1 (C @ chainBlock alg2)
           else encrypt_loop alg1 P1 C)"

text \<open>Result: the object, the written ciphertext (\<open>*pCipherLen\<close> is its length) and the code's
  return value.\<close>

definition RC5_CBC_Encrypt_Update ::
  "rc5CBCAlg \<Rightarrow> byte list \<Rightarrow> int \<Rightarrow> (rc5CBCAlg \<times> byte list \<times> int) option" where
  "RC5_CBC_Encrypt_Update alg P maxCipherLen =
     (if maxCipherLen < int ((inputBlockIndex alg + length P) div BB * BB) then Some (alg, [], 0)
      else map_option (\<lambda>(a, C). (a, C, 1)) (encrypt_loop alg P []))"

definition RC5_CBC_Encrypt_Final :: "rc5CBCAlg \<Rightarrow> int \<Rightarrow> rc5CBCAlg \<times> byte list \<times> int" where
  "RC5_CBC_Encrypt_Final alg maxCipherLen =
     (if alg_Pad alg = 0 \<and> inputBlockIndex alg \<noteq> 0 then (alg, [], 0)
      else if alg_Pad alg = 0 then (alg, [], 1)
      else if maxCipherLen < int BB then (alg, [], 0)
      else
        let padLength = BB - inputBlockIndex alg;
            alg1 = (push_input (of_nat padLength) ^^ padLength) alg;
            alg2 = encrypt_input_block alg1
        in (RC5_CBC_SetIV alg2 (alg_I alg2), chainBlock alg2, 1))"

text \<open>Decryption. The output buffer \<open>P\<close> is updated in place; the first block is combined with
  the chain block copied into \<open>P\<close>, later blocks with the ciphertext block before them.\<close>

definition dec_out_byte ::
  "byte list \<Rightarrow> nat \<Rightarrow> byte list \<Rightarrow> nat \<Rightarrow> (nat \<times> byte list) option \<Rightarrow> (nat \<times> byte list) option" where
  "dec_out_byte C cipherIndex chain j st =
     (case st of None \<Rightarrow> None
      | Some (plainIndex, P) \<Rightarrow>
          if plainIndex \<ge> length P then None
          else if plainIndex < BB
          then Some (plainIndex + 1, P[plainIndex := P ! plainIndex XOR chain ! j])
          else if cipherIndex + j < 16 \<or> cipherIndex + j - 16 \<ge> length C then None
          else Some (plainIndex + 1, P[plainIndex := C ! (cipherIndex + j - 16) XOR chain ! j]))"

partial_function (option) decrypt_loop ::
  "rc5CBCAlg \<Rightarrow> byte list \<Rightarrow> nat \<Rightarrow> nat \<Rightarrow> byte list \<Rightarrow> (rc5CBCAlg \<times> nat \<times> byte list) option" where
  "decrypt_loop alg C cipherIndex plainIndex P =
     (if \<not> cipherIndex < length C then Some (alg, plainIndex, P)
      else
        let alg1 = (if inputBlockIndex alg < BB then push_input (C ! cipherIndex) alg else alg);
            ci = (if inputBlockIndex alg < BB then cipherIndex + 1 else cipherIndex)
        in if inputBlockIndex alg1 = BB
           then let alg2 = alg1\<lparr>inputBlockIndex := 0,
                               chainBlock := RC5_Block_Decrypt (alg_S alg1) (alg_R alg1) (inputBlock alg1)\<rparr>
                in case fold (dec_out_byte C ci (chainBlock alg2)) [0..<BB] (Some (plainIndex, P)) of
                     None \<Rightarrow> None
                   | Some (pi', P') \<Rightarrow> decrypt_loop alg2 C ci pi' P'
           else decrypt_loop alg1 C ci plainIndex P)"

definition RC5_CBC_Decrypt_Update ::
  "rc5CBCAlg \<Rightarrow> byte list \<Rightarrow> byte list \<Rightarrow> (rc5CBCAlg \<times> nat \<times> byte list) option" where
  "RC5_CBC_Decrypt_Update alg C P =
     (if length P < BB then None
      else decrypt_loop alg C 0 0 (chainBlock alg @ drop BB P))"

section \<open>Blocks: storing inverts loading\<close>

lemma unat_load_word:
  "unat (load_word b0 b1 b2 b3) = unat b0 + 2 ^ 8 * unat b1 + 2 ^ 16 * unat b2 + 2 ^ 24 * unat b3"
proof -
  have b: "unat b0 < 256" "unat b1 < 256" "unat b2 < 256" "unat b3 < 256"
    by simp_all
  have "unat (load_word b0 b1 b2 b3) =
      (unat b0 + unat b1 * 2 ^ 8 + unat b2 * 2 ^ 16 + unat b3 * 2 ^ 24) mod 2 ^ 32"
    by (simp add: load_word_def unat_word_ariths push_bit_eq_mult mod_simps)
  moreover have "unat b0 + unat b1 * 256 + unat b2 * 65536 + unat b3 * 16777216 < 4294967296"
    using b by linarith
  ultimately show ?thesis by (simp add: mult.commute)
qed

lemma store_word_unat:
  "store_word A = map of_nat [unat A, unat A div 2 ^ 8, unat A div 2 ^ 16, unat A div 2 ^ 24]"
proof -
  have "(ucast (drop_bit n A AND 0xFF) :: byte) = of_nat (unat A div 2 ^ n)" for n
    by (rule word_unat_eq_iff [THEN iffD2])
       (simp add: unsigned_ucast_eq unat_and_FF unat_drop_bit take_bit_eq_mod unat_of_nat
          del: unsigned_drop_bit_eq)
  from this [of 0] this [of 8] this [of 16] this [of 24] show ?thesis
    by (simp add: store_word_def)
qed

lemma bytes4_join:
  fixes a b c d :: nat
  assumes "a < 256" "b < 256" "c < 256" "d < 256"
  defines "n \<equiv> a + 256 * b + 65536 * c + 16777216 * d"
  shows "n mod 256 = a" "n div 256 mod 256 = b" "n div 65536 mod 256 = c" "n div 16777216 mod 256 = d"
proof -
  have n: "n = a + 256 * (b + 256 * (c + 256 * d))" by (simp add: n_def algebra_simps)
  have d1: "n div 256 = b + 256 * (c + 256 * d)"
    using assms(1) by (simp only: n div_mult_self2 div_less)
  have d2: "n div 65536 = c + 256 * d"
    using d1 assms div_mult2_eq [of n 256 256] by simp
  have d3: "n div 16777216 = d"
    using d2 assms div_mult2_eq [of n 65536 256] by simp
  show "n mod 256 = a" using assms(1) by (simp only: n mod_mult_self2 mod_less)
  show "n div 256 mod 256 = b" "n div 65536 mod 256 = c" "n div 16777216 mod 256 = d"
    unfolding d1 d2 d3 using assms(2,3,4) by (simp_all only: mod_mult_self2 mod_less)
qed

lemma bytes4_split:
  fixes n :: nat
  assumes "n < 4294967296"
  shows "n mod 256 + 256 * (n div 256 mod 256) + 65536 * (n div 65536 mod 256)
    + 16777216 * (n div 16777216 mod 256) = n"
proof -
  obtain a q1 where q1: "n = a + 256 * q1" "a < 256"
    by (rule that [of "n mod 256" "n div 256"]) simp_all
  obtain b q2 where q2: "q1 = b + 256 * q2" "b < 256"
    by (rule that [of "q1 mod 256" "q1 div 256"]) simp_all
  obtain c d where d: "q2 = c + 256 * d" "c < 256"
    by (rule that [of "q2 mod 256" "q2 div 256"]) simp_all
  have n: "n = a + 256 * b + 65536 * c + 16777216 * d" using q1 q2 d by simp
  with assms have "d < 256" by linarith
  with bytes4_join [OF q1(2) q2(2) d(2) this] show ?thesis by (simp only: n)
qed

lemma load_store_word:
  "store_word A = [b0, b1, b2, b3] \<Longrightarrow> load_word b0 b1 b2 b3 = A"
proof (rule word_unat_eq_iff [THEN iffD2])
  assume "store_word A = [b0, b1, b2, b3]"
  then have b: "unat b0 = unat A mod 256" "unat b1 = unat A div 256 mod 256"
      "unat b2 = unat A div 65536 mod 256" "unat b3 = unat A div 16777216 mod 256"
    by (auto simp: store_word_unat unat_of_nat unsigned_ucast_eq take_bit_eq_mod)
  have "unat A < 4294967296" using unsigned_less [of A] by simp
  then show "unat (load_word b0 b1 b2 b3) = unat A"
    using bytes4_split [of "unat A"] by (simp add: unat_load_word b)
qed

lemma store_load_word: "store_word (load_word b0 b1 b2 b3) = [b0, b1, b2, b3]"
proof -
  have "of_nat m = (b :: byte)" if "m mod 256 = unat b" for m b
    using that by (intro word_unat_eq_iff [THEN iffD2]) (simp add: unat_of_nat)
  then show ?thesis
    using bytes4_join [of "unat b0" "unat b1" "unat b2" "unat b3"]
    unfolding store_word_unat unat_load_word by (simp del: of_nat_add of_nat_mult)
qed

section \<open>Block decryption inverts block encryption\<close>

lemma length_store_word [simp]: "length (store_word A) = 4"
  by (simp add: store_word_def)

lemma length_RC5_Block_Encrypt [simp]: "length (RC5_Block_Encrypt S R b) = 8"
  by (simp add: RC5_Block_Encrypt_def split: prod.split)

lemma length_RC5_Block_Decrypt [simp]: "length (RC5_Block_Decrypt S R b) = 8"
  by (simp add: RC5_Block_Decrypt_def split: prod.split)

lemma load_block_store: "load_block (store_word A @ store_word B) = (A, B)"
proof -
  obtain a0 a1 a2 a3 where a: "store_word A = [a0, a1, a2, a3]" by (simp add: store_word_def)
  obtain b0 b1 b2 b3 where b: "store_word B = [b0, b1, b2, b3]" by (simp add: store_word_def)
  show ?thesis
    using load_store_word [OF a] load_store_word [OF b] by (simp add: load_block_def a b)
qed

lemma store_load_block:
  assumes "length b = 8"
  shows "store_word (fst (load_block b)) @ store_word (snd (load_block b)) = b"
proof -
  obtain x0 x1 x2 x3 x4 x5 x6 x7 where "b = [x0, x1, x2, x3, x4, x5, x6, x7]"
    using assms by (auto simp: numeral_eq_Suc length_Suc_conv)
  then show ?thesis by (simp add: load_block_def store_load_word)
qed

lemma decrypt_encrypt_round: "decrypt_round S i (encrypt_round S i ab) = ab"
  by (cases ab) (simp add: encrypt_round_def decrypt_round_def Let_def xor.assoc)

lemma decrypt_encrypt_rounds:
  "fold (decrypt_round S) (rev is) (fold (encrypt_round S) is ab) = ab"
  by (induction "is" arbitrary: ab) (simp_all add: decrypt_encrypt_round)

lemma block_decrypt_encrypt:
  assumes "length b = 8"
  shows "RC5_Block_Decrypt S R (RC5_Block_Encrypt S R b) = b"
proof -
  obtain A B where ab: "load_block b = (A, B)" by fastforce
  obtain A' B' where r: "fold (encrypt_round S) [1..<R + 1] (A + S ! 0, B + S ! 1) = (A', B')"
    by fastforce
  have "RC5_Block_Encrypt S R b = store_word A' @ store_word B'"
    by (simp only: RC5_Block_Encrypt_def ab r Let_def prod.case)
  moreover have "fold (decrypt_round S) (rev [1..<R + 1]) (A', B') = (A + S ! 0, B + S ! 1)"
    unfolding r [symmetric] by (rule decrypt_encrypt_rounds)
  ultimately have "RC5_Block_Decrypt S R (RC5_Block_Encrypt S R b) = store_word A @ store_word B"
    by (simp only: RC5_Block_Decrypt_def load_block_store Let_def prod.case add_diff_cancel_right')
  with store_load_block [OF assms] ab show ?thesis by simp
qed

section \<open>The key table\<close>

lemma length_mix_key [simp]: "length (mix_key k i j A B S L) = length S"
  by (induction k i j A B S L rule: mix_key.induct) (simp_all add: Let_def)

lemma init_table_prefix:
  assumes "S \<noteq> []" and "n \<le> length S" and "0 < n"
  shows "length (init_table n S) = length S \<and> (\<forall>i<n. init_table n S ! i = Pw + of_nat i * Qw)"
  using assms(3,2)
proof (induction n rule: nat_induct_non_zero)
  case 1
  with assms(1) show ?case by (simp add: init_table_def)
next
  case (Suc n)
  have "init_table (Suc n) S = (init_table n S)[n := init_table n S ! (n - 1) + Qw]"
    using Suc.hyps by (simp add: init_table_def)
  moreover have "init_table n S ! (n - 1) = Pw + of_nat (n - 1) * Qw"
    using Suc by simp
  moreover have "(of_nat (n - 1) :: u32) * Qw + Qw = of_nat n * Qw"
    using Suc.hyps by (simp add: of_nat_diff algebra_simps)
  ultimately show ?case
    using Suc by (auto simp: nth_list_update less_Suc_eq algebra_simps)
qed

lemma RC5_Key_Expand_Some:
  "RC5_Key_Expand b K R S = Some S' \<longleftrightarrow>
     0 < b \<and> b \<le> 256 \<and> b \<le> length K \<and> length S = 2 * (R + 1) \<and>
     S' = mix_key (3 * max (key_words b) (2 * (R + 1))) 0 0 0 0 (init_table (2 * (R + 1)) S) (load_key b K)"
proof -
  have "key_words b \<le> 64 \<longleftrightarrow> b \<le> 256" "key_words b = 0 \<longleftrightarrow> b = 0"
    unfolding key_words_def by presburger+
  then show ?thesis by (auto simp: RC5_Key_Expand_def Let_def max_def)
qed

lemma length_init_table [simp]: "length (init_table n S) = length S"
proof -
  have "length (fold (\<lambda>i S. S[i := S ! (i - 1) + Qw]) is S') = length S'" for "is" and S' :: "u32 list"
    by (induction "is" arbitrary: S') simp_all
  then show ?thesis by (simp add: init_table_def)
qed

lemma init_table_all:
  assumes "length S = 2 * (R + 1)"
  shows "init_table (2 * (R + 1)) S = map (\<lambda>i. Pw + of_nat i * Qw) [0..<2 * (R + 1)]"
proof -
  define n where "n = 2 * (R + 1)"
  have "S \<noteq> []" "length S = n" "0 < n" using assms by (auto simp: n_def)
  then have "init_table n S = map (\<lambda>i. Pw + of_nat i * Qw) [0..<n]"
    using init_table_prefix [of S n] by (auto intro!: nth_equalityI)
  then show ?thesis by (simp only: n_def)
qed

lemma RC5_Key_Expand_length:
  "RC5_Key_Expand b K R S = Some S' \<Longrightarrow> length S' = 2 * (R + 1)"
  by (auto simp: RC5_Key_Expand_Some)

section \<open>Cipher block chaining\<close>

text \<open>The reference: a message cut into blocks of eight bytes, and each block encrypted after
  the exclusive-or with the ciphertext block before it.\<close>

fun chunks8 :: "'a list \<Rightarrow> 'a list list" where
  "chunks8 xs = (if length xs < 8 then [] else take 8 xs # chunks8 (drop 8 xs))"

fun rest8 :: "'a list \<Rightarrow> 'a list" where
  "rest8 xs = (if length xs < 8 then xs else rest8 (drop 8 xs))"

fun cbc_encrypt :: "u32 list \<Rightarrow> nat \<Rightarrow> byte list \<Rightarrow> byte list list \<Rightarrow> byte list list" where
  "cbc_encrypt S R ch [] = []"
| "cbc_encrypt S R ch (b # bs) =
     (let c = RC5_Block_Encrypt S R (xor_block b ch) in c # cbc_encrypt S R c bs)"

fun cbc_decrypt :: "u32 list \<Rightarrow> nat \<Rightarrow> byte list \<Rightarrow> byte list list \<Rightarrow> byte list list" where
  "cbc_decrypt S R ch [] = []"
| "cbc_decrypt S R ch (c # cs) = xor_block (RC5_Block_Decrypt S R c) ch # cbc_decrypt S R c cs"

definition pad8 :: "byte list \<Rightarrow> byte list" where
  "pad8 xs = xs @ replicate (8 - length xs mod 8) (of_nat (8 - length xs mod 8))"

declare chunks8.simps [simp del] rest8.simps [simp del]

lemma chunks8_block: "length b = 8 \<Longrightarrow> chunks8 (b @ xs) = b # chunks8 xs"
  by (subst chunks8.simps) simp

lemma chunks8_short: "length xs < 8 \<Longrightarrow> chunks8 xs = []"
  by (subst chunks8.simps) simp

lemma rest8_block: "length b = 8 \<Longrightarrow> rest8 (b @ xs) = rest8 xs"
  by (subst rest8.simps) simp

lemma rest8_short: "length xs < 8 \<Longrightarrow> rest8 xs = xs"
  by (subst rest8.simps) simp

lemma chunks8_step: "8 \<le> length xs \<Longrightarrow> chunks8 xs = take 8 xs # chunks8 (drop 8 xs)"
  by (subst chunks8.simps) simp

lemma rest8_step: "8 \<le> length xs \<Longrightarrow> rest8 xs = rest8 (drop 8 xs)"
  by (subst rest8.simps) simp

lemma chunks8_lengths: "\<forall>b \<in> set (chunks8 xs). length b = 8"
proof (induction xs rule: chunks8.induct)
  case (1 xs)
  show ?case
  proof (cases "length xs < 8")
    case True
    then show ?thesis by (simp add: chunks8_short)
  next
    case False
    then have "chunks8 xs = take 8 xs # chunks8 (drop 8 xs)" by (simp add: chunks8_step)
    moreover have "length (take 8 xs) = 8" using False by simp
    ultimately show ?thesis using 1 [OF False] by (metis set_ConsD)
  qed
qed

lemma chunks8_append: "chunks8 (xs @ ys) = chunks8 xs @ chunks8 (rest8 xs @ ys)"
proof (induction xs rule: chunks8.induct)
  case (1 xs)
  show ?case
  proof (cases "length xs < 8")
    case True
    then show ?thesis by (simp add: chunks8_short rest8_short)
  next
    case False
    then have "chunks8 (xs @ ys) = take 8 xs # chunks8 (drop 8 xs @ ys)"
      by (subst chunks8.simps) simp
    with 1 False show ?thesis by (simp add: chunks8_step [of xs] rest8_step [of xs])
  qed
qed

lemma concat_chunks8: "concat (chunks8 xs) @ rest8 xs = xs"
proof (induction xs rule: chunks8.induct)
  case (1 xs)
  show ?case
  proof (cases "length xs < 8")
    case True
    then show ?thesis by (simp add: chunks8_short rest8_short)
  next
    case False
    with 1 show ?thesis by (simp add: chunks8_step [of xs] rest8_step [of xs])
  qed
qed

lemma length_rest8: "length (rest8 xs) = length xs mod 8"
proof (induction xs rule: rest8.induct)
  case (1 xs)
  then show ?case
    by (subst rest8.simps) (auto simp: le_mod_geq)
qed

lemma length_cbc_encrypt [simp]: "length (cbc_encrypt S R ch bs) = length bs"
  by (induction S R ch bs rule: cbc_encrypt.induct) (simp_all add: Let_def)

lemma cbc_encrypt_lengths: "\<forall>c \<in> set (cbc_encrypt S R ch bs). length c = 8"
  by (induction S R ch bs rule: cbc_encrypt.induct) (simp_all add: Let_def)

lemma cbc_encrypt_append:
  "cbc_encrypt S R ch (bs @ bs') =
     cbc_encrypt S R ch bs @ cbc_encrypt S R (last (ch # cbc_encrypt S R ch bs)) bs'"
proof (induction bs arbitrary: ch)
  case (Cons b bs)
  have "last (ch # c # cs) = last (c # cs)" for c and cs :: "byte list list" by simp
  then show ?case by (simp only: append_Cons cbc_encrypt.simps Let_def Cons.IH)
qed simp

lemma length_concat_blocks: "\<forall>b \<in> set bs. length b = 8 \<Longrightarrow> length (concat bs) = 8 * length bs"
  by (induction bs) simp_all

lemma length_xor_block [simp]: "length (xor_block xs ys) = min (length xs) (length ys)"
  by (simp add: xor_block_def)

lemma xor_block_cancel: "length xs = length ys \<Longrightarrow> xor_block (xor_block xs ys) ys = xs"
  by (induction xs ys rule: list_induct2) (simp_all add: xor_block_def xor.assoc)

lemma cbc_decrypt_encrypt:
  assumes "\<forall>b \<in> set bs. length b = 8" and "length ch = 8"
  shows "cbc_decrypt S R ch (cbc_encrypt S R ch bs) = bs"
  using assms
  by (induction S R ch bs rule: cbc_encrypt.induct)
     (simp_all add: Let_def block_decrypt_encrypt xor_block_cancel)

section \<open>The incremental cipher object computes the chaining\<close>

definition pending :: "rc5CBCAlg \<Rightarrow> byte list" where
  "pending alg = take (inputBlockIndex alg) (inputBlock alg)"

definition wf_alg :: "rc5CBCAlg \<Rightarrow> bool" where
  "wf_alg alg \<longleftrightarrow> length (inputBlock alg) = 8 \<and> length (chainBlock alg) = 8 \<and>
     length (alg_I alg) = 8 \<and> inputBlockIndex alg < 8"

definition same_key :: "rc5CBCAlg \<Rightarrow> rc5CBCAlg \<Rightarrow> bool" where
  "same_key a b \<longleftrightarrow> alg_S a = alg_S b \<and> alg_R a = alg_R b \<and> alg_Pad a = alg_Pad b \<and> alg_I a = alg_I b"

lemma length_pending: "wf_alg alg \<Longrightarrow> length (pending alg) = inputBlockIndex alg"
  by (simp add: pending_def wf_alg_def)

lemma push_input_pending:
  assumes "wf_alg alg"
  shows "take (Suc (inputBlockIndex alg)) (inputBlock (push_input p alg)) = pending alg @ [p]"
  using assms by (simp add: push_input_def pending_def wf_alg_def take_Suc_conv_app_nth)

lemma push_input_simps [simp]:
  "inputBlockIndex (push_input p alg) = Suc (inputBlockIndex alg)"
  "chainBlock (push_input p alg) = chainBlock alg"
  "length (inputBlock (push_input p alg)) = length (inputBlock alg)"
  "same_key a (push_input p alg) = same_key a alg"
  "alg_S (push_input p alg) = alg_S alg" "alg_R (push_input p alg) = alg_R alg"
  "alg_I (push_input p alg) = alg_I alg" "alg_Pad (push_input p alg) = alg_Pad alg"
  by (simp_all add: push_input_def same_key_def)

lemma encrypt_loop_spec:
  assumes "wf_alg alg"
  defines "out \<equiv> \<lambda>P. cbc_encrypt (alg_S alg) (alg_R alg) (chainBlock alg) (chunks8 (pending alg @ P))"
  shows "\<exists>alg'. encrypt_loop alg P C = Some (alg', C @ concat (out P)) \<and> wf_alg alg' \<and>
    same_key alg alg' \<and> chainBlock alg' = last (chainBlock alg # out P) \<and>
    pending alg' = rest8 (pending alg @ P)"
  using assms(1) unfolding out_def
proof (induction P arbitrary: alg C)
  case Nil
  then have "length (pending alg) < 8" by (simp add: length_pending) (simp add: wf_alg_def)
  with Nil show ?case
    by (subst encrypt_loop.simps) (simp add: chunks8_short rest8_short same_key_def)
next
  case (Cons p P)
  let ?a = "push_input p alg"
  have idx: "inputBlockIndex alg < 8" using Cons.prems by (simp add: wf_alg_def)
  show ?case
  proof (cases "inputBlockIndex alg = 7")
    case False
    with idx have s: "encrypt_loop alg (p # P) C = encrypt_loop ?a P C"
      by (subst encrypt_loop.simps) (simp add: BB_def Let_def)
    have pe: "pending ?a = pending alg @ [p]"
      using push_input_pending [OF Cons.prems] by (simp add: pending_def)
    have "wf_alg ?a" using Cons.prems False idx by (simp add: wf_alg_def)
    from Cons.IH [OF this, of C] show ?thesis
      unfolding s pe by (simp add: same_key_def)
  next
    case True
    let ?blk = "pending alg @ [p]"
    let ?b = "encrypt_input_block (?a\<lparr>inputBlockIndex := 0\<rparr>)"
    have blk: "length ?blk = 8" "inputBlock ?a = ?blk"
      using push_input_pending [OF Cons.prems, of p] True Cons.prems length_pending [OF Cons.prems]
      by (simp_all add: wf_alg_def)
    have b: "chainBlock ?b = RC5_Block_Encrypt (alg_S alg) (alg_R alg) (xor_block ?blk (chainBlock alg))"
        "pending ?b = []" "same_key alg ?b" "alg_S ?b = alg_S alg" "alg_R ?b = alg_R alg"
      using blk(2) by (simp_all add: encrypt_input_block_def pending_def same_key_def Let_def)
    have "wf_alg ?b" using Cons.prems blk by (simp add: wf_alg_def encrypt_input_block_def Let_def)
    moreover have "encrypt_loop alg (p # P) C = encrypt_loop ?b P (C @ chainBlock ?b)"
      using True by (subst encrypt_loop.simps) (simp add: BB_def Let_def)
    moreover have "chunks8 (pending alg @ p # P) = ?blk # chunks8 P"
        "rest8 (pending alg @ p # P) = rest8 P"
      using chunks8_block [OF blk(1), of P] rest8_block [OF blk(1), of P] by simp_all
    ultimately show ?thesis
      using Cons.IH [of ?b "C @ chainBlock ?b"] b by (auto simp: Let_def same_key_def)
  qed
qed

lemma push_input_iterate:
  assumes "length (inputBlock alg) = 8" and "inputBlockIndex alg + n \<le> 8"
  shows "take (inputBlockIndex alg + n) (inputBlock ((push_input p ^^ n) alg)) =
           pending alg @ replicate n p \<and>
         inputBlockIndex ((push_input p ^^ n) alg) = inputBlockIndex alg + n \<and>
         length (inputBlock ((push_input p ^^ n) alg)) = 8 \<and>
         chainBlock ((push_input p ^^ n) alg) = chainBlock alg \<and>
         same_key alg ((push_input p ^^ n) alg)"
  using assms(2)
proof (induction n)
  case 0
  with assms show ?case by (simp add: pending_def same_key_def)
next
  case (Suc n)
  let ?a = "(push_input p ^^ n) alg"
  have IH: "take (inputBlockIndex alg + n) (inputBlock ?a) = pending alg @ replicate n p"
      "inputBlockIndex ?a = inputBlockIndex alg + n" "length (inputBlock ?a) = 8"
      "chainBlock ?a = chainBlock alg" "same_key alg ?a"
    using Suc by simp_all
  have "take (Suc (inputBlockIndex alg + n)) (inputBlock (push_input p ?a)) =
      pending alg @ replicate n p @ [p]"
    using IH Suc.prems by (simp add: push_input_def take_Suc_conv_app_nth)
  with IH show ?case by (simp add: replicate_append_same)
qed

lemma Encrypt_Final_spec:
  assumes wf: "wf_alg alg" and pad: "alg_Pad alg \<noteq> 0" and cap: "8 \<le> maxLen"
  defines "n \<equiv> 8 - inputBlockIndex alg"
  defines "blk \<equiv> pending alg @ replicate n (of_nat n)"
  shows "\<exists>alg'. RC5_CBC_Encrypt_Final alg maxLen =
      (alg', RC5_Block_Encrypt (alg_S alg) (alg_R alg) (xor_block blk (chainBlock alg)), 1) \<and>
    same_key alg alg' \<and> chainBlock alg' = alg_I alg \<and> pending alg' = []"
proof -
  let ?a = "(push_input (of_nat n) ^^ n) alg"
  have "inputBlockIndex alg + n = 8" "length (inputBlock alg) = 8"
    using wf by (simp_all add: n_def wf_alg_def)
  then have it: "take 8 (inputBlock ?a) = blk" "length (inputBlock ?a) = 8"
    and a: "chainBlock ?a = chainBlock alg" "same_key alg ?a"
    using push_input_iterate [of alg n "of_nat n"] by (simp_all add: blk_def)
  from it have ib: "inputBlock ?a = blk" by simp
  let ?b = "encrypt_input_block ?a"
  have b: "chainBlock ?b = RC5_Block_Encrypt (alg_S alg) (alg_R alg) (xor_block blk (chainBlock alg))"
      "same_key alg ?b" "alg_I ?b = alg_I alg"
    using a ib by (simp_all add: encrypt_input_block_def Let_def same_key_def)
  have "RC5_CBC_Encrypt_Final alg maxLen = (RC5_CBC_SetIV ?b (alg_I ?b), chainBlock ?b, 1)"
    using pad cap by (simp add: RC5_CBC_Encrypt_Final_def Let_def BB_def n_def)
  moreover have "same_key alg (RC5_CBC_SetIV ?b (alg_I ?b))"
      "chainBlock (RC5_CBC_SetIV ?b (alg_I ?b)) = alg_I alg"
      "pending (RC5_CBC_SetIV ?b (alg_I ?b)) = []"
    using b wf by (simp_all add: RC5_CBC_SetIV_def same_key_def pending_def BB_def wf_alg_def)
  ultimately show ?thesis using b(1) by auto
qed

text \<open>An update and the final step together encrypt the padded message.\<close>

lemma chunks8_pad8:
  "chunks8 (pad8 xs) =
     chunks8 xs @ [rest8 xs @ replicate (8 - length xs mod 8) (of_nat (8 - length xs mod 8))]"
proof -
  let ?n = "8 - length xs mod 8"
  have "length (rest8 xs @ replicate ?n (of_nat ?n :: byte)) = 8" by (simp add: length_rest8)
  from chunks8_block [OF this, of "[]"]
  have "chunks8 (rest8 xs @ replicate ?n (of_nat ?n)) = [rest8 xs @ replicate ?n (of_nat ?n :: byte)]"
    by (simp add: chunks8_short)
  then show ?thesis by (simp only: pad8_def chunks8_append [of xs])
qed

lemma Encrypt_Update_Final:
  assumes wf: "wf_alg alg" and fresh: "pending alg = []" and pad: "alg_Pad alg \<noteq> 0"
    and cap: "int (length P div 8 * 8) \<le> m" and cap': "8 \<le> m'"
  shows "\<exists>alg1 C1 alg2 C2. RC5_CBC_Encrypt_Update alg P m = Some (alg1, C1, 1) \<and>
    length C1 = length P div 8 * 8 \<and> RC5_CBC_Encrypt_Final alg1 m' = (alg2, C2, 1) \<and>
    length C2 = 8 \<and>
    C1 @ C2 = concat (cbc_encrypt (alg_S alg) (alg_R alg) (chainBlock alg) (chunks8 (pad8 P)))"
proof -
  let ?S = "alg_S alg" and ?R = "alg_R alg" and ?ch = "chainBlock alg"
  let ?out = "cbc_encrypt ?S ?R ?ch (chunks8 P)"
  have idx: "inputBlockIndex alg = 0"
    using length_pending [OF wf] fresh by simp
  obtain alg1 where a1: "encrypt_loop alg P [] = Some (alg1, concat ?out)" "wf_alg alg1"
      "same_key alg alg1" "chainBlock alg1 = last (?ch # ?out)" "pending alg1 = rest8 P"
    using encrypt_loop_spec [OF wf, of P "[]"] fresh by auto
  have "length (concat (chunks8 P)) = length P - length P mod 8"
    using arg_cong [OF concat_chunks8 [of P], of length] by (simp add: length_rest8)
  then have l: "8 * length (chunks8 P) = length P div 8 * 8"
    using length_concat_blocks [OF chunks8_lengths, of P] by (simp add: minus_mod_eq_div_mult)
  have up: "RC5_CBC_Encrypt_Update alg P m = Some (alg1, concat ?out, 1)"
    using a1(1) cap idx by (simp add: RC5_CBC_Encrypt_Update_def BB_def)
  have lo: "length (concat ?out) = length P div 8 * 8"
    using length_concat_blocks [OF cbc_encrypt_lengths, of ?S ?R ?ch "chunks8 P"] l by simp
  let ?n = "8 - length P mod 8"
  have i1: "inputBlockIndex alg1 = length P mod 8"
    using length_pending [OF a1(2)] a1(5) by (simp add: length_rest8)
  have k: "alg_S alg1 = ?S" "alg_R alg1 = ?R" "alg_Pad alg1 \<noteq> 0"
    using a1(3) pad by (simp_all add: same_key_def)
  obtain alg2 where fin: "RC5_CBC_Encrypt_Final alg1 m' =
      (alg2, RC5_Block_Encrypt ?S ?R (xor_block (rest8 P @ replicate ?n (of_nat ?n)) (last (?ch # ?out))), 1)"
    using Encrypt_Final_spec [OF a1(2) k(3) cap'] by (auto simp: i1 k a1(4,5))
  have "concat (cbc_encrypt ?S ?R ?ch (chunks8 (pad8 P))) = concat ?out @
      RC5_Block_Encrypt ?S ?R (xor_block (rest8 P @ replicate ?n (of_nat ?n)) (last (?ch # ?out)))"
    by (simp only: chunks8_pad8 cbc_encrypt_append concat_append cbc_encrypt.simps Let_def concat.simps append_Nil2)
  with up fin lo show ?thesis by auto
qed

section \<open>Decryption writes back the plaintext blocks\<close>

lemma dec_out_first:
  assumes "n \<le> 8" and "8 \<le> length P" and "length chain = 8"
  shows "fold (dec_out_byte C ci chain) [0..<n] (Some (0, P)) =
    Some (n, xor_block (take n P) (take n chain) @ drop n P)"
  using assms(1)
proof (induction n)
  case 0
  then show ?case by (simp add: xor_block_def)
next
  case (Suc n)
  have n: "n < length P" "n < length chain" "n < 8" using Suc.prems assms by simp_all
  let ?Q = "xor_block (take n P) (take n chain) @ drop n P"
  have "?Q ! n = P ! n" "length ?Q = length P" using n by (simp_all add: nth_append)
  moreover have "?Q[n := P ! n XOR chain ! n] =
      xor_block (take (Suc n) P) (take (Suc n) chain) @ drop (Suc n) P"
    using n by (simp add: list_update_append xor_block_def take_Suc_conv_app_nth
        Cons_nth_drop_Suc [symmetric])
  ultimately show ?case using Suc n by (simp add: dec_out_byte_def BB_def)
qed

lemma dec_out_next:
  assumes "n \<le> 8" and "8 \<le> pi0" and "pi0 + 8 \<le> length P" and "length chain = 8"
    and "16 \<le> ci" and "ci \<le> length C"
  shows "fold (dec_out_byte C ci chain) [0..<n] (Some (pi0, P)) =
    Some (pi0 + n, take pi0 P @ xor_block (take n (drop (ci - 16) C)) (take n chain) @ drop (pi0 + n) P)"
  using assms(1)
proof (induction n)
  case 0
  then show ?case by (simp add: xor_block_def)
next
  case (Suc n)
  obtain m where m: "ci = m + 16" using assms(5) by (metis le_add_diff_inverse2)
  have n: "n < length chain" "m + n < length C" "pi0 + n < length P"
    using Suc.prems assms m by simp_all
  let ?X = "xor_block (take n (drop m C)) (take n chain)"
  define Q where "Q = take pi0 P @ ?X @ drop (pi0 + n) P"
  have lX: "length ?X = n" using n by simp
  have lQ: "length Q = length P" using n lX assms(2,3) by (simp add: Q_def)
  have "Q[pi0 + n := C ! (m + n) XOR chain ! n] =
      take pi0 P @ ?X @ [C ! (m + n) XOR chain ! n] @ drop (pi0 + Suc n) P"
    using n(3) lX by (simp add: Q_def list_update_append Cons_nth_drop_Suc [symmetric])
  moreover have "xor_block (take (Suc n) (drop m C)) (take (Suc n) chain) =
      ?X @ [C ! (m + n) XOR chain ! n]"
    using n(1,2) by (simp add: xor_block_def take_Suc_conv_app_nth)
  ultimately have upd: "Q[pi0 + n := C ! (m + n) XOR chain ! n] = take pi0 P @
      xor_block (take (Suc n) (drop m C)) (take (Suc n) chain) @ drop (pi0 + Suc n) P"
    by simp
  have "dec_out_byte C ci chain n (Some (pi0 + n, Q)) =
      Some (pi0 + Suc n, Q[pi0 + n := C ! (m + n) XOR chain ! n])"
  proof -
    have "\<not> length Q \<le> pi0 + n" "\<not> pi0 + n < 8" "\<not> ci + n < 16" "ci + n - 16 = m + n"
      using n(2,3) lQ assms(2) m by simp_all
    with n(2) show ?thesis by (simp only: dec_out_byte_def BB_def option.case prod.case) simp
  qed
  moreover have "fold (dec_out_byte C ci chain) [0..<n] (Some (pi0, P)) = Some (pi0 + n, Q)"
    using Suc.IH Suc.prems by (simp add: Q_def m)
  ultimately show ?case by (simp add: upd m)
qed

lemma decrypt_read_block:
  assumes "wf_alg alg" and "8 - inputBlockIndex alg = Suc k" and "ci + Suc k \<le> length C"
  defines "blk \<equiv> pending alg @ take (Suc k) (drop ci C)"
  shows "decrypt_loop alg C ci p P =
    (let alg2 = alg\<lparr>inputBlock := blk, inputBlockIndex := 0,
                   chainBlock := RC5_Block_Decrypt (alg_S alg) (alg_R alg) blk\<rparr>
     in case fold (dec_out_byte C (ci + Suc k) (chainBlock alg2)) [0..<8] (Some (p, P)) of
          None \<Rightarrow> None | Some (p', P') \<Rightarrow> decrypt_loop alg2 C (ci + Suc k) p' P')"
  using assms(1-3) unfolding blk_def
proof (induction k arbitrary: alg ci)
  case 0
  let ?a = "push_input (C ! ci) alg"
  have i: "inputBlockIndex alg = 7" and ci: "ci < length C" using 0 by simp_all
  have "take 8 (inputBlock ?a) = pending alg @ [C ! ci]"
    using push_input_pending [OF 0(1), of "C ! ci"] i by simp
  moreover have "length (inputBlock ?a) = 8" using 0(1) by (simp add: wf_alg_def)
  ultimately have ib: "inputBlock ?a = pending alg @ take 1 (drop ci C)"
    using ci by (simp add: Cons_nth_drop_Suc [symmetric])
  have eq: "?a\<lparr>inputBlockIndex := 0, chainBlock := c\<rparr> =
      alg\<lparr>inputBlock := inputBlock ?a, inputBlockIndex := 0, chainBlock := c\<rparr>" for c
    by (simp add: push_input_def)
  show ?case
    using i ci ib
    by (subst decrypt_loop.simps) (simp add: BB_def Let_def eq cong: option.case_cong)
next
  case (Suc k)
  let ?a = "push_input (C ! ci) alg"
  have i: "inputBlockIndex alg < 7" and ci: "ci < length C" using Suc.prems by simp_all
  have wf: "wf_alg ?a" "8 - inputBlockIndex ?a = Suc k" "Suc ci + Suc k \<le> length C"
    using Suc.prems i by (simp_all add: wf_alg_def)
  have pe: "pending ?a @ take (Suc k) (drop (Suc ci) C) = pending alg @ take (Suc (Suc k)) (drop ci C)"
    using push_input_pending [OF Suc.prems(1), of "C ! ci"] ci
    by (simp add: pending_def Cons_nth_drop_Suc [symmetric])
  have eq: "?a\<lparr>inputBlock := x, inputBlockIndex := 0, chainBlock := c\<rparr> =
      alg\<lparr>inputBlock := x, inputBlockIndex := 0, chainBlock := c\<rparr>" for x c
    by (simp add: push_input_def)
  have "decrypt_loop alg C ci p P = decrypt_loop ?a C (Suc ci) p P"
    using i ci by (subst decrypt_loop.simps) (simp add: BB_def Let_def)
  with Suc.IH [OF wf] show ?case unfolding pe by (simp add: eq cong: option.case_cong)
qed

lemma concat_cbc_decrypt_length:
  assumes "\<forall>c \<in> set cs. length c = 8" and "length ch = 8"
  shows "length (concat (cbc_decrypt S R ch cs)) = 8 * length cs"
  using assms by (induction S R ch cs rule: cbc_decrypt.induct) auto

text \<open>From the second block on: \<open>cs\<close> is what is left, \<open>prev\<close> the ciphertext block before it.\<close>

lemma decrypt_loop_blocks:
  assumes "wf_alg alg" and "pending alg = []" and "\<forall>c \<in> set cs. length c = 8"
    and "length prev = 8" and "length pre + 8 = length outs" and "length P = length outs + 8 * length cs"
    and "take (length outs) P = outs" and "C = pre @ prev @ concat cs" and "8 \<le> length outs"
  shows "\<exists>alg'. decrypt_loop alg C (length outs) (length outs) P =
    Some (alg', length P, outs @ concat (cbc_decrypt (alg_S alg) (alg_R alg) prev cs))"
  using assms
proof (induction cs arbitrary: alg prev pre outs P)
  case Nil
  then show ?case by (subst decrypt_loop.simps) simp
next
  case (Cons c cs)
  let ?o = "length outs" and ?S = "alg_S alg" and ?R = "alg_R alg"
  let ?d = "RC5_Block_Decrypt ?S ?R c"
  let ?a = "alg\<lparr>inputBlock := c, inputBlockIndex := 0, chainBlock := ?d\<rparr>"
  let ?P = "outs @ xor_block prev ?d @ drop (?o + 8) P"
  have C: "length C = ?o + 8 + 8 * length cs" "take 8 (drop ?o C) = c" "drop (?o - 8) C = prev @ c @ concat cs"
    using Cons.prems length_concat_blocks [of cs] by (simp_all add: drop_append)
  have idx: "inputBlockIndex alg = 0" using length_pending [OF Cons.prems(1)] Cons.prems(2) by simp
  have "take 8 (drop (?o + 8 - 16) C) = prev"
    using C(3) Cons.prems(4) by simp
  then have out: "fold (dec_out_byte C (?o + 8) ?d) [0..<8] (Some (?o, P)) = Some (?o + 8, ?P)"
    using dec_out_next [of 8 ?o P ?d "?o + 8" C] Cons.prems C(1) by simp
  have step: "decrypt_loop alg C ?o ?o P = decrypt_loop ?a C (?o + 8) (?o + 8) ?P"
    using decrypt_read_block [OF Cons.prems(1), of 7 ?o C ?o P] idx C Cons.prems(2) out
    by (simp add: Let_def pending_def)
  have sw: "xor_block ?d prev = xor_block prev ?d"
    unfolding xor_block_def by (subst zip_commute) (simp add: xor.commute split_def)
  let ?outs = "outs @ xor_block ?d prev"
  have "wf_alg ?a" "pending ?a = []" using Cons.prems(1,3) by (simp_all add: wf_alg_def pending_def)
  moreover have "length ?outs = ?o + 8" using Cons.prems(4) by simp
  moreover have "length ?P = length ?outs + 8 * length cs" using Cons.prems(4,6) by simp
  moreover have "take (length ?outs) ?P = ?outs" using Cons.prems(4) by (simp add: sw)
  ultimately have "\<exists>alg'. decrypt_loop ?a C (length ?outs) (length ?outs) ?P =
      Some (alg', length ?P, ?outs @ concat (cbc_decrypt (alg_S ?a) (alg_R ?a) c cs))"
    using Cons.prems by (intro Cons.IH [where pre = "pre @ prev"]) simp_all
  then show ?case using step Cons.prems(4,6) by simp
qed

lemma Decrypt_Update_spec:
  assumes "wf_alg alg" and "pending alg = []" and "\<forall>b \<in> set cs. length b = 8" and "cs \<noteq> []"
    and "length P = 8 * length cs"
  shows "\<exists>alg'. RC5_CBC_Decrypt_Update alg (concat cs) P =
    Some (alg', length P, concat (cbc_decrypt (alg_S alg) (alg_R alg) (chainBlock alg) cs))"
proof -
  obtain c cs' where cs: "cs = c # cs'" using assms(4) by (cases cs) auto
  let ?S = "alg_S alg" and ?R = "alg_R alg" and ?ch = "chainBlock alg"
  let ?d = "RC5_Block_Decrypt ?S ?R c"
  let ?Pin = "?ch @ drop 8 P"
  let ?a = "alg\<lparr>inputBlock := c, inputBlockIndex := 0, chainBlock := ?d\<rparr>"
  have l: "length c = 8" "length ?ch = 8" "8 \<le> length P"
    using assms cs by (auto simp: wf_alg_def)
  have sw: "xor_block ?ch ?d = xor_block ?d ?ch"
    unfolding xor_block_def by (subst zip_commute) (simp add: xor.commute split_def)
  let ?P = "xor_block ?d ?ch @ drop 8 P"
  have idx: "inputBlockIndex alg = 0" using length_pending [OF assms(1)] assms(2) by simp
  have "fold (dec_out_byte (concat cs) 8 ?d) [0..<8] (Some (0, ?Pin)) = Some (8, ?P)"
    using dec_out_first [of 8 ?Pin ?d "concat cs" 8] l by (simp add: sw)
  then have step: "decrypt_loop alg (concat cs) 0 0 ?Pin = decrypt_loop ?a (concat cs) 8 8 ?P"
    using decrypt_read_block [OF assms(1), of 7 0 "concat cs" 0 ?Pin] idx l cs assms(2)
    by (simp add: Let_def pending_def)
  have "wf_alg ?a" "pending ?a = []" using assms(1) l by (simp_all add: wf_alg_def pending_def)
  then have "\<exists>alg'. decrypt_loop ?a (concat cs) (length (xor_block ?d ?ch)) (length (xor_block ?d ?ch)) ?P =
      Some (alg', length ?P, xor_block ?d ?ch @ concat (cbc_decrypt (alg_S ?a) (alg_R ?a) c cs'))"
    using assms cs l by (intro decrypt_loop_blocks [where pre = "[]"]) simp_all
  with step l show ?thesis by (simp add: RC5_CBC_Decrypt_Update_def BB_def cs)
qed

section \<open>Splitting a message over several updates\<close>

lemma encrypt_loop_Nil [simp]: "encrypt_loop alg [] C = Some (alg, C)"
  by (subst encrypt_loop.simps) simp

lemma encrypt_loop_Cons:
  assumes "inputBlockIndex alg < 8"
  shows "encrypt_loop alg (p # P) C =
    (if inputBlockIndex alg = 7
     then let a = encrypt_input_block ((push_input p alg)\<lparr>inputBlockIndex := 0\<rparr>)
          in encrypt_loop a P (C @ chainBlock a)
     else encrypt_loop (push_input p alg) P C)"
  using assms by (subst encrypt_loop.simps) (simp add: BB_def Let_def)

lemma encrypt_input_block_index [simp]:
  "inputBlockIndex (encrypt_input_block alg) = inputBlockIndex alg"
  by (simp add: encrypt_input_block_def Let_def)

lemma encrypt_loop_append:
  assumes "inputBlockIndex alg < 8"
  shows "encrypt_loop alg (P @ Q) C =
    (case encrypt_loop alg P C of None \<Rightarrow> None | Some (a, D) \<Rightarrow> encrypt_loop a Q D)"
  using assms by (induction P arbitrary: alg C) (simp_all add: encrypt_loop_Cons Let_def)

lemma encrypt_loop_out:
  assumes "inputBlockIndex alg < 8"
  shows "encrypt_loop alg P (C @ D) = map_option (\<lambda>(a, E). (a, C @ E)) (encrypt_loop alg P D)"
  using assms
  by (induction P arbitrary: alg D) (simp_all add: encrypt_loop_Cons Let_def)

lemma encrypt_loop_index:
  assumes "inputBlockIndex alg < 8" and "encrypt_loop alg P C = Some (a, D)"
  shows "inputBlockIndex a < 8"
  using assms
proof (induction P arbitrary: alg C)
  case (Cons p P)
  show ?case
  proof (cases "inputBlockIndex alg = 7")
    case True
    with Cons.prems show ?thesis
      by (intro Cons.IH [of "encrypt_input_block (push_input p alg\<lparr>inputBlockIndex := 0\<rparr>)"])
         (simp_all add: encrypt_loop_Cons Let_def)
  next
    case False
    with Cons.prems show ?thesis
      by (intro Cons.IH [of "push_input p alg"]) (simp_all add: encrypt_loop_Cons)
  qed
qed simp

section \<open>Encryption and decryption together\<close>

text \<open>What \<open>RC5_CBC_Encrypt_Update\<close> and \<open>RC5_CBC_Encrypt_Final\<close> write for a message decrypts,
  in a cipher object with the same table and the same initial chain block, to the message
  followed by its padding: between one and eight bytes, each the number of them.\<close>

lemma rc5_cbc_roundtrip:
  assumes "wf_alg alg" and "pending alg = []" and "alg_Pad alg \<noteq> 0"
    and "int (length P div 8 * 8) \<le> m" and "8 \<le> m'"
    and "wf_alg dcr" and "pending dcr = []" and "chainBlock dcr = chainBlock alg"
    and "alg_S dcr = alg_S alg" and "alg_R dcr = alg_R alg"
    and "length out = length P div 8 * 8 + 8"
  shows "\<exists>alg1 C1 alg2 C2 dcr'.
    RC5_CBC_Encrypt_Update alg P m = Some (alg1, C1, 1) \<and>
    RC5_CBC_Encrypt_Final alg1 m' = (alg2, C2, 1) \<and>
    RC5_CBC_Decrypt_Update dcr (C1 @ C2) out =
      Some (dcr', length out, P @ replicate (8 - length P mod 8) (of_nat (8 - length P mod 8)))"
proof -
  let ?S = "alg_S alg" and ?R = "alg_R alg" and ?ch = "chainBlock alg"
  let ?cs = "cbc_encrypt ?S ?R ?ch (chunks8 (pad8 P))"
  obtain alg1 C1 alg2 C2 where enc: "RC5_CBC_Encrypt_Update alg P m = Some (alg1, C1, 1)"
      "RC5_CBC_Encrypt_Final alg1 m' = (alg2, C2, 1)" "C1 @ C2 = concat ?cs"
      and lens: "length C1 = length P div 8 * 8" "length C2 = 8"
    using Encrypt_Update_Final [OF assms(1-5)] by auto
  have len: "length (C1 @ C2) = length out" using lens assms(11) by simp
  have "length ?cs \<noteq> 0" by (simp add: chunks8_pad8)
  then have cs: "\<forall>c \<in> set ?cs. length c = 8" "?cs \<noteq> []"
    using cbc_encrypt_lengths by (simp, metis list.size(3))
  then have "length out = 8 * length ?cs"
    using enc(3) len length_concat_blocks by metis
  then obtain dcr' where "RC5_CBC_Decrypt_Update dcr (C1 @ C2) out =
      Some (dcr', length out, concat (cbc_decrypt ?S ?R ?ch ?cs))"
    using Decrypt_Update_spec [OF assms(6,7) cs, of out] assms(8-10) enc(3) by auto
  moreover have "cbc_decrypt ?S ?R ?ch ?cs = chunks8 (pad8 P)"
    using chunks8_lengths assms(1) by (intro cbc_decrypt_encrypt) (simp_all add: wf_alg_def)
  moreover have "length (pad8 P) mod 8 = 0"
    by (simp add: pad8_def) presburger
  then have "concat (chunks8 (pad8 P)) = pad8 P"
    using concat_chunks8 [of "pad8 P"] length_rest8 [of "pad8 P"] by simp
  ultimately show ?thesis using enc(1,2) by (auto simp: pad8_def)
qed

section \<open>Properties\<close>

definition sample_alg :: rc5CBCAlg where
  "sample_alg = \<lparr>alg_Pad = 1, alg_R = 1, alg_S = [1, 2, 3, 4], alg_I = [7, 7, 7, 7, 7, 7, 7, 7],
     chainBlock = [7, 7, 7, 7, 7, 7, 7, 7], inputBlock = [0, 0, 0, 0, 0, 0, 0, 0], inputBlockIndex = 0\<rparr>"

text \<open>A message may be handed to the cipher object in pieces: two updates that have room
  write what one update with the joined message writes, and leave the same object.\<close>

theorem rc5_encrypt_update_split:
  assumes "inputBlockIndex alg < 8"
    and "RC5_CBC_Encrypt_Update alg P m = Some (alg1, C1, 1)"
    and "RC5_CBC_Encrypt_Update alg1 Q m' = Some (alg2, C2, 1)"
    and "int ((inputBlockIndex alg + length P + length Q) div 8 * 8) \<le> m''"
  shows "RC5_CBC_Encrypt_Update alg (P @ Q) m'' = Some (alg2, C1 @ C2, 1)"
proof -
  have "encrypt_loop alg P [] = Some (alg1, C1)" "encrypt_loop alg1 Q [] = Some (alg2, C2)"
    using assms(2,3) by (auto simp: RC5_CBC_Encrypt_Update_def split: if_splits)
  moreover have "inputBlockIndex alg1 < 8"
    using assms(1) \<open>encrypt_loop alg P [] = Some (alg1, C1)\<close>
    by (rule encrypt_loop_index)
  ultimately have "encrypt_loop alg (P @ Q) [] = Some (alg2, C1 @ C2)"
    using encrypt_loop_append [OF assms(1), of P Q "[]"] encrypt_loop_out [of alg1 Q C1 "[]"] by simp
  then show ?thesis using assms(4) by (simp add: RC5_CBC_Encrypt_Update_def BB_def add.assoc)
qed

lemma rc5_encrypt_update_split_witness:
  "RC5_CBC_Encrypt_Update sample_alg ([1, 2] @ [3]) 0 =
     Some (sample_alg\<lparr>inputBlock := [1, 2, 3, 0, 0, 0, 0, 0], inputBlockIndex := 3\<rparr>, [] @ [], 1)"
  by (rule rc5_encrypt_update_split [where m = 0 and m' = 0 and
        ?alg1.0 = "sample_alg\<lparr>inputBlock := [1, 2, 0, 0, 0, 0, 0, 0], inputBlockIndex := 2\<rparr>"])
     (simp_all add: sample_alg_def RC5_CBC_Encrypt_Update_def encrypt_loop_Cons push_input_def BB_def)

text \<open>Key expansion is defined exactly for user keys of one to 256 bytes and a table of
  \<open>2 * (R + 1)\<close> words, and then fills that table from the arithmetic progression of the magic
  constants, mixing three times over the longer of table and key.\<close>

theorem rc5_key_expand_domain:
  "case RC5_Key_Expand b K R S of
     None \<Rightarrow> \<not> (0 < b \<and> b \<le> 256 \<and> b \<le> length K \<and> length S = 2 * (R + 1))
   | Some S' \<Rightarrow> 0 < b \<and> b \<le> 256 \<and> b \<le> length K \<and> length S = 2 * (R + 1) \<and>
       length S' = 2 * (R + 1) \<and>
       S' = mix_key (3 * max (key_words b) (2 * (R + 1))) 0 0 0 0
         (map (\<lambda>i. Pw + of_nat i * Qw) [0..<2 * (R + 1)]) (load_key b K)"
proof (cases "RC5_Key_Expand b K R S")
  case None
  then show ?thesis using RC5_Key_Expand_Some [of b K R S] by auto
next
  case (Some S')
  then have len: "length S = 2 * (R + 1)" by (simp add: RC5_Key_Expand_Some)
  note eq = init_table_all [OF len]
  show ?thesis
    using Some RC5_Key_Expand_length [OF Some] unfolding RC5_Key_Expand_Some eq
    unfolding Some option.case by blast
qed

end
