(* ===== verification/Starship_Codec.thy ===== *)
theory Starship_Codec
  imports CBuffer Rc5
begin

text \<open>
  The message codecs of the server framework (\<open>Starship/src/codec\<close>): the RC5 wrappers of
  \<open>StarshipCodec.cpp\<close>, the internal protocol of \<open>ProtoCodec.cpp\<close> and the client protocol of
  \<open>ClientMsgCodec.cpp\<close> with the packed head of \<open>ClientMsgHead.hpp\<close>. The generated protobuf
  classes and the compression functions, which only drive zlib and Crypto++, are arguments.
  \<open>None\<close> stands for undefined behaviour or an exception that nothing catches.
\<close>

section \<open>Messages\<close>

record msg_head =
  h_cmd :: u32
  h_msgbody_len :: u32
  h_seq :: u32

text \<open>Serialisation of the two generated message classes. A parse returns whether it succeeded
  and the message object afterwards.\<close>

record 'b protobuf =
  ser_head :: "msg_head \<Rightarrow> byte list"
  parse_head :: "byte list \<Rightarrow> bool \<times> msg_head"
  ser_body :: "'b \<Rightarrow> byte list"
  parse_body :: "byte list \<Rightarrow> bool \<times> 'b"

datatype codec_status = CODEC_STATUS_OK | CODEC_STATUS_ERR | CODEC_STATUS_PAUSE

definition gc_uiGzipBit :: u32 where
  "gc_uiGzipBit = 0x10000000"

definition gc_uiZipBit :: u32 where
  "gc_uiZipBit = 0x20000000"

definition gc_uiRc5Bit :: u32 where
  "gc_uiRc5Bit = 0x01000000"

definition gc_uiCmdBit :: u32 where
  "gc_uiCmdBit = 0x0000FFFF"

section \<open>RC5 as the codecs use it\<close>

definition szIv :: "byte list" where
  "szIv = ascii ''2015-08-10 08:53:47'' @ [0]"

text \<open>\<open>raw\<close> is the memory of the cipher object before it is initialised. Both overloads of the
  C++ functions run this code, one of them with the key of the codec.\<close>

definition Rc5Encrypt :: "rc5CBCAlg \<Rightarrow> byte list \<Rightarrow> byte list \<Rightarrow> byte list option" where
  "Rc5Encrypt raw strKey strSrc =
     (case RC5_Key_Create True of None \<Rightarrow> None
      | Some key0 \<Rightarrow>
     (case RC5_Key_Set True key0 (length strKey) strKey of None \<Rightarrow> None
      | Some (pKey, _) \<Rightarrow>
     (case RC5_CBC_Encrypt_Init (RC5_CBC_Create (Some raw) 1 16 1 (int BB) szIv) (Some pKey) of
        Some (Some alg, _) \<Rightarrow>
          let maxLen = int_of_size (2 * length strSrc) in
          (case RC5_CBC_Encrypt_Update alg strSrc maxLen of None \<Rightarrow> None
           | Some (alg1, pCipher, _) \<Rightarrow>
               let (_, final, _) = RC5_CBC_Encrypt_Final alg1 (maxLen - int (length pCipher))
               in Some (pCipher @ final))
      | _ \<Rightarrow> None)))"

text \<open>\<open>pPlain\<close> is the uninitialised output block, of the size of the ciphertext.\<close>

definition Rc5Decrypt :: "rc5CBCAlg \<Rightarrow> byte list \<Rightarrow> byte list \<Rightarrow> byte list \<Rightarrow> byte list option" where
  "Rc5Decrypt raw pPlain0 strKey strSrc =
     (case RC5_Key_Create True of None \<Rightarrow> None
      | Some key0 \<Rightarrow>
     (case RC5_Key_Set True key0 (length strKey) strKey of None \<Rightarrow> None
      | Some (pKey, _) \<Rightarrow>
     (case RC5_CBC_Decrypt_Init (RC5_CBC_Create (Some raw) 1 16 1 (int BB) szIv) (Some pKey) of
        Some (Some alg, _) \<Rightarrow>
          (case RC5_CBC_Decrypt_Update alg strSrc pPlain0 of None \<Rightarrow> None
           | Some (_, numBytesOut, pPlain) \<Rightarrow>
               if numBytesOut = 0 then None
               else let fillBytes = sint (pPlain ! (numBytesOut - 1));
                        plain_length = int numBytesOut - fillBytes
                    in if 0 \<le> plain_length \<and> plain_length \<le> int (length pPlain)
                       then Some (take (nat plain_length) pPlain) else None)
      | _ \<Rightarrow> None)))"

section \<open>The internal protocol\<close>

text \<open>\<open>msgbody_len\<close> is checked after an addition of \<open>int\<close> and \<open>uint32_t\<close>, which wraps; a length
  that is negative as an \<open>int\<close> makes the parser's behaviour undefined.\<close>

definition raw_read :: "cbuffer \<Rightarrow> nat \<Rightarrow> nat \<Rightarrow> byte list option" where
  "raw_read b off n = mem_load (m_buffer b) (m_read_idx b + off) n"

definition parse_array :: "(byte list \<Rightarrow> bool \<times> 'a) \<Rightarrow> cbuffer \<Rightarrow> nat \<Rightarrow> nat \<Rightarrow> (bool \<times> 'a) option" where
  "parse_array parse b off n = (if n < 2 ^ 31 then map_option parse (raw_read b off n) else None)"

definition roll_back :: "int \<Rightarrow> cbuffer \<Rightarrow> cbuffer" where
  "roll_back iHadWriteLen b = SetWriteIndex (size_add_int (GetWriteIndex b) (- iHadWriteLen)) b"

definition ProtoCodec_Encode ::
  "'b protobuf \<Rightarrow> allocator \<Rightarrow> msg_head \<Rightarrow> 'b \<Rightarrow> cbuffer \<Rightarrow> (cbuffer \<times> codec_status) option" where
  "ProtoCodec_Encode pb malloc oMsgHead oMsgBody pBuff =
     (let body = ser_body pb oMsgBody; head = ser_head pb oMsgHead in
      if int_of_size (length body) > 64000000 then Some (pBuff, CODEC_STATUS_ERR)
      else case Write malloc head pBuff of None \<Rightarrow> None
           | Some (b1, w1) \<Rightarrow>
               if w1 \<noteq> int_of_size (length head) then Some (roll_back 0 b1, CODEC_STATUS_ERR)
               else if h_msgbody_len oMsgHead = 0 then Some (b1, CODEC_STATUS_OK)
               else (case Write malloc body b1 of None \<Rightarrow> None
                     | Some (b2, w2) \<Rightarrow>
                         if w2 = int_of_size (length body) then Some (b2, CODEC_STATUS_OK)
                         else Some (roll_back w1 b2, CODEC_STATUS_ERR)))"

definition ProtoCodec_Decode ::
  "'b protobuf \<Rightarrow> cbuffer \<Rightarrow> 'b \<Rightarrow> (cbuffer \<times> msg_head \<times> 'b \<times> codec_status) option" where
  "ProtoCodec_Decode pb pBuff oMsgBody =
     (let h0 = \<lparr>h_cmd = 0, h_msgbody_len = 0, h_seq = 0\<rparr>;
          iHeadSize = length (ser_head pb h0)
      in if int_of_size (ReadableBytes pBuff) \<ge> int iHeadSize
         then case parse_array (parse_head pb) pBuff 0 iHeadSize of None \<Rightarrow> None
              | Some (ok, h) \<Rightarrow>
                  if \<not> ok then Some (pBuff, h, oMsgBody, CODEC_STATUS_ERR)
                  else if h_msgbody_len h = 0
                  then Some (SkipBytes iHeadSize pBuff, h, oMsgBody, CODEC_STATUS_OK)
                  else if ReadableBytes pBuff \<ge> unat (of_nat iHeadSize + h_msgbody_len h)
                  then (case parse_array (parse_body pb) pBuff iHeadSize (unat (h_msgbody_len h)) of
                          None \<Rightarrow> None
                        | Some (ok', body) \<Rightarrow>
                            if ok'
                            then Some (SkipBytes (length (ser_head pb h) + length (ser_body pb body)) pBuff,
                                       h, body, CODEC_STATUS_OK)
                            else Some (pBuff, h, body, CODEC_STATUS_ERR))
                  else Some (pBuff, h, oMsgBody, CODEC_STATUS_PAUSE)
         else Some (pBuff, h0, oMsgBody, CODEC_STATUS_PAUSE))"

section \<open>The client protocol\<close>

text \<open>The packed 14 byte head \<open>tagClientMsgHead\<close>, as a little-endian host holds it in memory.\<close>

record client_head =
  ch_version :: byte
  ch_encript :: byte
  ch_cmd :: u16
  ch_checksum :: u16
  ch_body_len :: u32
  ch_seq :: u32

definition load_word16 :: "byte \<Rightarrow> byte \<Rightarrow> u16" where
  "load_word16 a b = ucast a OR push_bit 8 (ucast b)"

definition store_word16 :: "u16 \<Rightarrow> byte list" where
  "store_word16 x = [ucast x, ucast (drop_bit 8 x)]"

definition htons :: "u16 \<Rightarrow> u16" where
  "htons x = load_word16 (store_word16 x ! 1) (store_word16 x ! 0)"

definition htonl :: "u32 \<Rightarrow> u32" where
  "htonl x = load_word (store_word x ! 3) (store_word x ! 2) (store_word x ! 1) (store_word x ! 0)"

definition head_bytes :: "client_head \<Rightarrow> byte list" where
  "head_bytes chd = [ch_version chd, ch_encript chd] @ store_word16 (ch_cmd chd) @
     store_word16 (ch_checksum chd) @ store_word (ch_body_len chd) @ store_word (ch_seq chd)"

definition head_of_bytes :: "byte list \<Rightarrow> client_head" where
  "head_of_bytes bs =
     \<lparr>ch_version = bs ! 0, ch_encript = bs ! 1, ch_cmd = load_word16 (bs ! 2) (bs ! 3),
      ch_checksum = load_word16 (bs ! 4) (bs ! 5),
      ch_body_len = load_word (bs ! 6) (bs ! 7) (bs ! 8) (bs ! 9),
      ch_seq = load_word (bs ! 10) (bs ! 11) (bs ! 12) (bs ! 13)\<rparr>"

text \<open>What the codec object needs besides the message classes: the compression functions
  (\<open>None\<close> when they return false), its key, and the uninitialised memory RC5 works in.\<close>

record client_env =
  Zip :: "byte list \<Rightarrow> byte list option"
  Unzip :: "byte list \<Rightarrow> byte list option"
  Gzip :: "byte list \<Rightarrow> byte list option"
  Gunzip :: "byte list \<Rightarrow> byte list option"
  m_strKey :: "byte list"
  rc5_raw :: rc5CBCAlg
  plain_block :: "nat \<Rightarrow> byte list"

definition write_packet ::
  "allocator \<Rightarrow> client_head \<Rightarrow> int \<Rightarrow> byte list \<Rightarrow> cbuffer \<Rightarrow> (cbuffer \<times> codec_status) option" where
  "write_packet malloc chd iHadWriteLen data b =
     (case Write malloc (head_bytes chd) b of None \<Rightarrow> None
      | Some (b1, w1) \<Rightarrow>
          if w1 \<noteq> 14 then Some (roll_back 0 b1, CODEC_STATUS_ERR)
          else (case Write malloc data b1 of None \<Rightarrow> None
                | Some (b2, w2) \<Rightarrow>
                    if w2 \<noteq> int_of_size (length data)
                    then Some (roll_back iHadWriteLen b2, CODEC_STATUS_ERR)
                    else Some (b2, CODEC_STATUS_OK)))"

definition flag :: "u32 \<Rightarrow> u32 \<Rightarrow> bool" where
  "flag b cmd \<longleftrightarrow> b AND cmd \<noteq> 0"

definition compress_data :: "client_env \<Rightarrow> u32 \<Rightarrow> byte list \<Rightarrow> byte list option" where
  "compress_data ce cmd data =
     (if flag gc_uiZipBit cmd then Zip ce data
      else if flag gc_uiGzipBit cmd then Gzip ce data else Some [])"

definition encrypt_data :: "client_env \<Rightarrow> u32 \<Rightarrow> byte list \<Rightarrow> byte list \<Rightarrow> byte list option" where
  "encrypt_data ce cmd comp_data data =
     (if flag gc_uiRc5Bit cmd
      then Rc5Encrypt (rc5_raw ce) (m_strKey ce) (if comp_data \<noteq> [] then comp_data else data)
      else Some [])"

definition client_head_of :: "msg_head \<Rightarrow> client_head" where
  "client_head_of h =
     \<lparr>ch_version = 1, ch_encript = ucast (drop_bit 24 (h_cmd h)),
      ch_cmd = htons (ucast (gc_uiCmdBit AND h_cmd h)), ch_checksum = 0,
      ch_body_len = htonl (h_msgbody_len h), ch_seq = htonl (h_seq h)\<rparr>"

definition ClientMsgCodec_Encode ::
  "client_env \<Rightarrow> 'b protobuf \<Rightarrow> allocator \<Rightarrow> msg_head \<Rightarrow> 'b \<Rightarrow> cbuffer \<Rightarrow> (cbuffer \<times> codec_status) option" where
  "ClientMsgCodec_Encode ce pb malloc h body b =
     (let chd = client_head_of h; data = ser_body pb body; cmd = h_cmd h in
      if int_of_size (length data) > 64000000 then Some (b, CODEC_STATUS_ERR)
      else if h_msgbody_len h = 0
      then (case Write malloc (head_bytes chd) b of None \<Rightarrow> None
            | Some (b1, w1) \<Rightarrow>
                if w1 \<noteq> 14 then Some (roll_back 0 b1, CODEC_STATUS_ERR) else Some (b1, CODEC_STATUS_OK))
      else if ch_encript chd = 0 then write_packet malloc chd 0 data b
      else case compress_data ce cmd data of None \<Rightarrow> Some (b, CODEC_STATUS_ERR)
           | Some comp_data \<Rightarrow>
               (case encrypt_data ce cmd comp_data data of None \<Rightarrow> None
                | Some encr \<Rightarrow>
                    if encr \<noteq> []
                    then write_packet malloc (chd\<lparr>ch_body_len := htonl (of_nat (length encr))\<rparr>) 14 encr b
                    else if comp_data \<noteq> []
                    then write_packet malloc (chd\<lparr>ch_body_len := htonl (of_nat (length comp_data))\<rparr>) 14 comp_data b
                    else write_packet malloc chd 14 data b))"

definition decrypt_data :: "client_env \<Rightarrow> u32 \<Rightarrow> byte list \<Rightarrow> byte list option" where
  "decrypt_data ce cmd raw =
     (if flag gc_uiRc5Bit cmd
      then Rc5Decrypt (rc5_raw ce) (plain_block ce (length raw)) (m_strKey ce) raw else Some [])"

definition uncompress_data :: "client_env \<Rightarrow> u32 \<Rightarrow> byte list \<Rightarrow> byte list \<Rightarrow> byte list option" where
  "uncompress_data ce cmd decr raw =
     (if flag gc_uiZipBit cmd then Unzip ce (if decr \<noteq> [] then decr else raw)
      else if flag gc_uiGzipBit cmd then Gunzip ce (if decr \<noteq> [] then decr else raw) else Some [])"

text \<open>The body of a complete packet: the head afterwards and the parse result, \<open>None\<close> in the
  second component when decompression fails.\<close>

definition decode_body ::
  "client_env \<Rightarrow> 'b protobuf \<Rightarrow> byte \<Rightarrow> msg_head \<Rightarrow> cbuffer \<Rightarrow> (msg_head \<times> (bool \<times> 'b) option) option" where
  "decode_body ce pb encript h b =
     (let n = unat (h_msgbody_len h); plain = map_option (\<lambda>r. (h, Some r)) (parse_array (parse_body pb) b 0 n) in
      if encript = 0 then plain
      else case raw_read b 0 n of None \<Rightarrow> None
           | Some raw \<Rightarrow>
          (case decrypt_data ce (h_cmd h) raw of None \<Rightarrow> None
           | Some decr \<Rightarrow>
          (case uncompress_data ce (h_cmd h) decr raw of None \<Rightarrow> Some (h, None)
           | Some unc \<Rightarrow>
               if unc \<noteq> []
               then Some (h\<lparr>h_msgbody_len := of_nat (length unc)\<rparr>, Some (parse_body pb unc))
               else if decr \<noteq> []
               then Some (h\<lparr>h_msgbody_len := of_nat (length decr)\<rparr>, Some (parse_body pb decr))
               else plain)))"

definition ClientMsgCodec_Decode ::
  "client_env \<Rightarrow> 'b protobuf \<Rightarrow> cbuffer \<Rightarrow> msg_head \<Rightarrow> 'b \<Rightarrow> (cbuffer \<times> msg_head \<times> 'b \<times> codec_status) option" where
  "ClientMsgCodec_Decode ce pb b h0 body0 =
     (if ReadableBytes b \<ge> 14
      then case Read 14 b of None \<Rightarrow> None
           | Some (b1, bs, _) \<Rightarrow>
               let chd = head_of_bytes bs;
                   h = \<lparr>h_cmd = push_bit 24 (ucast (ch_encript chd)) OR ucast (htons (ch_cmd chd)),
                        h_msgbody_len = htonl (ch_body_len chd), h_seq = htonl (ch_seq chd)\<rparr>
               in if h_msgbody_len h = 0 then Some (b1, h, body0, CODEC_STATUS_OK)
                  else if ReadableBytes b1 \<ge> unat (h_msgbody_len h)
                  then (case decode_body ce pb (ch_encript chd) h b1 of None \<Rightarrow> None
                        | Some (h', None) \<Rightarrow> Some (b1, h', body0, CODEC_STATUS_ERR)
                        | Some (h', Some (ok, body)) \<Rightarrow>
                            if ok then Some (SkipBytes (length (ser_body pb body)) b1, h', body, CODEC_STATUS_OK)
                            else Some (b1, h', body, CODEC_STATUS_ERR))
                  else Some (SetReadIndex (size_add_int 0 (int_of_size (GetReadIndex b))) b1, h, body0,
                             CODEC_STATUS_PAUSE)
      else Some (b, h0, body0, CODEC_STATUS_PAUSE))"

section \<open>Correctness of the internal protocol\<close>

text \<open>What the codecs rely on of the generated classes: the head is three \<open>fixed32\<close> fields of
  five bytes each, and parsing inverts serialisation.\<close>

definition pb_ok :: "'b protobuf \<Rightarrow> bool" where
  "pb_ok pb \<longleftrightarrow> (\<forall>h. length (ser_head pb h) = 15 \<and> parse_head pb (ser_head pb h) = (True, h)) \<and>
     (\<forall>m. parse_body pb (ser_body pb m) = (True, m))"

definition frame :: "'b protobuf \<Rightarrow> msg_head \<times> 'b \<Rightarrow> byte list" where
  "frame pb m = ser_head pb (fst m) @ ser_body pb (snd m)"

text \<open>A message whose head states the length of its body; \<open>m0\<close> is the body object handed to the
  decoder, which a message without body leaves alone.\<close>

definition framed :: "'b protobuf \<Rightarrow> 'b \<Rightarrow> msg_head \<times> 'b \<Rightarrow> bool" where
  "framed pb m0 m \<longleftrightarrow> h_msgbody_len (fst m) = of_nat (length (ser_body pb (snd m))) \<and>
     length (ser_body pb (snd m)) \<le> 64000000 \<and> (ser_body pb (snd m) = [] \<longrightarrow> snd m = m0)"

lemma framed_len:
  "framed pb m0 m \<Longrightarrow> unat (h_msgbody_len (fst m)) = length (ser_body pb (snd m))"
  by (simp add: framed_def unat_of_nat)

lemma framed_zero:
  "framed pb m0 m \<Longrightarrow> h_msgbody_len (fst m) = 0 \<longleftrightarrow> ser_body pb (snd m) = []"
  using framed_len [of pb m0 m] by (auto simp: unat_eq_0 [symmetric])

lemma raw_read_contents:
  assumes "wf_cbuffer b" and "off + n \<le> length (contents b)"
  shows "raw_read b off n = Some (take n (drop off (contents b)))"
proof (cases "n = 0")
  case False
  then obtain xs where xs: "m_buffer b = Some xs"
    using assms by (cases "m_buffer b") (auto simp: contents_def)
  have "off + n \<le> m_write_idx b - m_read_idx b" using assms length_contents by simp
  then have "take n (drop off (contents b)) = take n (drop (m_read_idx b + off) xs)"
  proof -
    have "min n (m_write_idx b - m_read_idx b - off) = n"
      using \<open>off + n \<le> m_write_idx b - m_read_idx b\<close> by linarith
    then show ?thesis
      by (simp only: contents_def xs option.case drop_take take_take drop_drop add.commute [of off])
  qed
  moreover have "m_read_idx b + off + n \<le> length xs"
    using \<open>off + n \<le> m_write_idx b - m_read_idx b\<close> assms(1) xs False by (auto simp: wf_cbuffer_def)
  ultimately show ?thesis using xs by (simp add: raw_read_def mem_load_Some)
qed (simp add: raw_read_def)

lemma ProtoCodec_Encode_frame:
  assumes "pb_ok pb" and "malloc_ok malloc" and "malloc_total malloc" and "wf_cbuffer b"
    and "framed pb m0 (h, body)" and "room (length (frame pb (h, body)) + k) b"
  shows "\<exists>b'. ProtoCodec_Encode pb malloc h body b = Some (b', CODEC_STATUS_OK) \<and> wf_cbuffer b' \<and>
    contents b' = contents b @ frame pb (h, body) \<and> room k b'"
proof -
  let ?body = "ser_body pb body"
  have env: "malloc_ok malloc \<and> malloc_total malloc" using assms(2,3) by simp
  have hs: "length (ser_head pb h) = 15" using assms(1) by (simp add: pb_ok_def)
  have lb: "length ?body \<le> 64000000" using assms(5) by (simp add: framed_def)
  have "room (length (ser_head pb h) + (length ?body + k)) b"
    using assms(6) by (simp add: frame_def add.assoc)
  then obtain b1 where b1: "Write malloc (ser_head pb h) b = Some (b1, int (length (ser_head pb h)))" "wf_cbuffer b1"
      "contents b1 = contents b @ ser_head pb h" "room (length ?body + k) b1"
    using cbq.put_obtain [OF env assms(4)] by blast
  show ?thesis
  proof (cases "?body = []")
    case True
    with b1 hs framed_zero [OF assms(5)] show ?thesis
      by (simp add: ProtoCodec_Encode_def Let_def frame_def)
  next
    case False
    obtain b2 where "Write malloc ?body b1 = Some (b2, int (length ?body))" "wf_cbuffer b2"
        "contents b2 = contents b1 @ ?body" "room k b2"
      using cbq.put_obtain [OF env b1(2,4)] by blast
    with b1 hs lb False framed_zero [OF assms(5)] show ?thesis
      by (simp add: ProtoCodec_Encode_def Let_def frame_def)
  qed
qed

lemma ProtoCodec_Decode_frame:
  assumes "pb_ok pb" and "wf_cbuffer b" and "framed pb m0 (h, body)"
    and "contents b = frame pb (h, body) @ rest" and "length (contents b) < 2 ^ 31"
  shows "\<exists>b'. ProtoCodec_Decode pb b m0 = Some (b', h, body, CODEC_STATUS_OK) \<and> wf_cbuffer b' \<and>
    contents b' = rest"
proof -
  let ?body = "ser_body pb body" and ?n = "length (ser_body pb body)"
  have pb: "length (ser_head pb h') = 15" "parse_head pb (ser_head pb h') = (True, h')"
      "parse_body pb (ser_body pb m) = (True, m)" for h' m
    using assms(1) by (simp_all add: pb_ok_def)
  have len: "length (contents b) = 15 + ?n + length rest"
    using assms(4) pb(1) by (simp add: frame_def)
  have rb: "m_write_idx b - m_read_idx b = 15 + ?n + length rest"
    using len length_contents [OF assms(2)] by simp
  have small: "15 + ?n + length rest < 2 ^ 31" using assms(5) len by simp
  have p1: "parse_array (parse_head pb) b 0 15 = Some (True, h)"
    using raw_read_contents [OF assms(2), of 0 15] len pb assms(4) by (simp add: parse_array_def frame_def)
  have p2: "parse_array (parse_body pb) b 15 ?n = Some (True, body)"
    using raw_read_contents [OF assms(2), of 15 ?n] len pb assms(4) small
    by (simp add: parse_array_def frame_def)
  have l: "unat (h_msgbody_len h) = ?n" using framed_len [OF assms(3)] by simp
  then have l2: "unat (15 + h_msgbody_len h) = 15 + ?n"
    using small by (subst unat_add_lem [THEN iffD1]) simp_all
  have z: "h_msgbody_len h = 0 \<longleftrightarrow> ?body = []" "?body = [] \<Longrightarrow> body = m0"
    using framed_zero [OF assms(3)] assms(3) by (simp_all add: framed_def)
  have "ProtoCodec_Decode pb b m0 = Some (SkipBytes (15 + ?n) b, h, body, CODEC_STATUS_OK)"
    using p1 p2 pb rb small l l2 z by (simp add: ProtoCodec_Decode_def Let_def)
  moreover have "wf_cbuffer (SkipBytes (15 + ?n) b)" "contents (SkipBytes (15 + ?n) b) = rest"
    using SkipBytes_queue [OF assms(2), of "15 + ?n"] len small assms(4) pb(1)
    by (simp_all add: frame_def)
  ultimately show ?thesis by simp
qed

text \<open>The two handlers as an encoder and a decoder of frames: what they give when they succeed.\<close>

type_synonym 'b codec_env = "'b protobuf \<times> allocator \<times> 'b"

definition codec_env_ok :: "'b codec_env \<Rightarrow> bool" where
  "codec_env_ok = (\<lambda>(pb, malloc, m0). pb_ok pb \<and> malloc_ok malloc \<and> malloc_total malloc)"

definition codec_buffer :: "cbuffer \<Rightarrow> bool" where
  "codec_buffer b \<longleftrightarrow> wf_cbuffer b \<and> length (contents b) < 2 ^ 31"

definition codec_room :: "nat \<Rightarrow> cbuffer \<Rightarrow> bool" where
  "codec_room n b \<longleftrightarrow> room n b \<and> length (contents b) + n < 2 ^ 31"

definition proto_enc :: "'b codec_env \<Rightarrow> msg_head \<times> 'b \<Rightarrow> cbuffer \<Rightarrow> cbuffer option" where
  "proto_enc = (\<lambda>(pb, malloc, m0) (h, body) b.
     case ProtoCodec_Encode pb malloc h body b of
       Some (b', CODEC_STATUS_OK) \<Rightarrow> Some b' | _ \<Rightarrow> None)"

definition proto_dec :: "'b codec_env \<Rightarrow> cbuffer \<Rightarrow> (cbuffer \<times> msg_head \<times> 'b) option" where
  "proto_dec = (\<lambda>(pb, malloc, m0) b.
     case ProtoCodec_Decode pb b m0 of
       Some (b', h, body, CODEC_STATUS_OK) \<Rightarrow> Some (b', h, body) | _ \<Rightarrow> None)"

interpretation proto: frame_codec codec_env_ok codec_buffer contents codec_room
  "\<lambda>(pb, malloc, m0). framed pb m0" "\<lambda>(pb, malloc, m0). frame pb" proto_enc proto_dec
proof (unfold_locales, goal_cases)
  case (1 e q m k)
  obtain pb malloc m0 h body where e: "e = (pb, malloc, m0)" "m = (h, body)"
    by (metis prod.exhaust)
  obtain b' where "ProtoCodec_Encode pb malloc h body q = Some (b', CODEC_STATUS_OK)" "wf_cbuffer b'"
      "contents b' = contents q @ frame pb (h, body)" "room k b'"
    using ProtoCodec_Encode_frame [of pb malloc q m0 h body k] 1
    by (auto simp: e codec_env_ok_def codec_buffer_def codec_room_def)
  with 1(4) show ?case
    by (auto simp: e proto_enc_def codec_buffer_def codec_room_def)
next
  case (2 e q m rest)
  obtain pb malloc m0 h body where e: "e = (pb, malloc, m0)" "m = (h, body)"
    by (metis prod.exhaust)
  obtain b' where "ProtoCodec_Decode pb q m0 = Some (b', h, body, CODEC_STATUS_OK)" "wf_cbuffer b'"
      "contents b' = rest"
    using ProtoCodec_Decode_frame [of pb q m0 h body rest] 2
    by (auto simp: e codec_env_ok_def codec_buffer_def)
  with 2 show ?case by (auto simp: e proto_dec_def codec_buffer_def)
qed

text \<open>Part of a frame makes the decoder wait, and leaves the buffer as it was.\<close>

lemma ProtoCodec_Decode_partial:
  assumes "pb_ok pb" and "wf_cbuffer b" and "framed pb m0 (h, body)"
    and "frame pb (h, body) = contents b @ rest" and "rest \<noteq> []"
  shows "\<exists>h'. ProtoCodec_Decode pb b m = Some (b, h', m, CODEC_STATUS_PAUSE)"
proof -
  let ?n = "length (ser_body pb body)"
  have pb: "length (ser_head pb h') = 15" "parse_head pb (ser_head pb h') = (True, h')" for h'
    using assms(1) by (simp_all add: pb_ok_def)
  have "length (frame pb (h, body)) = 15 + ?n" using pb(1) by (simp add: frame_def)
  then have lc: "length (contents b) < 15 + ?n" using assms(4,5) by (cases rest) auto
  have n: "?n \<le> 64000000" using assms(3) by (simp add: framed_def)
  have rb: "m_write_idx b - m_read_idx b = length (contents b)"
    using length_contents [OF assms(2)] by simp
  have ir: "int_of_size (length (contents b)) = int (length (contents b))"
    using lc n by simp
  show ?thesis
  proof (cases "15 \<le> length (contents b)")
    case False
    then show ?thesis using pb(1) rb ir by (simp add: ProtoCodec_Decode_def Let_def)
  next
    case True
    have "take 15 (contents b) = ser_head pb h"
      using arg_cong [OF assms(4), of "take 15"] pb(1) [of h] True by (simp add: frame_def)
    then have p: "parse_array (parse_head pb) b 0 15 = Some (True, h)"
      using raw_read_contents [OF assms(2), of 0 15] True pb(2) by (simp add: parse_array_def)
    have "ser_body pb body \<noteq> []" using True lc by auto
    then have z: "h_msgbody_len h \<noteq> 0" using framed_zero [OF assms(3)] by simp
    have l: "unat (h_msgbody_len h) = ?n" using framed_len [OF assms(3)] by simp
    then have s: "unat (15 + h_msgbody_len h) = 15 + ?n"
      using n by (subst unat_add_lem [THEN iffD1]) simp_all
    show ?thesis
    proof (intro exI [of _ h])
      show "ProtoCodec_Decode pb b m = Some (b, h, m, CODEC_STATUS_PAUSE)"
        unfolding ProtoCodec_Decode_def Let_def ReadableBytes_diff rb ir pb(1) p
        using True lc z s by simp
    qed
  qed
qed

text \<open>A head that announces a body of \<open>2 ^ 32 - 15\<close> bytes passes the wrapped length check.\<close>

lemma ProtoCodec_Decode_wrap:
  assumes "pb_ok pb" and "wf_cbuffer b" and "contents b = ser_head pb h"
    and "h_msgbody_len h = 4294967281"
  shows "ProtoCodec_Decode pb b m = None"
proof -
  have pb: "length (ser_head pb h') = 15" "parse_head pb (ser_head pb h') = (True, h')" for h'
    using assms(1) by (simp_all add: pb_ok_def)
  have rb: "m_write_idx b - m_read_idx b = 15"
    using length_contents [OF assms(2)] assms(3) pb(1) by simp
  have p: "parse_array (parse_head pb) b 0 15 = Some (True, h)"
    using raw_read_contents [OF assms(2), of 0 15] assms(3) pb by (simp add: parse_array_def)
  have q: "parse_array (parse_body pb) b 15 (unat (h_msgbody_len h)) = None"
    by (simp add: parse_array_def assms(4))
  show ?thesis
    unfolding ProtoCodec_Decode_def Let_def ReadableBytes_diff rb pb(1) p using q
    by (simp add: assms(4))
qed

section \<open>The RC5 wrappers\<close>

definition rc5_table :: "byte list \<Rightarrow> u32 list" where
  "rc5_table key = mix_key (3 * max (key_words (length key)) 34) 0 0 0 0
     (map (\<lambda>i. Pw + of_nat i * Qw) [0..<34]) (load_key (length key) key)"

lemma Key_Set_all: "RC5_Key_Set True k (length bs) bs = Some (k\<lparr>keyLength := length bs, keyBytes := Some bs\<rparr>, 1)"
  by (cases "bs = []") (simp_all add: RC5_Key_Set_def mem_load_def)

lemma rc5_ready:
  assumes "0 < length key" and "length key \<le> 256" and "length (alg_S raw) = 34"
  defines "k \<equiv> \<lparr>keyLength = length key, keyBytes = Some key\<rparr>"
  shows "\<exists>alg. RC5_CBC_Encrypt_Init (RC5_CBC_Create (Some raw) 1 16 1 (int BB) szIv) (Some k) = Some (Some alg, 1) \<and>
    RC5_CBC_Decrypt_Init (RC5_CBC_Create (Some raw) 1 16 1 (int BB) szIv) (Some k) = Some (Some alg, 1) \<and>
    wf_alg alg \<and> pending alg = [] \<and> alg_Pad alg = 1 \<and> alg_R alg = 16 \<and>
    chainBlock alg = take 8 szIv \<and> alg_S alg = rc5_table key"
proof -
  let ?a = "raw\<lparr>alg_Pad := 1, alg_R := 16, inputBlockIndex := 0, alg_I := take 8 szIv\<rparr>"
  have cr: "RC5_CBC_Create (Some raw) 1 16 1 (int BB) szIv = Some ?a"
    by (simp add: RC5_CBC_Create_def BB_def)
  have "init_table (2 * (16 + 1)) (alg_S raw) = map (\<lambda>i. Pw + of_nat i * Qw) [0..<2 * (16 + 1)]"
    using assms(3) by (intro init_table_all) simp
  moreover have "(2 :: nat) * (16 + 1) = 34" by simp
  ultimately have it: "init_table 34 (alg_S raw) = map (\<lambda>i. Pw + of_nat i * Qw) [0..<34]"
    by (simp only:)
  have "RC5_Key_Expand (length key) key 16 (alg_S raw) = Some (rc5_table key)"
    using assms(1-3) it unfolding RC5_Key_Expand_Some rc5_table_def by (simp only:) simp
  then have "bind_key ?a k = Some (RC5_CBC_SetIV (?a\<lparr>alg_S := rc5_table key\<rparr>) (take 8 szIv))"
    using assms(1) by (simp add: bind_key_def k_def)
  moreover have "length szIv = 20" by (simp add: szIv_def ascii_def)
  ultimately show ?thesis
    unfolding cr by (auto simp: RC5_CBC_Encrypt_Init_def RC5_CBC_Decrypt_Init_def RC5_CBC_SetIV_def k_def
        wf_alg_def pending_def BB_def)
qed

lemma sint_pad: "n \<le> 8 \<Longrightarrow> sint (of_nat n :: byte) = int n"
proof -
  assume "n \<le> 8"
  then have "n \<in> {0, 1, 2, 3, 4, 5, 6, 7, 8}" by auto
  then show ?thesis by auto
qed

lemma Rc5_roundtrip:
  assumes "0 < length key" and "length key \<le> 256" and "4 \<le> length src" and "length src < 2 ^ 30"
    and "length (alg_S raw) = 34" and "length (alg_S raw') = 34"
  shows "\<exists>c. Rc5Encrypt raw key src = Some c \<and> length c = length src div 8 * 8 + 8 \<and>
    (\<forall>out. length out = length c \<longrightarrow> Rc5Decrypt raw' out key c = Some src)"
proof -
  let ?m = "int (2 * length src)" and ?n = "length src div 8 * 8" and ?p = "8 - length src mod 8"
  obtain alg where alg: "RC5_CBC_Encrypt_Init (RC5_CBC_Create (Some raw) 1 16 1 (int BB) szIv)
        (Some \<lparr>keyLength = length key, keyBytes = Some key\<rparr>) = Some (Some alg, 1)"
      "wf_alg alg" "pending alg = []" "alg_Pad alg = 1" "alg_R alg = 16"
      "chainBlock alg = take 8 szIv" "alg_S alg = rc5_table key"
    using rc5_ready [OF assms(1,2,5)] by blast
  obtain dal where dal: "RC5_CBC_Decrypt_Init (RC5_CBC_Create (Some raw') 1 16 1 (int BB) szIv)
        (Some \<lparr>keyLength = length key, keyBytes = Some key\<rparr>) = Some (Some dal, 1)"
      "wf_alg dal" "pending dal = []" "alg_R dal = 16"
      "chainBlock dal = take 8 szIv" "alg_S dal = rc5_table key"
    using rc5_ready [OF assms(1,2,6)] by blast
  have le: "?n \<le> 2 * length src" by presburger
  have "8 + ?n \<le> 2 * length src" using assms(3) by presburger
  then have cap: "int ?n \<le> ?m" "8 \<le> ?m - int ?n" by linarith+
  have ml: "int_of_size (2 * length src) = ?m" using assms(4) by simp
  obtain alg1 C1 alg2 C2 where enc: "RC5_CBC_Encrypt_Update alg src ?m = Some (alg1, C1, 1)"
      "length C1 = ?n" "RC5_CBC_Encrypt_Final alg1 (?m - int ?n) = (alg2, C2, 1)" "length C2 = 8"
    using Encrypt_Update_Final [OF alg(2,3) _ cap] alg(4) by auto
  have e: "Rc5Encrypt raw key src = Some (C1 @ C2)"
    using alg(1) enc ml by (simp add: Rc5Encrypt_def RC5_Key_Create_def Key_Set_all Let_def)
  have d: "Rc5Decrypt raw' out key (C1 @ C2) = Some src" if out: "length out = length (C1 @ C2)" for out
  proof -
    have "length out = ?n + 8" using out enc by simp
    then obtain dal' where upd: "RC5_CBC_Decrypt_Update dal (C1 @ C2) out =
        Some (dal', length out, src @ replicate ?p (of_nat ?p))"
      using rc5_cbc_roundtrip [OF alg(2,3) _ cap dal(2,3)] alg(4-) dal(4-) enc by auto
    have lo: "length out = length src + ?p" using \<open>length out = ?n + 8\<close> by presburger
    have last: "(src @ replicate p x) ! (length src + p - 1) = x" if "0 < p" for p and x :: byte
      using that by (cases p) (simp_all add: nth_append del: replicate_Suc)
    have "(src @ replicate ?p (of_nat ?p :: byte)) ! (length out - 1) = of_nat ?p"
      unfolding lo by (rule last) simp
    then show ?thesis
      using upd dal(1) lo sint_pad [of ?p]
      by (simp add: Rc5Decrypt_def RC5_Key_Create_def Key_Set_all Let_def)
  qed
  show ?thesis using e d enc by auto
qed

section \<open>Correctness of the client protocol\<close>

lemma store_load_word16 [simp]: "store_word16 (load_word16 a b) = [a, b]"
proof -
  have "(ucast (load_word16 a b) :: byte) = a"
    by (rule bit_word_eqI) (simp add: load_word16_def bit_simps)
  moreover have "(ucast (drop_bit 8 (load_word16 a b)) :: byte) = b"
    by (rule bit_word_eqI) (auto simp: load_word16_def bit_simps dest: bit_imp_le_length)
  ultimately show ?thesis by (simp add: store_word16_def)
qed

lemma load_store_word16: "load_word16 (ucast x) (ucast (drop_bit 8 x)) = x"
  by (rule bit_word_eqI) (auto simp: load_word16_def bit_simps dest: bit_imp_le_length)

lemma htons_htons [simp]: "htons (htons x) = x"
proof -
  have "store_word16 (htons x) = [store_word16 x ! 1, store_word16 x ! 0]"
    by (simp add: htons_def)
  then have "htons (htons x) = load_word16 (store_word16 x ! 0) (store_word16 x ! 1)"
    by (simp add: htons_def [of "htons x"])
  then show ?thesis by (simp add: store_word16_def load_store_word16)
qed

lemma load_store_word_nth: "load_word (store_word x ! 0) (store_word x ! 1) (store_word x ! 2) (store_word x ! 3) = x"
  by (rule load_store_word) (simp add: store_word_def)

lemma htonl_htonl [simp]: "htonl (htonl x) = x"
proof -
  have "store_word (htonl x) = [store_word x ! 3, store_word x ! 2, store_word x ! 1, store_word x ! 0]"
    by (simp add: htonl_def store_load_word)
  then have "htonl (htonl x) =
      load_word (store_word x ! 0) (store_word x ! 1) (store_word x ! 2) (store_word x ! 3)"
    by (simp add: htonl_def [of "htonl x"])
  then show ?thesis by (simp only: load_store_word_nth)
qed

lemma length_head_bytes [simp]: "length (head_bytes c) = 14"
  by (simp add: head_bytes_def store_word16_def)

lemma head_of_bytes_append [simp]: "head_of_bytes (head_bytes c) = c"
proof -
  obtain a0 a1 a2 a3 where a: "store_word (ch_body_len c) = [a0, a1, a2, a3]"
    by (simp add: store_word_def)
  obtain b0 b1 b2 b3 where b: "store_word (ch_seq c) = [b0, b1, b2, b3]"
    by (simp add: store_word_def)
  show ?thesis
    using load_store_word [OF a] load_store_word [OF b] load_store_word16
    by (simp add: head_of_bytes_def head_bytes_def store_word16_def a b)
qed

lemma write_packet_spec:
  assumes "malloc_ok malloc" and "malloc_total malloc" and "wf_cbuffer b"
    and "room (14 + length data + k) b"
  shows "\<exists>b'. write_packet malloc c n data b = Some (b', CODEC_STATUS_OK) \<and> wf_cbuffer b' \<and>
    contents b' = contents b @ head_bytes c @ data \<and> room k b'"
proof -
  have env: "malloc_ok malloc \<and> malloc_total malloc" using assms(1,2) by simp
  have "room (length (head_bytes c) + (length data + k)) b" using assms(4) by (simp add: add.assoc)
  then obtain b1 where b1: "Write malloc (head_bytes c) b = Some (b1, int (length (head_bytes c)))"
      "wf_cbuffer b1" "contents b1 = contents b @ head_bytes c" "room (length data + k) b1"
    using cbq.put_obtain [OF env assms(3)] by blast
  moreover obtain b2 where "Write malloc data b1 = Some (b2, int (length data))" "wf_cbuffer b2"
      "contents b2 = contents b1 @ data" "room k b2"
    using cbq.put_obtain [OF env b1(2,4)] by blast
  moreover have "length data < 2 ^ 31" using assms(4) by (simp add: room_def)
  ultimately show ?thesis by (simp add: write_packet_def)
qed

text \<open>A command word fits the head when bits 16 to 23 are clear: the head carries the algorithm
  byte and the 16 command bits.\<close>

definition cmd_fits :: "u32 \<Rightarrow> bool" where
  "cmd_fits c \<longleftrightarrow> push_bit 24 (ucast (ucast (drop_bit 24 c) :: byte)) OR ucast (ucast (gc_uiCmdBit AND c) :: u16) = c"

lemma cmd_fits_iff: "cmd_fits c \<longleftrightarrow> c AND 0x00FF0000 = 0"
proof -
  have m: "bit gc_uiCmdBit n \<longleftrightarrow> n < 16" "bit (0xFF0000 :: u32) n \<longleftrightarrow> 16 \<le> n \<and> n < 24" for n
  proof -
    have e: "gc_uiCmdBit = mask 16" "(0xFF0000 :: u32) = push_bit 16 (mask 8)"
      by (simp_all add: mask_eq_exp_minus_1 push_bit_eq_mult gc_uiCmdBit_def)
    show "bit gc_uiCmdBit n \<longleftrightarrow> n < 16" "bit (0xFF0000 :: u32) n \<longleftrightarrow> 16 \<le> n \<and> n < 24"
      unfolding e by (auto simp only: bit_mask_iff bit_push_bit_iff) simp_all
  qed
  have "bit (push_bit 24 (ucast (ucast (drop_bit 24 c) :: byte)) OR ucast (ucast (gc_uiCmdBit AND c) :: u16) :: u32) n
      \<longleftrightarrow> bit c n \<and> \<not> (16 \<le> n \<and> n < 24)" if "n < 32" for n
    using that by (auto simp: bit_simps m dest: bit_imp_le_length)
  then have "cmd_fits c \<longleftrightarrow> (\<forall>n < 32. bit c n \<longrightarrow> \<not> (16 \<le> n \<and> n < 24))"
    unfolding cmd_fits_def by (subst bit_eq_iff) (auto simp: bit_imp_le_length dest: bit_imp_le_length)
  also have "\<dots> \<longleftrightarrow> c AND 0x00FF0000 = 0"
    by (auto simp: bit_eq_iff bit_simps m dest: bit_imp_le_length simp del: bit_numeral_word_iff)
  finally show ?thesis .
qed

text \<open>Decoding a complete packet: the head as the codec rebuilds it, then the body.\<close>

lemma Decode_packet:
  assumes "wf_cbuffer b" and "cmd_fits (h_cmd h)" and "payload \<noteq> []" and "length payload < 2 ^ 31"
    and "contents b = head_bytes ((client_head_of h)\<lparr>ch_body_len := htonl (of_nat (length payload))\<rparr>) @
      payload @ rest"
  defines "h1 \<equiv> h\<lparr>h_msgbody_len := of_nat (length payload)\<rparr>"
  shows "\<exists>b1. wf_cbuffer b1 \<and> contents b1 = payload @ rest \<and>
    ClientMsgCodec_Decode ce pb b h0 body0 =
      (case decode_body ce pb (ucast (drop_bit 24 (h_cmd h))) h1 b1 of None \<Rightarrow> None
       | Some (h', None) \<Rightarrow> Some (b1, h', body0, CODEC_STATUS_ERR)
       | Some (h', Some (ok, body)) \<Rightarrow>
           if ok then Some (SkipBytes (length (ser_body pb body)) b1, h', body, CODEC_STATUS_OK)
           else Some (b1, h', body, CODEC_STATUS_ERR))"
proof -
  let ?c = "(client_head_of h)\<lparr>ch_body_len := htonl (of_nat (length payload))\<rparr>"
  have len: "14 \<le> length (contents b)" using assms(5) by simp
  obtain b1 where b1: "Read 14 b = Some (b1, take 14 (contents b), 14)" "wf_cbuffer b1"
      "contents b1 = drop 14 (contents b)"
    using Read_spec [OF assms(1) len] by auto
  have "take 14 (contents b) = head_bytes ?c" using assms(5) by simp
  with b1 have r: "Read 14 b = Some (b1, head_bytes ?c, 14)" "contents b1 = payload @ rest"
    using assms(5) by simp_all
  have rb: "14 \<le> m_write_idx b - m_read_idx b" using len length_contents [OF assms(1)] by simp
  have rb1: "length payload \<le> m_write_idx b1 - m_read_idx b1"
    using r(2) length_contents [OF b1(2)] by simp
  have pos: "0 < length payload" using assms(3) by simp
  have u: "unat (of_nat (length payload) :: u32) = length payload" using assms(4) by (simp add: unat_of_nat)
  then have nz: "(of_nat (length payload) :: u32) \<noteq> 0" using pos by (metis unat_0 less_irrefl)
  have enc: "ch_encript (client_head_of h) = ucast (drop_bit 24 (h_cmd h))"
    by (simp add: client_head_of_def)
  have hh: "\<lparr>h_cmd = push_bit 24 (ucast (ucast (drop_bit 24 (h_cmd h)) :: byte)) OR
        ucast (htons (ch_cmd (client_head_of h))),
      h_msgbody_len = of_nat (length payload), h_seq = htonl (ch_seq (client_head_of h))\<rparr> = h1"
    using assms(2) by (cases h) (simp add: client_head_of_def h1_def cmd_fits_def)
  have "h_msgbody_len h1 = of_nat (length payload)" by (simp add: h1_def)
  then show ?thesis
    unfolding ClientMsgCodec_Decode_def ReadableBytes_diff r(1)
    using rb rb1 nz u b1(2) r(2)
    by (intro exI [of _ b1]) (simp add: Let_def hh enc)
qed

lemma parse_array_contents:
  assumes "wf_cbuffer b" and "off + n \<le> length (contents b)" and "n < 2 ^ 31"
  shows "parse_array parse b off n = Some (parse (take n (drop off (contents b))))"
  using raw_read_contents [OF assms(1,2)] assms(3) by (simp add: parse_array_def)

definition client_frame :: "'b protobuf \<Rightarrow> msg_head \<times> 'b \<Rightarrow> byte list" where
  "client_frame pb m = head_bytes (client_head_of (fst m)) @ ser_body pb (snd m)"

text \<open>A message for the client protocol without compression and encryption.\<close>

definition client_framed :: "'b protobuf \<Rightarrow> 'b \<Rightarrow> msg_head \<times> 'b \<Rightarrow> bool" where
  "client_framed pb m0 m \<longleftrightarrow> framed pb m0 m \<and> cmd_fits (h_cmd (fst m)) \<and>
     ucast (drop_bit 24 (h_cmd (fst m))) = (0 :: byte)"

lemma Client_Encode_frame:
  assumes "malloc_ok malloc" and "malloc_total malloc" and "wf_cbuffer b"
    and "client_framed pb m0 (h, body)" and "room (length (client_frame pb (h, body)) + k) b"
  shows "\<exists>b'. ClientMsgCodec_Encode ce pb malloc h body b = Some (b', CODEC_STATUS_OK) \<and>
    wf_cbuffer b' \<and> contents b' = contents b @ client_frame pb (h, body) \<and> room k b'"
proof -
  let ?body = "ser_body pb body" and ?c = "client_head_of h"
  have fr: "framed pb m0 (h, body)" using assms(4) by (simp add: client_framed_def)
  have lb: "int_of_size (length ?body) \<le> 64000000" using fr by (simp add: framed_def)
  have e: "ch_encript ?c = 0" using assms(4) by (simp add: client_framed_def client_head_of_def)
  have rm: "room (14 + length ?body + k) b" using assms(5) by (simp add: client_frame_def)
  show ?thesis
  proof (cases "?body = []")
    case True
    have env: "malloc_ok malloc \<and> malloc_total malloc" using assms(1,2) by simp
    have "room (length (head_bytes ?c) + k) b" using rm True by simp
    then obtain b1 where "Write malloc (head_bytes ?c) b = Some (b1, int (length (head_bytes ?c)))"
        "wf_cbuffer b1" "contents b1 = contents b @ head_bytes ?c" "room k b1"
      using cbq.put_obtain [OF env assms(3)] by blast
    then show ?thesis
      using True framed_zero [OF fr] lb by (simp add: ClientMsgCodec_Encode_def Let_def client_frame_def)
  next
    case False
    then show ?thesis
      using write_packet_spec [OF assms(1-3) rm, of ?c 0] framed_zero [OF fr] lb e
      by (simp add: ClientMsgCodec_Encode_def Let_def client_frame_def)
  qed
qed

lemma Client_Decode_frame:
  assumes "pb_ok pb" and "wf_cbuffer b" and "client_framed pb m0 (h, body)"
    and "contents b = client_frame pb (h, body) @ rest"
  shows "\<exists>b'. ClientMsgCodec_Decode ce pb b h0 m0 = Some (b', h, body, CODEC_STATUS_OK) \<and>
    wf_cbuffer b' \<and> contents b' = rest"
proof -
  let ?body = "ser_body pb body" and ?c = "client_head_of h"
  have fr: "framed pb m0 (h, body)" and fit: "cmd_fits (h_cmd h)"
    and z: "ucast (drop_bit 24 (h_cmd h)) = (0 :: byte)"
    using assms(3) by (simp_all add: client_framed_def)
  have hl: "h_msgbody_len h = of_nat (length ?body)" "length ?body < 2 ^ 31"
    using fr by (simp_all add: framed_def)
  have pb: "parse_body pb (ser_body pb m) = (True, m)" for m
    using assms(1) by (simp add: pb_ok_def)
  show ?thesis
  proof (cases "?body = []")
    case True
    have len: "14 \<le> length (contents b)" using assms(4) by (simp add: client_frame_def)
    obtain b1 where b1: "Read 14 b = Some (b1, take 14 (contents b), 14)" "wf_cbuffer b1"
        "contents b1 = drop 14 (contents b)"
      using Read_spec [OF assms(2) len] by auto
    then have r: "Read 14 b = Some (b1, head_bytes ?c, 14)" "contents b1 = rest"
      using assms(4) True by (simp_all add: client_frame_def)
    have hh: "\<lparr>h_cmd = push_bit 24 (ucast (ch_encript ?c)) OR ucast (htons (ch_cmd ?c)),
        h_msgbody_len = htonl (ch_body_len ?c), h_seq = htonl (ch_seq ?c)\<rparr> = h"
      using fit by (cases h) (simp add: client_head_of_def cmd_fits_def)
    have rb: "14 \<le> m_write_idx b - m_read_idx b" using len length_contents [OF assms(2)] by simp
    have "body = m0" "h_msgbody_len h = 0"
      using fr framed_zero [OF fr] True by (simp_all add: framed_def)
    then have "ClientMsgCodec_Decode ce pb b h0 m0 = Some (b1, h, body, CODEC_STATUS_OK)"
      using rb unfolding ClientMsgCodec_Decode_def ReadableBytes_diff r(1)
      by (simp only: if_True option.case prod.case Let_def head_of_bytes_append hh) simp
    with b1 r show ?thesis by blast
  next
    case False
    have e: "?c\<lparr>ch_body_len := htonl (of_nat (length ?body))\<rparr> = ?c"
        "h\<lparr>h_msgbody_len := of_nat (length ?body)\<rparr> = h"
      using hl by (simp_all add: client_head_of_def)
    have pk: "contents b = head_bytes (?c\<lparr>ch_body_len := htonl (of_nat (length ?body))\<rparr>) @ ?body @ rest"
      unfolding e using assms(4) by (simp add: client_frame_def)
    obtain b1 where b1: "wf_cbuffer b1" "contents b1 = ?body @ rest"
        "ClientMsgCodec_Decode ce pb b h0 m0 =
          (case decode_body ce pb 0 h b1 of None \<Rightarrow> None
           | Some (h', None) \<Rightarrow> Some (b1, h', m0, CODEC_STATUS_ERR)
           | Some (h', Some (ok, body)) \<Rightarrow>
               if ok then Some (SkipBytes (length (ser_body pb body)) b1, h', body, CODEC_STATUS_OK)
               else Some (b1, h', body, CODEC_STATUS_ERR))"
      using Decode_packet [OF assms(2) fit False hl(2) pk, of ce pb h0 m0] unfolding e z by blast
    have "unat (h_msgbody_len h) = length ?body" using framed_len [OF fr] by simp
    moreover have "parse_array (parse_body pb) b1 0 (length ?body) = Some (True, body)"
      using parse_array_contents [OF b1(1), of 0 "length ?body" "parse_body pb"] b1(2) hl(2) pb by simp
    ultimately have "decode_body ce pb 0 h b1 = Some (h, Some (True, body))"
      by (simp add: decode_body_def Let_def)
    with b1 SkipBytes_queue [OF b1(1), of "length ?body"] hl(2) show ?thesis by simp
  qed
qed

type_synonym 'b client_codec_env = "client_env \<times> msg_head \<times> 'b codec_env"

definition client_enc :: "'b client_codec_env \<Rightarrow> msg_head \<times> 'b \<Rightarrow> cbuffer \<Rightarrow> cbuffer option" where
  "client_enc = (\<lambda>(ce, h0, pb, malloc, m0) (h, body) b.
     case ClientMsgCodec_Encode ce pb malloc h body b of
       Some (b', CODEC_STATUS_OK) \<Rightarrow> Some b' | _ \<Rightarrow> None)"

definition client_dec :: "'b client_codec_env \<Rightarrow> cbuffer \<Rightarrow> (cbuffer \<times> msg_head \<times> 'b) option" where
  "client_dec = (\<lambda>(ce, h0, pb, malloc, m0) b.
     case ClientMsgCodec_Decode ce pb b h0 m0 of
       Some (b', h, body, CODEC_STATUS_OK) \<Rightarrow> Some (b', h, body) | _ \<Rightarrow> None)"

interpretation client: frame_codec "\<lambda>(ce, h0, e). codec_env_ok e" wf_cbuffer contents room
  "\<lambda>(ce, h0, pb, malloc, m0). client_framed pb m0" "\<lambda>(ce, h0, pb, malloc, m0). client_frame pb"
  client_enc client_dec
proof (unfold_locales, goal_cases)
  case (1 e q m k)
  obtain ce h0 pb malloc m0 h body where e: "e = (ce, h0, pb, malloc, m0)" "m = (h, body)"
    by (metis prod.exhaust)
  obtain b' where "ClientMsgCodec_Encode ce pb malloc h body q = Some (b', CODEC_STATUS_OK)" "wf_cbuffer b'"
      "contents b' = contents q @ client_frame pb (h, body)" "room k b'"
    using Client_Encode_frame [of malloc q pb m0 h body k ce] 1 by (auto simp: e codec_env_ok_def)
  then show ?case by (auto simp: e client_enc_def)
next
  case (2 e q m rest)
  obtain ce h0 pb malloc m0 h body where e: "e = (ce, h0, pb, malloc, m0)" "m = (h, body)"
    by (metis prod.exhaust)
  obtain b' where "ClientMsgCodec_Decode ce pb q h0 m0 = Some (b', h, body, CODEC_STATUS_OK)"
      "wf_cbuffer b'" "contents b' = rest"
    using Client_Decode_frame [of pb q m0 h body rest ce h0] 2 by (auto simp: e codec_env_ok_def)
  then show ?case by (auto simp: e client_dec_def)
qed

lemma flag_Rc5_encript: "flag gc_uiRc5Bit c \<Longrightarrow> ucast (drop_bit 24 c) \<noteq> (0 :: byte)"
proof
  assume f: "flag gc_uiRc5Bit c" and z: "ucast (drop_bit 24 c) = (0 :: byte)"
  have "gc_uiRc5Bit = 2 ^ 24" by (simp add: gc_uiRc5Bit_def)
  then have "bit c 24" using f and_exp_eq_0_iff_not_bit [of c 24] by (simp add: flag_def and.commute)
  then have "bit (ucast (drop_bit 24 c) :: byte) 0" by (simp add: bit_simps)
  with z show False by simp
qed

text \<open>Settings under which the RC5 branch of the codec runs.\<close>

definition rc5_env :: "client_env \<Rightarrow> bool" where
  "rc5_env ce \<longleftrightarrow> 0 < length (m_strKey ce) \<and> length (m_strKey ce) \<le> 256 \<and>
     length (alg_S (rc5_raw ce)) = 34 \<and> (\<forall>n. length (plain_block ce n) = n)"

definition rc5_only :: "u32 \<Rightarrow> bool" where
  "rc5_only c \<longleftrightarrow> cmd_fits c \<and> flag gc_uiRc5Bit c \<and> \<not> flag gc_uiZipBit c \<and> \<not> flag gc_uiGzipBit c"

lemma Client_rc5:
  assumes "pb_ok pb" and "malloc_ok malloc" and "malloc_total malloc" and "wf_cbuffer b"
    and "contents b = []" and "rc5_env ce" and "rc5_only (h_cmd h)"
    and "h_msgbody_len h = of_nat (length (ser_body pb body))"
    and "4 \<le> length (ser_body pb body)" and "length (ser_body pb body) \<le> 64000000"
    and "room (length (ser_body pb body) + 30) b"
  shows "\<exists>c b1 b2. ClientMsgCodec_Encode ce pb malloc h body b = Some (b1, CODEC_STATUS_OK) \<and>
    Rc5Encrypt (rc5_raw ce) (m_strKey ce) (ser_body pb body) = Some c \<and>
    contents b1 = head_bytes ((client_head_of h)\<lparr>ch_body_len := htonl (of_nat (length c))\<rparr>) @ c \<and>
    ClientMsgCodec_Decode ce pb b1 h0 m0 = Some (b2, h, body, CODEC_STATUS_OK) \<and>
    contents b2 = drop (length (ser_body pb body)) c"
proof -
  let ?data = "ser_body pb body"
  let ?n = "length ?data"
  have ce: "0 < length (m_strKey ce)" "length (m_strKey ce) \<le> 256" "length (alg_S (rc5_raw ce)) = 34"
      "length (plain_block ce k) = k" for k
    using assms(6) by (simp_all add: rc5_env_def)
  have fl: "cmd_fits (h_cmd h)" "flag gc_uiRc5Bit (h_cmd h)" "\<not> flag gc_uiZipBit (h_cmd h)"
      "\<not> flag gc_uiGzipBit (h_cmd h)"
    using assms(7) by (simp_all add: rc5_only_def)
  have "?n < 2 ^ 30" using assms(10) by simp
  then obtain c where c: "Rc5Encrypt (rc5_raw ce) (m_strKey ce) ?data = Some c"
      "length c = ?n div 8 * 8 + 8"
      "\<And>out. length out = length c \<Longrightarrow> Rc5Decrypt (rc5_raw ce) out (m_strKey ce) c = Some ?data"
    using Rc5_roundtrip [OF ce(1,2) assms(9) _ ce(3,3)] by blast
  have lc: "?n \<le> length c" "length c \<le> ?n + 8" "c \<noteq> []" "length c < 2 ^ 31"
    using c(2) assms(10) by (auto simp: minus_mod_eq_div_mult [symmetric])
  let ?c = "(client_head_of h)\<lparr>ch_body_len := htonl (of_nat (length c))\<rparr>"
  have "room (14 + length c + 0) b" using assms(11) lc(2) by (simp add: room_def)
  then obtain b1 where b1: "write_packet malloc ?c 14 c b = Some (b1, CODEC_STATUS_OK)" "wf_cbuffer b1"
      "contents b1 = head_bytes ?c @ c"
    using write_packet_spec [OF assms(2-4), of c 0 ?c 14] assms(5) by auto
  have un: "unat (h_msgbody_len h) = ?n" using assms(8,10) by (simp add: unat_of_nat)
  then have nz: "h_msgbody_len h \<noteq> 0" using assms(9) by (metis unat_0 not_numeral_le_zero)
  have "ch_encript (client_head_of h) \<noteq> 0"
    using flag_Rc5_encript [OF fl(2)] by (simp add: client_head_of_def)
  then have enc: "ClientMsgCodec_Encode ce pb malloc h body b = Some (b1, CODEC_STATUS_OK)"
    using nz fl c(1) lc(3) b1(1) assms(10)
    by (simp add: ClientMsgCodec_Encode_def Let_def compress_data_def encrypt_data_def)
  let ?h1 = "h\<lparr>h_msgbody_len := of_nat (length c)\<rparr>"
  obtain b2 where b2: "wf_cbuffer b2" "contents b2 = c"
      "ClientMsgCodec_Decode ce pb b1 h0 m0 =
        (case decode_body ce pb (ucast (drop_bit 24 (h_cmd h))) ?h1 b2 of None \<Rightarrow> None
         | Some (h', None) \<Rightarrow> Some (b2, h', m0, CODEC_STATUS_ERR)
         | Some (h', Some (ok, body)) \<Rightarrow>
             if ok then Some (SkipBytes (length (ser_body pb body)) b2, h', body, CODEC_STATUS_OK)
             else Some (b2, h', body, CODEC_STATUS_ERR))"
    using Decode_packet [OF b1(2) fl(1) lc(3,4), of "[]" ce pb h0 m0] b1(3) by auto
  have uc: "unat (of_nat (length c) :: u32) = length c" using lc(4) by (simp add: unat_of_nat)
  have raw: "raw_read b2 0 (length c) = Some c"
    using raw_read_contents [OF b2(1), of 0 "length c"] b2(2) by simp
  have "?data \<noteq> []" using assms(9) by auto
  moreover have "h\<lparr>h_msgbody_len := of_nat ?n\<rparr> = h" using assms(8) by (cases h) simp
  ultimately have body: "decode_body ce pb (ucast (drop_bit 24 (h_cmd h))) ?h1 b2 = Some (h, Some (True, body))"
    using flag_Rc5_encript [OF fl(2)] fl c(3) ce(4) raw assms(1)
    by (simp add: decode_body_def Let_def uc decrypt_data_def uncompress_data_def pb_ok_def)
  have "?n < 2 ^ 31" using assms(10) by simp
  with SkipBytes_queue [OF b2(1), of ?n] b2 lc(1)
  have "ClientMsgCodec_Decode ce pb b1 h0 m0 = Some (SkipBytes ?n b2, h, body, CODEC_STATUS_OK)"
      "contents (SkipBytes ?n b2) = drop ?n c"
    by (simp_all add: body)
  with enc c(1) b1(3) show ?thesis by blast
qed

lemma Rc5Encrypt_short:
  assumes "0 < length key" and "length key \<le> 256" and "length src < 4" and "length (alg_S raw) = 34"
  shows "Rc5Encrypt raw key src = Some []"
proof -
  obtain alg where alg: "RC5_CBC_Encrypt_Init (RC5_CBC_Create (Some raw) 1 16 1 (int BB) szIv)
        (Some \<lparr>keyLength = length key, keyBytes = Some key\<rparr>) = Some (Some alg, 1)"
      "wf_alg alg" "pending alg = []" "alg_Pad alg = 1"
    using rc5_ready [OF assms(1,2,4)] by blast
  have idx: "inputBlockIndex alg = 0" using length_pending [OF alg(2)] alg(3) by simp
  have "chunks8 src = []" using assms(3) by (simp add: chunks8_short)
  then obtain alg1 where a1: "encrypt_loop alg src [] = Some (alg1, [])" "same_key alg alg1"
    using encrypt_loop_spec [OF alg(2), of src "[]"] alg(3) by auto
  have "int_of_size (2 * length src) = int (2 * length src)" using assms(3) by simp
  moreover have "RC5_CBC_Encrypt_Update alg src (int (2 * length src)) = Some (alg1, [], 1)"
    using a1(1) idx assms(3) by (simp add: RC5_CBC_Encrypt_Update_def BB_def)
  moreover have "RC5_CBC_Encrypt_Final alg1 (int (2 * length src)) = (alg1, [], 0)"
    using a1(2) alg(4) assms(3) by (simp add: RC5_CBC_Encrypt_Final_def same_key_def BB_def)
  ultimately show ?thesis
    using alg(1) by (simp add: Rc5Encrypt_def RC5_Key_Create_def Key_Set_all)
qed

section \<open>A concrete instance of the parameters\<close>

text \<open>The wire format of the head (three \<open>fixed32\<close> fields with their tags), and messages whose
  serialisation is their bytes.\<close>

definition wire_pb :: "byte list protobuf" where
  "wire_pb = \<lparr>
     ser_head = (\<lambda>h. [0x0D] @ store_word (h_cmd h) @ [0x15] @ store_word (h_msgbody_len h) @
       [0x1D] @ store_word (h_seq h)),
     parse_head = (\<lambda>bs. (length bs = 15,
       \<lparr>h_cmd = load_word (bs ! 1) (bs ! 2) (bs ! 3) (bs ! 4),
        h_msgbody_len = load_word (bs ! 6) (bs ! 7) (bs ! 8) (bs ! 9),
        h_seq = load_word (bs ! 11) (bs ! 12) (bs ! 13) (bs ! 14)\<rparr>)),
     ser_body = (\<lambda>m. m), parse_body = (\<lambda>bs. (True, bs))\<rparr>"

lemma wire_pb_ok [simp]: "pb_ok wire_pb"
proof -
  have "length (ser_head wire_pb h) = 15" for h by (simp add: wire_pb_def)
  moreover have "parse_head wire_pb (ser_head wire_pb h) = (True, h)" for h
  proof -
    obtain a0 a1 a2 a3 where a: "store_word (h_cmd h) = [a0, a1, a2, a3]" by (simp add: store_word_def)
    obtain b0 b1 b2 b3 where b: "store_word (h_msgbody_len h) = [b0, b1, b2, b3]" by (simp add: store_word_def)
    obtain c0 c1 c2 c3 where c: "store_word (h_seq h) = [c0, c1, c2, c3]" by (simp add: store_word_def)
    show ?thesis
      using load_store_word [OF a] load_store_word [OF b] load_store_word [OF c]
      by (simp add: wire_pb_def a b c)
  qed
  ultimately show ?thesis by (simp add: pb_ok_def) (simp add: wire_pb_def)
qed

lemma wire_pb_simps [simp]: "ser_body wire_pb m = m" "length (ser_head wire_pb h) = 15"
  by (simp_all add: wire_pb_def)

definition sample_msg :: "u32 \<Rightarrow> msg_head \<times> byte list" where
  "sample_msg seq = (\<lparr>h_cmd = 501, h_msgbody_len = 2, h_seq = seq\<rparr>, [1, 2])"

lemma sample_msg_framed [simp]:
  "framed wire_pb [] (sample_msg s)" "client_framed wire_pb [] (sample_msg s)"
  "length (frame wire_pb (sample_msg s)) = 17" "length (client_frame wire_pb (sample_msg s)) = 16"
  by (simp_all add: client_framed_def framed_def sample_msg_def cmd_fits_iff frame_def client_frame_def)

definition sample_env :: client_env where
  "sample_env = \<lparr>Zip = Some, Unzip = Some, Gzip = Some, Gunzip = Some,
     m_strKey = ascii ''That's a lizard.'',
     rc5_raw = \<lparr>alg_Pad = 0, alg_R = 0, alg_S = replicate 34 0, alg_I = replicate 8 0,
       chainBlock = replicate 8 0, inputBlock = replicate 8 0, inputBlockIndex = 0\<rparr>,
     plain_block = (\<lambda>n. replicate n 0)\<rparr>"

lemma sample_env_facts [simp]:
  "rc5_env sample_env" "length (m_strKey sample_env) = 16" "length (alg_S (rc5_raw sample_env)) = 34"
  by (simp_all add: rc5_env_def sample_env_def ascii_def)

section \<open>Properties\<close>

text \<open>C2: Messages that \<open>ProtoCodec::Encode\<close> appends to a connection's buffer are decoded by
  \<open>ProtoCodec::Decode\<close> one by one, each with its head and body, in order and with nothing left,
  whatever their number and sizes within the limits.\<close>

theorem proto_stream_roundtrip:
  assumes "pb_ok pb" and "malloc_ok malloc" and "malloc_total malloc"
    and "wf_cbuffer b" and "contents b = []" and "\<forall>m \<in> set ms. framed pb m0 m"
    and "codec_room (length (concat (map (frame pb) ms))) b"
  shows "\<exists>b1 b2. enc_all (proto_enc (pb, malloc, m0)) ms b = Some b1 \<and>
    dec_all (proto_dec (pb, malloc, m0)) (length ms) b1 = Some (b2, ms) \<and> contents b2 = []"
  using proto.stream [of "(pb, malloc, m0)" b ms] assms
  by (auto simp: codec_env_ok_def codec_buffer_def)

lemma proto_stream_roundtrip_witness:
  "\<exists>b1 b2. enc_all (proto_enc (wire_pb, zero_malloc, [])) [sample_msg 1, sample_msg 2] empty_cbuffer = Some b1 \<and>
    dec_all (proto_dec (wire_pb, zero_malloc, [])) 2 b1 = Some (b2, [sample_msg 1, sample_msg 2]) \<and>
    contents b2 = []"
  using proto_stream_roundtrip [of wire_pb zero_malloc empty_cbuffer "[sample_msg 1, sample_msg 2]" "[]"]
  by (simp add: codec_room_def numeral_2_eq_2 [symmetric] del: enc_all.simps dec_all.simps)

text \<open>C33: While only part of a frame has arrived, \<open>ProtoCodec::Decode\<close> asks for more data: it
  reports a pause and leaves the buffer and the body object as they were.\<close>

theorem proto_partial_frame_pauses:
  assumes "pb_ok pb" and "wf_cbuffer b" and "framed pb m0 (h, body)"
    and "frame pb (h, body) = contents b @ rest" and "rest \<noteq> []"
  shows "\<exists>h'. ProtoCodec_Decode pb b m = Some (b, h', m, CODEC_STATUS_PAUSE)"
  by (rule ProtoCodec_Decode_partial [OF assms])

lemma proto_partial_frame_pauses_witness:
  "\<exists>h'. ProtoCodec_Decode wire_pb empty_cbuffer [9] = Some (empty_cbuffer, h', [9], CODEC_STATUS_PAUSE)"
proof -
  have "frame wire_pb (sample_msg 1) \<noteq> []"
    using sample_msg_framed(3) [of 1] by (metis list.size(3) zero_neq_numeral)
  then show ?thesis
    using proto_partial_frame_pauses [of wire_pb empty_cbuffer "[]" "fst (sample_msg 1)"
        "snd (sample_msg 1)" "frame wire_pb (sample_msg 1)" "[9]"] by simp
qed

text \<open>C35: The length check of \<open>ProtoCodec::Decode\<close> adds a signed head size and the 32-bit body
  length, and wraps: a bare head that announces \<open>2 ^ 32 - 15\<close> bytes passes the check, and the
  parser is called with a negative size.\<close>

theorem proto_length_check_wraps:
  assumes "pb_ok pb" and "wf_cbuffer b" and "contents b = ser_head pb h"
    and "h_msgbody_len h = 4294967281"
  shows "ProtoCodec_Decode pb b m = None"
  by (rule ProtoCodec_Decode_wrap [OF assms])

definition bare_head :: msg_head where
  "bare_head = \<lparr>h_cmd = 501, h_msgbody_len = 4294967281, h_seq = 1\<rparr>"

definition bare_head_buffer :: cbuffer where
  "bare_head_buffer = \<lparr>m_buffer = Some (ser_head wire_pb bare_head), m_buffer_len = 15,
     m_write_idx = 15, m_read_idx = 0\<rparr>"

lemma proto_length_check_wraps_witness: "ProtoCodec_Decode wire_pb bare_head_buffer [] = None"
  by (rule proto_length_check_wraps [where h = bare_head])
     (simp_all add: bare_head_buffer_def bare_head_def wf_cbuffer_def contents_def)

text \<open>C25: Messages without compression and encryption that \<open>ClientMsgCodec::Encode\<close> appends
  are decoded by \<open>ClientMsgCodec::Decode\<close> one by one, in order and with nothing left.\<close>

theorem client_stream_roundtrip:
  assumes "pb_ok pb" and "malloc_ok malloc" and "malloc_total malloc"
    and "wf_cbuffer b" and "contents b = []" and "\<forall>m \<in> set ms. client_framed pb m0 m"
    and "room (length (concat (map (client_frame pb) ms))) b"
  shows "\<exists>b1 b2. enc_all (client_enc (ce, h0, pb, malloc, m0)) ms b = Some b1 \<and>
    dec_all (client_dec (ce, h0, pb, malloc, m0)) (length ms) b1 = Some (b2, ms) \<and> contents b2 = []"
  using client.stream [of "(ce, h0, pb, malloc, m0)" b ms] assms
  by (auto simp: codec_env_ok_def)

lemma client_stream_roundtrip_witness:
  "\<exists>b1 b2. enc_all (client_enc (sample_env, fst (sample_msg 0), wire_pb, zero_malloc, []))
      [sample_msg 1, sample_msg 2] empty_cbuffer = Some b1 \<and>
    dec_all (client_dec (sample_env, fst (sample_msg 0), wire_pb, zero_malloc, [])) 2 b1 =
      Some (b2, [sample_msg 1, sample_msg 2]) \<and> contents b2 = []"
  using client_stream_roundtrip [of wire_pb zero_malloc empty_cbuffer "[sample_msg 1, sample_msg 2]" "[]"
      sample_env "fst (sample_msg 0)"]
  by (simp add: numeral_2_eq_2 [symmetric] del: enc_all.simps dec_all.simps)

text \<open>C32: A packet encrypted with RC5 comes back with its head and body, but the decoder skips the
  size of the plain body and not of the ciphertext, so the tail of the ciphertext stays in the
  buffer in front of the next packet.\<close>

theorem client_rc5_roundtrip:
  assumes "pb_ok pb" and "malloc_ok malloc" and "malloc_total malloc" and "wf_cbuffer b"
    and "contents b = []" and "rc5_env ce" and "rc5_only (h_cmd h)"
    and "h_msgbody_len h = of_nat (length (ser_body pb body))"
    and "4 \<le> length (ser_body pb body)" and "length (ser_body pb body) \<le> 64000000"
    and "room (length (ser_body pb body) + 30) b"
  shows "\<exists>c b1 b2. ClientMsgCodec_Encode ce pb malloc h body b = Some (b1, CODEC_STATUS_OK) \<and>
    Rc5Encrypt (rc5_raw ce) (m_strKey ce) (ser_body pb body) = Some c \<and>
    contents b1 = head_bytes ((client_head_of h)\<lparr>ch_body_len := htonl (of_nat (length c))\<rparr>) @ c \<and>
    ClientMsgCodec_Decode ce pb b1 h0 m0 = Some (b2, h, body, CODEC_STATUS_OK) \<and>
    contents b2 = drop (length (ser_body pb body)) c"
  by (rule Client_rc5 [OF assms])

lemma client_rc5_roundtrip_witness:
  "\<exists>c b1 b2. ClientMsgCodec_Encode sample_env wire_pb zero_malloc
      \<lparr>h_cmd = 0x010001F5, h_msgbody_len = 5, h_seq = 7\<rparr> [1, 2, 3, 4, 5] empty_cbuffer = Some (b1, CODEC_STATUS_OK) \<and>
    Rc5Encrypt (rc5_raw sample_env) (m_strKey sample_env) [1, 2, 3, 4, 5] = Some c \<and>
    ClientMsgCodec_Decode sample_env wire_pb b1 (fst (sample_msg 0)) [] =
      Some (b2, \<lparr>h_cmd = 0x010001F5, h_msgbody_len = 5, h_seq = 7\<rparr>, [1, 2, 3, 4, 5], CODEC_STATUS_OK) \<and>
    contents b2 = drop 5 c"
proof -
  have "rc5_only 0x010001F5"
    by (simp add: rc5_only_def cmd_fits_iff flag_def gc_uiRc5Bit_def gc_uiZipBit_def gc_uiGzipBit_def)
  moreover define body :: "byte list" where "body = [1, 2, 3, 4, 5]"
  moreover have "length body = 5" by (simp add: body_def)
  ultimately show ?thesis
    using client_rc5_roundtrip [of wire_pb zero_malloc empty_cbuffer sample_env
      "\<lparr>h_cmd = 0x010001F5, h_msgbody_len = 5, h_seq = 7\<rparr>" body "fst (sample_msg 0)" "[]"]
    unfolding body_def [symmetric] by simp blast
qed

text \<open>\<open>Rc5Decrypt\<close> inverts \<open>Rc5Encrypt\<close> for messages of at least four bytes, for every key of one
  to 256 bytes and whatever the uninitialised memory held; the ciphertext is the message padded
  to the next multiple of eight.\<close>

theorem rc5_wrapper_roundtrip:
  assumes "0 < length key" and "length key \<le> 256" and "4 \<le> length src" and "length src < 2 ^ 30"
    and "length (alg_S raw) = 34" and "length (alg_S raw') = 34"
  shows "\<exists>c. Rc5Encrypt raw key src = Some c \<and> length c = length src div 8 * 8 + 8 \<and>
    (\<forall>out. length out = length c \<longrightarrow> Rc5Decrypt raw' out key c = Some src)"
  by (rule Rc5_roundtrip [OF assms])

lemma rc5_wrapper_roundtrip_witness:
  "\<exists>c. Rc5Encrypt (rc5_raw sample_env) [1] [1, 2, 3, 4, 5] = Some c \<and> length c = 8 \<and>
    (\<forall>out. length out = length c \<longrightarrow> Rc5Decrypt (rc5_raw sample_env) out [1] c = Some [1, 2, 3, 4, 5])"
  using rc5_wrapper_roundtrip [of "[1]" "[1, 2, 3, 4, 5]" "rc5_raw sample_env" "rc5_raw sample_env"] by simp

text \<open>For a message of one to three bytes the output limit of twice the input leaves no room for
  the padded block: \<open>Rc5Encrypt\<close> returns an empty ciphertext and still reports success.\<close>

theorem rc5_short_message_lost:
  assumes "0 < length key" and "length key \<le> 256" and "length src < 4" and "length (alg_S raw) = 34"
  shows "Rc5Encrypt raw key src = Some []"
  by (rule Rc5Encrypt_short [OF assms])

lemma rc5_short_message_lost_witness: "Rc5Encrypt (rc5_raw sample_env) [1] [1, 2, 3] = Some []"
  by (rule rc5_short_message_lost) simp_all

end
