(* ===== verification/CJson.thy ===== *)
theory CJson
  imports Prelude
begin

text \<open>
  The JSON library \<open>loss/src/util/json/cJSON.c\<close>: parsing, printing and the operations on
  arrays and objects. A \<open>cJSON\<close> item is a node with its fields and the list of its children,
  which the C code links through \<open>child\<close>, \<open>next\<close> and \<open>prev\<close>. A C string is the list of its
  bytes without the final zero. Memory is assumed to suffice, and the call stack too.
  Floating point is a parameter: \<open>'d\<close> is the type \<open>double\<close>, and the record \<open>fpu\<close> holds the
  conversions the code makes.
\<close>

section \<open>Items\<close>

datatype ctype = CJ_False | CJ_True | CJ_NULL | CJ_Int | CJ_Double | CJ_String | CJ_Array | CJ_Object

datatype 'd cjson = CJson
  (ctype: ctype) (isref: bool) (valuestring: "byte list option") (valueint: u64) (valuedouble: 'd)
  (csign: int) (cname: "byte list option") (child: "'d cjson list")

text \<open>\<open>dbl_of_u64\<close> is \<open>(double)\<close> of a \<open>uint64\<close>; \<open>scan_big\<close> is \<open>(uint64)n\<close> for a \<open>long double\<close>
  beyond its range; \<open>scan_dbl\<close> gives the two number fields for a sign, the digits and the decimal
  exponent; \<open>show_dbl\<close> is the text \<open>print_double\<close> formats.\<close>

record 'd fpu =
  dbl_zero :: 'd
  dbl_of_u64 :: "u64 \<Rightarrow> 'd"
  u64_of_dbl :: "'d \<Rightarrow> u64"
  scan_big :: "nat \<Rightarrow> u64"
  scan_dbl :: "int \<Rightarrow> nat \<Rightarrow> int \<Rightarrow> 'd \<times> u64"
  show_dbl :: "'d \<Rightarrow> byte list"

definition cJSON_New_Item :: "'d fpu \<Rightarrow> 'd cjson" where
  "cJSON_New_Item fp = CJson CJ_False False None 0 (dbl_zero fp) 0 None []"

definition with_name :: "byte list option \<Rightarrow> 'd cjson \<Rightarrow> 'd cjson" where
  "with_name nm c = CJson (ctype c) (isref c) (valuestring c) (valueint c) (valuedouble c) (csign c) nm (child c)"

definition with_child :: "'d cjson list \<Rightarrow> 'd cjson \<Rightarrow> 'd cjson" where
  "with_child cs c = CJson (ctype c) (isref c) (valuestring c) (valueint c) (valuedouble c) (csign c) (cname c) cs"

definition with_type :: "ctype \<Rightarrow> 'd cjson \<Rightarrow> 'd cjson" where
  "with_type t c = CJson t (isref c) (valuestring c) (valueint c) (valuedouble c) (csign c) (cname c) (child c)"

section \<open>Comparing names\<close>

definition tolower :: "byte \<Rightarrow> byte" where
  "tolower c = (if 65 \<le> c \<and> c \<le> 90 then c + 32 else c)"

text \<open>Whether \<open>cJSON_strcasecmp\<close> returns zero; a null pointer equals only a null pointer.\<close>

fun same_text :: "byte list \<Rightarrow> byte list \<Rightarrow> bool" where
  "same_text [] [] = True"
| "same_text (a # as) (b # bs) = (tolower a = tolower b \<and> same_text as bs)"
| "same_text _ _ = False"

definition cJSON_strcasecmp_eq :: "byte list option \<Rightarrow> byte list option \<Rightarrow> bool" where
  "cJSON_strcasecmp_eq s1 s2 =
     (case s1 of None \<Rightarrow> s2 = None
      | Some a \<Rightarrow> (case s2 of None \<Rightarrow> False | Some b \<Rightarrow> same_text a b))"

section \<open>Parsing\<close>

text \<open>The result of a parsing function: an item or list with the rest of the text, the null
  pointer, behaviour the C code leaves undefined, or fuel that ran out.\<close>

datatype 'a presult = Done 'a | Null | Undef | Fuel

fun bind_result :: "'a presult \<Rightarrow> ('a \<Rightarrow> 'b presult) \<Rightarrow> 'b presult" where
  "bind_result (Done x) f = f x"
| "bind_result Null f = Null"
| "bind_result Undef f = Undef"
| "bind_result Fuel f = Fuel"

fun skip :: "byte list \<Rightarrow> byte list" where
  "skip [] = []"
| "skip (c # s) = (if c \<le> 32 then skip s else c # s)"

definition is_dig :: "byte \<Rightarrow> bool" where
  "is_dig c \<longleftrightarrow> 48 \<le> c \<and> c \<le> 57"

definition dig_val :: "byte \<Rightarrow> nat" where
  "dig_val c = unat c - 48"

definition digits_val :: "nat \<Rightarrow> byte list \<Rightarrow> nat" where
  "digits_val n ds = foldl (\<lambda>n c. 10 * n + dig_val c) n ds"

definition starts :: "byte \<Rightarrow> byte list \<Rightarrow> bool" where
  "starts c s \<longleftrightarrow> (case s of [] \<Rightarrow> False | d # _ \<Rightarrow> d = c)"

definition int_digits :: "byte list \<Rightarrow> byte list \<times> byte list" where
  "int_digits s = (case s of [] \<Rightarrow> ([], [])
     | c # _ \<Rightarrow> if 49 \<le> c \<and> c \<le> 57 then (takeWhile is_dig s, dropWhile is_dig s) else ([], s))"

definition frac_digits :: "byte list \<Rightarrow> byte list \<times> byte list" where
  "frac_digits s = (case s of p # c # _ \<Rightarrow>
       if p = 46 \<and> is_dig c then (takeWhile is_dig (tl s), dropWhile is_dig (tl s)) else ([], s)
     | _ \<Rightarrow> ([], s))"

definition exp_part :: "byte list \<Rightarrow> bool \<times> byte list \<times> byte list" where
  "exp_part s =
     (if starts 101 s \<or> starts 69 s
      then let s1 = tl s;
               neg = (\<not> starts 43 s1 \<and> starts 45 s1);
               s2 = (if starts 43 s1 \<or> starts 45 s1 then tl s1 else s1)
           in (neg, takeWhile is_dig s2, dropWhile is_dig s2)
      else (False, [], s))"

definition u64_of_digits :: "'d fpu \<Rightarrow> nat \<Rightarrow> u64" where
  "u64_of_digits fp n = (if n < 2 ^ 64 then of_nat n else scan_big fp n)"

text \<open>\<open>num\<close> is the text at a minus sign or digit; an exponent beyond the range of \<open>int\<close> overflows.\<close>

definition parse_number :: "'d fpu \<Rightarrow> 'd cjson \<Rightarrow> byte list \<Rightarrow> ('d cjson \<times> byte list) presult" where
  "parse_number fp item num =
     (let sg = (if starts 45 num then -1 else 1 :: int);
          s = (if starts 45 num then tl num else num);
          s = (if starts 48 s then tl s else s);
          (ds, s) = int_digits s;
          (fs, s) = frac_digits s;
          (neg, es, s) = exp_part s;
          n = digits_val 0 (ds @ fs);
          scale = - int (length fs);
          subscale = digits_val 0 es
      in if subscale \<ge> 2 ^ 31 then Undef
         else if scale = 0 \<and> subscale = 0
         then let v = (if sg = -1 then - u64_of_digits fp n else u64_of_digits fp n)
              in Done (CJson CJ_Int (isref item) (valuestring item) v (dbl_of_u64 fp v) sg (cname item) (child item), s)
         else let (d, v) = scan_dbl fp sg n (scale + (if neg then - int subscale else int subscale))
              in Done (CJson CJ_Double (isref item) (valuestring item) v d sg (cname item) (child item), s))"

text \<open>\<open>sscanf(s, "%4x", &uc)\<close>: white space is skipped; an optional sign, an optional \<open>0x\<close> and hex
  digits make up at most four characters; without a digit the variable is left alone.\<close>

definition hex_val :: "byte \<Rightarrow> nat option" where
  "hex_val c = (let n = unat c in
     if 48 \<le> n \<and> n \<le> 57 then Some (n - 48)
     else if 97 \<le> n \<and> n \<le> 102 then Some (n - 87)
     else if 65 \<le> n \<and> n \<le> 70 then Some (n - 55) else None)"

definition white :: "byte \<Rightarrow> bool" where
  "white c \<longleftrightarrow> c = 32 \<or> 9 \<le> c \<and> c \<le> 13"

definition sscanf_4x :: "byte list \<Rightarrow> u32 \<Rightarrow> u32" where
  "sscanf_4x s old =
     (let f = take 4 (dropWhile white s);
          neg = starts 45 f;
          f = (if starts 45 f \<or> starts 43 f then tl f else f);
          f = (if starts 48 f \<and> (starts 120 (tl f) \<or> starts 88 (tl f)) then drop 2 f else f);
          ds = map (\<lambda>c. the (hex_val c)) (takeWhile (\<lambda>c. hex_val c \<noteq> None) f);
          v = of_nat (foldl (\<lambda>n d. 16 * n + d) 0 ds)
      in if ds = [] then old else if neg then - v else v)"

definition utf8_len :: "u32 \<Rightarrow> nat" where
  "utf8_len uc = (if uc < 0x80 then 1 else if uc < 0x800 then 2 else if uc < 0x10000 then 3 else 4)"

definition firstByteMark :: "byte list" where
  "firstByteMark = [0x00, 0x00, 0xC0, 0xE0, 0xF0, 0xF8, 0xFC]"

text \<open>The fall-through \<open>switch (len)\<close>: continuation bytes from the last to the second, then the
  marked first byte. The second component is what is left in \<open>uc\<close>.\<close>

fun utf8_put :: "nat \<Rightarrow> nat \<Rightarrow> u32 \<Rightarrow> byte list \<Rightarrow> byte list \<times> u32" where
  "utf8_put len (Suc (Suc k)) uc out =
     utf8_put len (Suc k) (drop_bit 6 uc) (ucast ((uc OR 0x80) AND 0xBF) # out)"
| "utf8_put len _ uc out = ((ucast uc OR firstByteMark ! len) # out, uc)"

text \<open>One \<open>\u\<close> escape: \<open>s\<close> is the text after the \<open>u\<close>. The result is the bytes written, the text
  after the escape and the new values of \<open>uc\<close> and \<open>uc2\<close>; \<open>None\<close>: the pointer leaves the string.\<close>

definition unescape_u :: "byte list \<Rightarrow> u32 \<Rightarrow> u32 \<Rightarrow> (byte list \<times> byte list \<times> u32 \<times> u32) option" where
  "unescape_u s uc0 uc20 =
     (let uc = sscanf_4x s uc0 in
      if length s < 4 then None
      else if 0xDC00 \<le> uc \<and> uc \<le> 0xDFFF \<or> uc = 0 then Some ([], drop 4 s, uc, uc20)
      else if 0xD800 \<le> uc \<and> uc \<le> 0xDBFF
      then if \<not> starts 92 (drop 4 s) \<or> \<not> starts 117 (drop 5 s) then Some ([], drop 4 s, uc, uc20)
           else let uc2 = sscanf_4x (drop 6 s) uc20 in
                if length s < 10 then None
                else if uc2 < 0xDC00 \<or> uc2 > 0xDFFF then Some ([], drop 10 s, uc, uc2)
                else let full = 0x10000 OR (push_bit 10 (uc AND 0x3FF)) OR (uc2 AND 0x3FF);
                         (bs, uc') = utf8_put (utf8_len full) (utf8_len full) full []
                     in Some (bs, drop 10 s, uc', uc2)
      else let (bs, uc') = utf8_put (utf8_len uc) (utf8_len uc) uc []
           in Some (bs, drop 4 s, uc', uc20))"

definition simple_escape :: "byte \<Rightarrow> byte" where
  "simple_escape c =
     (if c = 98 then 8 else if c = 102 then 12 else if c = 110 then 10
      else if c = 114 then 13 else if c = 116 then 9 else c)"

text \<open>The second loop of \<open>parse_string\<close>, from the opening quote on: bytes and the text it stops at.\<close>

function unescape :: "byte list \<Rightarrow> u32 \<Rightarrow> u32 \<Rightarrow> (byte list \<times> byte list) option" where
  "unescape s uc uc2 =
     (case s of [] \<Rightarrow> Some ([], [])
      | c # cs \<Rightarrow>
          if c = 34 then Some ([], s)
          else if c \<noteq> 92 then map_option (\<lambda>(out, r). (c # out, r)) (unescape cs uc uc2)
          else (case cs of [] \<Rightarrow> None
                | e # es \<Rightarrow>
                    if e = 117
                    then (case unescape_u es uc uc2 of None \<Rightarrow> None
                          | Some (bs, r, uc', uc2') \<Rightarrow>
                              map_option (\<lambda>(out, r'). (bs @ out, r')) (unescape r uc' uc2'))
                    else map_option (\<lambda>(out, r). (simple_escape e # out, r)) (unescape es uc uc2)))"
  by pat_completeness auto
termination
proof (relation "measure (\<lambda>(s, uc, uc2). length s)", goal_cases)
  case (3 s uc uc2 c cs e es x bs y r z uc' uc2')
  have "length r \<le> length es"
    using 3 by (auto simp: unescape_u_def Let_def split: if_splits prod.splits)
  moreover have "fst y = r" using 3 by (metis fst_conv)
  ultimately show ?case using 3(1-5) by (simp add: split_def)
qed simp_all

declare unescape.simps [simp del]

text \<open>The first loop, which sizes the buffer. A backslash before the end skips the terminator.\<close>

fun scan_len :: "byte list \<Rightarrow> nat option" where
  "scan_len [] = Some 0"
| "scan_len (c # cs) =
     (if c = 34 then Some 0
      else if c = 92 then (case cs of [] \<Rightarrow> None | _ # es \<Rightarrow> map_option Suc (scan_len es))
      else map_option Suc (scan_len cs))"

text \<open>\<open>uc0\<close> and \<open>uc20\<close> are the uninitialised variables \<open>uc\<close> and \<open>uc2\<close>. Writing more bytes than the
  first loop counted overflows the buffer.\<close>

definition parse_string :: "u32 \<times> u32 \<Rightarrow> 'd cjson \<Rightarrow> byte list \<Rightarrow> ('d cjson \<times> byte list) presult" where
  "parse_string junk item str =
     (if \<not> starts 34 str then Null
      else case scan_len (tl str) of None \<Rightarrow> Undef
           | Some len \<Rightarrow>
               (case unescape (tl str) (fst junk) (snd junk) of None \<Rightarrow> Undef
                | Some (out, r) \<Rightarrow>
                    if length out > len then Undef
                    else Done (CJson CJ_String (isref item) (Some out) (valueint item) (valuedouble item)
                                 (csign item) (cname item) (child item),
                               if starts 34 r then tl r else r)))"

text \<open>The child's name is the string parsed first; its value string is reset.\<close>

definition take_name :: "'d cjson \<Rightarrow> 'd cjson" where
  "take_name c = CJson (ctype c) (isref c) None (valueint c) (valuedouble c) (csign c) (valuestring c) (child c)"

definition prefix_eq :: "string \<Rightarrow> byte list \<Rightarrow> bool" where
  "prefix_eq w s \<longleftrightarrow> take (length w) s = ascii w"

text \<open>\<open>parse_value\<close>, the element loop of \<open>parse_array\<close> and the member loop of \<open>parse_object\<close>: the
  bodies, with the functions they call as arguments. A loop starts where an element or member is
  expected.\<close>

type_synonym ('d, 'a) parser = "byte list \<Rightarrow> ('a \<times> byte list) presult"

definition value_body ::
  "('d, 'd cjson list) parser \<Rightarrow> ('d, 'd cjson list) parser \<Rightarrow> 'd fpu \<Rightarrow> u32 \<times> u32 \<Rightarrow> 'd cjson \<Rightarrow> ('d, 'd cjson) parser" where
  "value_body elements members fp junk item value =
     (if prefix_eq ''null'' value then Done (with_type CJ_NULL item, drop 4 value)
      else if prefix_eq ''false'' value then Done (with_type CJ_False item, drop 5 value)
      else if prefix_eq ''true'' value
      then Done (CJson CJ_True (isref item) (valuestring item) 1 (valuedouble item) (csign item) (cname item) (child item), drop 4 value)
      else case value of [] \<Rightarrow> Null
           | c # cs \<Rightarrow>
               if c = 34 then parse_string junk item value
               else if c = 45 \<or> is_dig c then parse_number fp item value
               else if c = 91
               then let item = with_type CJ_Array item; s = skip cs in
                    if starts 93 s then Done (item, tl s)
                    else bind_result (elements s) (\<lambda>(cs, r). Done (with_child cs item, r))
               else if c = 123
               then let item = with_type CJ_Object item; s = skip cs in
                    if starts 125 s then Done (item, tl s)
                    else bind_result (members s) (\<lambda>(cs, r). Done (with_child cs item, r))
               else Null)"

definition elements_body ::
  "('d cjson \<Rightarrow> ('d, 'd cjson) parser) \<Rightarrow> ('d, 'd cjson list) parser \<Rightarrow> 'd fpu \<Rightarrow> ('d, 'd cjson list) parser" where
  "elements_body val elements fp value =
     bind_result (val (cJSON_New_Item fp) (skip value)) (\<lambda>(c, r).
       let r = skip r in
       if starts 44 r then bind_result (elements (tl r)) (\<lambda>(cs, r'). Done (c # cs, r'))
       else if starts 93 r then Done ([c], tl r) else Null)"

definition members_body ::
  "('d cjson \<Rightarrow> ('d, 'd cjson) parser) \<Rightarrow> ('d, 'd cjson list) parser \<Rightarrow> 'd fpu \<Rightarrow> u32 \<times> u32 \<Rightarrow> ('d, 'd cjson list) parser" where
  "members_body val members fp junk value =
     bind_result (parse_string junk (cJSON_New_Item fp) (skip value)) (\<lambda>(c0, r0).
       let r0 = skip r0 in
       if \<not> starts 58 r0 then Null
       else bind_result (val (take_name c0) (skip (tl r0))) (\<lambda>(c, r).
         let r = skip r in
         if starts 44 r then bind_result (members (tl r)) (\<lambda>(cs, r'). Done (c # cs, r'))
         else if starts 125 r then Done ([c], tl r) else Null))"

text \<open>The recursion; the first argument is fuel.\<close>

fun parse_value :: "nat \<Rightarrow> 'd fpu \<Rightarrow> u32 \<times> u32 \<Rightarrow> 'd cjson \<Rightarrow> ('d, 'd cjson) parser"
  and parse_elements :: "nat \<Rightarrow> 'd fpu \<Rightarrow> u32 \<times> u32 \<Rightarrow> ('d, 'd cjson list) parser"
  and parse_members :: "nat \<Rightarrow> 'd fpu \<Rightarrow> u32 \<times> u32 \<Rightarrow> ('d, 'd cjson list) parser" where
  "parse_value 0 fp junk item value = Fuel"
| "parse_value (Suc n) fp junk item value =
     value_body (parse_elements n fp junk) (parse_members n fp junk) fp junk item value"
| "parse_elements 0 fp junk value = Fuel"
| "parse_elements (Suc n) fp junk value =
     elements_body (parse_value n fp junk) (parse_elements n fp junk) fp value"
| "parse_members 0 fp junk value = Fuel"
| "parse_members (Suc n) fp junk value =
     members_body (parse_value n fp junk) (parse_members n fp junk) fp junk value"

text \<open>Each level of nesting and each element consumes at least one byte of text for two calls.\<close>

definition cJSON_Parse :: "'d fpu \<Rightarrow> u32 \<times> u32 \<Rightarrow> byte list \<Rightarrow> 'd cjson presult" where
  "cJSON_Parse fp junk value =
     bind_result (parse_value (2 * length value + 2) fp junk (cJSON_New_Item fp) (skip value))
       (\<lambda>(c, r). Done c)"

section \<open>Printing\<close>

definition print_int :: "'d cjson \<Rightarrow> byte list" where
  "print_int item =
     (let v = valueint item in
      ascii (if csign item = -1
             then if v \<le> 0x7FFFFFFF \<and> v \<ge> 0xFFFFFFFF80000000 then fmt_d (sint (ucast v :: u32))
                  else fmt_d (sint v)
             else if v \<le> 0xFFFFFFFF then dec (unat (ucast v :: u32)) else dec (unat v)))"

definition print_double :: "'d fpu \<Rightarrow> 'd cjson \<Rightarrow> byte list" where
  "print_double fp item = show_dbl fp (valuedouble item)"

definition hex4 :: "nat \<Rightarrow> byte" where
  "hex4 d = of_nat (if d < 10 then 48 + d else 87 + d)"

definition escape_char :: "byte \<Rightarrow> byte list" where
  "escape_char c =
     (if c > 31 \<and> c \<noteq> 34 \<and> c \<noteq> 92 then [c]
      else 92 # (if c = 92 then [92] else if c = 34 then [34] else if c = 8 then [98]
                 else if c = 12 then [102] else if c = 10 then [110] else if c = 13 then [114]
                 else if c = 9 then [116]
                 else [117, 48, 48, hex4 (unat c div 16), hex4 (unat c mod 16)]))"

definition print_string_ptr :: "byte list option \<Rightarrow> byte list" where
  "print_string_ptr str =
     (case str of None \<Rightarrow> []
      | Some s \<Rightarrow> [34] @ concat (map escape_char (takeWhile (\<lambda>c. c \<noteq> 0) s)) @ [34])"

text \<open>The first loop of \<open>print_string_ptr\<close>, which sizes the buffer (\<open>len + 3\<close> bytes).\<close>

definition print_len :: "byte list \<Rightarrow> nat" where
  "print_len s = sum_list (map (\<lambda>c. 1 + (if c \<in> {34, 92, 8, 12, 10, 13, 9} then 1 else if c < 32 then 5 else 0))
     (takeWhile (\<lambda>c. c \<noteq> 0) s))"

fun join_elements :: "bool \<Rightarrow> byte list list \<Rightarrow> byte list" where
  "join_elements fmt [] = []"
| "join_elements fmt [e] = e"
| "join_elements fmt (e # es) = e @ [44] @ (if fmt then [32] else []) @ join_elements fmt es"

fun join_members :: "nat \<Rightarrow> bool \<Rightarrow> (byte list \<times> byte list) list \<Rightarrow> byte list" where
  "join_members depth fmt [] = []"
| "join_members depth fmt ((n, e) # es) =
     (if fmt then replicate depth 9 else []) @ n @ [58] @ (if fmt then [9] else []) @ e @
     (if es = [] then [] else [44]) @ (if fmt then [10] else []) @ join_members depth fmt es"

fun print_value :: "'d fpu \<Rightarrow> nat \<Rightarrow> bool \<Rightarrow> 'd cjson \<Rightarrow> byte list" where
  "print_value fp depth fmt (CJson t rf vs vi vd sg nm cs) =
     (case t of
        CJ_NULL \<Rightarrow> ascii ''null'' | CJ_False \<Rightarrow> ascii ''false'' | CJ_True \<Rightarrow> ascii ''true''
      | CJ_Int \<Rightarrow> print_int (CJson t rf vs vi vd sg nm cs)
      | CJ_Double \<Rightarrow> print_double fp (CJson t rf vs vi vd sg nm cs)
      | CJ_String \<Rightarrow> print_string_ptr vs
      | CJ_Array \<Rightarrow> [91] @ join_elements fmt (map (print_value fp (depth + 1) fmt) cs) @ [93]
      | CJ_Object \<Rightarrow>
          [123] @ (if fmt then [10] else []) @
          join_members (depth + 1) fmt
            (map (\<lambda>c. (print_string_ptr (cname c), print_value fp (depth + 1) fmt c)) cs) @
          (if fmt then replicate depth 9 else []) @ [125])"

definition cJSON_Print :: "'d fpu \<Rightarrow> 'd cjson \<Rightarrow> byte list" where
  "cJSON_Print fp item = print_value fp 0 True item"

definition cJSON_PrintUnformatted :: "'d fpu \<Rightarrow> 'd cjson \<Rightarrow> byte list" where
  "cJSON_PrintUnformatted fp item = print_value fp 0 False item"

text \<open>The sizes \<open>print_array\<close> and \<open>print_object\<close> allocate for their output.\<close>

definition array_size :: "bool \<Rightarrow> byte list list \<Rightarrow> nat" where
  "array_size fmt entries = 5 + sum_list (map (\<lambda>e. length e + 2 + (if fmt then 1 else 0)) entries)"

definition object_size :: "nat \<Rightarrow> bool \<Rightarrow> (byte list \<times> byte list) list \<Rightarrow> nat" where
  "object_size depth fmt entries = 7 + (if fmt then depth else 0) +
     sum_list (map (\<lambda>(n, e). length e + length n + 2 + (if fmt then 2 + depth else 0)) entries)"

section \<open>Arrays and objects\<close>

definition cJSON_GetArraySize :: "'d cjson \<Rightarrow> nat" where
  "cJSON_GetArraySize a = length (child a)"

definition cJSON_GetArrayItem :: "'d cjson \<Rightarrow> int \<Rightarrow> 'd cjson option" where
  "cJSON_GetArrayItem a item = (if nat item < length (child a) then Some (child a ! nat item) else None)"

text \<open>The position of the first child whose name equals the given one up to letter case.\<close>

fun find_name :: "byte list option \<Rightarrow> 'd cjson list \<Rightarrow> nat option" where
  "find_name nm [] = None"
| "find_name nm (c # cs) =
     (if cJSON_strcasecmp_eq (cname c) nm then Some 0 else map_option Suc (find_name nm cs))"

definition cJSON_GetObjectItem :: "'d cjson \<Rightarrow> byte list option \<Rightarrow> 'd cjson option" where
  "cJSON_GetObjectItem ob nm = map_option (\<lambda>i. child ob ! i) (find_name nm (child ob))"

definition cJSON_AddItemToArray :: "'d cjson \<Rightarrow> 'd cjson option \<Rightarrow> 'd cjson" where
  "cJSON_AddItemToArray a item =
     (case item of None \<Rightarrow> a | Some it \<Rightarrow> with_child (child a @ [it]) a)"

definition cJSON_AddItemToArrayHead :: "'d cjson \<Rightarrow> 'd cjson option \<Rightarrow> 'd cjson" where
  "cJSON_AddItemToArrayHead a item =
     (case item of None \<Rightarrow> a | Some it \<Rightarrow> with_child (it # child a) a)"

definition cJSON_AddItemToObject :: "'d cjson \<Rightarrow> byte list \<Rightarrow> 'd cjson option \<Rightarrow> 'd cjson" where
  "cJSON_AddItemToObject ob nm item =
     (case item of None \<Rightarrow> ob | Some it \<Rightarrow> cJSON_AddItemToArray ob (Some (with_name (Some nm) it)))"

definition create_reference :: "'d cjson \<Rightarrow> 'd cjson" where
  "create_reference c = CJson (ctype c) True (valuestring c) (valueint c) (valuedouble c) (csign c) None (child c)"

definition cJSON_AddItemReferenceToArray :: "'d cjson \<Rightarrow> 'd cjson \<Rightarrow> 'd cjson" where
  "cJSON_AddItemReferenceToArray a item = cJSON_AddItemToArray a (Some (create_reference item))"

definition cJSON_AddItemReferenceToObject :: "'d cjson \<Rightarrow> byte list \<Rightarrow> 'd cjson \<Rightarrow> 'd cjson" where
  "cJSON_AddItemReferenceToObject ob nm item = cJSON_AddItemToObject ob nm (Some (create_reference item))"

definition cJSON_DetachItemFromArray :: "'d cjson \<Rightarrow> int \<Rightarrow> 'd cjson \<times> 'd cjson option" where
  "cJSON_DetachItemFromArray a which =
     (let i = nat which in
      if i < length (child a)
      then (with_child (take i (child a) @ drop (Suc i) (child a)) a, Some (child a ! i))
      else (a, None))"

definition cJSON_DeleteItemFromArray :: "'d cjson \<Rightarrow> int \<Rightarrow> 'd cjson" where
  "cJSON_DeleteItemFromArray a which = fst (cJSON_DetachItemFromArray a which)"

definition cJSON_DetachItemFromObject :: "'d cjson \<Rightarrow> byte list option \<Rightarrow> 'd cjson \<times> 'd cjson option" where
  "cJSON_DetachItemFromObject ob nm =
     (case find_name nm (child ob) of None \<Rightarrow> (ob, None)
      | Some i \<Rightarrow> cJSON_DetachItemFromArray ob (int i))"

definition cJSON_DeleteItemFromObject :: "'d cjson \<Rightarrow> byte list option \<Rightarrow> 'd cjson" where
  "cJSON_DeleteItemFromObject ob nm = fst (cJSON_DetachItemFromObject ob nm)"

definition cJSON_ReplaceItemInArray :: "'d cjson \<Rightarrow> int \<Rightarrow> 'd cjson \<Rightarrow> 'd cjson" where
  "cJSON_ReplaceItemInArray a which newitem =
     (let i = nat which in
      if i < length (child a) then with_child ((child a)[i := newitem]) a else a)"

definition cJSON_ReplaceItemInObject :: "'d cjson \<Rightarrow> byte list \<Rightarrow> 'd cjson \<Rightarrow> 'd cjson" where
  "cJSON_ReplaceItemInObject ob nm newitem =
     (case find_name (Some nm) (child ob) of None \<Rightarrow> ob
      | Some i \<Rightarrow> cJSON_ReplaceItemInArray ob (int i) (with_name (Some nm) newitem))"

section \<open>Creating items\<close>

definition cJSON_CreateNull :: "'d fpu \<Rightarrow> 'd cjson" where
  "cJSON_CreateNull fp = with_type CJ_NULL (cJSON_New_Item fp)"

definition cJSON_CreateTrue :: "'d fpu \<Rightarrow> 'd cjson" where
  "cJSON_CreateTrue fp = with_type CJ_True (cJSON_New_Item fp)"

definition cJSON_CreateFalse :: "'d fpu \<Rightarrow> 'd cjson" where
  "cJSON_CreateFalse fp = with_type CJ_False (cJSON_New_Item fp)"

definition cJSON_CreateBool :: "'d fpu \<Rightarrow> int \<Rightarrow> 'd cjson" where
  "cJSON_CreateBool fp b = with_type (if b \<noteq> 0 then CJ_True else CJ_False) (cJSON_New_Item fp)"

definition cJSON_CreateDouble :: "'d fpu \<Rightarrow> 'd \<Rightarrow> int \<Rightarrow> 'd cjson" where
  "cJSON_CreateDouble fp num sg = CJson CJ_Double False None (u64_of_dbl fp num) num sg None []"

definition cJSON_CreateInt :: "'d fpu \<Rightarrow> u64 \<Rightarrow> int \<Rightarrow> 'd cjson" where
  "cJSON_CreateInt fp num sg = CJson CJ_Int False None num (dbl_of_u64 fp num) sg None []"

definition cJSON_CreateString :: "'d fpu \<Rightarrow> byte list \<Rightarrow> 'd cjson" where
  "cJSON_CreateString fp s = CJson CJ_String False (Some s) 0 (dbl_zero fp) 0 None []"

definition cJSON_CreateArray :: "'d fpu \<Rightarrow> 'd cjson" where
  "cJSON_CreateArray fp = with_type CJ_Array (cJSON_New_Item fp)"

definition cJSON_CreateObject :: "'d fpu \<Rightarrow> 'd cjson" where
  "cJSON_CreateObject fp = with_type CJ_Object (cJSON_New_Item fp)"

text \<open>The numbers pass through \<open>unsigned int\<close> on their way to \<open>long double\<close>.\<close>

definition cJSON_CreateIntArray :: "'d fpu \<Rightarrow> u32 list \<Rightarrow> int \<Rightarrow> 'd cjson" where
  "cJSON_CreateIntArray fp numbers sg =
     with_child (map (\<lambda>n. cJSON_CreateDouble fp (dbl_of_u64 fp (ucast n)) sg) numbers) (cJSON_CreateArray fp)"

definition cJSON_CreateDoubleArray :: "'d fpu \<Rightarrow> 'd list \<Rightarrow> 'd cjson" where
  "cJSON_CreateDoubleArray fp numbers =
     with_child (map (\<lambda>n. cJSON_CreateDouble fp n (-1)) numbers) (cJSON_CreateArray fp)"

definition cJSON_CreateStringArray :: "'d fpu \<Rightarrow> byte list list \<Rightarrow> 'd cjson" where
  "cJSON_CreateStringArray fp strings = with_child (map (cJSON_CreateString fp) strings) (cJSON_CreateArray fp)"

end
