(* ===== verification/CJson_Total.thy ===== *)
theory CJson_Total
  imports CJson
begin

text \<open>
  Every call of \<open>parse_value\<close> consumes text, so \<open>cJSON_Parse\<close> returns on every input: the fuel of
  the model, twice the length of the text, never runs out.
\<close>

section \<open>The parser returns on every text\<close>

lemma length_skip: "length (skip s) \<le> length s"
  by (induction s) auto

lemma int_digits_length: "length (snd (int_digits s)) \<le> length s"
  by (cases s) (auto simp: int_digits_def length_dropWhile_le intro: le_SucI)

lemma frac_digits_length: "length (snd (frac_digits s)) \<le> length s"
proof -
  have "length (dropWhile is_dig (tl s)) \<le> length s"
    using length_dropWhile_le [of is_dig "tl s"] by simp
  then show ?thesis by (auto simp: frac_digits_def split: list.split)
qed

lemma exp_part_length: "length (snd (snd (exp_part s))) \<le> length s"
proof -
  have "length (dropWhile is_dig (tl (tl s))) \<le> length s" "length (dropWhile is_dig (tl s)) \<le> length s"
    using length_dropWhile_le [of is_dig "tl (tl s)"] length_dropWhile_le [of is_dig "tl s"] by simp_all
  then show ?thesis by (auto simp: exp_part_def Let_def)
qed

lemma parse_number_not_fuel: "parse_number fp item s \<noteq> Fuel"
  by (simp add: parse_number_def Let_def split: prod.split)

lemma parse_string_not_fuel: "parse_string junk item s \<noteq> Fuel"
  by (simp add: parse_string_def split: option.split prod.split)

lemma int_digits_shorter:
  fixes cs :: "byte list"
  assumes "c = 45 \<or> is_dig c"
  defines "s \<equiv> (let s = (if c = 45 then cs else c # cs) in if starts 48 s then tl s else s)"
  shows "length (snd (int_digits s)) \<le> length cs"
proof (cases "c = 45 \<or> c = 48")
  case True
  then have "length s \<le> length cs"
    by (cases cs) (auto simp: s_def starts_def Let_def)
  then show ?thesis using int_digits_length [of s] by simp
next
  case False
  then have s: "s = c # cs" by (auto simp: s_def starts_def Let_def)
  from False assms(1) have c: "is_dig c" "c \<noteq> 48" by auto
  then have "unat c \<noteq> unat (48 :: byte)" by (simp only: word_unat_eq_iff [symmetric] not_False_eq_True)
  with c have "49 \<le> c" "c \<le> 57" by (auto simp: is_dig_def word_le_nat_alt)
  then show ?thesis using c length_dropWhile_le [of is_dig cs] by (simp add: s int_digits_def)
qed

lemma parse_number_shorter:
  assumes "parse_number fp item (c # cs) = Done (it, r)" and "c = 45 \<or> is_dig c"
  shows "length r \<le> length cs"
proof -
  let ?s = "let s = (if c = 45 then cs else c # cs) in if starts 48 s then tl s else s"
  obtain ds s1 where 1: "int_digits ?s = (ds, s1)" by (cases "int_digits ?s")
  obtain fs s2 where 2: "frac_digits s1 = (fs, s2)" by (cases "frac_digits s1")
  obtain ng es s3 where 3: "exp_part s2 = (ng, es, s3)" by (cases "exp_part s2") auto
  have "r = s3"
    using assms(1) 1 2 3 by (auto simp: parse_number_def Let_def starts_def split: if_splits prod.splits)
  moreover have "length s1 \<le> length cs" "length s2 \<le> length s1" "length s3 \<le> length s2"
    using int_digits_shorter [OF assms(2), of cs] frac_digits_length [of s1] exp_part_length [of s2]
    by (simp_all add: 1 2 3)
  ultimately show ?thesis by simp
qed

lemma unescape_u_length: "unescape_u s uc uc2 = Some (bs, r, x) \<Longrightarrow> length r \<le> length s"
  by (auto simp: unescape_u_def Let_def split: if_splits prod.splits)

lemma unescape_simps:
  "unescape [] uc uc2 = Some ([], [])"
  "unescape (34 # cs) uc uc2 = Some ([], 34 # cs)"
  "c \<noteq> 34 \<Longrightarrow> c \<noteq> 92 \<Longrightarrow>
     unescape (c # cs) uc uc2 = map_option (\<lambda>(out, r). (c # out, r)) (unescape cs uc uc2)"
  "unescape [92] uc uc2 = None"
  "e \<noteq> 117 \<Longrightarrow>
     unescape (92 # e # es) uc uc2 = map_option (\<lambda>(out, r). (simple_escape e # out, r)) (unescape es uc uc2)"
  "unescape (92 # 117 # es) uc uc2 = (case unescape_u es uc uc2 of None \<Rightarrow> None
     | Some (bs, r, uc', uc2') \<Rightarrow> map_option (\<lambda>(out, r'). (bs @ out, r')) (unescape r uc' uc2'))"
  by (subst unescape.simps, simp)+

lemma unescape_length: "unescape s uc uc2 = Some (out, r) \<Longrightarrow> length r \<le> length s"
proof (induction "length s" arbitrary: s uc uc2 out r rule: less_induct)
  case less
  consider "s = []" | cs where "s = 34 # cs" | c cs where "s = c # cs" "c \<noteq> 34" "c \<noteq> 92" | "s = [92]"
    | e es where "s = 92 # e # es" "e \<noteq> 117" | es where "s = 92 # 117 # es"
    by (metis list.exhaust)
  then show ?case
  proof cases
    case (3 c cs)
    with less.prems less.hyps [of cs] show ?thesis by (auto simp: unescape_simps intro: le_SucI)
  next
    case (5 e es)
    with less.prems obtain a where a: "unescape es uc uc2 = Some (a, r)" by (auto simp: unescape_simps)
    with 5 less.hyps [OF _ a] show ?thesis by simp
  next
    case (6 es)
    with less.prems obtain bs r1 uc' uc2' out' where
      u: "unescape_u es uc uc2 = Some (bs, r1, uc', uc2')" "unescape r1 uc' uc2' = Some (out', r)"
      by (auto simp: unescape_simps split: option.splits)
    have "length r1 \<le> length es" by (rule unescape_u_length [OF u(1)])
    with 6 less.hyps [OF _ u(2)] show ?thesis by simp
  qed (use less.prems in \<open>auto simp: unescape_simps\<close>)
qed

lemma parse_string_shorter:
  assumes "parse_string junk item s = Done (c, r)"
  shows "length r < length s"
proof -
  from assms obtain out r' where u: "unescape (tl s) (fst junk) (snd junk) = Some (out, r')"
      and r: "r = (if starts 34 r' then tl r' else r')" and s: "starts 34 s"
    by (auto simp: parse_string_def split: if_splits option.splits prod.splits)
  have "length r' \<le> length (tl s)" by (rule unescape_length [OF u])
  moreover have "s \<noteq> []" using s by (auto simp: starts_def)
  ultimately show ?thesis using r by (cases s) auto
qed

lemma bind_result_Done: "bind_result m f = Done x \<longleftrightarrow> (\<exists>y. m = Done y \<and> f y = Done x)"
  by (cases m) auto

lemma bind_result_Fuel: "bind_result m f = Fuel \<longleftrightarrow> m = Fuel \<or> (\<exists>y. m = Done y \<and> f y = Fuel)"
  by (cases m) auto

lemma prefix_eq_length: "prefix_eq w s \<Longrightarrow> length w \<le> length s"
  by (metis ascii_def length_map length_take min.cobounded1 prefix_eq_def min_def)

lemma length_tl_starts: "starts c s \<Longrightarrow> length (tl s) < length s"
  by (cases s) (auto simp: starts_def)

lemma value_body_word:
  assumes "prefix_eq ''null'' s \<or> prefix_eq ''false'' s \<or> prefix_eq ''true'' s"
  shows "\<exists>k c. value_body elements members fp junk item s = Done (c, drop k s) \<and> 0 < k \<and> k \<le> length s"
proof -
  have "length w \<le> length s" if "prefix_eq w s" for w
    using that prefix_eq_length by auto
  from this [of "''null''"] this [of "''false''"] this [of "''true''"] assms show ?thesis
    unfolding value_body_def by auto
qed

lemma value_body_other:
  assumes "\<not> (prefix_eq ''null'' (c # cs) \<or> prefix_eq ''false'' (c # cs) \<or> prefix_eq ''true'' (c # cs))"
  shows "c = 34 \<Longrightarrow> value_body elements members fp junk item (c # cs) = parse_string junk item (c # cs)"
    and "c = 45 \<or> is_dig c \<Longrightarrow> value_body elements members fp junk item (c # cs) = parse_number fp item (c # cs)"
    and "c = 91 \<Longrightarrow> value_body elements members fp junk item (c # cs) =
       (if starts 93 (skip cs) then Done (with_type CJ_Array item, tl (skip cs))
        else bind_result (elements (skip cs)) (\<lambda>(cs, r). Done (with_child cs (with_type CJ_Array item), r)))"
    and "c = 123 \<Longrightarrow> value_body elements members fp junk item (c # cs) =
       (if starts 125 (skip cs) then Done (with_type CJ_Object item, tl (skip cs))
        else bind_result (members (skip cs)) (\<lambda>(cs, r). Done (with_child cs (with_type CJ_Object item), r)))"
    and "\<not> (c = 34 \<or> c = 45 \<or> is_dig c \<or> c = 91 \<or> c = 123) \<Longrightarrow>
       value_body elements members fp junk item (c # cs) = Null"
  using assms by (auto simp: value_body_def Let_def is_dig_def)

lemma value_body_empty: "value_body elements members fp junk item [] = Null"
  by (simp add: value_body_def prefix_eq_def ascii_def)

lemma value_body_shorter:
  assumes el: "\<And>s cs r. elements s = Done (cs, r) \<Longrightarrow> length r < length s"
    and mem: "\<And>s cs r. members s = Done (cs, r) \<Longrightarrow> length r < length s"
    and res: "value_body elements members fp junk item s = Done (c, r)"
  shows "length r < length s"
proof (cases "prefix_eq ''null'' s \<or> prefix_eq ''false'' s \<or> prefix_eq ''true'' s")
  case True
  from value_body_word [OF this] obtain k c' where
    "value_body elements members fp junk item s = Done (c', drop k s)" "0 < k" "k \<le> length s"
    by blast
  with res show ?thesis by auto
next
  case False
  show ?thesis
  proof (cases s)
    case Nil
    with res show ?thesis by (simp add: value_body_empty)
  next
    case (Cons a as)
    note b = value_body_other [OF False [unfolded Cons], of elements members fp junk item]
    note res = res [unfolded Cons]
    have sk: "length (skip as) \<le> length as" by (rule length_skip)
    consider "a = 34" | "a = 45 \<or> is_dig a" | "a = 91" | "a = 123"
      | "\<not> (a = 34 \<or> a = 45 \<or> is_dig a \<or> a = 91 \<or> a = 123)"
      by blast
    then show ?thesis
    proof cases
      case 1
      from res b(1) [OF this] parse_string_shorter [of junk item s c r] show ?thesis by (simp add: Cons)
    next
      case 2
      from res b(2) [OF this] parse_number_shorter [OF _ this] show ?thesis by (simp add: Cons less_Suc_eq_le)
    next
      case 3
      from res b(3) [OF this] sk el [of "skip as"] length_tl_starts [of 93 "skip as"] show ?thesis
        by (fastforce simp: Cons bind_result_Done split: if_splits)
    next
      case 4
      from res b(4) [OF this] sk mem [of "skip as"] length_tl_starts [of 125 "skip as"] show ?thesis
        by (fastforce simp: Cons bind_result_Done split: if_splits)
    next
      case 5
      from res b(5) [OF this] show ?thesis by simp
    qed
  qed
qed

lemma elements_body_shorter:
  assumes val: "\<And>it s c r. val it s = Done (c, r) \<Longrightarrow> length r < length s"
    and el: "\<And>s cs r. elements s = Done (cs, r) \<Longrightarrow> length r < length s"
    and res: "elements_body val elements fp s = Done (cs, r)"
  shows "length r < length s"
proof -
  from res obtain c r1 where v: "val (cJSON_New_Item fp) (skip s) = Done (c, r1)"
    and r: "(if starts 44 (skip r1) then bind_result (elements (tl (skip r1))) (\<lambda>(cs, r'). Done (c # cs, r'))
             else if starts 93 (skip r1) then Done ([c], tl (skip r1)) else Null) = Done (cs, r)"
    by (auto simp: elements_body_def bind_result_Done Let_def)
  have "length r \<le> length (skip r1)"
    using r el [of "tl (skip r1)"] length_tl_starts [of _ "skip r1"]
    by (fastforce simp: bind_result_Done split: if_splits)
  then show ?thesis using val [OF v] length_skip [of r1] length_skip [of s] by simp
qed

lemma members_body_shorter:
  assumes val: "\<And>it s c r. val it s = Done (c, r) \<Longrightarrow> length r < length s"
    and mem: "\<And>s cs r. members s = Done (cs, r) \<Longrightarrow> length r < length s"
    and res: "members_body val members fp junk s = Done (cs, r)"
  shows "length r < length s"
proof -
  from res obtain c0 r0 c r1 where
    n: "parse_string junk (cJSON_New_Item fp) (skip s) = Done (c0, r0)"
    and v: "val (take_name c0) (skip (tl (skip r0))) = Done (c, r1)"
    and r: "(if starts 44 (skip r1) then bind_result (members (tl (skip r1))) (\<lambda>(cs, r'). Done (c # cs, r'))
             else if starts 125 (skip r1) then Done ([c], tl (skip r1)) else Null) = Done (cs, r)"
    by (auto simp: members_body_def bind_result_Done Let_def split: if_splits)
  have "length r \<le> length (skip r1)"
    using r mem [of "tl (skip r1)"] length_tl_starts [of _ "skip r1"]
    by (fastforce simp: bind_result_Done split: if_splits)
  moreover have "length (skip (tl (skip r0))) \<le> length r0"
    using length_skip [of "tl (skip r0)"] length_skip [of r0] by simp
  ultimately show ?thesis
    using val [OF v] parse_string_shorter [OF n] length_skip [of r1] length_skip [of s] by simp
qed

lemma parse_shorter:
  "(\<forall>item s c r. parse_value n fp junk item s = Done (c, r) \<longrightarrow> length r < length s) \<and>
   (\<forall>s cs r. parse_elements n fp junk s = Done (cs, r) \<longrightarrow> length r < length s) \<and>
   (\<forall>s cs r. parse_members n fp junk s = Done (cs, r) \<longrightarrow> length r < length s)"
proof (induction n)
  case 0
  show ?case by simp
next
  case (Suc n)
  note v = Suc [THEN conjunct1, rule_format] and e = Suc [THEN conjunct2, THEN conjunct1, rule_format]
    and m = Suc [THEN conjunct2, THEN conjunct2, rule_format]
  show ?case
  proof (intro conjI allI impI)
    fix item s c r
    assume "parse_value (Suc n) fp junk item s = Done (c, r)"
    from this [unfolded parse_value.simps] show "length r < length s"
      by (rule value_body_shorter [rotated 2]) (erule e, erule m)
  next
    fix s cs r
    assume "parse_elements (Suc n) fp junk s = Done (cs, r)"
    from this [unfolded parse_elements.simps] show "length r < length s"
      by (rule elements_body_shorter [rotated 2]) (erule v, erule e)
  next
    fix s cs r
    assume "parse_members (Suc n) fp junk s = Done (cs, r)"
    from this [unfolded parse_members.simps] show "length r < length s"
      by (rule members_body_shorter [rotated 2]) (erule v, erule m)
  qed
qed

lemmas parse_value_shorter = parse_shorter [THEN conjunct1, rule_format]
lemmas parse_elements_shorter = parse_shorter [THEN conjunct2, THEN conjunct1, rule_format]
lemmas parse_members_shorter = parse_shorter [THEN conjunct2, THEN conjunct2, rule_format]

text \<open>A body asks for fuel only when one of the functions it calls does, on a shorter text.\<close>

lemma value_body_fuel:
  assumes res: "value_body elements members fp junk item s = Fuel"
  shows "\<exists>t. length t < length s \<and> (elements t = Fuel \<or> members t = Fuel)"
proof (cases "prefix_eq ''null'' s \<or> prefix_eq ''false'' s \<or> prefix_eq ''true'' s")
  case True
  from value_body_word [OF this, of elements members fp junk item] res show ?thesis by auto
next
  case False
  show ?thesis
  proof (cases s)
    case Nil
    with res show ?thesis by (simp add: value_body_empty)
  next
    case (Cons a as)
    note b = value_body_other [OF False [unfolded Cons], of elements members fp junk item]
    note res = res [unfolded Cons]
    have sk: "length (skip as) < length s" using length_skip [of as] by (simp add: Cons)
    consider "a = 34" | "a = 45 \<or> is_dig a" | "a = 91" | "a = 123"
      | "\<not> (a = 34 \<or> a = 45 \<or> is_dig a \<or> a = 91 \<or> a = 123)"
      by blast
    then show ?thesis
    proof cases
      case 1
      from res b(1) [OF this] show ?thesis by (simp add: parse_string_not_fuel)
    next
      case 2
      from res b(2) [OF this] show ?thesis by (simp add: parse_number_not_fuel)
    next
      case 3
      from res b(3) [OF this] sk show ?thesis
        by (auto simp: bind_result_Fuel split: if_splits)
    next
      case 4
      from res b(4) [OF this] sk show ?thesis
        by (auto simp: bind_result_Fuel split: if_splits)
    next
      case 5
      from res b(5) [OF this] show ?thesis by simp
    qed
  qed
qed

lemma elements_body_fuel:
  assumes val: "\<And>it s c r. val it s = Done (c, r) \<Longrightarrow> length r < length s"
    and res: "elements_body val elements fp s = Fuel"
  shows "(\<exists>it t. length t \<le> length s \<and> val it t = Fuel) \<or> (\<exists>t. length t < length s \<and> elements t = Fuel)"
proof (cases "val (cJSON_New_Item fp) (skip s) = Fuel")
  case True
  then show ?thesis using length_skip by blast
next
  case False
  with res obtain c r1 where v: "val (cJSON_New_Item fp) (skip s) = Done (c, r1)"
    and e: "starts 44 (skip r1)" "elements (tl (skip r1)) = Fuel"
    by (auto simp: elements_body_def bind_result_Fuel Let_def split: if_splits)
  have "length (tl (skip r1)) < length s"
    using val [OF v] length_skip [of r1] length_skip [of s] by simp
  with e show ?thesis by blast
qed

lemma members_body_fuel:
  assumes val: "\<And>it s c r. val it s = Done (c, r) \<Longrightarrow> length r < length s"
    and res: "members_body val members fp junk s = Fuel"
  shows "(\<exists>it t. length t < length s \<and> val it t = Fuel) \<or> (\<exists>t. length t < length s \<and> members t = Fuel)"
proof -
  from res obtain c0 r0 where n: "parse_string junk (cJSON_New_Item fp) (skip s) = Done (c0, r0)"
    and rest: "val (take_name c0) (skip (tl (skip r0))) = Fuel \<or>
      (\<exists>c r1. val (take_name c0) (skip (tl (skip r0))) = Done (c, r1) \<and> members (tl (skip r1)) = Fuel)"
    by (auto simp: members_body_def bind_result_Fuel parse_string_not_fuel Let_def split: if_splits)
  have "length (skip (tl (skip r0))) < length s"
    using length_skip [of "tl (skip r0)"] length_skip [of r0] parse_string_shorter [OF n] length_skip [of s]
    by simp
  moreover have "length (tl (skip r1)) < length s"
    if "val (take_name c0) (skip (tl (skip r0))) = Done (c, r1)" for c r1
    using val [OF that] length_skip [of r1] calculation by simp
  ultimately show ?thesis using rest by blast
qed

lemma parse_enough_fuel:
  "(\<forall>item s. 2 * length s < n \<longrightarrow> parse_value n fp junk item s \<noteq> Fuel) \<and>
   (\<forall>s. 2 * length s + 1 < n \<longrightarrow> parse_elements n fp junk s \<noteq> Fuel) \<and>
   (\<forall>s. 2 * length s + 1 < n \<longrightarrow> parse_members n fp junk s \<noteq> Fuel)"
proof (induction n)
  case 0
  show ?case by simp
next
  case (Suc n)
  note v = Suc [THEN conjunct1, rule_format] and e = Suc [THEN conjunct2, THEN conjunct1, rule_format]
    and m = Suc [THEN conjunct2, THEN conjunct2, rule_format]
  show ?case
  proof (intro conjI allI impI notI)
    fix item s
    assume n: "2 * length s < Suc n" and "parse_value (Suc n) fp junk item s = Fuel"
    from value_body_fuel [OF this(2) [unfolded parse_value.simps]] obtain t where
      "length t < length s" "parse_elements n fp junk t = Fuel \<or> parse_members n fp junk t = Fuel"
      by blast
    with n e [of t] m [of t] show False by auto
  next
    fix s
    assume n: "2 * length s + 1 < Suc n" and "parse_elements (Suc n) fp junk s = Fuel"
    from this(2) [unfolded parse_elements.simps]
    have "(\<exists>it t. length t \<le> length s \<and> parse_value n fp junk it t = Fuel) \<or>
      (\<exists>t. length t < length s \<and> parse_elements n fp junk t = Fuel)"
      by (rule elements_body_fuel [rotated]) (erule parse_value_shorter)
    then show False
    proof (elim disjE exE conjE)
      fix it t assume "length t \<le> length s" "parse_value n fp junk it t = Fuel"
      with n v [of t it] show False by auto
    next
      fix t assume "length t < length s" "parse_elements n fp junk t = Fuel"
      with n e [of t] show False by auto
    qed
  next
    fix s
    assume n: "2 * length s + 1 < Suc n" and "parse_members (Suc n) fp junk s = Fuel"
    from this(2) [unfolded parse_members.simps]
    have "(\<exists>it t. length t < length s \<and> parse_value n fp junk it t = Fuel) \<or>
      (\<exists>t. length t < length s \<and> parse_members n fp junk t = Fuel)"
      by (rule members_body_fuel [rotated]) (erule parse_value_shorter)
    then show False
    proof (elim disjE exE conjE)
      fix it t assume "length t < length s" "parse_value n fp junk it t = Fuel"
      with n v [of t it] show False by auto
    next
      fix t assume "length t < length s" "parse_members n fp junk t = Fuel"
      with n m [of t] show False by auto
    qed
  qed
qed


section \<open>The buffer of a string\<close>

lemma unescape_plain:
  "\<forall>c \<in> set xs. c \<noteq> 34 \<and> c \<noteq> 92 \<Longrightarrow> unescape (xs @ [34]) uc uc2 = Some (xs, [34])"
  by (induction xs arbitrary: uc uc2) (auto simp: unescape_simps)

lemma overflow_after_unicode:
  assumes "\<forall>c \<in> set xs. c \<noteq> 34 \<and> c \<noteq> 92" and "2 \<le> length xs"
  shows "parse_string junk item ([34, 92, 117, 34, a, b, c] @ xs @ [34]) = Undef"
proof -
  let ?es = "[34, a, b, c] @ xs @ [34]"
  have len: "scan_len (tl ([34, 92, 117, 34, a, b, c] @ xs @ [34])) = Some 1" by simp
  obtain x xs' where x: "xs = x # xs'" "x \<noteq> 92" using assms by (cases xs) auto
  have "unescape_u ?es uc uc2 = None \<or> (\<exists>bs uc' uc2'. unescape_u ?es uc uc2 = Some (bs, xs @ [34], uc', uc2'))"
    for uc uc2
    using x by (auto simp: unescape_u_def Let_def starts_def split: prod.split)
  note esc = this
  have u: "unescape (92 # 117 # ?es) uc uc2 = None \<or>
      (\<exists>bs. unescape (92 # 117 # ?es) uc uc2 = Some (bs @ xs, [34]))" for uc uc2
    using esc [of uc uc2] unfolding unescape_simps
    by (elim disjE exE) (simp_all only: unescape_plain [OF assms(1)] option.case option.map split, auto)
  have tl: "tl ([34, 92, 117, 34, a, b, c] @ xs @ [34]) = 92 # 117 # ?es" by simp
  from u [of "fst junk" "snd junk"] show ?thesis
    using assms(2) unfolding parse_string_def len unfolding tl by (auto simp: starts_def)
qed

text \<open>A \<open>\u\<close> escape whose four characters run over the closing quote makes \<open>parse_string\<close>
  write past the buffer it allocated, whatever the uninitialised variables held: the first loop stops at
  the quote, the second one jumps over it and goes on copying.\<close>

theorem cjson_unicode_escape_overflow:
  assumes "\<forall>c \<in> set xs. c \<noteq> 34 \<and> c \<noteq> 92" and "2 \<le> length xs"
  shows "parse_string junk item ([34, 92, 117, 34, a, b, c] @ xs @ [34]) = Undef"
  by (rule overflow_after_unicode [OF assms])

theorem cjson_unicode_escape_overflow_witness:
  "parse_string (0, 0) (CJson CJ_NULL False None 0 (0 :: int) 0 None []) [34, 92, 117, 34, 44, 32, 34, 120, 121, 122, 34] = Undef"
  using cjson_unicode_escape_overflow [of "[120, 121, 122]" "(0, 0)" "CJson CJ_NULL False None 0 (0 :: int) 0 None []" 44 32 34]
  by simp

end
