(* ===== verification/CJson_Roundtrip.thy ===== *)
theory CJson_Roundtrip
  imports CJson_Total
begin

text \<open>
  Printing and parsing are inverse: \<open>jval\<close> is the JSON value an item stands for, \<open>of_jval\<close> the item
  \<open>cJSON_Parse\<close> builds for it, and every such item, printed with or without formatting, is parsed back
  to itself. Numbers with a fraction or an exponent are left to the floating point parameter.
\<close>

section \<open>JSON values\<close>

datatype jval = JNull | JBool bool | JInt int | JStr "byte list" | JArr "jval list"
  | JObj "(byte list \<times> jval) list"

fun of_jval :: "'d fpu \<Rightarrow> byte list option \<Rightarrow> jval \<Rightarrow> 'd cjson" where
  "of_jval fp nm JNull = CJson CJ_NULL False None 0 (dbl_zero fp) 0 nm []"
| "of_jval fp nm (JBool b) =
     (if b then CJson CJ_True False None 1 (dbl_zero fp) 0 nm [] else CJson CJ_False False None 0 (dbl_zero fp) 0 nm [])"
| "of_jval fp nm (JInt i) =
     CJson CJ_Int False None (of_int i) (dbl_of_u64 fp (of_int i)) (if i < 0 then -1 else 1) nm []"
| "of_jval fp nm (JStr s) = CJson CJ_String False (Some s) 0 (dbl_zero fp) 0 nm []"
| "of_jval fp nm (JArr js) = CJson CJ_Array False None 0 (dbl_zero fp) 0 nm (map (of_jval fp None) js)"
| "of_jval fp nm (JObj ms) =
     CJson CJ_Object False None 0 (dbl_zero fp) 0 nm (map (\<lambda>(n, j). of_jval fp (Some n) j) ms)"

text \<open>The numbers fit \<open>int64\<close> or \<open>uint64\<close>, and no string has a zero byte.\<close>

fun wf_jval :: "jval \<Rightarrow> bool" where
  "wf_jval (JInt i) = (- (2 ^ 63) \<le> i \<and> i < 2 ^ 64)"
| "wf_jval (JStr s) = (0 \<notin> set s)"
| "wf_jval (JArr js) = (\<forall>j \<in> set js. wf_jval j)"
| "wf_jval (JObj ms) = (\<forall>(n, j) \<in> set ms. 0 \<notin> set n \<and> wf_jval j)"
| "wf_jval _ = True"

text \<open>The item a parser fills: fresh, but for its name.\<close>

definition blank :: "'d fpu \<Rightarrow> ctype \<Rightarrow> byte list option \<Rightarrow> 'd cjson" where
  "blank fp t nm = CJson t False None 0 (dbl_zero fp) 0 nm []"

definition solid :: "byte list \<Rightarrow> bool" where
  "solid s \<longleftrightarrow> (case s of [] \<Rightarrow> False | c # _ \<Rightarrow> 32 < c \<and> c \<noteq> 93 \<and> c \<noteq> 125)"

definition delim :: "byte list \<Rightarrow> bool" where
  "delim s \<longleftrightarrow> (case s of [] \<Rightarrow> True | c # _ \<Rightarrow> c \<in> {44, 93, 125, 10})"

lemma delim_simps [simp]: "delim []" "delim (c # s) \<longleftrightarrow> c \<in> {44, 93, 125, 10}"
  by (simp_all add: delim_def)

lemma solid_simps [simp]: "\<not> solid []" "solid (c # s) \<longleftrightarrow> 32 < c \<and> c \<noteq> 93 \<and> c \<noteq> 125"
  by (simp_all add: solid_def)

lemma solid_append: "solid s \<Longrightarrow> solid (s @ t)"
  by (cases s) auto

lemma skip_solid: "solid s \<Longrightarrow> skip s = s"
  by (cases s) auto

lemma solid_starts: "solid s \<Longrightarrow> \<not> starts 93 s \<and> \<not> starts 125 s"
  by (cases s) (auto simp: starts_def)

lemma skip_tabs: "skip (replicate k 9 @ s) = skip s"
  by (induction k) auto

lemma skip_indent: "skip ((if fmt then replicate k 9 else []) @ s) = skip s"
  by (simp add: skip_tabs)

lemma skip_space: "skip ((if fmt then [9] else []) @ s) = skip s"
  by simp

section \<open>Numbers\<close>

lemma unat_of_char: "unat (of_nat (of_char c) :: byte) = of_char c"
proof -
  have "(of_char c :: nat) < 256" by simp
  then show ?thesis by (simp add: unat_of_nat)
qed

lemma is_dig_ascii: "(\<forall>c \<in> set s. is_digit c) \<longleftrightarrow> (\<forall>c \<in> set (ascii s). is_dig c)"
  by (simp add: ascii_def is_digit_def is_dig_def word_le_nat_alt unat_of_char)

lemma digits_val_ascii: "\<forall>c \<in> set s. is_digit c \<Longrightarrow> digits_val n (ascii s) = undec n s"
  by (induction s arbitrary: n) (auto simp: digits_val_def ascii_def dig_val_def unat_of_char)

lemma hd_dec: "0 < n \<Longrightarrow> \<exists>d s. dec n = digit_char d # s \<and> 0 < d \<and> d < 10"
proof (induction n rule: dec.induct)
  case (1 n)
  show ?case
  proof (cases "n < 10")
    case True
    with "1.prems" show ?thesis by (subst dec.simps) auto
  next
    case False
    then have "0 < n div 10" by simp
    moreover have "dec n = dec (n div 10) @ [digit_char (n mod 10)]"
      using False by (subst dec.simps) simp
    ultimately show ?thesis using "1.IH" [OF False] by auto
  qed
qed

lemma delim_not_number: "delim r \<Longrightarrow> \<not> starts 46 r \<and> \<not> starts 101 r \<and> \<not> starts 69 r \<and> (r = [] \<or> \<not> is_dig (hd r))"
  by (cases r) (auto simp: starts_def is_dig_def)

lemma takeWhile_digits:
  assumes "\<forall>c \<in> set ds. is_dig c" and "delim r"
  shows "takeWhile is_dig (ds @ r) = ds" and "dropWhile is_dig (ds @ r) = r"
proof -
  have r: "takeWhile is_dig r = []" "dropWhile is_dig r = r"
    using delim_not_number [OF assms(2)] by (cases r; auto)+
  show "takeWhile is_dig (ds @ r) = ds" using assms(1) r by (simp add: takeWhile_append2)
  show "dropWhile is_dig (ds @ r) = r" using assms(1) r by (simp add: dropWhile_append2)
qed

lemma frac_digits_delim: "delim r \<Longrightarrow> frac_digits r = ([], r)"
  using delim_not_number [of r] by (auto simp: frac_digits_def starts_def split: list.split)

lemma exp_part_delim: "delim r \<Longrightarrow> exp_part r = (False, [], r)"
  using delim_not_number [of r] by (simp add: exp_part_def)

text \<open>The digits of a number after the sign.\<close>

lemma int_digits_dec:
  assumes "delim r"
  shows "int_digits (if starts 48 (ascii (dec n) @ r) then tl (ascii (dec n) @ r) else ascii (dec n) @ r) =
     (if n = 0 then [] else ascii (dec n), r)"
proof (cases "n = 0")
  case True
  have "ascii (dec 0) = [48]" by (simp add: dec.simps [of 0] ascii_def digit_char_def)
  moreover have "int_digits r = ([], r)"
    using delim_not_number [OF assms] assms by (cases r) (auto simp: int_digits_def)
  ultimately show ?thesis using True by (simp add: starts_def)
next
  case False
  then obtain d s where d: "dec n = digit_char d # s" "0 < d" "d < 10" using hd_dec [of n] by blast
  let ?c = "of_nat (of_char (digit_char d)) :: byte"
  have c: "unat ?c = 48 + d" by (rule trans [OF unat_of_char of_digit_char [OF d(3)]])
  have "\<forall>c \<in> set (ascii (dec n)). is_dig c" using dec_digits is_dig_ascii by blast
  note tw = takeWhile_digits [OF this assms]
  have a: "ascii (dec n) = ?c # ascii s" by (simp add: d ascii_def)
  have ge: "49 \<le> ?c" "?c \<le> 57" using c d by (simp_all add: word_le_nat_alt)
  moreover have "?c \<noteq> 48" using ge by auto
  ultimately show ?thesis using False tw by (simp add: a starts_def int_digits_def)
qed

lemma parse_number_dec:
  assumes "delim r" and "n < 2 ^ 64" and "sg = 1 \<or> sg = -1"
  shows "parse_number fp (blank fp t nm) ((if sg = -1 then [45] else []) @ ascii (dec n) @ r) =
     Done (CJson CJ_Int False None (if sg = -1 then - of_nat n else of_nat n)
       (dbl_of_u64 fp (if sg = -1 then - of_nat n else of_nat n)) sg nm [], r)"
proof -
  have "digits_val 0 (if n = 0 then [] else ascii (dec n)) = n"
    by (simp add: digits_val_ascii dec_digits undec_dec) (simp add: digits_val_def)
  moreover have "\<not> starts 45 (ascii (dec n) @ r)"
  proof -
    have "ascii (dec n) \<noteq> []" by (simp add: ascii_def)
    moreover have "is_dig (hd (ascii (dec n)))"
      using dec_digits [of n] is_dig_ascii [of "dec n"] calculation hd_in_set by blast
    ultimately show ?thesis by (cases "ascii (dec n)") (auto simp: starts_def is_dig_def)
  qed
  moreover have "starts 45 (45 # x)" for x :: "byte list" by (simp add: starts_def)
  ultimately show ?thesis
    using assms(2,3) int_digits_dec [OF assms(1), of n] frac_digits_delim [OF assms(1)] exp_part_delim [OF assms(1)]
    by (auto simp: parse_number_def Let_def blank_def u64_of_digits_def digits_val_def)
qed

section \<open>Strings\<close>

lemma unat_hex4: "d < 16 \<Longrightarrow> unat (hex4 d) = (if d < 10 then 48 + d else 87 + d)"
  by (simp add: hex4_def unat_of_nat)

lemma hex_val_hex4: "d < 16 \<Longrightarrow> hex_val (hex4 d) = Some d"
  by (auto simp: hex_val_def Let_def unat_hex4)

lemma hex4_neq: "d < 16 \<Longrightarrow> hex4 d \<noteq> 34 \<and> hex4 d \<noteq> 92"
  by (auto simp: word_unat_eq_iff unat_hex4 split: if_splits)

lemma sscanf_hex4:
  assumes "unat c < 32"
  shows "sscanf_4x (48 # 48 # hex4 (unat c div 16) # hex4 (unat c mod 16) # r) old = ucast c"
proof -
  have "hex_val 48 = Some 0" by (simp add: hex_val_def)
  moreover have "hex_val (hex4 (unat c div 16)) = Some (unat c div 16)"
    "hex_val (hex4 (unat c mod 16)) = Some (unat c mod 16)"
    by (rule hex_val_hex4, use assms in simp)+
  moreover have "(of_nat (unat c) :: u32) = ucast c" by (simp add: unsigned_ucast_eq)
  ultimately show ?thesis
    by (simp add: sscanf_4x_def white_def starts_def Let_def mult.commute [of 16])
qed

lemma unescape_u_control:
  assumes "c < 32" and "c \<noteq> 0"
  shows "unescape_u (48 # 48 # hex4 (unat c div 16) # hex4 (unat c mod 16) # r) uc uc2 =
    Some ([c], r, ucast c, uc2)"
proof -
  have c: "unat c < 32" using assms(1) by (simp add: word_less_nat_alt)
  have u: "unat (ucast c :: u32) = unat c" by simp
  have "(ucast c :: u32) < 0x80" "\<not> 0xDC00 \<le> (ucast c :: u32)" "\<not> 0xD800 \<le> (ucast c :: u32)" "(ucast c :: u32) \<noteq> 0"
    using c assms(2) u by (simp_all only: word_less_nat_alt word_le_nat_alt word_unat_eq_iff) simp_all
  moreover have "(ucast (ucast c :: u32) :: byte) = c"
    by (rule bit_word_eqI) (simp add: bit_simps)
  ultimately show ?thesis
    by (simp add: unescape_u_def sscanf_hex4 [OF c] Let_def utf8_len_def firstByteMark_def)
qed

lemma escape_char_cases:
  obtains "31 < c" "c \<noteq> 34" "c \<noteq> 92" "escape_char c = [c]"
  | e where "e \<noteq> 117" "e \<in> {92, 34, 98, 102, 110, 114, 116}" "escape_char c = [92, e]" "simple_escape e = c"
  | "c < 32" "escape_char c = [92, 117, 48, 48, hex4 (unat c div 16), hex4 (unat c mod 16)]"
proof (cases "c > 31 \<and> c \<noteq> 34 \<and> c \<noteq> 92")
  case True
  then show ?thesis using that(1) by (simp add: escape_char_def)
next
  case False
  show ?thesis
  proof (cases "c \<in> {92, 34, 8, 12, 10, 13, 9}")
    case True
    then show ?thesis using that(2) by (auto simp: escape_char_def simple_escape_def)
  next
    case F: False
    with False have "c \<le> 31" by auto
    then have "c < 32" by (simp add: word_less_nat_alt word_le_nat_alt)
    then show ?thesis using that(3) False F by (simp add: escape_char_def)
  qed
qed

lemma unescape_escape:
  "0 \<notin> set s \<Longrightarrow> unescape (concat (map escape_char s) @ 34 # r) uc uc2 = Some (s, 34 # r)"
proof (induction s arbitrary: uc uc2)
  case Nil
  show ?case by (simp add: unescape_simps)
next
  case (Cons c s)
  then have IH: "unescape (concat (map escape_char s) @ 34 # r) uc uc2 = Some (s, 34 # r)" for uc uc2
    by simp
  show ?case
  proof (cases c rule: escape_char_cases)
    case 1
    then show ?thesis by (simp add: unescape_simps IH)
  next
    case (2 e)
    then show ?thesis by (simp only: list.map concat.simps append.simps) (simp add: unescape_simps IH)
  next
    case 3
    have "c \<noteq> 0" using Cons.prems by auto
    with 3 show ?thesis by (simp add: unescape_simps unescape_u_control IH)
  qed
qed

lemma scan_len_escape:
  "\<exists>k. scan_len (concat (map escape_char s) @ 34 # r) = Some k \<and> length s \<le> k"
proof (induction s)
  case Nil
  show ?case by simp
next
  case (Cons c s)
  then obtain k where k: "scan_len (concat (map escape_char s) @ 34 # r) = Some k" "length s \<le> k"
    by blast
  show ?case
  proof (cases c rule: escape_char_cases)
    case 1
    with k show ?thesis by simp
  next
    case (2 e)
    with k show ?thesis by simp
  next
    case 3
    have "unat c < 32" using 3(1) by (simp add: word_less_nat_alt)
    then have "hex4 (unat c div 16) \<noteq> 34" "hex4 (unat c div 16) \<noteq> 92"
      "hex4 (unat c mod 16) \<noteq> 34" "hex4 (unat c mod 16) \<noteq> 92"
      using hex4_neq [of "unat c div 16"] hex4_neq [of "unat c mod 16"] by auto
    with 3 k show ?thesis by simp
  qed
qed

lemma parse_print_string:
  assumes "0 \<notin> set s"
  shows "parse_string junk item (print_string_ptr (Some s) @ r) =
    Done (CJson CJ_String (isref item) (Some s) (valueint item) (valuedouble item) (csign item) (cname item)
      (child item), r)"
proof -
  have "takeWhile (\<lambda>c. c \<noteq> 0) s = s" unfolding takeWhile_eq_all_conv using assms by auto
  then have p: "print_string_ptr (Some s) @ r = 34 # concat (map escape_char s) @ 34 # r"
    unfolding print_string_ptr_def by (simp only: option.case append_Cons append_Nil append_assoc)
  obtain k where k: "scan_len (concat (map escape_char s) @ 34 # r) = Some k" "length s \<le> k"
    using scan_len_escape by blast
  have "starts 34 (34 # x)" for x :: "byte list" by (simp add: starts_def)
  with k show ?thesis unfolding p parse_string_def
    by (simp add: unescape_escape [OF assms])
qed

lemma print_string_solid: "solid (print_string_ptr (Some s))"
  by (simp add: print_string_ptr_def)

section \<open>Values\<close>

definition text_of :: "'d fpu \<Rightarrow> nat \<Rightarrow> bool \<Rightarrow> jval \<Rightarrow> byte list" where
  "text_of fp d fmt j = print_value fp d fmt (of_jval fp None j)"

definition member_text :: "'d fpu \<Rightarrow> nat \<Rightarrow> bool \<Rightarrow> byte list \<times> jval \<Rightarrow> byte list \<times> byte list" where
  "member_text fp d fmt m = (print_string_ptr (Some (fst m)), text_of fp d fmt (snd m))"

lemma print_of_jval: "print_value fp d fmt (of_jval fp nm j) = text_of fp d fmt j"
  unfolding text_of_def by (cases j) (simp_all add: print_int_def split_def)

lemma cname_of_jval [simp]: "cname (of_jval fp nm j) = nm"
  by (cases j) simp_all

lemma print_int_jval:
  assumes "- (2 ^ 63) \<le> i" and "i < 2 ^ 64"
  shows "print_int (CJson t rf vs (of_int i) vd (if i < 0 then -1 else 1) nm cs) =
    (if i < 0 then [45] else []) @ ascii (dec (nat \<bar>i\<bar>))"
proof (cases "i < 0")
  case True
  have "sint (of_int i :: u64) = i"
    using True assms(1) by (simp add: signed_of_int signed_take_bit_int_eq_self)
  moreover have "\<not> ((of_int i :: u64) \<le> 0x7FFFFFFF \<and> (of_int i :: u64) \<ge> 0xFFFFFFFF80000000)"
    by (auto dest: order.trans)
  ultimately have "print_int (CJson t rf vs (of_int i) vd (if i < 0 then -1 else 1) nm cs) = ascii (fmt_d i)"
    by (simp only: print_int_def Let_def cjson.sel True if_True if_False refl)
  then show ?thesis using True by (simp add: fmt_d_def ascii_def)
next
  case False
  then have w: "(of_int i :: u64) = of_nat (nat i)" by simp
  have i: "unat (of_int i :: u64) = nat i"
    unfolding w unat_of_nat using assms(2) False by (simp add: nat_less_iff)
  moreover have "unat (ucast (of_int i :: u64) :: u32) = nat i" if "(of_int i :: u64) \<le> 0xFFFFFFFF"
    using that i by (simp add: unsigned_ucast_eq take_bit_nat_eq_self word_le_nat_alt)
  ultimately show ?thesis using False by (simp add: print_int_def Let_def)
qed

lemma text_of_simps:
  "text_of fp d fmt JNull = ascii ''null''"
  "text_of fp d fmt (JBool b) = ascii (if b then ''true'' else ''false'')"
  "wf_jval (JInt i) \<Longrightarrow> text_of fp d fmt (JInt i) = (if i < 0 then [45] else []) @ ascii (dec (nat \<bar>i\<bar>))"
  "text_of fp d fmt (JStr s) = print_string_ptr (Some s)"
  "text_of fp d fmt (JArr js) = [91] @ join_elements fmt (map (text_of fp (d + 1) fmt) js) @ [93]"
  "text_of fp d fmt (JObj ms) = [123] @ (if fmt then [10] else []) @
     join_members (d + 1) fmt (map (member_text fp (d + 1) fmt) ms) @ (if fmt then replicate d 9 else []) @ [125]"
  by (simp_all add: text_of_def [of fp d] print_int_jval print_of_jval comp_def split_def member_text_def cong: map_cong)

lemma hd_dec_is_dig: "\<exists>c cs. ascii (dec n) = c # cs \<and> is_dig c"
proof -
  have "ascii (dec n) \<noteq> []" by (simp add: ascii_def)
  moreover have "\<forall>c \<in> set (ascii (dec n)). is_dig c" using dec_digits is_dig_ascii by blast
  ultimately show ?thesis by (cases "ascii (dec n)") auto
qed

lemma dec_solid: "solid (ascii (dec n) @ r)"
  using hd_dec_is_dig [of n] by (auto simp: is_dig_def word_le_nat_alt word_less_nat_alt)

lemma text_of_solid: "wf_jval j \<Longrightarrow> solid (text_of fp d fmt j @ r)"
  proof (cases j)
  case (JInt i)
  assume "wf_jval j"
  with JInt dec_solid show ?thesis by (simp add: text_of_simps del: wf_jval.simps)
qed (auto simp: text_of_simps solid_append print_string_solid ascii_def)

lemma prefix_eq_first: "prefix_eq (a # w) (c # s) \<Longrightarrow> c = of_nat (of_char a)"
  by (auto simp: prefix_eq_def ascii_def)

lemma no_word:
  assumes "c \<notin> {110, 102, 116}"
  shows "\<not> (prefix_eq ''null'' (c # cs) \<or> prefix_eq ''false'' (c # cs) \<or> prefix_eq ''true'' (c # cs))"
  using assms by (auto dest!: prefix_eq_first)

lemma prefix_eq_append: "prefix_eq w (ascii w @ r)"
  by (simp add: prefix_eq_def ascii_def)

lemma join_elements_solid:
  "js \<noteq> [] \<Longrightarrow> \<forall>j \<in> set js. wf_jval j \<Longrightarrow> solid (join_elements fmt (map (text_of fp d fmt) js) @ r)"
  by (cases "(fmt, map (text_of fp d fmt) js)" rule: join_elements.cases)
    (auto simp: solid_append text_of_solid [where r = "[]", simplified])

lemma skip_members:
  assumes "x = join_members d fmt (map (member_text fp d fmt) ((nm, j) # ms)) @ r"
  shows "skip x = print_string_ptr (Some nm) @ 58 # (if fmt then [9] else []) @ text_of fp d fmt j @
    (if ms = [] then [] else [44]) @ (if fmt then [10] else []) @
    join_members d fmt (map (member_text fp d fmt) ms) @ r"
    and "solid (skip x)"
proof -
  let ?y = "print_string_ptr (Some nm) @ 58 # (if fmt then [9] else []) @ text_of fp d fmt j @
    (if ms = [] then [] else [44]) @ (if fmt then [10] else []) @
    join_members d fmt (map (member_text fp d fmt) ms) @ r"
  have y: "solid ?y" using solid_append [OF print_string_solid] by blast
  have "x = (if fmt then replicate d 9 else []) @ ?y" by (simp add: assms member_text_def)
  then show "skip x = ?y" by (simp only: skip_indent skip_solid [OF y])
  with y show "solid (skip x)" by simp
qed

definition fits :: "'a presult \<Rightarrow> 'a \<Rightarrow> bool" where
  "fits m x \<longleftrightarrow> m = Fuel \<or> m = Done x"

lemma fits_simps [simp]: "fits Fuel x" "fits (Done y) x \<longleftrightarrow> y = x"
  by (auto simp: fits_def)

lemma fits_bind: "fits m x \<Longrightarrow> fits (f x) y \<Longrightarrow> fits (bind_result m f) y"
  by (auto simp: fits_def)

text \<open>One level of the recursion, for the values inside a value.\<close>

lemma value_body_print:
  assumes el: "\<And>d js s r. js \<noteq> [] \<Longrightarrow> \<forall>j \<in> set js. wf_jval j \<Longrightarrow>
      skip s = join_elements fmt (map (text_of fp d fmt) js) @ 93 # r \<Longrightarrow>
      fits (elements s) (map (of_jval fp None) js, r)"
    and mem: "\<And>k d ms s r. ms \<noteq> [] \<Longrightarrow> \<forall>(n, j) \<in> set ms. 0 \<notin> set n \<and> wf_jval j \<Longrightarrow>
      skip s = skip (join_members d fmt (map (member_text fp d fmt) ms) @ (if fmt then replicate k 9 else []) @ 125 # r) \<Longrightarrow>
      fits (members s) (map (\<lambda>(n, j). of_jval fp (Some n) j) ms, r)"
    and wf: "wf_jval j" and r: "delim r"
  shows "fits (value_body elements members fp junk (blank fp t nm) (text_of fp d fmt j @ r)) (of_jval fp nm j, r)"
proof (cases j)
  case JNull
  then show ?thesis
    by (simp add: text_of_simps value_body_def prefix_eq_append blank_def with_type_def) (simp add: ascii_def)
next
  case (JBool b)
  then show ?thesis
    by (simp add: text_of_simps value_body_def prefix_eq_append blank_def with_type_def)
      (simp add: ascii_def prefix_eq_def)
next
  case (JInt i)
  let ?sg = "if i < 0 then -1 else 1 :: int"
  have b: "i < 2 ^ 64" "- (2 ^ 63) \<le> i" using wf JInt by auto
  then have "nat \<bar>i\<bar> < 2 ^ 64" by auto
  from parse_number_dec [OF r this, of ?sg fp t nm]
  have p: "parse_number fp (blank fp t nm) (text_of fp d fmt j @ r) = Done (of_jval fp nm j, r)"
    using wf by (simp add: JInt text_of_simps del: wf_jval.simps) auto
  obtain c cs where c: "text_of fp d fmt j @ r = c # cs" "c = 45 \<or> is_dig c"
    using that [of 45] JInt wf hd_dec_is_dig [of "nat \<bar>i\<bar>"] that
    by (cases "i < 0") (auto simp: text_of_simps simp del: wf_jval.simps)
  then have "c \<notin> {110, 102, 116}" by (auto simp: is_dig_def)
  from value_body_other(2) [OF no_word [OF this] c(2), where elements = elements and members = members and
    junk = junk and fp = fp and item = "blank fp t nm"] p show ?thesis by (simp add: c(1))
next
  case (JStr s)
  then have "text_of fp d fmt j @ r = 34 # tl (print_string_ptr (Some s)) @ r"
    by (simp add: text_of_simps print_string_ptr_def)
  moreover have "parse_string junk (blank fp t nm) (text_of fp d fmt j @ r) = Done (of_jval fp nm j, r)"
    using wf parse_print_string [of s junk "blank fp t nm" r] by (simp add: JStr text_of_simps blank_def)
  ultimately show ?thesis
    using value_body_other(1) [OF no_word, where c = 34 and elements = elements and
      members = members and junk = junk and fp = fp and item = "blank fp t nm"] by simp
next
  case (JArr js)
  let ?t = "join_elements fmt (map (text_of fp (d + 1) fmt) js) @ 93 # r"
  have b: "value_body elements members fp junk (blank fp t nm) (text_of fp d fmt j @ r) =
    (if starts 93 (skip ?t) then Done (blank fp CJ_Array nm, tl (skip ?t))
     else bind_result (elements (skip ?t)) (\<lambda>(cs, r). Done (with_child cs (blank fp CJ_Array nm), r)))"
    using value_body_other(3) [OF no_word, where c = 91 and cs = "?t" and elements = elements and
      members = members and junk = junk and fp = fp and item = "blank fp t nm"]
    by (simp add: JArr text_of_simps blank_def with_type_def)
  show ?thesis
  proof (cases "js = []")
    case True
    then show ?thesis unfolding b by (simp add: starts_def JArr blank_def)
  next
    case False
    have js: "\<forall>j \<in> set js. wf_jval j" using wf JArr by simp
    note sol = join_elements_solid [OF False js, of fmt fp "d + 1" "93 # r"]
    have "fits (elements (skip ?t)) (map (of_jval fp None) js, r)"
      by (rule el [OF False js, of _ "d + 1"]) (simp only: skip_solid [OF sol])
    moreover have "\<not> starts 93 (skip ?t)" using solid_starts [OF sol] skip_solid [OF sol] by simp
    ultimately show ?thesis
      by (simp only: b if_False) (erule fits_bind, simp add: with_child_def blank_def JArr)
  qed
next
  case (JObj ms)
  let ?u = "join_members (d + 1) fmt (map (member_text fp (d + 1) fmt) ms) @ (if fmt then replicate d 9 else []) @ 125 # r"
  have "skip ((if fmt then [10] else []) @ ?u) = skip ?u" by simp
  then have b: "value_body elements members fp junk (blank fp t nm) (text_of fp d fmt j @ r) =
    (if starts 125 (skip ?u) then Done (blank fp CJ_Object nm, tl (skip ?u))
     else bind_result (members (skip ?u)) (\<lambda>(cs, r). Done (with_child cs (blank fp CJ_Object nm), r)))"
    using value_body_other(4) [OF no_word, where c = 123 and cs = "(if fmt then [10] else []) @ ?u" and elements = elements and
      members = members and junk = junk and fp = fp and item = "blank fp t nm"]
    by (simp add: JObj text_of_simps blank_def with_type_def)
  show ?thesis
  proof (cases ms)
    case Nil
    then show ?thesis unfolding b by (simp add: starts_def JObj blank_def skip_tabs)
  next
    case (Cons m ms')
    then have ms: "ms \<noteq> []" "\<forall>(n, j) \<in> set ms. 0 \<notin> set n \<and> wf_jval j" using wf JObj by simp_all
    have sol: "solid (skip ?u)" unfolding Cons by (cases m) (simp only:, rule skip_members(2) [OF refl])
    have "fits (members (skip ?u)) (map (\<lambda>(n, j). of_jval fp (Some n) j) ms, r)"
      by (rule mem [OF ms, of _ "d + 1" d]) (simp only: skip_solid [OF sol])
    moreover have "\<not> starts 125 (skip ?u)" using solid_starts [OF sol] by simp
    ultimately show ?thesis
      by (simp only: b if_False) (erule fits_bind, simp add: with_child_def blank_def JObj)
  qed
qed

lemma elements_body_print:
  assumes val: "\<And>d t j r. wf_jval j \<Longrightarrow> delim r \<Longrightarrow>
      fits (val (blank fp t None) (text_of fp d fmt j @ r)) (of_jval fp None j, r)"
    and el: "\<And>s. js \<noteq> [] \<Longrightarrow> skip s = join_elements fmt (map (text_of fp d fmt) js) @ 93 # r \<Longrightarrow>
      fits (elements s) (map (of_jval fp None) js, r)"
    and wf: "wf_jval j" "\<forall>j \<in> set js. wf_jval j"
    and s: "skip s = join_elements fmt (map (text_of fp d fmt) (j # js)) @ 93 # r"
  shows "fits (elements_body val elements fp s) (map (of_jval fp None) (j # js), r)"
proof -
  let ?r = "if js = [] then 93 # r
    else 44 # (if fmt then [32] else []) @ join_elements fmt (map (text_of fp d fmt) js) @ 93 # r"
  have "skip s = text_of fp d fmt j @ ?r"
    unfolding s by (cases js) simp_all
  moreover have "delim ?r" by simp
  moreover have "cJSON_New_Item fp = blank fp CJ_False None" by (simp add: cJSON_New_Item_def blank_def)
  ultimately have v: "fits (val (cJSON_New_Item fp) (skip s)) (of_jval fp None j, ?r)"
    using val [OF wf(1), of ?r] by simp
  have sk: "skip ((if fmt then [32] else []) @ x) = skip x" for x by simp
  show ?thesis
  proof (cases "js = []")
    case True
    show ?thesis unfolding elements_body_def
      by (rule fits_bind [OF v]) (simp add: True starts_def)
  next
    case False
    let ?t = "(if fmt then [32] else []) @ join_elements fmt (map (text_of fp d fmt) js) @ 93 # r"
    have "skip ?t = join_elements fmt (map (text_of fp d fmt) js) @ 93 # r"
      unfolding sk by (rule skip_solid [OF join_elements_solid [OF False wf(2)]])
    from el [OF False this] have e: "fits (elements ?t) (map (of_jval fp None) js, r)" .
    have r: "?r = 44 # ?t" using False by simp
    have "skip ?r = 44 # ?t" "starts 44 (44 # ?t)" unfolding r by (simp_all add: starts_def)
    then show ?thesis unfolding elements_body_def
      by (intro fits_bind [OF v]) (simp only: split Let_def if_True list.sel, rule fits_bind [OF e], simp)
  qed
qed

lemma members_body_print:
  assumes val: "\<And>d t nm j r. wf_jval j \<Longrightarrow> delim r \<Longrightarrow>
      fits (val (blank fp t nm) (text_of fp d fmt j @ r)) (of_jval fp nm j, r)"
    and mem: "\<And>s. ms \<noteq> [] \<Longrightarrow>
      skip s = skip (join_members d fmt (map (member_text fp d fmt) ms) @ (if fmt then replicate k 9 else []) @ 125 # r) \<Longrightarrow>
      fits (members s) (map (\<lambda>(n, j). of_jval fp (Some n) j) ms, r)"
    and wf: "0 \<notin> set nm" "wf_jval j"
    and s: "skip s = skip (join_members d fmt (map (member_text fp d fmt) ((nm, j) # ms)) @
      (if fmt then replicate k 9 else []) @ 125 # r)"
  shows "fits (members_body val members fp junk s) (map (\<lambda>(n, j). of_jval fp (Some n) j) ((nm, j) # ms), r)"
proof -
  let ?u = "(if fmt then [10] else []) @ join_members d fmt (map (member_text fp d fmt) ms) @
    (if fmt then replicate k 9 else []) @ 125 # r"
  let ?r = "(if ms = [] then [] else [44]) @ ?u"
  let ?w = "text_of fp d fmt j @ ?r"
  have sk: "skip s = print_string_ptr (Some nm) @ 58 # (if fmt then [9] else []) @ ?w"
    unfolding s by (rule skip_members(1)) simp
  have n: "parse_string junk (cJSON_New_Item fp) (skip s) =
    Done (CJson CJ_String False (Some nm) 0 (dbl_zero fp) 0 None [], 58 # (if fmt then [9] else []) @ ?w)"
    unfolding sk parse_print_string [OF wf(1)] by (simp add: cJSON_New_Item_def)
  have nm: "take_name (CJson CJ_String False (Some nm) 0 (dbl_zero fp) 0 None []) = blank fp CJ_String (Some nm)"
    by (simp add: take_name_def blank_def)
  have w: "skip ((if fmt then [9] else []) @ ?w) = ?w"
    unfolding skip_space by (rule skip_solid [OF text_of_solid [OF wf(2)]])
  have "delim ?r" by simp
  note v = val [OF wf(2) this, of CJ_String "Some nm" d]
  have colon: "skip (58 # x) = 58 # x" "starts 58 (58 # x)" for x :: "byte list" by (simp_all add: starts_def)
  have u: "skip ?u = skip (join_members d fmt (map (member_text fp d fmt) ms) @ (if fmt then replicate k 9 else []) @ 125 # r)"
    by simp
  have last: "fits (let r = skip ?r in if starts 44 r then bind_result (members (tl r)) (\<lambda>(cs, r'). Done (of_jval fp (Some nm) j # cs, r'))
      else if starts 125 r then Done ([of_jval fp (Some nm) j], tl r) else Null)
    (map (\<lambda>(n, j). of_jval fp (Some n) j) ((nm, j) # ms), r)"
  proof (cases "ms = []")
    case True
    then show ?thesis by (simp add: starts_def skip_tabs)
  next
    case False
    have r: "skip ?r = 44 # ?u" using False by simp
    have st: "starts 44 (44 # ?u)" by (simp add: starts_def)
    show ?thesis unfolding r Let_def
      by (simp only: st if_True list.sel) (rule fits_bind [OF mem [OF False u]], simp)
  qed
  show ?thesis
    unfolding members_body_def n bind_result.simps split Let_def colon list.sel w nm
    by (simp only: colon not_True_eq_False if_False) (rule fits_bind [OF v], use last in \<open>simp only: split Let_def\<close>)
qed

lemma parse_print:
  "(\<forall>d t nm j r. wf_jval j \<longrightarrow> delim r \<longrightarrow>
      fits (parse_value n fp junk (blank fp t nm) (text_of fp d fmt j @ r)) (of_jval fp nm j, r)) \<and>
   (\<forall>d js s r. js \<noteq> [] \<longrightarrow> (\<forall>j \<in> set js. wf_jval j) \<longrightarrow>
      skip s = join_elements fmt (map (text_of fp d fmt) js) @ 93 # r \<longrightarrow>
      fits (parse_elements n fp junk s) (map (of_jval fp None) js, r)) \<and>
   (\<forall>k d ms s r. ms \<noteq> [] \<longrightarrow> (\<forall>(n, j) \<in> set ms. 0 \<notin> set n \<and> wf_jval j) \<longrightarrow>
      skip s = skip (join_members d fmt (map (member_text fp d fmt) ms) @ (if fmt then replicate k 9 else []) @ 125 # r) \<longrightarrow>
      fits (parse_members n fp junk s) (map (\<lambda>(n, j). of_jval fp (Some n) j) ms, r))"
proof (induction n)
  case 0
  show ?case by simp
next
  case (Suc n)
  note v = Suc [THEN conjunct1, rule_format] and e = Suc [THEN conjunct2, THEN conjunct1, rule_format]
    and m = Suc [THEN conjunct2, THEN conjunct2, rule_format]
  show ?case
  proof (intro conjI allI impI)
    fix d t nm j r
    assume "wf_jval j" "delim r"
    then show "fits (parse_value (Suc n) fp junk (blank fp t nm) (text_of fp d fmt j @ r)) (of_jval fp nm j, r)"
      unfolding parse_value.simps
      by (intro value_body_print) (use e m in blast)+
  next
    fix d js s r
    assume js: "js \<noteq> []" "\<forall>j \<in> set js. wf_jval j"
      and s: "skip s = join_elements fmt (map (text_of fp d fmt) js) @ 93 # r"
    obtain j js' where c: "js = j # js'" using js(1) by (cases js) simp_all
    show "fits (parse_elements (Suc n) fp junk s) (map (of_jval fp None) js, r)"
      unfolding parse_elements.simps c
    proof (rule elements_body_print)
      show "skip s = join_elements fmt (map (text_of fp d fmt) (j # js')) @ 93 # r" using s c by simp
    qed (use js c v e in auto)
  next
    fix k d ms s r
    assume ms: "ms \<noteq> []" "\<forall>(n, j) \<in> set ms. 0 \<notin> set n \<and> wf_jval j"
      and s: "skip s = skip (join_members d fmt (map (member_text fp d fmt) ms) @ (if fmt then replicate k 9 else []) @ 125 # r)"
    obtain nm j ms' where c: "ms = (nm, j) # ms'" using ms(1) by (cases ms) auto
    show "fits (parse_members (Suc n) fp junk s) (map (\<lambda>(n, j). of_jval fp (Some n) j) ms, r)"
      unfolding parse_members.simps c
    proof (rule members_body_print)
      show "skip s = skip (join_members d fmt (map (member_text fp d fmt) ((nm, j) # ms')) @
          (if fmt then replicate k 9 else []) @ 125 # r)"
        using s c by simp
    qed (use ms c v m in auto)
  qed
qed

lemma cJSON_Parse_print:
  assumes "wf_jval j"
  shows "cJSON_Parse fp junk (print_value fp d fmt (of_jval fp None j)) = Done (of_jval fp None j)"
proof -
  let ?s = "text_of fp d fmt j"
  have s: "skip ?s = ?s" using text_of_solid [OF assms, of fp d fmt "[]"] by (simp add: skip_solid)
  have "fits (parse_value (2 * length ?s + 2) fp junk (blank fp CJ_False None) (?s @ [])) (of_jval fp None j, [])"
    by (rule parse_print [THEN conjunct1, rule_format]) (simp_all add: assms)
  moreover have "parse_value (2 * length ?s + 2) fp junk (blank fp CJ_False None) ?s \<noteq> Fuel"
    by (rule parse_enough_fuel [THEN conjunct1, rule_format]) simp
  ultimately have "parse_value (2 * length ?s + 2) fp junk (blank fp CJ_False None) ?s = Done (of_jval fp None j, [])"
    by (simp add: fits_def)
  then show ?thesis by (simp add: cJSON_Parse_def print_of_jval s blank_def cJSON_New_Item_def)
qed

text \<open>A floating point parameter for concrete runs: every \<open>double\<close> is an integer.\<close>

definition int_fpu :: "int fpu" where
  "int_fpu = \<lparr>dbl_zero = 0, dbl_of_u64 = uint, u64_of_dbl = of_int, scan_big = of_nat,
     scan_dbl = (\<lambda>sg n e. (sg * int n * 10 ^ nat e, of_int (sg * int n * 10 ^ nat e))), show_dbl = (\<lambda>d. ascii (fmt_d d))\<rparr>"

text \<open>C23: \<open>cJSON_Parse\<close> inverts both printers: for every JSON value with integers in the range of
  \<open>int64\<close> or \<open>uint64\<close> and strings without zero bytes, the text that \<open>cJSON_Print\<close> (indented) or
  \<open>cJSON_PrintUnformatted\<close> writes for its item is parsed back to an equal item, escapes and
  control characters, nesting and member names included.\<close>

theorem cjson_roundtrip:
  assumes "wf_jval j"
  shows "cJSON_Parse fp junk (cJSON_PrintUnformatted fp (of_jval fp None j)) = Done (of_jval fp None j) \<and>
    cJSON_Parse fp junk (cJSON_Print fp (of_jval fp None j)) = Done (of_jval fp None j)"
  unfolding cJSON_PrintUnformatted_def cJSON_Print_def
  by (intro conjI cJSON_Parse_print assms)

theorem cjson_roundtrip_witness:
  "\<exists>j. j = JObj [([107, 10], JArr [JInt (- 42), JNull]), ([97], JStr [34, 200, 1])] \<and>
    cJSON_Parse int_fpu (0, 0) (cJSON_PrintUnformatted int_fpu (of_jval int_fpu None j)) =
      Done (of_jval int_fpu None j)"
  using cjson_roundtrip [of "JObj [([107, 10], JArr [JInt (- 42), JNull]), ([97], JStr [34, 200, 1])]" int_fpu "(0, 0)"]
  by simp

end
