(* ===== verification/CJson_Object.thy ===== *)
theory CJson_Object
  imports CJson
begin

text \<open>
  The objects of \<open>cJSON.c\<close> as maps from names to items, and the sizes of the buffers the printer
  allocates.
\<close>

section \<open>Objects as maps\<close>

lemma same_text_map: "same_text s t \<longleftrightarrow> map tolower s = map tolower t"
  by (induction s t rule: same_text.induct) auto

lemma strcasecmp_eq: "cJSON_strcasecmp_eq s t \<longleftrightarrow> map_option (map tolower) s = map_option (map tolower) t"
  by (auto simp: cJSON_strcasecmp_eq_def same_text_map split: option.split)

fun lookup :: "byte list option \<Rightarrow> 'd cjson list \<Rightarrow> 'd cjson option" where
  "lookup nm [] = None"
| "lookup nm (c # cs) = (if cJSON_strcasecmp_eq (cname c) nm then Some c else lookup nm cs)"

lemma find_name_less: "find_name nm cs = Some i \<Longrightarrow> i < length cs"
  by (induction cs arbitrary: i) (auto split: if_splits)

lemma lookup_find: "map_option (\<lambda>i. cs ! i) (find_name nm cs) = lookup nm cs"
  by (induction cs) (auto simp: option.map_comp comp_def)

lemma GetObjectItem_lookup: "cJSON_GetObjectItem ob nm = lookup nm (child ob)"
  by (simp add: cJSON_GetObjectItem_def lookup_find)

lemma lookup_append: "lookup nm (cs @ ds) = (case lookup nm cs of None \<Rightarrow> lookup nm ds | Some c \<Rightarrow> Some c)"
  by (induction cs) auto

lemma lookup_replace:
  assumes "find_name nm cs = Some i" and "cJSON_strcasecmp_eq (cname c) nm"
  shows "lookup nm' (cs[i := c]) = (if cJSON_strcasecmp_eq nm nm' then Some c else lookup nm' cs)"
  using assms by (induction cs arbitrary: i) (auto simp: strcasecmp_eq split: if_splits)

lemma lookup_remove:
  assumes "find_name nm cs = Some i" and "\<not> cJSON_strcasecmp_eq nm nm'"
  shows "lookup nm' (take i cs @ drop (Suc i) cs) = lookup nm' cs"
  using assms by (induction cs arbitrary: i) (auto simp: strcasecmp_eq split: if_splits)

lemma child_with_child [simp]: "child (with_child cs c) = cs"
  by (simp add: with_child_def)

lemma cname_with_name [simp]: "cname (with_name nm c) = nm"
  by (simp add: with_name_def)

lemma find_name_None: "find_name nm cs = None \<longleftrightarrow> lookup nm cs = None"
  by (metis lookup_find option.map_disc_iff)

lemma get_after_add:
  "cJSON_GetObjectItem (cJSON_AddItemToObject ob k (Some v)) (Some k') =
     (case cJSON_GetObjectItem ob (Some k') of Some c \<Rightarrow> Some c
      | None \<Rightarrow> if same_text k k' then Some (with_name (Some k) v) else None)"
  by (simp add: cJSON_AddItemToObject_def cJSON_AddItemToArray_def GetObjectItem_lookup lookup_append
      cJSON_strcasecmp_eq_def split: option.split)

lemma get_after_replace:
  "cJSON_GetObjectItem (cJSON_ReplaceItemInObject ob k v) (Some k') =
     (if same_text k k' \<and> cJSON_GetObjectItem ob (Some k) \<noteq> None then Some (with_name (Some k) v)
      else cJSON_GetObjectItem ob (Some k'))"
proof (cases "find_name (Some k) (child ob)")
  case None
  then show ?thesis by (simp add: cJSON_ReplaceItemInObject_def cJSON_GetObjectItem_def)
next
  case (Some i)
  have "cJSON_strcasecmp_eq (cname (with_name (Some k) v)) (Some k)" by (simp add: strcasecmp_eq)
  note lookup_replace [OF Some this]
  moreover have "lookup (Some k) (child ob) \<noteq> None" using Some find_name_None [of "Some k" "child ob"] by auto
  ultimately show ?thesis using find_name_less [OF Some]
    by (simp add: cJSON_ReplaceItemInObject_def Some cJSON_ReplaceItemInArray_def GetObjectItem_lookup
        cJSON_strcasecmp_eq_def)
qed

lemma get_after_detach:
  "snd (cJSON_DetachItemFromObject ob (Some k)) = cJSON_GetObjectItem ob (Some k) \<and>
   (same_text k k' \<or>
    cJSON_GetObjectItem (cJSON_DeleteItemFromObject ob (Some k)) (Some k') = cJSON_GetObjectItem ob (Some k'))"
proof (cases "find_name (Some k) (child ob)")
  case None
  then show ?thesis
    by (simp add: cJSON_DeleteItemFromObject_def cJSON_DetachItemFromObject_def cJSON_GetObjectItem_def)
next
  case (Some i)
  have "cJSON_GetObjectItem ob (Some k) = Some (child ob ! i)" by (simp add: cJSON_GetObjectItem_def Some)
  moreover have "lookup (Some k') (take i (child ob) @ drop (Suc i) (child ob)) = lookup (Some k') (child ob)"
    if "\<not> same_text k k'"
    by (rule lookup_remove [OF Some]) (simp add: cJSON_strcasecmp_eq_def that)
  ultimately show ?thesis using find_name_less [OF Some]
    by (auto simp: cJSON_DeleteItemFromObject_def cJSON_DetachItemFromObject_def Some
        cJSON_DetachItemFromArray_def GetObjectItem_lookup)
qed

text \<open>The operations on an object behave as a map whose keys are names up to letter case: adding
  a member does not change what an existing name finds and makes a new name find the member;
  replacing changes exactly what the replaced name finds, and only when it was there; detaching
  returns what the name found and leaves every other name alone.\<close>

theorem cjson_object_map:
  "cJSON_GetObjectItem (cJSON_AddItemToObject ob k (Some v)) (Some k') =
     (case cJSON_GetObjectItem ob (Some k') of Some c \<Rightarrow> Some c
      | None \<Rightarrow> if same_text k k' then Some (with_name (Some k) v) else None) \<and>
   cJSON_GetObjectItem (cJSON_ReplaceItemInObject ob k v) (Some k') =
     (if same_text k k' \<and> cJSON_GetObjectItem ob (Some k) \<noteq> None then Some (with_name (Some k) v)
      else cJSON_GetObjectItem ob (Some k')) \<and>
   snd (cJSON_DetachItemFromObject ob (Some k)) = cJSON_GetObjectItem ob (Some k) \<and>
   (same_text k k' \<or>
    cJSON_GetObjectItem (cJSON_DeleteItemFromObject ob (Some k)) (Some k') = cJSON_GetObjectItem ob (Some k'))"
  by (intro conjI get_after_add get_after_replace get_after_detach [THEN conjunct1]
      get_after_detach [THEN conjunct2])

section \<open>The printer's buffers\<close>

lemma length_escape_char:
  "length (escape_char c) = 1 + (if c \<in> {34, 92, 8, 12, 10, 13, 9} then 1 else if c < 32 then 5 else 0)"
proof -
  have "c > 31 \<longleftrightarrow> \<not> c < 32" by (auto simp: word_less_nat_alt)
  then show ?thesis by (auto simp: escape_char_def)
qed

lemma length_print_string: "length (print_string_ptr (Some s)) = print_len s + 2"
  by (simp add: print_string_ptr_def print_len_def length_concat comp_def length_escape_char)

lemma length_join_elements:
  "length (join_elements fmt es) \<le> sum_list (map (\<lambda>e. length e + 2 + (if fmt then 1 else 0)) es)"
  by (induction fmt es rule: join_elements.induct) auto

lemma length_join_members:
  "length (join_members d fmt ms) \<le>
     sum_list (map (\<lambda>(n, e). length e + length n + 2 + (if fmt then 2 + d else 0)) ms)"
  by (induction d fmt ms rule: join_members.induct) auto

lemma length_dec: "n < 10 ^ k \<Longrightarrow> 0 < k \<Longrightarrow> length (dec n) \<le> k"
proof (induction k arbitrary: n)
  case (Suc k)
  show ?case
  proof (cases "n < 10")
    case True
    then show ?thesis by (subst dec.simps) simp
  next
    case False
    with Suc.prems have "0 < k" by (cases k) auto
    moreover have "n div 10 < 10 ^ k" using Suc.prems by (simp add: less_mult_imp_div_less mult.commute)
    ultimately show ?thesis using Suc.IH [of "n div 10"] False by (subst dec.simps) simp
  qed
qed simp

lemma length_print_int: "length (print_int item) \<le> 21"
proof -
  let ?v = "valueint item"
  have u: "length (dec (unat w)) \<le> 20" for w :: u64
  proof -
    have "unat w < 2 ^ LENGTH(64)" by (rule unsigned_less)
    then show ?thesis by (intro length_dec) simp_all
  qed
  have u32: "length (dec (unat w)) \<le> 20" for w :: u32
  proof -
    have "unat w < 2 ^ LENGTH(32)" by (rule unsigned_less)
    then show ?thesis by (intro length_dec) simp_all
  qed
  have "length (fmt_d i) \<le> 21" if "\<bar>i\<bar> < 10 ^ 20" for i
    using that length_dec [of "nat i" 20] length_dec [of "nat (- i)" 20] by (auto simp: fmt_d_def nat_less_iff)
  moreover have "\<bar>sint ?v\<bar> < 10 ^ 20" "\<bar>sint (ucast ?v :: u32)\<bar> < 10 ^ 20"
    using sint_range_size [of ?v] sint_range_size [of "ucast ?v :: u32"]
    by (simp_all add: word_size abs_less_iff)
  ultimately show ?thesis
    using u [of ?v] u32 [of "ucast ?v"] by (auto simp: print_int_def Let_def ascii_def le_SucI)
qed

text \<open>Every buffer the printer allocates is large enough for its text and the final zero: the
  22 bytes of a number, the size the first loop of \<open>print_string_ptr\<close> computes (exactly), and the
  sizes that \<open>print_array\<close> and \<open>print_object\<close> add up, at every depth, formatted or not.\<close>

theorem cjson_print_buffers:
  "length (print_int item) + 1 \<le> 22 \<and>
   length (print_string_ptr (Some s)) + 1 = print_len s + 3 \<and>
   length (print_value fp depth fmt (CJson CJ_Array rf vs vi vd sg nm cs)) + 1 \<le>
     array_size fmt (map (print_value fp (depth + 1) fmt) cs) \<and>
   length (print_value fp depth fmt (CJson CJ_Object rf vs vi vd sg nm cs)) + 1 \<le>
     object_size (depth + 1) fmt
       (map (\<lambda>c. (print_string_ptr (cname c), print_value fp (depth + 1) fmt c)) cs)"
  using length_join_elements [of fmt "map (print_value fp (depth + 1) fmt) cs"]
    length_join_members [of "depth + 1" fmt "map (\<lambda>c. (print_string_ptr (cname c), print_value fp (depth + 1) fmt c)) cs"]
  by (auto simp: length_print_int length_print_string array_size_def object_size_def)

end
