(* ===== verification/CJsonObject.thy ===== *)
theory CJsonObject
  imports CJson_Roundtrip CJson_Object
begin

text \<open>
  The wrapper class \<open>loss::CJsonObject\<close> of \<open>loss/src/util/json/CJsonObject.cpp\<close>. An object has
  a tree of its own (\<open>m_pJsonData\<close>), or refers to an item of another object's tree
  (\<open>m_pExternJsonDataRef\<close>), or is empty. A reader returns the value it stores in its output
  parameter, or \<open>None\<close> when it returns false; a writer returns the object and the success flag. The
  caches behind \<open>operator[]\<close> and the error message are left out.
\<close>

section \<open>State\<close>

record 'd jobj =
  jdata :: "'d cjson option"
  jextern :: "'d cjson option"

definition empty_jobj :: "'d jobj" where
  "empty_jobj = \<lparr>jdata = None, jextern = None\<rparr>"

definition extern_jobj :: "'d cjson \<Rightarrow> 'd jobj" where
  "extern_jobj c = \<lparr>jdata = None, jextern = Some c\<rparr>"

definition focus :: "'d jobj \<Rightarrow> 'd cjson option" where
  "focus ob = (case jdata ob of Some c \<Rightarrow> Some c | None \<Rightarrow> jextern ob)"

definition with_focus :: "'d cjson \<Rightarrow> 'd jobj \<Rightarrow> 'd jobj" where
  "with_focus c ob = (if jdata ob \<noteq> None \<or> jextern ob = None then ob\<lparr>jdata := Some c\<rparr> else ob\<lparr>jextern := Some c\<rparr>)"

text \<open>\<open>type == t\<close>: the reference flag is part of the field the code compares.\<close>

definition has_type :: "ctype \<Rightarrow> 'd cjson \<Rightarrow> bool" where
  "has_type t c \<longleftrightarrow> ctype c = t \<and> \<not> isref c"

definition c_bytes :: "byte list \<Rightarrow> byte list" where
  "c_bytes s = takeWhile (\<lambda>c. c \<noteq> 0) s"

section \<open>Text\<close>

definition Jobj_Clear :: "'d jobj \<Rightarrow> 'd jobj" where
  "Jobj_Clear ob = empty_jobj"

definition Jobj_Parse :: "'d fpu \<Rightarrow> u32 \<times> u32 \<Rightarrow> byte list \<Rightarrow> ('d jobj \<times> bool) presult" where
  "Jobj_Parse fp junk s =
     (case cJSON_Parse fp junk (c_bytes s) of
        Done c \<Rightarrow> Done (empty_jobj\<lparr>jdata := Some c\<rparr>, True)
      | Null \<Rightarrow> Done (empty_jobj, False)
      | Undef \<Rightarrow> Undef
      | Fuel \<Rightarrow> Fuel)"

definition Jobj_IsEmpty :: "'d jobj \<Rightarrow> bool" where
  "Jobj_IsEmpty ob \<longleftrightarrow> focus ob = None"

definition Jobj_IsArray :: "'d jobj \<Rightarrow> bool" where
  "Jobj_IsArray ob \<longleftrightarrow> (case focus ob of None \<Rightarrow> False | Some c \<Rightarrow> has_type CJ_Array c)"

definition Jobj_ToString :: "'d fpu \<Rightarrow> 'd jobj \<Rightarrow> byte list" where
  "Jobj_ToString fp ob = (case focus ob of None \<Rightarrow> [] | Some c \<Rightarrow> cJSON_PrintUnformatted fp c)"

definition Jobj_ToFormattedString :: "'d fpu \<Rightarrow> 'd jobj \<Rightarrow> byte list" where
  "Jobj_ToFormattedString fp ob = (case focus ob of None \<Rightarrow> [] | Some c \<Rightarrow> cJSON_Print fp c)"

text \<open>The copy constructor and the assignment print the source and parse the text.\<close>

definition Jobj_copy :: "'d fpu \<Rightarrow> u32 \<times> u32 \<Rightarrow> 'd jobj \<Rightarrow> 'd jobj presult" where
  "Jobj_copy fp junk ob = bind_result (Jobj_Parse fp junk (Jobj_ToString fp ob)) (\<lambda>(ob', ok). Done ob')"

definition Jobj_assign :: "'d fpu \<Rightarrow> u32 \<times> u32 \<Rightarrow> 'd jobj \<Rightarrow> 'd jobj presult" where
  "Jobj_assign fp junk ob = bind_result (Jobj_Parse fp junk (c_bytes (Jobj_ToString fp ob))) (\<lambda>(ob', ok). Done ob')"

definition Jobj_equal :: "'d fpu \<Rightarrow> 'd jobj \<Rightarrow> 'd jobj \<Rightarrow> bool" where
  "Jobj_equal fp ob ob' \<longleftrightarrow> Jobj_ToString fp ob = Jobj_ToString fp ob'"

section \<open>Reading\<close>

definition get_member :: "'d jobj \<Rightarrow> byte list \<Rightarrow> 'd cjson option" where
  "get_member ob k =
     (case focus ob of None \<Rightarrow> None
      | Some c \<Rightarrow> if has_type CJ_Object c then cJSON_GetObjectItem c (Some (c_bytes k)) else None)"

definition get_element :: "'d jobj \<Rightarrow> int \<Rightarrow> 'd cjson option" where
  "get_element ob i =
     (case focus ob of None \<Rightarrow> None
      | Some c \<Rightarrow> if has_type CJ_Array c then cJSON_GetArrayItem c i else None)"

definition Jobj_GetArraySize :: "'d jobj \<Rightarrow> nat" where
  "Jobj_GetArraySize ob =
     (case focus ob of None \<Rightarrow> 0 | Some c \<Rightarrow> if has_type CJ_Array c then cJSON_GetArraySize c else 0)"

text \<open>The first use of \<open>operator[]\<close> for a key or an index.\<close>

definition at_key :: "'d jobj \<Rightarrow> byte list \<Rightarrow> 'd jobj" where
  "at_key ob k = (case get_member ob k of None \<Rightarrow> empty_jobj | Some c \<Rightarrow> extern_jobj c)"

definition at_index :: "'d jobj \<Rightarrow> u32 \<Rightarrow> 'd jobj" where
  "at_index ob i = (case get_element ob (sint i) of None \<Rightarrow> empty_jobj | Some c \<Rightarrow> extern_jobj c)"

text \<open>What a reader takes from an item of its type.\<close>

definition item_string :: "'d cjson \<Rightarrow> byte list option" where
  "item_string c = (if has_type CJ_String c then valuestring c else None)"

definition item_uint64 :: "'d cjson \<Rightarrow> u64 option" where
  "item_uint64 c = (if has_type CJ_Int c then Some (valueint c) else None)"

definition item_int64 :: "'d cjson \<Rightarrow> int option" where
  "item_int64 c = map_option sint (item_uint64 c)"

definition item_uint32 :: "'d cjson \<Rightarrow> u32 option" where
  "item_uint32 c = map_option ucast (item_uint64 c)"

definition item_int32 :: "'d cjson \<Rightarrow> int option" where
  "item_int32 c = map_option (\<lambda>v. sint (ucast v :: u32)) (item_uint64 c)"

definition item_bool :: "'d cjson \<Rightarrow> bool option" where
  "item_bool c = (if isref c then None else case ctype c of CJ_False \<Rightarrow> Some False | CJ_True \<Rightarrow> Some True | _ \<Rightarrow> None)"

definition item_double :: "'d cjson \<Rightarrow> 'd option" where
  "item_double c = (if has_type CJ_Double c then Some (valuedouble c) else None)"

definition Get_key_string :: "'d jobj \<Rightarrow> byte list \<Rightarrow> byte list option" where
  "Get_key_string ob k = Option.bind (get_member ob k) item_string"

definition Get_key_int32 :: "'d jobj \<Rightarrow> byte list \<Rightarrow> int option" where
  "Get_key_int32 ob k = Option.bind (get_member ob k) item_int32"

definition Get_key_uint32 :: "'d jobj \<Rightarrow> byte list \<Rightarrow> u32 option" where
  "Get_key_uint32 ob k = Option.bind (get_member ob k) item_uint32"

definition Get_key_int64 :: "'d jobj \<Rightarrow> byte list \<Rightarrow> int option" where
  "Get_key_int64 ob k = Option.bind (get_member ob k) item_int64"

definition Get_key_uint64 :: "'d jobj \<Rightarrow> byte list \<Rightarrow> u64 option" where
  "Get_key_uint64 ob k = Option.bind (get_member ob k) item_uint64"

definition Get_key_bool :: "'d jobj \<Rightarrow> byte list \<Rightarrow> bool option" where
  "Get_key_bool ob k = Option.bind (get_member ob k) item_bool"

definition Get_key_double :: "'d jobj \<Rightarrow> byte list \<Rightarrow> 'd option" where
  "Get_key_double ob k = Option.bind (get_member ob k) item_double"

definition Get_key_float :: "('d \<Rightarrow> 'f) \<Rightarrow> 'd jobj \<Rightarrow> byte list \<Rightarrow> 'f option" where
  "Get_key_float narrow ob k = map_option narrow (Option.bind (get_member ob k) item_double)"

definition Get_key_json :: "'d fpu \<Rightarrow> u32 \<times> u32 \<Rightarrow> 'd jobj \<Rightarrow> byte list \<Rightarrow> 'd jobj option presult" where
  "Get_key_json fp junk ob k =
     (case get_member ob k of None \<Rightarrow> Done None
      | Some c \<Rightarrow> bind_result (Jobj_Parse fp junk (cJSON_Print fp c)) (\<lambda>(ob', ok). Done (if ok then Some ob' else None)))"


definition Get_index_string :: "'d jobj \<Rightarrow> int \<Rightarrow> byte list option" where
  "Get_index_string ob i = Option.bind (get_element ob i) item_string"

definition Get_index_int32 :: "'d jobj \<Rightarrow> int \<Rightarrow> int option" where
  "Get_index_int32 ob i = Option.bind (get_element ob i) item_int32"

definition Get_index_uint32 :: "'d jobj \<Rightarrow> int \<Rightarrow> u32 option" where
  "Get_index_uint32 ob i = Option.bind (get_element ob i) item_uint32"

definition Get_index_int64 :: "'d jobj \<Rightarrow> int \<Rightarrow> int option" where
  "Get_index_int64 ob i = Option.bind (get_element ob i) item_int64"

definition Get_index_uint64 :: "'d jobj \<Rightarrow> int \<Rightarrow> u64 option" where
  "Get_index_uint64 ob i = Option.bind (get_element ob i) item_uint64"

definition Get_index_bool :: "'d jobj \<Rightarrow> int \<Rightarrow> bool option" where
  "Get_index_bool ob i = Option.bind (get_element ob i) item_bool"

definition Get_index_double :: "'d jobj \<Rightarrow> int \<Rightarrow> 'd option" where
  "Get_index_double ob i = Option.bind (get_element ob i) item_double"

definition Get_index_float :: "('d \<Rightarrow> 'f) \<Rightarrow> 'd jobj \<Rightarrow> int \<Rightarrow> 'f option" where
  "Get_index_float narrow ob i = map_option narrow (Option.bind (get_element ob i) item_double)"

definition Get_index_json :: "'d fpu \<Rightarrow> u32 \<times> u32 \<Rightarrow> 'd jobj \<Rightarrow> int \<Rightarrow> 'd jobj option presult" where
  "Get_index_json fp junk ob i =
     (case get_element ob i of None \<Rightarrow> Done None
      | Some c \<Rightarrow> bind_result (Jobj_Parse fp junk (cJSON_Print fp c)) (\<lambda>(ob', ok). Done (if ok then Some ob' else None)))"


text \<open>\<open>operator()\<close>: the text of a scalar. The text of a double is formatted and dropped.\<close>

definition item_text :: "'d cjson \<Rightarrow> byte list" where
  "item_text c =
     (if has_type CJ_String c then (case valuestring c of None \<Rightarrow> [] | Some s \<Rightarrow> s)
      else if has_type CJ_Int c then print_int c
      else if has_type CJ_Double c then []
      else if has_type CJ_False c then ascii ''false''
      else if has_type CJ_True c then ascii ''true'' else [])"

definition call_key :: "'d jobj \<Rightarrow> byte list \<Rightarrow> byte list" where
  "call_key ob k = (case get_member ob k of None \<Rightarrow> [] | Some c \<Rightarrow> item_text c)"

definition call_index :: "'d jobj \<Rightarrow> u32 \<Rightarrow> byte list" where
  "call_index ob i = (case get_element ob (sint i) of None \<Rightarrow> [] | Some c \<Rightarrow> item_text c)"

section \<open>Writing\<close>

text \<open>An empty object becomes an object or an array when the first item is added.\<close>

definition init_focus :: "'d fpu \<Rightarrow> ctype \<Rightarrow> 'd jobj \<Rightarrow> 'd jobj" where
  "init_focus fp t ob = (if focus ob = None then ob\<lparr>jdata := Some (with_type t (cJSON_New_Item fp))\<rparr> else ob)"

definition addable :: "ctype \<Rightarrow> 'd jobj \<Rightarrow> bool" where
  "addable t ob \<longleftrightarrow> (case focus ob of None \<Rightarrow> True | Some c \<Rightarrow> has_type t c)"

definition replaceable :: "ctype \<Rightarrow> 'd jobj \<Rightarrow> bool" where
  "replaceable t ob \<longleftrightarrow> (case focus ob of None \<Rightarrow> False | Some c \<Rightarrow> has_type t c)"

definition add_member :: "'d fpu \<Rightarrow> 'd jobj \<Rightarrow> byte list \<Rightarrow> 'd cjson \<Rightarrow> 'd jobj \<times> bool" where
  "add_member fp ob0 k it =
     (let ob = init_focus fp CJ_Object ob0 in
      case focus ob of None \<Rightarrow> (ob, False)
      | Some c \<Rightarrow>
          if \<not> has_type CJ_Object c then (ob, False)
          else let c' = cJSON_AddItemToObject c (c_bytes k) (Some it)
               in (with_focus c' ob, cJSON_GetObjectItem c' (Some (c_bytes k)) \<noteq> None))"

definition replace_member :: "'d fpu \<Rightarrow> 'd jobj \<Rightarrow> byte list \<Rightarrow> 'd cjson \<Rightarrow> 'd jobj \<times> bool" where
  "replace_member fp ob k it =
     (case focus ob of None \<Rightarrow> (ob, False)
      | Some c \<Rightarrow>
          if \<not> has_type CJ_Object c then (ob, False)
          else let c' = cJSON_ReplaceItemInObject c (c_bytes k) it
               in (with_focus c' ob, cJSON_GetObjectItem c' (Some (c_bytes k)) \<noteq> None))"

definition add_element :: "'d fpu \<Rightarrow> 'd jobj \<Rightarrow> 'd cjson \<Rightarrow> 'd jobj \<times> bool" where
  "add_element fp ob0 it =
     (let ob = init_focus fp CJ_Array ob0 in
      case focus ob of None \<Rightarrow> (ob, False)
      | Some c \<Rightarrow>
          if \<not> has_type CJ_Array c then (ob, False)
          else let c' = cJSON_AddItemToArray c (Some it)
               in (with_focus c' ob, cJSON_GetArraySize c' \<noteq> cJSON_GetArraySize c))"

definition add_first :: "'d fpu \<Rightarrow> 'd jobj \<Rightarrow> 'd cjson \<Rightarrow> 'd jobj \<times> bool" where
  "add_first fp ob0 it =
     (let ob = init_focus fp CJ_Array ob0 in
      case focus ob of None \<Rightarrow> (ob, False)
      | Some c \<Rightarrow>
          if \<not> has_type CJ_Array c then (ob, False)
          else let c' = cJSON_AddItemToArrayHead c (Some it)
               in (with_focus c' ob, cJSON_GetArraySize c' \<noteq> cJSON_GetArraySize c))"

definition replace_element :: "'d fpu \<Rightarrow> 'd jobj \<Rightarrow> int \<Rightarrow> 'd cjson \<Rightarrow> 'd jobj \<times> bool" where
  "replace_element fp ob i it =
     (case focus ob of None \<Rightarrow> (ob, False)
      | Some c \<Rightarrow>
          if \<not> has_type CJ_Array c then (ob, False)
          else let c' = cJSON_ReplaceItemInArray c i it
               in (with_focus c' ob, cJSON_GetArrayItem c' i \<noteq> None))"

definition Delete_key :: "'d jobj \<Rightarrow> byte list \<Rightarrow> 'd jobj \<times> bool" where
  "Delete_key ob k =
     (case focus ob of None \<Rightarrow> (ob, False)
      | Some c \<Rightarrow>
          if \<not> has_type CJ_Object c then (ob, False)
          else (with_focus (cJSON_DeleteItemFromObject c (Some (c_bytes k))) ob, True))"

definition Delete_index :: "'d jobj \<Rightarrow> int \<Rightarrow> 'd jobj \<times> bool" where
  "Delete_index ob i =
     (case focus ob of None \<Rightarrow> (ob, False)
      | Some c \<Rightarrow>
          if \<not> has_type CJ_Array c then (ob, False)
          else (with_focus (cJSON_DeleteItemFromArray c i) ob, True))"

text \<open>The overloads that take a \<open>CJsonObject\<close> check the type first, then parse its text.\<close>

definition parse_item :: "'d fpu \<Rightarrow> u32 \<times> u32 \<Rightarrow> 'd jobj \<Rightarrow> 'd cjson presult" where
  "parse_item fp junk v = cJSON_Parse fp junk (Jobj_ToString fp v)"

definition put_json :: "bool \<Rightarrow> ('d cjson \<Rightarrow> 'd jobj \<times> bool) \<Rightarrow> 'd jobj \<Rightarrow> 'd cjson presult \<Rightarrow> ('d jobj \<times> bool) presult" where
  "put_json ok put ob item =
     (if \<not> ok then Done (ob, False)
      else case item of Done it \<Rightarrow> Done (put it) | Null \<Rightarrow> Done (ob, False) | Undef \<Rightarrow> Undef | Fuel \<Rightarrow> Fuel)"

definition AddEmptySubObject :: "'d fpu \<Rightarrow> 'd jobj \<Rightarrow> byte list \<Rightarrow> 'd jobj \<times> bool" where
  "AddEmptySubObject fp ob k =
     (if addable CJ_Object ob then (fst (add_member fp ob k (cJSON_CreateObject fp)), True) else (ob, False))"

definition AddEmptySubArray :: "'d fpu \<Rightarrow> 'd jobj \<Rightarrow> byte list \<Rightarrow> 'd jobj \<times> bool" where
  "AddEmptySubArray fp ob k =
     (if addable CJ_Object ob then (fst (add_member fp ob k (cJSON_CreateArray fp)), True) else (ob, False))"

definition Add_key_string :: "'d fpu \<Rightarrow> 'd jobj \<Rightarrow> byte list \<Rightarrow> byte list \<Rightarrow> 'd jobj \<times> bool" where
  "Add_key_string fp ob k v = add_member fp ob k (cJSON_CreateString fp (c_bytes v))"

definition Add_key_int32 :: "'d fpu \<Rightarrow> 'd jobj \<Rightarrow> byte list \<Rightarrow> int \<Rightarrow> 'd jobj \<times> bool" where
  "Add_key_int32 fp ob k v = add_member fp ob k (cJSON_CreateInt fp (of_int v) (-1))"

definition Add_key_uint32 :: "'d fpu \<Rightarrow> 'd jobj \<Rightarrow> byte list \<Rightarrow> u32 \<Rightarrow> 'd jobj \<times> bool" where
  "Add_key_uint32 fp ob k v = add_member fp ob k (cJSON_CreateInt fp (ucast v) 1)"

definition Add_key_int64 :: "'d fpu \<Rightarrow> 'd jobj \<Rightarrow> byte list \<Rightarrow> int \<Rightarrow> 'd jobj \<times> bool" where
  "Add_key_int64 fp ob k v = add_member fp ob k (cJSON_CreateInt fp (of_int v) (-1))"

definition Add_key_uint64 :: "'d fpu \<Rightarrow> 'd jobj \<Rightarrow> byte list \<Rightarrow> u64 \<Rightarrow> 'd jobj \<times> bool" where
  "Add_key_uint64 fp ob k v = add_member fp ob k (cJSON_CreateInt fp v 1)"

definition Add_key_bool :: "'d fpu \<Rightarrow> 'd jobj \<Rightarrow> byte list \<Rightarrow> bool \<Rightarrow> 'd jobj \<times> bool" where
  "Add_key_bool fp ob k v = add_member fp ob k (cJSON_CreateBool fp (if v then 1 else 0))"

definition Add_key_double :: "'d fpu \<Rightarrow> 'd jobj \<Rightarrow> byte list \<Rightarrow> 'd \<Rightarrow> 'd jobj \<times> bool" where
  "Add_key_double fp ob k v = add_member fp ob k (cJSON_CreateDouble fp v (-1))"

definition Add_key_float :: "('f \<Rightarrow> 'd) \<Rightarrow> 'd fpu \<Rightarrow> 'd jobj \<Rightarrow> byte list \<Rightarrow> 'f \<Rightarrow> 'd jobj \<times> bool" where
  "Add_key_float widen fp ob k v = add_member fp ob k (cJSON_CreateDouble fp (widen v) (-1))"

definition Add_key_json :: "'d fpu \<Rightarrow> u32 \<times> u32 \<Rightarrow> 'd jobj \<Rightarrow> byte list \<Rightarrow> 'd jobj \<Rightarrow> ('d jobj \<times> bool) presult" where
  "Add_key_json fp junk ob k v =
     put_json (addable CJ_Object ob) (\<lambda>it. add_member fp ob k it) (init_focus fp CJ_Object ob) (parse_item fp junk v)"


definition Replace_key_string :: "'d fpu \<Rightarrow> 'd jobj \<Rightarrow> byte list \<Rightarrow> byte list \<Rightarrow> 'd jobj \<times> bool" where
  "Replace_key_string fp ob k v = replace_member fp ob k (cJSON_CreateString fp (c_bytes v))"

definition Replace_key_int32 :: "'d fpu \<Rightarrow> 'd jobj \<Rightarrow> byte list \<Rightarrow> int \<Rightarrow> 'd jobj \<times> bool" where
  "Replace_key_int32 fp ob k v = replace_member fp ob k (cJSON_CreateInt fp (of_int v) (-1))"

definition Replace_key_uint32 :: "'d fpu \<Rightarrow> 'd jobj \<Rightarrow> byte list \<Rightarrow> u32 \<Rightarrow> 'd jobj \<times> bool" where
  "Replace_key_uint32 fp ob k v = replace_member fp ob k (cJSON_CreateInt fp (ucast v) 1)"

definition Replace_key_int64 :: "'d fpu \<Rightarrow> 'd jobj \<Rightarrow> byte list \<Rightarrow> int \<Rightarrow> 'd jobj \<times> bool" where
  "Replace_key_int64 fp ob k v = replace_member fp ob k (cJSON_CreateInt fp (of_int v) (-1))"

definition Replace_key_uint64 :: "'d fpu \<Rightarrow> 'd jobj \<Rightarrow> byte list \<Rightarrow> u64 \<Rightarrow> 'd jobj \<times> bool" where
  "Replace_key_uint64 fp ob k v = replace_member fp ob k (cJSON_CreateInt fp v 1)"

definition Replace_key_bool :: "'d fpu \<Rightarrow> 'd jobj \<Rightarrow> byte list \<Rightarrow> bool \<Rightarrow> 'd jobj \<times> bool" where
  "Replace_key_bool fp ob k v = replace_member fp ob k (cJSON_CreateBool fp (if v then 1 else 0))"

definition Replace_key_double :: "'d fpu \<Rightarrow> 'd jobj \<Rightarrow> byte list \<Rightarrow> 'd \<Rightarrow> 'd jobj \<times> bool" where
  "Replace_key_double fp ob k v = replace_member fp ob k (cJSON_CreateDouble fp v (-1))"

definition Replace_key_float :: "('f \<Rightarrow> 'd) \<Rightarrow> 'd fpu \<Rightarrow> 'd jobj \<Rightarrow> byte list \<Rightarrow> 'f \<Rightarrow> 'd jobj \<times> bool" where
  "Replace_key_float widen fp ob k v = replace_member fp ob k (cJSON_CreateDouble fp (widen v) (-1))"

definition Replace_key_json :: "'d fpu \<Rightarrow> u32 \<times> u32 \<Rightarrow> 'd jobj \<Rightarrow> byte list \<Rightarrow> 'd jobj \<Rightarrow> ('d jobj \<times> bool) presult" where
  "Replace_key_json fp junk ob k v =
     put_json (replaceable CJ_Object ob) (\<lambda>it. replace_member fp ob k it) ob (parse_item fp junk v)"


definition Add_string :: "'d fpu \<Rightarrow> 'd jobj \<Rightarrow> byte list \<Rightarrow> 'd jobj \<times> bool" where
  "Add_string fp ob v = add_element fp ob (cJSON_CreateString fp (c_bytes v))"

definition Add_int32 :: "'d fpu \<Rightarrow> 'd jobj \<Rightarrow> int \<Rightarrow> 'd jobj \<times> bool" where
  "Add_int32 fp ob v = add_element fp ob (cJSON_CreateInt fp (of_int v) (-1))"

definition Add_uint32 :: "'d fpu \<Rightarrow> 'd jobj \<Rightarrow> u32 \<Rightarrow> 'd jobj \<times> bool" where
  "Add_uint32 fp ob v = add_element fp ob (cJSON_CreateInt fp (ucast v) 1)"

definition Add_int64 :: "'d fpu \<Rightarrow> 'd jobj \<Rightarrow> int \<Rightarrow> 'd jobj \<times> bool" where
  "Add_int64 fp ob v = add_element fp ob (cJSON_CreateInt fp (of_int v) (-1))"

definition Add_uint64 :: "'d fpu \<Rightarrow> 'd jobj \<Rightarrow> u64 \<Rightarrow> 'd jobj \<times> bool" where
  "Add_uint64 fp ob v = add_element fp ob (cJSON_CreateInt fp v 1)"

definition Add_bool :: "'d fpu \<Rightarrow> 'd jobj \<Rightarrow> bool \<Rightarrow> 'd jobj \<times> bool" where
  "Add_bool fp ob v = add_element fp ob (cJSON_CreateBool fp (if v then 1 else 0))"

definition Add_double :: "'d fpu \<Rightarrow> 'd jobj \<Rightarrow> 'd \<Rightarrow> 'd jobj \<times> bool" where
  "Add_double fp ob v = add_element fp ob (cJSON_CreateDouble fp v (-1))"

definition Add_float :: "('f \<Rightarrow> 'd) \<Rightarrow> 'd fpu \<Rightarrow> 'd jobj \<Rightarrow> 'f \<Rightarrow> 'd jobj \<times> bool" where
  "Add_float widen fp ob v = add_element fp ob (cJSON_CreateDouble fp (widen v) (-1))"

definition Add_json :: "'d fpu \<Rightarrow> u32 \<times> u32 \<Rightarrow> 'd jobj \<Rightarrow> 'd jobj \<Rightarrow> ('d jobj \<times> bool) presult" where
  "Add_json fp junk ob v =
     put_json (addable CJ_Array ob) (\<lambda>it. add_element fp ob it) (init_focus fp CJ_Array ob) (parse_item fp junk v)"


text \<open>\<open>AddAsFirst\<close> marks every integer as signed, the unsigned ones too.\<close>

definition AddAsFirst_string :: "'d fpu \<Rightarrow> 'd jobj \<Rightarrow> byte list \<Rightarrow> 'd jobj \<times> bool" where
  "AddAsFirst_string fp ob v = add_first fp ob (cJSON_CreateString fp (c_bytes v))"

definition AddAsFirst_int32 :: "'d fpu \<Rightarrow> 'd jobj \<Rightarrow> int \<Rightarrow> 'd jobj \<times> bool" where
  "AddAsFirst_int32 fp ob v = add_first fp ob (cJSON_CreateInt fp (of_int v) (-1))"

definition AddAsFirst_uint32 :: "'d fpu \<Rightarrow> 'd jobj \<Rightarrow> u32 \<Rightarrow> 'd jobj \<times> bool" where
  "AddAsFirst_uint32 fp ob v = add_first fp ob (cJSON_CreateInt fp (ucast v) (-1))"

definition AddAsFirst_int64 :: "'d fpu \<Rightarrow> 'd jobj \<Rightarrow> int \<Rightarrow> 'd jobj \<times> bool" where
  "AddAsFirst_int64 fp ob v = add_first fp ob (cJSON_CreateInt fp (of_int v) (-1))"

definition AddAsFirst_uint64 :: "'d fpu \<Rightarrow> 'd jobj \<Rightarrow> u64 \<Rightarrow> 'd jobj \<times> bool" where
  "AddAsFirst_uint64 fp ob v = add_first fp ob (cJSON_CreateInt fp v (-1))"

definition AddAsFirst_bool :: "'d fpu \<Rightarrow> 'd jobj \<Rightarrow> bool \<Rightarrow> 'd jobj \<times> bool" where
  "AddAsFirst_bool fp ob v = add_first fp ob (cJSON_CreateBool fp (if v then 1 else 0))"

definition AddAsFirst_double :: "'d fpu \<Rightarrow> 'd jobj \<Rightarrow> 'd \<Rightarrow> 'd jobj \<times> bool" where
  "AddAsFirst_double fp ob v = add_first fp ob (cJSON_CreateDouble fp v (-1))"

definition AddAsFirst_float :: "('f \<Rightarrow> 'd) \<Rightarrow> 'd fpu \<Rightarrow> 'd jobj \<Rightarrow> 'f \<Rightarrow> 'd jobj \<times> bool" where
  "AddAsFirst_float widen fp ob v = add_first fp ob (cJSON_CreateDouble fp (widen v) (-1))"

definition AddAsFirst_json :: "'d fpu \<Rightarrow> u32 \<times> u32 \<Rightarrow> 'd jobj \<Rightarrow> 'd jobj \<Rightarrow> ('d jobj \<times> bool) presult" where
  "AddAsFirst_json fp junk ob v =
     put_json (addable CJ_Array ob) (\<lambda>it. add_first fp ob it) (init_focus fp CJ_Array ob) (parse_item fp junk v)"


definition Replace_index_string :: "'d fpu \<Rightarrow> 'd jobj \<Rightarrow> int \<Rightarrow> byte list \<Rightarrow> 'd jobj \<times> bool" where
  "Replace_index_string fp ob i v = replace_element fp ob i (cJSON_CreateString fp (c_bytes v))"

definition Replace_index_int32 :: "'d fpu \<Rightarrow> 'd jobj \<Rightarrow> int \<Rightarrow> int \<Rightarrow> 'd jobj \<times> bool" where
  "Replace_index_int32 fp ob i v = replace_element fp ob i (cJSON_CreateInt fp (of_int v) (-1))"

definition Replace_index_uint32 :: "'d fpu \<Rightarrow> 'd jobj \<Rightarrow> int \<Rightarrow> u32 \<Rightarrow> 'd jobj \<times> bool" where
  "Replace_index_uint32 fp ob i v = replace_element fp ob i (cJSON_CreateInt fp (ucast v) 1)"

definition Replace_index_int64 :: "'d fpu \<Rightarrow> 'd jobj \<Rightarrow> int \<Rightarrow> int \<Rightarrow> 'd jobj \<times> bool" where
  "Replace_index_int64 fp ob i v = replace_element fp ob i (cJSON_CreateInt fp (of_int v) (-1))"

definition Replace_index_uint64 :: "'d fpu \<Rightarrow> 'd jobj \<Rightarrow> int \<Rightarrow> u64 \<Rightarrow> 'd jobj \<times> bool" where
  "Replace_index_uint64 fp ob i v = replace_element fp ob i (cJSON_CreateInt fp v 1)"

definition Replace_index_bool :: "'d fpu \<Rightarrow> 'd jobj \<Rightarrow> int \<Rightarrow> bool \<Rightarrow> 'd jobj \<times> bool" where
  "Replace_index_bool fp ob i v = replace_element fp ob i (cJSON_CreateBool fp (if v then 1 else 0))"

definition Replace_index_double :: "'d fpu \<Rightarrow> 'd jobj \<Rightarrow> int \<Rightarrow> 'd \<Rightarrow> 'd jobj \<times> bool" where
  "Replace_index_double fp ob i v = replace_element fp ob i (cJSON_CreateDouble fp v (-1))"

definition Replace_index_float :: "('f \<Rightarrow> 'd) \<Rightarrow> 'd fpu \<Rightarrow> 'd jobj \<Rightarrow> int \<Rightarrow> 'f \<Rightarrow> 'd jobj \<times> bool" where
  "Replace_index_float widen fp ob i v = replace_element fp ob i (cJSON_CreateDouble fp (widen v) (-1))"

definition Replace_index_json :: "'d fpu \<Rightarrow> u32 \<times> u32 \<Rightarrow> 'd jobj \<Rightarrow> int \<Rightarrow> 'd jobj \<Rightarrow> ('d jobj \<times> bool) presult" where
  "Replace_index_json fp junk ob i v =
     put_json (replaceable CJ_Array ob) (\<lambda>it. replace_element fp ob i it) ob (parse_item fp junk v)"


end
