(* ===== verification/CJsonObject_Laws.thy ===== *)
theory CJsonObject_Laws
  imports CJsonObject
begin

text \<open>
  What \<open>CJsonObject\<close> promises: members behave as a map, elements as a list, every typed reader
  takes back what the writer of its type stored, and copies print the same text.
\<close>

section \<open>Members\<close>

lemma has_type_simps [simp]:
  "has_type t (with_child cs c) \<longleftrightarrow> has_type t c"
  "has_type t (with_name nm c) \<longleftrightarrow> has_type t c"
  "has_type t (cJSON_AddItemToArray c it) \<longleftrightarrow> has_type t c"
  "has_type t (cJSON_AddItemToArrayHead c it) \<longleftrightarrow> has_type t c"
  "has_type t (cJSON_AddItemToObject c k it) \<longleftrightarrow> has_type t c"
  "has_type t (cJSON_ReplaceItemInArray c i x) \<longleftrightarrow> has_type t c"
  "has_type t (cJSON_ReplaceItemInObject c k x) \<longleftrightarrow> has_type t c"
  "has_type t (fst (cJSON_DetachItemFromArray c i)) \<longleftrightarrow> has_type t c"
  "has_type t (fst (cJSON_DetachItemFromObject c nm)) \<longleftrightarrow> has_type t c"
  by (auto simp: has_type_def with_child_def with_name_def cJSON_AddItemToArray_def cJSON_AddItemToArrayHead_def
      cJSON_AddItemToObject_def cJSON_ReplaceItemInArray_def cJSON_ReplaceItemInObject_def
      cJSON_DetachItemFromArray_def cJSON_DetachItemFromObject_def Let_def split: option.split)

lemma focus_with_focus [simp]: "focus (with_focus c ob) = Some c"
  by (auto simp: focus_def with_focus_def split: option.split)

lemma focus_init:
  "focus (init_focus fp t ob) = (case focus ob of None \<Rightarrow> Some (with_type t (cJSON_New_Item fp)) | Some c \<Rightarrow> Some c)"
  by (auto simp: init_focus_def focus_def split: option.split)

lemma has_type_new [simp]: "has_type t (with_type t (cJSON_New_Item fp))"
  by (simp add: has_type_def with_type_def cJSON_New_Item_def)

lemma child_new [simp]: "child (with_type t (cJSON_New_Item fp)) = []"
  by (simp add: with_type_def cJSON_New_Item_def)

lemma addable_init: "addable t ob \<Longrightarrow> \<exists>c. focus (init_focus fp t ob) = Some c \<and> has_type t c"
  by (auto simp: focus_init addable_def split: option.splits)

lemma get_member_new: "focus ob = None \<Longrightarrow> get_member ob k = None"
  by (simp add: get_member_def)

definition key_eq :: "byte list \<Rightarrow> byte list \<Rightarrow> bool" where
  "key_eq k k' \<longleftrightarrow> same_text (c_bytes k) (c_bytes k')"

definition renamed :: "byte list \<Rightarrow> 'd cjson \<Rightarrow> 'd cjson" where
  "renamed k it = with_name (Some (c_bytes k)) it"

lemma key_eq_refl [simp]: "key_eq k k"
  by (simp add: key_eq_def same_text_map)

lemma add_member_get:
  assumes "addable CJ_Object ob"
  shows "snd (add_member fp ob k it)"
    and "get_member (fst (add_member fp ob k it)) k' =
      (case get_member ob k' of Some c \<Rightarrow> Some c | None \<Rightarrow> if key_eq k k' then Some (renamed k it) else None)"
proof -
  obtain c where c: "focus (init_focus fp CJ_Object ob) = Some c" "has_type CJ_Object c"
    using addable_init [OF assms] by blast
  have m: "get_member ob k = cJSON_GetObjectItem c (Some (c_bytes k))" for k
    using c assms by (cases "focus ob") (auto simp: focus_init get_member_def addable_def GetObjectItem_lookup)
  have a: "add_member fp ob k it =
    (with_focus (cJSON_AddItemToObject c (c_bytes k) (Some it)) (init_focus fp CJ_Object ob),
     cJSON_GetObjectItem (cJSON_AddItemToObject c (c_bytes k) (Some it)) (Some (c_bytes k)) \<noteq> None)"
    using c by (simp add: add_member_def Let_def)
  show "snd (add_member fp ob k it)"
    by (simp add: a get_after_add same_text_map split: option.split)
  show "get_member (fst (add_member fp ob k it)) k' =
      (case get_member ob k' of Some c \<Rightarrow> Some c | None \<Rightarrow> if key_eq k k' then Some (renamed k it) else None)"
    by (simp add: a m) (simp add: get_member_def c(2) get_after_add key_eq_def renamed_def split: option.split)
qed

lemma replace_member_get:
  assumes "replaceable CJ_Object ob"
  shows "snd (replace_member fp ob k it) \<longleftrightarrow> get_member ob k \<noteq> None"
    and "get_member (fst (replace_member fp ob k it)) k' =
      (if key_eq k k' \<and> get_member ob k \<noteq> None then Some (renamed k it) else get_member ob k')"
proof -
  obtain c where c: "focus ob = Some c" "has_type CJ_Object c"
    using assms by (auto simp: replaceable_def split: option.splits)
  have m: "get_member ob k = cJSON_GetObjectItem c (Some (c_bytes k))" for k
    using c by (simp add: get_member_def)
  have r: "replace_member fp ob k it =
    (with_focus (cJSON_ReplaceItemInObject c (c_bytes k) it) ob,
     cJSON_GetObjectItem (cJSON_ReplaceItemInObject c (c_bytes k) it) (Some (c_bytes k)) \<noteq> None)"
    using c by (simp add: replace_member_def Let_def)
  show "snd (replace_member fp ob k it) \<longleftrightarrow> get_member ob k \<noteq> None"
    by (auto simp: r m get_after_replace same_text_map)
  show "get_member (fst (replace_member fp ob k it)) k' =
      (if key_eq k k' \<and> get_member ob k \<noteq> None then Some (renamed k it) else get_member ob k')"
    by (auto simp: r m get_member_def [of "with_focus _ _"] c(2) get_after_replace key_eq_def renamed_def)
qed

lemma delete_key_get:
  assumes "replaceable CJ_Object ob"
  shows "snd (Delete_key ob k)"
    and "\<not> key_eq k k' \<Longrightarrow> get_member (fst (Delete_key ob k)) k' = get_member ob k'"
proof -
  obtain c where c: "focus ob = Some c" "has_type CJ_Object c"
    using assms by (auto simp: replaceable_def split: option.splits)
  have d: "Delete_key ob k = (with_focus (cJSON_DeleteItemFromObject c (Some (c_bytes k))) ob, True)"
    using c by (simp add: Delete_key_def)
  show "snd (Delete_key ob k)" by (simp add: d)
  show "get_member (fst (Delete_key ob k)) k' = get_member ob k'" if "\<not> key_eq k k'"
    using that c get_after_detach [of c "c_bytes k" "c_bytes k'"]
    by (simp add: d get_member_def key_eq_def cJSON_DeleteItemFromObject_def)
qed

section \<open>Elements\<close>

definition elements :: "'d jobj \<Rightarrow> 'd cjson list" where
  "elements ob = (case focus ob of None \<Rightarrow> [] | Some c \<Rightarrow> if has_type CJ_Array c then child c else [])"

lemma elements_init: "addable CJ_Array ob \<Longrightarrow> \<exists>c. focus (init_focus fp CJ_Array ob) = Some c \<and>
    has_type CJ_Array c \<and> child c = elements ob"
  by (auto simp: focus_init addable_def elements_def split: option.splits)

lemma elements_add:
  assumes "addable CJ_Array ob"
  shows "snd (add_element fp ob it) \<and> elements (fst (add_element fp ob it)) = elements ob @ [it] \<and>
    snd (add_first fp ob it) \<and> elements (fst (add_first fp ob it)) = it # elements ob"
proof -
  obtain c where "focus (init_focus fp CJ_Array ob) = Some c" "has_type CJ_Array c" "child c = elements ob"
    using elements_init [OF assms] by blast
  then show ?thesis
    by (simp add: add_element_def add_first_def Let_def elements_def [of "with_focus _ _"]
        cJSON_AddItemToArray_def cJSON_AddItemToArrayHead_def cJSON_GetArraySize_def)
qed

lemma elements_replace:
  assumes "replaceable CJ_Array ob"
  shows "snd (replace_element fp ob i it) \<longleftrightarrow> nat i < length (elements ob)"
    and "elements (fst (replace_element fp ob i it)) = (elements ob)[nat i := it]"
  using assms
  by (auto simp: replace_element_def Let_def elements_def replaceable_def cJSON_ReplaceItemInArray_def
      cJSON_GetArrayItem_def list_update_beyond split: option.splits)

lemma elements_delete:
  assumes "replaceable CJ_Array ob"
  shows "elements (fst (Delete_index ob i)) = take (nat i) (elements ob) @ drop (Suc (nat i)) (elements ob)"
  using assms
  by (auto simp: Delete_index_def elements_def replaceable_def cJSON_DeleteItemFromArray_def
      cJSON_DetachItemFromArray_def Let_def split: option.splits)

lemma get_element_nth:
  "get_element ob i = (if nat i < length (elements ob) then Some (elements ob ! nat i) else None)"
  "Jobj_GetArraySize ob = length (elements ob)"
  by (auto simp: get_element_def elements_def cJSON_GetArrayItem_def Jobj_GetArraySize_def cJSON_GetArraySize_def
      split: option.splits)

section \<open>Typed values\<close>

text \<open>The contract of a type: its reader takes back what its constructor made, named or not.\<close>

locale typed_value =
  fixes ok :: "'v \<Rightarrow> bool" and mk :: "'v \<Rightarrow> 'd cjson" and rd :: "'d cjson \<Rightarrow> 'v option"
  assumes rd_mk: "ok v \<Longrightarrow> rd (mk v) = Some v"
    and rd_named: "rd (with_name nm c) = rd c"
begin

lemma add_then_get:
  assumes "addable CJ_Object ob" and "get_member ob k = None" and "ok v"
  shows "snd (add_member fp ob k (mk v)) \<and>
    Option.bind (get_member (fst (add_member fp ob k (mk v))) k) rd = Some v"
  by (simp add: add_member_get [OF assms(1)] assms(2) renamed_def rd_named rd_mk [OF assms(3)])

lemma replace_then_get:
  assumes "replaceable CJ_Object ob" and "get_member ob k \<noteq> None" and "ok v"
  shows "snd (replace_member fp ob k (mk v)) \<and>
    Option.bind (get_member (fst (replace_member fp ob k (mk v))) k) rd = Some v"
  using assms(2) by (simp add: replace_member_get [OF assms(1)] renamed_def rd_named rd_mk [OF assms(3)])

lemma append_then_get:
  assumes "addable CJ_Array ob" and "ok v"
  shows "Option.bind (get_element (fst (add_element fp ob (mk v))) (int (length (elements ob)))) rd = Some v \<and>
    Option.bind (get_element (fst (add_first fp ob (mk v))) 0) rd = Some v"
  using elements_add [OF assms(1), of fp "mk v"] by (simp add: get_element_nth rd_mk [OF assms(2)])

end

lemma c_bytes_id: "0 \<notin> set s \<Longrightarrow> c_bytes s = s"
  unfolding c_bytes_def takeWhile_eq_all_conv by auto

lemma items_simps [simp]:
  "item_string (with_name nm c) = item_string c" "item_uint64 (with_name nm c) = item_uint64 c"
  "item_bool (with_name nm c) = item_bool c" "item_double (with_name nm c) = item_double c"
  by (simp_all add: item_string_def item_uint64_def item_bool_def item_double_def with_name_def has_type_def)

lemma item_uint64_create [simp]: "item_uint64 (cJSON_CreateInt fp v sg) = Some v"
  by (simp add: item_uint64_def cJSON_CreateInt_def has_type_def)

definition int_range :: "nat \<Rightarrow> int \<Rightarrow> bool" where
  "int_range n v \<longleftrightarrow> - (2 ^ (n - 1)) \<le> v \<and> v < 2 ^ (n - 1)"

lemma sint_of_int:
  "int_range 64 v \<Longrightarrow> sint (of_int v :: u64) = v" "int_range 32 v \<Longrightarrow> sint (of_int v :: u32) = v"
  by (simp_all add: int_range_def signed_of_int signed_take_bit_int_eq_self)

lemma ucast_of_int: "(ucast (of_int v :: u64) :: u32) = of_int v"
  by (rule bit_word_eqI) (simp add: bit_simps)

lemma ucast_up_down: "(ucast (ucast (v :: u32) :: u64) :: u32) = v"
  by (rule bit_word_eqI) (simp add: bit_simps)

interpretation strings: typed_value "\<lambda>s. 0 \<notin> set s" "\<lambda>s. cJSON_CreateString fp (c_bytes s)" item_string
  for fp :: "'d fpu"
  by unfold_locales (simp_all add: item_string_def cJSON_CreateString_def has_type_def c_bytes_id with_name_def)

interpretation int32s: typed_value "int_range 32" "\<lambda>v. cJSON_CreateInt fp (of_int v) (-1)" item_int32
  for fp :: "'d fpu"
  by unfold_locales (simp_all add: item_int32_def ucast_of_int sint_of_int)

interpretation uint32s: typed_value "\<lambda>_ :: u32. True" "\<lambda>v. cJSON_CreateInt fp (ucast v) 1" item_uint32
  for fp :: "'d fpu"
  by unfold_locales (simp_all add: item_uint32_def ucast_up_down)

interpretation int64s: typed_value "int_range 64" "\<lambda>v. cJSON_CreateInt fp (of_int v) (-1)" item_int64
  for fp :: "'d fpu"
  by unfold_locales (simp_all add: item_int64_def sint_of_int)

interpretation uint64s: typed_value "\<lambda>_ :: u64. True" "\<lambda>v. cJSON_CreateInt fp v 1" item_uint64
  for fp :: "'d fpu"
  by unfold_locales simp_all

interpretation bools: typed_value "\<lambda>_ :: bool. True" "\<lambda>v. cJSON_CreateBool fp (if v then 1 else 0)" item_bool
  for fp :: "'d fpu"
  by unfold_locales (simp_all add: item_bool_def cJSON_CreateBool_def with_type_def with_name_def cJSON_New_Item_def)

interpretation doubles: typed_value "\<lambda>_ :: 'd. True" "\<lambda>v. cJSON_CreateDouble fp v (-1)" item_double
  for fp :: "'d fpu"
  by unfold_locales (simp_all add: item_double_def cJSON_CreateDouble_def has_type_def with_name_def)

text \<open>What \<open>Add(key, value)\<close> stores under a new key, \<open>Get\<close> of the same type reads back
  unchanged, for strings without zero bytes, signed and unsigned integers of 32 and 64 bits over their
  whole range, booleans and doubles; the object may be empty before.\<close>

theorem jobj_typed_members:
  assumes "addable CJ_Object ob" and "get_member ob k = None"
    and "0 \<notin> set s" and "int_range 32 i" and "int_range 64 l"
  shows "Get_key_string (fst (Add_key_string fp ob k s)) k = Some s \<and>
    Get_key_int32 (fst (Add_key_int32 fp ob k i)) k = Some i \<and>
    Get_key_uint32 (fst (Add_key_uint32 fp ob k u)) k = Some u \<and>
    Get_key_int64 (fst (Add_key_int64 fp ob k l)) k = Some l \<and>
    Get_key_uint64 (fst (Add_key_uint64 fp ob k w)) k = Some w \<and>
    Get_key_bool (fst (Add_key_bool fp ob k b)) k = Some b \<and>
    Get_key_double (fst (Add_key_double fp ob k d)) k = Some d"
  unfolding Get_key_string_def Add_key_string_def Get_key_int32_def Add_key_int32_def Get_key_uint32_def
    Add_key_uint32_def Get_key_int64_def Add_key_int64_def Get_key_uint64_def Add_key_uint64_def
    Get_key_bool_def Add_key_bool_def Get_key_double_def Add_key_double_def
  using strings.add_then_get [OF assms(1-3)] int32s.add_then_get [OF assms(1,2,4)]
    uint32s.add_then_get [OF assms(1,2) TrueI] int64s.add_then_get [OF assms(1,2,5)]
    uint64s.add_then_get [OF assms(1,2) TrueI] bools.add_then_get [OF assms(1,2) TrueI]
    doubles.add_then_get [OF assms(1,2) TrueI]
  by blast

theorem jobj_typed_members_witness:
  "Get_key_int32 (fst (Add_key_int32 int_fpu empty_jobj [97] (- 7))) [97] = Some (- 7)"
  using jobj_typed_members [of empty_jobj "[97]" "[98]" "- 7" "- 8" int_fpu 1 2 True 3]
  by (simp add: addable_def focus_def empty_jobj_def get_member_def int_range_def)



text \<open>The elements of a \<open>CJsonObject\<close> that is an array or empty are a list: \<open>Add\<close> appends,
  \<open>AddAsFirst\<close> prepends, \<open>Replace\<close> overwrites and reports whether the index is in range,
  \<open>Delete\<close> removes; \<open>Get\<close> and \<open>GetArraySize\<close> read the list. A negative index means the first
  element throughout.\<close>

theorem jobj_array_list:
  assumes "replaceable CJ_Array ob"
  shows "elements (fst (add_element fp ob it)) = elements ob @ [it] \<and>
    elements (fst (add_first fp ob it)) = it # elements ob \<and>
    elements (fst (replace_element fp ob i it)) = (elements ob)[nat i := it] \<and>
    (snd (replace_element fp ob i it) \<longleftrightarrow> nat i < length (elements ob)) \<and>
    elements (fst (Delete_index ob i)) = take (nat i) (elements ob) @ drop (Suc (nat i)) (elements ob) \<and>
    get_element ob i = (if nat i < length (elements ob) then Some (elements ob ! nat i) else None) \<and>
    Jobj_GetArraySize ob = length (elements ob)"
proof -
  have "addable CJ_Array ob" using assms by (auto simp: addable_def replaceable_def split: option.splits)
  from elements_add [OF this] show ?thesis
    by (simp add: elements_replace [OF assms] elements_delete [OF assms] get_element_nth)
qed

theorem jobj_array_list_witness:
  "elements (fst (add_first int_fpu (extern_jobj (cJSON_CreateArray int_fpu)) (cJSON_CreateNull int_fpu))) =
    [cJSON_CreateNull int_fpu]"
  using jobj_array_list [of "extern_jobj (cJSON_CreateArray int_fpu)" int_fpu "cJSON_CreateNull int_fpu" 0]
  by (simp add: replaceable_def focus_def extern_jobj_def cJSON_CreateArray_def elements_def)

section \<open>Copies\<close>

text \<open>The JSON value of an item; a double, a null string or a member without a name has none.\<close>

fun to_jval :: "'d cjson \<Rightarrow> jval option" where
  "to_jval (CJson t rf vs vi vd sg nm cs) =
     (case t of
        CJ_NULL \<Rightarrow> Some JNull | CJ_False \<Rightarrow> Some (JBool False) | CJ_True \<Rightarrow> Some (JBool True)
      | CJ_Int \<Rightarrow> Some (JInt (if sg = -1 then sint vi else uint vi))
      | CJ_Double \<Rightarrow> None
      | CJ_String \<Rightarrow> map_option (\<lambda>s. JStr (c_bytes s)) vs
      | CJ_Array \<Rightarrow> map_option JArr (those (map to_jval cs))
      | CJ_Object \<Rightarrow> map_option JObj (those (map (\<lambda>c. case cname c of None \<Rightarrow> None
          | Some n \<Rightarrow> map_option (Pair (c_bytes n)) (to_jval c)) cs)))"

lemma those_map: "those (map f xs) = Some ys \<longleftrightarrow> list_all2 (\<lambda>x y. f x = Some y) xs ys"
  by (induction xs arbitrary: ys) (auto simp: list_all2_Cons1 split: option.splits)

lemma zero_c_bytes: "0 \<notin> set (c_bytes s)"
  by (auto simp: c_bytes_def dest: set_takeWhileD)

lemma print_string_c_bytes: "print_string_ptr (Some (c_bytes s)) = print_string_ptr (Some s)"
  by (simp add: print_string_ptr_def c_bytes_def)

lemma print_int_to_jval:
  fixes v :: u64
  shows "print_int (CJson t rf vs v vd sg nm cs) =
    print_int (CJson t rf vs (of_int (if sg = -1 then sint v else uint v)) vd
      (if (if sg = -1 then sint v else uint v) < 0 then -1 else 1) nm cs)"
proof (cases "sg = -1 \<and> 0 \<le> sint v")
  case True
  then have "uint v = sint v" 
    using sint_range_size [of v] by (simp add: uint_sint take_bit_int_eq_self word_size)
  then have "dec (unat v) = fmt_d (sint v)" using True 
    by (simp add: fmt_d_def flip: nat_uint_eq)
  moreover have "\<not> (v \<le> 0x7FFFFFFF \<and> v \<ge> 0xFFFFFFFF80000000)" by (auto dest: order.trans)
  moreover have "unat (ucast v :: u32) = unat v" if "v \<le> 0xFFFFFFFF"
    using that by (simp add: unsigned_ucast_eq take_bit_nat_eq_self word_le_nat_alt)
  ultimately show ?thesis using True by (auto simp: print_int_def Let_def)
next
  case False
  then show ?thesis by (auto simp: print_int_def Let_def)
qed

lemma to_jval_print:
  "to_jval c = Some j \<Longrightarrow> wf_jval j \<and> (\<forall>d fmt. print_value fp d fmt c = text_of fp d fmt j)"
proof (induction c arbitrary: j rule: to_jval.induct)
  case (1 t rf vs vi vd sg nm cs)
  show ?case
  proof (cases t)
    case CJ_Int
    let ?i = "if sg = -1 then sint vi else uint vi"
    have "- (2 ^ 63) \<le> ?i" "?i < 2 ^ 64"
      using sint_range_size [of vi] uint_range_size [of vi]
      by (auto simp: word_size intro: order.trans [of _ 0])
    with 1(3) CJ_Int show ?thesis
      using print_int_to_jval [of CJ_Int rf vs vi vd sg nm cs]
      by (auto simp: text_of_def print_int_def)
  next
    case CJ_Array
    then obtain js where js: "j = JArr js" "list_all2 (\<lambda>x y. to_jval x = Some y) cs js"
      using 1(3) by (auto simp: those_map)
    have "list_all2 (\<lambda>x y. wf_jval y \<and> (\<forall>d fmt. print_value fp d fmt x = text_of fp d fmt y)) cs js"
      by (rule list.rel_mono_strong [OF js(2)]) (use 1(1) CJ_Array in blast)
    then have "(\<forall>y \<in> set js. wf_jval y) \<and> (\<forall>d fmt. map (print_value fp d fmt) cs = map (text_of fp d fmt) js)"
      by (induction rule: list_all2_induct) auto
    then show ?thesis using CJ_Array by (auto simp: js(1) text_of_simps)
  next
    case CJ_Object
    let ?f = "\<lambda>c. case cname c of None \<Rightarrow> None | Some n \<Rightarrow> map_option (Pair (c_bytes n)) (to_jval c)"
    obtain ms where ms: "j = JObj ms" "list_all2 (\<lambda>x y. ?f x = Some y) cs ms"
      using 1(3) CJ_Object by (auto simp: those_map)
    have "list_all2 (\<lambda>x y. 0 \<notin> set (fst y) \<and> wf_jval (snd y) \<and>
      (\<forall>d fmt. (print_string_ptr (cname x), print_value fp d fmt x) = member_text fp d fmt y)) cs ms"
      by (rule list.rel_mono_strong [OF ms(2)])
        (use 1(2) CJ_Object in \<open>fastforce simp: member_text_def print_string_c_bytes zero_c_bytes split: option.splits\<close>)
    then have "(\<forall>y \<in> set ms. 0 \<notin> set (fst y) \<and> wf_jval (snd y)) \<and> (\<forall>d fmt.
      map (\<lambda>c. (print_string_ptr (cname c), print_value fp d fmt c)) cs = map (member_text fp d fmt) ms)"
      by (induction rule: list_all2_induct) auto
    then show ?thesis using CJ_Object by (auto simp: ms(1) text_of_simps)
  qed (use 1(3) in \<open>auto simp: text_of_simps print_string_c_bytes zero_c_bytes\<close>)
qed

text \<open>Printed text has no zero byte, so nothing is lost when it passes through a C string.\<close>

lemma ascii_no_zero: "CHR 0x00 \<notin> set s \<Longrightarrow> 0 \<notin> set (ascii s)"
proof -
  assume a: "CHR 0x00 \<notin> set s"
  have "of_nat (of_char c) \<noteq> (0 :: byte)" if "c \<in> set s" for c
  proof
    assume "of_nat (of_char c) = (0 :: byte)"
    then have "(of_char c :: nat) = 0" using unat_of_char [of c] by simp
    then have "c = char_of (0 :: nat)" using char_of_char [of c, where 'a = nat] by simp
    then have "c = CHR 0x00" by (simp add: char_of_def)
    with a that show False by simp
  qed
  then show ?thesis by (auto simp: ascii_def)
qed

lemma digit_no_zero: "is_digit c \<Longrightarrow> c \<noteq> CHR 0x00"
  by (auto simp: is_digit_def)

lemma hex4_no_zero: "d < 16 \<Longrightarrow> hex4 d \<noteq> 0"
  by (auto simp: word_unat_eq_iff unat_hex4 split: if_splits)

lemma print_string_no_zero: "0 \<notin> set (print_string_ptr (Some s))"
proof -
  have "0 \<notin> set (escape_char c)" if "c \<noteq> 0" for c
  proof (cases c rule: escape_char_cases)
    case 3
    have "unat c < 32" using 3(1) by (simp add: word_less_nat_alt)
    then have "hex4 (unat c div 16) \<noteq> 0" "hex4 (unat c mod 16) \<noteq> 0"
      by (intro hex4_no_zero, simp)+
    with 3 show ?thesis by auto
  qed (use that in auto)
  then show ?thesis by (auto simp: print_string_ptr_def dest!: set_takeWhileD)
qed

lemma join_elements_no_zero: "\<forall>e \<in> set es. 0 \<notin> set e \<Longrightarrow> 0 \<notin> set (join_elements fmt es)"
  by (induction fmt es rule: join_elements.induct) auto

lemma join_members_no_zero:
  "\<forall>(n, e) \<in> set ms. 0 \<notin> set n \<and> 0 \<notin> set e \<Longrightarrow> 0 \<notin> set (join_members d fmt ms)"
  by (induction d fmt ms rule: join_members.induct) auto

lemma text_of_no_zero: "wf_jval j \<Longrightarrow> 0 \<notin> set (text_of fp d fmt j)"
proof (induction j arbitrary: d)
  case (JInt i)
  have "CHR 0x00 \<notin> set (dec (nat \<bar>i\<bar>))" using dec_digits digit_no_zero by blast
  then have "0 \<notin> set (ascii (dec (nat \<bar>i\<bar>)))" by (rule ascii_no_zero)
  with JInt show ?case by (simp add: text_of_simps del: wf_jval.simps)
next
  case (JArr js)
  then have "\<forall>e \<in> set (map (text_of fp (d + 1) fmt) js). 0 \<notin> set e" by auto
  from join_elements_no_zero [OF this] show ?case by (simp add: text_of_simps)
next
  case (JObj ms)
  then have "\<forall>(n, e) \<in> set (map (member_text fp (d + 1) fmt) ms). 0 \<notin> set n \<and> 0 \<notin> set e"
    by (fastforce simp: member_text_def print_string_no_zero)
  from join_members_no_zero [OF this] show ?case by (simp add: text_of_simps)
qed (simp_all add: text_of_simps print_string_no_zero, auto simp: ascii_def)

lemma copy_prints_same:
  assumes "focus ob = Some c" and "to_jval c = Some j"
  shows "\<exists>ob'. Jobj_copy fp junk ob = Done ob' \<and> Jobj_assign fp junk ob = Done ob' \<and> Jobj_equal fp ob' ob \<and>
    jextern ob' = None"
proof -
  have j: "wf_jval j" "Jobj_ToString fp ob = text_of fp 0 False j"
    using to_jval_print [OF assms(2)] by (simp_all add: Jobj_ToString_def assms(1) cJSON_PrintUnformatted_def)
  have c: "c_bytes (text_of fp 0 False j) = text_of fp 0 False j"
    by (rule c_bytes_id [OF text_of_no_zero [OF j(1)]])
  have "cJSON_Parse fp junk (text_of fp 0 False j) = Done (of_jval fp None j)"
    unfolding text_of_def by (rule cJSON_Parse_print [OF j(1)])
  then have "Jobj_Parse fp junk (text_of fp 0 False j) = Done (empty_jobj\<lparr>jdata := Some (of_jval fp None j)\<rparr>, True)"
    by (simp add: Jobj_Parse_def c)
  moreover have "Jobj_ToString fp (empty_jobj\<lparr>jdata := Some (of_jval fp None j)\<rparr>) = text_of fp 0 False j"
    by (simp add: Jobj_ToString_def focus_def cJSON_PrintUnformatted_def text_of_def)
  ultimately show ?thesis
    by (simp add: Jobj_copy_def Jobj_assign_def j c Jobj_equal_def empty_jobj_def)
qed

text \<open>Copying and assigning a \<open>CJsonObject\<close> without doubles, which the code does by printing and
  parsing, succeeds and yields an object with a tree of its own that is equal to the source in the sense
  of \<open>operator==\<close>, whatever signs the integers were stored with and wherever the source's data lives.\<close>

theorem jobj_copy_equal:
  assumes "focus ob = Some c" and "to_jval c \<noteq> None"
  shows "\<exists>ob'. Jobj_copy fp junk ob = Done ob' \<and> Jobj_assign fp junk ob = Done ob' \<and> Jobj_equal fp ob' ob \<and>
    jextern ob' = None"
  using assms copy_prints_same by blast

theorem jobj_copy_equal_witness:
  "\<exists>ob'. Jobj_copy int_fpu (0, 0) (extern_jobj (cJSON_CreateInt int_fpu 5 (- 1))) = Done ob' \<and>
    Jobj_equal int_fpu ob' (extern_jobj (cJSON_CreateInt int_fpu 5 (- 1)))"
  using jobj_copy_equal [of "extern_jobj (cJSON_CreateInt int_fpu 5 (- 1))" "cJSON_CreateInt int_fpu 5 (- 1)"
      int_fpu "(0, 0)"]
  by (auto simp: focus_def extern_jobj_def cJSON_CreateInt_def)

text \<open>\<open>AddAsFirst\<close> marks unsigned 64-bit integers as signed: a value of \<open>2 ^ 63\<close> or more is
  printed as a negative number, while \<open>Add\<close> prints the value that was given.\<close>

theorem jobj_add_first_unsigned:
  assumes "2 ^ 63 \<le> unat v"
  shows "Jobj_ToString fp (fst (AddAsFirst_uint64 fp empty_jobj v)) =
      [91] @ ascii (fmt_d (int (unat v) - 2 ^ 64)) @ [93] \<and>
    Jobj_ToString fp (fst (Add_uint64 fp empty_jobj v)) = [91] @ ascii (dec (unat v)) @ [93]"
proof -
  have "sint v = int (unat v) - 2 ^ 64"
  proof -
    have "unat v < 2 ^ LENGTH(64)" by (rule unsigned_less)
    then have "uint v < 2 ^ 64" "2 ^ 63 \<le> uint v" using assms by (simp_all flip: nat_uint_eq)
    moreover from this have "(uint v + 2 ^ 63) mod 2 ^ 64 = uint v + 2 ^ 63 - 2 ^ 64"
      by (subst mod_pos_geq) simp_all
    ultimately show ?thesis
      by (simp add: sint_uint signed_take_bit_eq_take_bit_shift take_bit_eq_mod flip: nat_uint_eq)
  qed
  moreover have "\<not> (v \<le> 0x7FFFFFFF \<and> v \<ge> 0xFFFFFFFF80000000)" by (auto dest: order.trans)
  moreover have "\<not> v \<le> 0xFFFFFFFF" using assms by (simp add: word_le_nat_alt)
  ultimately have "print_int (CJson CJ_Int False None v d (-1) nm cs) = ascii (fmt_d (int (unat v) - 2 ^ 64))"
    "print_int (CJson CJ_Int False None v d 1 nm cs) = ascii (dec (unat v))" for d :: 'a and nm cs
    by (auto simp: print_int_def Let_def)
  then show ?thesis
    by (simp add: AddAsFirst_uint64_def Add_uint64_def add_first_def add_element_def Let_def focus_init
        empty_jobj_def focus_def init_focus_def with_focus_def Jobj_ToString_def cJSON_PrintUnformatted_def
        cJSON_AddItemToArray_def cJSON_AddItemToArrayHead_def with_child_def with_type_def cJSON_New_Item_def
        has_type_def cJSON_CreateInt_def)
qed

theorem jobj_add_first_unsigned_witness:
  "Jobj_ToString int_fpu (fst (AddAsFirst_uint64 int_fpu empty_jobj 0xFFFFFFFFFFFFFFFF)) = [91, 45, 49, 93]"
  using jobj_add_first_unsigned [of "0xFFFFFFFFFFFFFFFF" int_fpu]
  by (simp add: fmt_d_def dec.simps [of "Suc 0"] digit_char_def ascii_def)

end
