(* ===== verification/StdMap.thy ===== *)
theory StdMap
  imports Prelude "HOL-Library.List_Lexorder" "HOL-Library.Char_ord"
begin

text \<open>
  \<open>std::map\<close> as the list of its entries in key order, which is the order the code iterates in.
  The contract that the clients use is the locale \<open>ordered_map\<close>.
\<close>

section \<open>Operations\<close>

type_synonym ('k, 'v) stdmap = "('k \<times> 'v) list"

fun map_find :: "'k \<Rightarrow> ('k, 'v) stdmap \<Rightarrow> 'v option" where
  "map_find k [] = None"
| "map_find k ((k', v) # m) = (if k = k' then Some v else map_find k m)"

text \<open>\<open>m[k] = v\<close>, and \<open>insert\<close>, which keeps an entry that is there.\<close>

fun map_put :: "'k::linorder \<Rightarrow> 'v \<Rightarrow> ('k, 'v) stdmap \<Rightarrow> ('k, 'v) stdmap" where
  "map_put k v [] = [(k, v)]"
| "map_put k v ((k', v') # m) =
     (if k < k' then (k, v) # (k', v') # m else if k = k' then (k, v) # m else (k', v') # map_put k v m)"

definition map_insert :: "'k::linorder \<Rightarrow> 'v \<Rightarrow> ('k, 'v) stdmap \<Rightarrow> ('k, 'v) stdmap" where
  "map_insert k v m = (if map_find k m = None then map_put k v m else m)"

definition map_erase :: "'k \<Rightarrow> ('k, 'v) stdmap \<Rightarrow> ('k, 'v) stdmap" where
  "map_erase k m = filter (\<lambda>e. fst e \<noteq> k) m"

definition map_ok :: "('k::linorder, 'v) stdmap \<Rightarrow> bool" where
  "map_ok m \<longleftrightarrow> sorted_wrt (<) (map fst m)"

section \<open>The contract\<close>

locale ordered_map =
  fixes ok :: "'m \<Rightarrow> bool" and find :: "'k \<Rightarrow> 'm \<Rightarrow> 'v option" and put :: "'k \<Rightarrow> 'v \<Rightarrow> 'm \<Rightarrow> 'm"
    and erase :: "'k \<Rightarrow> 'm \<Rightarrow> 'm" and entries :: "'m \<Rightarrow> ('k \<times> 'v) list"
  assumes find_put: "ok m \<Longrightarrow> find k' (put k v m) = (if k' = k then Some v else find k' m)"
    and find_erase: "find k' (erase k m) = (if k' = k then None else find k' m)"
    and put_ok: "ok m \<Longrightarrow> ok (put k v m)"
    and erase_ok: "ok m \<Longrightarrow> ok (erase k m)"
    and entries_find: "ok m \<Longrightarrow> (k, v) \<in> set (entries m) \<longleftrightarrow> find k m = Some v"
    and entries_distinct: "ok m \<Longrightarrow> distinct (map fst (entries m))"
begin

lemma entries_put:
  "ok m \<Longrightarrow> set (entries (put k v m)) = insert (k, v) {e \<in> set (entries m). fst e \<noteq> k}"
  using entries_find [OF put_ok [of m k v]] entries_find [of m] find_put [of m]
  by (auto split: if_splits)

lemma entries_erase: "ok m \<Longrightarrow> set (entries (erase k m)) = {e \<in> set (entries m). fst e \<noteq> k}"
  using entries_find [OF erase_ok [of m k]] entries_find [of m] find_erase
  by (auto split: if_splits)

lemma put_again: "ok m \<Longrightarrow> find k' (put k w (put k v m)) = find k' (put k w m)"
  by (simp add: find_put put_ok)

lemma size_put: "ok m \<Longrightarrow> find k m = None \<Longrightarrow> length (entries (put k v m)) = Suc (length (entries m))"
proof -
  assume m: "ok m" "find k m = None"
  have "length (entries m) = card (set (map fst (entries m)))"
    if "ok m" for m
    using entries_distinct [OF that] by (metis distinct_card length_map)
  moreover have "set (map fst (entries (put k v m))) = insert k (set (map fst (entries m)))"
    using entries_put [OF m(1), of k v] entries_find [OF m(1), of k] m(2) by force
  moreover have "k \<notin> set (map fst (entries m))" using entries_find [OF m(1), of k] m(2) by auto
  ultimately show ?thesis using m put_ok by simp
qed

end

section \<open>The lists satisfy it\<close>

lemma map_find_entries: "distinct (map fst m) \<Longrightarrow> (k, v) \<in> set m \<longleftrightarrow> map_find k m = Some v"
  by (induction m) (auto simp: rev_image_eqI split: if_splits)

lemma map_ok_distinct: "map_ok m \<Longrightarrow> distinct (map fst m)"
  by (simp add: map_ok_def strict_sorted_iff)

lemma map_find_put:
  "map_ok m \<Longrightarrow> map_find k' (map_put k v m) = (if k' = k then Some v else map_find k' m)"
  by (induction m) (auto simp: map_ok_def)

lemma map_find_erase: "map_find k' (map_erase k m) = (if k' = k then None else map_find k' m)"
  by (induction m) (auto simp: map_erase_def)

lemma fst_map_put: "fst ` set (map_put k v m) = insert k (fst ` set m)"
proof (induction m)
  case (Cons e m)
  obtain k' v' where e: "e = (k', v')" by (cases e)
  have "fst ` set (map_put k v (e # m)) =
      (if k < k' then {k, k'} \<union> fst ` set m else if k = k' then insert k (fst ` set m)
       else insert k' (fst ` set (map_put k v m)))"
    by (simp add: e)
  then show ?case using Cons by (auto simp: e)
qed simp

lemma map_put_ok: "map_ok m \<Longrightarrow> map_ok (map_put k v m)"
proof (induction m)
  case Nil
  show ?case by (simp add: map_ok_def)
next
  case (Cons e m)
  obtain k' v' where e: "e = (k', v')" by (cases e)
  from Cons have "map_ok (map_put k v m)" "\<forall>x \<in> fst ` set m. k' < x" by (auto simp: map_ok_def e)
  with Cons.prems show ?case by (auto simp: e map_ok_def fst_map_put)
qed

lemma map_erase_ok: "map_ok m \<Longrightarrow> map_ok (map_erase k m)"
  by (induction m) (auto simp: map_ok_def map_erase_def)

interpretation stdmap: ordered_map map_ok map_find map_put map_erase "\<lambda>m. m"
  by unfold_locales
    (auto simp: map_find_put map_find_erase map_put_ok map_erase_ok map_ok_distinct map_find_entries)

text \<open>Updating the value of an entry in place.\<close>

definition map_update :: "'k::linorder \<Rightarrow> 'v \<Rightarrow> ('k, 'v) stdmap \<Rightarrow> ('k, 'v) stdmap" where
  "map_update k v m = (if map_find k m = None then m else map_put k v m)"

lemma map_update_ok [simp]: "map_ok m \<Longrightarrow> map_ok (map_update k v m)"
  by (simp add: map_update_def map_put_ok)

lemma map_insert_ok [simp]: "map_ok m \<Longrightarrow> map_ok (map_insert k v m)"
  by (simp add: map_insert_def map_put_ok)

end
