(* ===== verification/Center_Session.thy ===== *)
theory Center_Session
  imports CJsonObject StdMap
begin

text \<open>
  The state of the center server: \<open>Center/src/Comm.hpp\<close> and \<open>Center/src/NodeSession.cpp\<close>. A C++ \<open>int\<close>
  is an \<open>int\<close> in the range of 32 bits, a \<open>uint64\<close> a word. The database is a parameter: its state and
  a function that executes one statement; \<open>sqls\<close> keeps the statements for the theorems. So do
  \<open>sent\<close> and \<open>routes\<close> with what the code hands to the process it runs in. Log output is left out.
\<close>

section \<open>Node data\<close>

definition chars :: "byte list \<Rightarrow> string" where
  "chars s = map (\<lambda>b. char_of (unat b)) s"

record st_NodeInfo =
  node_id :: int
  node_type :: string
  node_port :: int
  node_ip :: string
  node_access_port :: int
  node_access_ip :: string
  worker_num :: int
  active_time :: u64
  load :: int
  connect :: int
  client :: int
  recvNum :: int
  recvByte :: int
  sendNum :: int
  sendByte :: int
  worker :: string

definition clean :: st_NodeInfo where
  "clean = \<lparr>node_id = 0, node_type = [], node_port = 0, node_ip = [], node_access_port = 0, node_access_ip = [],
     worker_num = 0, active_time = 0, load = 0, connect = 0, client = 0, recvNum = 0, recvByte = 0, sendNum = 0,
     sendByte = 0, worker = []\<rparr>"

text \<open>An optional integer or string member keeps the old value when it is missing.\<close>

definition opt_int :: "'d jobj \<Rightarrow> string \<Rightarrow> int" where
  "opt_int ob k = (case Get_key_int32 ob (ascii k) of None \<Rightarrow> 0 | Some i \<Rightarrow> i)"

definition opt_str :: "'d jobj \<Rightarrow> string \<Rightarrow> string" where
  "opt_str ob k = (case Get_key_string ob (ascii k) of None \<Rightarrow> [] | Some s \<Rightarrow> chars s)"

definition pareJsonData :: "'d fpu \<Rightarrow> u32 \<times> u32 \<Rightarrow> u64 \<Rightarrow> 'd jobj \<Rightarrow> st_NodeInfo option presult" where
  "pareJsonData fp junk now ob =
     (case (Get_key_string ob (ascii ''node_type''), Get_key_string ob (ascii ''node_ip''),
            Get_key_int32 ob (ascii ''node_port''), Get_key_int32 ob (ascii ''worker_num''),
            Get_key_int32 ob (ascii ''node_id'')) of
        (Some ty, Some ip, Some port, Some workers, Some nid) \<Rightarrow>
          bind_result (Get_key_json fp junk ob (ascii ''node'')) (\<lambda>nodeobj.
          case nodeobj of None \<Rightarrow> Done None | Some nodeobj \<Rightarrow>
          bind_result (Get_key_json fp junk ob (ascii ''worker'')) (\<lambda>workerobj.
          case workerobj of None \<Rightarrow> Done None | Some workerobj \<Rightarrow>
            if ty = [] \<or> port = 0 \<or> workers = 0 \<or> ip = [] then Done None
            else Done (Some \<lparr>node_id = nid, node_type = chars ty, node_port = port, node_ip = chars ip,
              node_access_port = opt_int ob ''access_port'', node_access_ip = opt_str ob ''access_ip'',
              worker_num = workers, active_time = now, load = opt_int nodeobj ''load'',
              connect = opt_int nodeobj ''connect'', client = opt_int nodeobj ''client'',
              recvNum = opt_int nodeobj ''recv_num'', recvByte = opt_int nodeobj ''recv_byte'',
              sendNum = opt_int nodeobj ''send_num'', sendByte = opt_int nodeobj ''send_byte'',
              worker = chars (Jobj_ToString fp workerobj)\<rparr>)))
      | _ \<Rightarrow> Done None)"

text \<open>\<open>sprintf(strNodeKey, "%s:%d", ...)\<close> into 100 bytes; \<open>key_fits\<close> says it stays inside.\<close>

definition getNodeKey :: "st_NodeInfo \<Rightarrow> string" where
  "getNodeKey info = node_ip info @ '':'' @ fmt_d (node_port info)"

definition key_fits :: "st_NodeInfo \<Rightarrow> bool" where
  "key_fits info \<longleftrightarrow> length (getNodeKey info) < 100"

definition update :: "st_NodeInfo \<Rightarrow> st_NodeInfo \<Rightarrow> st_NodeInfo \<times> bool" where
  "update this info =
     (if node_ip this = node_ip info \<and> node_port this = node_port info
      then (this\<lparr>active_time := active_time info, worker_num := worker_num info, load := load info,
              connect := connect info, client := client info, recvNum := recvNum info, recvByte := recvByte info,
              sendNum := sendNum info, sendByte := sendByte info, worker := worker info\<rparr>, True)
      else (this, False))"

record st_NodeStaisticsInfo =
  t_node_id :: int
  t_node_type :: string
  t_node_port :: int
  t_node_ip :: string
  t_node_access_port :: int
  t_node_access_ip :: string
  t_worker_num :: int
  t_load :: int
  t_connect :: int
  t_client :: int
  t_recvNum :: int
  t_recvByte :: int
  t_sendNum :: int
  t_sendByte :: int

definition statistics_of :: "st_NodeInfo \<Rightarrow> st_NodeStaisticsInfo" where
  "statistics_of info = \<lparr>t_node_id = node_id info, t_node_type = node_type info, t_node_port = node_port info,
     t_node_ip = node_ip info, t_node_access_port = node_access_port info, t_node_access_ip = node_access_ip info,
     t_worker_num = worker_num info, t_load = load info, t_connect = connect info, t_client = client info,
     t_recvNum = recvNum info, t_recvByte = recvByte info, t_sendNum = sendNum info, t_sendByte = sendByte info\<rparr>"

definition clearLoad :: "st_NodeStaisticsInfo \<Rightarrow> st_NodeStaisticsInfo" where
  "clearLoad t = t\<lparr>t_recvNum := 0, t_recvByte := 0, t_sendNum := 0, t_sendByte := 0\<rparr>"

definition add_statistics :: "st_NodeStaisticsInfo \<Rightarrow> st_NodeInfo \<Rightarrow> st_NodeStaisticsInfo" where
  "add_statistics t info =
     (if t_node_ip t = node_ip info \<and> t_node_port t = node_port info
      then t\<lparr>t_worker_num := worker_num info, t_load := load info, t_connect := connect info,
             t_client := client info, t_recvNum := wrap32 (t_recvNum t + recvNum info),
             t_recvByte := wrap32 (t_recvByte t + recvByte info), t_sendNum := wrap32 (t_sendNum t + sendNum info),
             t_sendByte := wrap32 (t_sendByte t + sendByte info)\<rparr>
      else t)"

record NodeLoadStatus =
  nodetype :: string
  serverload :: u16
  innerport :: u16
  innerip :: string
  outerport :: u16
  outerip :: string

definition clear_status :: NodeLoadStatus where
  "clear_status = \<lparr>nodetype = [], serverload = 0, innerport = 0, innerip = [], outerport = 0, outerip = []\<rparr>"

definition status_of :: "st_NodeInfo \<Rightarrow> NodeLoadStatus" where
  "status_of info = \<lparr>nodetype = node_type info, serverload = of_int (load info), innerport = of_int (node_port info),
     innerip = node_ip info, outerport = of_int (node_access_port info), outerip = node_access_ip info\<rparr>"

section \<open>The session\<close>

type_synonym row = "(string, string) stdmap"

record NodeType =
  nt_nodetype :: string
  nt_loadso :: string
  neededServers :: "string list"

text \<open>\<open>NodeInfoDB\<close> of \<open>NodeRegMgr.hpp\<close>; the character arrays as C strings.\<close>

record NodeInfoDB =
  loaded :: bool
  canuse :: int
  db_nodetype :: string
  db_innerip :: string
  db_outerip :: string

definition clear_db :: NodeInfoDB where
  "clear_db = \<lparr>loaded = False, canuse = 0, db_nodetype = [], db_innerip = [], db_outerip = []\<rparr>"

text \<open>A connection, a destination of a message, and a message with its command, sequence number and body.\<close>

type_synonym shell = "int \<times> u32"

datatype dest = Shell shell | Node string

datatype body = Json jval | Text string

type_synonym message = "dest \<times> int \<times> u32 \<times> body"

record 'db center =
  db :: 'db
  sqls :: "string list"
  sent :: "message list"
  routes :: "(string \<times> shell) list"
  clock :: "nat \<Rightarrow> u64"
  ticks :: nat
  sequence :: u32
  boInit :: bool
  m_mapNodeInfo :: "(string, st_NodeInfo) stdmap"
  m_mapNodeStatisticsInfo :: "(string, st_NodeStaisticsInfo) stdmap"
  nodeTypesVec :: "NodeType list"
  m_nodeid :: u32
  m_currenttime :: u64
  m_nodereport_timeinterval :: int
  m_nodeoffline_timeinterval :: int
  m_deleteofflinenode_timeinterval :: int
  m_nodestatuscheck_timeinterval :: int
  m_nodeloadlog_timeinterval :: int
  m_nodeloadlog_overdue :: int
  m_nodeloadstatistics_timeinterval :: int
  m_nodeloadstatistics_overdue :: int
  m_nodeloadcheck_timeinterval :: int
  m_serverDataLoadCheck_timeinterval :: int
  m_serverdataloadstatuslog_overdue :: int
  m_nodeloadlog_lasttime :: u64
  m_nodeloadstatistics_lasttime :: u64
  m_nodeloadcheck_lasttime :: u64
  m_nodestatuscheck_lasttime :: u64
  m_serverdataloadcheck_lasttime :: u64
  m_center_inner_host :: string
  m_center_inner_port :: int
  m_center_node_type :: string
  m_center_process_num :: int
  m_centerNodeInfoDB :: NodeInfoDB
  m_regNodeInfoDB :: NodeInfoDB
  m_regNodeInfoMsg :: st_NodeInfo
  m_regMsgShell :: shell

text \<open>Executing a statement gives the rows, or \<open>None\<close> for an error code.\<close>

type_synonym 'db dbms = "'db \<Rightarrow> string \<Rightarrow> 'db \<times> row list option"

definition ExecSql :: "'db dbms \<Rightarrow> string \<Rightarrow> 'db center \<Rightarrow> 'db center \<times> row list option" where
  "ExecSql dbms q c = (let (d, r) = dbms (db c) q in (c\<lparr>db := d, sqls := sqls c @ [q]\<rparr>, r))"

definition run_sql :: "'db dbms \<Rightarrow> string \<Rightarrow> 'db center \<Rightarrow> 'db center \<times> bool" where
  "run_sql dbms q c = (let (c, r) = ExecSql dbms q c in (c, r \<noteq> None))"

definition setCurrentTime :: "'db center \<Rightarrow> 'db center" where
  "setCurrentTime c = c\<lparr>m_currenttime := clock c (ticks c), ticks := Suc (ticks c)\<rparr>"

section \<open>Building statements\<close>

definition quoted :: "string \<Rightarrow> string" where
  "quoted s = CHR 0x27 # s @ [CHR 0x27]"

fun commas :: "string list \<Rightarrow> string" where
  "commas [] = []"
| "commas [s] = s"
| "commas (s # ss) = s @ '','' @ commas ss"

definition fmt_llu :: "u64 \<Rightarrow> string" where
  "fmt_llu w = dec (unat w)"

text \<open>\<open>snprintf(szSql, sizeof(szSql) - 1, ...)\<close> for a buffer of \<open>n\<close> bytes.\<close>

definition sql_text :: "nat \<Rightarrow> string \<Rightarrow> string" where
  "sql_text n s = snprintf (n - 1) s"

definition eNodeStatus_Online :: int where "eNodeStatus_Online = 1"
definition eNodeStatus_Offline :: int where "eNodeStatus_Offline = 2"

section \<open>Starting the session\<close>

text \<open>\<open>LOAD_CENTER_CMD\<close> stops at the first missing member with a message of at most 63 characters.\<close>

definition load_error :: "string \<Rightarrow> string" where
  "load_error name = snprintf 64 (''center cmd load('' @ name @ '') failed'')"

definition conf_int :: "'d jobj \<Rightarrow> string \<Rightarrow> (int \<Rightarrow> 'c \<Rightarrow> 'c) \<Rightarrow> string + 'c \<Rightarrow> string + 'c" where
  "conf_int conf name upd r =
     (case r of Inl e \<Rightarrow> Inl e
      | Inr c \<Rightarrow> (case Get_key_int32 conf (ascii name) of None \<Rightarrow> Inl (load_error name) | Some i \<Rightarrow> Inr (upd i c)))"

definition conf_str :: "'d jobj \<Rightarrow> string \<Rightarrow> (string \<Rightarrow> 'c \<Rightarrow> 'c) \<Rightarrow> string + 'c \<Rightarrow> string + 'c" where
  "conf_str conf name upd r =
     (case r of Inl e \<Rightarrow> Inl e
      | Inr c \<Rightarrow> (case Get_key_string conf (ascii name) of None \<Rightarrow> Inl (load_error name) | Some s \<Rightarrow> Inr (upd (chars s) c)))"

text \<open>The connection that \<open>Init\<close> opens is the database state the session starts with.\<close>

definition NodeSession_Init :: "'d jobj \<Rightarrow> 'db center \<Rightarrow> string + 'db center" where
  "NodeSession_Init conf c0 =
     (if boInit c0 then Inr c0
      else
        let r = conf_str conf ''dbip'' (\<lambda>s c. c) (Inr c0);
            r = conf_int conf ''nodereport_timeinterval'' (\<lambda>i c. c\<lparr>m_nodereport_timeinterval := i\<rparr>) r;
            r = conf_int conf ''nodestatuscheck_timeinterval'' (\<lambda>i c. c\<lparr>m_nodestatuscheck_timeinterval := i\<rparr>) r;
            r = conf_int conf ''nodeoffline_timeinterval'' (\<lambda>i c. c\<lparr>m_nodeoffline_timeinterval := i\<rparr>) r;
            r = conf_int conf ''deleteofflinenode_timeinterval'' (\<lambda>i c. c\<lparr>m_deleteofflinenode_timeinterval := i\<rparr>) r;
            r = conf_int conf ''nodeloadlog_timeinterval'' (\<lambda>i c. c\<lparr>m_nodeloadlog_timeinterval := i\<rparr>) r;
            r = conf_int conf ''nodeloadlog_overdue'' (\<lambda>i c. c\<lparr>m_nodeloadlog_overdue := i\<rparr>) r;
            r = conf_int conf ''nodeloadstatistics_timeinterval'' (\<lambda>i c. c\<lparr>m_nodeloadstatistics_timeinterval := i\<rparr>) r;
            r = conf_int conf ''nodeloadstatistics_overdue'' (\<lambda>i c. c\<lparr>m_nodeloadstatistics_overdue := i\<rparr>) r;
            r = conf_int conf ''nodeloadcheck_timeinterval'' (\<lambda>i c. c\<lparr>m_nodeloadcheck_timeinterval := i\<rparr>) r;
            r = conf_int conf ''serverdataloadstatuslog_overdue'' (\<lambda>i c. c\<lparr>m_serverdataloadstatuslog_overdue := i\<rparr>) r;
            r = conf_int conf ''serverdataloadstatuslogcheck_timeinterval'' (\<lambda>i c. c\<lparr>m_serverDataLoadCheck_timeinterval := i\<rparr>) r;
            r = conf_str conf ''center_inner_host'' (\<lambda>s c. c\<lparr>m_center_inner_host := s\<rparr>) r;
            r = conf_int conf ''center_inner_port'' (\<lambda>i c. c\<lparr>m_center_inner_port := i\<rparr>) r;
            r = conf_str conf ''center_node_type'' (\<lambda>s c. c\<lparr>m_center_node_type := s\<rparr>) r;
            r = conf_int conf ''center_process_num'' (\<lambda>i c. c\<lparr>m_center_process_num := i\<rparr>) r
        in case r of Inl e \<Rightarrow> Inl e | Inr c \<Rightarrow> Inr (c\<lparr>boInit := True\<rparr>))"

text \<open>The node types: rows that lack a column are skipped; \<open>noticeservers\<close> holds a JSON array of names.\<close>

definition needed_names :: "'d fpu \<Rightarrow> 'd jobj \<Rightarrow> string list" where
  "needed_names fp ob =
     map (\<lambda>i. filter (\<lambda>ch. ch \<noteq> CHR 0x22) (chars (Jobj_ToString fp (at_index ob (of_nat i)))))
       [0..<Jobj_GetArraySize ob]"

definition node_type_of_row :: "'d fpu \<Rightarrow> u32 \<times> u32 \<Rightarrow> row \<Rightarrow> NodeType option presult" where
  "node_type_of_row fp junk r =
     (case (map_find ''nodetype'' r, map_find ''loadso'' r, map_find ''noticeservers'' r) of
        (Some ty, Some so, Some notice) \<Rightarrow>
          if notice = [] then Done (Some \<lparr>nt_nodetype = ty, nt_loadso = so, neededServers = []\<rparr>)
          else bind_result (Jobj_Parse fp junk (ascii notice)) (\<lambda>(ob, ok).
            Done (Some \<lparr>nt_nodetype = ty, nt_loadso = so,
              neededServers = (if ok \<and> Jobj_IsArray ob then needed_names fp ob else [])\<rparr>))
      | _ \<Rightarrow> Done None)"

fun node_types_of_rows :: "'d fpu \<Rightarrow> u32 \<times> u32 \<Rightarrow> row list \<Rightarrow> NodeType list presult" where
  "node_types_of_rows fp junk [] = Done []"
| "node_types_of_rows fp junk (r # rs) =
     bind_result (node_type_of_row fp junk r) (\<lambda>t.
     bind_result (node_types_of_rows fp junk rs) (\<lambda>ts. Done (case t of None \<Rightarrow> ts | Some t \<Rightarrow> t # ts)))"

definition loadNodeTypes :: "'d fpu \<Rightarrow> u32 \<times> u32 \<Rightarrow> 'db dbms \<Rightarrow> 'db center \<Rightarrow> ('db center \<times> bool) presult" where
  "loadNodeTypes fp junk dbms c0 =
     (let (c, r) = ExecSql dbms (sql_text 128 ''select * from tb_nodetype'') (c0\<lparr>nodeTypesVec := []\<rparr>) in
      case r of None \<Rightarrow> Done (c, False)
      | Some rows \<Rightarrow>
          if rows = [] then Done (c, False)
          else bind_result (node_types_of_rows fp junk rows) (\<lambda>ts. Done (c\<lparr>nodeTypesVec := ts\<rparr>, True)))"

section \<open>Nodes in memory\<close>

fun getNodeTypeServerInfo :: "NodeType list \<Rightarrow> string \<Rightarrow> NodeType option" where
  "getNodeTypeServerInfo [] ty = None"
| "getNodeTypeServerInfo (t # ts) ty = (if ty = nt_nodetype t then Some t else getNodeTypeServerInfo ts ty)"

fun checkNodeType :: "NodeType list \<Rightarrow> string \<Rightarrow> bool" where
  "checkNodeType [] ty = False"
| "checkNodeType (t # ts) ty = (ty = nt_nodetype t \<or> checkNodeType ts ty)"

definition max_node_id :: "(string, st_NodeInfo) stdmap \<Rightarrow> u32" where
  "max_node_id m = foldl (\<lambda>t (k, info). if node_id info > sint t then of_int (node_id info) else t) 0 m"

definition getNewNodeID :: "'db center \<Rightarrow> 'db center \<times> u32" where
  "getNewNodeID c = (let t = max_node_id (m_mapNodeInfo c) + 1 in (c\<lparr>m_nodeid := t\<rparr>, t))"

definition AddNodeInfo :: "string \<Rightarrow> st_NodeInfo \<Rightarrow> 'db center \<Rightarrow> 'db center" where
  "AddNodeInfo k info c = c\<lparr>m_mapNodeInfo := map_insert k info (m_mapNodeInfo c)\<rparr>"

definition DelNodeInfo :: "string \<Rightarrow> 'db center \<Rightarrow> 'db center \<times> bool" where
  "DelNodeInfo k c =
     (if map_find k (m_mapNodeInfo c) \<noteq> None then (c\<lparr>m_mapNodeInfo := map_erase k (m_mapNodeInfo c)\<rparr>, True)
      else (c, False))"

definition GetNodeInfo :: "string \<Rightarrow> 'db center \<Rightarrow> st_NodeInfo option" where
  "GetNodeInfo k c = map_find k (m_mapNodeInfo c)"

definition GetNodeStatusByNodeType :: "string \<Rightarrow> 'db center \<Rightarrow> NodeLoadStatus list \<times> bool" where
  "GetNodeStatusByNodeType ty c =
     (let l = map (\<lambda>e. status_of (snd e)) (filter (\<lambda>e. ty = node_type (snd e)) (m_mapNodeInfo c))
      in (l, l \<noteq> []))"

end
