(* ===== verification/Center_Store.thy ===== *)
theory Center_Store
  imports Center_Session
begin

text \<open>
  What \<open>NodeSession.cpp\<close> writes to the database: node status, load log, load statistics and the
  reports of data servers, with the time intervals that guard them. Each function returns the session
  and its success flag; an ignored result is dropped here too.
\<close>

definition after :: "u64 \<Rightarrow> u64 \<Rightarrow> int \<Rightarrow> bool" where
  "after now prev interval \<longleftrightarrow> now \<ge> prev + of_int interval"

definition SetNodeDataOfflineToDBByNodeId :: "'db dbms \<Rightarrow> int \<Rightarrow> 'db center \<Rightarrow> 'db center \<times> bool" where
  "SetNodeDataOfflineToDBByNodeId dbms nid c =
     run_sql dbms (sql_text 128 (''update tb_nodeload_status set serverstatus='' @ fmt_d eNodeStatus_Offline @
       '' WHERE nodeid='' @ fmt_d nid)) (setCurrentTime c)"

definition ClearOverdueOfflineNodeStatusToDB :: "'db dbms \<Rightarrow> 'db center \<Rightarrow> 'db center \<times> bool" where
  "ClearOverdueOfflineNodeStatusToDB dbms c =
     run_sql dbms (sql_text 128 (''delete from tb_nodeload_status WHERE activetime <= '' @
       fmt_llu (m_currenttime c - of_int (m_deleteofflinenode_timeinterval c)) @ '' and serverstatus='' @
       fmt_d eNodeStatus_Offline)) c"

definition CheckOfflineNodeStatusToDB :: "'db dbms \<Rightarrow> 'db center \<Rightarrow> 'db center \<times> bool" where
  "CheckOfflineNodeStatusToDB dbms c =
     run_sql dbms (sql_text 128 (''update tb_nodeload_status set serverstatus='' @ fmt_d eNodeStatus_Offline @
       '' WHERE activetime <= '' @ fmt_llu (m_currenttime c - of_int (m_nodeoffline_timeinterval c)))) c"

text \<open>The columns come in the order the code gives them.\<close>

definition node_columns :: "st_NodeInfo \<Rightarrow> string list" where
  "node_columns info = [fmt_d (node_id info), quoted (node_type info), fmt_d (node_port info),
     quoted (node_ip info), fmt_d (node_access_port info), quoted (node_access_ip info)]"

definition load_columns :: "st_NodeInfo \<Rightarrow> string list" where
  "load_columns info = [fmt_d (load info), fmt_d (connect info), fmt_d (client info), fmt_d (recvNum info),
     fmt_d (sendNum info), fmt_d (recvByte info), fmt_d (sendByte info), quoted (worker info)]"

definition values_text :: "string \<Rightarrow> string list \<Rightarrow> string" where
  "values_text cmd cols = cmd @ '' values('' @ commas cols @ '')''"

definition ReplaceNodeStatusToDB :: "'db dbms \<Rightarrow> st_NodeInfo \<Rightarrow> 'db center \<Rightarrow> 'db center \<times> bool" where
  "ReplaceNodeStatusToDB dbms info c =
     run_sql dbms (sql_text 3096 (values_text ''replace into tb_nodeload_status''
       (node_columns info @ [fmt_d eNodeStatus_Online, fmt_d (worker_num info), fmt_llu (m_currenttime c)] @
        load_columns info))) c"

definition UpdateNodeStatusToDB :: "'db dbms \<Rightarrow> st_NodeInfo \<Rightarrow> 'db center \<Rightarrow> 'db center \<times> bool" where
  "UpdateNodeStatusToDB dbms info c =
     (if node_id info = 0 then (c, False)
      else run_sql dbms (sql_text 3096 (''update tb_nodeload_status set serverstatus='' @ fmt_d eNodeStatus_Online @
        '',workernum='' @ fmt_d (worker_num info) @ '',activetime='' @ fmt_llu (active_time info) @
        '',connect='' @ fmt_d (connect info) @ '',client='' @ fmt_d (client info) @
        '',serverload='' @ fmt_d (load info) @ '',recvnum='' @ fmt_d (recvNum info) @
        '',sendnum='' @ fmt_d (sendNum info) @ '',recvbyte='' @ fmt_d (recvByte info) @
        '',sendbyte='' @ fmt_d (sendByte info) @ '',worker='' @ quoted (worker info) @
        '' WHERE innerport='' @ fmt_d (node_port info) @ '' and innerip='' @ quoted (node_ip info))) c)"

definition where_node :: "st_NodeInfo \<Rightarrow> string" where
  "where_node info = '' WHERE innerport='' @ fmt_d (node_port info) @ '' and innerip='' @ quoted (node_ip info)"

definition CheckNodeStatusToDB :: "'db dbms \<Rightarrow> st_NodeInfo \<Rightarrow> 'db center \<Rightarrow> 'db center \<times> bool" where
  "CheckNodeStatusToDB dbms info c =
     (let (c, r) = ExecSql dbms (sql_text 128 (''select nodeid from tb_nodeload_status'' @ where_node info)) c
      in (c, case r of None \<Rightarrow> False | Some rows \<Rightarrow> rows \<noteq> []))"

definition ClearNodeStatusToDB :: "'db dbms \<Rightarrow> st_NodeInfo \<Rightarrow> 'db center \<Rightarrow> 'db center \<times> bool" where
  "ClearNodeStatusToDB dbms info c =
     run_sql dbms (sql_text 128 (''delete from tb_nodeload_status'' @ where_node info)) c"

definition ClearNodeStatusToDBByNodeID :: "'db dbms \<Rightarrow> st_NodeInfo \<Rightarrow> 'db center \<Rightarrow> 'db center \<times> bool" where
  "ClearNodeStatusToDBByNodeID dbms info c =
     run_sql dbms (sql_text 128 (''delete from tb_nodeload_status WHERE nodeid='' @ fmt_d (node_id info) @
       '' and serverstatus='' @ fmt_d eNodeStatus_Offline)) c"

definition CheckNodeStatus :: "'db dbms \<Rightarrow> 'db center \<Rightarrow> 'db center" where
  "CheckNodeStatus dbms c =
     (let c = (if after (m_currenttime c) (m_nodestatuscheck_lasttime c) (m_nodestatuscheck_timeinterval c)
               then (fst (ClearOverdueOfflineNodeStatusToDB dbms c))\<lparr>m_nodestatuscheck_lasttime := m_currenttime c\<rparr>
               else c)
      in fst (CheckOfflineNodeStatusToDB dbms c))"

definition WriteNodeStatus :: "'db dbms \<Rightarrow> st_NodeInfo \<Rightarrow> 'db center \<Rightarrow> 'db center \<times> bool" where
  "WriteNodeStatus dbms info c =
     (let (c, ok) = ReplaceNodeStatusToDB dbms info c in
      if \<not> ok then (c, False) else (CheckNodeStatus dbms c, True))"

text \<open>The log loop: one row for each node, until a statement fails.\<close>

definition log_text :: "u64 \<Rightarrow> st_NodeInfo \<Rightarrow> string" where
  "log_text now info = sql_text 3096 (values_text ''insert into tb_nodeload_log''
     (node_columns info @ [fmt_d (worker_num info), fmt_llu now] @ load_columns info))"

fun log_loop :: "'db dbms \<Rightarrow> st_NodeInfo list \<Rightarrow> 'db center \<Rightarrow> 'db center \<times> bool" where
  "log_loop dbms [] c = (c, True)"
| "log_loop dbms (info # infos) c =
     (let (c, ok) = run_sql dbms (log_text (m_currenttime c) info) c in
      if ok then log_loop dbms infos c else (c, False))"

definition InsertNodeLogToDB :: "'db dbms \<Rightarrow> 'db center \<Rightarrow> 'db center \<times> bool" where
  "InsertNodeLogToDB dbms c =
     log_loop dbms (map snd (m_mapNodeInfo c)) (c\<lparr>m_nodeloadlog_lasttime := m_currenttime c\<rparr>)"

definition WriteNodeLog :: "'db dbms \<Rightarrow> 'db center \<Rightarrow> 'db center \<times> bool" where
  "WriteNodeLog dbms c =
     (if after (m_currenttime c) (m_nodeloadlog_lasttime c) (m_nodeloadlog_timeinterval c)
      then InsertNodeLogToDB dbms c else (c, True))"

text \<open>The statistics loop clears the sums of the nodes whose row was written.\<close>

definition statistics_text :: "u64 \<Rightarrow> st_NodeStaisticsInfo \<Rightarrow> string" where
  "statistics_text now t = sql_text 256 (values_text ''insert into tb_nodeload_statistics''
     [fmt_d (t_node_id t), quoted (t_node_type t), fmt_d (t_node_port t), quoted (t_node_ip t),
      fmt_d (t_node_access_port t), quoted (t_node_access_ip t), fmt_d (t_worker_num t), fmt_llu now,
      fmt_d (t_load t), fmt_d (t_client t), fmt_d (t_connect t), fmt_d (t_recvNum t), fmt_d (t_sendNum t),
      fmt_d (t_recvByte t), fmt_d (t_sendByte t)])"

fun statistics_loop :: "'db dbms \<Rightarrow> (string \<times> st_NodeStaisticsInfo) list \<Rightarrow> 'db center \<Rightarrow>
    (string \<times> st_NodeStaisticsInfo) list \<times> 'db center \<times> bool" where
  "statistics_loop dbms [] c = ([], c, True)"
| "statistics_loop dbms ((k, t) # ts) c =
     (let (c, ok) = run_sql dbms (statistics_text (m_currenttime c) t) c in
      if \<not> ok then ((k, t) # ts, c, False)
      else let (ts', c, ok) = statistics_loop dbms ts c in ((k, clearLoad t) # ts', c, ok))"

definition InsertNodeStatisticsToDB :: "'db dbms \<Rightarrow> 'db center \<Rightarrow> 'db center \<times> bool" where
  "InsertNodeStatisticsToDB dbms c =
     (let (ts, c, ok) = statistics_loop dbms (m_mapNodeStatisticsInfo c)
        (c\<lparr>m_nodeloadstatistics_lasttime := m_currenttime c\<rparr>)
      in (c\<lparr>m_mapNodeStatisticsInfo := ts\<rparr>, ok))"

definition collect_statistics :: "st_NodeInfo \<Rightarrow> (string, st_NodeStaisticsInfo) stdmap \<Rightarrow> (string, st_NodeStaisticsInfo) stdmap" where
  "collect_statistics info m =
     (case map_find (getNodeKey info) m of
        None \<Rightarrow> map_put (getNodeKey info) (statistics_of info) m
      | Some t \<Rightarrow> map_put (getNodeKey info) (add_statistics t info) m)"

definition WriteNodeStatistics :: "'db dbms \<Rightarrow> st_NodeInfo \<Rightarrow> 'db center \<Rightarrow> 'db center \<times> bool" where
  "WriteNodeStatistics dbms info c =
     (let c = c\<lparr>m_mapNodeStatisticsInfo := collect_statistics info (m_mapNodeStatisticsInfo c)\<rparr> in
      if after (m_currenttime c) (m_nodeloadstatistics_lasttime c) (m_nodeloadstatistics_timeinterval c)
      then InsertNodeStatisticsToDB dbms c else (c, True))"

definition ClearOverdueOfflineNodeLogToDB :: "'db dbms \<Rightarrow> 'db center \<Rightarrow> 'db center \<times> bool" where
  "ClearOverdueOfflineNodeLogToDB dbms c =
     run_sql dbms (sql_text 128 (''delete from tb_nodeload_log WHERE activetime <= '' @
       fmt_llu (m_currenttime c - of_int (m_nodeloadlog_overdue c)))) c"

definition ClearOverdueOfflineNodeStatisticsToDB :: "'db dbms \<Rightarrow> 'db center \<Rightarrow> 'db center \<times> bool" where
  "ClearOverdueOfflineNodeStatisticsToDB dbms c =
     run_sql dbms (sql_text 128 (''delete from tb_nodeload_statistics WHERE currenttime <= '' @
       fmt_llu (m_currenttime c - of_int (m_nodeloadstatistics_overdue c)))) c"

definition NodeloadCheck :: "'db dbms \<Rightarrow> 'db center \<Rightarrow> 'db center \<times> bool" where
  "NodeloadCheck dbms c =
     (if after (m_currenttime c) (m_nodeloadcheck_lasttime c) (m_nodeloadcheck_timeinterval c)
      then let c = c\<lparr>m_nodeloadcheck_lasttime := m_currenttime c\<rparr>;
               c = fst (ClearOverdueOfflineNodeLogToDB dbms c);
               c = fst (ClearOverdueOfflineNodeStatisticsToDB dbms c)
           in (c, True)
      else (c, True))"

definition WriteNodeDataToDB :: "'db dbms \<Rightarrow> st_NodeInfo \<Rightarrow> bool \<Rightarrow> 'db center \<Rightarrow> 'db center \<times> bool" where
  "WriteNodeDataToDB dbms info boReport c =
     (let (c, ok) = WriteNodeStatus dbms info (setCurrentTime c) in
      if \<not> ok then (c, False)
      else if boReport
      then let (c, ok) = NodeloadCheck dbms c in
           if \<not> ok then (c, False)
           else let (c, ok) = WriteNodeLog dbms c in
                if \<not> ok then (c, False)
                else WriteNodeStatistics dbms info c
      else (c, True))"

section \<open>Reports of data servers\<close>

text \<open>The cleanup uses the interval of the node log.\<close>

definition ClearOverdueServerDataLogToDB :: "'db dbms \<Rightarrow> 'db center \<Rightarrow> 'db center \<times> bool" where
  "ClearOverdueServerDataLogToDB dbms c =
     run_sql dbms (sql_text 128 (''delete from tb_serverdata_log WHERE time <= '' @
       fmt_llu (m_currenttime c - of_int (m_nodeloadlog_overdue c)))) c"

definition ServerDataLoadCheck :: "'db dbms \<Rightarrow> 'db center \<Rightarrow> 'db center" where
  "ServerDataLoadCheck dbms c =
     (if after (m_currenttime c) (m_serverdataloadcheck_lasttime c) (m_serverDataLoadCheck_timeinterval c)
      then fst (ClearOverdueServerDataLogToDB dbms (c\<lparr>m_serverdataloadcheck_lasttime := m_currenttime c\<rparr>))
      else c)"

text \<open>\<open>time_t2TimeStr\<close>, which asks the C library for the local time, is a parameter.\<close>

record server_data =
  sd_nodetype :: string
  sd_innerport :: int
  sd_innerip :: string
  sd_outerport :: int
  sd_outerip :: string
  sd_status :: string

definition server_columns :: "(u64 \<Rightarrow> string) \<Rightarrow> u64 \<Rightarrow> server_data \<Rightarrow> string list" where
  "server_columns time_str now s = [quoted (sd_nodetype s), fmt_d (sd_innerport s), quoted (sd_innerip s),
     fmt_d (sd_outerport s), quoted (sd_outerip s), quoted (sd_status s), quoted (time_str now)]"

definition ReplaceServerDataLoadStatusToDB :: "'db dbms \<Rightarrow> (u64 \<Rightarrow> string) \<Rightarrow> server_data \<Rightarrow> 'db center \<Rightarrow> 'db center \<times> bool" where
  "ReplaceServerDataLoadStatusToDB dbms time_str s c =
     run_sql dbms (sql_text 4096 (values_text ''replace into tb_serverdata_status''
       (server_columns time_str (m_currenttime c) s))) c"

definition WriteServerDataLoadLogToDB :: "'db dbms \<Rightarrow> (u64 \<Rightarrow> string) \<Rightarrow> server_data \<Rightarrow> 'db center \<Rightarrow> 'db center \<times> bool" where
  "WriteServerDataLoadLogToDB dbms time_str s c =
     run_sql dbms (sql_text 4096 (values_text ''insert into tb_serverdata_log''
       (server_columns time_str (m_currenttime c) s))) c"

definition WriteServerDataLoadToDB :: "'db dbms \<Rightarrow> (u64 \<Rightarrow> string) \<Rightarrow> server_data \<Rightarrow> 'db center \<Rightarrow> 'db center \<times> bool" where
  "WriteServerDataLoadToDB dbms time_str s c =
     (let c = ServerDataLoadCheck dbms (setCurrentTime c);
          (c, ok) = ReplaceServerDataLoadStatusToDB dbms time_str s c
      in if \<not> ok then (c, False) else WriteServerDataLoadLogToDB dbms time_str s c)"

text \<open>\<open>GetNodeStatusByNodeTypeFromDB\<close> skips rows that lack a column.\<close>

definition status_of_row :: "row \<Rightarrow> NodeLoadStatus option" where
  "status_of_row r =
     (case (map_find ''nodetype'' r, map_find ''serverload'' r, map_find ''innerport'' r, map_find ''innerip'' r,
            map_find ''outerport'' r, map_find ''outerip'' r) of
        (Some ty, Some ld, Some ip_port, Some ip, Some op, Some oip) \<Rightarrow>
          Some \<lparr>nodetype = ty, serverload = of_int (atoi ld), innerport = of_int (atoi ip_port), innerip = ip,
            outerport = of_int (atoi op), outerip = oip\<rparr>
      | _ \<Rightarrow> None)"

definition GetNodeStatusByNodeTypeFromDB :: "'db dbms \<Rightarrow> string \<Rightarrow> 'db center \<Rightarrow> 'db center \<times> NodeLoadStatus list \<times> bool" where
  "GetNodeStatusByNodeTypeFromDB dbms ty c =
     (if \<not> checkNodeType (nodeTypesVec c) ty then (c, [], False)
      else let (c, r) = ExecSql dbms (sql_text 3096 (''select * from tb_nodeload_status where nodetype ='' @
                 quoted ty @ '' and serverstatus='' @ fmt_d eNodeStatus_Online)) c
           in case r of None \<Rightarrow> (c, [], False)
              | Some rows \<Rightarrow> if rows = [] then (c, [], False) else (c, List.map_filter status_of_row rows, True))"

end
