(* ===== verification/Center_Cmd.thy ===== *)
theory Center_Cmd
  imports Center_Store "HOL-Library.Monad_Syntax"
begin

text \<open>
  The commands of the center: \<open>Center/src/NodeRegMgr.cpp\<close>, \<open>CmdNodeReg\<close>, \<open>CmdNodeReport\<close>,
  \<open>CmdNodeDisconnect\<close>, \<open>CmdGetLoadMinServer\<close> and \<open>CmdServerReport\<close>. A handler takes the message and
  the session and returns the session and the value of \<open>AnyMessage\<close>; \<open>None\<close> is undefined behaviour:
  a node key or a database text that overflows its buffer or is used as a format string. Bodies the
  center builds are JSON values in the order of the \<open>Add\<close> calls.
\<close>

section \<open>Constants and messages\<close>

definition ERR_OK :: int where "ERR_OK = 0"
definition ERR_UNKNOWN_CMD :: int where "ERR_UNKNOWN_CMD = 10002"
definition ERR_SERVERINFO :: int where "ERR_SERVERINFO = 10009"
definition ERR_SESSION :: int where "ERR_SESSION = 10010"
definition ERR_BODY_JSON :: int where "ERR_BODY_JSON = 10011"
definition ERR_SERVERINFO_RECORD :: int where "ERR_SERVERINFO_RECORD = 10012"
definition ERR_REQ_MISS_PARAM :: int where "ERR_REQ_MISS_PARAM = 11026"

definition CMD_RSP_NODE_REGISTER :: int where "CMD_RSP_NODE_REGISTER = 14"
definition CMD_REQ_NODE_REG_NOTICE :: int where "CMD_REQ_NODE_REG_NOTICE = 15"
definition CMD_REQ_SERVER_CONFIG :: int where "CMD_REQ_SERVER_CONFIG = 21"

record in_msg =
  sender :: shell
  cmd :: int
  seq :: u32
  in_body :: "byte list"

definition jstr :: "string \<Rightarrow> jval" where
  "jstr s = JStr (ascii s)"

definition json_obj :: "(string \<times> jval) list \<Rightarrow> jval" where
  "json_obj ms = JObj (map (\<lambda>(k, v). (ascii k, v)) ms)"

definition SendTo :: "dest \<Rightarrow> int \<Rightarrow> u32 \<Rightarrow> body \<Rightarrow> 'db center \<Rightarrow> 'db center" where
  "SendTo d cm sq b c = c\<lparr>sent := sent c @ [(d, cm, sq, b)]\<rparr>"

text \<open>\<open>GetSequence\<close> of \<open>OssWorker.hpp\<close>: zero is skipped.\<close>

definition GetSequence :: "'db center \<Rightarrow> 'db center \<times> u32" where
  "GetSequence c = (let s = sequence c + 1; s = (if s = 0 then s + 1 else s) in (c\<lparr>sequence := s\<rparr>, s))"

text \<open>\<open>Response\<close> of the commands: the error code, with more members for some.\<close>

definition Response :: "in_msg \<Rightarrow> int \<Rightarrow> (string \<times> jval) list \<Rightarrow> 'db center \<Rightarrow> 'db center \<times> bool" where
  "Response msg ret ms c = (SendTo (Shell (sender msg)) (cmd msg + 1) (seq msg) (Json (json_obj ms)) c, ret = 0)"

definition err_body :: "int \<Rightarrow> (string \<times> jval) list" where
  "err_body ret = [(''errcode'', JInt ret)]"

definition reg_body :: "int \<Rightarrow> int \<Rightarrow> (string \<times> jval) list" where
  "reg_body ret nid = [(''errcode'', JInt ret), (''node_id'', JInt (if ret \<noteq> 0 then 0 else nid))]"

section \<open>The node's row in the management table\<close>

text \<open>The column is used as a format string, so a percent sign is undefined behaviour. An empty column
  keeps what the field held.\<close>

definition copy_column :: "nat \<Rightarrow> string \<Rightarrow> string \<Rightarrow> string option" where
  "copy_column n s old =
     (if s = [] then Some old else if CHR ''%'' \<in> set s then None else Some (snprintf (n - 1) (c_str s)))"

definition loadFromMapRow :: "row \<Rightarrow> NodeInfoDB \<Rightarrow> (NodeInfoDB \<times> bool) option" where
  "loadFromMapRow r d =
     (case (map_find ''nodetype'' r, map_find ''innerip'' r, map_find ''outerip'' r, map_find ''canuse'' r) of
        (Some ty, Some ip, Some oip, Some use) \<Rightarrow> do {
          ty \<leftarrow> copy_column 32 ty (db_nodetype d);
          ip \<leftarrow> copy_column 64 ip (db_innerip d);
          oip \<leftarrow> copy_column 64 oip (db_outerip d);
          Some (\<lparr>loaded = True, canuse = (if use = [] then canuse d else sint (of_int (atoi use) :: byte)),
            db_nodetype = ty, db_innerip = ip, db_outerip = oip\<rparr>, True)
        }
      | _ \<Rightarrow> Some (d, False))"

datatype NodeInfoDBVerifyRet = Verify_OK | Verify_IP_ERROR | Verify_SERVERTYPE_ERROR | Verify_NODE_CANUSE_ERROR

definition verify :: "NodeInfoDB \<Rightarrow> st_NodeInfo \<Rightarrow> NodeInfoDBVerifyRet" where
  "verify d info =
     (if node_ip info \<noteq> db_innerip d then Verify_IP_ERROR
      else if node_type info \<noteq> db_nodetype d then Verify_SERVERTYPE_ERROR
      else if canuse d \<noteq> 1 then Verify_NODE_CANUSE_ERROR else Verify_OK)"

definition GetServerDataFromDB :: "'db dbms \<Rightarrow> string \<Rightarrow> string \<Rightarrow> 'db center \<Rightarrow> ('db center \<times> bool) option" where
  "GetServerDataFromDB dbms ty ip c =
     (let (c, r) = ExecSql dbms (sql_text 128 (''SELECT * from  tb_node_manage WHERE nodetype = '' @ quoted ty @
            '' and innerip = '' @ quoted ip)) c
      in case r of None \<Rightarrow> Some (c, False)
         | Some [] \<Rightarrow> Some (c, False)
         | Some (row # _) \<Rightarrow> do {
             (d, ok) \<leftarrow> loadFromMapRow row (m_regNodeInfoDB c);
             Some (c\<lparr>m_regNodeInfoDB := d\<rparr>, ok)
           })"

definition GetCenterDataFromDB :: "'db dbms \<Rightarrow> 'db center \<Rightarrow> ('db center \<times> bool) option" where
  "GetCenterDataFromDB dbms c =
     (let (c, r) = ExecSql dbms (sql_text 128 (''SELECT * from  tb_node_manage WHERE nodetype = '' @ quoted ''CENTER'')) c
      in case r of None \<Rightarrow> Some (c, False)
         | Some [] \<Rightarrow> Some (c, False)
         | Some (row # _) \<Rightarrow> do {
             (d, ok) \<leftarrow> loadFromMapRow row (m_centerNodeInfoDB c);
             Some (c\<lparr>m_centerNodeInfoDB := d\<rparr>, ok)
           })"

section \<open>Answers to a registration\<close>

definition ResponseNodeReg :: "in_msg \<Rightarrow> int \<Rightarrow> 'db center \<Rightarrow> 'db center" where
  "ResponseNodeReg msg ret c =
     SendTo (Shell (sender msg)) CMD_RSP_NODE_REGISTER (seq msg)
       (Json (json_obj (reg_body ret (node_id (m_regNodeInfoMsg c))))) c"

definition loadServerConfig :: "'db dbms \<Rightarrow> string \<Rightarrow> int \<Rightarrow> 'db center \<Rightarrow> 'db center \<times> string option" where
  "loadServerConfig dbms ty configtype c =
     (if ty = [] then (c, None)
      else let (c, r) = ExecSql dbms (sql_text 128 (''SELECT * from  tb_serverconfig WHERE nodetype='' @ quoted ty @
                 '' AND configtype='' @ fmt_d configtype)) c
           in (c, case r of None \<Rightarrow> None | Some [] \<Rightarrow> None | Some (row # _) \<Rightarrow> map_find ''config'' row))"

definition SendServerConfig :: "'db dbms \<Rightarrow> in_msg \<Rightarrow> 'db center \<Rightarrow> 'db center" where
  "SendServerConfig dbms msg c =
     (if node_type (m_regNodeInfoMsg c) = [] then c
      else let (c, conf) = loadServerConfig dbms (node_type (m_regNodeInfoMsg c)) 0 c in
           case conf of None \<Rightarrow> c
           | Some conf \<Rightarrow> let (c, sq) = GetSequence c in SendTo (Shell (sender msg)) CMD_REQ_SERVER_CONFIG sq (Text conf) c)"

definition node_json :: "string \<Rightarrow> string \<Rightarrow> int \<Rightarrow> int \<Rightarrow> jval" where
  "node_json ty ip port workers =
     json_obj [(''node_type'', jstr ty), (''node_ip'', jstr ip), (''node_port'', JInt port), (''worker_num'', JInt workers)]"

definition info_json :: "st_NodeInfo \<Rightarrow> jval" where
  "info_json info = node_json (node_type info) (node_ip info) (node_port info) (worker_num info)"

text \<open>Every registered node of a needed type, once for each time the type is listed, then the center.\<close>

definition GetNeededRegisteredNodes :: "string list \<Rightarrow> 'db center \<Rightarrow> jval" where
  "GetNeededRegisteredNodes needed c =
     json_obj [(''node_arry_reg'', JArr (
       concat (map (\<lambda>e. map (\<lambda>_. info_json (snd e)) (filter (\<lambda>ty. ty = node_type (snd e)) needed)) (m_mapNodeInfo c)) @
       [node_json (m_center_node_type c) (m_center_inner_host c) (m_center_inner_port c) (m_center_process_num c)]))]"

text \<open>The loop that tells the nodes that need the type \<open>ty\<close>: one message for each time they list it.\<close>

definition needing :: "NodeType list \<Rightarrow> string \<Rightarrow> st_NodeInfo \<Rightarrow> nat" where
  "needing types ty info =
     (case getNodeTypeServerInfo types (node_type info) of None \<Rightarrow> 0
      | Some t \<Rightarrow> length (filter (\<lambda>need. ty = need) (neededServers t)))"

fun notify_loop :: "NodeType list \<Rightarrow> string \<Rightarrow> u32 \<Rightarrow> jval \<Rightarrow> (string \<times> st_NodeInfo) list \<Rightarrow> 'db center \<Rightarrow> 'db center" where
  "notify_loop types ty sq j [] c = c"
| "notify_loop types ty sq j ((k, info) # es) c =
     notify_loop types ty sq j es
       ((SendTo (Node (getNodeKey info)) CMD_REQ_NODE_REG_NOTICE sq (Json j) ^^ needing types ty info) c)"

definition SendNodeRegNotice :: "'db center \<Rightarrow> 'db center" where
  "SendNodeRegNotice c =
     (let ty = node_type (m_regNodeInfoMsg c);
          c = (case getNodeTypeServerInfo (nodeTypesVec c) ty of None \<Rightarrow> c
               | Some t \<Rightarrow>
                   let j = GetNeededRegisteredNodes (neededServers t) c; (c, sq) = GetSequence c
                   in SendTo (Shell (m_regMsgShell c)) CMD_REQ_NODE_REG_NOTICE sq (Json j) c);
          (c, sq) = GetSequence c
      in notify_loop (nodeTypesVec c) ty sq (json_obj [(''node_arry_reg'', JArr [info_json (m_regNodeInfoMsg c)])])
           (m_mapNodeInfo c) c)"

section \<open>Registration\<close>

definition answer_registration :: "'db dbms \<Rightarrow> in_msg \<Rightarrow> 'db center \<Rightarrow> 'db center" where
  "answer_registration dbms msg c = SendNodeRegNotice (SendServerConfig dbms msg (ResponseNodeReg msg ERR_OK c))"

definition register_new :: "'db dbms \<Rightarrow> in_msg \<Rightarrow> st_NodeInfo \<Rightarrow> 'db center \<Rightarrow> ('db center \<times> int) option" where
  "register_new dbms msg info c = do {
     (c, ok) \<leftarrow> GetServerDataFromDB dbms (node_type info) (node_ip info) c;
     if \<not> ok then Some (c, ERR_SERVERINFO)
     else if verify (m_regNodeInfoDB c) info \<noteq> Verify_OK then Some (c, ERR_SERVERINFO)
     else do {
       (c, ok) \<leftarrow> (if loaded (m_centerNodeInfoDB c) then Some (c, True) else GetCenterDataFromDB dbms c);
       if \<not> ok then Some (c, ERR_SERVERINFO)
       else let (c, nid) = getNewNodeID c;
                info = info\<lparr>node_id := sint nid\<rparr>;
                (c, ok) = WriteNodeDataToDB dbms info False (c\<lparr>m_regNodeInfoMsg := info\<rparr>)
            in if \<not> ok then Some (c, ERR_SERVERINFO_RECORD)
               else Some (answer_registration dbms msg (AddNodeInfo (getNodeKey info) info c), ERR_OK)
     }
   }"

definition regNode :: "'db dbms \<Rightarrow> in_msg \<Rightarrow> st_NodeInfo \<Rightarrow> 'db center \<Rightarrow> ('db center \<times> int) option" where
  "regNode dbms msg info c =
     (if \<not> key_fits info then None
      else let c = c\<lparr>m_regMsgShell := sender msg, m_regNodeInfoMsg := info\<rparr> in
           case GetNodeInfo (getNodeKey info) c of
             Some old \<Rightarrow>
               let new = fst (update old info);
                   c = c\<lparr>m_mapNodeInfo := map_put (getNodeKey info) new (m_mapNodeInfo c), m_regNodeInfoMsg := new\<rparr>
               in Some (answer_registration dbms msg c, ERR_OK)
           | None \<Rightarrow> register_new dbms msg info c)"

section \<open>The commands\<close>

text \<open>\<open>getSession\<close>: the session is created by the first command that needs it; \<open>reg_ok\<close> is the
  result of \<open>RegisterCallback\<close>.\<close>

definition getSession :: "'d fpu \<Rightarrow> u32 \<times> u32 \<Rightarrow> 'db dbms \<Rightarrow> 'd jobj \<Rightarrow> bool \<Rightarrow> 'db center \<Rightarrow> 'db center option presult" where
  "getSession fp junk dbms conf reg_ok c =
     (if boInit c then Done (Some c)
      else case NodeSession_Init conf c of Inl e \<Rightarrow> Done None
           | Inr c' \<Rightarrow> if reg_ok then bind_result (loadNodeTypes fp junk dbms c') (\<lambda>(c, ok). Done (Some c)) else Done None)"

fun defined :: "'a presult \<Rightarrow> 'a option" where
  "defined (Done x) = Some x"
| "defined _ = None"

text \<open>The part of the process the commands run in: the configuration and the command number.\<close>

record ('d, 'db) cmd_env =
  e_fp :: "'d fpu"
  e_junk :: "u32 \<times> u32"
  e_dbms :: "'db dbms"
  e_conf :: "'d jobj"
  e_reg_ok :: bool
  e_cmd :: int
  e_time_str :: "u64 \<Rightarrow> string"

definition session_of :: "('d, 'db) cmd_env \<Rightarrow> 'db center \<Rightarrow> 'db center option option" where
  "session_of e c = defined (getSession (e_fp e) (e_junk e) (e_dbms e) (e_conf e) (e_reg_ok e) c)"

definition parse_body :: "('d, 'db) cmd_env \<Rightarrow> in_msg \<Rightarrow> ('d jobj \<times> bool) option" where
  "parse_body e msg = defined (Jobj_Parse (e_fp e) (e_junk e) (in_body msg))"

definition node_data :: "('d, 'db) cmd_env \<Rightarrow> 'd jobj \<Rightarrow> 'db center \<Rightarrow> ('db center \<times> st_NodeInfo option) option" where
  "node_data e ob c = do {
     info \<leftarrow> defined (pareJsonData (e_fp e) (e_junk e) (clock c (ticks c)) ob);
     Some (if info = None then c else c\<lparr>ticks := Suc (ticks c)\<rparr>, info)
   }"

definition CmdNodeReg_AnyMessage :: "('d, 'db) cmd_env \<Rightarrow> in_msg \<Rightarrow> 'db center \<Rightarrow> ('db center \<times> bool) option" where
  "CmdNodeReg_AnyMessage e msg c0 =
     (let fail = (\<lambda>ret c. Some (Response msg ret (reg_body ret 0) c)) in
      if e_cmd e \<noteq> cmd msg then fail ERR_UNKNOWN_CMD c0
      else do {
        s \<leftarrow> session_of e c0;
        case s of None \<Rightarrow> fail ERR_SESSION c0
        | Some c \<Rightarrow> do {
            (ob, ok) \<leftarrow> parse_body e msg;
            if \<not> ok then fail ERR_BODY_JSON c
            else do {
              (c, info) \<leftarrow> node_data e ob c;
              case info of None \<Rightarrow> fail ERR_BODY_JSON c
              | Some info \<Rightarrow>
                  if \<not> checkNodeType (nodeTypesVec c) (node_type info) then fail ERR_SERVERINFO c
                  else do {
                    (c, ret) \<leftarrow> regNode (e_dbms e) msg info c;
                    if ret \<noteq> 0 then fail ERR_SERVERINFO c
                    else Some (c\<lparr>routes := routes c @ [(getNodeKey info, sender msg)]\<rparr>, True)
                  }
            }
          }
      })"

definition CmdNodeReport_AnyMessage :: "('d, 'db) cmd_env \<Rightarrow> in_msg \<Rightarrow> 'db center \<Rightarrow> ('db center \<times> bool) option" where
  "CmdNodeReport_AnyMessage e msg c0 =
     (let answer = (\<lambda>ret c. Some (Response msg ret (err_body ret) c)) in
      if e_cmd e \<noteq> cmd msg then answer ERR_UNKNOWN_CMD c0
      else do {
        (ob, ok) \<leftarrow> parse_body e msg;
        if \<not> ok then answer ERR_BODY_JSON c0
        else do {
          (c1, info) \<leftarrow> node_data e ob c0;
          case info of None \<Rightarrow> answer ERR_BODY_JSON c1
          | Some info \<Rightarrow> do {
              s \<leftarrow> session_of e c1;
              case s of None \<Rightarrow> answer ERR_SESSION c1
              | Some c \<Rightarrow>
                  if \<not> checkNodeType (nodeTypesVec c) (node_type info) then answer ERR_SERVERINFO c
                  else if \<not> key_fits info then None
                  else case GetNodeInfo (getNodeKey info) c of
                    None \<Rightarrow> do {
                      (c, ret) \<leftarrow> regNode (e_dbms e) msg info c;
                      answer ret c
                    }
                  | Some old \<Rightarrow>
                      let info = info\<lparr>node_id := node_id old\<rparr>; (new, ok) = update old info in
                      if \<not> ok then answer ERR_SERVERINFO c
                      else let c = c\<lparr>m_mapNodeInfo := map_put (getNodeKey info) new (m_mapNodeInfo c)\<rparr>;
                               (c, ok) = WriteNodeDataToDB (e_dbms e) info True c
                           in answer (if ok then ERR_OK else ERR_SERVERINFO_RECORD) c
            }
        }
      })"

definition SendDisConnectToOthers :: "in_msg \<Rightarrow> st_NodeInfo \<Rightarrow> 'db center \<Rightarrow> 'db center" where
  "SendDisConnectToOthers msg gone c =
     notify_loop (nodeTypesVec c) (node_type gone) (seq msg) (json_obj [(''node_arry_exit'', JArr [info_json gone])])
       (m_mapNodeInfo c) c"

definition DelNode :: "('d, 'db) cmd_env \<Rightarrow> in_msg \<Rightarrow> 'db center \<Rightarrow> ('db center \<times> bool) option" where
  "DelNode e msg c0 = do {
     s \<leftarrow> session_of e c0;
     case s of None \<Rightarrow> Some (c0, False)
     | Some c \<Rightarrow>
         let k = chars (in_body msg) in
         case GetNodeInfo k c of None \<Rightarrow> Some (c, False)
         | Some gone \<Rightarrow>
             let (c, ok) = DelNodeInfo k c in
             if \<not> ok then Some (c, False)
             else let (c, ok) = SetNodeDataOfflineToDBByNodeId (e_dbms e) (node_id gone) c in
                  if \<not> ok then Some (c, False) else Some (SendDisConnectToOthers msg gone c, True)
   }"

definition CmdNodeDisconnect_AnyMessage :: "('d, 'db) cmd_env \<Rightarrow> in_msg \<Rightarrow> 'db center \<Rightarrow> ('db center \<times> bool) option" where
  "CmdNodeDisconnect_AnyMessage e msg c = map_option (\<lambda>(c, ok). (c, True)) (DelNode e msg c)"

fun min_load :: "NodeLoadStatus \<Rightarrow> NodeLoadStatus list \<Rightarrow> NodeLoadStatus" where
  "min_load best [] = best"
| "min_load best (s # ss) = min_load (if serverload best > serverload s then s else best) ss"

definition load_body :: "NodeLoadStatus \<Rightarrow> int \<Rightarrow> (string \<times> jval) list" where
  "load_body s ret = [(''outerport'', JInt (uint (outerport s))), (''outerip'', jstr (outerip s)),
     (''innerport'', JInt (uint (innerport s))), (''innerip'', jstr (innerip s)), (''errcode'', JInt ret)]"

definition CmdGetLoadMinServer_AnyMessage :: "('d, 'db) cmd_env \<Rightarrow> in_msg \<Rightarrow> 'db center \<Rightarrow> ('db center \<times> bool) option" where
  "CmdGetLoadMinServer_AnyMessage e msg c0 =
     (let answer = (\<lambda>s ret c. Some (Response msg ret (load_body s ret) c)) in
      if e_cmd e \<noteq> cmd msg then answer clear_status ERR_UNKNOWN_CMD c0
      else do {
        s \<leftarrow> session_of e c0;
        case s of None \<Rightarrow> answer clear_status ERR_SESSION c0
        | Some c \<Rightarrow> do {
            (ob, ok) \<leftarrow> parse_body e msg;
            if \<not> ok then answer clear_status ERR_BODY_JSON c
            else case Get_key_string ob (ascii ''servertype'') of None \<Rightarrow> answer clear_status ERR_BODY_JSON c
            | Some ty \<Rightarrow>
                if \<not> checkNodeType (nodeTypesVec c) (chars ty) then answer clear_status ERR_SERVERINFO c
                else case fst (GetNodeStatusByNodeType (chars ty) c) of
                  [] \<Rightarrow> answer clear_status ERR_SERVERINFO c
                | best # ss \<Rightarrow> answer (min_load best ss) ERR_OK c
          }
      })"

definition CmdServerReport_AnyMessage :: "('d, 'db) cmd_env \<Rightarrow> in_msg \<Rightarrow> 'db center \<Rightarrow> ('db center \<times> bool) option" where
  "CmdServerReport_AnyMessage e msg c0 =
     (let answer = (\<lambda>ret c. Some (Response msg ret (err_body ret) c)) in
      if e_cmd e \<noteq> cmd msg then answer ERR_UNKNOWN_CMD c0
      else do {
        s \<leftarrow> session_of e c0;
        case s of None \<Rightarrow> answer ERR_SESSION c0
        | Some c \<Rightarrow> do {
            (ob, ok) \<leftarrow> parse_body e msg;
            if \<not> ok then answer ERR_BODY_JSON c
            else case (Get_key_string ob (ascii ''nodetype''), Get_key_int32 ob (ascii ''innerport''),
                       Get_key_string ob (ascii ''innerip''), Get_key_string ob (ascii ''status'')) of
              (Some ty, Some port, Some ip, Some st) \<Rightarrow>
                let (c, ok) = WriteServerDataLoadToDB (e_dbms e) (e_time_str e)
                      \<lparr>sd_nodetype = chars ty, sd_innerport = port, sd_innerip = chars ip,
                       sd_outerport = opt_int ob ''outerport'', sd_outerip = opt_str ob ''outerip'',
                       sd_status = chars st\<rparr> c
                in answer (if ok then ERR_OK else ERR_SERVERINFO_RECORD) c
            | _ \<Rightarrow> answer ERR_REQ_MISS_PARAM c
          }
      })"

end
