(* ===== verification/Center_Frame.thy ===== *)
theory Center_Frame
  imports Center_Cmd
begin

text \<open>
  What the parts of a command leave alone. \<open>nodes_view\<close> is the part of the session the writes to
  the database never touch, \<open>net_view\<close> the part that answers and notices never touch.
\<close>

named_theorems frame

section \<open>Database writes\<close>

definition nodes_view :: "'db center \<Rightarrow> (string, st_NodeInfo) stdmap \<times> NodeType list \<times> message list \<times>
    (string \<times> shell) list \<times> u32 \<times> st_NodeInfo \<times> shell \<times> bool" where
  "nodes_view c = (m_mapNodeInfo c, nodeTypesVec c, sent c, routes c, sequence c, m_regNodeInfoMsg c,
     m_regMsgShell c, boInit c)"

lemma nodes_view_simps [simp]:
  "nodes_view (c\<lparr>db := d\<rparr>) = nodes_view c" "nodes_view (c\<lparr>sqls := q\<rparr>) = nodes_view c"
  "nodes_view (c\<lparr>ticks := n\<rparr>) = nodes_view c" "nodes_view (c\<lparr>m_currenttime := t\<rparr>) = nodes_view c"
  "nodes_view (c\<lparr>m_nodestatuscheck_lasttime := t\<rparr>) = nodes_view c"
  "nodes_view (c\<lparr>m_nodeloadlog_lasttime := t\<rparr>) = nodes_view c"
  "nodes_view (c\<lparr>m_nodeloadstatistics_lasttime := t\<rparr>) = nodes_view c"
  "nodes_view (c\<lparr>m_nodeloadcheck_lasttime := t\<rparr>) = nodes_view c"
  "nodes_view (c\<lparr>m_serverdataloadcheck_lasttime := t\<rparr>) = nodes_view c"
  "nodes_view (c\<lparr>m_mapNodeStatisticsInfo := s\<rparr>) = nodes_view c"
  "nodes_view (c\<lparr>m_regNodeInfoDB := r\<rparr>) = nodes_view c"
  "nodes_view (c\<lparr>m_centerNodeInfoDB := r\<rparr>) = nodes_view c"
  "nodes_view (c\<lparr>m_nodeid := i\<rparr>) = nodes_view c"
  by (simp_all add: nodes_view_def)

lemma nodes_viewD:
  assumes "nodes_view c' = nodes_view c"
  shows "m_mapNodeInfo c' = m_mapNodeInfo c" "nodeTypesVec c' = nodeTypesVec c" "sent c' = sent c"
    "routes c' = routes c" "sequence c' = sequence c" "m_regNodeInfoMsg c' = m_regNodeInfoMsg c"
    "m_regMsgShell c' = m_regMsgShell c" "boInit c' = boInit c"
  using assms by (simp_all add: nodes_view_def)

lemma view_ExecSql [frame]: "nodes_view (fst (ExecSql dbms q c)) = nodes_view c"
  by (simp add: ExecSql_def split_beta Let_def nodes_view_def)

lemma view_run_sql [frame]: "nodes_view (fst (run_sql dbms q c)) = nodes_view c"
  by (simp add: run_sql_def split_beta Let_def frame)

lemma view_setCurrentTime [frame]: "nodes_view (setCurrentTime c) = nodes_view c"
  by (simp add: setCurrentTime_def nodes_view_def)

lemma view_offline [frame]: "nodes_view (fst (SetNodeDataOfflineToDBByNodeId dbms n c)) = nodes_view c"
  by (simp add: SetNodeDataOfflineToDBByNodeId_def frame)

lemma view_CheckNodeStatus [frame]: "nodes_view (CheckNodeStatus dbms c) = nodes_view c"
  by (simp add: CheckNodeStatus_def Let_def CheckOfflineNodeStatusToDB_def ClearOverdueOfflineNodeStatusToDB_def frame)

lemma view_WriteNodeStatus [frame]: "nodes_view (fst (WriteNodeStatus dbms info c)) = nodes_view c"
  by (simp add: WriteNodeStatus_def ReplaceNodeStatusToDB_def split_beta Let_def frame)

lemma view_log_loop [frame]: "nodes_view (fst (log_loop dbms infos c)) = nodes_view c"
  by (induction infos arbitrary: c) (simp_all add: split_beta Let_def frame)

lemma view_WriteNodeLog [frame]: "nodes_view (fst (WriteNodeLog dbms c)) = nodes_view c"
  by (simp add: WriteNodeLog_def InsertNodeLogToDB_def frame)

lemma view_statistics_loop [frame]: "nodes_view (fst (snd (statistics_loop dbms ts c))) = nodes_view c"
proof (induction ts arbitrary: c)
  case (Cons e ts)
  then show ?case by (cases e) (simp add: split_beta Let_def frame)
qed simp

lemma view_WriteNodeStatistics [frame]: "nodes_view (fst (WriteNodeStatistics dbms info c)) = nodes_view c"
  by (simp add: WriteNodeStatistics_def InsertNodeStatisticsToDB_def split_beta Let_def frame)

lemma view_NodeloadCheck [frame]: "nodes_view (fst (NodeloadCheck dbms c)) = nodes_view c"
  by (simp add: NodeloadCheck_def ClearOverdueOfflineNodeLogToDB_def ClearOverdueOfflineNodeStatisticsToDB_def
      split_beta Let_def frame)

lemma view_WriteNodeDataToDB [frame]: "nodes_view (fst (WriteNodeDataToDB dbms info report c)) = nodes_view c"
  by (simp add: WriteNodeDataToDB_def split_beta Let_def frame)

lemma view_WriteServerDataLoadToDB [frame]: "nodes_view (fst (WriteServerDataLoadToDB dbms ts s c)) = nodes_view c"
  by (simp add: WriteServerDataLoadToDB_def ServerDataLoadCheck_def ClearOverdueServerDataLogToDB_def
      ReplaceServerDataLoadStatusToDB_def WriteServerDataLoadLogToDB_def split_beta Let_def frame)

lemma view_getNewNodeID [frame]: "nodes_view (fst (getNewNodeID c)) = nodes_view c"
  by (simp add: getNewNodeID_def Let_def)

lemma view_GetServerDataFromDB: "GetServerDataFromDB dbms ty ip c = Some (c', ok) \<Longrightarrow> nodes_view c' = nodes_view c"
  using view_ExecSql [of dbms _ c]
  by (fastforce simp: GetServerDataFromDB_def split_beta Let_def bind_eq_Some_conv split: option.splits list.splits)

lemma view_GetCenterDataFromDB: "GetCenterDataFromDB dbms c = Some (c', ok) \<Longrightarrow> nodes_view c' = nodes_view c"
  using view_ExecSql [of dbms _ c]
  by (fastforce simp: GetCenterDataFromDB_def split_beta Let_def bind_eq_Some_conv split: option.splits list.splits)

section \<open>Answers and notices\<close>

definition net_view :: "'db center \<Rightarrow> (string, st_NodeInfo) stdmap \<times> NodeType list \<times>
    (string, st_NodeStaisticsInfo) stdmap \<times> (string \<times> shell) list \<times> st_NodeInfo \<times> bool" where
  "net_view c = (m_mapNodeInfo c, nodeTypesVec c, m_mapNodeStatisticsInfo c, routes c, m_regNodeInfoMsg c, boInit c)"

lemma net_viewD:
  assumes "net_view c' = net_view c"
  shows "m_mapNodeInfo c' = m_mapNodeInfo c" "nodeTypesVec c' = nodeTypesVec c"
    "m_mapNodeStatisticsInfo c' = m_mapNodeStatisticsInfo c" "routes c' = routes c"
    "m_regNodeInfoMsg c' = m_regNodeInfoMsg c" "boInit c' = boInit c"
  using assms by (simp_all add: net_view_def)

lemma net_SendTo [frame]: "net_view (SendTo d cm sq b c) = net_view c"
  by (simp add: SendTo_def net_view_def)

lemma net_GetSequence [frame]: "net_view (fst (GetSequence c)) = net_view c"
  by (simp add: GetSequence_def net_view_def Let_def)

lemma net_Response [frame]: "net_view (fst (Response msg ret ms c)) = net_view c"
  by (simp add: Response_def frame)

lemma net_ExecSql [frame]: "net_view (fst (ExecSql dbms q c)) = net_view c"
  by (simp add: ExecSql_def split_beta Let_def net_view_def)

lemma net_SendServerConfig [frame]: "net_view (SendServerConfig dbms msg c) = net_view c"
  by (simp add: SendServerConfig_def loadServerConfig_def split_beta Let_def frame split: option.split)

lemma net_SendTo_pow [frame]: "net_view ((SendTo d cm sq b ^^ n) c) = net_view c"
  by (induction n) (simp_all add: frame)

lemma net_notify_loop [frame]: "net_view (notify_loop types ty sq j es c) = net_view c"
  by (induction types ty sq j es c rule: notify_loop.induct) (simp_all add: frame)

lemma net_SendNodeRegNotice [frame]: "net_view (SendNodeRegNotice c) = net_view c"
  by (simp add: SendNodeRegNotice_def split_beta Let_def frame split: option.split)

lemma net_answer_registration [frame]: "net_view (answer_registration dbms msg c) = net_view c"
  by (simp add: answer_registration_def ResponseNodeReg_def frame)

lemma net_SendDisConnectToOthers [frame]: "net_view (SendDisConnectToOthers msg gone c) = net_view c"
  by (simp add: SendDisConnectToOthers_def frame)

text \<open>The messages of the loop, in order: each node once for each time its type lists the needed type.\<close>

definition notices :: "NodeType list \<Rightarrow> string \<Rightarrow> u32 \<Rightarrow> jval \<Rightarrow> (string \<times> st_NodeInfo) list \<Rightarrow> message list" where
  "notices types ty sq j es = concat (map (\<lambda>e. replicate (needing types ty (snd e))
     (Node (getNodeKey (snd e)), CMD_REQ_NODE_REG_NOTICE, sq, Json j)) es)"

lemma sent_pow: "sent ((SendTo d cm sq b ^^ n) c) = sent c @ replicate n (d, cm, sq, b)"
  by (induction n) (simp_all add: SendTo_def replicate_append_same)

lemma sent_notify_loop: "sent (notify_loop types ty sq j es c) = sent c @ notices types ty sq j es"
  by (induction types ty sq j es c rule: notify_loop.induct) (simp_all add: notices_def sent_pow)

section \<open>Getting the session\<close>

text \<open>The values of a C++ \<open>int\<close>.\<close>

definition in32 :: "int \<Rightarrow> bool" where
  "in32 i \<longleftrightarrow> - (2 ^ 31) \<le> i \<and> i < 2 ^ 31"

lemma in32_wrap32 [simp]: "in32 (wrap32 i)"
  using sint_range_size [of "of_int i :: u32"] by (simp add: in32_def wrap32_def word_size)

lemma in32_sint [simp]: "in32 (sint (w :: u32))"
  using sint_range_size [of w] by (simp add: in32_def word_size)

lemma sint_in32: "in32 i \<Longrightarrow> sint (of_int i :: u32) = i"
  by (simp add: in32_def signed_of_int signed_take_bit_int_eq_self)

lemma in32_item: "item_int32 x = Some i \<Longrightarrow> in32 i"
  by (auto simp: item_int32_def)

lemma in32_Get: "Get_key_int32 ob k = Some i \<Longrightarrow> in32 i"
  by (auto simp: Get_key_int32_def bind_eq_Some_conv in32_item)

definition holds :: "('c \<Rightarrow> bool) \<Rightarrow> string + 'c \<Rightarrow> bool" where
  "holds P r \<longleftrightarrow> (\<forall>c. r = Inr c \<longrightarrow> P c)"

lemma holds_start: "P c \<Longrightarrow> holds P (Inr c)"
  by (simp add: holds_def)

lemma holds_conf_int: "(\<And>i c. in32 i \<Longrightarrow> P c \<Longrightarrow> P (upd i c)) \<Longrightarrow> holds P r \<Longrightarrow> holds P (conf_int conf n upd r)"
  by (auto simp: holds_def conf_int_def dest: in32_Get split: sum.splits option.splits)

lemma holds_conf_str: "(\<And>s c. P c \<Longrightarrow> P (upd s c)) \<Longrightarrow> holds P r \<Longrightarrow> holds P (conf_str conf n upd r)"
  by (auto simp: holds_def conf_str_def split: sum.splits option.splits)

lemma holds_finish:
  "(\<And>c. P c \<Longrightarrow> P (c\<lparr>boInit := True\<rparr>)) \<Longrightarrow> holds P r \<Longrightarrow>
   holds P (case r of Inl e \<Rightarrow> Inl e | Inr c \<Rightarrow> Inr (c\<lparr>boInit := True\<rparr>))"
  by (auto simp: holds_def split: sum.splits)

lemmas holds_rules = holds_start holds_conf_int holds_conf_str holds_finish

definition start_view :: "'db center \<Rightarrow> (string, st_NodeInfo) stdmap \<times> (string, st_NodeStaisticsInfo) stdmap \<times>
    message list \<times> (string \<times> shell) list \<times> u32" where
  "start_view c = (m_mapNodeInfo c, m_mapNodeStatisticsInfo c, sent c, routes c, sequence c)"

lemma start_view_simps [simp]:
  "start_view (c\<lparr>boInit := b\<rparr>) = start_view c" "start_view (c\<lparr>nodeTypesVec := v\<rparr>) = start_view c"
  "start_view (c\<lparr>m_nodereport_timeinterval := i\<rparr>) = start_view c"
  "start_view (c\<lparr>m_nodestatuscheck_timeinterval := i\<rparr>) = start_view c"
  "start_view (c\<lparr>m_nodeoffline_timeinterval := i\<rparr>) = start_view c"
  "start_view (c\<lparr>m_deleteofflinenode_timeinterval := i\<rparr>) = start_view c"
  "start_view (c\<lparr>m_nodeloadlog_timeinterval := i\<rparr>) = start_view c"
  "start_view (c\<lparr>m_nodeloadlog_overdue := i\<rparr>) = start_view c"
  "start_view (c\<lparr>m_nodeloadstatistics_timeinterval := i\<rparr>) = start_view c"
  "start_view (c\<lparr>m_nodeloadstatistics_overdue := i\<rparr>) = start_view c"
  "start_view (c\<lparr>m_nodeloadcheck_timeinterval := i\<rparr>) = start_view c"
  "start_view (c\<lparr>m_serverdataloadstatuslog_overdue := i\<rparr>) = start_view c"
  "start_view (c\<lparr>m_serverDataLoadCheck_timeinterval := i\<rparr>) = start_view c"
  "start_view (c\<lparr>m_center_inner_host := s\<rparr>) = start_view c"
  "start_view (c\<lparr>m_center_inner_port := i\<rparr>) = start_view c"
  "start_view (c\<lparr>m_center_node_type := s\<rparr>) = start_view c"
  "start_view (c\<lparr>m_center_process_num := i\<rparr>) = start_view c"
  by (simp_all add: start_view_def)

lemma start_viewD:
  assumes "start_view c' = start_view c"
  shows "m_mapNodeInfo c' = m_mapNodeInfo c" "m_mapNodeStatisticsInfo c' = m_mapNodeStatisticsInfo c"
    "sent c' = sent c" "routes c' = routes c" "sequence c' = sequence c"
  using assms by (simp_all add: start_view_def)

lemma holds_NodeSession_Init: "holds (\<lambda>c. start_view c = start_view c0) (NodeSession_Init conf c0)"
  unfolding NodeSession_Init_def Let_def
  by (cases "boInit c0"; simp only: if_True if_False; intro holds_rules; simp)

lemma view_NodeSession_Init: "NodeSession_Init conf c0 = Inr c \<Longrightarrow> start_view c = start_view c0"
  using holds_NodeSession_Init [of c0 conf] by (simp add: holds_def)

lemma view_loadNodeTypes: "loadNodeTypes fp junk dbms c0 = Done (c, ok) \<Longrightarrow> start_view c = start_view c0"
proof -
  have e: "start_view (fst (ExecSql dbms q c)) = start_view c" for q c
    by (simp add: ExecSql_def split_beta Let_def start_view_def)
  assume "loadNodeTypes fp junk dbms c0 = Done (c, ok)"
  then show ?thesis
    by (auto simp: loadNodeTypes_def split_beta Let_def e bind_result_Done split: option.splits if_splits)
qed

lemma session_started: "boInit c \<Longrightarrow> session_of e c = Some (Some c)"
  by (simp add: session_of_def getSession_def)

lemma view_session_of: "session_of e c = Some (Some c') \<Longrightarrow> start_view c' = start_view c"
proof -
  assume "session_of e c = Some (Some c')"
  then have "getSession (e_fp e) (e_junk e) (e_dbms e) (e_conf e) (e_reg_ok e) c = Done (Some c')"
    by (cases "getSession (e_fp e) (e_junk e) (e_dbms e) (e_conf e) (e_reg_ok e) c") (auto simp: session_of_def)
  then show ?thesis
    by (auto simp: getSession_def bind_result_Done dest!: view_NodeSession_Init view_loadNodeTypes
        split: if_splits sum.splits)
qed

end
