(* ===== verification/Center_Registry.thy ===== *)
theory Center_Registry
  imports Center_Frame
begin

text \<open>
  The registry of nodes as an abstract machine: a command leaves it alone, refreshes the load of a
  node, enrols a new node under a fresh number or removes a node. Every command refines one of these
  steps, so the invariants of the registry are proved on the steps.
\<close>

section \<open>Keys\<close>

lemma split_at_last:
  "x \<notin> set ys \<Longrightarrow> x \<notin> set ys' \<Longrightarrow> xs @ x # ys = xs' @ x # ys' \<longleftrightarrow> xs = xs' \<and> ys = ys'"
  by (auto simp: append_eq_append_conv2 Cons_eq_append_conv append_eq_Cons_conv)

lemma fmt_d_colon: "CHR '':'' \<notin> set (fmt_d i)"
proof -
  have "CHR '':'' \<notin> set (dec n)" for n
    using dec_digits [of n] by (auto simp: is_digit_def)
  then show ?thesis by (simp add: fmt_d_def)
qed

lemma getNodeKey_inj: "getNodeKey i = getNodeKey j \<longleftrightarrow> node_ip i = node_ip j \<and> node_port i = node_port j"
  by (simp add: getNodeKey_def split_at_last fmt_d_colon fmt_d_inj)

definition identity :: "st_NodeInfo \<Rightarrow> int \<times> string \<times> int \<times> string \<times> int \<times> string" where
  "identity i = (node_id i, node_type i, node_port i, node_ip i, node_access_port i, node_access_ip i)"

lemma identity_update [simp]: "identity (fst (update old new)) = identity old"
  by (simp add: update_def identity_def)

lemma identityD:
  assumes "identity i = identity j"
  shows "node_id i = node_id j" "node_type i = node_type j" "getNodeKey i = getNodeKey j" "key_fits i = key_fits j"
  using assms by (simp_all add: identity_def getNodeKey_def key_fits_def)

lemma getNodeKey_id [simp]: "getNodeKey (i\<lparr>node_id := n\<rparr>) = getNodeKey i"
  and key_fits_id [simp]: "key_fits (i\<lparr>node_id := n\<rparr>) = key_fits i"
  by (simp_all add: getNodeKey_def key_fits_def)

lemma update_id [simp]: "fst (update old (new\<lparr>node_id := n\<rparr>)) = fst (update old new)"
  "snd (update old (new\<lparr>node_id := n\<rparr>)) = snd (update old new)"
  by (simp_all add: update_def)

lemma update_pair: "update old (new\<lparr>node_id := n\<rparr>) = (new', ok) \<Longrightarrow> new' = fst (update old new)"
  by (metis fst_conv update_id(1))

lemma update_ok: "getNodeKey old = getNodeKey new \<Longrightarrow> snd (update old new)"
  by (simp add: getNodeKey_inj update_def)

section \<open>The machine\<close>

type_synonym registry = "(string, st_NodeInfo) stdmap"

inductive registry_step :: "registry \<Rightarrow> registry \<Rightarrow> bool" where
  stay: "registry_step m m"
| refresh: "map_find (getNodeKey new) m = Some old \<Longrightarrow> key_fits new \<Longrightarrow>
     registry_step m (map_put (getNodeKey new) (fst (update old new)) m)"
| enrol: "map_find (getNodeKey new) m = None \<Longrightarrow> key_fits new \<Longrightarrow>
     registry_step m (map_put (getNodeKey new) (new\<lparr>node_id := sint (max_node_id m + 1)\<rparr>) m)"
| remove: "registry_step m (map_erase k m)"

inductive_cases registry_stepE: "registry_step m m'"

definition entry_ok :: "nat \<Rightarrow> string \<times> st_NodeInfo \<Rightarrow> bool" where
  "entry_ok n e \<longleftrightarrow> fst e = getNodeKey (snd e) \<and> key_fits (snd e) \<and> 0 < node_id (snd e) \<and> node_id (snd e) \<le> int n"

definition registry_ok :: "nat \<Rightarrow> registry \<Rightarrow> bool" where
  "registry_ok n m \<longleftrightarrow> map_ok m \<and> (\<forall>e \<in> set m. entry_ok n e) \<and> inj_on (\<lambda>e. node_id (snd e)) (set m)"

lemma registry_okD:
  assumes "registry_ok n m"
  shows "map_ok m" "map_find k m = Some i \<Longrightarrow> entry_ok n (k, i)"
    "map_find k m = Some i \<Longrightarrow> map_find k' m = Some j \<Longrightarrow> node_id i = node_id j \<Longrightarrow> k = k'"
proof -
  show "map_ok m" using assms by (simp add: registry_ok_def)
  then show "map_find k m = Some i \<Longrightarrow> entry_ok n (k, i)"
    using assms by (auto simp: registry_ok_def stdmap.entries_find [symmetric])
  show "k = k'" if "map_find k m = Some i" "map_find k' m = Some j" "node_id i = node_id j"
    using assms that \<open>map_ok m\<close> inj_onD [of "\<lambda>e. node_id (snd e)" "set m" "(k, i)" "(k', j)"]
    by (simp add: registry_ok_def stdmap.entries_find)
qed

lemma max_node_id_bound:
  assumes "\<forall>e \<in> set m. 0 < node_id (snd e) \<and> node_id (snd e) \<le> int n" "n < 2 ^ 31"
  shows "0 \<le> sint (max_node_id m) \<and> sint (max_node_id m) \<le> int n \<and>
    (\<forall>e \<in> set m. node_id (snd e) \<le> sint (max_node_id m))"
proof -
  let ?f = "\<lambda>t (k :: string, info). if node_id info > sint t then (of_int (node_id info) :: u32) else t"
  have s: "sint (of_int i :: u32) = i" if "0 < i" "i \<le> int n" for i
    using that assms(2) by (simp add: sint_in32 in32_def)
  have "0 \<le> sint (foldl ?f t m) \<and> sint (foldl ?f t m) \<le> int n \<and> sint t \<le> sint (foldl ?f t m) \<and>
      (\<forall>e \<in> set m. node_id (snd e) \<le> sint (foldl ?f t m))" if "0 \<le> sint t" "sint t \<le> int n" for t
    using assms(1) that
  proof (induction m arbitrary: t)
    case (Cons e m)
    let ?t = "?f t e"
    have t: "0 \<le> sint ?t" "sint ?t \<le> int n" "sint t \<le> sint ?t" "node_id (snd e) \<le> sint ?t"
      using Cons.prems s [of "node_id (snd e)"] by (auto split: prod.split)
    with Cons.IH [of ?t] Cons.prems show ?case by auto
  qed simp
  then show ?thesis by (simp add: max_node_id_def)
qed

lemma next_node_id:
  assumes "\<forall>e \<in> set m. 0 < node_id (snd e) \<and> node_id (snd e) \<le> int n" "Suc n < 2 ^ 31"
  shows "sint (max_node_id m + 1) = sint (max_node_id m) + 1"
proof -
  have "0 \<le> sint (max_node_id m)" "sint (max_node_id m) \<le> int n"
    using max_node_id_bound [OF assms(1)] assms(2) by auto
  then have "in32 (sint (max_node_id m) + 1)" using assms(2) by (simp add: in32_def)
  from sint_in32 [OF this] show ?thesis by simp
qed

lemma entry_ok_mono: "entry_ok n e \<Longrightarrow> n \<le> n' \<Longrightarrow> entry_ok n' e"
  by (simp add: entry_ok_def)

lemma registry_ok_mono: "registry_ok n m \<Longrightarrow> n \<le> n' \<Longrightarrow> registry_ok n' m"
  by (auto simp: registry_ok_def intro: entry_ok_mono)

lemma registry_ok_put:
  assumes m: "registry_ok n m" and v: "entry_ok n (k, v)"
    and new: "\<And>k' i. map_find k' m = Some i \<Longrightarrow> k' \<noteq> k \<Longrightarrow> node_id i \<noteq> node_id v"
  shows "registry_ok n (map_put k v m)"
proof -
  have ok: "map_ok m" by (rule registry_okD [OF m])
  note s = stdmap.entries_put [OF ok, of k v]
  have "inj_on (\<lambda>e. node_id (snd e)) (insert (k, v) {e \<in> set m. fst e \<noteq> k})"
    using m new by (auto simp: registry_ok_def inj_on_def stdmap.entries_find [OF ok]) metis+
  moreover have "\<forall>e \<in> insert (k, v) {e \<in> set m. fst e \<noteq> k}. entry_ok n e"
    using m v by (auto simp: registry_ok_def)
  ultimately show ?thesis using s map_put_ok [OF ok] by (simp add: registry_ok_def)
qed

lemma registry_ok_erase: "registry_ok n m \<Longrightarrow> registry_ok n (map_erase k m)"
  using stdmap.entries_erase [of m k]
  by (auto simp: registry_ok_def map_erase_ok intro: inj_on_subset)

lemma fresh_id:
  assumes m: "registry_ok n m" and n: "Suc n < 2 ^ 31"
  shows "0 < sint (max_node_id m + 1)" "sint (max_node_id m + 1) \<le> int (Suc n)"
    "map_find k m = Some i \<Longrightarrow> node_id i < sint (max_node_id m + 1)"
proof -
  have e: "\<forall>e \<in> set m. 0 < node_id (snd e) \<and> node_id (snd e) \<le> int n"
    using m by (auto simp: registry_ok_def entry_ok_def)
  note b = max_node_id_bound [OF e] next_node_id [OF e n]
  show "0 < sint (max_node_id m + 1)" "sint (max_node_id m + 1) \<le> int (Suc n)" using b n by auto
  show "map_find k m = Some i \<Longrightarrow> node_id i < sint (max_node_id m + 1)"
    using b n registry_okD(1) [OF m] by (force simp: stdmap.entries_find [symmetric])
qed

lemma registry_step_ok:
  assumes step: "registry_step m m'" and m: "registry_ok n m" and n: "Suc n < 2 ^ 31"
  shows "registry_ok (Suc n) m'"
  using step
proof cases
  case stay
  then show ?thesis using m by (auto intro: registry_ok_mono)
next
  case (refresh new old)
  have "entry_ok n (getNodeKey new, old)" by (rule registry_okD(2) [OF m refresh(2)])
  then have "entry_ok n (getNodeKey new, fst (update old new))"
    using identityD [OF identity_update [of old new]] by (simp add: entry_ok_def)
  moreover have "node_id i \<noteq> node_id (fst (update old new))"
    if "map_find k m = Some i" "k \<noteq> getNodeKey new" for k i
    using registry_okD(3) [OF m that(1) refresh(2)] that(2) identityD [OF identity_update [of old new]] by auto
  ultimately have "registry_ok n m'"
    unfolding refresh(1) by (rule registry_ok_put [OF m])
  then show ?thesis by (rule registry_ok_mono) simp
next
  case (enrol new)
  note f = fresh_id [OF m n]
  from f(1,2) enrol have "entry_ok (Suc n) (getNodeKey new, new\<lparr>node_id := sint (max_node_id m + 1)\<rparr>)"
    by (simp add: entry_ok_def)
  with enrol(1) f(3) show ?thesis
    using registry_ok_put [OF registry_ok_mono [OF m, of "Suc n"]] by (fastforce)
next
  case (remove k)
  show ?thesis unfolding remove by (rule registry_ok_mono [OF registry_ok_erase [OF m]]) simp
qed

lemma registry_step_identity:
  assumes step: "registry_step m m'" and m: "map_ok m"
    and old: "map_find k m = Some i" and new: "map_find k m' = Some i'"
  shows "identity i' = identity i"
  using step old new m
  by cases (auto simp: stdmap.find_put stdmap.find_erase split: if_splits)

lemma registry_step_other:
  assumes step: "registry_step m m'" and m: "map_ok m"
  shows "\<exists>key. \<forall>k. k \<noteq> key \<longrightarrow> map_find k m' = map_find k m"
  using step
proof cases
  case (refresh new old)
  then show ?thesis using m by (auto simp: stdmap.find_put)
next
  case (enrol new)
  then show ?thesis using m by (auto simp: stdmap.find_put)
next
  case (remove k)
  then show ?thesis by (auto simp: stdmap.find_erase)
qed simp

section \<open>Commands refine the machine\<close>

abbreviation refines :: "'db center \<Rightarrow> 'db center \<times> 'r \<Rightarrow> bool" where
  "refines c r \<equiv> registry_step (m_mapNodeInfo c) (m_mapNodeInfo (fst r))"

lemma same_map: "m_mapNodeInfo c' = m_mapNodeInfo c \<Longrightarrow> registry_step (m_mapNodeInfo c) (m_mapNodeInfo c')"
  by (simp add: stay)

lemma pair_map:
  "p = (c', x) \<Longrightarrow> m_mapNodeInfo (fst p) = m \<Longrightarrow> m_mapNodeInfo c' = m"
  by simp

lemma node_data_view: "node_data e ob c = Some (c', info) \<Longrightarrow> start_view c' = start_view c"
  by (auto simp: node_data_def bind_eq_Some_conv start_view_def split: if_splits)

lemma getNewNodeID_map:
  "getNewNodeID c = (c', nid) \<Longrightarrow> m_mapNodeInfo c' = m_mapNodeInfo c \<and> nid = max_node_id (m_mapNodeInfo c) + 1"
  by (auto simp: getNewNodeID_def Let_def)

lemma AddNodeInfo_map [simp]:
  "map_find k (m_mapNodeInfo c) = None \<Longrightarrow> m_mapNodeInfo (AddNodeInfo k info c) = map_put k info (m_mapNodeInfo c)"
  by (simp add: AddNodeInfo_def map_insert_def)

lemma DelNodeInfo_map: "DelNodeInfo k c = (c', ok) \<Longrightarrow> registry_step (m_mapNodeInfo c) (m_mapNodeInfo c')"
  by (auto simp: DelNodeInfo_def intro: stay remove split: if_splits)

lemmas keeps_map = nodes_viewD(1) [OF view_GetServerDataFromDB] nodes_viewD(1) [OF view_GetCenterDataFromDB]
  start_viewD(1) [OF view_session_of] start_viewD(1) [OF node_data_view]
  pair_map [OF _ nodes_viewD(1) [OF view_WriteNodeDataToDB]]
  pair_map [OF _ nodes_viewD(1) [OF view_WriteServerDataLoadToDB]]
  pair_map [OF _ nodes_viewD(1) [OF view_offline]]

lemmas keeps_map_simps = net_viewD(1) [OF net_Response] net_viewD(1) [OF net_answer_registration]
  net_viewD(1) [OF net_SendDisConnectToOthers]

lemma register_new_step:
  assumes "map_find (getNodeKey info) (m_mapNodeInfo c) = None" "key_fits info"
  shows "post (refines c) (register_new dbms msg info c)"
  unfolding register_new_def Let_def
  by (intro branches)
    (use assms in \<open>auto dest!: keeps_map getNewNodeID_map intro: same_map enrol simp: keeps_map_simps split: if_splits\<close>)

lemma regNode_step: "post (refines c) (regNode dbms msg info c)"
  unfolding regNode_def Let_def GetNodeInfo_def
  by (intro branches register_new_step [of info "c\<lparr>m_regMsgShell := sender msg, m_regNodeInfoMsg := info\<rparr>" for c, simplified])
    (auto intro: refresh simp: keeps_map_simps)

lemmas regNode_refines = postD [OF regNode_step]

lemma CmdNodeReg_step: "post (refines c) (CmdNodeReg_AnyMessage e msg c)"
  unfolding CmdNodeReg_AnyMessage_def Let_def
  by (intro branches) (auto dest!: keeps_map regNode_refines intro: stay simp: keeps_map_simps)

lemma CmdNodeReport_step: "post (refines c) (CmdNodeReport_AnyMessage e msg c)"
  unfolding CmdNodeReport_AnyMessage_def Let_def GetNodeInfo_def
  by (intro branches) (auto dest!: keeps_map regNode_refines update_pair intro: stay refresh simp: keeps_map_simps)

lemma CmdNodeDisconnect_step: "post (refines c) (CmdNodeDisconnect_AnyMessage e msg c)"
proof -
  have "post (refines c) (DelNode e msg c)"
    unfolding DelNode_def Let_def
    by (intro branches) (auto dest!: keeps_map DelNodeInfo_map intro: stay simp: keeps_map_simps)
  then show ?thesis by (auto simp: post_def CmdNodeDisconnect_AnyMessage_def)
qed

lemma CmdGetLoadMinServer_step: "post (refines c) (CmdGetLoadMinServer_AnyMessage e msg c)"
  unfolding CmdGetLoadMinServer_AnyMessage_def Let_def
  by (intro branches) (auto dest!: keeps_map intro: stay simp: keeps_map_simps)

lemma CmdServerReport_step: "post (refines c) (CmdServerReport_AnyMessage e msg c)"
  unfolding CmdServerReport_AnyMessage_def Let_def
  by (intro branches) (auto dest!: keeps_map intro: stay simp: keeps_map_simps)

end
