(* ===== verification/Center_Example.thy ===== *)
theory Center_Example
  imports Center_Registry CJsonObject_Laws
begin

text \<open>
  A concrete center, a registration request and a database that admits the node, for the witnesses.
\<close>

section \<open>Bodies that are printed JSON values\<close>

definition body_of :: "'d fpu \<Rightarrow> jval \<Rightarrow> byte list" where
  "body_of fp j = cJSON_PrintUnformatted fp (of_jval fp None j)"

lemma Jobj_Parse_print:
  assumes "wf_jval j"
  shows "Jobj_Parse fp junk (print_value fp d fmt (of_jval fp nm j)) = Done (empty_jobj\<lparr>jdata := Some (of_jval fp None j)\<rparr>, True)"
proof -
  have "c_bytes (text_of fp d fmt j) = text_of fp d fmt j" by (rule c_bytes_id [OF text_of_no_zero [OF assms]])
  then show ?thesis
    using cJSON_Parse_print [OF assms, of fp junk d fmt] by (simp add: Jobj_Parse_def print_of_jval)
qed

lemma Jobj_Parse_body_of:
  "wf_jval j \<Longrightarrow> Jobj_Parse fp junk (body_of fp j) = Done (empty_jobj\<lparr>jdata := Some (of_jval fp None j)\<rparr>, True)"
  by (simp add: body_of_def cJSON_PrintUnformatted_def Jobj_Parse_print)

lemma Get_key_json_print:
  "get_member ob k = Some (of_jval fp nm j) \<Longrightarrow> wf_jval j \<Longrightarrow>
   Get_key_json fp junk ob k = Done (Some (empty_jobj\<lparr>jdata := Some (of_jval fp None j)\<rparr>))"
  by (simp add: Get_key_json_def cJSON_Print_def Jobj_Parse_print)

section \<open>The example\<close>

definition wit_load :: jval where
  "wit_load = json_obj [(''load'', JInt 7)]"

definition wit_request :: jval where
  "wit_request = json_obj [(''node_type'', jstr ''LOGIC''), (''node_id'', JInt 0), (''node_ip'', jstr ''10.0.0.5''),
    (''node_port'', JInt 9001), (''access_ip'', jstr ''1.2.3.4''), (''access_port'', JInt 80), (''worker_num'', JInt 4),
    (''node'', wit_load), (''worker'', JArr [])]"

definition wit_ob :: "int jobj" where
  "wit_ob = empty_jobj\<lparr>jdata := Some (of_jval int_fpu None wit_request)\<rparr>"

definition wit_info :: st_NodeInfo where
  "wit_info = \<lparr>node_id = 0, node_type = ''LOGIC'', node_port = 9001, node_ip = ''10.0.0.5'',
     node_access_port = 80, node_access_ip = ''1.2.3.4'', worker_num = 4, active_time = 1000, load = 7,
     connect = 0, client = 0, recvNum = 0, recvByte = 0, sendNum = 0, sendByte = 0, worker = ''[]''\<rparr>"

definition wit_row :: row where
  "wit_row = [(''canuse'', ''1''), (''config'', ''{}''), (''innerip'', ''10.0.0.5''), (''nodetype'', ''LOGIC''),
     (''outerip'', ''1.2.3.4'')]"

definition wit_env :: "(int, nat) cmd_env" where
  "wit_env = \<lparr>e_fp = int_fpu, e_junk = (0, 0), e_dbms = (\<lambda>d q. (Suc d, Some [wit_row])), e_conf = empty_jobj,
     e_reg_ok = True, e_cmd = 13, e_time_str = (\<lambda>_. [])\<rparr>"

definition wit_msg :: in_msg where
  "wit_msg = \<lparr>sender = (3, 1), cmd = 13, seq = 5, in_body = body_of int_fpu wit_request\<rparr>"

definition wit_type :: NodeType where
  "wit_type = \<lparr>nt_nodetype = ''LOGIC'', nt_loadso = [], neededServers = [''LOGIC'']\<rparr>"

definition wit_center :: "nat center" where
  "wit_center = \<lparr>db = 0, sqls = [], sent = [], routes = [], clock = (\<lambda>n. 1000), ticks = 0, sequence = 0,
     boInit = True, m_mapNodeInfo = [], m_mapNodeStatisticsInfo = [], nodeTypesVec = [wit_type], m_nodeid = 0,
     m_currenttime = 0, m_nodereport_timeinterval = 10, m_nodeoffline_timeinterval = 30,
     m_deleteofflinenode_timeinterval = 60, m_nodestatuscheck_timeinterval = 10, m_nodeloadlog_timeinterval = 10,
     m_nodeloadlog_overdue = 100, m_nodeloadstatistics_timeinterval = 10, m_nodeloadstatistics_overdue = 100,
     m_nodeloadcheck_timeinterval = 10, m_serverDataLoadCheck_timeinterval = 10,
     m_serverdataloadstatuslog_overdue = 100, m_nodeloadlog_lasttime = 0, m_nodeloadstatistics_lasttime = 0,
     m_nodeloadcheck_lasttime = 0, m_nodestatuscheck_lasttime = 0, m_serverdataloadcheck_lasttime = 0,
     m_center_inner_host = ''10.0.0.1'', m_center_inner_port = 9000, m_center_node_type = ''CENTER'',
     m_center_process_num = 1, m_centerNodeInfoDB = clear_db\<lparr>loaded := True\<rparr>, m_regNodeInfoDB = clear_db,
     m_regNodeInfoMsg = clean, m_regMsgShell = (0, 0)\<rparr>"

lemma wf_wit: "wf_jval wit_request" "wf_jval wit_load" "wf_jval (JArr [])"
  by code_simp+

lemma wit_parse: "parse_body wit_env wit_msg = Some (wit_ob, True)"
  by (simp add: parse_body_def wit_env_def wit_msg_def Jobj_Parse_body_of wf_wit wit_ob_def)

lemma wit_members:
  "Get_key_string wit_ob (ascii ''node_type'') = Some (ascii ''LOGIC'')"
  "Get_key_string wit_ob (ascii ''node_ip'') = Some (ascii ''10.0.0.5'')"
  "Get_key_int32 wit_ob (ascii ''node_port'') = Some 9001"
  "Get_key_int32 wit_ob (ascii ''worker_num'') = Some 4"
  "Get_key_int32 wit_ob (ascii ''node_id'') = Some 0"
  "opt_int wit_ob ''access_port'' = 80"
  "opt_str wit_ob ''access_ip'' = ''1.2.3.4''"
  "get_member wit_ob (ascii ''node'') = Some (of_jval int_fpu (Some (ascii ''node'')) wit_load)"
  "get_member wit_ob (ascii ''worker'') = Some (of_jval int_fpu (Some (ascii ''worker'')) (JArr []))"
  by code_simp+

definition wit_load_ob :: "int jobj" where
  "wit_load_ob = empty_jobj\<lparr>jdata := Some (of_jval int_fpu None wit_load)\<rparr>"

lemma wit_loads:
  "opt_int wit_load_ob ''load'' = 7" "opt_int wit_load_ob ''connect'' = 0" "opt_int wit_load_ob ''client'' = 0"
  "opt_int wit_load_ob ''recv_num'' = 0" "opt_int wit_load_ob ''recv_byte'' = 0" "opt_int wit_load_ob ''send_num'' = 0"
  "opt_int wit_load_ob ''send_byte'' = 0"
  "chars (ascii ''LOGIC'') = ''LOGIC''" "chars (ascii ''10.0.0.5'') = ''10.0.0.5''"
  "chars (Jobj_ToString int_fpu (empty_jobj\<lparr>jdata := Some (of_jval int_fpu None (JArr []))\<rparr>)) = ''[]''"
  "ascii ''LOGIC'' = [] \<longleftrightarrow> False" "ascii ''10.0.0.5'' = [] \<longleftrightarrow> False"
  by code_simp+

lemma wit_node_data: "node_data wit_env wit_ob wit_center = Some (wit_center\<lparr>ticks := 1\<rparr>, Some wit_info)"
proof -
  have "pareJsonData int_fpu (0, 0) 1000 wit_ob = Done (Some wit_info)"
    by (simp add: pareJsonData_def wit_members wit_loads Get_key_json_print [OF wit_members(8) wf_wit(2)]
      Get_key_json_print [OF wit_members(9) wf_wit(3)] wit_info_def flip: wit_load_ob_def del: of_jval.simps)
  then show ?thesis by (simp add: node_data_def wit_env_def wit_center_def)
qed

end
