(* ===== verification/Center_Register.thy ===== *)
theory Center_Register
  imports Center_Example
begin

text \<open>
  Runs of the center as sequences of messages, the registry invariant over every run, and what a
  registration does: when it is accepted, what is answered, and what is left alone when it is not.
\<close>

section \<open>Runs\<close>

datatype command = NodeReg | NodeReport | NodeDisconnect | GetLoadMinServer | ServerReport

fun handle :: "command \<Rightarrow> ('d, 'db) cmd_env \<Rightarrow> in_msg \<Rightarrow> 'db center \<Rightarrow> ('db center \<times> bool) option" where
  "handle NodeReg = CmdNodeReg_AnyMessage"
| "handle NodeReport = CmdNodeReport_AnyMessage"
| "handle NodeDisconnect = CmdNodeDisconnect_AnyMessage"
| "handle GetLoadMinServer = CmdGetLoadMinServer_AnyMessage"
| "handle ServerReport = CmdServerReport_AnyMessage"

text \<open>After \<open>n\<close> messages, in any order and with any database answers.\<close>

inductive served :: "'d fpu \<Rightarrow> 'db center \<Rightarrow> nat \<Rightarrow> 'db center \<Rightarrow> bool" for fp :: "'d fpu" and c0 :: "'db center" where
  served_start: "served fp c0 0 c0"
| served_message: "served fp c0 n c \<Longrightarrow> e_fp e = fp \<Longrightarrow> handle k e msg c = Some (c', ok) \<Longrightarrow> served fp c0 (Suc n) c'"

lemma handle_step: "handle k e msg c = Some (c', ok) \<Longrightarrow> registry_step (m_mapNodeInfo c) (m_mapNodeInfo c')"
  using postD [OF CmdNodeReg_step] postD [OF CmdNodeReport_step] postD [OF CmdNodeDisconnect_step]
    postD [OF CmdGetLoadMinServer_step] postD [OF CmdServerReport_step]
  by (cases k) fastforce+

lemma served_registry_ok:
  assumes "served fp c0 n c" "m_mapNodeInfo c0 = []" "n < 2 ^ 31"
  shows "registry_ok n (m_mapNodeInfo c)"
  using assms
proof (induction rule: served.induct)
  case served_start
  then show ?case by (simp add: registry_ok_def map_ok_def)
next
  case (served_message n c e k msg c' ok)
  then show ?case by (intro registry_step_ok [OF handle_step]) auto
qed

section \<open>Databases\<close>

definition db_ok :: "'db dbms \<Rightarrow> bool" where
  "db_ok dbms \<longleftrightarrow> (\<forall>d q. snd (dbms d q) \<noteq> None)"

lemma run_sql_ok: "db_ok dbms \<Longrightarrow> snd (run_sql dbms q c)"
  by (simp add: db_ok_def run_sql_def ExecSql_def split_beta Let_def)

lemma log_loop_ok: "db_ok dbms \<Longrightarrow> snd (log_loop dbms infos c)"
  by (induction infos arbitrary: c) (simp_all add: run_sql_ok split_beta Let_def)

lemma statistics_loop_ok:
  "db_ok dbms \<Longrightarrow> snd (snd (statistics_loop dbms ts c)) \<and>
   fst (statistics_loop dbms ts c) = map (\<lambda>e. (fst e, clearLoad (snd e))) ts"
proof (induction ts arbitrary: c)
  case (Cons e ts)
  then show ?case by (cases e) (simp add: run_sql_ok split_beta Let_def)
qed simp

lemma WriteNodeDataToDB_ok: "db_ok dbms \<Longrightarrow> snd (WriteNodeDataToDB dbms info report c)"
  by (simp add: WriteNodeDataToDB_def WriteNodeStatus_def ReplaceNodeStatusToDB_def NodeloadCheck_def WriteNodeLog_def
    InsertNodeLogToDB_def WriteNodeStatistics_def InsertNodeStatisticsToDB_def run_sql_ok log_loop_ok
    statistics_loop_ok split_beta Let_def)

text \<open>A row of the management table that lets a node in.\<close>

definition plain :: "nat \<Rightarrow> string \<Rightarrow> bool" where
  "plain n s \<longleftrightarrow> s \<noteq> [] \<and> length s < n - 1 \<and> CHR ''%'' \<notin> set s \<and> CHR 0x00 \<notin> set s"

definition row_admits :: "row \<Rightarrow> st_NodeInfo \<Rightarrow> bool" where
  "row_admits r info \<longleftrightarrow> map_find ''nodetype'' r = Some (node_type info) \<and> plain 32 (node_type info) \<and>
     map_find ''innerip'' r = Some (node_ip info) \<and> plain 64 (node_ip info) \<and>
     (\<exists>s. map_find ''outerip'' r = Some s \<and> (s = [] \<or> plain 64 s)) \<and> map_find ''canuse'' r = Some ''1''"

definition manage_query :: "st_NodeInfo \<Rightarrow> string" where
  "manage_query info = sql_text 128 (''SELECT * from  tb_node_manage WHERE nodetype = '' @ quoted (node_type info) @
     '' and innerip = '' @ quoted (node_ip info))"

definition db_admits :: "'db dbms \<Rightarrow> st_NodeInfo \<Rightarrow> bool" where
  "db_admits dbms info \<longleftrightarrow> (\<forall>d. \<exists>r rs. snd (dbms d (manage_query info)) = Some (r # rs) \<and> row_admits r info)"

lemma copy_column_plain: "plain n s \<Longrightarrow> copy_column n s old = Some s"
  by (auto simp: plain_def copy_column_def snprintf_def c_str_id)

lemma atoi_1: "atoi ''1'' = 1"
  by code_simp

lemma row_admits_load:
  assumes "row_admits r info"
  shows "\<exists>d'. loadFromMapRow r d = Some (d', True) \<and> verify d' info = Verify_OK"
proof -
  obtain s where s: "map_find ''outerip'' r = Some s" "s = [] \<or> plain 64 s"
    using assms by (auto simp: row_admits_def)
  then obtain oip where oip: "copy_column 64 s (db_outerip d) = Some oip"
    by (cases "s = []") (auto simp: copy_column_plain copy_column_def [of _ "[]"])
  let ?d = "\<lparr>loaded = True, canuse = 1, db_nodetype = node_type info, db_innerip = node_ip info, db_outerip = oip\<rparr>"
  have "loadFromMapRow r d = Some (?d, True)"
    using assms s(1) oip by (simp add: row_admits_def loadFromMapRow_def copy_column_plain atoi_1)
  moreover have "verify ?d info = Verify_OK" by (simp add: verify_def)
  ultimately show ?thesis by blast
qed

lemma GetServerData_admits:
  assumes "db_admits dbms info"
  shows "\<exists>c'. GetServerDataFromDB dbms (node_type info) (node_ip info) c = Some (c', True) \<and>
    verify (m_regNodeInfoDB c') info = Verify_OK \<and> nodes_view c' = nodes_view c \<and>
    m_centerNodeInfoDB c' = m_centerNodeInfoDB c"
proof -
  obtain r rs where r: "snd (dbms (db c) (manage_query info)) = Some (r # rs)" "row_admits r info"
    using assms unfolding db_admits_def by blast
  obtain d' where d: "loadFromMapRow r (m_regNodeInfoDB c) = Some (d', True)" "verify d' info = Verify_OK"
    using row_admits_load [OF r(2)] by blast
  let ?c = "fst (ExecSql dbms (manage_query info) c)\<lparr>m_regNodeInfoDB := d'\<rparr>"
  have "m_regNodeInfoDB (fst (ExecSql dbms q c)) = m_regNodeInfoDB c"
    "m_centerNodeInfoDB (fst (ExecSql dbms q c)) = m_centerNodeInfoDB c" for q
    by (simp_all add: ExecSql_def split_beta Let_def)
  moreover have "snd (ExecSql dbms (manage_query info) c) = Some (r # rs)"
    using r(1) by (simp add: ExecSql_def split_beta Let_def)
  ultimately have "GetServerDataFromDB dbms (node_type info) (node_ip info) c = Some (?c, True)"
    unfolding GetServerDataFromDB_def manage_query_def [symmetric] using d(1) by (simp add: split_beta Let_def)
  then show ?thesis using d(2) by (simp add: frame ExecSql_def split_beta Let_def nodes_view_def)
qed

lemma register_new_accepts:
  assumes "db_ok dbms" "db_admits dbms info"
    "loaded (m_centerNodeInfoDB c)" "map_find (getNodeKey info) (m_mapNodeInfo c) = None"
  shows "\<exists>c'. register_new dbms msg info c = Some (c', ERR_OK) \<and> m_mapNodeInfo c' =
    map_put (getNodeKey info) (info\<lparr>node_id := sint (max_node_id (m_mapNodeInfo c) + 1)\<rparr>) (m_mapNodeInfo c)"
proof -
  obtain c1 where c1: "GetServerDataFromDB dbms (node_type info) (node_ip info) c = Some (c1, True)"
      "verify (m_regNodeInfoDB c1) info = Verify_OK" "nodes_view c1 = nodes_view c"
      "m_centerNodeInfoDB c1 = m_centerNodeInfoDB c"
    using GetServerData_admits [OF assms(2)] by blast
  show ?thesis
    using c1(1,2,4) assms(3,4) nodes_viewD(1) [OF c1(3)]
    by (simp add: register_new_def split_beta Let_def WriteNodeDataToDB_ok [OF assms(1)] getNewNodeID_def
      net_viewD(1) [OF net_answer_registration] nodes_viewD(1) [OF view_WriteNodeDataToDB])
qed

section \<open>Registration\<close>

definition grows :: "'db center \<Rightarrow> 'db center \<Rightarrow> bool" where
  "grows c c' \<longleftrightarrow> (\<exists>rest. sent c' = sent c @ rest)"

lemma grows_trans: "grows c c' \<Longrightarrow> grows c' c'' \<Longrightarrow> grows c c''"
  by (auto simp: grows_def)

lemma sent_GetSequence [simp]: "sent (fst (GetSequence c)) = sent c"
  by (simp add: GetSequence_def Let_def)

lemma sent_ExecSql [simp]: "sent (fst (ExecSql dbms q c)) = sent c"
  by (simp add: ExecSql_def Let_def split_beta)

lemma grows_SendServerConfig: "grows c (SendServerConfig dbms msg c)"
  by (simp add: SendServerConfig_def loadServerConfig_def grows_def SendTo_def Let_def split_beta split: option.split)

lemma grows_SendNodeRegNotice: "grows c (SendNodeRegNotice c)"
  by (simp add: SendNodeRegNotice_def grows_def SendTo_def Let_def split_beta sent_notify_loop split: option.split)

definition reg_answer :: "in_msg \<Rightarrow> int \<Rightarrow> message" where
  "reg_answer msg nid = (Shell (sender msg), CMD_RSP_NODE_REGISTER, seq msg, Json (json_obj (reg_body ERR_OK nid)))"

lemma sent_answer_registration:
  "\<exists>rest. sent (answer_registration dbms msg c) = sent c @ reg_answer msg (node_id (m_regNodeInfoMsg c)) # rest"
proof -
  have "sent (ResponseNodeReg msg ERR_OK c) = sent c @ [reg_answer msg (node_id (m_regNodeInfoMsg c))]"
    by (simp add: ResponseNodeReg_def SendTo_def reg_answer_def)
  moreover have "grows (ResponseNodeReg msg ERR_OK c) (answer_registration dbms msg c)"
    unfolding answer_registration_def by (rule grows_trans [OF grows_SendServerConfig grows_SendNodeRegNotice])
  ultimately show ?thesis by (auto simp: grows_def)
qed

definition registered :: "in_msg \<Rightarrow> string \<Rightarrow> 'db center \<Rightarrow> 'db center \<Rightarrow> bool" where
  "registered msg k c c' \<longleftrightarrow> routes c' = routes c \<and>
     (\<exists>i rest. map_find k (m_mapNodeInfo c') = Some i \<and> getNodeKey i = k \<and>
        sent c' = sent c @ reg_answer msg (node_id i) # rest)"

definition rejected :: "'db center \<Rightarrow> 'db center \<Rightarrow> bool" where
  "rejected c c' \<longleftrightarrow> m_mapNodeInfo c' = m_mapNodeInfo c \<and> routes c' = routes c \<and> sent c' = sent c"

lemma registered_answer:
  assumes "map_find k (m_mapNodeInfo c1) = Some (m_regNodeInfoMsg c1)" "getNodeKey (m_regNodeInfoMsg c1) = k"
    "sent c1 = sent c" "routes c1 = routes c"
  shows "registered msg k c (answer_registration dbms msg c1)"
  using sent_answer_registration [of dbms msg c1] assms
  by (auto simp: registered_def net_viewD [OF net_answer_registration])

lemma rejected_view: "nodes_view c' = nodes_view c \<Longrightarrow> rejected c c'"
  by (simp add: rejected_def nodes_view_def)

abbreviation outcome :: "in_msg \<Rightarrow> string \<Rightarrow> 'db center \<Rightarrow> 'db center \<times> int \<Rightarrow> bool" where
  "outcome msg k c r \<equiv> if snd r = ERR_OK then registered msg k c (fst r) else rejected c (fst r)"

lemma view_new_node:
  assumes "getNewNodeID c = (c', nid)"
  shows "nodes_view c' = nodes_view c"
  using view_getNewNodeID [of c] assms by simp

lemma view_write:
  assumes "WriteNodeDataToDB dbms info report c = (c', ok)"
  shows "nodes_view c' = nodes_view c"
  using view_WriteNodeDataToDB [of dbms info report c] assms by simp

lemma err_codes [simp]: "ERR_SERVERINFO \<noteq> ERR_OK" "ERR_SERVERINFO_RECORD \<noteq> ERR_OK"
  by (simp_all add: ERR_SERVERINFO_def ERR_SERVERINFO_RECORD_def ERR_OK_def)

lemma rejected_write:
  "nodes_view c' = nodes_view (c1\<lparr>m_regNodeInfoMsg := i\<rparr>) \<Longrightarrow> nodes_view c1 = nodes_view c \<Longrightarrow> rejected c c'"
  by (simp add: rejected_def nodes_view_def)

lemma registered_new:
  assumes "nodes_view c2 = nodes_view (c1\<lparr>m_regNodeInfoMsg := info\<lparr>node_id := n\<rparr>\<rparr>)" "nodes_view c1 = nodes_view c"
    "map_ok (m_mapNodeInfo c)" "map_find (getNodeKey info) (m_mapNodeInfo c) = None"
  shows "registered msg (getNodeKey info) c
    (answer_registration dbms msg (AddNodeInfo (getNodeKey info) (info\<lparr>node_id := n\<rparr>) c2))"
proof -
  have "m_mapNodeInfo c2 = m_mapNodeInfo c" "sent c2 = sent c" "routes c2 = routes c"
      "m_regNodeInfoMsg c2 = info\<lparr>node_id := n\<rparr>"
    using assms by (simp_all add: nodes_view_def)
  then show ?thesis
    by (intro registered_answer) (use assms in \<open>auto simp: AddNodeInfo_def map_insert_def stdmap.find_put\<close>)
qed

lemma register_new_outcome:
  assumes "map_ok (m_mapNodeInfo c)" "map_find (getNodeKey info) (m_mapNodeInfo c) = None"
  shows "post (outcome msg (getNodeKey info) c) (register_new dbms msg info c)"
  unfolding register_new_def Let_def
  by (intro branches)
    (use assms in \<open>auto dest!: view_GetServerDataFromDB view_GetCenterDataFromDB view_new_node view_write
      intro: rejected_view rejected_write registered_new split: if_splits\<close>)

lemma same_start [simp]:
  "registered msg k (c\<lparr>m_regMsgShell := sh, m_regNodeInfoMsg := i\<rparr>) = registered msg k c"
  "rejected (c\<lparr>m_regMsgShell := sh, m_regNodeInfoMsg := i\<rparr>) = rejected c"
  by (intro ext, simp add: registered_def rejected_def)+

lemma regNode_outcome:
  assumes "map_ok (m_mapNodeInfo c)" "\<And>i. map_find (getNodeKey info) (m_mapNodeInfo c) = Some i \<Longrightarrow> getNodeKey i = getNodeKey info"
  shows "post (outcome msg (getNodeKey info) c) (regNode dbms msg info c)"
proof -
  let ?c = "c\<lparr>m_regMsgShell := sender msg, m_regNodeInfoMsg := info\<rparr>"
  have new: "post (outcome msg (getNodeKey info) c) (register_new dbms msg info ?c)"
    if "map_find (getNodeKey info) (m_mapNodeInfo c) = None"
  proof -
    have "post (outcome msg (getNodeKey info) ?c) (register_new dbms msg info ?c)"
      by (rule register_new_outcome) (use that assms(1) in simp_all)
    then show ?thesis by (simp only: same_start)
  qed
  have old: "registered msg (getNodeKey info) c (answer_registration dbms msg
      (?c\<lparr>m_mapNodeInfo := map_put (getNodeKey info) (fst (update i info)) (m_mapNodeInfo c),
        m_regNodeInfoMsg := fst (update i info)\<rparr>))"
    if "map_find (getNodeKey info) (m_mapNodeInfo c) = Some i" for i
    by (rule registered_answer)
      (use assms(1) assms(2) [OF that] identityD(3) [OF identity_update] in \<open>simp_all add: stdmap.find_put\<close>)
  show ?thesis
    unfolding regNode_def Let_def GetNodeInfo_def
    by (intro branches new) (use old in \<open>auto simp: post_def\<close>)
qed

lemma ErrorAnswer:
  assumes "Response msg ret ms c1 = (c', ok)" "rejected c c1" "ret \<noteq> 0"
  shows "\<not> ok \<and> m_mapNodeInfo c' = m_mapNodeInfo c \<and> routes c' = routes c \<and>
    sent c' = sent c @ [(Shell (sender msg), cmd msg + 1, seq msg, Json (json_obj ms))]"
  using assms by (auto simp: Response_def SendTo_def rejected_def)

lemma rejected_start: "start_view c' = start_view c \<Longrightarrow> rejected c c'"
  by (simp add: rejected_def start_view_def)

lemma rejected_trans: "rejected c c1 \<Longrightarrow> rejected c1 c' \<Longrightarrow> rejected c c'"
  by (simp add: rejected_def)

lemma registered_trans: "rejected c c1 \<Longrightarrow> registered msg k c1 c' \<Longrightarrow> registered msg k c c'"
  by (simp add: rejected_def registered_def)

definition keys_ok :: "registry \<Rightarrow> bool" where
  "keys_ok m \<longleftrightarrow> map_ok m \<and> (\<forall>k i. map_find k m = Some i \<longrightarrow> getNodeKey i = k)"

lemma registry_keys_ok: "registry_ok n m \<Longrightarrow> keys_ok m"
  using registry_okD [of n m] by (auto simp: keys_ok_def entry_ok_def)

lemmas regNode_result = postD [OF regNode_outcome]

lemma keys_ok_start:
  assumes "keys_ok (m_mapNodeInfo c)" "start_view c' = start_view c"
  shows "map_ok (m_mapNodeInfo c')" "map_find k (m_mapNodeInfo c') = Some i \<Longrightarrow> getNodeKey i = k"
  using assms(1) start_viewD(1) [OF assms(2)] by (auto simp: keys_ok_def)

definition register_spec :: "in_msg \<Rightarrow> 'db center \<Rightarrow> 'db center \<times> bool \<Rightarrow> bool" where
  "register_spec msg c r \<longleftrightarrow>
     (if snd r then \<exists>k c1. registered msg k c c1 \<and> fst r = c1\<lparr>routes := routes c @ [(k, sender msg)]\<rparr>
      else m_mapNodeInfo (fst r) = m_mapNodeInfo c \<and> routes (fst r) = routes c \<and>
        (\<exists>ret. ret \<noteq> 0 \<and> sent (fst r) =
           sent c @ [(Shell (sender msg), cmd msg + 1, seq msg, Json (json_obj (reg_body ret 0)))]))"

lemma register_spec_error: "rejected c c1 \<Longrightarrow> ret \<noteq> 0 \<Longrightarrow> register_spec msg c (Response msg ret (reg_body ret 0) c1)"
  by (auto simp: register_spec_def Response_def SendTo_def rejected_def)

lemma register_spec_ok:
  "registered msg k c c2 \<Longrightarrow> register_spec msg c (c2\<lparr>routes := routes c2 @ [(k, sender msg)]\<rparr>, True)"
  by (auto simp: register_spec_def registered_def rejected_def)

lemma err_nonzero: "ERR_UNKNOWN_CMD \<noteq> 0" "ERR_SESSION \<noteq> 0" "ERR_BODY_JSON \<noteq> 0" "ERR_SERVERINFO \<noteq> 0"
  "ERR_SERVERINFO_RECORD \<noteq> 0" "ERR_REQ_MISS_PARAM \<noteq> 0"
  by (simp_all add: ERR_UNKNOWN_CMD_def ERR_SESSION_def ERR_BODY_JSON_def ERR_SERVERINFO_def
    ERR_SERVERINFO_RECORD_def ERR_REQ_MISS_PARAM_def)

lemma rejected_refl: "rejected c c"
  by (simp add: rejected_def)

lemma CmdNodeReg_outcome:
  assumes "keys_ok (m_mapNodeInfo c)"
  shows "post (register_spec msg c) (CmdNodeReg_AnyMessage e msg c)"
proof -
  have reg: "outcome msg (getNodeKey info) c (c3, ret)"
    if "regNode dbms msg info c2 = Some (c3, ret)" "start_view c1 = start_view c" "start_view c2 = start_view c1"
    for dbms info c1 c2 c3 ret
  proof -
    have "start_view c2 = start_view c" using that by simp
    from regNode_result [OF keys_ok_start(1) [OF assms this] keys_ok_start(2) [OF assms this] that(1)]
      rejected_start [OF this]
    show ?thesis by (auto intro: rejected_trans registered_trans split: if_splits)
  qed
  show ?thesis
    unfolding CmdNodeReg_AnyMessage_def Let_def
    by (intro branches)
      (auto dest!: view_session_of node_data_view reg intro!: register_spec_error register_spec_ok rejected_refl
        simp: err_nonzero ERR_OK_def rejected_start rejected_trans split: if_splits)
qed

section \<open>Properties\<close>

text \<open>The request of the example is accepted by its center.\<close>

lemma wit_admits: "db_ok (e_dbms wit_env)" "db_admits (e_dbms wit_env) wit_info"
proof -
  have "row_admits wit_row wit_info"
    by (simp add: row_admits_def plain_def wit_row_def wit_info_def)
  then show "db_ok (e_dbms wit_env)" "db_admits (e_dbms wit_env) wit_info"
    by (simp_all add: db_ok_def db_admits_def wit_env_def)
qed

lemma wit_start: "boInit wit_center" "e_cmd wit_env = cmd wit_msg" "m_mapNodeInfo wit_center = []"
  "checkNodeType (nodeTypesVec wit_center) (node_type wit_info)" "loaded (m_centerNodeInfoDB wit_center)"
  "registry_ok 0 (m_mapNodeInfo wit_center)" "e_fp wit_env = int_fpu"
  by (simp_all add: wit_center_def wit_env_def wit_msg_def wit_info_def wit_type_def registry_ok_def map_ok_def)

lemma wit_key: "getNodeKey wit_info = ''10.0.0.5:9001''" "key_fits wit_info"
proof -
  show k: "getNodeKey wit_info = ''10.0.0.5:9001''"
    by (simp add: getNodeKey_def wit_info_def fmt_d_def dec.simps digit_char_def) code_simp
  show "key_fits wit_info" by (simp add: key_fits_def k)
qed

lemma wit_accepted:
  "\<exists>c. CmdNodeReg_AnyMessage wit_env wit_msg wit_center = Some (c, True) \<and>
    m_mapNodeInfo c = [(''10.0.0.5:9001'', wit_info\<lparr>node_id := 1\<rparr>)]"
proof -
  have "\<exists>c'. register_new (e_dbms wit_env) wit_msg wit_info
      (wit_center\<lparr>ticks := 1, m_regMsgShell := sender wit_msg, m_regNodeInfoMsg := wit_info\<rparr>) = Some (c', ERR_OK) \<and>
      m_mapNodeInfo c' = [(''10.0.0.5:9001'', wit_info\<lparr>node_id := 1\<rparr>)]"
    using register_new_accepts [OF wit_admits,
        of "wit_center\<lparr>ticks := 1, m_regMsgShell := sender wit_msg, m_regNodeInfoMsg := wit_info\<rparr>" wit_msg]
    by (simp add: wit_start wit_key max_node_id_def)
  then show ?thesis
    by (auto simp: CmdNodeReg_AnyMessage_def session_started wit_start wit_parse wit_node_data wit_key regNode_def
      GetNodeInfo_def ERR_OK_def)
qed

text \<open>C22: The registry invariant. After any sequence of registrations, reports, disconnections, load
  queries and server reports, with any bodies and any answers of the database, the map of nodes is in
  strict key order, every node is stored under its own key \<open>ip:port\<close>, which fitted the buffer of 100
  bytes, and the node numbers are distinct, positive and at most the number of messages served.\<close>

theorem center_registry_invariant:
  assumes "served fp c0 n c" "m_mapNodeInfo c0 = []" "n < 2 ^ 31"
  shows "map_ok (m_mapNodeInfo c) \<and>
    (\<forall>(k, i) \<in> set (m_mapNodeInfo c). k = getNodeKey i \<and> key_fits i \<and> 0 < node_id i \<and> node_id i \<le> int n) \<and>
    distinct (map (\<lambda>(k, i). node_id i) (m_mapNodeInfo c))"
proof -
  note ok = served_registry_ok [OF assms]
  have "distinct (m_mapNodeInfo c)"
    using map_ok_distinct [OF registry_okD(1) [OF ok]] by (simp add: distinct_map)
  moreover have "(\<lambda>(k, i). node_id i) = (\<lambda>e :: string \<times> st_NodeInfo. node_id (snd e))" by auto
  ultimately show ?thesis using ok by (auto simp: registry_ok_def entry_ok_def distinct_map)
qed

theorem center_registry_invariant_witness:
  "\<exists>c. served int_fpu wit_center 1 c \<and> m_mapNodeInfo c = [(''10.0.0.5:9001'', wit_info\<lparr>node_id := 1\<rparr>)] \<and>
    distinct (map (\<lambda>(k, i). node_id i) (m_mapNodeInfo c))"
proof -
  obtain c where c: "CmdNodeReg_AnyMessage wit_env wit_msg wit_center = Some (c, True)"
      "m_mapNodeInfo c = [(''10.0.0.5:9001'', wit_info\<lparr>node_id := 1\<rparr>)]"
    using wit_accepted by blast
  have s: "served int_fpu wit_center 1 c"
    using served_message [OF served_start wit_start(7), of NodeReg wit_msg wit_center c True] c(1) by simp
  then show ?thesis using center_registry_invariant [OF s wit_start(3)] c(2) by auto
qed

text \<open>C36: No command changes who a registered node is: while a key stays registered, its number, type,
  address and access address are the ones it was enrolled with, whatever a later registration or report
  says, and one command touches the entry of one key at most.\<close>

theorem center_identity_stable:
  assumes "handle k e msg c = Some (c', ok)" "map_ok (m_mapNodeInfo c)"
  shows "(\<exists>key. \<forall>k'. k' \<noteq> key \<longrightarrow> map_find k' (m_mapNodeInfo c') = map_find k' (m_mapNodeInfo c)) \<and>
    (\<forall>key i i'. map_find key (m_mapNodeInfo c) = Some i \<and> map_find key (m_mapNodeInfo c') = Some i' \<longrightarrow>
      (node_id i', node_type i', node_port i', node_ip i', node_access_port i', node_access_ip i') =
      (node_id i, node_type i, node_port i, node_ip i, node_access_port i, node_access_ip i))"
  using registry_step_other [OF handle_step [OF assms(1)] assms(2)]
    registry_step_identity [OF handle_step [OF assms(1)] assms(2)]
  by (auto simp: identity_def)

theorem center_identity_stable_witness:
  "\<exists>c. handle NodeReg wit_env wit_msg wit_center = Some (c, True) \<and> m_mapNodeInfo c \<noteq> [] \<and>
    (\<exists>key. \<forall>k'. k' \<noteq> key \<longrightarrow> map_find k' (m_mapNodeInfo c) = map_find k' (m_mapNodeInfo wit_center))"
proof -
  obtain c where c: "handle NodeReg wit_env wit_msg wit_center = Some (c, True)" "m_mapNodeInfo c \<noteq> []"
    using wit_accepted by auto
  then show ?thesis using center_identity_stable [OF c(1)] by (auto simp: wit_start map_ok_def)
qed

text \<open>C26: What a registration command leaves behind. If it succeeds, some node is registered under its key
  and the answer, the first message sent, carries error code 0 and the number that is stored, and the
  connection is entered under that key. If it fails, at whatever point, the registry and the routes
  are as before and one answer with a non-zero code and node number 0 has been sent.\<close>

theorem center_registration_outcome:
  assumes "CmdNodeReg_AnyMessage e msg c = Some (c', ok)" "map_ok (m_mapNodeInfo c)"
    "\<forall>(k, i) \<in> set (m_mapNodeInfo c). getNodeKey i = k"
  shows "if ok then \<exists>k i rest. map_find k (m_mapNodeInfo c') = Some i \<and> getNodeKey i = k \<and>
      routes c' = routes c @ [(k, sender msg)] \<and>
      sent c' = sent c @ (Shell (sender msg), CMD_RSP_NODE_REGISTER, seq msg,
        Json (json_obj [(''errcode'', JInt 0), (''node_id'', JInt (node_id i))])) # rest
    else m_mapNodeInfo c' = m_mapNodeInfo c \<and> routes c' = routes c \<and>
      (\<exists>ret. ret \<noteq> 0 \<and> sent c' = sent c @ [(Shell (sender msg), cmd msg + 1, seq msg,
        Json (json_obj [(''errcode'', JInt ret), (''node_id'', JInt 0)]))])"
proof -
  have "keys_ok (m_mapNodeInfo c)"
    using assms(2,3) by (auto simp: keys_ok_def stdmap.entries_find [symmetric])
  from postD [OF CmdNodeReg_outcome [OF this] assms(1)] show ?thesis
    by (cases ok) (fastforce simp: register_spec_def registered_def reg_answer_def reg_body_def ERR_OK_def)+
qed

theorem center_registration_outcome_witness:
  "\<exists>c k i rest. CmdNodeReg_AnyMessage wit_env wit_msg wit_center = Some (c, True) \<and>
    map_find k (m_mapNodeInfo c) = Some i \<and> routes c = routes wit_center @ [(k, sender wit_msg)] \<and>
    sent c = sent wit_center @ (Shell (sender wit_msg), CMD_RSP_NODE_REGISTER, seq wit_msg,
      Json (json_obj [(''errcode'', JInt 0), (''node_id'', JInt (node_id i))])) # rest"
proof -
  obtain c where c: "CmdNodeReg_AnyMessage wit_env wit_msg wit_center = Some (c, True)" using wit_accepted by blast
  from center_registration_outcome [OF c] show ?thesis using c by (simp add: wit_start map_ok_def) blast
qed



end
