(* ===== verification/Center_Report.thy ===== *)
theory Center_Report
  imports Center_Register
begin

text \<open>
  Reports and their statistics, disconnection with the notices to the other nodes, and the choice of
  the least loaded node.
\<close>

section \<open>The statistics part of the session\<close>

definition stat_view :: "'db center \<Rightarrow> (string, st_NodeStaisticsInfo) stdmap \<times> u64 \<times> int \<times> u64" where
  "stat_view c = (m_mapNodeStatisticsInfo c, m_nodeloadstatistics_lasttime c, m_nodeloadstatistics_timeinterval c,
     m_currenttime c)"

lemma stat_view_simps [simp]:
  "stat_view (c\<lparr>db := d\<rparr>) = stat_view c" "stat_view (c\<lparr>sqls := q\<rparr>) = stat_view c"
  "stat_view (c\<lparr>m_nodestatuscheck_lasttime := t\<rparr>) = stat_view c"
  "stat_view (c\<lparr>m_nodeloadlog_lasttime := t\<rparr>) = stat_view c"
  "stat_view (c\<lparr>m_nodeloadcheck_lasttime := t\<rparr>) = stat_view c"
  by (simp_all add: stat_view_def)

lemma stat_run_sql [frame]: "stat_view (fst (run_sql dbms q c)) = stat_view c"
  by (simp add: run_sql_def ExecSql_def split_beta Let_def)

lemma stat_WriteNodeStatus [frame]: "stat_view (fst (WriteNodeStatus dbms info c)) = stat_view c"
  by (simp add: WriteNodeStatus_def ReplaceNodeStatusToDB_def CheckNodeStatus_def CheckOfflineNodeStatusToDB_def
    ClearOverdueOfflineNodeStatusToDB_def split_beta Let_def frame)

lemma stat_NodeloadCheck [frame]: "stat_view (fst (NodeloadCheck dbms c)) = stat_view c"
  by (simp add: NodeloadCheck_def ClearOverdueOfflineNodeLogToDB_def ClearOverdueOfflineNodeStatisticsToDB_def
      split_beta Let_def frame)

lemma stat_log_loop [frame]: "stat_view (fst (log_loop dbms infos c)) = stat_view c"
  by (induction infos arbitrary: c) (simp_all add: split_beta Let_def frame)

lemma stat_WriteNodeLog [frame]: "stat_view (fst (WriteNodeLog dbms c)) = stat_view c"
  by (simp add: WriteNodeLog_def InsertNodeLogToDB_def frame)

lemma stat_viewD:
  assumes "stat_view c' = stat_view c"
  shows "m_mapNodeStatisticsInfo c' = m_mapNodeStatisticsInfo c"
    "m_nodeloadstatistics_lasttime c' = m_nodeloadstatistics_lasttime c"
    "m_nodeloadstatistics_timeinterval c' = m_nodeloadstatistics_timeinterval c" "m_currenttime c' = m_currenttime c"
  using assms by (simp_all add: stat_view_def)

lemma steps_WriteNodeDataToDB:
  assumes "db_ok dbms"
  shows "\<exists>c1. stat_view c1 = stat_view (setCurrentTime c) \<and>
    WriteNodeDataToDB dbms info True c = WriteNodeStatistics dbms info c1"
proof -
  have ok: "snd (WriteNodeStatus dbms info c)" "snd (NodeloadCheck dbms c)" "snd (WriteNodeLog dbms c)" for c
    by (simp_all add: WriteNodeStatus_def ReplaceNodeStatusToDB_def NodeloadCheck_def WriteNodeLog_def
      InsertNodeLogToDB_def run_sql_ok log_loop_ok assms split_beta Let_def)
  show ?thesis
    by (intro exI [of _ "fst (WriteNodeLog dbms (fst (NodeloadCheck dbms (fst (WriteNodeStatus dbms info (setCurrentTime c))))))"])
      (simp add: WriteNodeDataToDB_def ok split_beta Let_def frame)
qed

lemma map_find_map: "map_find k (map (\<lambda>e. (fst e, f (snd e))) m) = map_option f (map_find k m)"
  by (induction m) auto

definition stat_due :: "u64 \<Rightarrow> 'db center \<Rightarrow> bool" where
  "stat_due now c \<longleftrightarrow> after now (m_nodeloadstatistics_lasttime c) (m_nodeloadstatistics_timeinterval c)"

lemma statistics_after_report:
  assumes "db_ok dbms"
  shows "m_mapNodeStatisticsInfo (fst (WriteNodeDataToDB dbms info True c)) =
    (let m = collect_statistics info (m_mapNodeStatisticsInfo c)
     in if stat_due (clock c (ticks c)) c then map (\<lambda>e. (fst e, clearLoad (snd e))) m else m)"
proof -
  obtain c1 where c1: "stat_view c1 = stat_view (setCurrentTime c)"
      "WriteNodeDataToDB dbms info True c = WriteNodeStatistics dbms info c1"
    using steps_WriteNodeDataToDB [OF assms] by blast
  have "m_currenttime c1 = clock c (ticks c)" using stat_viewD(4) [OF c1(1)] by (simp add: setCurrentTime_def)
  then show ?thesis
    using stat_viewD(1-3) [OF c1(1)]
    by (simp add: c1(2) WriteNodeStatistics_def InsertNodeStatisticsToDB_def statistics_loop_ok [OF assms] stat_due_def
      setCurrentTime_def split_beta Let_def)
qed

lemma collect_find:
  assumes "map_ok m"
  shows "map_find k (collect_statistics info m) =
    (if k = getNodeKey info then Some (case map_find k m of None \<Rightarrow> statistics_of info | Some t \<Rightarrow> add_statistics t info)
     else map_find k m)"
  using assms by (auto simp: collect_statistics_def stdmap.find_put split: option.split)

lemma collect_ok: "map_ok m \<Longrightarrow> map_ok (collect_statistics info m)"
  by (simp add: collect_statistics_def map_put_ok split: option.split)

lemma fold_collect_ok: "map_ok m \<Longrightarrow> map_ok (fold collect_statistics infos m)"
  by (induction infos arbitrary: m) (simp_all add: collect_ok)

lemma wrap32_id: "in32 i \<Longrightarrow> wrap32 i = i"
  by (simp add: wrap32_def sint_in32)

lemma wrap32_add: "wrap32 (wrap32 a + b) = wrap32 (a + b)"
  by (simp add: wrap32_def)

lemma collected_key:
  assumes "map_ok m" "\<And>t. map_find (getNodeKey i) m = Some t \<Longrightarrow> t_node_ip t = node_ip i \<and> t_node_port t = node_port i"
    "\<forall>j \<in> set infos. getNodeKey j = getNodeKey i"
    "map_find (getNodeKey i) (fold collect_statistics infos m) = Some t"
  shows "t_node_ip t = node_ip i \<and> t_node_port t = node_port i"
  using assms
proof (induction infos arbitrary: m)
  case (Cons j infos)
  have "node_ip j = node_ip i \<and> node_port j = node_port i" using Cons.prems(3) by (simp add: getNodeKey_inj)
  then show ?case
    using Cons.prems by (intro Cons.IH [of "collect_statistics j m"])
      (auto simp: collect_ok collect_find statistics_of_def add_statistics_def split: option.splits if_splits)
qed auto

section \<open>Notices\<close>

lemma sqls_notify_loop: "sqls (notify_loop types ty sq j es c) = sqls c"
proof -
  have "sqls ((SendTo d cm sq b ^^ n) c) = sqls c" for d cm sq b n and c :: "'a center"
    by (induction n) (simp_all add: SendTo_def)
  then show ?thesis by (induction types ty sq j es c rule: notify_loop.induct) simp_all
qed

lemma notices_count:
  assumes "map_ok m" "\<And>k i. map_find k m = Some i \<Longrightarrow> getNodeKey i = k"
  shows "length (filter (\<lambda>x. fst x = Node k) (notices types ty sq j m)) =
    (case map_find k m of None \<Rightarrow> 0 | Some i \<Rightarrow> needing types ty i)"
proof -
  have "\<forall>e \<in> set m. getNodeKey (snd e) = fst e"
    using assms by (auto simp: stdmap.entries_find)
  moreover have "distinct (map fst m)" by (rule map_ok_distinct [OF assms(1)])
  ultimately show ?thesis
  proof (induction m)
    case (Cons e m)
    obtain k' i where e: "e = (k', i)" by (cases e)
    have "map_find k' m = None" using Cons.prems(2) map_find_entries [of m k'] by (cases "map_find k' m") (force simp: e)+
    with Cons show ?case by (auto simp: e notices_def)
  qed (simp add: notices_def)
qed

lemma minimal_min_load:
  "min_load s ss \<in> set (s # ss) \<and> (\<forall>x \<in> set (s # ss). serverload (min_load s ss) \<le> serverload x)"
proof (induction s ss rule: min_load.induct)
  case (2 best s ss)
  let ?b = "if serverload best > serverload s then s else best"
  have "serverload ?b \<le> serverload best" "serverload ?b \<le> serverload s" "?b \<in> {best, s}" by auto
  with 2 show ?case by (auto intro: order_trans)
qed simp

lemma in_status_list:
  assumes "map_ok (m_mapNodeInfo c)"
  shows "x \<in> set (fst (GetNodeStatusByNodeType ty c)) \<longleftrightarrow>
    (\<exists>k i. map_find k (m_mapNodeInfo c) = Some i \<and> node_type i = ty \<and> x = status_of i)"
  by (force simp: GetNodeStatusByNodeType_def Let_def stdmap.entries_find [OF assms, symmetric])

lemma uint_u16: "uint (of_int i :: u16) = i mod 65536"
  by (simp add: uint_word_of_int)

section \<open>Properties\<close>

text \<open>The example with the node registered as number 4.\<close>

definition wit_old :: st_NodeInfo where
  "wit_old = wit_info\<lparr>node_id := 4, load := 99\<rparr>"

definition wit_center2 :: "nat center" where
  "wit_center2 = wit_center\<lparr>m_mapNodeInfo := [(''10.0.0.5:9001'', wit_old)]\<rparr>"

lemma wit_old_key: "getNodeKey wit_old = ''10.0.0.5:9001''"
  using wit_key(1) by (simp add: wit_old_def getNodeKey_def)

lemma wit_start2: "boInit wit_center2" "checkNodeType (nodeTypesVec wit_center2) (node_type wit_info)"
  "map_find ''10.0.0.5:9001'' (m_mapNodeInfo wit_center2) = Some wit_old" "map_ok (m_mapNodeInfo wit_center2)"
  "map_ok (m_mapNodeStatisticsInfo wit_center2)" "checkNodeType (nodeTypesVec wit_center2) ''LOGIC''"
  by (simp_all add: wit_center2_def wit_center_def wit_info_def wit_type_def map_ok_def)

lemma wit_node_data2: "node_data wit_env wit_ob wit_center2 = Some (wit_center2\<lparr>ticks := 1\<rparr>, Some wit_info)"
proof -
  have "clock wit_center2 = clock wit_center" "ticks wit_center2 = ticks wit_center"
    by (simp_all add: wit_center2_def)
  with wit_node_data show ?thesis
    by (auto simp: node_data_def bind_eq_Some_conv wit_center2_def wit_center_def)
qed

text \<open>C29: A report of a registered node, on a working database, is answered with error code 0 and nothing
  else; the stored entry keeps its identity and takes the reported load, counters and time; the other
  entries are untouched; and the statistics of the node grow by the report, or start with it, and are
  reset after a flush exactly when the flush interval has passed.\<close>

theorem center_report_recorded:
  assumes "boInit c" "e_cmd e = cmd msg" "parse_body e msg = Some (ob, True)"
    "node_data e ob c = Some (c1, Some info)" "checkNodeType (nodeTypesVec c) (node_type info)" "key_fits info"
    "map_find (getNodeKey info) (m_mapNodeInfo c) = Some old" "getNodeKey old = getNodeKey info"
    "map_ok (m_mapNodeInfo c)" "map_ok (m_mapNodeStatisticsInfo c)" "db_ok (e_dbms e)"
  shows "\<exists>c'. CmdNodeReport_AnyMessage e msg c = Some (c', True) \<and>
    sent c' = sent c @ [(Shell (sender msg), cmd msg + 1, seq msg, Json (json_obj [(''errcode'', JInt 0)]))] \<and>
    (\<forall>k. map_find k (m_mapNodeInfo c') = (if k = getNodeKey info
      then Some (info\<lparr>node_id := node_id old, node_type := node_type old, node_access_port := node_access_port old,
        node_access_ip := node_access_ip old\<rparr>) else map_find k (m_mapNodeInfo c))) \<and>
    (let t = (case map_find (getNodeKey info) (m_mapNodeStatisticsInfo c) of
                None \<Rightarrow> statistics_of (info\<lparr>node_id := node_id old\<rparr>) | Some t \<Rightarrow> add_statistics t info)
     in map_find (getNodeKey info) (m_mapNodeStatisticsInfo c') =
       Some (if stat_due (clock c (Suc (ticks c))) c then clearLoad t else t))"
proof -
  let ?info = "info\<lparr>node_id := node_id old\<rparr>"
  have c1: "c1 = c\<lparr>ticks := Suc (ticks c)\<rparr>"
    using assms(4) by (auto simp: node_data_def bind_eq_Some_conv)
  let ?c2 = "c1\<lparr>m_mapNodeInfo := map_put (getNodeKey info) (fst (update old info)) (m_mapNodeInfo c)\<rparr>"
  let ?c3 = "fst (WriteNodeDataToDB (e_dbms e) ?info True ?c2)"
  have u: "update old ?info = (fst (update old info), True)"
    by (rule prod_eqI) (simp_all add: update_ok [OF assms(8)])
  have run: "CmdNodeReport_AnyMessage e msg c = Some (Response msg ERR_OK (err_body ERR_OK) ?c3)"
    using assms(1-7) WriteNodeDataToDB_ok [OF assms(11)]
    by (simp add: CmdNodeReport_AnyMessage_def session_started c1 GetNodeInfo_def u split_beta Let_def)
  note v = nodes_viewD [OF view_WriteNodeDataToDB [of "e_dbms e" ?info True ?c2]]
  have upd: "fst (update old info) = info\<lparr>node_id := node_id old, node_type := node_type old,
      node_access_port := node_access_port old, node_access_ip := node_access_ip old\<rparr>"
    using assms(8) by (simp add: update_def getNodeKey_inj)
  have m: "\<forall>k. map_find k (m_mapNodeInfo ?c3) =
      (if k = getNodeKey info then Some (fst (update old info)) else map_find k (m_mapNodeInfo c))"
    using v(1) assms(9) by (simp add: stdmap.find_put)
  have "add_statistics t ?info = add_statistics t info" for t by (simp add: add_statistics_def)
  then have st: "let t = (case map_find (getNodeKey info) (m_mapNodeStatisticsInfo c) of
        None \<Rightarrow> statistics_of ?info | Some t \<Rightarrow> add_statistics t info)
     in map_find (getNodeKey info) (m_mapNodeStatisticsInfo ?c3) =
       Some (if stat_due (clock c (Suc (ticks c))) c then clearLoad t else t)"
    using statistics_after_report [OF assms(11), of ?info ?c2] assms(10)
    by (simp add: Let_def collect_find map_find_map c1 stat_due_def split: option.split)
  show ?thesis
    using m st v(3) by (simp add: run Response_def SendTo_def err_body_def ERR_OK_def upd c1)
qed

theorem center_report_recorded_witness:
  "\<exists>c i. CmdNodeReport_AnyMessage wit_env wit_msg wit_center2 = Some (c, True) \<and>
    map_find ''10.0.0.5:9001'' (m_mapNodeInfo c) = Some i \<and> node_id i = 4 \<and> load i = 7"
  using center_report_recorded [OF wit_start2(1) wit_start(2) wit_parse wit_node_data2 wit_start2(2) wit_key(2), of wit_old]
    wit_start2(3-5) wit_admits(1)
  by (auto simp: wit_key wit_old_key) (simp_all add: wit_old_def wit_info_def)

text \<open>A disconnection removes exactly the named node and marks its row offline by its number. If the
  database accepts this, each remaining node gets as many notices as its type lists the type of the node
  that left, in particular none if the type is not listed; if the database fails, the node is gone and
  nobody is told. An unknown name changes nothing.\<close>

theorem center_disconnect:
  assumes "boInit c" "map_ok (m_mapNodeInfo c)" "\<forall>k i. map_find k (m_mapNodeInfo c) = Some i \<longrightarrow> getNodeKey i = k"
  shows "\<exists>c'. CmdNodeDisconnect_AnyMessage e msg c = Some (c', True) \<and>
    (case map_find (chars (in_body msg)) (m_mapNodeInfo c) of
       None \<Rightarrow> c' = c
     | Some gone \<Rightarrow>
         let q = sql_text 128 (''update tb_nodeload_status set serverstatus='' @ fmt_d eNodeStatus_Offline @
               '' WHERE nodeid='' @ fmt_d (node_id gone))
         in (\<forall>k. map_find k (m_mapNodeInfo c') = (if k = chars (in_body msg) then None else map_find k (m_mapNodeInfo c))) \<and>
            sqls c' = sqls c @ [q] \<and>
            (\<exists>new. sent c' = sent c @ new \<and>
              (if snd (e_dbms e (db c) q) = None then new = []
               else \<forall>k. length (filter (\<lambda>m. fst m = Node k) new) =
                 (case map_find k (m_mapNodeInfo c') of None \<Rightarrow> 0
                  | Some i \<Rightarrow> needing (nodeTypesVec c) (node_type gone) i))))"
proof (cases "map_find (chars (in_body msg)) (m_mapNodeInfo c)")
  case None
  then show ?thesis
    by (simp add: CmdNodeDisconnect_AnyMessage_def DelNode_def session_started assms(1) GetNodeInfo_def)
next
  case (Some gone)
  let ?k = "chars (in_body msg)"
  let ?q = "sql_text 128 (''update tb_nodeload_status set serverstatus='' @ fmt_d eNodeStatus_Offline @
    '' WHERE nodeid='' @ fmt_d (node_id gone))"
  let ?c1 = "c\<lparr>m_mapNodeInfo := map_erase ?k (m_mapNodeInfo c)\<rparr>"
  let ?r = "SetNodeDataOfflineToDBByNodeId (e_dbms e) (node_id gone) ?c1"
  have r: "snd ?r \<longleftrightarrow> snd (e_dbms e (db c) ?q) \<noteq> None" "sqls (fst ?r) = sqls c @ [?q]"
    by (simp_all add: SetNodeDataOfflineToDBByNodeId_def run_sql_def ExecSql_def setCurrentTime_def split_beta Let_def
      del: append.simps)
  note v = nodes_viewD [OF view_offline [of "e_dbms e" "node_id gone" ?c1]]
  have m: "map_find k (map_erase ?k (m_mapNodeInfo c)) = (if k = ?k then None else map_find k (m_mapNodeInfo c))" for k
    by (rule stdmap.find_erase)
  have run: "CmdNodeDisconnect_AnyMessage e msg c =
      Some (if snd ?r then SendDisConnectToOthers msg gone (fst ?r) else fst ?r, True)"
    using Some assms(1)
    by (auto simp: CmdNodeDisconnect_AnyMessage_def DelNode_def session_started GetNodeInfo_def DelNodeInfo_def
      split_beta Let_def)
  have keys: "map_ok (map_erase ?k (m_mapNodeInfo c))"
      "\<And>k i. map_find k (map_erase ?k (m_mapNodeInfo c)) = Some i \<Longrightarrow> getNodeKey i = k"
    using assms(2,3) by (auto simp: map_erase_ok m split: if_splits)
  note count = notices_count [OF keys]
  have sq: "sqls (notify_loop types ty s j es d) = sqls d" for types ty s j es and d :: "'a center"
    using sqls_notify_loop .
  show ?thesis
    using r v m count net_viewD(1) [OF net_SendDisConnectToOthers [of msg gone "fst ?r"]]
    by (auto simp: run Some Let_def SendDisConnectToOthers_def sent_notify_loop sq simp del: append.simps)
qed

theorem center_disconnect_witness:
  "\<exists>c. CmdNodeDisconnect_AnyMessage wit_env (wit_msg\<lparr>in_body := ascii ''10.0.0.5:9001''\<rparr>) wit_center2 = Some (c, True) \<and>
    map_find ''10.0.0.5:9001'' (m_mapNodeInfo c) = None"
proof -
  have "chars (ascii ''10.0.0.5:9001'') = ''10.0.0.5:9001''" by code_simp
  moreover have "\<forall>k i. map_find k (m_mapNodeInfo wit_center2) = Some i \<longrightarrow> getNodeKey i = k"
    by (simp add: wit_center2_def wit_old_key)
  ultimately obtain c where "CmdNodeDisconnect_AnyMessage wit_env (wit_msg\<lparr>in_body := ascii ''10.0.0.5:9001''\<rparr>) wit_center2 =
      Some (c, True)" "\<forall>k. map_find k (m_mapNodeInfo c) = (if k = ''10.0.0.5:9001'' then None else map_find k (m_mapNodeInfo wit_center2))"
    using center_disconnect [OF wit_start2(1,4), of wit_env "wit_msg\<lparr>in_body := ascii ''10.0.0.5:9001''\<rparr>"] wit_start2(3)
    by (simp add: Let_def del: append.simps) blast
  then show ?thesis by simp
qed

text \<open>The load query. For a known type it succeeds exactly when a node of that type is registered, and
  then answers with the ports, modulo \<open>2 ^ 16\<close>, and addresses of a registered node of that type whose load
  modulo \<open>2 ^ 16\<close> is least among them; a load of 65536 counts as 0. The session is not changed.\<close>

theorem center_load_min:
  assumes "boInit c" "e_cmd e = cmd msg" "parse_body e msg = Some (ob, True)"
    "Get_key_string ob (ascii ''servertype'') = Some ty" "checkNodeType (nodeTypesVec c) (chars ty)"
    "map_ok (m_mapNodeInfo c)"
  shows "\<exists>c' ok j. CmdGetLoadMinServer_AnyMessage e msg c = Some (c', ok) \<and>
    c' = c\<lparr>sent := sent c @ [(Shell (sender msg), cmd msg + 1, seq msg, Json j)]\<rparr> \<and>
    (ok \<longleftrightarrow> (\<exists>k i. map_find k (m_mapNodeInfo c) = Some i \<and> node_type i = chars ty)) \<and>
    (ok \<longrightarrow> (\<exists>k i. map_find k (m_mapNodeInfo c) = Some i \<and> node_type i = chars ty \<and>
       (\<forall>k' i'. map_find k' (m_mapNodeInfo c) = Some i' \<and> node_type i' = chars ty \<longrightarrow>
          load i mod 65536 \<le> load i' mod 65536) \<and>
       j = json_obj [(''outerport'', JInt (node_access_port i mod 65536)), (''outerip'', jstr (node_access_ip i)),
         (''innerport'', JInt (node_port i mod 65536)), (''innerip'', jstr (node_ip i)), (''errcode'', JInt 0)]))"
proof (cases "fst (GetNodeStatusByNodeType (chars ty) c)")
  case Nil
  have "\<not> (\<exists>k i. map_find k (m_mapNodeInfo c) = Some i \<and> node_type i = chars ty)"
    using in_status_list [OF assms(6), of _ "chars ty"] Nil by auto
  then show ?thesis
    using assms by (auto simp: CmdGetLoadMinServer_AnyMessage_def session_started Nil Response_def SendTo_def err_nonzero)
next
  case (Cons s ss)
  let ?s = "min_load s ss"
  have run: "CmdGetLoadMinServer_AnyMessage e msg c = Some (Response msg ERR_OK (load_body ?s ERR_OK) c)"
    using assms(1-5) by (simp add: CmdGetLoadMinServer_AnyMessage_def session_started Cons)
  have "?s \<in> set (fst (GetNodeStatusByNodeType (chars ty) c))" using minimal_min_load [of s ss] by (simp add: Cons)
  then obtain k i where i: "map_find k (m_mapNodeInfo c) = Some i" "node_type i = chars ty" "?s = status_of i"
    unfolding in_status_list [OF assms(6)] by blast
  have least: "load i mod 65536 \<le> load i' mod 65536"
    if "map_find k' (m_mapNodeInfo c) = Some i'" "node_type i' = chars ty" for k' i'
  proof -
    have "status_of i' \<in> set (fst (GetNodeStatusByNodeType (chars ty) c))"
      unfolding in_status_list [OF assms(6)] using that by blast
    then have "status_of i' \<in> set (s # ss)" by (simp only: Cons)
    then have "serverload (status_of i) \<le> serverload (status_of i')" using minimal_min_load [of s ss] i(3) by metis
    then show ?thesis by (simp add: status_of_def word_le_def uint_u16)
  qed
  have "load_body ?s ERR_OK = [(''outerport'', JInt (node_access_port i mod 65536)), (''outerip'', jstr (node_access_ip i)),
      (''innerport'', JInt (node_port i mod 65536)), (''innerip'', jstr (node_ip i)), (''errcode'', JInt 0)]"
    by (simp add: load_body_def i(3) status_of_def uint_u16 ERR_OK_def)
  then have run': "CmdGetLoadMinServer_AnyMessage e msg c = Some (c\<lparr>sent := sent c @ [(Shell (sender msg), cmd msg + 1, seq msg,
      Json (json_obj [(''outerport'', JInt (node_access_port i mod 65536)), (''outerip'', jstr (node_access_ip i)),
        (''innerport'', JInt (node_port i mod 65536)), (''innerip'', jstr (node_ip i)), (''errcode'', JInt 0)]))]\<rparr>, True)"
    unfolding run Response_def SendTo_def by (simp add: ERR_OK_def)
  show ?thesis
    unfolding run' using i(1,2) least
    by - (intro exI conjI impI, rule refl, rule refl, blast, rule i(1), rule i(2), blast, rule refl)
qed

theorem center_load_min_witness:
  "\<exists>c j. CmdGetLoadMinServer_AnyMessage wit_env
      (wit_msg\<lparr>in_body := body_of int_fpu (json_obj [(''servertype'', jstr ''LOGIC'')])\<rparr>) wit_center2 = Some (c, True) \<and>
    sent c = sent wit_center2 @ [(Shell (sender wit_msg), cmd wit_msg + 1, seq wit_msg, Json j)]"
proof -
  let ?j = "json_obj [(''servertype'', jstr ''LOGIC'')]"
  let ?ob = "empty_jobj\<lparr>jdata := Some (of_jval int_fpu None ?j)\<rparr>"
  have w: "wf_jval ?j" by code_simp
  have g: "Get_key_string ?ob (ascii ''servertype'') = Some (ascii ''LOGIC'')" by code_simp
  have p: "parse_body wit_env (wit_msg\<lparr>in_body := body_of int_fpu ?j\<rparr>) = Some (?ob, True)"
    by (simp add: parse_body_def wit_env_def Jobj_Parse_body_of [OF w])
  have t: "chars (ascii ''LOGIC'') = ''LOGIC''" by code_simp
  have "\<exists>k i. map_find k (m_mapNodeInfo wit_center2) = Some i \<and> node_type i = ''LOGIC''"
    by (intro exI conjI, rule wit_start2(3)) (simp add: wit_old_def wit_info_def)
  moreover have "checkNodeType (nodeTypesVec wit_center2) (chars (ascii ''LOGIC''))" by (simp only: t wit_start2(6))
  moreover have "e_cmd wit_env = cmd (wit_msg\<lparr>in_body := body_of int_fpu ?j\<rparr>)" using wit_start(2) by simp
  ultimately obtain c j where "CmdGetLoadMinServer_AnyMessage wit_env (wit_msg\<lparr>in_body := body_of int_fpu ?j\<rparr>) wit_center2 =
      Some (c, True)" "c = wit_center2\<lparr>sent := sent wit_center2 @ [(Shell (sender wit_msg), cmd wit_msg + 1, seq wit_msg, Json j)]\<rparr>"
    using center_load_min [OF wit_start2(1) _ p g _ wit_start2(4)] t by auto
  then show ?thesis by auto
qed

text \<open>The statistics of a node after any series of its reports are the sums of the reported counters
  as 32-bit integers wrap them, with the load, connection and client numbers of the last report.\<close>

theorem center_statistics_sums:
  assumes "map_ok m" "map_find k m = None" "infos \<noteq> []" "\<forall>i \<in> set infos. getNodeKey i = k \<and> in32 (recvNum i) \<and>
    in32 (recvByte i) \<and> in32 (sendNum i) \<and> in32 (sendByte i)"
  shows "\<exists>t. map_find k (fold collect_statistics infos m) = Some t \<and>
    t_recvNum t = wrap32 (\<Sum>i\<leftarrow>infos. recvNum i) \<and> t_recvByte t = wrap32 (\<Sum>i\<leftarrow>infos. recvByte i) \<and>
    t_sendNum t = wrap32 (\<Sum>i\<leftarrow>infos. sendNum i) \<and> t_sendByte t = wrap32 (\<Sum>i\<leftarrow>infos. sendByte i) \<and>
    t_load t = load (last infos) \<and> t_connect t = connect (last infos) \<and> t_client t = client (last infos)"
  using assms(3,4)
proof (induction infos rule: rev_nonempty_induct)
  case (single i)
  then show ?case
    using assms(1,2) by (auto simp: collect_find statistics_of_def wrap32_id)
next
  case (snoc i infos)
  then obtain t where t: "map_find k (fold collect_statistics infos m) = Some t"
      "t_recvNum t = wrap32 (\<Sum>i\<leftarrow>infos. recvNum i)" "t_recvByte t = wrap32 (\<Sum>i\<leftarrow>infos. recvByte i)"
      "t_sendNum t = wrap32 (\<Sum>i\<leftarrow>infos. sendNum i)" "t_sendByte t = wrap32 (\<Sum>i\<leftarrow>infos. sendByte i)"
    by auto
  have "map_ok (fold collect_statistics infos m)" by (rule fold_collect_ok [OF assms(1)])
  moreover have "t_node_ip t = node_ip i \<and> t_node_port t = node_port i"
    using collected_key [OF assms(1), of i infos t] snoc.prems assms(2) t(1) by auto
  ultimately show ?case
    using t snoc.prems by (simp add: collect_find add_statistics_def wrap32_add)
qed

theorem center_statistics_sums_witness:
  "\<exists>t. map_find ''10.0.0.5:9001'' (fold collect_statistics [wit_info\<lparr>recvNum := 2147483647\<rparr>, wit_info\<lparr>recvNum := 3\<rparr>] []) =
      Some t \<and> t_recvNum t = - 2147483646"
proof -
  have k: "getNodeKey (wit_info\<lparr>recvNum := n\<rparr>) = ''10.0.0.5:9001''" for n
    using wit_key(1) by (simp add: getNodeKey_def)
  have "wrap32 2147483650 = - 2147483646" by code_simp
  moreover have f: "recvByte wit_info = 0" "sendNum wit_info = 0" "sendByte wit_info = 0"
    by (simp_all add: wit_info_def)
  ultimately show ?thesis
    using center_statistics_sums [of "[]" "''10.0.0.5:9001''" "[wit_info\<lparr>recvNum := 2147483647\<rparr>, wit_info\<lparr>recvNum := 3\<rparr>]"]
      f by (auto simp: map_ok_def k in32_def simp del: fold_simps)
qed

end
