(* ===== verification/Center_Types.thy ===== *)
theory Center_Types
  imports Center_Report
begin

text \<open>
  The C++ types of the session: every member that is an \<open>int\<close> in the code holds a 32-bit value in the
  model, whatever bodies the nodes send and whatever the configuration says.
\<close>

section \<open>Well-typed sessions\<close>

definition info_typed :: "st_NodeInfo \<Rightarrow> bool" where
  "info_typed i \<longleftrightarrow> in32 (node_id i) \<and> in32 (node_port i) \<and> in32 (node_access_port i) \<and> in32 (worker_num i) \<and>
     in32 (load i) \<and> in32 (connect i) \<and> in32 (client i) \<and> in32 (recvNum i) \<and> in32 (recvByte i) \<and>
     in32 (sendNum i) \<and> in32 (sendByte i)"

definition stat_typed :: "st_NodeStaisticsInfo \<Rightarrow> bool" where
  "stat_typed t \<longleftrightarrow> in32 (t_node_id t) \<and> in32 (t_node_port t) \<and> in32 (t_node_access_port t) \<and>
     in32 (t_worker_num t) \<and> in32 (t_load t) \<and> in32 (t_connect t) \<and> in32 (t_client t) \<and> in32 (t_recvNum t) \<and>
     in32 (t_recvByte t) \<and> in32 (t_sendNum t) \<and> in32 (t_sendByte t)"

definition conf_typed :: "'db center \<Rightarrow> bool" where
  "conf_typed c \<longleftrightarrow> (\<forall>i \<in> {m_nodereport_timeinterval c, m_nodeoffline_timeinterval c, m_deleteofflinenode_timeinterval c,
     m_nodestatuscheck_timeinterval c, m_nodeloadlog_timeinterval c, m_nodeloadlog_overdue c,
     m_nodeloadstatistics_timeinterval c, m_nodeloadstatistics_overdue c, m_nodeloadcheck_timeinterval c,
     m_serverDataLoadCheck_timeinterval c, m_serverdataloadstatuslog_overdue c, m_center_inner_port c,
     m_center_process_num c}. in32 i)"

definition session_typed :: "'db center \<Rightarrow> bool" where
  "session_typed c \<longleftrightarrow> (\<forall>e \<in> set (m_mapNodeInfo c). info_typed (snd e)) \<and>
     (\<forall>e \<in> set (m_mapNodeStatisticsInfo c). stat_typed (snd e)) \<and> info_typed (m_regNodeInfoMsg c) \<and> conf_typed c"

named_theorems typed

lemma session_typed_simps [simp]:
  "session_typed (c\<lparr>db := d\<rparr>) = session_typed c" "session_typed (c\<lparr>sqls := q\<rparr>) = session_typed c"
  "session_typed (c\<lparr>sent := s\<rparr>) = session_typed c" "session_typed (c\<lparr>routes := ro\<rparr>) = session_typed c"
  "session_typed (c\<lparr>ticks := n\<rparr>) = session_typed c" "session_typed (c\<lparr>sequence := sq\<rparr>) = session_typed c"
  "session_typed (c\<lparr>m_currenttime := t\<rparr>) = session_typed c" "session_typed (c\<lparr>boInit := b\<rparr>) = session_typed c"
  "session_typed (c\<lparr>nodeTypesVec := v\<rparr>) = session_typed c" "session_typed (c\<lparr>m_nodeid := nid\<rparr>) = session_typed c"
  "session_typed (c\<lparr>m_nodestatuscheck_lasttime := t\<rparr>) = session_typed c"
  "session_typed (c\<lparr>m_nodeloadlog_lasttime := t\<rparr>) = session_typed c"
  "session_typed (c\<lparr>m_nodeloadstatistics_lasttime := t\<rparr>) = session_typed c"
  "session_typed (c\<lparr>m_nodeloadcheck_lasttime := t\<rparr>) = session_typed c"
  "session_typed (c\<lparr>m_serverdataloadcheck_lasttime := t\<rparr>) = session_typed c"
  "session_typed (c\<lparr>m_regNodeInfoDB := r\<rparr>) = session_typed c"
  "session_typed (c\<lparr>m_centerNodeInfoDB := r\<rparr>) = session_typed c"
  "session_typed (c\<lparr>m_regMsgShell := sh\<rparr>) = session_typed c"
  by (simp_all add: session_typed_def conf_typed_def)

lemma typed_regmsg [typed]: "session_typed c \<Longrightarrow> info_typed i \<Longrightarrow> session_typed (c\<lparr>m_regNodeInfoMsg := i\<rparr>)"
  by (simp add: session_typed_def conf_typed_def)

lemma set_map_put: "set (map_put k v m) \<subseteq> insert (k, v) (set m)"
  by (induction m) (auto split: if_splits)

lemma typed_put [typed]:
  "session_typed c \<Longrightarrow> info_typed i \<Longrightarrow> session_typed (c\<lparr>m_mapNodeInfo := map_put k i (m_mapNodeInfo c)\<rparr>)"
  using set_map_put [of k i "m_mapNodeInfo c"] by (auto simp: session_typed_def conf_typed_def)

lemma typed_put_same:
  "m = m_mapNodeInfo c \<Longrightarrow> session_typed c \<Longrightarrow> info_typed i \<Longrightarrow> session_typed (c\<lparr>m_mapNodeInfo := map_put k i m\<rparr>)"
  by (simp add: typed_put)

lemma typed_erase [typed]: "session_typed c \<Longrightarrow> session_typed (c\<lparr>m_mapNodeInfo := map_erase k (m_mapNodeInfo c)\<rparr>)"
  by (auto simp: session_typed_def conf_typed_def map_erase_def)

lemma typed_statistics [typed]:
  "session_typed c \<Longrightarrow> \<forall>e \<in> set m. stat_typed (snd e) \<Longrightarrow> session_typed (c\<lparr>m_mapNodeStatisticsInfo := m\<rparr>)"
  by (simp add: session_typed_def conf_typed_def)

section \<open>Database writes and messages\<close>

lemma typed_ExecSql [typed]: "session_typed (fst (ExecSql dbms q c)) = session_typed c"
  by (simp add: ExecSql_def split_beta Let_def)

lemma typed_run_sql [typed]: "session_typed (fst (run_sql dbms q c)) = session_typed c"
  by (simp add: run_sql_def split_beta Let_def typed)

lemma typed_setCurrentTime [typed]: "session_typed (setCurrentTime c) = session_typed c"
  by (simp add: setCurrentTime_def)

lemma typed_CheckNodeStatus [typed]: "session_typed (CheckNodeStatus dbms c) = session_typed c"
  by (simp add: CheckNodeStatus_def Let_def CheckOfflineNodeStatusToDB_def ClearOverdueOfflineNodeStatusToDB_def typed)

lemma typed_WriteNodeStatus [typed]: "session_typed (fst (WriteNodeStatus dbms info c)) = session_typed c"
  by (simp add: WriteNodeStatus_def ReplaceNodeStatusToDB_def split_beta Let_def typed)

lemma typed_log_loop [typed]: "session_typed (fst (log_loop dbms infos c)) = session_typed c"
  by (induction infos arbitrary: c) (simp_all add: split_beta Let_def typed)

lemma typed_WriteNodeLog [typed]: "session_typed (fst (WriteNodeLog dbms c)) = session_typed c"
  by (simp add: WriteNodeLog_def InsertNodeLogToDB_def typed)

lemma typed_NodeloadCheck [typed]: "session_typed (fst (NodeloadCheck dbms c)) = session_typed c"
  by (simp add: NodeloadCheck_def ClearOverdueOfflineNodeLogToDB_def ClearOverdueOfflineNodeStatisticsToDB_def
      split_beta Let_def typed)

lemma typed_statistics_loop:
  "session_typed (fst (snd (statistics_loop dbms ts c))) = session_typed c \<and>
   ((\<forall>e \<in> set ts. stat_typed (snd e)) \<longrightarrow> (\<forall>e \<in> set (fst (statistics_loop dbms ts c)). stat_typed (snd e)))"
proof (induction ts arbitrary: c)
  case (Cons e ts)
  have "stat_typed t \<Longrightarrow> stat_typed (clearLoad t)" for t by (simp add: stat_typed_def clearLoad_def in32_def)
  with Cons show ?case by (cases e) (auto simp: split_beta Let_def typed)
qed simp

lemma typed_collect:
  "info_typed i \<Longrightarrow> \<forall>e \<in> set m. stat_typed (snd e) \<Longrightarrow> \<forall>e \<in> set (collect_statistics i m). stat_typed (snd e)"
proof -
  assume i: "info_typed i" and m: "\<forall>e \<in> set m. stat_typed (snd e)"
  have "stat_typed t" if "map_find k m = Some t" for k t
    using that m by (induction m) (auto split: if_splits)
  moreover have "stat_typed (add_statistics t i)" if "stat_typed t" for t
    using that i by (simp add: stat_typed_def add_statistics_def info_typed_def)
  moreover have "stat_typed (statistics_of i)" using i by (simp add: stat_typed_def statistics_of_def info_typed_def)
  moreover have "\<forall>e \<in> set (map_put k t m). stat_typed (snd e)" if "stat_typed t" for k t
    using that m set_map_put [of k t m] by auto
  ultimately show ?thesis
    unfolding collect_statistics_def by (cases "map_find (getNodeKey i) m"; simp only: option.case; blast)
qed

lemma typed_WriteNodeStatistics [typed]:
  assumes "session_typed c" "info_typed i"
  shows "session_typed (fst (WriteNodeStatistics dbms i c))"
proof -
  have m: "\<forall>e \<in> set (collect_statistics i (m_mapNodeStatisticsInfo c)). stat_typed (snd e)"
    by (rule typed_collect [OF assms(2)]) (use assms(1) in \<open>simp add: session_typed_def\<close>)
  have c: "session_typed (c\<lparr>m_mapNodeStatisticsInfo := collect_statistics i (m_mapNodeStatisticsInfo c)\<rparr>)"
    by (rule typed_statistics [OF assms(1) m])
  have "\<forall>e \<in> set (fst (statistics_loop dbms (collect_statistics i (m_mapNodeStatisticsInfo c)) d)). stat_typed (snd e)" for d
    using m typed_statistics_loop by blast
  with c show ?thesis
    by (simp add: WriteNodeStatistics_def InsertNodeStatisticsToDB_def split_beta Let_def typed_statistics_loop typed_statistics)
qed

lemma typed_WriteNodeDataToDB [typed]:
  "session_typed c \<Longrightarrow> info_typed i \<Longrightarrow> session_typed (fst (WriteNodeDataToDB dbms i report c))"
  by (simp add: WriteNodeDataToDB_def split_beta Let_def typed)

lemma typed_WriteServerDataLoadToDB [typed]: "session_typed (fst (WriteServerDataLoadToDB dbms ts s c)) = session_typed c"
  by (simp add: WriteServerDataLoadToDB_def ServerDataLoadCheck_def ClearOverdueServerDataLogToDB_def
      ReplaceServerDataLoadStatusToDB_def WriteServerDataLoadLogToDB_def split_beta Let_def typed)

lemma typed_SendTo [typed]: "session_typed (SendTo d cm sq b c) = session_typed c"
  by (simp add: SendTo_def)

lemma typed_GetSequence [typed]: "session_typed (fst (GetSequence c)) = session_typed c"
  by (simp add: GetSequence_def Let_def)

lemma typed_Response [typed]: "session_typed (fst (Response msg ret ms c)) = session_typed c"
  by (simp add: Response_def typed)

lemma typed_SendServerConfig [typed]: "session_typed (SendServerConfig dbms msg c) = session_typed c"
  by (simp add: SendServerConfig_def loadServerConfig_def split_beta Let_def typed split: option.split)

lemma typed_SendTo_pow [typed]: "session_typed ((SendTo d cm sq b ^^ n) c) = session_typed c"
  by (induction n) (simp_all add: typed)

lemma typed_notify_loop [typed]: "session_typed (notify_loop types ty sq j es c) = session_typed c"
  by (induction types ty sq j es c rule: notify_loop.induct) (simp_all add: typed)

lemma typed_answer_registration [typed]: "session_typed (answer_registration dbms msg c) = session_typed c"
  by (simp add: answer_registration_def ResponseNodeReg_def SendNodeRegNotice_def split_beta Let_def typed
    split: option.split)

lemma typed_SendDisConnectToOthers [typed]: "session_typed (SendDisConnectToOthers msg gone c) = session_typed c"
  by (simp add: SendDisConnectToOthers_def typed)

section \<open>Commands\<close>

lemma typed_update: "info_typed old \<Longrightarrow> info_typed new \<Longrightarrow> info_typed (fst (update old new))"
  by (simp add: update_def info_typed_def)

lemma typed_id [simp]: "info_typed i \<Longrightarrow> in32 n \<Longrightarrow> info_typed (i\<lparr>node_id := n\<rparr>)"
  by (simp add: info_typed_def)

lemma typed_find: "session_typed c \<Longrightarrow> map_find k (m_mapNodeInfo c) = Some i \<Longrightarrow> info_typed i"
proof -
  assume c: "session_typed c" and f: "map_find k (m_mapNodeInfo c) = Some i"
  have "map_find k m = Some i \<Longrightarrow> \<exists>k. (k, i) \<in> set m" for m :: registry
    by (induction m) (auto split: if_splits)
  with f c show ?thesis by (force simp: session_typed_def)
qed

lemma in32_opt: "in32 (opt_int ob k)"
  by (auto simp: opt_int_def in32_def dest: in32_Get [unfolded in32_def] split: option.split)

lemma definedD: "defined x = Some i \<Longrightarrow> x = Done i"
  by (cases x) simp_all

lemma defined_branches [simp]:
  "defined (bind_result x f) = Option.bind (defined x) (\<lambda>y. defined (f y))"
  "defined (case z of None \<Rightarrow> r | Some y \<Rightarrow> g y) = (case z of None \<Rightarrow> defined r | Some y \<Rightarrow> defined (g y))"
  "defined (if b then r1 else r2) = (if b then defined r1 else defined r2)"
  by (cases x; simp) (simp_all split: option.split)

lemma typed_pareJsonData: "post (\<lambda>i. \<forall>info. i = Some info \<longrightarrow> info_typed info) (defined (pareJsonData fp junk now ob))"
  unfolding pareJsonData_def prod.case defined_branches
  by (intro branches) (auto simp: post_def info_typed_def in32_opt dest: in32_Get)

lemma typed_node_data:
  "node_data e ob c = Some (c', info) \<Longrightarrow> session_typed c' = session_typed c \<and> (\<forall>i. info = Some i \<longrightarrow> info_typed i)"
  by (auto simp: node_data_def bind_eq_Some_conv dest: postD [OF typed_pareJsonData] split: if_splits)

lemma typed_loadNodeTypes: "loadNodeTypes fp junk dbms d = Done (d', ok) \<Longrightarrow> session_typed d' = session_typed d"
  by (auto simp: loadNodeTypes_def split_beta Let_def typed bind_result_Done split: option.splits if_splits)

lemma holds_typed_Init: "session_typed c0 \<Longrightarrow> holds session_typed (NodeSession_Init conf c0)"
  unfolding NodeSession_Init_def Let_def
  by (cases "boInit c0"; simp only: if_True if_False; intro holds_rules; simp add: session_typed_def conf_typed_def)

lemma typed_session_of: "session_of e c = Some (Some c') \<Longrightarrow> session_typed c \<Longrightarrow> session_typed c'"
proof -
  assume s: "session_of e c = Some (Some c')" and c: "session_typed c"
  have g: "getSession (e_fp e) (e_junk e) (e_dbms e) (e_conf e) (e_reg_ok e) c = Done (Some c')"
    using s by (cases "getSession (e_fp e) (e_junk e) (e_dbms e) (e_conf e) (e_reg_ok e) c") (auto simp: session_of_def)
  from g c holds_typed_Init [OF c, of "e_conf e"] show ?thesis
    by (auto simp: getSession_def bind_result_Done holds_def typed_loadNodeTypes split: if_splits sum.splits)
qed

lemma typed_session_imp: "session_of e c = Some (Some c') \<Longrightarrow> session_typed c \<longrightarrow> session_typed c'"
  by (simp add: typed_session_of)

lemma typed_pair:
  "ExecSql dbms q c = (c', r) \<Longrightarrow> session_typed c' = session_typed c"
  "getNewNodeID c = (c', nid) \<Longrightarrow> session_typed c' = session_typed c"
  "WriteServerDataLoadToDB dbms ts s c = (c', ok) \<Longrightarrow> session_typed c' = session_typed c"
  "SetNodeDataOfflineToDBByNodeId dbms n c = (c', ok) \<Longrightarrow> session_typed c' = session_typed c"
  using typed_ExecSql [of dbms q c] typed_WriteServerDataLoadToDB [of dbms ts s c]
  by (auto simp: getNewNodeID_def Let_def SetNodeDataOfflineToDBByNodeId_def) (metis fst_conv typed_run_sql typed_setCurrentTime)+

lemma typed_write_pair:
  "WriteNodeDataToDB dbms i report c = (c', ok) \<Longrightarrow> session_typed c \<Longrightarrow> info_typed i \<Longrightarrow> session_typed c'"
  using typed_WriteNodeDataToDB [of c i dbms report] by simp

lemma typed_GetServerData: "GetServerDataFromDB dbms ty ip c = Some (c', ok) \<Longrightarrow> session_typed c' = session_typed c"
  by (auto simp: GetServerDataFromDB_def Let_def bind_eq_Some_conv typed_pair(1) split: option.splits list.splits prod.splits)

lemma typed_GetCenterData: "GetCenterDataFromDB dbms c = Some (c', ok) \<Longrightarrow> session_typed c' = session_typed c"
  by (auto simp: GetCenterDataFromDB_def Let_def bind_eq_Some_conv typed_pair(1) split: option.splits list.splits prod.splits)

lemma typed_AddNodeInfo: "session_typed c \<Longrightarrow> info_typed i \<Longrightarrow> session_typed (AddNodeInfo k i c)"
proof -
  assume "session_typed c" "info_typed i"
  moreover have "c\<lparr>m_mapNodeInfo := m_mapNodeInfo c\<rparr> = c" by simp
  ultimately show ?thesis
    using typed_put [of c i k] by (cases "map_find k (m_mapNodeInfo c)") (simp_all add: AddNodeInfo_def map_insert_def)
qed

lemma typed_DelNodeInfo: "DelNodeInfo k c = (c', ok) \<Longrightarrow> session_typed c \<Longrightarrow> session_typed c'"
  by (auto simp: DelNodeInfo_def intro: typed_erase split: if_splits)

abbreviation keeps_types :: "'db center \<times> 'r \<Rightarrow> bool" where
  "keeps_types r \<equiv> session_typed (fst r)"

lemma register_new_typed:
  "session_typed c \<Longrightarrow> info_typed info \<Longrightarrow> post keeps_types (register_new dbms msg info c)"
  unfolding register_new_def Let_def
  by (intro branches)
    (auto dest!: typed_GetServerData typed_GetCenterData typed_pair(2) typed_write_pair
      intro!: typed_AddNodeInfo typed_regmsg simp: typed_answer_registration split: if_splits)

lemma regNode_typed: "session_typed c \<Longrightarrow> info_typed info \<Longrightarrow> post keeps_types (regNode dbms msg info c)"
  unfolding regNode_def Let_def GetNodeInfo_def
  by (intro branches register_new_typed)
    (auto intro!: typed_regmsg typed_update typed_put_same simp: typed_answer_registration dest: typed_find)

lemma typed_reg_result:
  "regNode dbms msg info c = Some (c', ret) \<Longrightarrow> session_typed c \<Longrightarrow> info_typed info \<Longrightarrow> session_typed c'"
  using postD [OF regNode_typed] by fastforce

lemma typed_report_write:
  assumes "WriteNodeDataToDB dbms (info\<lparr>node_id := node_id old\<rparr>) True (c\<lparr>m_mapNodeInfo := map_put k new (m_mapNodeInfo c)\<rparr>) = (c', ok)"
    "update old (info\<lparr>node_id := node_id old\<rparr>) = (new, ok')" "map_find k (m_mapNodeInfo c) = Some old"
    "session_typed c" "info_typed info"
  shows "session_typed c'"
proof -
  have old: "info_typed old" by (rule typed_find [OF assms(4,3)])
  then have "info_typed new" using typed_update [OF old assms(5)] update_pair [OF assms(2)] by simp
  moreover have "in32 (node_id old)" using old by (simp add: info_typed_def)
  ultimately show ?thesis by (intro typed_write_pair [OF assms(1)] typed_put typed_id assms)
qed

lemmas typed_dests = typed_session_of typed_node_data typed_reg_result typed_DelNodeInfo typed_write_pair
  typed_pair(3,4)

lemma CmdNodeReg_typed: "session_typed c \<Longrightarrow> post keeps_types (CmdNodeReg_AnyMessage e msg c)"
  unfolding CmdNodeReg_AnyMessage_def Let_def
  by (intro branches) (auto dest: typed_dests simp: typed)

lemma CmdNodeReport_typed: "session_typed c \<Longrightarrow> post keeps_types (CmdNodeReport_AnyMessage e msg c)"
  unfolding CmdNodeReport_AnyMessage_def Let_def GetNodeInfo_def
  by (intro branches)
    (auto dest!: typed_session_imp typed_node_data dest: typed_dests typed_report_write simp: typed)

lemma DelNode_typed: "session_typed c \<Longrightarrow> post keeps_types (DelNode e msg c)"
  unfolding DelNode_def Let_def
  by (intro branches) (auto dest: typed_dests simp: typed)

lemma CmdGetLoadMinServer_typed: "session_typed c \<Longrightarrow> post keeps_types (CmdGetLoadMinServer_AnyMessage e msg c)"
  unfolding CmdGetLoadMinServer_AnyMessage_def Let_def
  by (intro branches) (auto dest: typed_dests simp: typed)

lemma CmdServerReport_typed: "session_typed c \<Longrightarrow> post keeps_types (CmdServerReport_AnyMessage e msg c)"
  unfolding CmdServerReport_AnyMessage_def Let_def
  by (intro branches) (auto dest: typed_dests simp: typed)

lemma handle_typed:
  assumes "handle k e msg c = Some (c', ok)" "session_typed c"
  shows "session_typed c'"
proof -
  have "post keeps_types (CmdNodeDisconnect_AnyMessage e msg c)"
    using DelNode_typed [OF assms(2), of e msg] by (auto simp: post_def CmdNodeDisconnect_AnyMessage_def)
  then have "post keeps_types (handle k e msg c)"
    using CmdNodeReg_typed CmdNodeReport_typed CmdGetLoadMinServer_typed CmdServerReport_typed assms(2)
    by (cases k) simp_all
  from postD [OF this assms(1)] show ?thesis by simp
qed

section \<open>Property\<close>



end
