(* ===== verification/StdSet.thy ===== *)
theory StdSet
  imports StdMap
begin

text \<open>
  \<open>std::set\<close> as the ascending list of its elements, with the iterator as the element it stands on
  (\<open>None\<close> is \<open>end()\<close>). The contract that the clients use is the locale \<open>ordered_set\<close>: membership
  after insertion and removal, and the tour that a repeated \<open>++\<close> makes from \<open>begin()\<close>.
\<close>

section \<open>Operations\<close>

type_synonym 'a stdset = "'a list"

fun set_put :: "'a::linorder \<Rightarrow> 'a stdset \<Rightarrow> 'a stdset" where
  "set_put x [] = [x]"
| "set_put x (y # ys) = (if x < y then x # y # ys else if x = y then y # ys else y # set_put x ys)"

definition set_erase :: "'a \<Rightarrow> 'a stdset \<Rightarrow> 'a stdset" where
  "set_erase x s = filter (\<lambda>y. y \<noteq> x) s"

definition set_begin :: "'a stdset \<Rightarrow> 'a option" where
  "set_begin s = (case s of [] \<Rightarrow> None | x # _ \<Rightarrow> Some x)"

text \<open>\<open>++it\<close> for an iterator on the element \<open>x\<close>.\<close>

fun set_next :: "'a::linorder \<Rightarrow> 'a stdset \<Rightarrow> 'a option" where
  "set_next x [] = None"
| "set_next x (y # ys) = (if x < y then Some y else set_next x ys)"

definition set_ok :: "'a::linorder stdset \<Rightarrow> bool" where
  "set_ok s \<longleftrightarrow> sorted_wrt (<) s"

section \<open>The contract\<close>

locale ordered_set =
  fixes ok :: "'s \<Rightarrow> bool" and put :: "'a \<Rightarrow> 's \<Rightarrow> 's" and erase :: "'a \<Rightarrow> 's \<Rightarrow> 's"
    and first :: "'s \<Rightarrow> 'a option" and succ :: "'a \<Rightarrow> 's \<Rightarrow> 'a option" and elements :: "'s \<Rightarrow> 'a list"
  assumes set_put: "ok s \<Longrightarrow> set (elements (put x s)) = insert x (set (elements s))"
    and set_erase: "ok s \<Longrightarrow> set (elements (erase x s)) = set (elements s) - {x}"
    and put_ok: "ok s \<Longrightarrow> ok (put x s)"
    and erase_ok: "ok s \<Longrightarrow> ok (erase x s)"
    and first_elements: "first s = (if elements s = [] then None else Some (hd (elements s)))"
    and succ_elements: "ok s \<Longrightarrow> i < length (elements s) \<Longrightarrow>
      succ (elements s ! i) s = (if Suc i < length (elements s) then Some (elements s ! Suc i) else None)"
    and elements_distinct: "ok s \<Longrightarrow> distinct (elements s)"
begin

text \<open>An iterator is valid when it stands on an element or at the end; \<open>wrapped\<close> is where the
  next round starts.\<close>

definition valid :: "'s \<Rightarrow> 'a option \<Rightarrow> bool" where
  "valid s it \<longleftrightarrow> (case it of None \<Rightarrow> True | Some x \<Rightarrow> x \<in> set (elements s))"

definition position :: "'s \<Rightarrow> 'a option \<Rightarrow> nat \<Rightarrow> bool" where
  "position s it i \<longleftrightarrow> it = (if i < length (elements s) then Some (elements s ! i) else None)"

lemma valid_position: "valid s it \<Longrightarrow> \<exists>i \<le> length (elements s). position s it i"
  by (auto simp: valid_def position_def in_set_conv_nth split: option.splits)

lemma position_first: "position s (first s) 0"
  by (auto simp: position_def first_elements hd_conv_nth)

lemma position_succ:
  "ok s \<Longrightarrow> position s (Some x) i \<Longrightarrow> elements s ! i = x \<and> i < length (elements s) \<and> position s (succ x s) (Suc i)"
  using succ_elements [of s i] by (auto simp: position_def split: if_splits)

lemma valid_first: "valid s (first s)"
  by (auto simp: valid_def first_elements)

lemma valid_succ: "ok s \<Longrightarrow> x \<in> set (elements s) \<Longrightarrow> valid s (succ x s)"
  using succ_elements [of s] by (auto simp: valid_def in_set_conv_nth split: option.splits if_splits)

end

section \<open>The lists satisfy it\<close>

lemma set_set_put: "set (set_put x s) = insert x (set s)"
  by (induction s) auto

lemma set_put_ok: "set_ok s \<Longrightarrow> set_ok (set_put x s)"
  by (induction s) (auto simp: set_ok_def set_set_put)

lemma set_erase_ok: "set_ok s \<Longrightarrow> set_ok (set_erase x s)"
  by (simp add: set_ok_def set_erase_def sorted_wrt_filter)

lemma set_next_nth:
  "set_ok s \<Longrightarrow> i < length s \<Longrightarrow> set_next (s ! i) s = (if Suc i < length s then Some (s ! Suc i) else None)"
proof (induction s arbitrary: i)
  case (Cons y ys)
  have ys: "set_ok ys" "\<forall>z \<in> set ys. y < z" using Cons.prems by (auto simp: set_ok_def)
  show ?case
  proof (cases i)
    case 0
    then show ?thesis using ys by (cases ys) auto
  next
    case (Suc j)
    then have "y < ys ! j" using ys Cons.prems by simp
    then show ?thesis using Cons.IH [OF ys(1), of j] Suc Cons.prems by auto
  qed
qed simp

lemma set_ok_distinct: "set_ok s \<Longrightarrow> distinct s"
  by (simp add: set_ok_def strict_sorted_iff)

interpretation stdset: ordered_set set_ok set_put set_erase set_begin set_next "\<lambda>s. s"
  by unfold_locales
    (simp_all add: set_set_put set_put_ok set_erase_ok set_next_nth set_ok_distinct,
     auto simp: set_erase_def set_begin_def split: list.split)

lemmas set_set_erase = stdset.set_erase

end
