(* ===== verification/Worker_State.thy ===== *)
theory Worker_State
  imports Starship_Codec StdSet "HOL-Library.Monad_Syntax"
begin

text \<open>
  The tables of a worker process (\<open>Starship/src/labor/duty/OssWorker.cpp\<close>): its connections, the
  shells of named connections and the routing table that maps a node type to the workers that serve
  it. \<open>None\<close> is undefined behaviour: an iterator used after its element was erased, or memory read
  before it was written. Timers keep no time here, only whether they were started, and a watcher of
  libev is the set of events it asks for. \<open>m_calls\<close> numbers the system calls, whose outcomes are
  functions of that number; \<open>m_wire\<close>, \<open>m_connects\<close> and \<open>m_notices\<close> record what was handed to
  \<open>send\<close>, \<open>connect\<close> and the command for broken connections.
\<close>

section \<open>Messages and connections\<close>

datatype codec_type =
  CODEC_UNKNOW | CODEC_TLV | CODEC_PROTOBUF | CODEC_HTTP | CODEC_PRIVATE | CODEC_WEBSOCKET_JSON

type_synonym msg_shell = "int \<times> u32"

record msg_body =
  b_body :: "byte list"
  b_session_id :: "u32 option"
  b_session :: "string option"
  b_additional :: "byte list option"

definition plain_body :: "byte list \<Rightarrow> msg_body" where
  "plain_body xs = \<lparr>b_body = xs, b_session_id = None, b_session = None, b_additional = None\<rparr>"

record conn =
  ucConnectStatus :: byte
  pRecvBuff :: cbuffer
  pSendBuff :: cbuffer
  pWaitForSendBuff :: cbuffer
  pClientData :: cbuffer
  pRemoteAddr :: "string option"
  eCodecType :: codec_type
  ulSeq :: u32
  ulForeignSeq :: u32
  ulMsgNumUnitTime :: u32
  ulMsgNum :: u32
  strIdentify :: string
  pIoWatcher :: "(bool \<times> bool) option"
  pTimeWatcher :: bool
  uiType :: u32

definition EAGAIN :: int where "EAGAIN = 11"
definition EINTR :: int where "EINTR = 4"
definition CMD_REQ_DISCONNECT :: u32 where "CMD_REQ_DISCONNECT = 19"
definition CMD_RSP_TELL_WORKER :: u32 where "CMD_RSP_TELL_WORKER = 10"

section \<open>The worker\<close>

type_synonym encoder = "msg_head \<Rightarrow> msg_body \<Rightarrow> cbuffer \<Rightarrow> (cbuffer \<times> codec_status) option"

record wenv =
  w_pb :: "msg_body protobuf"
  w_malloc :: allocator
  w_codec :: "codec_type \<Rightarrow> encoder option"
  os_close :: "nat \<Rightarrow> int option"
  os_socket :: "nat \<Rightarrow> int"
  os_send :: "nat \<Rightarrow> nat \<Rightarrow> int + nat"
  disconnect_so :: bool

text \<open>An entry of \<open>m_mapNodeIdentify\<close> is the iterator of the next worker and the set of workers.\<close>

record 's worker =
  m_ulSequence :: u32
  m_strNodeType :: string
  m_strHostForServer :: string
  m_strWorkerIdentify :: string
  m_iPortForServer :: int
  m_iManagerControlFd :: int
  m_iManagerDataFd :: int
  m_iWorkerIndex :: int
  m_uiNodeId :: u32
  m_iRecvNum :: int
  m_iRecvByte :: int
  m_iSendNum :: int
  m_iSendByte :: int
  m_mapFdAttr :: "(int, conn) stdmap"
  m_mapInnerFd :: "(int, u32) stdmap"
  m_mapSeq2WorkerIndex :: "(u32, int) stdmap"
  m_mapCallbackStep :: "(u32, 's) stdmap"
  m_mapHttpAttr :: "(int, u32 list) stdmap"
  m_mapMsgShell :: "(string, msg_shell) stdmap"
  m_mapIdentifyNodeType :: "(string, string) stdmap"
  m_mapNodeIdentify :: "(string, string option \<times> string stdset) stdmap"
  m_vecCenterIdentify :: "string list"
  m_calls :: nat
  m_wire :: "(msg_shell \<times> byte list) list"
  m_connects :: "(int \<times> string \<times> u16) list"
  m_notices :: "(msg_shell \<times> msg_head \<times> msg_body) list"

text \<open>A worker after \<open>Init\<close>, with the descriptors it inherited, its index, and from the configuration the
  node type, the address and the host and port of every center. A center has one worker.\<close>

definition center_identify :: "string \<times> string \<Rightarrow> string" where
  "center_identify c = fst c @ '':'' @ snd c @ ''.0''"

definition Init_worker :: "int \<Rightarrow> int \<Rightarrow> int \<Rightarrow> string \<Rightarrow> string \<Rightarrow> int \<Rightarrow> (string \<times> string) list \<Rightarrow> 's worker" where
  "Init_worker control data index ty host port centers =
     \<lparr>m_ulSequence = 0, m_strNodeType = ty, m_strHostForServer = host, m_strWorkerIdentify = [],
      m_iPortForServer = port, m_iManagerControlFd = control, m_iManagerDataFd = data, m_iWorkerIndex = index, m_uiNodeId = 0,
      m_iRecvNum = 0, m_iRecvByte = 0, m_iSendNum = 0, m_iSendByte = 0, m_mapFdAttr = [], m_mapInnerFd = [],
      m_mapSeq2WorkerIndex = [], m_mapCallbackStep = [], m_mapHttpAttr = [], m_mapMsgShell = [],
      m_mapIdentifyNodeType = [], m_mapNodeIdentify = [], m_vecCenterIdentify = map center_identify centers,
      m_calls = 0, m_wire = [], m_connects = [], m_notices = []\<rparr>"

definition GetSequence_worker :: "'s worker \<Rightarrow> 's worker \<times> u32" where
  "GetSequence_worker w =
     (let s = m_ulSequence w + 1; s = (if s = 0 then s + 1 else s) in (w\<lparr>m_ulSequence := s\<rparr>, s))"

definition fmt_identify :: "string \<Rightarrow> int \<Rightarrow> int \<Rightarrow> string" where
  "fmt_identify host port index = c_str host @ '':'' @ fmt_d port @ ''.'' @ fmt_d index"

definition GetWorkerIdentify :: "'s worker \<Rightarrow> 's worker \<times> string" where
  "GetWorkerIdentify w =
     (let w = (if m_strWorkerIdentify w = []
               then w\<lparr>m_strWorkerIdentify :=
                 snprintf 64 (fmt_identify (m_strHostForServer w) (m_iPortForServer w) (m_iWorkerIndex w))\<rparr>
               else w)
      in (w, m_strWorkerIdentify w))"

section \<open>The routing table\<close>

definition AddNodeIdentify :: "string \<Rightarrow> string \<Rightarrow> 's worker \<Rightarrow> 's worker" where
  "AddNodeIdentify strNodeType ident w =
     (if map_find ident (m_mapIdentifyNodeType w) \<noteq> None then w
      else let w = w\<lparr>m_mapIdentifyNodeType := map_put ident strNodeType (m_mapIdentifyNodeType w)\<rparr> in
           case map_find strNodeType (m_mapNodeIdentify w) of
             None \<Rightarrow>
               let s = set_put ident [] in
               w\<lparr>m_mapNodeIdentify := map_put strNodeType (set_begin s, s) (m_mapNodeIdentify w)\<rparr>
           | Some (it, s) \<Rightarrow>
               if ident \<in> set s then w
               else let s = set_put ident s in
                    w\<lparr>m_mapNodeIdentify := map_put strNodeType (set_begin s, s) (m_mapNodeIdentify w)\<rparr>)"

text \<open>The node type that is passed is not used; the one that was registered is.\<close>

definition DelNodeIdentify :: "string \<Rightarrow> string \<Rightarrow> 's worker \<Rightarrow> 's worker" where
  "DelNodeIdentify strNodeType ident w =
     (case map_find ident (m_mapIdentifyNodeType w) of None \<Rightarrow> w
      | Some ty \<Rightarrow>
          let w = (case map_find ty (m_mapNodeIdentify w) of None \<Rightarrow> w
                   | Some (it, s) \<Rightarrow>
                       if ident \<notin> set s then w
                       else let s = set_erase ident s in
                            w\<lparr>m_mapNodeIdentify := map_put ty (set_begin s, s) (m_mapNodeIdentify w)\<rparr>)
          in w\<lparr>m_mapIdentifyNodeType := map_erase ident (m_mapIdentifyNodeType w)\<rparr>)"

definition DelMsgShell :: "string \<Rightarrow> 's worker \<Rightarrow> 's worker" where
  "DelMsgShell ident w =
     fold (\<lambda>center w. if center = ident then DelNodeIdentify [] ident w else w) (m_vecCenterIdentify w)
       (w\<lparr>m_mapMsgShell := map_erase ident (m_mapMsgShell w)\<rparr>)"

section \<open>Events of a connection\<close>

definition upd_conn :: "int \<Rightarrow> (conn \<Rightarrow> conn) \<Rightarrow> 's worker \<Rightarrow> 's worker" where
  "upd_conn fd f w =
     (case map_find fd (m_mapFdAttr w) of None \<Rightarrow> w
      | Some c \<Rightarrow> w\<lparr>m_mapFdAttr := map_put fd (f c) (m_mapFdAttr w)\<rparr>)"

definition watch :: "bool \<Rightarrow> bool \<Rightarrow> conn \<Rightarrow> conn" where
  "watch r wr c =
     c\<lparr>pIoWatcher := Some (case pIoWatcher c of None \<Rightarrow> (r, wr) | Some (r', wr') \<Rightarrow> (r \<or> r', wr \<or> wr'))\<rparr>"

definition AddIoReadEvent :: "int \<Rightarrow> 's worker \<Rightarrow> 's worker \<times> bool" where
  "AddIoReadEvent fd w = (upd_conn fd (watch True False) w, True)"

definition AddIoWriteEvent :: "int \<Rightarrow> 's worker \<Rightarrow> 's worker \<times> bool" where
  "AddIoWriteEvent fd w = (upd_conn fd (watch False True) w, True)"

definition RemoveIoWriteEvent :: "int \<Rightarrow> 's worker \<Rightarrow> 's worker" where
  "RemoveIoWriteEvent fd w =
     upd_conn fd (\<lambda>c. case pIoWatcher c of None \<Rightarrow> c | Some (r, _) \<Rightarrow> c\<lparr>pIoWatcher := Some (r, False)\<rparr>) w"

definition AddIoTimeout :: "int \<Rightarrow> 's worker \<Rightarrow> 's worker \<times> bool" where
  "AddIoTimeout fd w = (upd_conn fd (\<lambda>c. c\<lparr>pTimeWatcher := True\<rparr>) w, True)"

section \<open>Creating and destroying connections\<close>

text \<open>\<open>pRemoteAddr\<close> is fresh memory of 32 bytes, \<open>None\<close> until something is written to it.\<close>

definition new_conn :: "u32 \<Rightarrow> codec_type \<Rightarrow> conn" where
  "new_conn sq ct =
     \<lparr>ucConnectStatus = 255, pRecvBuff = empty_cbuffer, pSendBuff = empty_cbuffer,
      pWaitForSendBuff = empty_cbuffer, pClientData = empty_cbuffer, pRemoteAddr = None, eCodecType = ct,
      ulSeq = sq, ulForeignSeq = 0, ulMsgNumUnitTime = 0, ulMsgNum = 0, strIdentify = [],
      pIoWatcher = None, pTimeWatcher = False, uiType = 0\<rparr>"

definition CreateFdAttr :: "wenv \<Rightarrow> int \<Rightarrow> u32 \<Rightarrow> codec_type \<Rightarrow> 's worker \<Rightarrow> 's worker \<times> bool" where
  "CreateFdAttr env fd sq ct w =
     (if map_find fd (m_mapFdAttr w) \<noteq> None then (w, False)
      else case w_malloc env 32 of None \<Rightarrow> (w, False)
           | Some _ \<Rightarrow> (w\<lparr>m_mapFdAttr := map_put fd (new_conn sq ct) (m_mapFdAttr w)\<rparr>, True))"

definition MsgShellNotice :: "wenv \<Rightarrow> msg_shell \<Rightarrow> string \<Rightarrow> cbuffer \<Rightarrow> 's worker \<Rightarrow> 's worker option" where
  "MsgShellNotice env sh ident data w =
     (if disconnect_so env
      then do {
        extra \<leftarrow> (if ReadableBytes data > 0 then map_option Some (ToString data) else Some None);
        let body = (plain_body (ascii ident))\<lparr>b_additional := extra\<rparr>;
        let (w, sq) = GetSequence_worker w;
        let head = \<lparr>h_cmd = CMD_REQ_DISCONNECT, h_msgbody_len = of_nat (length (ser_body (w_pb env) body)), h_seq = sq\<rparr>;
        Some (w\<lparr>m_notices := m_notices w @ [(sh, head, body)]\<rparr>)
      }
      else Some w)"

definition DestroyConnect :: "wenv \<Rightarrow> int \<Rightarrow> bool \<Rightarrow> 's worker \<Rightarrow> ('s worker \<times> bool) option" where
  "DestroyConnect env fd notice w =
     (case map_find fd (m_mapFdAttr w) of None \<Rightarrow> Some (w, False)
      | Some c \<Rightarrow>
          let r = os_close env (m_calls w); w = w\<lparr>m_calls := Suc (m_calls w)\<rparr> in
          if r \<noteq> None \<and> r \<noteq> Some EINTR then Some (w, False)
          else do {
            let w = w\<lparr>m_mapInnerFd := map_erase fd (m_mapInnerFd w), m_mapHttpAttr := map_erase fd (m_mapHttpAttr w)\<rparr>;
            let w = DelMsgShell (strIdentify c) w;
            w \<leftarrow> (if notice then MsgShellNotice env (fd, ulSeq c) (strIdentify c) (pClientData c) w else Some w);
            Some (w\<lparr>m_mapFdAttr := map_erase fd (m_mapFdAttr w)\<rparr>, True)
          })"

definition SetConnectIdentify :: "msg_shell \<Rightarrow> string \<Rightarrow> 's worker \<Rightarrow> 's worker \<times> bool" where
  "SetConnectIdentify sh ident w =
     (case map_find (fst sh) (m_mapFdAttr w) of None \<Rightarrow> (w, False)
      | Some c \<Rightarrow>
          if ulSeq c = snd sh then (upd_conn (fst sh) (\<lambda>c. c\<lparr>strIdentify := ident\<rparr>) w, True) else (w, False))"

text \<open>The shell is written through the iterator found before the old connection is destroyed, so
  the entry must still be there.\<close>

definition AddMsgShell :: "wenv \<Rightarrow> string \<Rightarrow> msg_shell \<Rightarrow> 's worker \<Rightarrow> ('s worker \<times> bool) option" where
  "AddMsgShell env ident sh w = do {
     w \<leftarrow> (case map_find ident (m_mapMsgShell w) of
            None \<Rightarrow> Some (w\<lparr>m_mapMsgShell := map_put ident sh (m_mapMsgShell w)\<rparr>)
          | Some old \<Rightarrow>
              if sh = old then Some w
              else do {
                let (w, self) = GetWorkerIdentify w;
                w \<leftarrow> (if self \<noteq> ident then map_option fst (DestroyConnect env (fst old) True w) else Some w);
                if map_find ident (m_mapMsgShell w) = None then None
                else Some (w\<lparr>m_mapMsgShell := map_put ident sh (m_mapMsgShell w)\<rparr>)
              });
     Some (fst (SetConnectIdentify sh ident w), True)
   }"

definition GetMsgShell :: "string \<Rightarrow> 's worker \<Rightarrow> msg_shell option" where
  "GetMsgShell ident w = map_find ident (m_mapMsgShell w)"

definition AddInnerFd :: "msg_shell \<Rightarrow> 's worker \<Rightarrow> 's worker" where
  "AddInnerFd sh w = w\<lparr>m_mapInnerFd := map_put (fst sh) (snd sh) (m_mapInnerFd w)\<rparr>"

definition Disconnect_shell :: "wenv \<Rightarrow> msg_shell \<Rightarrow> bool \<Rightarrow> 's worker \<Rightarrow> ('s worker \<times> bool) option" where
  "Disconnect_shell env sh notice w =
     (case map_find (fst sh) (m_mapFdAttr w) of None \<Rightarrow> Some (w, False)
      | Some c \<Rightarrow> if ulSeq c = snd sh then DestroyConnect env (fst sh) notice w else Some (w, False))"

definition Disconnect_identify :: "wenv \<Rightarrow> string \<Rightarrow> bool \<Rightarrow> 's worker \<Rightarrow> ('s worker \<times> bool) option" where
  "Disconnect_identify env ident notice w =
     (case map_find ident (m_mapMsgShell w) of None \<Rightarrow> Some (w, True)
      | Some sh \<Rightarrow> Disconnect_shell env sh notice w)"

definition AbandonConnect :: "string \<Rightarrow> 's worker \<Rightarrow> 's worker \<times> bool" where
  "AbandonConnect ident w =
     (case map_find ident (m_mapMsgShell w) of None \<Rightarrow> (w, False)
      | Some sh \<Rightarrow>
          (case map_find (fst sh) (m_mapFdAttr w) of None \<Rightarrow> (w, False)
           | Some c \<Rightarrow>
               if ulSeq c = snd sh
               then let w = upd_conn (fst sh) (\<lambda>c. c\<lparr>strIdentify := [], pClientData := Clear (pClientData c)\<rparr>) w
                    in (w\<lparr>m_mapMsgShell := map_erase ident (m_mapMsgShell w)\<rparr>, True)
               else (w, False)))"

section \<open>Data of a client\<close>

definition conn_of :: "msg_shell \<Rightarrow> 's worker \<Rightarrow> conn option" where
  "conn_of sh w =
     (case map_find (fst sh) (m_mapFdAttr w) of None \<Rightarrow> None | Some c \<Rightarrow> if ulSeq c = snd sh then Some c else None)"

definition SetClientData :: "wenv \<Rightarrow> msg_shell \<Rightarrow> cbuffer \<Rightarrow> 's worker \<Rightarrow> ('s worker \<times> cbuffer \<times> bool) option" where
  "SetClientData env sh buff w =
     (case conn_of sh w of None \<Rightarrow> Some (w, buff, False)
      | Some c \<Rightarrow>
          (case Write_unit (w_malloc env) (Some buff) (ReadableBytes buff) (pClientData c) of
             Some (b, Some buff', _) \<Rightarrow> Some (upd_conn (fst sh) (\<lambda>c. c\<lparr>pClientData := b\<rparr>) w, buff', True)
           | _ \<Rightarrow> None))"

definition HadClientData :: "msg_shell \<Rightarrow> 's worker \<Rightarrow> bool" where
  "HadClientData sh w = (case conn_of sh w of None \<Rightarrow> False | Some c \<Rightarrow> ReadableBytes (pClientData c) > 0)"

definition GetClientData :: "wenv \<Rightarrow> msg_shell \<Rightarrow> cbuffer \<Rightarrow> 's worker \<Rightarrow> (cbuffer \<times> bool) option" where
  "GetClientData env sh buff w =
     (case conn_of sh w of None \<Rightarrow> Some (buff, False)
      | Some c \<Rightarrow> do {
          xs \<leftarrow> ToString (pClientData c);
          (buff, _) \<leftarrow> Write (w_malloc env) xs buff;
          Some (buff, True)
        })"

definition GetClientAddr :: "msg_shell \<Rightarrow> 's worker \<Rightarrow> string option" where
  "GetClientAddr sh w = (case conn_of sh w of None \<Rightarrow> Some [] | Some c \<Rightarrow> pRemoteAddr c)"

definition SetClientType :: "msg_shell \<Rightarrow> u32 \<Rightarrow> 's worker \<Rightarrow> 's worker \<times> bool" where
  "SetClientType sh ty w =
     (case conn_of sh w of None \<Rightarrow> (w, False) | Some c \<Rightarrow> (upd_conn (fst sh) (\<lambda>c. c\<lparr>uiType := ty\<rparr>) w, True))"

definition GetClientType :: "msg_shell \<Rightarrow> 's worker \<Rightarrow> u32" where
  "GetClientType sh w = (case conn_of sh w of None \<Rightarrow> 0 | Some c \<Rightarrow> uiType c)"

end
