(* ===== verification/Worker_Send.thy ===== *)
theory Worker_Send
  imports Worker_State
begin

text \<open>
  Sending (\<open>OssWorker.cpp\<close>): to a connection, to a named worker with a connection opened on demand,
  and to the workers of a node type in turn, by modulus or to all of them.
\<close>

section \<open>Flushing the send buffer\<close>

text \<open>\<open>WriteFD\<close> and \<open>Compact(8192)\<close> on the send buffer; the result is the written length and the errno.\<close>

definition write_out :: "wenv \<Rightarrow> int \<Rightarrow> conn \<Rightarrow> 's worker \<Rightarrow> ('s worker \<times> int \<times> int option) option" where
  "write_out env fd c w =
     (let b = pSendBuff c; n = ReadableBytes b; (b', len, err) = WriteFD (os_send env (m_calls w) n) b;
          w = w\<lparr>m_calls := (if int_of_size n = 0 then m_calls w else Suc (m_calls w))\<rparr>
      in do {
        out \<leftarrow> (if len > 0 then map_option (\<lambda>xs. [((fd, ulSeq c), take (nat len) xs)]) (ToString b) else Some []);
        (b'', _) \<leftarrow> Compact (w_malloc env) 8192 b';
        Some (upd_conn fd (\<lambda>c. c\<lparr>pSendBuff := b''\<rparr>) (w\<lparr>m_wire := m_wire w @ out\<rparr>), len, err)
      })"

definition sent_bytes :: "int \<Rightarrow> int \<Rightarrow> int \<Rightarrow> 's worker \<Rightarrow> 's worker" where
  "sent_bytes fd need len w =
     (let w = w\<lparr>m_iSendByte := wrap32 (m_iSendByte w + len)\<rparr>
      in if len = need then RemoveIoWriteEvent fd w else fst (AddIoWriteEvent fd w))"

text \<open>\<open>SendTo(stMsgShell)\<close> moves what waits for the connection into the send buffer.\<close>

definition SendTo_shell :: "wenv \<Rightarrow> msg_shell \<Rightarrow> 's worker \<Rightarrow> ('s worker \<times> bool) option" where
  "SendTo_shell env sh w =
     (case conn_of sh w of None \<Rightarrow> Some (w, False)
      | Some c \<Rightarrow>
          let fd = fst sh; need = int_of_size (ReadableBytes (pWaitForSendBuff c)); idx = GetWriteIndex (pSendBuff c) in
          (case Write_unit (w_malloc env) (Some (pWaitForSendBuff c)) (ReadableBytes (pWaitForSendBuff c)) (pSendBuff c) of
             Some (send, Some wait, moved) \<Rightarrow>
               let c = c\<lparr>pSendBuff := send, pWaitForSendBuff := wait\<rparr>; w = upd_conn fd (\<lambda>_. c) w in
               if moved = need
               then do {
                 let need = int_of_size (ReadableBytes (pSendBuff c));
                 (w, len, err) \<leftarrow> write_out env fd c w;
                 if len < 0
                 then if err \<noteq> Some EAGAIN \<and> err \<noteq> Some EINTR
                      then map_option (\<lambda>(w, _). (w, False)) (DestroyConnect env fd True w)
                      else if err = Some EAGAIN then Some (fst (AddIoWriteEvent fd w), True)
                      else Some (w, True)
                 else if len > 0 then Some (sent_bytes fd need len w, True)
                 else Some (w, True)
               }
               else Some (upd_conn fd (\<lambda>c. c\<lparr>pSendBuff := SetWriteIndex idx (pSendBuff c)\<rparr>) w, False)
           | _ \<Rightarrow> None))"

definition encode_to :: "encoder \<Rightarrow> bool \<Rightarrow> msg_head \<Rightarrow> msg_body \<Rightarrow> int \<Rightarrow> conn \<Rightarrow> 's worker \<Rightarrow> ('s worker \<times> codec_status) option" where
  "encode_to enc waiting head body fd c w =
     map_option (\<lambda>(b, st).
       (upd_conn fd (\<lambda>c. if waiting then c\<lparr>pWaitForSendBuff := b\<rparr> else c\<lparr>pSendBuff := b\<rparr>) w, st))
       (enc head body (if waiting then pWaitForSendBuff c else pSendBuff c))"

text \<open>The end of \<open>SendTo(stMsgShell, oMsgHead, oMsgBody)\<close>, after the message was encoded.\<close>

definition send_encoded :: "wenv \<Rightarrow> int \<Rightarrow> 's worker \<Rightarrow> ('s worker \<times> bool) option" where
  "send_encoded env fd w = do {
     c \<leftarrow> map_find fd (m_mapFdAttr w);
     let w = w\<lparr>m_iSendNum := wrap32 (m_iSendNum w + 1)\<rparr>;
     let need = int_of_size (ReadableBytes (pSendBuff c));
     (w, len, err) \<leftarrow> write_out env fd c w;
     if len < 0
     then if err \<noteq> Some EAGAIN \<and> err \<noteq> Some EINTR
          then map_option (\<lambda>(w, _). (w, False)) (DestroyConnect env fd True w)
          else Some (fst (AddIoWriteEvent fd w), True)
     else if len > 0 then Some (sent_bytes fd need len w, True)
     else Some (w, True)
   }"

text \<open>While the connection is being set up only the messages of the set-up are sent, and whether they
  could be encoded is not looked at; the others wait.\<close>

definition SendTo_msg :: "wenv \<Rightarrow> msg_shell \<Rightarrow> msg_head \<Rightarrow> msg_body \<Rightarrow> 's worker \<Rightarrow> ('s worker \<times> bool) option" where
  "SendTo_msg env sh head body w =
     (case conn_of sh w of None \<Rightarrow> Some (w, False)
      | Some c \<Rightarrow>
          let fd = fst sh in
          (case w_codec env (eCodecType c) of
             None \<Rightarrow> map_option (\<lambda>(w, _). (w, False)) (DestroyConnect env fd True w)
           | Some enc \<Rightarrow>
               if unat (ucConnectStatus c) < unat CMD_RSP_TELL_WORKER
               then if h_cmd head \<le> CMD_RSP_TELL_WORKER
                    then do {
                      (w, _) \<leftarrow> encode_to enc False head body fd c w;
                      send_encoded env fd (upd_conn fd (\<lambda>c. c\<lparr>ucConnectStatus := ucast (h_cmd head)\<rparr>) w)
                    }
                    else map_option (\<lambda>(w, st). (w, st = CODEC_STATUS_OK)) (encode_to enc True head body fd c w)
               else do {
                 (w, st) \<leftarrow> encode_to enc False head body fd c w;
                 if st = CODEC_STATUS_OK then send_encoded env fd w else Some (w, False)
               }))"

section \<open>Connecting to a named worker\<close>

fun find_char :: "char \<Rightarrow> string \<Rightarrow> nat option" where
  "find_char c [] = None"
| "find_char c (x # xs) = (if x = c then Some 0 else map_option Suc (find_char c xs))"

text \<open>\<open>rfind\<close> stored in an \<open>int\<close>: -1 when the character does not occur.\<close>

definition rfind_char :: "char \<Rightarrow> string \<Rightarrow> int" where
  "rfind_char c s = (case find_char c (rev s) of None \<Rightarrow> -1 | Some i \<Rightarrow> int (length s) - 1 - int i)"

definition substr :: "string \<Rightarrow> nat \<Rightarrow> int \<Rightarrow> string" where
  "substr s pos n = (if n < 0 then drop pos s else take (nat n) (drop pos s))"

text \<open>Host, port and worker index of \<open>host:port.index\<close>, as the connecting functions read them.\<close>

definition parse_identify :: "string \<Rightarrow> (string \<times> int \<times> int) option" where
  "parse_identify ident =
     (case find_char (CHR '':'') ident of None \<Rightarrow> None
      | Some p \<Rightarrow>
          let d = rfind_char (CHR ''.'') ident;
              port = atoi (substr ident (p + 1) (d - int (p + 1)));
              index = atoi (drop (nat (d + 1)) ident)
          in if port = 0 \<or> index > 200 then None else Some (take p ident, port, index))"

definition open_socket :: "wenv \<Rightarrow> 's worker \<Rightarrow> 's worker \<times> int" where
  "open_socket env w = (w\<lparr>m_calls := Suc (m_calls w)\<rparr>, os_socket env (m_calls w))"

definition AutoSend :: "wenv \<Rightarrow> string \<Rightarrow> msg_head \<Rightarrow> msg_body \<Rightarrow> 's worker \<Rightarrow> ('s worker \<times> bool) option" where
  "AutoSend env ident head body w =
     (case parse_identify ident of None \<Rightarrow> Some (w, False)
      | Some (host, port, index) \<Rightarrow>
          let (w, fd) = open_socket env w in
          if fd = -1 then Some (w, False)
          else
            let (w, sq) = GetSequence_worker w; (w, ok) = CreateFdAttr env fd sq CODEC_PROTOBUF w in
            if \<not> ok then Some (w\<lparr>m_calls := Suc (m_calls w)\<rparr>, False)
            else if CHR ''%'' \<in> set (c_str ident) then None
            else
              let w = upd_conn fd (\<lambda>c. c\<lparr>pRemoteAddr := Some (snprintf 32 (c_str ident))\<rparr>) w;
                  (w, timed) = AddIoTimeout fd w
              in if \<not> timed then map_option (\<lambda>(w, _). (w, False)) (DestroyConnect env fd True w)
                 else
                   let w = upd_conn fd (\<lambda>c. c\<lparr>ucConnectStatus := 0\<rparr>) w; (w, r) = AddIoReadEvent fd w in
                   if \<not> r then map_option (\<lambda>(w, _). (w, False)) (DestroyConnect env fd True w)
                   else let (w, wr) = AddIoWriteEvent fd w in
                     if \<not> wr then map_option (\<lambda>(w, _). (w, False)) (DestroyConnect env fd True w)
                     else do {
                       c \<leftarrow> map_find fd (m_mapFdAttr w);
                       case w_codec env (eCodecType c) of
                         None \<Rightarrow> map_option (\<lambda>(w, _). (w, False)) (DestroyConnect env fd True w)
                       | Some enc \<Rightarrow> do {
                           (w, st) \<leftarrow> encode_to enc True head body fd c w;
                           if st \<noteq> CODEC_STATUS_OK then Some (w, False)
                           else do {
                             let w = w\<lparr>m_iSendNum := wrap32 (m_iSendNum w + 1),
                                       m_mapSeq2WorkerIndex := map_insert sq index (m_mapSeq2WorkerIndex w)\<rparr>;
                             (w, _) \<leftarrow> AddMsgShell env ident (fd, sq) w;
                             Some (w\<lparr>m_connects := m_connects w @ [(fd, host, of_int port)]\<rparr>, True)
                           }
                         }
                     })"

definition AutoConnect :: "wenv \<Rightarrow> string \<Rightarrow> 's worker \<Rightarrow> ('s worker \<times> bool) option" where
  "AutoConnect env ident w =
     (case parse_identify ident of None \<Rightarrow> Some (w, False)
      | Some (host, port, index) \<Rightarrow>
          let (w, fd) = open_socket env w in
          if fd = -1 then Some (w, False)
          else
            let (w, sq) = GetSequence_worker w; (w, ok) = CreateFdAttr env fd sq CODEC_PROTOBUF w in
            if \<not> ok then Some (w\<lparr>m_calls := Suc (m_calls w)\<rparr>, False)
            else
              let (w, timed) = AddIoTimeout fd w in
              if \<not> timed then map_option (\<lambda>(w, _). (w, False)) (DestroyConnect env fd True w)
              else
                let w = upd_conn fd (\<lambda>c. c\<lparr>ucConnectStatus := 0\<rparr>) w; (w, r) = AddIoReadEvent fd w in
                if \<not> r then map_option (\<lambda>(w, _). (w, False)) (DestroyConnect env fd True w)
                else let (w, wr) = AddIoWriteEvent fd w in
                  if \<not> wr then map_option (\<lambda>(w, _). (w, False)) (DestroyConnect env fd True w)
                  else do {
                    let w = w\<lparr>m_mapSeq2WorkerIndex := map_insert sq index (m_mapSeq2WorkerIndex w)\<rparr>;
                    (w, _) \<leftarrow> AddMsgShell env ident (fd, sq) w;
                    Some (w\<lparr>m_connects := m_connects w @ [(fd, host, of_int port)]\<rparr>, True)
                  })"

definition SendTo_identify :: "wenv \<Rightarrow> string \<Rightarrow> msg_head \<Rightarrow> msg_body \<Rightarrow> 's worker \<Rightarrow> ('s worker \<times> bool) option" where
  "SendTo_identify env ident head body w =
     (case map_find ident (m_mapMsgShell w) of
        None \<Rightarrow> AutoSend env ident head body w
      | Some sh \<Rightarrow> SendTo_msg env sh head body w)"

section \<open>Sending to a node type\<close>

definition SendToNext :: "wenv \<Rightarrow> string \<Rightarrow> msg_head \<Rightarrow> msg_body \<Rightarrow> 's worker \<Rightarrow> ('s worker \<times> bool) option" where
  "SendToNext env ty head body w =
     (case map_find ty (m_mapNodeIdentify w) of None \<Rightarrow> Some (w, False)
      | Some (Some x, s) \<Rightarrow>
          if x \<notin> set s then None
          else SendTo_identify env x head body (w\<lparr>m_mapNodeIdentify := map_put ty (set_next x s, s) (m_mapNodeIdentify w)\<rparr>)
      | Some (None, s) \<Rightarrow>
          (case set_begin s of None \<Rightarrow> Some (w, False)
           | Some x \<Rightarrow>
               SendTo_identify env x head body (w\<lparr>m_mapNodeIdentify := map_put ty (set_next x s, s) (m_mapNodeIdentify w)\<rparr>)))"

definition SendToWithMod :: "wenv \<Rightarrow> string \<Rightarrow> u32 \<Rightarrow> msg_head \<Rightarrow> msg_body \<Rightarrow> 's worker \<Rightarrow> ('s worker \<times> bool) option" where
  "SendToWithMod env ty uiModFactor head body w =
     (case map_find ty (m_mapNodeIdentify w) of None \<Rightarrow> Some (w, False)
      | Some (it, s) \<Rightarrow>
          if s = [] then Some (w, False)
          else SendTo_identify env (s ! (unat uiModFactor mod length s)) head body w)"

text \<open>The loop over the set. A send that fails may remove workers from the set, and the iterator is
  lost when it removes the one it stands on.\<close>

fun send_all :: "wenv \<Rightarrow> string \<Rightarrow> msg_head \<Rightarrow> msg_body \<Rightarrow> string list \<Rightarrow> nat \<Rightarrow> 's worker \<Rightarrow> ('s worker \<times> nat) option" where
  "send_all env ty head body [] n w = Some (w, n)"
| "send_all env ty head body (x # xs) n w =
     (case map_find ty (m_mapNodeIdentify w) of None \<Rightarrow> None
      | Some (_, s) \<Rightarrow>
          if x \<notin> set s then send_all env ty head body xs n w
          else
            let (w, self) = GetWorkerIdentify w in
            (case (if x \<noteq> self then map_option fst (SendTo_identify env x head body w) else Some w) of
               None \<Rightarrow> None
             | Some w \<Rightarrow>
                 (case map_find ty (m_mapNodeIdentify w) of None \<Rightarrow> None
                  | Some (_, s) \<Rightarrow> if x \<notin> set s then None else send_all env ty head body xs (Suc n) w)))"

definition SendToNodeType :: "wenv \<Rightarrow> string \<Rightarrow> msg_head \<Rightarrow> msg_body \<Rightarrow> 's worker \<Rightarrow> ('s worker \<times> bool) option" where
  "SendToNodeType env ty head body w =
     (case map_find ty (m_mapNodeIdentify w) of None \<Rightarrow> Some (w, False)
      | Some (it, s) \<Rightarrow> map_option (\<lambda>(w, n). (w, n \<noteq> 0)) (send_all env ty head body s 0 w))"

section \<open>Accepting a connection from the manager\<close>

text \<open>\<open>FdTransfer\<close> when a descriptor with the peer's address and codec arrived; the address, of at
  most 15 characters, is used as a format string.\<close>

definition FdTransfer :: "wenv \<Rightarrow> int \<Rightarrow> string \<Rightarrow> codec_type \<Rightarrow> 's worker \<Rightarrow> ('s worker \<times> bool) option" where
  "FdTransfer env fd ip ct w =
     (let (w, sq) = GetSequence_worker w; (w, ok) = CreateFdAttr env fd sq ct w in
      if \<not> ok then Some (w\<lparr>m_calls := Suc (m_calls w)\<rparr>, False)
      else if CHR ''%'' \<in> set (c_str ip) then None
      else
        let w = upd_conn fd (\<lambda>c. c\<lparr>pRemoteAddr := Some (snprintf 32 (c_str ip))\<rparr>) w;
            (w, timed) = AddIoTimeout fd w
        in if \<not> timed then map_option (\<lambda>(w, _). (w, False)) (DestroyConnect env fd True w)
           else let (w, r) = AddIoReadEvent fd w in
             if \<not> r then map_option (\<lambda>(w, _). (w, False)) (DestroyConnect env fd True w) else Some (w, True))"

end
