(* ===== verification/Worker_Route.thy ===== *)
theory Worker_Route
  imports Worker_Send
begin

text \<open>
  The routing table of a worker: its two maps agree, and an abstract map from workers to node types
  says what \<open>AddNodeIdentify\<close> and \<open>DelNodeIdentify\<close> do. Every other operation changes the table at
  most by dropping workers of the center, which \<open>DelMsgShell\<close> does when their connection breaks.
\<close>

section \<open>The abstract table\<close>

definition route_of :: "'s worker \<Rightarrow> string \<rightharpoonup> string" where
  "route_of w = (\<lambda>ident. map_find ident (m_mapIdentifyNodeType w))"

definition workers :: "string \<Rightarrow> 's worker \<Rightarrow> string stdset" where
  "workers ty w = (case map_find ty (m_mapNodeIdentify w) of None \<Rightarrow> [] | Some (_, s) \<Rightarrow> s)"

definition turn :: "string \<Rightarrow> 's worker \<Rightarrow> string option" where
  "turn ty w = (case map_find ty (m_mapNodeIdentify w) of None \<Rightarrow> None | Some (it, _) \<Rightarrow> it)"

definition routing_ok :: "'s worker \<Rightarrow> bool" where
  "routing_ok w \<longleftrightarrow>
     map_ok (m_mapIdentifyNodeType w) \<and> map_ok (m_mapNodeIdentify w) \<and>
     (\<forall>ty. set_ok (workers ty w) \<and> stdset.valid (workers ty w) (turn ty w) \<and>
       set (workers ty w) = {ident. route_of w ident = Some ty})"

definition route_view :: "'s worker \<Rightarrow> (string, string) stdmap \<times> (string, string option \<times> string stdset) stdmap \<times> string list" where
  "route_view w = (m_mapIdentifyNodeType w, m_mapNodeIdentify w, m_vecCenterIdentify w)"

lemma route_view_simps [simp]:
  "route_view (w\<lparr>m_ulSequence := a\<rparr>) = route_view w" "route_view (w\<lparr>m_strWorkerIdentify := b\<rparr>) = route_view w"
  "route_view (w\<lparr>m_iSendNum := c\<rparr>) = route_view w" "route_view (w\<lparr>m_iSendByte := c\<rparr>) = route_view w"
  "route_view (w\<lparr>m_mapFdAttr := d\<rparr>) = route_view w" "route_view (w\<lparr>m_mapInnerFd := e\<rparr>) = route_view w"
  "route_view (w\<lparr>m_mapSeq2WorkerIndex := f\<rparr>) = route_view w" "route_view (w\<lparr>m_mapHttpAttr := g\<rparr>) = route_view w"
  "route_view (w\<lparr>m_mapMsgShell := h\<rparr>) = route_view w" "route_view (w\<lparr>m_calls := i\<rparr>) = route_view w"
  "route_view (w\<lparr>m_wire := j\<rparr>) = route_view w" "route_view (w\<lparr>m_connects := k\<rparr>) = route_view w"
  "route_view (w\<lparr>m_notices := l\<rparr>) = route_view w" "route_view (w\<lparr>m_mapCallbackStep := m\<rparr>) = route_view w"
  "route_view (w\<lparr>m_iRecvNum := c\<rparr>) = route_view w" "route_view (w\<lparr>m_iRecvByte := c\<rparr>) = route_view w"
  "route_view (w\<lparr>m_uiNodeId := a\<rparr>) = route_view w"
  by (simp_all add: route_view_def)

lemma route_viewD:
  assumes "route_view w = route_view w'"
  shows "route_of w = route_of w'" "workers ty w = workers ty w'" "turn ty w = turn ty w'"
    "m_vecCenterIdentify w = m_vecCenterIdentify w'" "routing_ok w = routing_ok w'"
    "m_mapNodeIdentify w = m_mapNodeIdentify w'"
  using assms by (auto simp: route_view_def route_of_def workers_def turn_def routing_ok_def)

lemma routing_okD:
  assumes "routing_ok w"
  shows "set_ok (workers ty w)" "stdset.valid (workers ty w) (turn ty w)"
    "ident \<in> set (workers ty w) \<longleftrightarrow> route_of w ident = Some ty"
    "map_ok (m_mapIdentifyNodeType w)" "map_ok (m_mapNodeIdentify w)"
  using assms by (auto simp: routing_ok_def)

section \<open>Adding and removing workers\<close>

text \<open>Both operations write one entry of each map.\<close>

lemma workers_put:
  "map_ok (m_mapNodeIdentify w) \<Longrightarrow>
     workers ty' (w\<lparr>m_mapNodeIdentify := map_put ty (it, s) (m_mapNodeIdentify w)\<rparr>) = (if ty' = ty then s else workers ty' w)"
  "map_ok (m_mapNodeIdentify w) \<Longrightarrow>
     turn ty' (w\<lparr>m_mapNodeIdentify := map_put ty (it, s) (m_mapNodeIdentify w)\<rparr>) = (if ty' = ty then it else turn ty' w)"
  by (simp_all add: workers_def turn_def map_find_put)

lemma workers_ident [simp]:
  "workers ty (w\<lparr>m_mapIdentifyNodeType := m\<rparr>) = workers ty w" "turn ty (w\<lparr>m_mapIdentifyNodeType := m\<rparr>) = turn ty w"
  by (simp_all add: workers_def turn_def)

lemma AddNodeIdentify_fields:
  assumes "routing_ok w"
  shows "route_of (AddNodeIdentify ty ident w) = (if route_of w ident = None then (route_of w)(ident \<mapsto> ty) else route_of w)"
    and "workers ty' (AddNodeIdentify ty ident w) =
      (if route_of w ident = None \<and> ty' = ty then set_put ident (workers ty w) else workers ty' w)"
    and "turn ty' (AddNodeIdentify ty ident w) =
      (if route_of w ident = None \<and> ty' = ty then set_begin (set_put ident (workers ty w)) else turn ty' w)"
    and "m_vecCenterIdentify (AddNodeIdentify ty ident w) = m_vecCenterIdentify w"
    and "map_ok (m_mapIdentifyNodeType (AddNodeIdentify ty ident w)) \<and> map_ok (m_mapNodeIdentify (AddNodeIdentify ty ident w))"
proof -
  note ok = routing_okD [OF assms]
  show "route_of (AddNodeIdentify ty ident w) = (if route_of w ident = None then (route_of w)(ident \<mapsto> ty) else route_of w)"
    using ok(4) by (auto simp: AddNodeIdentify_def route_of_def map_find_put Let_def split: option.split)
  have new: "ident \<notin> set (workers ty w)" if "route_of w ident = None" using ok(3) [of ident ty] that by simp
  show "workers ty' (AddNodeIdentify ty ident w) =
      (if route_of w ident = None \<and> ty' = ty then set_put ident (workers ty w) else workers ty' w)"
    using ok(5) new by (auto simp: AddNodeIdentify_def route_of_def workers_def map_find_put Let_def split: option.splits)
  show "turn ty' (AddNodeIdentify ty ident w) =
      (if route_of w ident = None \<and> ty' = ty then set_begin (set_put ident (workers ty w)) else turn ty' w)"
    using ok(5) new by (auto simp: AddNodeIdentify_def route_of_def workers_def turn_def map_find_put Let_def split: option.splits)
  show "m_vecCenterIdentify (AddNodeIdentify ty ident w) = m_vecCenterIdentify w"
    by (auto simp: AddNodeIdentify_def Let_def split: option.split)
  show "map_ok (m_mapIdentifyNodeType (AddNodeIdentify ty ident w)) \<and> map_ok (m_mapNodeIdentify (AddNodeIdentify ty ident w))"
    using ok(4,5) by (auto simp: AddNodeIdentify_def Let_def map_put_ok split: option.split)
qed

lemma DelNodeIdentify_None: "route_of w ident = None \<Longrightarrow> DelNodeIdentify ty ident w = w"
  by (simp add: DelNodeIdentify_def route_of_def)

lemma DelNodeIdentify_Some:
  assumes "routing_ok w" "route_of w ident = Some t"
  shows "DelNodeIdentify ty ident w =
    w\<lparr>m_mapNodeIdentify := map_put t (set_begin (set_erase ident (workers t w)), set_erase ident (workers t w)) (m_mapNodeIdentify w),
      m_mapIdentifyNodeType := map_erase ident (m_mapIdentifyNodeType w)\<rparr>"
proof -
  have "ident \<in> set (workers t w)" using routing_okD(3) assms by blast
  then obtain it s where "map_find t (m_mapNodeIdentify w) = Some (it, s)" "ident \<in> set s"
    by (cases "map_find t (m_mapNodeIdentify w)") (auto simp: workers_def)
  then show ?thesis using assms(2) by (simp add: DelNodeIdentify_def route_of_def workers_def Let_def)
qed

lemma DelNodeIdentify_fields:
  assumes "routing_ok w"
  shows "route_of (DelNodeIdentify ty ident w) = (route_of w)(ident := None)"
    and "workers ty' (DelNodeIdentify ty ident w) =
      (if route_of w ident = Some ty' then set_erase ident (workers ty' w) else workers ty' w)"
    and "turn ty' (DelNodeIdentify ty ident w) =
      (if route_of w ident = Some ty' then set_begin (set_erase ident (workers ty' w)) else turn ty' w)"
    and "m_vecCenterIdentify (DelNodeIdentify ty ident w) = m_vecCenterIdentify w"
    and "map_ok (m_mapIdentifyNodeType (DelNodeIdentify ty ident w)) \<and> map_ok (m_mapNodeIdentify (DelNodeIdentify ty ident w))"
proof -
  note ok = routing_okD [OF assms]
  show "route_of (DelNodeIdentify ty ident w) = (route_of w)(ident := None)"
    by (auto simp: DelNodeIdentify_def route_of_def map_find_erase Let_def fun_eq_iff split: option.split)
  show "m_vecCenterIdentify (DelNodeIdentify ty ident w) = m_vecCenterIdentify w"
    by (auto simp: DelNodeIdentify_def Let_def split: option.split)
  show "workers ty' (DelNodeIdentify ty ident w) =
      (if route_of w ident = Some ty' then set_erase ident (workers ty' w) else workers ty' w)"
    using ok(5) by (cases "route_of w ident") (auto simp: DelNodeIdentify_None DelNodeIdentify_Some [OF assms] workers_put)
  show "turn ty' (DelNodeIdentify ty ident w) =
      (if route_of w ident = Some ty' then set_begin (set_erase ident (workers ty' w)) else turn ty' w)"
    using ok(5) by (cases "route_of w ident") (auto simp: DelNodeIdentify_None DelNodeIdentify_Some [OF assms] workers_put)
  show "map_ok (m_mapIdentifyNodeType (DelNodeIdentify ty ident w)) \<and> map_ok (m_mapNodeIdentify (DelNodeIdentify ty ident w))"
    using ok(4,5) by (cases "route_of w ident")
      (auto simp: DelNodeIdentify_None DelNodeIdentify_Some [OF assms] map_put_ok map_erase_ok)
qed

lemma routing_ok_Add [simp]:
  assumes "routing_ok w"
  shows "routing_ok (AddNodeIdentify ty ident w)"
proof -
  note f = AddNodeIdentify_fields [OF assms, where ty = ty and ident = ident] and ok = routing_okD [OF assms]
  show ?thesis
    unfolding routing_ok_def f(1,2,3)
    using f(5) ok(1,2,3) by (auto simp: set_put_ok set_set_put stdset.valid_first)
qed

lemma routing_ok_Del [simp]:
  assumes "routing_ok w"
  shows "routing_ok (DelNodeIdentify ty ident w)"
proof -
  note f = DelNodeIdentify_fields [OF assms, where ty = ty and ident = ident] and ok = routing_okD [OF assms]
  show ?thesis
    unfolding routing_ok_def f(1,2,3)
    using f(5) ok(1,2,3) by (auto simp: set_erase_ok set_set_erase stdset.valid_first)
qed

section \<open>What the other operations do to the table\<close>

lemma route_view_Del_cong:
  "route_view w = route_view v \<Longrightarrow> route_view (DelNodeIdentify ty ident w) = route_view (DelNodeIdentify ty ident v)"
  by (auto simp: route_view_def DelNodeIdentify_def Let_def split: option.split)

lemma route_view_fold_cong:
  "route_view w = route_view v \<Longrightarrow>
     route_view (fold (DelNodeIdentify []) ids w) = route_view (fold (DelNodeIdentify []) ids v)"
  by (induction ids arbitrary: w v) (auto intro: route_view_Del_cong)

lemma centers_Del [simp]: "m_vecCenterIdentify (DelNodeIdentify ty ident w) = m_vecCenterIdentify w"
  by (auto simp: DelNodeIdentify_def Let_def split: option.split)

lemma centers_fold [simp]: "m_vecCenterIdentify (fold (DelNodeIdentify []) ids w) = m_vecCenterIdentify w"
  by (induction ids arbitrary: w) auto

definition pruned :: "'s worker \<Rightarrow> 's worker \<Rightarrow> bool" where
  "pruned w w' \<longleftrightarrow>
     (\<exists>ids. set ids \<subseteq> set (m_vecCenterIdentify w) \<and> route_view w' = route_view (fold (DelNodeIdentify []) ids w))"

lemma pruned_frame: "route_view w' = route_view w \<Longrightarrow> pruned w w'"
  unfolding pruned_def by (rule exI [of _ "[]"]) simp

lemma pruned_refl [simp]: "pruned w w"
  by (simp add: pruned_frame)

lemma pruned_centers: "pruned w w' \<Longrightarrow> m_vecCenterIdentify w' = m_vecCenterIdentify w"
  unfolding pruned_def by (metis route_viewD(4) centers_fold)

lemma pruned_trans [trans]:
  assumes "pruned u v" "pruned v w"
  shows "pruned u w"
proof -
  from assms obtain us vs where
    "set us \<subseteq> set (m_vecCenterIdentify u)" "route_view v = route_view (fold (DelNodeIdentify []) us u)"
    "set vs \<subseteq> set (m_vecCenterIdentify v)" "route_view w = route_view (fold (DelNodeIdentify []) vs v)"
    by (auto simp: pruned_def)
  moreover from this have "route_view w = route_view (fold (DelNodeIdentify []) (us @ vs) u)"
    using route_view_fold_cong by (metis fold_append comp_apply)
  ultimately show ?thesis
    using pruned_centers [OF assms(1)] unfolding pruned_def by (intro exI [of _ "us @ vs"]) auto
qed

lemma fold_Del:
  assumes "routing_ok w"
  shows "routing_ok (fold (DelNodeIdentify []) ids w)"
    and "(\<forall>i \<in> set ids. route_of w i \<noteq> Some ty) \<Longrightarrow>
      workers ty (fold (DelNodeIdentify []) ids w) = workers ty w \<and> turn ty (fold (DelNodeIdentify []) ids w) = turn ty w"
  using assms by (induction ids arbitrary: w) (auto simp: DelNodeIdentify_fields)

lemma pruned_ok: "pruned w w' \<Longrightarrow> routing_ok w \<Longrightarrow> routing_ok w'"
  unfolding pruned_def using fold_Del(1) route_viewD(5) by blast

text \<open>A node type that no center belongs to keeps its workers and its turn.\<close>

definition no_center :: "string \<Rightarrow> 's worker \<Rightarrow> bool" where
  "no_center ty w \<longleftrightarrow> (\<forall>c \<in> set (m_vecCenterIdentify w). route_of w c \<noteq> Some ty)"

lemma pruned_workers:
  assumes "pruned w w'" "routing_ok w" "no_center ty w"
  shows "workers ty w' = workers ty w" "turn ty w' = turn ty w" "no_center ty w'"
proof -
  obtain ids where ids: "set ids \<subseteq> set (m_vecCenterIdentify w)" "route_view w' = route_view (fold (DelNodeIdentify []) ids w)"
    using assms(1) by (auto simp: pruned_def)
  have "\<forall>i \<in> set ids. route_of w i \<noteq> Some ty" using ids(1) assms(3) by (auto simp: no_center_def)
  then show same: "workers ty w' = workers ty w" "turn ty w' = turn ty w"
    using fold_Del(2) [OF assms(2), of ids ty] route_viewD(2,3) [OF ids(2)] by auto
  have "route_of w' c = Some ty \<longleftrightarrow> route_of w c = Some ty" for c
    using routing_okD(3) [OF assms(2), of c ty] routing_okD(3) [OF pruned_ok [OF assms(1,2)], of c ty] same by simp
  then show "no_center ty w'" using assms(3) pruned_centers [OF assms(1)] by (simp add: no_center_def)
qed

lemma pruned_DelMsgShell:
  fixes w :: "'s worker"
  shows "pruned w (DelMsgShell ident w)"
proof -
  have "pruned w (fold (\<lambda>center w. if center = ident then DelNodeIdentify [] ident w else w) cs v)"
    if "set cs \<subseteq> set (m_vecCenterIdentify w)" "pruned w v" for cs and v :: "'s worker"
    using that
  proof (induction cs arbitrary: v)
    case (Cons c cs)
    have "pruned v (DelNodeIdentify [] ident v)" if "c = ident"
      unfolding pruned_def using that Cons.prems pruned_centers [OF Cons.prems(2)] by (intro exI [of _ "[ident]"]) auto
    then show ?case using Cons by (auto intro: pruned_trans)
  qed simp
  then show ?thesis unfolding DelMsgShell_def by (simp add: pruned_frame)
qed

lemma view_steps:
  "GetSequence_worker w = (w', sq) \<Longrightarrow> route_view w' = route_view w"
  "GetWorkerIdentify w = (w', self) \<Longrightarrow> route_view w' = route_view w"
  "CreateFdAttr env fd sq ct w = (w', b) \<Longrightarrow> route_view w' = route_view w"
  "SetConnectIdentify sh ident w = (w', b) \<Longrightarrow> route_view w' = route_view w"
  "open_socket env w = (w', fd) \<Longrightarrow> route_view w' = route_view w"
  "AddIoReadEvent fd w = (w', b) \<Longrightarrow> route_view w' = route_view w"
  "AddIoWriteEvent fd w = (w', b) \<Longrightarrow> route_view w' = route_view w"
  "AddIoTimeout fd w = (w', b) \<Longrightarrow> route_view w' = route_view w"
  by (auto simp: GetSequence_worker_def GetWorkerIdentify_def CreateFdAttr_def SetConnectIdentify_def open_socket_def
      AddIoReadEvent_def AddIoWriteEvent_def AddIoTimeout_def upd_conn_def Let_def split: if_splits option.splits)

lemma view_upd_conn [simp]: "route_view (upd_conn fd f w) = route_view w"
  by (simp add: upd_conn_def split: option.split)

lemma view_fst [simp]:
  "route_view (fst (AddIoWriteEvent fd w)) = route_view w" "route_view (fst (SetConnectIdentify sh ident w)) = route_view w"
  "route_view (sent_bytes fd need len w) = route_view w"
  by (simp_all add: AddIoWriteEvent_def SetConnectIdentify_def sent_bytes_def RemoveIoWriteEvent_def Let_def split: option.split)

lemma view_write_out: "write_out env fd c w = Some (w', len, err) \<Longrightarrow> route_view w' = route_view w"
  by (auto simp: write_out_def Let_def bind_eq_Some_conv split: prod.splits if_splits)

lemma view_encode_to: "encode_to enc wait head body fd c w = Some (w', st) \<Longrightarrow> route_view w' = route_view w"
  by (auto simp: encode_to_def)

lemma view_MsgShellNotice: "MsgShellNotice env sh ident data w = Some w' \<Longrightarrow> route_view w' = route_view w"
  by (cases "GetSequence_worker w") (auto simp: MsgShellNotice_def bind_eq_Some_conv Let_def split: if_splits dest: view_steps)

lemma pruned_view: "pruned w v \<Longrightarrow> route_view w' = route_view v \<Longrightarrow> pruned w w'"
  by (simp add: pruned_def)

lemma pruned_view_left: "pruned v w' \<Longrightarrow> route_view v = route_view w \<Longrightarrow> pruned w w'"
  using pruned_trans pruned_frame by blast

text \<open>The other operations, each as a postcondition relative to a worker \<open>u\<close> it was pruned from.\<close>

lemma pruned_cong: "route_view w' = route_view w \<Longrightarrow> pruned u w' = pruned u w"
  by (simp add: pruned_def)

lemmas pruned_simps [simp] =
  route_view_simps [THEN pruned_cong] view_upd_conn [THEN pruned_cong] view_fst [THEN pruned_cong]

lemma pruned_Del: "pruned u w \<Longrightarrow> pruned u (DelMsgShell ident w)"
  using pruned_DelMsgShell pruned_trans by blast

lemmas pruned_dests = view_steps [THEN pruned_cong] view_write_out [THEN pruned_cong]
  view_encode_to [THEN pruned_cong] view_MsgShellNotice [THEN pruned_cong]

lemma pruned_DestroyConnect:
  "pruned u w \<Longrightarrow> post (\<lambda>(w', b). pruned u w') (DestroyConnect env fd notice w)"
  unfolding DestroyConnect_def Let_def
  by (intro branches) (auto simp: pruned_Del dest!: pruned_dests [where u = u] split: if_splits)

lemma pruned_AddMsgShell:
  "pruned u w \<Longrightarrow> post (\<lambda>(w', b). pruned u w') (AddMsgShell env ident sh w)"
  unfolding AddMsgShell_def Let_def
  apply (rule post_bind_via [where Q = "pruned u"])
   apply (intro post_option post_Some post_if post_prod)
     apply (auto) [2]
   apply (rule post_bind_via [where Q = "pruned u"])
    apply (intro post_if post_map_via post_Some)
     apply (rule post_mono [OF pruned_DestroyConnect])
      apply (auto dest: pruned_dests [where u = u] intro!: post_if post_None post_Some)
  done

lemma pruned_Destroy_map:
  "pruned u w \<Longrightarrow> post (\<lambda>(w', b). pruned u w') (map_option (\<lambda>(w, _). (w, c)) (DestroyConnect env fd notice w))"
  by (rule post_map_via, rule post_mono [OF pruned_DestroyConnect]) auto

lemma pruned_SendTo_shell:
  "pruned u w \<Longrightarrow> post (\<lambda>(w', b). pruned u w') (SendTo_shell env sh w)"
  unfolding SendTo_shell_def Let_def
  by (intro branches pruned_Destroy_map) (auto dest: pruned_dests [where u = u])

lemma pruned_send_encoded:
  "pruned u w \<Longrightarrow> post (\<lambda>(w', b). pruned u w') (send_encoded env fd w)"
  unfolding send_encoded_def Let_def
  by (intro branches pruned_Destroy_map) (auto dest: pruned_dests [where u = u])

lemma pruned_SendTo_msg:
  "pruned u w \<Longrightarrow> post (\<lambda>(w', b). pruned u w') (SendTo_msg env sh head body w)"
  unfolding SendTo_msg_def Let_def
  by (intro branches pruned_Destroy_map pruned_send_encoded) (auto dest: pruned_dests [where u = u])

lemma pruned_calls:
  "DestroyConnect env fd notice w = Some (w', b) \<Longrightarrow> pruned u w \<Longrightarrow> pruned u w'"
  "AddMsgShell env ident sh w = Some (w', b) \<Longrightarrow> pruned u w \<Longrightarrow> pruned u w'"
  using postD [OF pruned_DestroyConnect] postD [OF pruned_AddMsgShell] by blast+

lemma pruned_AutoSend:
  "pruned u w \<Longrightarrow> post (\<lambda>(w', b). pruned u w') (AutoSend env ident head body w)"
  unfolding AutoSend_def Let_def
  by (intro branches; (auto dest!: pruned_dests [where u = u])?) (auto elim!: pruned_calls)

lemma pruned_AutoConnect:
  "pruned u w \<Longrightarrow> post (\<lambda>(w', b). pruned u w') (AutoConnect env ident w)"
  unfolding AutoConnect_def Let_def
  by (intro branches; (auto dest!: pruned_dests [where u = u])?) (auto elim!: pruned_calls)

lemma pruned_SendTo_identify:
  "pruned u w \<Longrightarrow> post (\<lambda>(w', b). pruned u w') (SendTo_identify env ident head body w)"
  unfolding SendTo_identify_def by (intro post_option pruned_AutoSend pruned_SendTo_msg)

end
