(* ===== verification/Worker_Turns.thy ===== *)
theory Worker_Turns
  imports Worker_Route
begin

text \<open>
  Sending to a node type. \<open>SendToNext\<close> goes round the workers of the type in the order of their
  names, \<open>SendToWithMod\<close> takes one by modulus and \<open>SendToNodeType\<close> all of them.
\<close>

section \<open>The worker whose turn it is\<close>

definition next_target :: "string \<Rightarrow> 's worker \<Rightarrow> string option" where
  "next_target ty w = (case turn ty w of Some x \<Rightarrow> Some x | None \<Rightarrow> set_begin (workers ty w))"

definition turned :: "string \<Rightarrow> string \<Rightarrow> 's worker \<Rightarrow> 's worker" where
  "turned ty x w =
     w\<lparr>m_mapNodeIdentify := map_put ty (set_next x (workers ty w), workers ty w) (m_mapNodeIdentify w)\<rparr>"

lemma SendToNext_target:
  assumes "routing_ok w"
  shows "SendToNext env ty head body w =
    (case next_target ty w of None \<Rightarrow> Some (w, False) | Some x \<Rightarrow> SendTo_identify env x head body (turned ty x w))"
proof (cases "map_find ty (m_mapNodeIdentify w)")
  case None
  then show ?thesis by (simp add: SendToNext_def next_target_def turn_def workers_def set_begin_def)
next
  case (Some e)
  obtain it s where e: "e = (it, s)" by (cases e)
  have "it = Some x \<Longrightarrow> x \<in> set s" for x
    using routing_okD(2) [OF assms, of ty] Some e by (simp add: stdset.valid_def turn_def workers_def)
  then show ?thesis
    using Some e by (auto simp: SendToNext_def next_target_def turned_def turn_def workers_def split: option.splits)
qed

lemma turned_fields:
  assumes "routing_ok w"
  shows "workers ty' (turned ty x w) = workers ty' w"
    and "turn ty' (turned ty x w) = (if ty' = ty then set_next x (workers ty w) else turn ty' w)"
    and "route_of (turned ty x w) = route_of w"
    and "m_vecCenterIdentify (turned ty x w) = m_vecCenterIdentify w"
  using routing_okD(5) [OF assms] by (auto simp: turned_def workers_put route_of_def)

lemma routing_ok_turned:
  assumes "routing_ok w" "x \<in> set (workers ty w)"
  shows "routing_ok (turned ty x w)"
proof -
  note ok = routing_okD [OF assms(1)]
  have "m_mapIdentifyNodeType (turned ty x w) = m_mapIdentifyNodeType w" "map_ok (m_mapNodeIdentify (turned ty x w))"
    using ok(5) by (simp_all add: turned_def map_put_ok)
  then show ?thesis
    unfolding routing_ok_def turned_fields(1) [OF assms(1)] turned_fields(2) [OF assms(1)] turned_fields(3) [OF assms(1)]
    using ok(1,2,3,4) stdset.valid_succ [OF ok(1) assms(2)] by auto
qed

lemma next_target_position:
  assumes "routing_ok w" "stdset.position (workers ty w) (turn ty w) i" "i \<le> length (workers ty w)" "workers ty w \<noteq> []"
  shows "next_target ty w = Some (workers ty w ! (i mod length (workers ty w)))"
  using assms by (auto simp: next_target_def stdset.position_def set_begin_def le_less hd_conv_nth split: list.split)

lemma turned_position:
  assumes "routing_ok w" "i < length (workers ty w)"
  shows "stdset.position (workers ty w) (turn ty (turned ty (workers ty w ! i) w)) (Suc i)"
  using assms set_next_nth [OF routing_okD(1) [OF assms(1)], of i ty]
  by (simp add: turned_fields stdset.position_def)

section \<open>A run of \<open>SendToNext\<close>\<close>

text \<open>The workers that the messages of a run go to.\<close>

fun next_run :: "wenv \<Rightarrow> string \<Rightarrow> (msg_head \<times> msg_body) list \<Rightarrow> 's worker \<Rightarrow> ('s worker \<times> string list) option" where
  "next_run env ty [] w = Some (w, [])"
| "next_run env ty ((head, body) # ms) w =
     (case SendToNext env ty head body w of None \<Rightarrow> None
      | Some (w', _) \<Rightarrow>
          (case next_run env ty ms w' of None \<Rightarrow> None
           | Some (w'', xs) \<Rightarrow> Some (w'', (case next_target ty w of None \<Rightarrow> [] | Some x \<Rightarrow> [x]) @ xs)))"

lemma SendToNext_round:
  assumes "routing_ok w" "no_center ty w" "workers ty w = s" "s \<noteq> []"
    "stdset.position s (turn ty w) i" "i \<le> length s" "SendToNext env ty head body w = Some (w', b)"
  shows "routing_ok w'" "no_center ty w'" "workers ty w' = s" "stdset.position s (turn ty w') (Suc (i mod length s))"
proof -
  define x where "x = s ! (i mod length s)"
  define v where "v = turned ty x w"
  have i: "i mod length s < length s" using assms(4) by simp
  have "x \<in> set (workers ty w)" using i assms(3) by (simp add: x_def)
  then have v: "routing_ok v" "no_center ty v" "workers ty v = s" "stdset.position s (turn ty v) (Suc (i mod length s))"
    using routing_ok_turned [OF assms(1)] turned_position [OF assms(1), of "i mod length s" ty] assms(1,2,3) i
    by (auto simp: v_def x_def no_center_def turned_fields)
  have "next_target ty w = Some x" using next_target_position [OF assms(1)] assms by (auto simp: x_def)
  then have "SendTo_identify env x head body v = Some (w', b)"
    using assms(7) SendToNext_target [OF assms(1)] by (simp add: v_def)
  then have "pruned v w'" using postD [OF pruned_SendTo_identify [OF pruned_refl]] by fastforce
  then show "routing_ok w'" "no_center ty w'" "workers ty w' = s" "stdset.position s (turn ty w') (Suc (i mod length s))"
    using pruned_ok pruned_workers [of v w' ty] v by auto
qed

lemma next_run_targets:
  assumes "routing_ok w" "no_center ty w" "workers ty w = s" "s \<noteq> []"
    "stdset.position s (turn ty w) i" "i \<le> length s" "next_run env ty ms w = Some (w', xs)"
  shows "xs = map (\<lambda>k. s ! ((i + k) mod length s)) [0..<length ms] \<and> workers ty w' = s \<and> routing_ok w'"
  using assms
proof (induction ms arbitrary: w i xs)
  case (Cons m ms)
  obtain head body where m: "m = (head, body)" by (cases m)
  from Cons.prems(7) obtain v b ys where v: "SendToNext env ty head body w = Some (v, b)"
    "next_run env ty ms v = Some (w', ys)" "xs = (case next_target ty w of None \<Rightarrow> [] | Some x \<Rightarrow> [x]) @ ys"
    by (auto simp: m split: option.splits prod.splits)
  note r = SendToNext_round [OF Cons.prems(1-6) v(1)]
  have "Suc (i mod length s) \<le> length s" using Cons.prems(4) by (simp add: Suc_le_eq)
  from Cons.IH [OF r(1,2,3) Cons.prems(4) r(4) this v(2)]
  moreover have "(Suc (i mod length s) + k) mod length s = (i + Suc k) mod length s" for k
    by (metis add_Suc_shift mod_Suc_eq mod_add_left_eq)
  ultimately have "ys = map (\<lambda>k. s ! ((i + Suc k) mod length s)) [0..<length ms]" "workers ty w' = s" "routing_ok w'"
    by simp_all
  moreover have "next_target ty w = Some (s ! (i mod length s))"
    using next_target_position [OF Cons.prems(1)] Cons.prems by auto
  ultimately show ?case using v(3) by (simp add: upt_conv_Cons map_Suc_upt [symmetric] comp_def del: upt_Suc)
qed simp

lemma rounds:
  assumes "s \<noteq> []"
  shows "map (\<lambda>k. s ! ((i + k) mod length s)) [0..<q * length s] = concat (replicate q (rotate i s))"
proof (induction q)
  case (Suc q)
  have "map (\<lambda>k. s ! ((i + (q * length s + k)) mod length s)) [0..<length s] = rotate i s"
  proof (rule nth_equalityI)
    fix k assume "k < length (map (\<lambda>k. s ! ((i + (q * length s + k)) mod length s)) [0..<length s])"
    moreover have "(i + (q * length s + k)) mod length s = (i + k) mod length s"
      by (metis add.left_commute mod_mult_self4 mult.commute)
    ultimately show "map (\<lambda>k. s ! ((i + (q * length s + k)) mod length s)) [0..<length s] ! k = rotate i s ! k"
      by (simp add: nth_rotate)
  qed simp
  moreover have "[0..<Suc q * length s] = [0..<q * length s] @ map (\<lambda>k. q * length s + k) [0..<length s]"
    by (simp add: add.commute [of "length s"] upt_add_eq_append [of 0] del: upt_Suc)
      (rule nth_equalityI, simp_all)
  ultimately show ?case
    using Suc by (simp add: comp_def replicate_append_same [symmetric] del: upt_Suc mult_Suc)
qed simp

lemma distinct_count_list: "distinct s \<Longrightarrow> x \<in> set s \<Longrightarrow> count_list s x = 1"
  by (induction s) auto

lemma count_rounds: "distinct s \<Longrightarrow> x \<in> set s \<Longrightarrow> count_list (concat (replicate q (rotate i s))) x = q"
proof (induction q)
  case (Suc q)
  have "count_list (rotate i s) x = 1"
    using Suc.prems by (simp add: distinct_count_list)
  then show ?case using Suc by simp
qed simp

section \<open>The routing table along a run\<close>

lemma routing_ok_SendToNext:
  assumes "routing_ok w" "SendToNext env ty head body w = Some (w', b)"
  shows "routing_ok w'" "\<exists>v. pruned v w' \<and> routing_ok v \<and> route_of v = route_of w \<and> m_vecCenterIdentify v = m_vecCenterIdentify w"
proof -
  have "\<exists>v. pruned v w' \<and> routing_ok v \<and> route_of v = route_of w \<and> m_vecCenterIdentify v = m_vecCenterIdentify w"
  proof (cases "next_target ty w")
    case None
    then have "w' = w" using assms(2) SendToNext_target [OF assms(1), of env ty head body] by simp
    then show ?thesis using assms(1) by (intro exI [of _ w]) simp
  next
    case (Some x)
    have "x \<in> set (workers ty w)"
      using Some routing_okD(2) [OF assms(1), of ty]
      by (auto simp: next_target_def stdset.valid_def set_begin_def split: option.splits list.splits)
    moreover have "pruned (turned ty x w) w'"
      using assms(2) Some SendToNext_target [OF assms(1)] postD [OF pruned_SendTo_identify [OF pruned_refl]] by fastforce
    ultimately show ?thesis using routing_ok_turned turned_fields assms(1) by blast
  qed
  then show "routing_ok w'" "\<exists>v. pruned v w' \<and> routing_ok v \<and> route_of v = route_of w \<and> m_vecCenterIdentify v = m_vecCenterIdentify w"
    using pruned_ok by blast+
qed

lemma pruned_SendToWithMod: "pruned u w \<Longrightarrow> post (\<lambda>(w', b). pruned u w') (SendToWithMod env ty f head body w)"
  unfolding SendToWithMod_def by (intro post_option post_prod post_if pruned_SendTo_identify post_Some) auto

lemma pruned_identify_call:
  assumes "(if b then map_option fst (SendTo_identify env x head body v) else Some v) = Some w'" "pruned u v"
  shows "pruned u w'"
proof (cases b)
  case True
  then obtain c where "SendTo_identify env x head body v = Some (w', c)" using assms(1) by auto
  from postD [OF pruned_SendTo_identify [OF assms(2)] this] show ?thesis by simp
qed (use assms in simp)

lemma pruned_send_all: "pruned u w \<Longrightarrow> post (\<lambda>(w', n). pruned u w') (send_all env ty head body xs n w)"
proof (induction xs arbitrary: n w)
  case Nil
  then show ?case by (simp add: post_def)
next
  case (Cons x xs)
  show ?case
    unfolding send_all.simps Let_def
  proof (intro post_option post_prod post_if post_None Cons.IH)
    fix v self w'
    assume self: "GetWorkerIdentify w = (v, self)"
      and call: "(if x \<noteq> self then map_option fst (SendTo_identify env x head body v) else Some v) = Some w'"
    have "pruned u v" using Cons.prems pruned_cong [OF view_steps(2) [OF self]] by simp
    then show "pruned u w'" by (rule pruned_identify_call [OF call])
  qed (rule Cons.prems)
qed

lemma pruned_SendToNodeType: "pruned u w \<Longrightarrow> post (\<lambda>(w', b). pruned u w') (SendToNodeType env ty head body w)"
  unfolding SendToNodeType_def
  by (intro post_option post_prod post_Some post_map_via post_mono [OF pruned_send_all]) auto

text \<open>What a worker does to its connections and its table, and the same on the abstract table.\<close>

datatype wop =
  AddNode string string | DelNode string string
| SendShell msg_shell | SendMsg msg_shell msg_head msg_body | SendIdent string msg_head msg_body
| SendNext string msg_head msg_body | SendMod string u32 msg_head msg_body | SendType string msg_head msg_body
| AddShell string msg_shell | Disconn msg_shell bool | Connect string

fun do_op :: "wenv \<Rightarrow> wop \<Rightarrow> 's worker \<Rightarrow> 's worker option" where
  "do_op env (AddNode ty ident) w = Some (AddNodeIdentify ty ident w)"
| "do_op env (DelNode ty ident) w = Some (DelNodeIdentify ty ident w)"
| "do_op env (SendShell sh) w = map_option fst (SendTo_shell env sh w)"
| "do_op env (SendMsg sh h b) w = map_option fst (SendTo_msg env sh h b w)"
| "do_op env (SendIdent ident h b) w = map_option fst (SendTo_identify env ident h b w)"
| "do_op env (SendNext ty h b) w = map_option fst (SendToNext env ty h b w)"
| "do_op env (SendMod ty f h b) w = map_option fst (SendToWithMod env ty f h b w)"
| "do_op env (SendType ty h b) w = map_option fst (SendToNodeType env ty h b w)"
| "do_op env (AddShell ident sh) w = map_option fst (AddMsgShell env ident sh w)"
| "do_op env (Disconn sh notice) w = map_option fst (Disconnect_shell env sh notice w)"
| "do_op env (Connect ident) w = map_option fst (AutoConnect env ident w)"

fun do_ops :: "wenv \<Rightarrow> wop list \<Rightarrow> 's worker \<Rightarrow> 's worker option" where
  "do_ops env [] w = Some w"
| "do_ops env (q # qs) w = (case do_op env q w of None \<Rightarrow> None | Some w' \<Rightarrow> do_ops env qs w')"

fun route_spec :: "wop \<Rightarrow> (string \<rightharpoonup> string) \<Rightarrow> string \<rightharpoonup> string" where
  "route_spec (AddNode ty ident) r = (if r ident = None then r(ident \<mapsto> ty) else r)"
| "route_spec (DelNode ty ident) r = r(ident := None)"
| "route_spec _ r = r"

lemma pruned_routes:
  assumes "pruned w w'" "routing_ok w" "c \<notin> set (m_vecCenterIdentify w)"
  shows "route_of w' c = route_of w c"
proof -
  have "route_of (fold (DelNodeIdentify []) ids v) c = route_of v c" if "routing_ok v" "c \<notin> set ids" for ids and v :: "'a worker"
    using that by (induction ids arbitrary: v) (auto simp: DelNodeIdentify_fields)
  then show ?thesis using assms unfolding pruned_def by (metis route_viewD(1) subsetD)
qed

definition outer_routes :: "'s worker \<Rightarrow> string \<rightharpoonup> string" where
  "outer_routes w = (\<lambda>i. if i \<in> set (m_vecCenterIdentify w) then None else route_of w i)"

definition outer_spec :: "string list \<Rightarrow> wop \<Rightarrow> (string \<rightharpoonup> string) \<Rightarrow> string \<rightharpoonup> string" where
  "outer_spec centers q r = (\<lambda>i. if i \<in> set centers then None else route_spec q r i)"

lemma do_op_step:
  assumes "routing_ok w" "do_op env q w = Some w'"
  shows "routing_ok w' \<and> m_vecCenterIdentify w' = m_vecCenterIdentify w \<and>
    outer_routes w' = outer_spec (m_vecCenterIdentify w) q (outer_routes w)"
proof -
  have pruned: ?thesis if "pruned w w'" "route_spec q = (\<lambda>r. r)"
    using pruned_ok [OF that(1) assms(1)] pruned_centers [OF that(1)] pruned_routes [OF that(1) assms(1)] that(2)
    by (auto simp: outer_routes_def outer_spec_def)
  have rest: "route_spec q = (\<lambda>r. r)" if "\<And>ty i. q \<noteq> AddNode ty i" "\<And>ty i. q \<noteq> DelNode ty i"
    using that by (cases q) auto
  have disc: "post (\<lambda>(w', b). pruned w w') (Disconnect_shell env sh n w)" for sh n
    unfolding Disconnect_shell_def by (intro post_option post_if pruned_DestroyConnect post_Some) auto
  note posts = pruned_SendTo_shell pruned_SendTo_msg pruned_SendTo_identify pruned_SendToWithMod
    pruned_SendToNodeType pruned_AddMsgShell pruned_AutoConnect
  show ?thesis
  proof (cases q)
    case (AddNode ty i)
    then show ?thesis using assms by (auto simp: AddNodeIdentify_fields outer_routes_def outer_spec_def)
  next
    case (DelNode ty i)
    then show ?thesis using assms by (auto simp: DelNodeIdentify_fields outer_routes_def outer_spec_def)
  next
    case (SendNext ty h b)
    then obtain c where "SendToNext env ty h b w = Some (w', c)" using assms(2) by auto
    from routing_ok_SendToNext(2) [OF assms(1) this] obtain v where
      "pruned v w'" "routing_ok v" "route_of v = route_of w" "m_vecCenterIdentify v = m_vecCenterIdentify w" by blast
    then show ?thesis
      using pruned_ok [of v w'] pruned_centers [of v w'] pruned_routes [of v w'] SendNext
      by (simp add: outer_routes_def outer_spec_def fun_eq_iff)
  qed (use assms rest pruned posts [THEN postD, OF pruned_refl] disc [THEN postD] in \<open>fastforce simp: fun_eq_iff\<close>)+
qed

lemma do_ops_steps:
  "routing_ok w \<Longrightarrow> do_ops env qs w = Some w' \<Longrightarrow>
     routing_ok w' \<and> outer_routes w' = fold (outer_spec (m_vecCenterIdentify w)) qs (outer_routes w)"
proof (induction qs arbitrary: w)
  case (Cons q qs)
  then obtain v where v: "do_op env q w = Some v" "do_ops env qs v = Some w'" by (auto split: option.splits)
  with Cons.IH [of v] do_op_step [OF Cons.prems(1) v(1)] show ?case by simp
qed simp

lemma routing_ok_init: "routing_ok (Init_worker control data index ty host port centers)"
  by (simp add: routing_ok_def Init_worker_def map_ok_def workers_def turn_def route_of_def set_ok_def stdset.valid_def)

section \<open>Properties\<close>

text \<open>C8: Along every run of the operations of a worker its two routing maps agree: the workers of a type
  are in order and without repetition, each is registered under exactly that type, and the iterator of
  the type stands on one of them or at the end. Apart from the workers of centers the table is the
  abstract map of the additions and removals of the run; sending, connecting and losing connections do
  not change it.\<close>

theorem worker_routing_refines:
  assumes "routing_ok w" "do_ops env qs w = Some w'"
  shows "routing_ok w' \<and> outer_routes w' = fold (outer_spec (m_vecCenterIdentify w)) qs (outer_routes w)"
  using assms by (rule do_ops_steps)

definition quiet_env :: wenv where
  "quiet_env =
     \<lparr>w_pb = \<lparr>ser_head = (\<lambda>_. []), parse_head = (\<lambda>_. (False, \<lparr>h_cmd = 0, h_msgbody_len = 0, h_seq = 0\<rparr>)),
              ser_body = b_body, parse_body = (\<lambda>xs. (True, plain_body xs))\<rparr>,
      w_malloc = zero_malloc, w_codec = (\<lambda>_. Some (\<lambda>h m b. Some (b, CODEC_STATUS_OK))), os_close = (\<lambda>_. None), os_socket = int,
      os_send = (\<lambda>_ n. Inr n), disconnect_so = False\<rparr>"

definition wit_ops :: "wop list" where
  "wit_ops = [AddNode ''LOGIC'' ''n:1.0'', AddNode ''LOGIC'' ''n:1.1'', DelNode [] ''n:1.0'',
     SendNext ''LOGIC'' \<lparr>h_cmd = 501, h_msgbody_len = 0, h_seq = 1\<rparr> (plain_body [])]"

definition wit_worker :: "nat worker" where
  "wit_worker = Init_worker 3 4 0 ''ACCESS'' ''n'' 1 [(''c'', ''9'')]"

theorem worker_routing_refines_witness:
  "\<exists>w'. do_ops quiet_env wit_ops wit_worker = Some w' \<and> routing_ok w' \<and>
     outer_routes w' = fold (outer_spec [''c:9.0'']) wit_ops (outer_routes wit_worker)"
proof -
  have "do_ops quiet_env wit_ops wit_worker \<noteq> None" by code_simp
  then obtain w' where w': "do_ops quiet_env wit_ops wit_worker = Some w'" by blast
  moreover have "routing_ok wit_worker" by (simp add: wit_worker_def routing_ok_init)
  moreover have "m_vecCenterIdentify wit_worker = [''c:9.0'']" by code_simp
  ultimately show ?thesis using worker_routing_refines [of wit_worker quiet_env wit_ops w'] by auto
qed

text \<open>C21: \<open>SendToNext\<close> is fair: over a number of messages that is a multiple of the number of workers of
  the type, the messages go round the workers in order, so each worker gets the same number. Each
  message goes to the worker whose turn it is, or is refused when the type has none.\<close>

theorem send_to_next_fair:
  assumes "routing_ok w" "no_center ty w" "next_run env ty ms w = Some (w', xs)"
    "length ms = q * length (workers ty w)"
  shows "(\<exists>i. xs = concat (replicate q (rotate i (workers ty w)))) \<and>
    (\<forall>x \<in> set (workers ty w). count_list xs x = q) \<and>
    (\<forall>head body. SendToNext env ty head body w =
       (case next_target ty w of None \<Rightarrow> Some (w, False) | Some x \<Rightarrow> SendTo_identify env x head body (turned ty x w)))"
proof (cases "workers ty w = []")
  case True
  with assms(3,4) have "xs = []" by simp
  with True show ?thesis using SendToNext_target [OF assms(1)] by auto
next
  case False
  obtain i where "i \<le> length (workers ty w)" "stdset.position (workers ty w) (turn ty w) i"
    using stdset.valid_position [OF routing_okD(2) [OF assms(1)]] by blast
  then have "xs = concat (replicate q (rotate i (workers ty w)))"
    using next_run_targets [OF assms(1,2) refl False] assms(3,4) rounds [OF False] by metis
  then show ?thesis
    using SendToNext_target [OF assms(1)] count_rounds [OF set_ok_distinct [OF routing_okD(1) [OF assms(1)]]] by auto
qed

definition wit_table :: "nat worker" where
  "wit_table = AddNodeIdentify ''LOGIC'' ''n:1.1'' (AddNodeIdentify ''LOGIC'' ''n:1.0'' wit_worker)"

definition wit_msgs :: "(msg_head \<times> msg_body) list" where
  "wit_msgs = replicate 4 (\<lparr>h_cmd = 501, h_msgbody_len = 0, h_seq = 1\<rparr>, plain_body [])"

theorem send_to_next_fair_witness:
  "\<exists>w' xs. next_run quiet_env ''LOGIC'' wit_msgs wit_table = Some (w', xs) \<and> count_list xs ''n:1.1'' = 2"
proof -
  have "next_run quiet_env ''LOGIC'' wit_msgs wit_table \<noteq> None" by code_simp
  then obtain w' xs where run: "next_run quiet_env ''LOGIC'' wit_msgs wit_table = Some (w', xs)" by fastforce
  have "routing_ok wit_table" by (simp add: wit_table_def wit_worker_def routing_ok_init)
  moreover have "no_center ''LOGIC'' wit_table" by code_simp
  moreover have "workers ''LOGIC'' wit_table = [''n:1.0'', ''n:1.1'']" by code_simp
  moreover have "length wit_msgs = 4" by (simp add: wit_msgs_def)
  ultimately show ?thesis using send_to_next_fair [OF _ _ run, of 2] run by auto
qed

end
