(* ===== verification/Worker_Notice.thy ===== *)
theory Worker_Notice
  imports Worker_Turns Center_Example
begin

text \<open>
  The node notices of the center as a worker takes them in (\<open>Starship/src/step/sys_step/StepNodeNotice.cpp\<close>):
  every worker of a node that registered is added to the routing table, every worker of a node that left
  is removed. The names of the workers are printed into 50 bytes; a longer one is undefined behaviour.
\<close>

section \<open>The step\<close>

type_synonym notice_fields = "string \<times> string \<times> int \<times> int"

text \<open>The chain of \<open>Get\<close> calls joined by \<open>&&\<close>: what was read before a failure stays in the variables,
  which live across the entries.\<close>

definition notice_entry :: "'d jobj \<Rightarrow> notice_fields \<Rightarrow> notice_fields \<times> bool" where
  "notice_entry ob v =
     (case v of (ty, ip, port, num) \<Rightarrow>
        (case Get_key_string ob (ascii ''node_type'') of None \<Rightarrow> ((ty, ip, port, num), False)
         | Some s \<Rightarrow> let ty = chars s in
        (case Get_key_string ob (ascii ''node_ip'') of None \<Rightarrow> ((ty, ip, port, num), False)
         | Some s \<Rightarrow> let ip = chars s in
        (case Get_key_int32 ob (ascii ''node_port'') of None \<Rightarrow> ((ty, ip, port, num), False)
         | Some port \<Rightarrow>
        (case Get_key_int32 ob (ascii ''worker_num'') of None \<Rightarrow> ((ty, ip, port, num), False)
         | Some num \<Rightarrow> ((ty, ip, port, num), True))))))"

text \<open>The inner loop, with \<open>k\<close> rounds to go from worker \<open>j\<close>.\<close>

fun each_worker :: "(string \<Rightarrow> 's worker \<Rightarrow> 's worker) \<Rightarrow> string \<Rightarrow> int \<Rightarrow> nat \<Rightarrow> nat \<Rightarrow> 's worker \<Rightarrow> 's worker option" where
  "each_worker f ip port j 0 w = Some w"
| "each_worker f ip port j (Suc k) w =
     (let ident = fmt_identify ip port (int j) in
      if length ident < 50 then each_worker f ip port (Suc j) k (f ident w) else None)"

fun each_entry ::
  "(string \<Rightarrow> string \<Rightarrow> 's worker \<Rightarrow> 's worker) \<Rightarrow> 'd jobj \<Rightarrow> nat \<Rightarrow> nat \<Rightarrow> notice_fields \<Rightarrow> 's worker \<Rightarrow> ('s worker \<times> notice_fields) option" where
  "each_entry f arr i 0 v w = Some (w, v)"
| "each_entry f arr i (Suc k) v w =
     (case notice_entry (at_index arr (of_nat i)) v of
        (v, False) \<Rightarrow> each_entry f arr (Suc i) k v w
      | ((ty, ip, port, num), True) \<Rightarrow>
          (case each_worker (f ty) ip port 0 (nat num) w of None \<Rightarrow> None
           | Some w \<Rightarrow> each_entry f arr (Suc i) k (ty, ip, port, num) w))"

definition StepNodeNotice_Emit :: "'d jobj \<Rightarrow> 's worker \<Rightarrow> 's worker option" where
  "StepNodeNotice_Emit m_jsonData w =
     (let reg = at_key m_jsonData (ascii ''node_arry_reg''); exit = at_key m_jsonData (ascii ''node_arry_exit'') in
      case each_entry AddNodeIdentify reg 0 (Jobj_GetArraySize reg) ([], [], 0, 0) w of None \<Rightarrow> None
      | Some (w, v) \<Rightarrow> map_option fst (each_entry DelNodeIdentify exit 0 (Jobj_GetArraySize exit) v w))"

section \<open>The command\<close>

text \<open>\<open>RegisterCallback\<close> of a new step: it takes the next sequence number and is refused when a step
  of that number is registered. What is kept of the step is the argument \<open>st\<close>.\<close>

definition RegisterCallback_step :: "'s \<Rightarrow> 's worker \<Rightarrow> 's worker \<times> u32 \<times> bool" where
  "RegisterCallback_step st w =
     (let (w, sq) = GetSequence_worker w in
      if map_find sq (m_mapCallbackStep w) \<noteq> None then (w, sq, False)
      else (w\<lparr>m_mapCallbackStep := map_put sq st (m_mapCallbackStep w)\<rparr>, sq, True))"

text \<open>When the registration fails the step is deleted and then passed to \<open>DeleteCallback\<close>.\<close>

definition CmdNodeNotice_AnyMessage ::
  "'d fpu \<Rightarrow> u32 \<times> u32 \<Rightarrow> u32 \<Rightarrow> 's \<Rightarrow> msg_head \<Rightarrow> msg_body \<Rightarrow> 's worker \<Rightarrow> ('s worker \<times> bool) option" where
  "CmdNodeNotice_AnyMessage fp junk iCmd st head body w =
     (if iCmd \<noteq> h_cmd head then Some (w, False)
      else case Jobj_Parse fp junk (b_body body) of
             Done (m_jsonData, True) \<Rightarrow>
               (let (w, sq, ok) = RegisterCallback_step st w in
                if ok then map_option (\<lambda>w. (w, True)) (StepNodeNotice_Emit m_jsonData w) else None)
           | Done (_, False) \<Rightarrow> Some (w, False)
           | _ \<Rightarrow> None)"

end
