(* ===== verification/Worker_Io.thy ===== *)
theory Worker_Io
  imports Worker_Notice
begin

text \<open>
  What a worker does when its event loop calls it (\<open>OssWorker.cpp\<close>): it reads and decodes messages,
  hands them to commands and to the steps that wait for an answer, and writes. The commands and steps of
  the framework itself (\<open>cmd/sys_cmd\<close>, \<open>step/sys_step\<close>) are modelled, among them the two steps that set up
  a connection between workers; commands and steps loaded from shared objects are arguments. HTTP
  messages are an argument as well. \<open>None\<close> is undefined behaviour, or a loop that does not end.
\<close>

section \<open>System messages\<close>

definition CMD_REQ_UPDATE_WORKER_LOAD :: u32 where "CMD_REQ_UPDATE_WORKER_LOAD = 5"
definition CMD_REQ_CONNECT_TO_WORKER :: u32 where "CMD_REQ_CONNECT_TO_WORKER = 7"
definition CMD_RSP_CONNECT_TO_WORKER :: u32 where "CMD_RSP_CONNECT_TO_WORKER = 8"
definition CMD_REQ_TELL_WORKER :: u32 where "CMD_REQ_TELL_WORKER = 9"
definition CMD_REQ_REFRESH_NODE_ID :: u32 where "CMD_REQ_REFRESH_NODE_ID = 17"
definition CMD_REQ_SET_LOG_LEVEL :: u32 where "CMD_REQ_SET_LOG_LEVEL = 29"
definition CMD_REQ_RELOAD_SO :: u32 where "CMD_REQ_RELOAD_SO = 31"
definition CMD_REQ_RELOAD_MODULE :: u32 where "CMD_REQ_RELOAD_MODULE = 33"
definition CMD_REQ_RELOAD_LOGIC_CONFIG :: u32 where "CMD_REQ_RELOAD_LOGIC_CONFIG = 39"
definition CMD_REQ_FROM_CLIENT :: u32 where "CMD_REQ_FROM_CLIENT = 501"
definition CMD_REQ_TO_CLIENT :: u32 where "CMD_REQ_TO_CLIENT = 503"
definition CMD_REQ_BEAT :: u32 where "CMD_REQ_BEAT = 507"
definition CMD_RSP_SYS_ERROR :: u32 where "CMD_RSP_SYS_ERROR = 1000"
definition ERR_PARASE_PROTOBUF :: int where "ERR_PARASE_PROTOBUF = 10000"
definition gc_uiCmdBit :: u32 where "gc_uiCmdBit = 0xFFFF"
definition gc_uiClientMsgHeadSize :: nat where "gc_uiClientMsgHeadSize = 14"

record target_worker =
  tw_err_no :: int
  tw_worker_identify :: string
  tw_node_type :: string
  tw_err_msg :: string

text \<open>The generated classes \<open>ConnectWorker\<close>, \<open>OrdinaryResponse\<close> (of which only \<open>err_no\<close> is read) and
  \<open>TargetWorker\<close>.\<close>

record sys_pb =
  ser_connect :: "int \<Rightarrow> byte list"
  parse_connect :: "byte list \<Rightarrow> int option"
  ser_ordinary :: "int \<Rightarrow> string \<Rightarrow> byte list"
  parse_ordinary :: "byte list \<Rightarrow> int option"
  ser_target :: "target_worker \<Rightarrow> byte list"
  parse_target :: "byte list \<Rightarrow> target_worker option"

definition sys_pb_ok :: "sys_pb \<Rightarrow> bool" where
  "sys_pb_ok pb \<longleftrightarrow> (\<forall>n s. parse_ordinary pb (ser_ordinary pb n s) = Some n) \<and>
     (\<forall>t. parse_target pb (ser_target pb t) = Some t) \<and> (\<forall>n. parse_connect pb (ser_connect pb n) = Some n)"

section \<open>Steps and loaded code\<close>

text \<open>A registered step: its members, of a loaded step also the steps that must end before it is deleted.\<close>

datatype 'u sys_step =
    StepConnectWorker msg_shell msg_head msg_body nat
  | StepTellWorker msg_shell nat
  | StepNodeNotice
  | StepIoTimeout msg_shell
  | LoadedStep 'u "u32 list"

type_synonym 'u wk = "'u sys_step worker"

record ('d, 'u) wcode =
  c_env :: wenv
  c_sys :: sys_pb
  c_fp :: "'d fpu"
  c_junk :: "u32 \<times> u32"
  c_cmd :: "u32 \<Rightarrow> (msg_shell \<Rightarrow> msg_head \<Rightarrow> msg_body \<Rightarrow> 'u wk \<Rightarrow> 'u wk option) option"
  c_step :: "u32 \<Rightarrow> 'u \<Rightarrow> msg_shell \<Rightarrow> msg_head \<Rightarrow> msg_body \<Rightarrow> 'u wk \<Rightarrow> ('u wk \<times> bool) option"
  c_timeout :: "u32 \<Rightarrow> 'u \<Rightarrow> 'u wk \<Rightarrow> ('u wk \<times> bool) option"
  c_http :: "msg_shell \<Rightarrow> msg_body \<Rightarrow> 'u wk \<Rightarrow> ('u wk \<times> bool) option"
  c_decode :: "codec_type \<Rightarrow> (cbuffer \<Rightarrow> (cbuffer \<times> msg_head \<times> msg_body \<times> codec_status) option) option"
  c_access :: bool
  os_recv :: "nat \<Rightarrow> int + byte list"
  os_recent :: "nat \<Rightarrow> bool"

text \<open>\<open>c_access\<close> says whether the worker is built for an access node (\<open>NODE_TYPE_ACCESS\<close>).
  A body as the code fills it in, and the head that goes with it.\<close>

definition head_for :: "wenv \<Rightarrow> u32 \<Rightarrow> u32 \<Rightarrow> msg_body \<Rightarrow> msg_head" where
  "head_for env cw sq body =
     \<lparr>h_cmd = cw, h_msgbody_len = of_nat (length (ser_body (w_pb env) body)), h_seq = sq\<rparr>"

text \<open>\<open>DeleteCallback\<close>: numbers of steps that are gone are dropped, up to the first step still there.\<close>

fun pre_steps :: "u32 list \<Rightarrow> (u32, 's) stdmap \<Rightarrow> u32 list" where
  "pre_steps [] m = []"
| "pre_steps (s # ss) m = (if map_find s m = None then pre_steps ss m else s # ss)"

definition DeleteCallback :: "u32 \<Rightarrow> 'u wk \<Rightarrow> 'u wk" where
  "DeleteCallback sq w =
     (case map_find sq (m_mapCallbackStep w) of None \<Rightarrow> w
      | Some st \<Rightarrow>
          (case st of
             LoadedStep u pre \<Rightarrow>
               (case pre_steps pre (m_mapCallbackStep w) of
                  [] \<Rightarrow> w\<lparr>m_mapCallbackStep := map_erase sq (m_mapCallbackStep w)\<rparr>
                | pre' \<Rightarrow> w\<lparr>m_mapCallbackStep := map_put sq (LoadedStep u pre') (m_mapCallbackStep w)\<rparr>)
           | _ \<Rightarrow> w\<lparr>m_mapCallbackStep := map_erase sq (m_mapCallbackStep w)\<rparr>))"

section \<open>Setting up a connection\<close>

text \<open>The result of \<open>Emit\<close>, \<open>Callback\<close> and \<open>Timeout\<close> is whether the step goes on running.\<close>

definition StepConnectWorker_Emit :: "wenv \<Rightarrow> msg_shell \<Rightarrow> msg_head \<Rightarrow> msg_body \<Rightarrow> u32 \<Rightarrow> 'u wk \<Rightarrow> 'u wk option" where
  "StepConnectWorker_Emit env sh head body sq w = map_option fst (SendTo_msg env sh (head\<lparr>h_seq := sq\<rparr>) body w)"

fun Start_tries :: "nat \<Rightarrow> wenv \<Rightarrow> msg_shell \<Rightarrow> msg_head \<Rightarrow> msg_body \<Rightarrow> 'u wk \<Rightarrow> ('u wk \<times> bool) option" where
  "Start_tries 0 env sh head body w = Some (w, False)"
| "Start_tries (Suc n) env sh head body w =
     (let (w, sq, ok) = RegisterCallback_step (StepConnectWorker sh head body 0) w in
      if ok then map_option (\<lambda>w. (w, True)) (StepConnectWorker_Emit env sh head body sq w)
      else Start_tries n env sh head body w)"

definition CmdConnectWorker_Start :: "('d, 'u) wcode \<Rightarrow> msg_shell \<Rightarrow> int \<Rightarrow> 'u wk \<Rightarrow> ('u wk \<times> bool) option" where
  "CmdConnectWorker_Start code sh iWorkerIndex w =
     (let body = plain_body (ser_connect (c_sys code) iWorkerIndex)
      in Start_tries 3 (c_env code) sh (head_for (c_env code) CMD_REQ_CONNECT_TO_WORKER 0 body) body w)"

definition target_body :: "sys_pb \<Rightarrow> int \<Rightarrow> string \<Rightarrow> string \<Rightarrow> string \<Rightarrow> msg_body" where
  "target_body pb err ident ty msg =
     plain_body (ser_target pb \<lparr>tw_err_no = err, tw_worker_identify = ident, tw_node_type = ty, tw_err_msg = msg\<rparr>)"

definition own_identify :: "nat \<Rightarrow> 's worker \<Rightarrow> string" where
  "own_identify n w = snprintf n (fmt_identify (m_strHostForServer w) (m_iPortForServer w) (m_iWorkerIndex w))"

definition StepTellWorker_Emit :: "('d, 'u) wcode \<Rightarrow> msg_shell \<Rightarrow> u32 \<Rightarrow> 'u wk \<Rightarrow> 'u wk option" where
  "StepTellWorker_Emit code sh sq w =
     (let body = target_body (c_sys code) 0 (own_identify 64 w) (m_strNodeType w) ''OK''
      in map_option fst (SendTo_msg (c_env code) sh (head_for (c_env code) CMD_REQ_TELL_WORKER sq body) body w))"

fun Tell_tries :: "nat \<Rightarrow> ('d, 'u) wcode \<Rightarrow> msg_shell \<Rightarrow> 'u wk \<Rightarrow> 'u wk option" where
  "Tell_tries 0 code sh w = Some w"
| "Tell_tries (Suc n) code sh w =
     (let (w, sq, ok) = RegisterCallback_step (StepTellWorker sh 0) w in
      if ok then StepTellWorker_Emit code sh sq w else Tell_tries n code sh w)"

definition StepConnectWorker_Callback :: "('d, 'u) wcode \<Rightarrow> msg_shell \<Rightarrow> msg_body \<Rightarrow> 'u wk \<Rightarrow> ('u wk \<times> bool) option" where
  "StepConnectWorker_Callback code m_stMsgShell body w =
     (case parse_ordinary (c_sys code) (b_body body) of None \<Rightarrow> Some (w, False)
      | Some err \<Rightarrow> if err = 0 then map_option (\<lambda>w. (w, False)) (Tell_tries 3 code m_stMsgShell w) else Some (w, False))"

definition StepTellWorker_Callback :: "('d, 'u) wcode \<Rightarrow> msg_shell \<Rightarrow> msg_body \<Rightarrow> 'u wk \<Rightarrow> ('u wk \<times> bool) option" where
  "StepTellWorker_Callback code sh body w =
     (case parse_target (c_sys code) (b_body body) of None \<Rightarrow> Some (w, False)
      | Some t \<Rightarrow>
          if tw_err_no t = 0
          then do {
            (w, _) \<leftarrow> AddMsgShell (c_env code) (tw_worker_identify t) sh w;
            let w = AddNodeIdentify (tw_node_type t) (tw_worker_identify t) w;
            (w, _) \<leftarrow> SendTo_shell (c_env code) sh w;
            Some (w, False)
          }
          else Some (w, False))"

section \<open>The commands of the framework\<close>

definition CmdToldWorker_AnyMessage :: "('d, 'u) wcode \<Rightarrow> u32 \<Rightarrow> msg_shell \<Rightarrow> msg_head \<Rightarrow> msg_body \<Rightarrow> 'u wk \<Rightarrow> ('u wk \<times> bool) option" where
  "CmdToldWorker_AnyMessage code iCmd sh head body w = do {
     (w, out, ok) \<leftarrow>
       (if iCmd = h_cmd head
        then (case parse_target (c_sys code) (b_body body) of
                Some t \<Rightarrow> do {
                  (w, _) \<leftarrow> AddMsgShell (c_env code) (tw_worker_identify t) sh w;
                  let w = AddInnerFd sh (AddNodeIdentify (tw_node_type t) (tw_worker_identify t) w);
                  Some (w, target_body (c_sys code) 0 (own_identify 65535 w) (m_strNodeType w) ''OK'', True)
                }
              | None \<Rightarrow> Some (w, target_body (c_sys code) ERR_PARASE_PROTOBUF ''unknow'' (m_strNodeType w)
                  ''WorkerLoad ParseFromString error!'', False))
        else Some (w, target_body (c_sys code) ERR_UNKNOWN_CMD ''unknow'' (m_strNodeType w)
               (''invalid cmd '' @ fmt_d (sint (h_cmd head)) @ '' for CmdUpdateWorkerLoad''), False));
     (w, _) \<leftarrow> SendTo_msg (c_env code) sh (head_for (c_env code) (h_cmd head + 1) (h_seq head) out) out w;
     Some (w, ok)
   }"

definition CmdBeat_AnyMessage :: "('d, 'u) wcode \<Rightarrow> msg_shell \<Rightarrow> msg_head \<Rightarrow> msg_body \<Rightarrow> 'u wk \<Rightarrow> ('u wk \<times> bool) option" where
  "CmdBeat_AnyMessage code sh head body w =
     map_option (\<lambda>(w, _). (w, False)) (SendTo_msg (c_env code) sh (head\<lparr>h_cmd := h_cmd head + 1\<rparr>) body w)"

definition CmdUpdateNodeId_AnyMessage :: "('d, 'u) wcode \<Rightarrow> msg_body \<Rightarrow> 'u wk \<Rightarrow> ('u wk \<times> bool) option" where
  "CmdUpdateNodeId_AnyMessage code body w =
     (case Jobj_Parse (c_fp code) (c_junk code) (b_body body) of
        Done (oNode, True) \<Rightarrow>
          Some (w\<lparr>m_uiNodeId := (case Get_key_int32 oNode (ascii ''node_id'') of None \<Rightarrow> 0 | Some i \<Rightarrow> of_int i)\<rparr>, True)
      | Done (_, False) \<Rightarrow> Some (w, False)
      | _ \<Rightarrow> None)"

section \<open>Time\<close>

text \<open>\<open>os_recent\<close> says whether the connection or step was active within its time limit; the keep-alive time,
  which only HTTP messages set, is zero. Every timer that is not restarted is freed.\<close>

definition StepIoTimeout_Emit :: "('d, 'u) wcode \<Rightarrow> msg_shell \<Rightarrow> u32 \<Rightarrow> 'u wk \<Rightarrow> ('u wk \<times> bool) option" where
  "StepIoTimeout_Emit code sh sq w =
     SendTo_msg (c_env code) sh \<lparr>h_cmd = CMD_REQ_BEAT, h_msgbody_len = 0, h_seq = sq\<rparr> (plain_body []) w"

definition IoTimeout :: "('d, 'u) wcode \<Rightarrow> bool \<Rightarrow> msg_shell \<Rightarrow> 'u wk \<Rightarrow> ('u wk \<times> bool) option" where
  "IoTimeout code bCheckBeat sh w =
     (case conn_of sh w of None \<Rightarrow> Some (w, False)
      | Some c \<Rightarrow>
          if bCheckBeat
          then let recent = os_recent code (m_calls w); w = w\<lparr>m_calls := Suc (m_calls w)\<rparr> in
               if recent then Some (w, True)
               else let (w, sq, ok) = RegisterCallback_step (StepIoTimeout sh) w in
                 if ok
                 then do {
                   (w, running) \<leftarrow> StepIoTimeout_Emit code sh sq w;
                   Some (if running then w else DeleteCallback sq w, True)
                 }
                 else map_option (\<lambda>(w, _). (w, True)) (DestroyConnect (c_env code) (fst sh) True w)
          else if map_find (fst sh) (m_mapInnerFd w) = None
               then map_option (\<lambda>(w, _). (w, True)) (DestroyConnect (c_env code) (fst sh) True w)
               else Some (w, True))"

text \<open>The steps that set up a connection repeat their request three times before they give up.\<close>

definition Step_Timeout :: "('d, 'u) wcode \<Rightarrow> u32 \<Rightarrow> 'u sys_step \<Rightarrow> 'u wk \<Rightarrow> ('u wk \<times> bool) option" where
  "Step_Timeout code sq st w =
     (case st of
        StepConnectWorker sh head body n \<Rightarrow>
          let w = w\<lparr>m_mapCallbackStep := map_put sq (StepConnectWorker sh head body (Suc n)) (m_mapCallbackStep w)\<rparr> in
          if Suc n \<le> 3 then map_option (\<lambda>w. (w, True)) (StepConnectWorker_Emit (c_env code) sh head body sq w)
          else Some (w, False)
      | StepTellWorker sh n \<Rightarrow>
          let w = w\<lparr>m_mapCallbackStep := map_put sq (StepTellWorker sh (Suc n)) (m_mapCallbackStep w)\<rparr> in
          if Suc n \<le> 3 then map_option (\<lambda>w. (w, True)) (StepTellWorker_Emit code sh sq w)
          else Some (w, False)
      | StepNodeNotice \<Rightarrow> Some (w, False)
      | StepIoTimeout sh \<Rightarrow> map_option (\<lambda>(w, _). (w, False)) (IoTimeout code False sh w)
      | LoadedStep u pre \<Rightarrow> c_timeout code sq u w)"

definition OssWorker_StepTimeout :: "('d, 'u) wcode \<Rightarrow> u32 \<Rightarrow> 'u wk \<Rightarrow> 'u wk option" where
  "OssWorker_StepTimeout code sq w =
     (case map_find sq (m_mapCallbackStep w) of None \<Rightarrow> None
      | Some st \<Rightarrow>
          let recent = os_recent code (m_calls w); w = w\<lparr>m_calls := Suc (m_calls w)\<rparr> in
          if recent then Some w
          else do {
            (w, running) \<leftarrow> Step_Timeout code sq st w;
            Some (if running then w else DeleteCallback sq w)
          })"

section \<open>Handing a message on\<close>

definition Step_Callback :: "('d, 'u) wcode \<Rightarrow> u32 \<Rightarrow> 'u sys_step \<Rightarrow> msg_shell \<Rightarrow> msg_head \<Rightarrow> msg_body \<Rightarrow> 'u wk \<Rightarrow> ('u wk \<times> bool) option" where
  "Step_Callback code sq st sh head body w =
     (case st of
        StepConnectWorker m_stMsgShell _ _ _ \<Rightarrow> StepConnectWorker_Callback code m_stMsgShell body w
      | StepTellWorker _ _ \<Rightarrow> StepTellWorker_Callback code sh body w
      | StepNodeNotice \<Rightarrow> Some (w, False)
      | StepIoTimeout m_stMsgShell \<Rightarrow> map_option (\<lambda>(w, _). (w, False)) (IoTimeout code True m_stMsgShell w)
      | LoadedStep u pre \<Rightarrow> c_step code sq u sh head body w)"

text \<open>A command nobody handles: an access node forwards it, to a client when a server sent it and to a server
  when a client did; otherwise the sender gets an error.\<close>

definition sys_error :: "('d, 'u) wcode \<Rightarrow> msg_head \<Rightarrow> msg_head \<times> msg_body" where
  "sys_error code head =
     (let body = plain_body (ser_ordinary (c_sys code) ERR_UNKNOWN_CMD
            (snprintf 256 (''no handler to dispose cmd '' @ dec (unat (h_cmd head)) @ ''!'')))
      in (head_for (c_env code) CMD_RSP_SYS_ERROR (h_seq head) body, body))"

definition unhandled :: "('d, 'u) wcode \<Rightarrow> msg_shell \<Rightarrow> msg_head \<Rightarrow> msg_body \<Rightarrow> 'u wk \<Rightarrow> ('u wk \<times> (msg_head \<times> msg_body) option) option" where
  "unhandled code sh head body w =
     (let forward = (if \<not> c_access code then None
                     else if map_find (fst sh) (m_mapInnerFd w) \<noteq> None then c_cmd code CMD_REQ_TO_CLIENT
                     else c_cmd code CMD_REQ_FROM_CLIENT)
      in case forward of
           Some f \<Rightarrow> map_option (\<lambda>w. (w, None)) (f sh head body w)
         | None \<Rightarrow> Some (w, Some (sys_error code head)))"

text \<open>A request goes to the command of its number, an answer to the step that waits for it; the second
  result is the message to send back. Setting the log level, loading code and writing the
  configuration file change nothing that is modelled. The step must still be there when it is deleted.\<close>

definition Dispose :: "('d, 'u) wcode \<Rightarrow> msg_shell \<Rightarrow> msg_head \<Rightarrow> msg_body \<Rightarrow> 'u wk \<Rightarrow> ('u wk \<times> (msg_head \<times> msg_body) option) option" where
  "Dispose code sh head body w =
     (if h_cmd head AND 1 \<noteq> 0
      then let k = h_cmd head AND gc_uiCmdBit in
        if k = CMD_REQ_TELL_WORKER then map_option (\<lambda>(w, _). (w, None)) (CmdToldWorker_AnyMessage code k sh head body w)
        else if k = CMD_REQ_REFRESH_NODE_ID then map_option (\<lambda>(w, _). (w, None)) (CmdUpdateNodeId_AnyMessage code body w)
        else if k = of_int CMD_REQ_NODE_REG_NOTICE
        then map_option (\<lambda>(w, _). (w, None)) (CmdNodeNotice_AnyMessage (c_fp code) (c_junk code) k StepNodeNotice head body w)
        else if k = CMD_REQ_BEAT then map_option (\<lambda>(w, _). (w, None)) (CmdBeat_AnyMessage code sh head body w)
        else if k = of_int CMD_REQ_SERVER_CONFIG then Some (w, None)
        else case c_cmd code k of
               Some f \<Rightarrow> map_option (\<lambda>w. (w, None)) (f sh head body w)
             | None \<Rightarrow>
                 if h_cmd head \<in> {CMD_REQ_SET_LOG_LEVEL, CMD_REQ_RELOAD_SO, CMD_REQ_RELOAD_MODULE, CMD_REQ_RELOAD_LOGIC_CONFIG}
                 then Some (w, None)
                 else unhandled code sh head body w
      else case map_find (h_seq head) (m_mapCallbackStep w) of
             None \<Rightarrow> Some (w, None)
           | Some st \<Rightarrow> do {
               (w, running) \<leftarrow> Step_Callback code (h_seq head) st sh head body w;
               if running then Some (w, None)
               else if map_find (h_seq head) (m_mapCallbackStep w) = None then None
               else Some (DeleteCallback (h_seq head) w, None)
             })"

section \<open>Reading\<close>

definition is_manager_fd :: "int \<Rightarrow> 's worker \<Rightarrow> bool" where
  "is_manager_fd fd w \<longleftrightarrow> fd = m_iManagerControlFd w \<or> fd = m_iManagerDataFd w"

definition drop_conn :: "wenv \<Rightarrow> int \<Rightarrow> 's worker \<Rightarrow> ('s worker \<times> bool) option" where
  "drop_conn env fd w =
     (if is_manager_fd fd w then Some (w, False) else map_option (\<lambda>(w, _). (w, False)) (DestroyConnect env fd True w))"

text \<open>The message that \<open>Dispose\<close> left to send back is written without asking for a write event.\<close>

definition send_back :: "wenv \<Rightarrow> encoder \<Rightarrow> int \<Rightarrow> conn \<Rightarrow> (msg_head \<times> msg_body) option \<Rightarrow> 's worker \<Rightarrow> 's worker option" where
  "send_back env enc fd c out w =
     (case out of None \<Rightarrow> Some w
      | Some (head, body) \<Rightarrow> do {
          (w, st) \<leftarrow> encode_to enc False head body fd c w;
          if st = CODEC_STATUS_OK
          then do {
            c \<leftarrow> map_find fd (m_mapFdAttr w);
            map_option fst (write_out env fd c w)
          }
          else Some w
        })"

text \<open>In an access node a message of a client is completed with the data kept for the client. The data is
  allocated with the connection; what is checked of a client without data is only whether its websocket has
  been opened, because the number of messages is unsigned. The last result is whether to go on.\<close>

definition access_gate :: "('d, 'u) wcode \<Rightarrow> int \<Rightarrow> conn \<Rightarrow> msg_head \<Rightarrow> msg_body \<Rightarrow> 'u wk \<Rightarrow> (msg_head \<times> msg_body \<times> bool) option" where
  "access_gate code fd c head body w =
     (if \<not> c_access code then Some (head, body, True)
      else if ReadableBytes (pClientData c) > 0
      then do {
        data \<leftarrow> ToString (pClientData c);
        let body = body\<lparr>b_additional := Some data\<rparr>;
        Some (head\<lparr>h_msgbody_len := of_nat (length (ser_body (w_pb (c_env code)) body))\<rparr>, body, True)
      }
      else if eCodecType c = CODEC_WEBSOCKET_JSON then Some (head, body, map_find fd (m_mapHttpAttr w) \<noteq> None)
      else Some (head, body, \<not> (map_find fd (m_mapInnerFd w) = None \<and> ulMsgNum c < 0)))"

text \<open>The loop over the messages in the receive buffer; the connection may be gone after each of them.\<close>

definition note_message :: "int \<Rightarrow> msg_head \<Rightarrow> cbuffer \<Rightarrow> 's worker \<Rightarrow> 's worker" where
  "note_message fd head b w =
     (let w = upd_conn fd (\<lambda>c. c\<lparr>pRecvBuff := b,
            ucConnectStatus := (if ucast (ucConnectStatus c) \<noteq> CMD_RSP_TELL_WORKER then ucast (h_cmd head) else ucConnectStatus c)\<rparr>)
            (w\<lparr>m_iRecvNum := wrap32 (m_iRecvNum w + 1)\<rparr>)
      in if h_cmd head \<noteq> 0 \<and> h_cmd head AND 1 \<noteq> 0 then upd_conn fd (\<lambda>c. c\<lparr>ulForeignSeq := h_seq head\<rparr>) w else w)"

partial_function (option) dispose_loop ::
  "('d, 'u) wcode \<Rightarrow> encoder \<Rightarrow> (cbuffer \<Rightarrow> (cbuffer \<times> msg_head \<times> msg_body \<times> codec_status) option) \<Rightarrow> msg_shell \<Rightarrow> 'u wk \<Rightarrow> ('u wk \<times> bool) option" where
  "dispose_loop code enc dcr sh w =
     (case conn_of sh w of None \<Rightarrow> Some (w, True)
      | Some c \<Rightarrow>
          if ReadableBytes (pRecvBuff c) < gc_uiClientMsgHeadSize then Some (w, True)
          else
            (case dcr (pRecvBuff c) of None \<Rightarrow> None
             | Some (b, head, body, st) \<Rightarrow>
                 if st = CODEC_STATUS_OK
                 then let w = note_message (fst sh) head b w in
                   if h_cmd head \<noteq> 0
                   then Option.bind (access_gate code (fst sh) c head body w) (\<lambda>(head, body, go).
                     if \<not> go then map_option (\<lambda>(w, _). (w, False)) (DestroyConnect (c_env code) (fst sh) True w)
                     else Option.bind (Dispose code sh head body w) (\<lambda>(w, out).
                       case conn_of sh w of None \<Rightarrow> Some (w, True)
                       | Some c \<Rightarrow> Option.bind (send_back (c_env code) enc (fst sh) c out w) (dispose_loop code enc dcr sh)))
                   else Option.bind (c_http code sh body w) (\<lambda>(w, go).
                     if go then dispose_loop code enc dcr sh w else Some (w, True))
                 else
                   let w = upd_conn (fst sh) (\<lambda>c. c\<lparr>pRecvBuff := b\<rparr>) w in
                   if st = CODEC_STATUS_ERR then drop_conn (c_env code) (fst sh) w else Some (w, True)))"

text \<open>An interrupted read is repeated at once.\<close>

partial_function (option) recv_loop :: "('d, 'u) wcode \<Rightarrow> msg_shell \<Rightarrow> conn \<Rightarrow> 'u wk \<Rightarrow> ('u wk \<times> bool) option" where
  "recv_loop code sh c w =
     (case ReadFD (w_malloc (c_env code)) (os_recv code (m_calls w)) (pRecvBuff c) of None \<Rightarrow> None
      | Some (b, len, err) \<Rightarrow>
          let c = c\<lparr>pRecvBuff := b\<rparr>; w = upd_conn (fst sh) (\<lambda>_. c) (w\<lparr>m_calls := Suc (m_calls w)\<rparr>) in
          if len > 0
          then let w = upd_conn (fst sh) (\<lambda>c. c\<lparr>ulMsgNumUnitTime := ulMsgNumUnitTime c + 1, ulMsgNum := ulMsgNum c + 1\<rparr>)
                     (w\<lparr>m_iRecvByte := wrap32 (m_iRecvByte w + len)\<rparr>)
               in (case (w_codec (c_env code) (eCodecType c), c_decode code (eCodecType c)) of
                     (Some enc, Some dcr) \<Rightarrow> dispose_loop code enc dcr sh w
                   | _ \<Rightarrow> drop_conn (c_env code) (fst sh) w)
          else if len = 0 then drop_conn (c_env code) (fst sh) w
          else if err = Some EAGAIN then Some (w, False)
          else if err = Some EINTR then recv_loop code sh c w
          else drop_conn (c_env code) (fst sh) w)"

definition RecvDataAndDispose :: "('d, 'u) wcode \<Rightarrow> msg_shell \<Rightarrow> 'u wk \<Rightarrow> ('u wk \<times> bool) option" where
  "RecvDataAndDispose code sh w =
     (case conn_of sh w of None \<Rightarrow> Some (w, False)
      | Some c \<Rightarrow>
          (case Compact (w_malloc (c_env code)) 8192 (pRecvBuff c) of None \<Rightarrow> None
           | Some (b, _) \<Rightarrow> let c = c\<lparr>pRecvBuff := b\<rparr> in recv_loop code sh c (upd_conn (fst sh) (\<lambda>_. c) w)))"

section \<open>Writing\<close>

text \<open>The first write event after \<open>connect\<close> finds an empty send buffer and starts the set-up. The write event
  is then removed through the iterator found at the start, so the connection must still be there.\<close>

definition first_write :: "('d, 'u) wcode \<Rightarrow> msg_shell \<Rightarrow> conn \<Rightarrow> 'u wk \<Rightarrow> 'u wk option" where
  "first_write code sh c w =
     (if ReadableBytes (pWaitForSendBuff c) = 0 then Some w
      else case map_find (snd sh) (m_mapSeq2WorkerIndex w) of
             None \<Rightarrow> map_option fst (SendTo_shell (c_env code) sh w)
           | Some index \<Rightarrow> do {
               let w = AddInnerFd sh w;
               w \<leftarrow> map_option fst (if eCodecType c = CODEC_PROTOBUF then CmdConnectWorker_Start code sh index w
                                   else SendTo_shell (c_env code) sh w);
               let w = w\<lparr>m_mapSeq2WorkerIndex := map_erase (snd sh) (m_mapSeq2WorkerIndex w)\<rparr>;
               if conn_of sh w = None then None else Some (RemoveIoWriteEvent (fst sh) w)
             })"

definition IoWrite :: "('d, 'u) wcode \<Rightarrow> msg_shell \<Rightarrow> 'u wk \<Rightarrow> ('u wk \<times> bool) option" where
  "IoWrite code sh w =
     (case conn_of sh w of None \<Rightarrow> Some (w, False)
      | Some c \<Rightarrow> do {
          let fd = fst sh;
          let need = int_of_size (ReadableBytes (pSendBuff c));
          (w, len, err) \<leftarrow> write_out (c_env code) fd c w;
          w \<leftarrow> (if len < 0
                then if err \<noteq> Some EAGAIN \<and> err \<noteq> Some EINTR then map_option fst (DestroyConnect (c_env code) fd True w)
                     else if err = Some EAGAIN then Some (fst (AddIoWriteEvent fd w))
                     else Some w
                else if len > 0 then Some (sent_bytes fd need len w)
                else first_write code sh c w);
          Some (w, True)
        })"

definition IoError :: "wenv \<Rightarrow> msg_shell \<Rightarrow> 's worker \<Rightarrow> ('s worker \<times> bool) option" where
  "IoError env sh w =
     (case conn_of sh w of None \<Rightarrow> Some (w, False)
      | Some c \<Rightarrow> map_option (\<lambda>(w, _). (w, True)) (DestroyConnect env (fst sh) True w))"

section \<open>Reports to the manager\<close>

definition SendToParent :: "wenv \<Rightarrow> msg_head \<Rightarrow> msg_body \<Rightarrow> 's worker \<Rightarrow> ('s worker \<times> bool) option" where
  "SendToParent env head body w = do {
     w \<leftarrow> (case map_find (m_iManagerControlFd w) (m_mapFdAttr w) of None \<Rightarrow> Some w
           | Some c \<Rightarrow> do {
               (b, _) \<leftarrow> Write (w_malloc env) (ser_head (w_pb env) head) (pSendBuff c);
               (b, _) \<leftarrow> Write (w_malloc env) (ser_body (w_pb env) body) b;
               let c = c\<lparr>pSendBuff := b\<rparr>;
               map_option fst (write_out env (m_iManagerControlFd w) c (upd_conn (m_iManagerControlFd w) (\<lambda>_. c) w))
             });
     Some (w\<lparr>m_iRecvNum := 0, m_iRecvByte := 0, m_iSendNum := 0, m_iSendByte := 0\<rparr>, True)
   }"

definition worker_load_json :: "'s worker \<Rightarrow> jval" where
  "worker_load_json w =
     (let conns = int (length (m_mapFdAttr w)) in
      json_obj [(''load'', JInt (wrap32 (conns + int (length (m_mapCallbackStep w))))), (''connect'', JInt (wrap32 conns)),
        (''recv_num'', JInt (m_iRecvNum w)), (''recv_byte'', JInt (m_iRecvByte w)), (''send_num'', JInt (m_iSendNum w)),
        (''send_byte'', JInt (m_iSendByte w)), (''client'', JInt (wrap32 (conns - int (length (m_mapInnerFd w)))))])"

text \<open>\<open>CheckParent\<close> while the manager lives.\<close>

definition CheckParent :: "'d fpu \<Rightarrow> wenv \<Rightarrow> 's worker \<Rightarrow> ('s worker \<times> bool) option" where
  "CheckParent fp env w =
     (let body = plain_body (body_of fp (worker_load_json w)); (w, sq) = GetSequence_worker w
      in SendToParent env (head_for env CMD_REQ_UPDATE_WORKER_LOAD sq body) body w)"

section \<open>Start\<close>

text \<open>\<open>CreateEvents\<close> gives both channels to the manager a connection.\<close>

definition create_channel :: "wenv \<Rightarrow> int \<Rightarrow> 's worker \<Rightarrow> ('s worker \<times> bool) option" where
  "create_channel env fd w =
     (let (w, sq) = GetSequence_worker w; (w, ok) = CreateFdAttr env fd sq CODEC_PROTOBUF w in
      if ok
      then let (w, r) = AddIoReadEvent fd w in
           if r then Some (AddInnerFd (fd, sq) w, True) else map_option (\<lambda>(w, _). (w, False)) (DestroyConnect env fd True w)
      else Some (w, False))"

definition CreateEvents :: "wenv \<Rightarrow> 's worker \<Rightarrow> ('s worker \<times> bool) option" where
  "CreateEvents env w = do {
     (w, ok) \<leftarrow> create_channel env (m_iManagerControlFd w) w;
     if ok then create_channel env (m_iManagerDataFd w) w else Some (w, False)
   }"

end
