(* ===== verification/Worker_Stream.thy ===== *)
theory Worker_Stream
  imports Worker_Io
begin

text \<open>
  What a connection transmits. The bytes handed to the system for a connection, those in its send buffer
  and those that wait for the set-up form a line; sending only appends to it and moves bytes forward,
  however much each \<open>send\<close> takes.
\<close>

section \<open>The environment\<close>

text \<open>\<open>send\<close> takes at most what it is given and fails only for want of space or by a signal; memory is available.\<close>

definition sends_ok :: "wenv \<Rightarrow> bool" where
  "sends_ok env \<longleftrightarrow> (\<forall>k n. case os_send env k n of Inl e \<Rightarrow> e = EAGAIN \<or> e = EINTR | Inr m \<Rightarrow> m \<le> n)"

definition proto_env :: "wenv \<Rightarrow> bool" where
  "proto_env env \<longleftrightarrow> pb_ok (w_pb env) \<and> malloc_ok (w_malloc env) \<and> malloc_total (w_malloc env) \<and> sends_ok env \<and>
     w_codec env CODEC_PROTOBUF = Some (ProtoCodec_Encode (w_pb env) (w_malloc env))"

lemma proto_envD:
  assumes "proto_env env"
  shows "pb_ok (w_pb env)" "malloc_ok (w_malloc env)" "malloc_total (w_malloc env)" "sends_ok env"
    "w_codec env CODEC_PROTOBUF = Some (ProtoCodec_Encode (w_pb env) (w_malloc env))"
  using assms by (simp_all add: proto_env_def)

section \<open>Buffers\<close>

lemma Compact_spec:
  assumes "wf_cbuffer b" "m_write_idx b < 2 ^ 32"
  shows "\<exists>b' r. Compact malloc n b = Some (b', r) \<and> wf_cbuffer b' \<and> contents b' = contents b \<and> m_write_idx b' \<le> m_write_idx b"
proof -
  have small: "u32_of (ReadableBytes b) = ReadableBytes b" using assms by (auto intro!: u32_of_small)
  have ld: "mem_load (m_buffer b) (m_read_idx b) (m_write_idx b - m_read_idx b) = Some (contents b)"
    using load_contents [OF assms(1), of "length (contents b)"] by (simp add: length_contents [OF assms(1)])
  show ?thesis
    using assms small ld length_contents [OF assms(1)]
    by (cases "malloc (ReadableBytes b)") (auto simp: Compact_def Let_def wf_cbuffer_def contents_def split: option.splits)
qed

section \<open>What sending leaves alone\<close>

definition io_view :: "'s worker \<Rightarrow> 's worker" where
  "io_view w = w\<lparr>m_mapFdAttr := [], m_iSendNum := 0, m_iSendByte := 0, m_calls := 0, m_wire := []\<rparr>"

lemma io_view_simps [simp]:
  "io_view (w\<lparr>m_mapFdAttr := m\<rparr>) = io_view w" "io_view (w\<lparr>m_iSendNum := i\<rparr>) = io_view w"
  "io_view (w\<lparr>m_iSendByte := i\<rparr>) = io_view w" "io_view (w\<lparr>m_calls := n\<rparr>) = io_view w"
  "io_view (w\<lparr>m_wire := x\<rparr>) = io_view w"
  by (simp_all add: io_view_def)

lemma map_put_twice [simp]: "map_put k x (map_put k y m) = map_put k x m"
  by (induction m) auto

lemma upd_conn_fields [simp]:
  "io_view (upd_conn fd f w) = io_view w" "m_wire (upd_conn fd f w) = m_wire w"
  "m_iSendNum (upd_conn fd f w) = m_iSendNum w" "m_calls (upd_conn fd f w) = m_calls w"
  "map_ok (m_mapFdAttr w) \<Longrightarrow> map_ok (m_mapFdAttr (upd_conn fd f w))"
  "map_ok (m_mapFdAttr w) \<Longrightarrow>
     map_find fd' (m_mapFdAttr (upd_conn fd f w)) = (if fd' = fd then map_option f (map_find fd (m_mapFdAttr w)) else map_find fd' (m_mapFdAttr w))"
  by (auto simp: upd_conn_def map_find_put map_put_ok split: option.split)

definition wire_of :: "msg_shell \<Rightarrow> 's worker \<Rightarrow> byte list" where
  "wire_of sh w = concat (map snd (filter (\<lambda>e. fst e = sh) (m_wire w)))"

definition transmitted :: "msg_shell \<Rightarrow> 's worker \<Rightarrow> conn \<Rightarrow> byte list" where
  "transmitted sh w c = wire_of sh w @ contents (pSendBuff c)"

lemma wire_of_simps [simp]:
  "wire_of sh (w\<lparr>m_mapFdAttr := m\<rparr>) = wire_of sh w" "wire_of sh (w\<lparr>m_iSendNum := i\<rparr>) = wire_of sh w"
  "wire_of sh (w\<lparr>m_iSendByte := i\<rparr>) = wire_of sh w" "wire_of sh (w\<lparr>m_calls := n\<rparr>) = wire_of sh w"
  "wire_of sh (upd_conn fd f w) = wire_of sh w"
  "wire_of sh (w\<lparr>m_wire := m_wire w @ out\<rparr>) = wire_of sh w @ concat (map snd (filter (\<lambda>e. fst e = sh) out))"
  by (simp_all add: wire_of_def)

text \<open>From \<open>w\<close> with the connection \<open>c\<close> to \<open>w'\<close> with \<open>c'\<close>: only this connection and the counters have changed.\<close>

definition moved :: "msg_shell \<Rightarrow> 's worker \<Rightarrow> conn \<Rightarrow> 's worker \<Rightarrow> conn \<Rightarrow> bool" where
  "moved sh w c w' c' \<longleftrightarrow>
     map_ok (m_mapFdAttr w) \<and> map_ok (m_mapFdAttr w') \<and> conn_of sh w = Some c \<and> conn_of sh w' = Some c' \<and>
     io_view w' = io_view w \<and> (\<forall>fd. fd \<noteq> fst sh \<longrightarrow> map_find fd (m_mapFdAttr w') = map_find fd (m_mapFdAttr w)) \<and>
     (\<forall>sh'. sh' \<noteq> sh \<longrightarrow> wire_of sh' w' = wire_of sh' w) \<and> eCodecType c' = eCodecType c \<and> strIdentify c' = strIdentify c"

lemma conn_of_find: "conn_of sh w = Some c \<longleftrightarrow> map_find (fst sh) (m_mapFdAttr w) = Some c \<and> ulSeq c = snd sh"
  by (auto simp: conn_of_def split: option.splits if_splits)

lemma moved_refl: "map_ok (m_mapFdAttr w) \<Longrightarrow> conn_of sh w = Some c \<Longrightarrow> moved sh w c w c"
  by (simp add: moved_def)

lemma moved_trans [trans]: "moved sh u a v b \<Longrightarrow> moved sh v b w c \<Longrightarrow> moved sh u a w c"
  by (auto simp: moved_def)

lemma moved_upd:
  "map_ok (m_mapFdAttr w) \<Longrightarrow> conn_of sh w = Some c \<Longrightarrow> ulSeq (f c) = ulSeq c \<Longrightarrow> eCodecType (f c) = eCodecType c \<Longrightarrow>
   strIdentify (f c) = strIdentify c \<Longrightarrow> moved sh w c (upd_conn (fst sh) f w) (f c)"
  by (simp add: moved_def conn_of_find)

lemma moved_counters:
  "moved sh w c (w'\<lparr>m_iSendNum := i\<rparr>) c' = moved sh w c w' c'" "moved sh w c (w'\<lparr>m_iSendByte := i\<rparr>) c' = moved sh w c w' c'"
  by (simp_all add: moved_def conn_of_find)

section \<open>Writing out\<close>

lemma write_out_spec:
  assumes "proto_env env" "map_ok (m_mapFdAttr w)" "conn_of sh w = Some c" "wf_cbuffer (pSendBuff c)" "m_write_idx (pSendBuff c) < 2 ^ 31"
  shows "\<exists>w' b' len err. write_out env (fst sh) c w = Some (w', len, err) \<and> moved sh w c w' (c\<lparr>pSendBuff := b'\<rparr>) \<and>
    transmitted sh w' (c\<lparr>pSendBuff := b'\<rparr>) = transmitted sh w c \<and> wf_cbuffer b' \<and> m_write_idx b' \<le> m_write_idx (pSendBuff c) \<and>
    (len < 0 \<longrightarrow> err = Some EAGAIN \<or> err = Some EINTR)"
proof -
  let ?b = "pSendBuff c"
  let ?n = "length (contents ?b)"
  have n: "ReadableBytes ?b = ?n" "?n < 2 ^ 31"
    using length_contents [OF assms(4)] assms(5) by simp_all
  obtain b1 len err where wr: "WriteFD (os_send env (m_calls w) ?n) ?b = (b1, len, err)" by (metis prod_cases3)
  have sent: "len = - 1 \<and> b1 = ?b \<and> (err = Some EAGAIN \<or> err = Some EINTR) \<or>
      len = 0 \<and> b1 = ?b \<or> (\<exists>k. len = int k \<and> k \<le> ?n \<and> wf_cbuffer b1 \<and> contents b1 = drop k (contents ?b) \<and> m_write_idx b1 = m_write_idx ?b)"
  proof (cases "os_send env (m_calls w) ?n")
    case (Inl e)
    with wr assms(1) show ?thesis
      by (auto simp: WriteFD_def proto_env_def sends_ok_def split: if_splits sum.splits dest!: spec)
  next
    case (Inr k)
    have k: "k \<le> ?n" using proto_envD(4) [OF assms(1)] Inr by (auto simp: sends_ok_def split: sum.splits)
    obtain b2 where "wf_cbuffer b2" "contents b2 = drop k (contents ?b)" "m_write_idx b2 = m_write_idx ?b" "b2 = ?b\<lparr>m_read_idx := m_read_idx ?b + k\<rparr>"
      using Read_spec [OF assms(4) k] k n(2) by auto
    moreover have "size_of (m_read_idx ?b + k) = m_read_idx ?b + k"
      using assms(4,5) k n(2) by (intro size_of_small) (auto simp: wf_cbuffer_def)
    ultimately show ?thesis using wr Inr k by (auto simp: WriteFD_def split: if_splits)
  qed
  then have b1: "wf_cbuffer b1" "m_write_idx b1 \<le> m_write_idx ?b" "take (nat len) (contents ?b) @ contents b1 = contents ?b"
    using assms(4) by auto
  then obtain b' r where b': "Compact (w_malloc env) 8192 b1 = Some (b', r)" "wf_cbuffer b'" "contents b' = contents b1"
      "m_write_idx b' \<le> m_write_idx ?b"
    using Compact_spec [OF b1(1), of "w_malloc env" 8192] assms(5) by fastforce
  define out where "out = (if len > 0 then [((fst sh, ulSeq c), take (nat len) (contents ?b))] else [])"
  define w1 where "w1 = w\<lparr>m_calls := (if int_of_size ?n = 0 then m_calls w else Suc (m_calls w)), m_wire := m_wire w @ out\<rparr>"
  have "write_out env (fst sh) c w = Some (upd_conn (fst sh) (\<lambda>c. c\<lparr>pSendBuff := b'\<rparr>) w1, len, err)"
    using wr b'(1) n by (simp add: write_out_def Let_def ToString_spec [OF assms(4)] w1_def out_def)
  moreover have sh: "(fst sh, ulSeq c) = sh" using assms(3) by (simp add: conn_of_find prod_eq_iff)
  have "moved sh w c (upd_conn (fst sh) (\<lambda>c. c\<lparr>pSendBuff := b'\<rparr>) w1) (c\<lparr>pSendBuff := b'\<rparr>)"
    using assms(2,3) sh by (auto simp: moved_def conn_of_find w1_def out_def wire_of_def)
  moreover have "transmitted sh (upd_conn (fst sh) (\<lambda>c. c\<lparr>pSendBuff := b'\<rparr>) w1) (c\<lparr>pSendBuff := b'\<rparr>) = transmitted sh w c"
    using b1(3) b'(3) sh by (auto simp: transmitted_def w1_def out_def wire_of_def)
  moreover have "len < 0 \<longrightarrow> err = Some EAGAIN \<or> err = Some EINTR" using sent by auto
  ultimately show ?thesis using b'(2,4) by blast
qed

text \<open>Asking for events changes the watcher only.\<close>

definition same_line :: "conn \<Rightarrow> conn \<Rightarrow> bool" where
  "same_line c c' \<longleftrightarrow> pSendBuff c' = pSendBuff c \<and> pWaitForSendBuff c' = pWaitForSendBuff c \<and>
     ucConnectStatus c' = ucConnectStatus c"

definition watching :: "(conn \<Rightarrow> conn) \<Rightarrow> bool" where
  "watching f \<longleftrightarrow> (\<forall>c. same_line c (f c) \<and> ulSeq (f c) = ulSeq c \<and> eCodecType (f c) = eCodecType c \<and> strIdentify (f c) = strIdentify c)"

lemma same_line_trans [trans]: "same_line a b \<Longrightarrow> same_line b c \<Longrightarrow> same_line a c"
  by (simp add: same_line_def)

lemma AddIoWriteEvent_watching: "\<exists>f. fst (AddIoWriteEvent fd w) = upd_conn fd f w \<and> watching f"
  unfolding AddIoWriteEvent_def by (rule exI [of _ "watch False True"]) (simp add: watching_def same_line_def watch_def)

lemma RemoveIoWriteEvent_watching: "\<exists>f. RemoveIoWriteEvent fd w = upd_conn fd f w \<and> watching f"
  unfolding RemoveIoWriteEvent_def
  by (rule exI [of _ "\<lambda>c. case pIoWatcher c of None \<Rightarrow> c | Some (r, _) \<Rightarrow> c\<lparr>pIoWatcher := Some (r, False)\<rparr>"])
    (simp add: watching_def same_line_def split: option.split)

lemma moved_watching:
  assumes "watching f" "map_ok (m_mapFdAttr w)" "conn_of sh w = Some c"
  shows "moved sh w c (upd_conn (fst sh) f w) (f c)" "same_line c (f c)"
  using assms by (auto simp: watching_def intro: moved_upd)

lemma events_moved:
  assumes "map_ok (m_mapFdAttr w)" "conn_of sh w = Some c"
  shows "\<exists>c'. moved sh w c (fst (AddIoWriteEvent (fst sh) w)) c' \<and> same_line c c' \<and> transmitted sh (fst (AddIoWriteEvent (fst sh) w)) c' = transmitted sh w c"
    and "\<exists>c'. moved sh w c (RemoveIoWriteEvent (fst sh) w) c' \<and> same_line c c' \<and> transmitted sh (RemoveIoWriteEvent (fst sh) w) c' = transmitted sh w c"
  using AddIoWriteEvent_watching [of "fst sh" w] RemoveIoWriteEvent_watching [of "fst sh" w] moved_watching [OF _ assms]
  by (force simp: transmitted_def same_line_def)+

text \<open>What follows the write in \<open>SendTo(stMsgShell)\<close>.\<close>

definition after_write :: "wenv \<Rightarrow> int \<Rightarrow> int \<Rightarrow> int \<Rightarrow> int option \<Rightarrow> 's worker \<Rightarrow> ('s worker \<times> bool) option" where
  "after_write env fd need len err w =
     (if len < 0
      then if err \<noteq> Some EAGAIN \<and> err \<noteq> Some EINTR
           then map_option (\<lambda>(w, _). (w, False)) (DestroyConnect env fd True w)
           else if err = Some EAGAIN then Some (fst (AddIoWriteEvent fd w), True) else Some (w, True)
      else if len > 0 then Some (sent_bytes fd need len w, True) else Some (w, True))"

lemma sent_bytes_moved:
  assumes "map_ok (m_mapFdAttr w)" "conn_of sh w = Some c"
  shows "\<exists>c'. moved sh w c (sent_bytes (fst sh) need len w) c' \<and> same_line c c' \<and>
    transmitted sh (sent_bytes (fst sh) need len w) c' = transmitted sh w c"
proof -
  let ?w = "w\<lparr>m_iSendByte := wrap32 (m_iSendByte w + len)\<rparr>"
  have w: "map_ok (m_mapFdAttr ?w)" "conn_of sh ?w = Some c" "moved sh w c ?w c" "transmitted sh ?w c = transmitted sh w c"
    using assms by (simp_all add: conn_of_find moved_def transmitted_def)
  show ?thesis
    using events_moved [OF w(1,2)] moved_trans [OF w(3)] unfolding sent_bytes_def Let_def w(4)
    by (cases "len = need") (simp only: if_True if_False simp_thms; blast)+
qed

lemma after_write_moved:
  assumes "map_ok (m_mapFdAttr w)" "conn_of sh w = Some c" "len < 0 \<longrightarrow> err = Some EAGAIN \<or> err = Some EINTR"
  shows "\<exists>w' c'. after_write env (fst sh) need len err w = Some (w', True) \<and> moved sh w c w' c' \<and> same_line c c' \<and>
    transmitted sh w' c' = transmitted sh w c"
  using assms events_moved(1) [OF assms(1,2)] sent_bytes_moved [OF assms(1,2), of need len] moved_refl [OF assms(1,2)]
  by (auto simp: after_write_def same_line_def)

section \<open>Flushing and sending\<close>

text \<open>Room for \<open>n\<close> more bytes after the waiting ones have been moved.\<close>

definition line_ok :: "nat \<Rightarrow> conn \<Rightarrow> bool" where
  "line_ok n c \<longleftrightarrow> wf_cbuffer (pSendBuff c) \<and> wf_cbuffer (pWaitForSendBuff c) \<and>
     m_write_idx (pSendBuff c) + length (contents (pWaitForSendBuff c)) + n < 2 ^ 31 \<and> m_write_idx (pWaitForSendBuff c) + n < 2 ^ 31"

lemma line_ok_same: "same_line c c' \<Longrightarrow> line_ok n c' = line_ok n c"
  by (simp add: same_line_def line_ok_def)

lemma Write_unit_all:
  assumes "line_ok n c" "malloc_ok malloc" "malloc_total malloc"
  shows "\<exists>b u. Write_unit malloc (Some (pWaitForSendBuff c)) (ReadableBytes (pWaitForSendBuff c)) (pSendBuff c) =
      Some (b, Some u, int (length (contents (pWaitForSendBuff c)))) \<and> wf_cbuffer b \<and> wf_cbuffer u \<and>
    contents b = contents (pSendBuff c) @ contents (pWaitForSendBuff c) \<and> contents u = [] \<and>
    m_write_idx b \<le> m_write_idx (pSendBuff c) + length (contents (pWaitForSendBuff c)) \<and> m_write_idx u = m_write_idx (pWaitForSendBuff c)"
proof -
  let ?b = "pSendBuff c" and ?u = "pWaitForSendBuff c"
  let ?xs = "contents ?u"
  have ok: "wf_cbuffer ?b" "wf_cbuffer ?u" "room (length ?xs) ?b" "length ?xs < 2 ^ 31"
    using assms(1) by (auto simp: line_ok_def room_def)
  have n: "ReadableBytes ?u = length ?xs" using length_contents [OF ok(2)] by simp
  have ld: "mem_load (m_buffer ?u) (m_read_idx ?u) (length ?xs) = Some ?xs" using load_contents [OF ok(2), of "length ?xs"] by simp
  obtain b where b: "Write malloc ?xs ?b = Some (b, int (length ?xs))" "wf_cbuffer b" "m_write_idx b \<le> m_write_idx ?b + length ?xs"
      "contents b = contents ?b @ ?xs"
    using Write_spec [OF ok(1) assms(2) ok(3)] assms(3) by auto
  obtain u where u: "wf_cbuffer u" "contents u = []" "m_write_idx u = m_write_idx ?u" "u = ?u\<lparr>m_read_idx := m_read_idx ?u + length ?xs\<rparr>"
    using Read_spec [OF ok(2) order.refl ok(4)] by auto
  have "size_add_int (m_read_idx ?u) (int (length ?xs)) = m_read_idx ?u + length ?xs"
    using ok(2) length_contents [OF ok(2)] by (intro size_add_int_nat) (auto simp: wf_cbuffer_def)
  moreover have "?xs = [] \<Longrightarrow> u = ?u" using u(4) by (cases ?u) simp
  ultimately have "Write_unit malloc (Some ?u) (ReadableBytes ?u) ?b = Some (b, Some u, int (length ?xs))"
    unfolding n using ld b(1) u(4) n by (cases "?xs = []") (simp_all add: Write_unit_def Let_def)
  with b u show ?thesis by blast
qed

lemma SendTo_shell_moved:
  assumes "proto_env env" "map_ok (m_mapFdAttr w)" "conn_of sh w = Some c" "line_ok n c"
  shows "\<exists>w' c'. SendTo_shell env sh w = Some (w', True) \<and> moved sh w c w' c' \<and> line_ok n c' \<and>
    ucConnectStatus c' = ucConnectStatus c \<and> contents (pWaitForSendBuff c') = [] \<and>
    transmitted sh w' c' = transmitted sh w c @ contents (pWaitForSendBuff c)"
proof -
  note env = proto_envD [OF assms(1)]
  obtain b u where bu: "Write_unit (w_malloc env) (Some (pWaitForSendBuff c)) (ReadableBytes (pWaitForSendBuff c)) (pSendBuff c) =
      Some (b, Some u, int (length (contents (pWaitForSendBuff c))))" "wf_cbuffer b" "wf_cbuffer u"
      "contents b = contents (pSendBuff c) @ contents (pWaitForSendBuff c)" "contents u = []"
      "m_write_idx b \<le> m_write_idx (pSendBuff c) + length (contents (pWaitForSendBuff c))" "m_write_idx u = m_write_idx (pWaitForSendBuff c)"
    using Write_unit_all [OF assms(4) env(2,3)] by blast
  define c1 where "c1 = c\<lparr>pSendBuff := b, pWaitForSendBuff := u\<rparr>"
  define w1 where "w1 = upd_conn (fst sh) (\<lambda>_. c1) w"
  have m1: "moved sh w c w1 c1" "map_ok (m_mapFdAttr w1)" "conn_of sh w1 = Some c1"
    using moved_upd [OF assms(2,3), of "\<lambda>_. c1"] assms(2,3) by (auto simp: w1_def c1_def conn_of_find)
  have line: "length (contents (pWaitForSendBuff c)) < 2 ^ 31" "wf_cbuffer (pSendBuff c1)" "m_write_idx (pSendBuff c1) < 2 ^ 31"
    using assms(4) bu by (auto simp: line_ok_def c1_def)
  obtain w2 b2 len err where w2: "write_out env (fst sh) c1 w1 = Some (w2, len, err)" "moved sh w1 c1 w2 (c1\<lparr>pSendBuff := b2\<rparr>)"
      "transmitted sh w2 (c1\<lparr>pSendBuff := b2\<rparr>) = transmitted sh w1 c1" "wf_cbuffer b2" "m_write_idx b2 \<le> m_write_idx b"
      "len < 0 \<longrightarrow> err = Some EAGAIN \<or> err = Some EINTR"
    using write_out_spec [OF assms(1) m1(2,3) line(2,3)] by (auto simp: c1_def)
  have "map_ok (m_mapFdAttr w2)" "conn_of sh w2 = Some (c1\<lparr>pSendBuff := b2\<rparr>)" using w2(2) by (auto simp: moved_def)
  from after_write_moved [OF this w2(6)] obtain w3 c3 where w3:
      "after_write env (fst sh) (int_of_size (ReadableBytes b)) len err w2 = Some (w3, True)"
      "moved sh w2 (c1\<lparr>pSendBuff := b2\<rparr>) w3 c3" "same_line (c1\<lparr>pSendBuff := b2\<rparr>) c3"
      "transmitted sh w3 c3 = transmitted sh w2 (c1\<lparr>pSendBuff := b2\<rparr>)"
    by blast
  have "SendTo_shell env sh w = Some (w3, True)"
    using assms(3) bu(1) line(1) length_contents [of "pWaitForSendBuff c"] assms(4) w2(1) w3(1)
    by (simp add: SendTo_shell_def Let_def c1_def w1_def after_write_def line_ok_def)
  moreover have "moved sh w c w3 c3" using m1(1) w2(2) w3(2) by (blast intro: moved_trans)
  moreover have "line_ok n c3"
    using assms(4) bu w2(4,5) unfolding line_ok_same [OF w3(3)] by (simp add: line_ok_def c1_def)
  moreover have "transmitted sh w3 c3 = transmitted sh w c @ contents (pWaitForSendBuff c)"
    unfolding w3(4) w2(3) by (simp add: transmitted_def c1_def w1_def bu(4))
  moreover have "contents (pWaitForSendBuff c3) = []" "ucConnectStatus c3 = ucConnectStatus c"
    using w3(3) bu(5) by (simp_all add: same_line_def c1_def)
  ultimately show ?thesis by blast
qed

text \<open>A message whose head states the length of its body.\<close>

definition sendable :: "'b protobuf \<Rightarrow> msg_head \<times> 'b \<Rightarrow> bool" where
  "sendable pb m \<longleftrightarrow> framed pb (snd m) m"

lemma Encode_line:
  assumes "proto_env env" "sendable (w_pb env) (head, body)" "wf_cbuffer b"
    "m_write_idx b + length (frame (w_pb env) (head, body)) < 2 ^ 31"
  shows "\<exists>b'. ProtoCodec_Encode (w_pb env) (w_malloc env) head body b = Some (b', CODEC_STATUS_OK) \<and> wf_cbuffer b' \<and>
    contents b' = contents b @ frame (w_pb env) (head, body) \<and>
    m_write_idx b' \<le> m_write_idx b + length (frame (w_pb env) (head, body))"
proof -
  let ?pb = "w_pb env"
  let ?h = "ser_head ?pb head" and ?d = "ser_body ?pb body"
  note env = proto_envD [OF assms(1)]
  have fr: "framed ?pb body (head, body)" using assms(2) by (simp add: sendable_def)
  have len: "m_write_idx b + (length ?h + length ?d) < 2 ^ 31" "\<not> int_of_size (length ?d) > 64000000"
    using assms(4) fr by (simp_all add: frame_def framed_def)
  have "room (length ?h) b" using len(1) by (simp add: room_def)
  then obtain b1 where b1: "Write (w_malloc env) ?h b = Some (b1, int (length ?h))" "wf_cbuffer b1"
      "m_write_idx b1 \<le> m_write_idx b + length ?h" "contents b1 = contents b @ ?h"
    using Write_spec [OF assms(3) env(2)] env(3) by fastforce
  have h: "int_of_size (length ?h) = int (length ?h)" "int_of_size (length ?d) = int (length ?d)" using len(1) by simp_all
  show ?thesis
  proof (cases "h_msgbody_len head = 0")
    case True
    then have "?d = []" using framed_zero [OF fr] by simp
    then show ?thesis using True b1 h len by (auto simp: ProtoCodec_Encode_def Let_def frame_def)
  next
    case False
    have "room (length ?d) b1" using len(1) b1(3) by (simp add: room_def)
    then obtain b2 where "Write (w_malloc env) ?d b1 = Some (b2, int (length ?d))" "wf_cbuffer b2"
        "m_write_idx b2 \<le> m_write_idx b1 + length ?d" "contents b2 = contents b1 @ ?d"
      using Write_spec [OF b1(2) env(2)] env(3) by fastforce
    then show ?thesis using False b1 h len by (auto simp: ProtoCodec_Encode_def Let_def frame_def)
  qed
qed

lemma send_encoded_moved:
  assumes "proto_env env" "map_ok (m_mapFdAttr w)" "conn_of sh w = Some c" "line_ok n c"
  shows "\<exists>w' c'. send_encoded env (fst sh) w = Some (w', True) \<and> moved sh w c w' c' \<and> line_ok n c' \<and>
    ucConnectStatus c' = ucConnectStatus c \<and> pWaitForSendBuff c' = pWaitForSendBuff c \<and> transmitted sh w' c' = transmitted sh w c"
proof -
  define w1 where "w1 = w\<lparr>m_iSendNum := wrap32 (m_iSendNum w + 1)\<rparr>"
  have w1: "map_ok (m_mapFdAttr w1)" "conn_of sh w1 = Some c" "moved sh w c w1 c" "transmitted sh w1 c = transmitted sh w c"
    using assms(2,3) by (simp_all add: w1_def conn_of_find moved_def transmitted_def)
  obtain w2 b2 len err where w2: "write_out env (fst sh) c w1 = Some (w2, len, err)" "moved sh w1 c w2 (c\<lparr>pSendBuff := b2\<rparr>)"
      "transmitted sh w2 (c\<lparr>pSendBuff := b2\<rparr>) = transmitted sh w1 c" "wf_cbuffer b2" "m_write_idx b2 \<le> m_write_idx (pSendBuff c)"
      "len < 0 \<longrightarrow> err = Some EAGAIN \<or> err = Some EINTR"
    using write_out_spec [OF assms(1) w1(1,2)] assms(4) by (auto simp: line_ok_def)
  have m2: "map_ok (m_mapFdAttr w2)" "conn_of sh w2 = Some (c\<lparr>pSendBuff := b2\<rparr>)" using w2(2) by (auto simp: moved_def)
  have "\<exists>w3 c3. send_encoded env (fst sh) w = Some (w3, True) \<and> moved sh w2 (c\<lparr>pSendBuff := b2\<rparr>) w3 c3 \<and>
      same_line (c\<lparr>pSendBuff := b2\<rparr>) c3 \<and> transmitted sh w3 c3 = transmitted sh w2 (c\<lparr>pSendBuff := b2\<rparr>)"
  proof -
    have e: "send_encoded env (fst sh) w =
        (if len < 0 then Some (fst (AddIoWriteEvent (fst sh) w2), True)
         else if len > 0 then Some (sent_bytes (fst sh) (int_of_size (ReadableBytes (pSendBuff c))) len w2, True) else Some (w2, True))"
      using w2(1,6) assms(3) by (auto simp: send_encoded_def conn_of_find w1_def simp del: ReadableBytes_diff)
    consider "len < 0" | "len > 0" | "len = 0" by linarith
    then show ?thesis
    proof cases
      case 1
      then show ?thesis using events_moved(1) [OF m2] unfolding e by auto
    next
      case 2
      then show ?thesis using sent_bytes_moved [OF m2] unfolding e by auto
    next
      case 3
      then show ?thesis using moved_refl [OF m2] unfolding e by (auto simp: same_line_def)
    qed
  qed
  then obtain w3 c3 where w3: "send_encoded env (fst sh) w = Some (w3, True)" "moved sh w2 (c\<lparr>pSendBuff := b2\<rparr>) w3 c3"
      "same_line (c\<lparr>pSendBuff := b2\<rparr>) c3" "transmitted sh w3 c3 = transmitted sh w2 (c\<lparr>pSendBuff := b2\<rparr>)"
    by blast
  moreover have "moved sh w c w3 c3" using w1(3) w2(2) w3(2) by (blast intro: moved_trans)
  moreover have "line_ok n c3" using assms(4) w2(4,5) unfolding line_ok_same [OF w3(3)] by (simp add: line_ok_def)
  ultimately show ?thesis using w1(4) w2(3) w3(3) by (fastforce simp: same_line_def)
qed

definition set_up :: "conn \<Rightarrow> bool" where
  "set_up c \<longleftrightarrow> unat (ucConnectStatus c) \<ge> unat CMD_RSP_TELL_WORKER"

text \<open>What sending a message does to the line: it is appended to what is transmitted, or it waits.\<close>

definition queued :: "wenv \<Rightarrow> msg_shell \<Rightarrow> msg_head \<Rightarrow> msg_body \<Rightarrow> 's worker \<Rightarrow> conn \<Rightarrow> 's worker \<Rightarrow> conn \<Rightarrow> bool" where
  "queued env sh head body w c w' c' \<longleftrightarrow>
     (if set_up c \<or> h_cmd head \<le> CMD_RSP_TELL_WORKER
      then transmitted sh w' c' = transmitted sh w c @ frame (w_pb env) (head, body) \<and>
        contents (pWaitForSendBuff c') = contents (pWaitForSendBuff c) \<and>
        ucConnectStatus c' = (if set_up c then ucConnectStatus c else ucast (h_cmd head))
      else transmitted sh w' c' = transmitted sh w c \<and>
        contents (pWaitForSendBuff c') = contents (pWaitForSendBuff c) @ frame (w_pb env) (head, body) \<and>
        ucConnectStatus c' = ucConnectStatus c)"

lemma SendTo_msg_moved:
  assumes "proto_env env" "map_ok (m_mapFdAttr w)" "conn_of sh w = Some c" "eCodecType c = CODEC_PROTOBUF"
    "sendable (w_pb env) (head, body)" "line_ok (n + length (frame (w_pb env) (head, body))) c"
  shows "\<exists>w' c'. SendTo_msg env sh head body w = Some (w', True) \<and> moved sh w c w' c' \<and> line_ok n c' \<and>
    queued env sh head body w c w' c'"
proof (cases "set_up c \<or> h_cmd head \<le> CMD_RSP_TELL_WORKER")
  case True
  obtain b where b: "ProtoCodec_Encode (w_pb env) (w_malloc env) head body (pSendBuff c) = Some (b, CODEC_STATUS_OK)" "wf_cbuffer b"
      "contents b = contents (pSendBuff c) @ frame (w_pb env) (head, body)"
      "m_write_idx b \<le> m_write_idx (pSendBuff c) + length (frame (w_pb env) (head, body))"
    using Encode_line [OF assms(1,5), of "pSendBuff c"] assms(6) by (auto simp: line_ok_def)
  define f where "f = (\<lambda>c. c\<lparr>pSendBuff := b, ucConnectStatus := (if set_up c then ucConnectStatus c else ucast (h_cmd head))\<rparr>)"
  have su: "set_up (c\<lparr>pSendBuff := b\<rparr>) = set_up c" by (simp add: set_up_def)
  have m1: "moved sh w c (upd_conn (fst sh) f w) (f c)" by (rule moved_upd [OF assms(2,3)]) (simp_all add: f_def)
  then have m1': "map_ok (m_mapFdAttr (upd_conn (fst sh) f w))" "conn_of sh (upd_conn (fst sh) f w) = Some (f c)"
    by (simp_all add: moved_def)
  have l1: "line_ok n (f c)" using assms(6) b(2,4) by (auto simp: line_ok_def f_def)
  obtain w' c' where w': "send_encoded env (fst sh) (upd_conn (fst sh) f w) = Some (w', True)" "moved sh (upd_conn (fst sh) f w) (f c) w' c'"
      "line_ok n c'" "ucConnectStatus c' = ucConnectStatus (f c)" "pWaitForSendBuff c' = pWaitForSendBuff (f c)"
      "transmitted sh w' c' = transmitted sh (upd_conn (fst sh) f w) (f c)"
    using send_encoded_moved [OF assms(1) m1' l1] by blast
  have "SendTo_msg env sh head body w = send_encoded env (fst sh) (upd_conn (fst sh) f w)"
  proof (cases "set_up c")
    case s: True
    then have "upd_conn (fst sh) f w = upd_conn (fst sh) (\<lambda>c. c\<lparr>pSendBuff := b\<rparr>) w"
      using assms(3) by (simp add: upd_conn_def f_def conn_of_find)
    then show ?thesis
      using s assms(3,4) b(1) proto_envD(5) [OF assms(1)] by (simp add: SendTo_msg_def encode_to_def set_up_def Let_def not_less)
  next
    case s: False
    have "upd_conn (fst sh) f w = upd_conn (fst sh) (\<lambda>c. c\<lparr>ucConnectStatus := ucast (h_cmd head)\<rparr>) (upd_conn (fst sh) (\<lambda>c. c\<lparr>pSendBuff := b\<rparr>) w)"
      using s assms(2,3) by (simp add: upd_conn_def f_def conn_of_find map_find_put)
    then show ?thesis
      using s True assms(3,4) b(1) proto_envD(5) [OF assms(1)] by (simp add: SendTo_msg_def encode_to_def set_up_def Let_def not_le)
  qed
  moreover have "queued env sh head body w c w' c'"
    using True w'(4-6) b(3) by (simp add: queued_def f_def transmitted_def)
  moreover have "moved sh w c w' c'" by (rule moved_trans [OF m1 w'(2)])
  ultimately show ?thesis using w'(1,3) by auto
next
  case False
  obtain b where b: "ProtoCodec_Encode (w_pb env) (w_malloc env) head body (pWaitForSendBuff c) = Some (b, CODEC_STATUS_OK)" "wf_cbuffer b"
      "contents b = contents (pWaitForSendBuff c) @ frame (w_pb env) (head, body)"
      "m_write_idx b \<le> m_write_idx (pWaitForSendBuff c) + length (frame (w_pb env) (head, body))"
    using Encode_line [OF assms(1,5), of "pWaitForSendBuff c"] assms(6) by (auto simp: line_ok_def)
  let ?f = "\<lambda>c. c\<lparr>pWaitForSendBuff := b\<rparr>"
  have "SendTo_msg env sh head body w = Some (upd_conn (fst sh) ?f w, True)"
    using False assms(3,4) b(1) proto_envD(5) [OF assms(1)] by (auto simp: SendTo_msg_def encode_to_def set_up_def Let_def not_le dest: leD)
  moreover have "moved sh w c (upd_conn (fst sh) ?f w) (?f c)" by (rule moved_upd [OF assms(2,3)]) simp_all
  moreover have "line_ok n (?f c)" using assms(6) b(2-4) by (auto simp: line_ok_def)
  moreover have "queued env sh head body w c (upd_conn (fst sh) ?f w) (?f c)"
    using False b(3) by (simp add: queued_def transmitted_def)
  ultimately show ?thesis by blast
qed

section \<open>The channel\<close>

lemma movedD:
  assumes "moved sh w c w' c'"
  shows "map_ok (m_mapFdAttr w')" "conn_of sh w' = Some c'" "eCodecType c' = eCodecType c" "io_view w' = io_view w"
  using assms by (simp_all add: moved_def)

lemma IoWrite_moved:
  assumes "proto_env (c_env code)" "map_ok (m_mapFdAttr w)" "conn_of sh w = Some c" "line_ok n c" "contents (pWaitForSendBuff c) = []"
  shows "\<exists>w' c'. IoWrite code sh w = Some (w', True) \<and> moved sh w c w' c' \<and> line_ok n c' \<and>
    ucConnectStatus c' = ucConnectStatus c \<and> pWaitForSendBuff c' = pWaitForSendBuff c \<and> transmitted sh w' c' = transmitted sh w c"
proof -
  obtain w1 b len err where w1: "write_out (c_env code) (fst sh) c w = Some (w1, len, err)" "moved sh w c w1 (c\<lparr>pSendBuff := b\<rparr>)"
      "transmitted sh w1 (c\<lparr>pSendBuff := b\<rparr>) = transmitted sh w c" "wf_cbuffer b" "m_write_idx b \<le> m_write_idx (pSendBuff c)"
      "len < 0 \<longrightarrow> err = Some EAGAIN \<or> err = Some EINTR"
    using write_out_spec [OF assms(1-3)] assms(4) by (auto simp: line_ok_def)
  let ?need = "int_of_size (ReadableBytes (pSendBuff c))"
  have "ReadableBytes (pWaitForSendBuff c) = 0"
    using assms(4,5) length_contents [of "pWaitForSendBuff c"] by (simp add: line_ok_def)
  then have fw: "first_write code sh c w1 = Some w1" by (simp add: first_write_def)
  obtain w2 c2 where w2: "after_write (c_env code) (fst sh) ?need len err w1 = Some (w2, True)" "moved sh w1 (c\<lparr>pSendBuff := b\<rparr>) w2 c2"
      "same_line (c\<lparr>pSendBuff := b\<rparr>) c2" "transmitted sh w2 c2 = transmitted sh w1 (c\<lparr>pSendBuff := b\<rparr>)"
    using after_write_moved [OF movedD(1,2) [OF w1(2)] w1(6)] by blast
  have "IoWrite code sh w = Some (w2, True)"
    using assms(3) w1(1,6) w2(1) fw by (auto simp: IoWrite_def after_write_def Let_def split: if_splits)
  moreover have "moved sh w c w2 c2" by (rule moved_trans [OF w1(2) w2(2)])
  moreover have "line_ok n c2" using assms(4) w1(4,5) unfolding line_ok_same [OF w2(3)] by (simp add: line_ok_def)
  ultimately show ?thesis using w1(3) w2(3,4) by (fastforce simp: same_line_def)
qed

text \<open>What happens on a connection after the set-up: messages are sent, the buffer is flushed, the event loop
  reports that the socket can be written.\<close>

datatype line_op = SendMsg msg_head msg_body | Flush | Writable

fun do_line :: "('d, 'u) wcode \<Rightarrow> msg_shell \<Rightarrow> line_op list \<Rightarrow> 'u wk \<Rightarrow> 'u wk option" where
  "do_line code sh [] w = Some w"
| "do_line code sh (x # xs) w =
     Option.bind (map_option fst (case x of SendMsg head body \<Rightarrow> SendTo_msg (c_env code) sh head body w
                                  | Flush \<Rightarrow> SendTo_shell (c_env code) sh w | Writable \<Rightarrow> IoWrite code sh w))
       (do_line code sh xs)"

fun msgs_of :: "line_op list \<Rightarrow> (msg_head \<times> msg_body) list" where
  "msgs_of [] = []"
| "msgs_of (SendMsg head body # xs) = (head, body) # msgs_of xs"
| "msgs_of (_ # xs) = msgs_of xs"

abbreviation frames :: "wenv \<Rightarrow> (msg_head \<times> msg_body) list \<Rightarrow> byte list" where
  "frames env ms \<equiv> concat (map (frame (w_pb env)) ms)"

lemma do_line_moved:
  assumes "proto_env (c_env code)"
  shows "map_ok (m_mapFdAttr w) \<Longrightarrow> conn_of sh w = Some c \<Longrightarrow> eCodecType c = CODEC_PROTOBUF \<Longrightarrow> set_up c \<Longrightarrow>
    contents (pWaitForSendBuff c) = [] \<Longrightarrow> \<forall>m \<in> set (msgs_of xs). sendable (w_pb (c_env code)) m \<Longrightarrow>
    line_ok (length (frames (c_env code) (msgs_of xs))) c \<Longrightarrow>
    \<exists>w' c'. do_line code sh xs w = Some w' \<and> moved sh w c w' c' \<and> line_ok 0 c' \<and>
      transmitted sh w' c' = transmitted sh w c @ frames (c_env code) (msgs_of xs)"
proof (induction xs arbitrary: w c)
  case Nil
  then show ?case using moved_refl [of w sh c] by (intro exI [of _ w] exI [of _ c]) simp
next
  case (Cons x xs)
  let ?env = "c_env code"
  let ?n = "length (frames ?env (msgs_of xs))"
  obtain w1 c1 ys where step: "map_option fst (case x of SendMsg head body \<Rightarrow> SendTo_msg ?env sh head body w
        | Flush \<Rightarrow> SendTo_shell ?env sh w | Writable \<Rightarrow> IoWrite code sh w) = Some w1"
      "moved sh w c w1 c1" "line_ok ?n c1" "ucConnectStatus c1 = ucConnectStatus c" "contents (pWaitForSendBuff c1) = []"
      "transmitted sh w1 c1 = transmitted sh w c @ ys" "frames ?env (msgs_of (x # xs)) = ys @ frames ?env (msgs_of xs)"
  proof (cases x)
    case (SendMsg head body)
    have "sendable (w_pb ?env) (head, body)" "line_ok (?n + length (frame (w_pb ?env) (head, body))) c"
      using Cons.prems(6,7) by (simp_all add: SendMsg add.commute)
    from SendTo_msg_moved [OF assms Cons.prems(1-3) this] Cons.prems(4,5) show ?thesis
      by (fastforce simp: SendMsg queued_def intro: that)
  next
    case Flush
    with SendTo_shell_moved [OF assms Cons.prems(1,2,7)] Cons.prems(5) show ?thesis by (auto intro: that)
  next
    case Writable
    with IoWrite_moved [OF assms Cons.prems(1,2,7,5)] Cons.prems(5) show ?thesis by (auto intro: that)
  qed
  have "set_up c1" "eCodecType c1 = CODEC_PROTOBUF" "\<forall>m \<in> set (msgs_of xs). sendable (w_pb ?env) m"
    using Cons.prems(3,4,6) step(4) movedD(3) [OF step(2)] by (cases x; simp add: set_up_def)+
  from Cons.IH [OF movedD(1,2) [OF step(2)] this(2,1) step(5) this(3) step(3)] show ?case
    using step(1,2,6,7) by (fastforce intro: moved_trans)
qed

end
