(* ===== verification/Worker_Learn.thy ===== *)
theory Worker_Learn
  imports Worker_Notice
begin

text \<open>
  From the center to the routing table: the notices that the center prints are read by the worker, and
  afterwards exactly the announced workers are in its table.
\<close>

section \<open>Reading an entry the center wrote\<close>

type_synonym node_entry = "string \<times> string \<times> int \<times> int"

definition entry_json :: "node_entry \<Rightarrow> jval" where
  "entry_json e = (case e of (ty, ip, port, num) \<Rightarrow> node_json ty ip port num)"

definition worker_names :: "node_entry \<Rightarrow> string list" where
  "worker_names e = (case e of (ty, ip, port, num) \<Rightarrow> map (\<lambda>j. fmt_identify ip port (int j)) [0..<nat num])"

definition entry_fits :: "node_entry \<Rightarrow> bool" where
  "entry_fits e \<longleftrightarrow>
     (case e of (ty, ip, port, num) \<Rightarrow>
        in32 port \<and> in32 num \<and> CHR 0x00 \<notin> set ty \<and> CHR 0x00 \<notin> set ip \<and>
        (\<forall>ident \<in> set (worker_names e). length ident < 50))"

lemma entry_keys:
  "cJSON_strcasecmp_eq (Some (ascii ''node_type'')) (Some (c_bytes (ascii ''node_type'')))"
  "\<not> cJSON_strcasecmp_eq (Some (ascii ''node_type'')) (Some (c_bytes (ascii ''node_ip'')))"
  "\<not> cJSON_strcasecmp_eq (Some (ascii ''node_type'')) (Some (c_bytes (ascii ''node_port'')))"
  "\<not> cJSON_strcasecmp_eq (Some (ascii ''node_type'')) (Some (c_bytes (ascii ''worker_num'')))"
  "cJSON_strcasecmp_eq (Some (ascii ''node_ip'')) (Some (c_bytes (ascii ''node_ip'')))"
  "\<not> cJSON_strcasecmp_eq (Some (ascii ''node_ip'')) (Some (c_bytes (ascii ''node_port'')))"
  "\<not> cJSON_strcasecmp_eq (Some (ascii ''node_ip'')) (Some (c_bytes (ascii ''worker_num'')))"
  "cJSON_strcasecmp_eq (Some (ascii ''node_port'')) (Some (c_bytes (ascii ''node_port'')))"
  "\<not> cJSON_strcasecmp_eq (Some (ascii ''node_port'')) (Some (c_bytes (ascii ''worker_num'')))"
  "cJSON_strcasecmp_eq (Some (ascii ''worker_num'')) (Some (c_bytes (ascii ''worker_num'')))"
  "cJSON_strcasecmp_eq (Some (ascii ''node_arry_reg'')) (Some (c_bytes (ascii ''node_arry_reg'')))"
  "cJSON_strcasecmp_eq (Some (ascii ''node_arry_exit'')) (Some (c_bytes (ascii ''node_arry_exit'')))"
  "\<not> cJSON_strcasecmp_eq (Some (ascii ''node_arry_reg'')) (Some (c_bytes (ascii ''node_arry_exit'')))"
  "\<not> cJSON_strcasecmp_eq (Some (ascii ''node_arry_exit'')) (Some (c_bytes (ascii ''node_arry_reg'')))"
  by code_simp+

lemma chars_ascii [simp]: "chars (ascii s) = s"
  by (simp add: chars_def ascii_def comp_def unsigned_of_nat take_bit_eq_mod flip: id_def)

lemma item_int32_jval: "in32 i \<Longrightarrow> item_int32 (of_jval fp nm (JInt i)) = Some i"
  by (simp add: item_int32_def item_uint64_def has_type_def ucast_of_int sint_in32)

lemma notice_entry_json:
  assumes "in32 port" "in32 num"
  shows "notice_entry (extern_jobj (of_jval fp nm (node_json ty ip port num))) v = ((ty, ip, port, num), True)"
  by (simp add: notice_entry_def node_json_def json_obj_def jstr_def Get_key_string_def Get_key_int32_def get_member_def
      extern_jobj_def focus_def cJSON_GetObjectItem_def entry_keys has_type_def item_string_def
      item_int32_jval assms       split: prod.split del: of_jval.simps(3))

section \<open>The loops of the step\<close>

lemma each_worker_fold:
  "\<forall>j' \<in> {j..<j + k}. length (fmt_identify ip port (int j')) < 50 \<Longrightarrow>
     each_worker f ip port j k w = Some (fold f (map (\<lambda>j. fmt_identify ip port (int j)) [j..<j + k]) w)"
proof (induction k arbitrary: j w)
  case (Suc k)
  have "\<forall>j' \<in> {Suc j..<Suc j + k}. length (fmt_identify ip port (int j')) < 50" using Suc.prems by auto
  moreover have "length (fmt_identify ip port (int j)) < 50" using Suc.prems by auto
  moreover have "[j..<j + Suc k] = j # [Suc j..<Suc j + k]" by (simp add: upt_conv_Cons)
  ultimately show ?case using Suc.IH by simp
qed simp

lemma each_worker_names:
  "entry_fits (ty, ip, port, num) \<Longrightarrow>
     each_worker f ip port 0 (nat num) w = Some (fold f (worker_names (ty, ip, port, num)) w)"
  by (subst each_worker_fold) (auto simp: entry_fits_def worker_names_def)

lemma at_index_entry:
  assumes "elements arr = map (of_jval fp None \<circ> entry_json) es" "i < length es" "length es < 2 ^ 31"
  shows "at_index arr (of_nat i) = extern_jobj (of_jval fp None (entry_json (es ! i)))"
proof -
  have "sint (of_nat i :: u32) = int i" using assms by (simp add: signed_of_nat signed_take_bit_int_eq_self)
  with assms show ?thesis by (simp add: at_index_def get_element_nth)
qed

lemma each_entry_fold:
  assumes "elements arr = map (of_jval fp None \<circ> entry_json) es" "length es < 2 ^ 31" "\<forall>e \<in> set es. entry_fits e"
  shows "i + k = length es \<Longrightarrow>
    \<exists>v'. each_entry f arr i k v w = Some (fold (\<lambda>e. fold (f (fst e)) (worker_names e)) (drop i es) w, v')"
proof (induction k arbitrary: i v w)
  case 0
  then show ?case by (intro exI [of _ v]) simp
next
  case (Suc k)
  obtain ty ip port num where e: "es ! i = (ty, ip, port, num)" by (cases "es ! i")
  have fits: "entry_fits (ty, ip, port, num)" using assms(3) Suc.prems e by (metis nth_mem less_add_same_cancel1 zero_less_Suc)
  have "notice_entry (at_index arr (of_nat i)) v = ((ty, ip, port, num), True)"
    using fits at_index_entry [OF assms(1) _ assms(2), of i] Suc.prems e
    by (simp add: entry_json_def entry_fits_def notice_entry_json)
  moreover have "drop i es = (ty, ip, port, num) # drop (Suc i) es"
    using Suc.prems e by (metis Cons_nth_drop_Suc less_add_same_cancel1 zero_less_Suc)
  ultimately show ?case
    using Suc.IH [of "Suc i"] Suc.prems by (simp add: each_worker_names [OF fits])
qed

section \<open>What the table holds afterwards\<close>

definition announced :: "node_entry list \<Rightarrow> (string \<times> string) list" where
  "announced es = concat (map (\<lambda>e. map (\<lambda>ident. (ident, fst e)) (worker_names e)) es)"

lemma fold_announced:
  "fold (\<lambda>e. fold (f (fst e)) (worker_names e)) es w = fold (\<lambda>(ident, ty). f ty ident) (announced es) w"
  by (induction es arbitrary: w) (simp_all add: announced_def fold_map comp_def)

lemma announced_Add:
  "routing_ok w \<Longrightarrow> routing_ok (fold (\<lambda>(ident, ty). AddNodeIdentify ty ident) ps w) \<and>
     route_of (fold (\<lambda>(ident, ty). AddNodeIdentify ty ident) ps w) =
       (\<lambda>ident. case route_of w ident of None \<Rightarrow> map_of ps ident | Some ty \<Rightarrow> Some ty)"
proof (induction ps arbitrary: w)
  case (Cons p ps)
  obtain ident ty where p: "p = (ident, ty)" by (cases p)
  have "routing_ok (AddNodeIdentify ty ident w)" using Cons.prems by simp
  from Cons.IH [OF this] show ?case
    unfolding p by (auto simp: AddNodeIdentify_fields(1) [OF Cons.prems] fun_eq_iff split: option.split)
qed (auto simp: fun_eq_iff split: option.split)

lemma announced_Del:
  "routing_ok w \<Longrightarrow> routing_ok (fold (\<lambda>(ident, ty). DelNodeIdentify ty ident) ps w) \<and>
     route_of (fold (\<lambda>(ident, ty). DelNodeIdentify ty ident) ps w) = route_of w |` (- fst ` set ps)"
proof (induction ps arbitrary: w)
  case (Cons p ps)
  obtain ident ty where p: "p = (ident, ty)" by (cases p)
  have "routing_ok (DelNodeIdentify ty ident w)" using Cons.prems by simp
  from Cons.IH [OF this] show ?case
    unfolding p by (auto simp: DelNodeIdentify_fields(1) [OF Cons.prems] fun_eq_iff restrict_map_def)
qed auto

lemma Emit_announced:
  assumes "elements (at_key ob (ascii ''node_arry_reg'')) = map (of_jval fp None \<circ> entry_json) es"
    "elements (at_key ob (ascii ''node_arry_exit'')) = map (of_jval fp' None \<circ> entry_json) xs"
    "length es < 2 ^ 31" "length xs < 2 ^ 31" "\<forall>e \<in> set es \<union> set xs. entry_fits e" "routing_ok w"
  shows "\<exists>w'. StepNodeNotice_Emit ob w = Some w' \<and> routing_ok w' \<and>
    route_of w' = (\<lambda>ident. case route_of w ident of None \<Rightarrow> map_of (announced es) ident | Some ty \<Rightarrow> Some ty) |` (- fst ` set (announced xs))"
proof -
  let ?w = "fold (\<lambda>e. fold (AddNodeIdentify (fst e)) (worker_names e)) es w"
  have reg: "\<exists>v. each_entry AddNodeIdentify (at_key ob (ascii ''node_arry_reg'')) 0 (length es) ([], [], 0, 0) w = Some (?w, v)"
    using each_entry_fold [OF assms(1,3), where i = 0 and k = "length es"] assms(5) by simp
  have exit: "\<exists>v'. each_entry DelNodeIdentify (at_key ob (ascii ''node_arry_exit'')) 0 (length xs) v ?w =
      Some (fold (\<lambda>e. fold (DelNodeIdentify (fst e)) (worker_names e)) xs ?w, v')" for v
    using each_entry_fold [OF assms(2,4), where i = 0 and k = "length xs"] assms(5) by simp
  have "StepNodeNotice_Emit ob w = Some (fold (\<lambda>e. fold (DelNodeIdentify (fst e)) (worker_names e)) xs ?w)"
    using reg exit by (fastforce simp: StepNodeNotice_Emit_def Let_def get_element_nth(2) assms(1,2))
  then show ?thesis
    using announced_Add [OF assms(6), of "announced es"]
      announced_Del [OF conjunct1 [OF announced_Add [OF assms(6), of "announced es"]], of "announced xs"]
    by (simp add: fold_announced)
qed

definition notice_json :: "string \<Rightarrow> node_entry list \<Rightarrow> jval" where
  "notice_json key es = json_obj [(key, JArr (map entry_json es))]"

abbreviation notice_ob :: "'d fpu \<Rightarrow> string \<Rightarrow> node_entry list \<Rightarrow> 'd jobj" where
  "notice_ob fp key es \<equiv> empty_jobj\<lparr>jdata := Some (of_jval fp None (notice_json key es))\<rparr>"

lemma notice_arrays:
  "elements (at_key (notice_ob fp ''node_arry_reg'' es) (ascii ''node_arry_reg'')) = map (of_jval fp None \<circ> entry_json) es"
  "elements (at_key (notice_ob fp ''node_arry_reg'' es) (ascii ''node_arry_exit'')) = map (of_jval fp None \<circ> entry_json) []"
  "elements (at_key (notice_ob fp ''node_arry_exit'' es) (ascii ''node_arry_exit'')) = map (of_jval fp None \<circ> entry_json) es"
  "elements (at_key (notice_ob fp ''node_arry_exit'' es) (ascii ''node_arry_reg'')) = map (of_jval fp None \<circ> entry_json) []"
  by (simp_all add: notice_json_def json_obj_def at_key_def get_member_def focus_def cJSON_GetObjectItem_def
      entry_keys has_type_def extern_jobj_def empty_jobj_def elements_def)

lemma wf_ascii: "CHR 0x00 \<notin> set s \<Longrightarrow> 0 \<notin> set (ascii s)"
proof
  assume s: "CHR 0x00 \<notin> set s" and z: "0 \<in> set (ascii s)"
  have "char_of (unat (0 :: byte)) \<in> set (chars (ascii s))" unfolding chars_def set_map by (rule imageI [OF z])
  moreover have "char_of (0 :: nat) = CHR 0x00" by code_simp
  ultimately show False using s by simp
qed

lemma wf_notice:
  assumes "\<forall>e \<in> set es. entry_fits e"
  shows "wf_jval (notice_json ''node_arry_reg'' es)" "wf_jval (notice_json ''node_arry_exit'' es)"
proof -
  have keys: "0 \<notin> set (ascii ''node_arry_reg'')" "0 \<notin> set (ascii ''node_arry_exit'')" "0 \<notin> set (ascii ''node_type'')"
    "0 \<notin> set (ascii ''node_ip'')" "0 \<notin> set (ascii ''node_port'')" "0 \<notin> set (ascii ''worker_num'')"
    by code_simp+
  have "wf_jval (entry_json e)" if "e \<in> set es" for e
    using bspec [OF assms that] keys
    by (auto simp: entry_fits_def entry_json_def node_json_def json_obj_def jstr_def wf_ascii in32_def split: prod.splits)
  then show "wf_jval (notice_json ''node_arry_reg'' es)" "wf_jval (notice_json ''node_arry_exit'' es)"
    using keys by (auto simp: notice_json_def json_obj_def)
qed

section \<open>The command\<close>

definition step_fresh :: "'s worker \<Rightarrow> bool" where
  "step_fresh w \<longleftrightarrow> map_find (snd (GetSequence_worker w)) (m_mapCallbackStep w) = None"

lemma RegisterCallback_fresh:
  assumes "step_fresh w"
  obtains w' sq where "RegisterCallback_step st w = (w', sq, True)" "route_view w' = route_view w"
  using assms that by (fastforce simp: step_fresh_def RegisterCallback_step_def GetSequence_worker_def Let_def)

lemma CmdNodeNotice_Emit:
  assumes "step_fresh w" "h_cmd head = iCmd" "Jobj_Parse fp junk (b_body body) = Done (ob, True)"
    "\<And>v. route_view v = route_view w \<Longrightarrow> \<exists>w'. StepNodeNotice_Emit ob v = Some w' \<and> P w'"
  shows "\<exists>w'. CmdNodeNotice_AnyMessage fp junk iCmd st head body w = Some (w', True) \<and> P w'"
proof -
  obtain v sq where v: "RegisterCallback_step st w = (v, sq, True)" "route_view v = route_view w"
    using RegisterCallback_fresh [OF assms(1)] by blast
  then obtain w' where "StepNodeNotice_Emit ob v = Some w'" "P w'" using assms(4) by blast
  then show ?thesis using assms(2,3) v(1) by (simp add: CmdNodeNotice_AnyMessage_def)
qed

definition info_entry :: "st_NodeInfo \<Rightarrow> node_entry" where
  "info_entry i = (node_type i, node_ip i, node_port i, worker_num i)"

text \<open>What the center tells a node that needs the types \<open>needed\<close>: the registered nodes, then itself.\<close>

definition needed_entries :: "string list \<Rightarrow> 'db center \<Rightarrow> node_entry list" where
  "needed_entries needed c =
     concat (map (\<lambda>e. map (\<lambda>_. info_entry (snd e)) (filter (\<lambda>ty. ty = node_type (snd e)) needed)) (m_mapNodeInfo c)) @
     [(m_center_node_type c, m_center_inner_host c, m_center_inner_port c, m_center_process_num c)]"

lemma needed_json: "GetNeededRegisteredNodes needed c = notice_json ''node_arry_reg'' (needed_entries needed c)"
  by (simp add: GetNeededRegisteredNodes_def notice_json_def needed_entries_def entry_json_def info_entry_def info_json_def
      map_concat comp_def)

lemma exit_json: "json_obj [(''node_arry_exit'', JArr [info_json gone])] = notice_json ''node_arry_exit'' [info_entry gone]"
  by (simp add: notice_json_def entry_json_def info_entry_def info_json_def)

lemma needed_announced:
  assumes "(k, info) \<in> set (m_mapNodeInfo c)" "node_type info \<in> set needed" "j < nat (worker_num info)"
  shows "map_of (announced (needed_entries needed c)) (fmt_identify (node_ip info) (node_port info) (int j)) \<noteq> None"
proof -
  have "info_entry info \<in> set (needed_entries needed c)" using assms(1,2) by (force simp: needed_entries_def)
  moreover have "fmt_identify (node_ip info) (node_port info) (int j) \<in> set (worker_names (info_entry info))"
    using assms(3) by (auto simp: worker_names_def info_entry_def)
  ultimately have "fmt_identify (node_ip info) (node_port info) (int j) \<in> fst ` set (announced (needed_entries needed c))"
    by (auto simp: announced_def image_UN image_image)
  then show ?thesis by (simp add: map_of_eq_None_iff)
qed

section \<open>Properties\<close>

text \<open>C28: What the center tells a node about the nodes it needs arrives. The printed notice is parsed and
  understood in full, the table stays consistent, every worker that was known keeps its type, every other
  worker of a listed node is added with the type of the first entry that lists it, and nothing else changes.
  So every worker of every registered node of a needed type is routable afterwards.\<close>

theorem node_notice_learned:
  assumes "routing_ok w" "step_fresh w" "h_cmd head = iCmd"
    "\<forall>e \<in> set (needed_entries needed c). entry_fits e" "length (needed_entries needed c) < 2 ^ 31"
  shows "\<exists>w'. CmdNodeNotice_AnyMessage fp junk iCmd st head (plain_body (body_of fp (GetNeededRegisteredNodes needed c))) w =
      Some (w', True) \<and> routing_ok w' \<and>
    route_of w' = (\<lambda>ident. case route_of w ident of None \<Rightarrow> map_of (announced (needed_entries needed c)) ident | Some ty \<Rightarrow> Some ty) \<and>
    (\<forall>(k, info) \<in> set (m_mapNodeInfo c). node_type info \<in> set needed \<longrightarrow>
      (\<forall>j < nat (worker_num info). route_of w' (fmt_identify (node_ip info) (node_port info) (int j)) \<noteq> None))"
proof (rule CmdNodeNotice_Emit [OF assms(2,3)])
  show "Jobj_Parse fp junk (b_body (plain_body (body_of fp (GetNeededRegisteredNodes needed c)))) =
      Done (notice_ob fp ''node_arry_reg'' (needed_entries needed c), True)"
    by (simp add: plain_body_def needed_json Jobj_Parse_body_of wf_notice(1) [OF assms(4)])
next
  fix v :: "'a worker" assume "route_view v = route_view w"
  note v = route_viewD [OF this]
  obtain w' where "StepNodeNotice_Emit (notice_ob fp ''node_arry_reg'' (needed_entries needed c)) v = Some w'" "routing_ok w'"
      "route_of w' = (\<lambda>ident. case route_of w ident of None \<Rightarrow> map_of (announced (needed_entries needed c)) ident | Some ty \<Rightarrow> Some ty)"
    using Emit_announced [OF notice_arrays(1) [of fp] notice_arrays(2) [of fp] assms(5), where w = v] assms(1,4) v(1,5)
    by (auto simp: announced_def [of "[]"] restrict_map_def)
  moreover from this(3) have "\<forall>(k, info) \<in> set (m_mapNodeInfo c). node_type info \<in> set needed \<longrightarrow>
      (\<forall>j < nat (worker_num info). route_of w' (fmt_identify (node_ip info) (node_port info) (int j)) \<noteq> None)"
    using needed_announced [of _ _ c needed] by (auto split: option.split)
  ultimately show "\<exists>w'. StepNodeNotice_Emit (notice_ob fp ''node_arry_reg'' (needed_entries needed c)) v = Some w' \<and>
     routing_ok w' \<and>
     route_of w' = (\<lambda>ident. case route_of w ident of None \<Rightarrow> map_of (announced (needed_entries needed c)) ident | Some ty \<Rightarrow> Some ty) \<and>
     (\<forall>(k, info) \<in> set (m_mapNodeInfo c). node_type info \<in> set needed \<longrightarrow>
      (\<forall>j < nat (worker_num info). route_of w' (fmt_identify (node_ip info) (node_port info) (int j)) \<noteq> None))"
    by blast
qed

definition learn_center :: "nat center" where
  "learn_center = wit_center\<lparr>m_mapNodeInfo := [(''10.0.0.5:9001'', wit_info)]\<rparr>"

definition learn_worker :: "unit worker" where
  "learn_worker = AddNodeIdentify ''LOGIC'' ''10.0.0.7:9001.0'' (Init_worker 3 4 0 ''ACCESS'' ''n'' 1 [(''10.0.0.1'', ''9000'')])"

definition wit_notice_head :: msg_head where
  "wit_notice_head = \<lparr>h_cmd = 101, h_msgbody_len = 0, h_seq = 1\<rparr>"

lemma learn_names:
  "fmt_d 9001 = ''9001''" "fmt_d 9000 = ''9000''" "fmt_d 0 = ''0''" "fmt_d 1 = ''1''" "fmt_d 2 = ''2''" "fmt_d 3 = ''3''"
  by (simp_all add: fmt_d_def dec.simps digit_char_def) code_simp+

lemma learn_keys:
  "needed_entries [''LOGIC''] learn_center = [(''LOGIC'', ''10.0.0.5'', 9001, 4), (''CENTER'', ''10.0.0.1'', 9000, 1)]"
  "worker_names (''LOGIC'', ''10.0.0.5'', 9001, 4) = [''10.0.0.5:9001.0'', ''10.0.0.5:9001.1'', ''10.0.0.5:9001.2'', ''10.0.0.5:9001.3'']"
  "worker_names (''CENTER'', ''10.0.0.1'', 9000, 1) = [''10.0.0.1:9000.0'']"
  "worker_names (''LOGIC'', ''10.0.0.7'', 9001, 1) = [''10.0.0.7:9001.0'']"
  "route_of learn_worker ''10.0.0.5:9001.3'' = None" "route_of learn_worker ''10.0.0.7:9001.0'' = Some ''LOGIC''"
  "fmt_identify ''10.0.0.7'' 9001 0 = ''10.0.0.7:9001.0''" "step_fresh learn_worker"
proof -
  show "needed_entries [''LOGIC''] learn_center = [(''LOGIC'', ''10.0.0.5'', 9001, 4), (''CENTER'', ''10.0.0.1'', 9000, 1)]"
    by (simp add: needed_entries_def learn_center_def wit_center_def info_entry_def wit_info_def)
qed (simp_all add: worker_names_def fmt_identify_def learn_names upt_rec [of _ 4] upt_rec [of _ 3] c_str_def numeral_eq_Suc
    learn_worker_def route_of_def AddNodeIdentify_def Init_worker_def step_fresh_def GetSequence_worker_def Let_def)

lemma learn_facts:
  "routing_ok learn_worker" "h_cmd wit_notice_head = 101"
  "\<forall>e \<in> set (needed_entries [''LOGIC''] learn_center). entry_fits e"
  "length (needed_entries [''LOGIC''] learn_center) < 2 ^ 31"
  "entry_fits (info_entry (wit_info\<lparr>node_ip := ''10.0.0.7'', worker_num := 1\<rparr>))"
  by (simp add: learn_worker_def routing_ok_init)
    (simp_all add: wit_notice_head_def learn_keys entry_fits_def in32_def info_entry_def wit_info_def)

theorem node_notice_learned_witness:
  "\<exists>w'. CmdNodeNotice_AnyMessage int_fpu (0, 0) 101 () wit_notice_head
      (plain_body (body_of int_fpu (GetNeededRegisteredNodes [''LOGIC''] learn_center))) learn_worker = Some (w', True) \<and>
    route_of w' ''10.0.0.5:9001.3'' = Some ''LOGIC'' \<and> route_of w' ''10.0.0.7:9001.0'' = Some ''LOGIC''"
  using node_notice_learned [OF learn_facts(1) learn_keys(8) learn_facts(2-4), of int_fpu "(0, 0)" "()"]
  by (auto simp: learn_keys announced_def)

text \<open>The notice that a node has left, as the center prints it, takes exactly the workers of that node
  out of the table of a worker and keeps the table consistent.\<close>

theorem node_exit_forgotten:
  assumes "routing_ok w" "step_fresh w" "h_cmd head = iCmd" "entry_fits (info_entry gone)"
  shows "\<exists>w'. CmdNodeNotice_AnyMessage fp junk iCmd st head
      (plain_body (body_of fp (json_obj [(''node_arry_exit'', JArr [info_json gone])]))) w = Some (w', True) \<and> routing_ok w' \<and>
    route_of w' = route_of w |` (- {fmt_identify (node_ip gone) (node_port gone) (int j) | j. j < nat (worker_num gone)})"
proof (rule CmdNodeNotice_Emit [OF assms(2,3)])
  show "Jobj_Parse fp junk (b_body (plain_body (body_of fp (json_obj [(''node_arry_exit'', JArr [info_json gone])])))) =
      Done (notice_ob fp ''node_arry_exit'' [info_entry gone], True)"
    using assms(4) by (simp add: plain_body_def exit_json Jobj_Parse_body_of wf_notice(2))
next
  fix v :: "'a worker" assume "route_view v = route_view w"
  note v = route_viewD [OF this]
  have "fst ` set (announced [info_entry gone]) = {fmt_identify (node_ip gone) (node_port gone) (int j) | j. j < nat (worker_num gone)}"
    by (simp add: announced_def info_entry_def worker_names_def image_image) auto
  moreover have "(\<lambda>ident. case m ident of None \<Rightarrow> map_of (announced []) ident | Some ty \<Rightarrow> Some ty) = m" for m :: "string \<rightharpoonup> string"
    by (auto simp: announced_def fun_eq_iff split: option.split)
  ultimately show "\<exists>w'. StepNodeNotice_Emit (notice_ob fp ''node_arry_exit'' [info_entry gone]) v = Some w' \<and> routing_ok w' \<and>
     route_of w' = route_of w |` (- {fmt_identify (node_ip gone) (node_port gone) (int j) | j. j < nat (worker_num gone)})"
    using Emit_announced [OF notice_arrays(4) [of fp] notice_arrays(3) [of fp "[info_entry gone]"], where w = v] assms(1,4) v(1,5) by simp
qed

theorem node_exit_forgotten_witness:
  "\<exists>w'. CmdNodeNotice_AnyMessage int_fpu (0, 0) 101 () wit_notice_head
      (plain_body (body_of int_fpu (json_obj [(''node_arry_exit'', JArr [info_json (wit_info\<lparr>node_ip := ''10.0.0.7'', worker_num := 1\<rparr>)])])))
      learn_worker = Some (w', True) \<and>
    route_of w' ''10.0.0.7:9001.0'' = None"
  using node_exit_forgotten [OF learn_facts(1) learn_keys(8) learn_facts(2,5), of int_fpu "(0, 0)" "()"]
  by (auto simp: learn_keys wit_info_def restrict_map_def)

end
