(* ===== verification/Worker_Example.thy ===== *)
theory Worker_Example
  imports Worker_Stream Worker_Learn
begin

text \<open>
  A concrete environment for the witnesses: message classes that keep every field, an allocator that never
  fails and sockets that take every second write.
\<close>

section \<open>Generated classes\<close>

definition enc_list :: "byte list \<Rightarrow> byte list" where
  "enc_list xs = replicate (length xs) 1 @ 0 # xs"

definition dec_list :: "byte list \<Rightarrow> byte list \<times> byte list" where
  "dec_list ys = (let n = length (takeWhile (\<lambda>b. b = 1) ys); r = drop (Suc n) ys in (take n r, drop n r))"

lemma dec_enc_list [simp]: "dec_list (enc_list xs @ r) = (xs, r)" "dec_list (enc_list xs) = (xs, [])"
proof -
  have "takeWhile (\<lambda>b. b = 1) (replicate n (1 :: byte) @ 0 # ys) = replicate n 1" for n ys
    by (induction n) simp_all
  then show "dec_list (enc_list xs @ r) = (xs, r)" "dec_list (enc_list xs) = (xs, [])"
    by (simp_all add: dec_list_def enc_list_def Let_def)
qed

definition enc_opt :: "byte list option \<Rightarrow> byte list" where
  "enc_opt x = (case x of None \<Rightarrow> enc_list [] | Some xs \<Rightarrow> enc_list (1 # xs))"

definition dec_opt :: "byte list \<Rightarrow> byte list option" where
  "dec_opt xs = (case xs of [] \<Rightarrow> None | _ # ys \<Rightarrow> Some ys)"

definition body_ser :: "msg_body \<Rightarrow> byte list" where
  "body_ser m = enc_opt (map_option store_word (b_session_id m)) @ enc_opt (map_option ascii (b_session m)) @
     enc_opt (b_additional m) @ enc_list (b_body m)"

definition body_parse :: "byte list \<Rightarrow> msg_body" where
  "body_parse xs = (let (a, xs) = dec_list xs; (b, xs) = dec_list xs; (c, xs) = dec_list xs; (d, xs) = dec_list xs in
     \<lparr>b_body = d, b_session_id = map_option (\<lambda>x. load_word (x ! 0) (x ! 1) (x ! 2) (x ! 3)) (dec_opt a), b_session = map_option chars (dec_opt b), b_additional = dec_opt c\<rparr>)"

lemma dec_opt_enc: "dec_list (enc_opt x @ r) = ((case x of None \<Rightarrow> [] | Some xs \<Rightarrow> 1 # xs), r)"
  by (simp add: enc_opt_def split: option.split)

lemma body_parse_ser: "body_parse (body_ser m) = m"
proof -
  have "(\<lambda>x. load_word (x ! 0) (x ! 1) (x ! 2) (x ! 3)) (store_word i) = i" for i
  proof -
    obtain a b c d where w: "store_word i = [a, b, c, d]" by (simp add: store_word_def)
    from load_store_word [OF this] show ?thesis by (simp add: w)
  qed
  then show ?thesis
    by (cases m; cases "b_session_id m"; cases "b_session m"; cases "b_additional m")
      (simp_all add: body_parse_def body_ser_def dec_opt_enc dec_opt_def)
qed

definition example_pb :: "msg_body protobuf" where
  "example_pb = \<lparr>ser_head = ser_head wire_pb, parse_head = parse_head wire_pb, ser_body = body_ser,
     parse_body = (\<lambda>xs. (True, body_parse xs))\<rparr>"

lemma example_pb_ok: "pb_ok example_pb"
  using wire_pb_ok by (simp add: pb_ok_def example_pb_def body_parse_ser)

definition enc_int :: "int \<Rightarrow> byte list" where
  "enc_int n = enc_list ((if n < 0 then 1 else 0) # replicate (nat \<bar>n\<bar>) 0)"

definition dec_int :: "byte list \<Rightarrow> int" where
  "dec_int xs = (if hd xs = 1 then - int (length xs - 1) else int (length xs - 1))"

definition example_sys :: sys_pb where
  "example_sys = \<lparr>ser_connect = enc_int, parse_connect = (\<lambda>xs. Some (dec_int (fst (dec_list xs)))),
     ser_ordinary = (\<lambda>n s. enc_int n @ enc_list (ascii s)),
     parse_ordinary = (\<lambda>xs. Some (dec_int (fst (dec_list xs)))),
     ser_target = (\<lambda>t. enc_int (tw_err_no t) @ enc_list (ascii (tw_worker_identify t)) @ enc_list (ascii (tw_node_type t)) @
        enc_list (ascii (tw_err_msg t))),
     parse_target = (\<lambda>xs. let (a, xs) = dec_list xs; (b, xs) = dec_list xs; (c, xs) = dec_list xs; (d, xs) = dec_list xs in
        Some \<lparr>tw_err_no = dec_int a, tw_worker_identify = chars b, tw_node_type = chars c, tw_err_msg = chars d\<rparr>)\<rparr>"

lemma dec_int_enc: "dec_list (enc_int n @ r) = ((if n < 0 then 1 else 0) # replicate (nat \<bar>n\<bar>) 0, r)"
  by (simp add: enc_int_def)

lemma example_sys_ok: "sys_pb_ok example_sys"
  using dec_int_enc [of _ "[]"] by (simp add: sys_pb_ok_def example_sys_def dec_int_enc dec_int_def)

section \<open>The environment\<close>

definition example_env :: wenv where
  "example_env = \<lparr>w_pb = example_pb, w_malloc = zero_malloc,
     w_codec = (\<lambda>t. if t = CODEC_PROTOBUF then Some (ProtoCodec_Encode example_pb zero_malloc) else None),
     os_close = (\<lambda>_. None), os_socket = int, os_send = (\<lambda>k n. if even k then Inl EAGAIN else Inr n), disconnect_so = False\<rparr>"

lemma example_env_ok: "proto_env example_env"
  by (simp add: proto_env_def sends_ok_def example_env_def example_pb_ok)

definition example_code :: "(int, unit) wcode" where
  "example_code = \<lparr>c_env = example_env, c_sys = example_sys, c_fp = int_fpu, c_junk = (0, 0), c_cmd = (\<lambda>_. None),
     c_step = (\<lambda>_ _ _ _ _ w. Some (w, False)), c_timeout = (\<lambda>_ _ w. Some (w, False)), c_http = (\<lambda>_ _ w. Some (w, False)),
     c_decode = (\<lambda>_. None), c_access = False, os_recv = (\<lambda>_. Inl EAGAIN),
     os_recent = (\<lambda>_. True)\<rparr>"

lemma example_code_simps [simp]:
  "c_env example_code = example_env" "c_sys example_code = example_sys" "w_pb example_env = example_pb"
  by (simp_all add: example_code_def example_env_def)

end
