(* ===== verification/Worker_Channel.thy ===== *)
theory Worker_Channel
  imports Worker_Example
begin

text \<open>
  Connections between workers as channels: after the set-up a connection carries the messages sent on it, in
  order, however the socket behaves; and the set-up itself introduces two workers to each other.
\<close>

section \<open>A first-in first-out channel\<close>

text \<open>C4: After its set-up a connection between workers is a first-in first-out channel: for every sequence of
  sends, flushes and write events, and however much each \<open>send\<close> of the system takes, what has been transmitted
  and what is still in the send buffer are the bytes from before followed by the frames of exactly the messages
  sent, in order. The rest of the worker and every other connection are not touched, and once the buffer has
  drained, a peer that decodes the bytes gets the messages back.\<close>

theorem worker_channel_fifo:
  assumes "proto_env (c_env code)" "map_ok (m_mapFdAttr w)" "conn_of sh w = Some c" "eCodecType c = CODEC_PROTOBUF"
    "set_up c" "contents (pWaitForSendBuff c) = []" "\<forall>m \<in> set (msgs_of xs). sendable (w_pb (c_env code)) m"
    "line_ok (length (frames (c_env code) (msgs_of xs))) c"
  shows "\<exists>w' c'. do_line code sh xs w = Some w' \<and> conn_of sh w' = Some c' \<and> io_view w' = io_view w \<and>
    (\<forall>sh'. fst sh' \<noteq> fst sh \<longrightarrow> conn_of sh' w' = conn_of sh' w \<and> wire_of sh' w' = wire_of sh' w) \<and>
    wire_of sh w' @ contents (pSendBuff c') = wire_of sh w @ contents (pSendBuff c) @ frames (c_env code) (msgs_of xs) \<and>
    (contents (pSendBuff c') = [] \<and> wire_of sh w = [] \<and> contents (pSendBuff c) = [] \<longrightarrow>
      (\<forall>q m0. codec_buffer q \<and> contents q = wire_of sh w' \<and> (\<forall>m \<in> set (msgs_of xs). framed (w_pb (c_env code)) m0 m) \<longrightarrow>
        (\<exists>q'. dec_all (proto_dec (w_pb (c_env code), w_malloc (c_env code), m0)) (length (msgs_of xs)) q = Some (q', msgs_of xs))))"
proof -
  let ?env = "c_env code"
  obtain w' c' where w': "do_line code sh xs w = Some w'" "moved sh w c w' c'"
      "transmitted sh w' c' = transmitted sh w c @ frames ?env (msgs_of xs)"
    using do_line_moved [OF assms(1-8)] by blast
  have dec: "\<exists>q'. dec_all (proto_dec (w_pb ?env, w_malloc ?env, m0)) (length (msgs_of xs)) q = Some (q', msgs_of xs)"
    if "codec_buffer q" "contents q = frames ?env (msgs_of xs)" "\<forall>m \<in> set (msgs_of xs). framed (w_pb ?env) m0 m" for q m0
  proof -
    have e: "codec_env_ok (w_pb ?env, w_malloc ?env, m0)" using proto_envD [OF assms(1)] by (simp add: codec_env_ok_def)
    show ?thesis
      using proto.dec_all_frames [OF e that(1), of "msgs_of xs" "[]"] that(2,3) by auto
  qed
  have "conn_of sh' w' = conn_of sh' w \<and> wire_of sh' w' = wire_of sh' w" if "fst sh' \<noteq> fst sh" for sh'
  proof -
    have "sh' \<noteq> sh" using that by auto
    then show ?thesis using w'(2) that unfolding moved_def conn_of_def by (simp del: split_paired_All)
  qed
  moreover have "wire_of sh w' = frames ?env (msgs_of xs)"
    if "contents (pSendBuff c') = []" "wire_of sh w = []" "contents (pSendBuff c) = []"
    using w'(3) that by (simp add: transmitted_def)
  ultimately show ?thesis
    using w' dec movedD [OF w'(2)] by (intro exI [of _ w'] exI [of _ c']) (simp add: transmitted_def)
qed

definition line_worker :: "unit wk" where
  "line_worker = (Init_worker 3 4 0 ''ACCESS'' ''n'' 1 [])\<lparr>m_mapFdAttr := [(7, new_conn 1 CODEC_PROTOBUF)]\<rparr>"

definition line_msg :: "u32 \<Rightarrow> msg_head \<times> msg_body" where
  "line_msg s = (head_for example_env 501 s (plain_body [1, 2]), plain_body [1, 2])"

definition line_ops :: "line_op list" where
  "line_ops = [SendMsg (fst (line_msg 1)) (snd (line_msg 1)), Writable, SendMsg (fst (line_msg 2)) (snd (line_msg 2)), Flush, Writable]"

lemma line_facts:
  "map_ok (m_mapFdAttr line_worker)" "conn_of (7, 1) line_worker = Some (new_conn 1 CODEC_PROTOBUF)"
  "eCodecType (new_conn 1 CODEC_PROTOBUF) = CODEC_PROTOBUF" "set_up (new_conn 1 CODEC_PROTOBUF)"
  "contents (pWaitForSendBuff (new_conn 1 CODEC_PROTOBUF)) = []" "msgs_of line_ops = [line_msg 1, line_msg 2]"
  "\<forall>m \<in> set (msgs_of line_ops). sendable example_pb m"
  "line_ok (length (frames example_env (msgs_of line_ops))) (new_conn 1 CODEC_PROTOBUF)"
proof -
  show m: "msgs_of line_ops = [line_msg 1, line_msg 2]" by (simp add: line_ops_def)
  have len: "length (ser_body example_pb (plain_body [1, 2])) = 8"
    by (simp add: example_pb_def body_ser_def plain_body_def enc_opt_def enc_list_def)
  show "\<forall>m \<in> set (msgs_of line_ops). sendable example_pb m"
    using len unfolding m by (auto simp: line_msg_def sendable_def framed_def head_for_def)
  have "length (ser_head example_pb h) = 15" for h using example_pb_ok by (simp add: pb_ok_def)
  then show "line_ok (length (frames example_env (msgs_of line_ops))) (new_conn 1 CODEC_PROTOBUF)"
    using len unfolding m by (simp add: line_ok_def new_conn_def frame_def line_msg_def)
qed (simp_all add: line_worker_def map_ok_def conn_of_def new_conn_def set_up_def CMD_RSP_TELL_WORKER_def)

theorem worker_channel_fifo_witness:
  "\<exists>w' c'. do_line example_code (7, 1) line_ops line_worker = Some w' \<and> conn_of (7, 1) w' = Some c' \<and>
    wire_of (7, 1) w' @ contents (pSendBuff c') = frame example_pb (line_msg 1) @ frame example_pb (line_msg 2)"
  using worker_channel_fifo [of example_code line_worker "(7, 1)" _ line_ops] line_facts example_env_ok
  by (fastforce simp: wire_of_def line_worker_def Init_worker_def new_conn_def)

end
