(* ===== verification/Worker_Setup.thy ===== *)
theory Worker_Setup
  imports Worker_Channel
begin

text \<open>
  The set-up of a connection between two workers: the worker that connected asks the manager of the other
  side for a worker of that index, tells the worker its name, is told the name of the other, and then sends
  what has been waiting.
\<close>

section \<open>States on the way\<close>

lemma io_viewD:
  assumes "io_view w = io_view v"
  shows "m_mapMsgShell w = m_mapMsgShell v" "m_mapCallbackStep w = m_mapCallbackStep v" "m_mapInnerFd w = m_mapInnerFd v"
    "m_mapSeq2WorkerIndex w = m_mapSeq2WorkerIndex v" "route_view w = route_view v" "m_ulSequence w = m_ulSequence v"
    "own_identify n w = own_identify n v" "m_strNodeType w = m_strNodeType v" "m_strWorkerIdentify w = m_strWorkerIdentify v"
  using arg_cong [OF assms, of m_mapMsgShell] arg_cong [OF assms, of m_mapCallbackStep] arg_cong [OF assms, of m_mapInnerFd]
    arg_cong [OF assms, of m_mapSeq2WorkerIndex] arg_cong [OF assms, of route_view] arg_cong [OF assms, of m_ulSequence]
    arg_cong [OF assms, of "own_identify n"] arg_cong [OF assms, of m_strNodeType] arg_cong [OF assms, of m_strWorkerIdentify]
  by (simp_all add: io_view_def own_identify_def)

text \<open>A connection between workers with room for \<open>n\<close> more bytes.\<close>

definition linked :: "nat \<Rightarrow> msg_shell \<Rightarrow> conn \<Rightarrow> 's worker \<Rightarrow> bool" where
  "linked n sh c w \<longleftrightarrow> map_ok (m_mapFdAttr w) \<and> conn_of sh w = Some c \<and> eCodecType c = CODEC_PROTOBUF \<and> line_ok n c"

lemma linked_simps [simp]:
  "linked n sh c (w\<lparr>m_mapInnerFd := a\<rparr>) = linked n sh c w" "linked n sh c (w\<lparr>m_mapCallbackStep := b\<rparr>) = linked n sh c w"
  "linked n sh c (w\<lparr>m_mapSeq2WorkerIndex := d\<rparr>) = linked n sh c w" "linked n sh c (w\<lparr>m_ulSequence := e\<rparr>) = linked n sh c w"
  "linked n sh c (w\<lparr>m_mapMsgShell := f\<rparr>) = linked n sh c w" "linked n sh c (w\<lparr>m_mapIdentifyNodeType := g\<rparr>) = linked n sh c w"
  "linked n sh c (w\<lparr>m_mapNodeIdentify := h\<rparr>) = linked n sh c w"
  by (simp_all add: linked_def conn_of_def)

lemma transmitted_simps [simp]:
  "transmitted sh (w\<lparr>m_mapInnerFd := a\<rparr>) = transmitted sh w" "transmitted sh (w\<lparr>m_mapCallbackStep := b\<rparr>) = transmitted sh w"
  "transmitted sh (w\<lparr>m_mapSeq2WorkerIndex := d\<rparr>) = transmitted sh w" "transmitted sh (w\<lparr>m_ulSequence := e\<rparr>) = transmitted sh w"
  "transmitted sh (w\<lparr>m_mapMsgShell := f\<rparr>) = transmitted sh w" "transmitted sh (w\<lparr>m_mapIdentifyNodeType := g\<rparr>) = transmitted sh w"
  "transmitted sh (w\<lparr>m_mapNodeIdentify := h\<rparr>) = transmitted sh w"
  by (simp_all add: transmitted_def wire_of_def fun_eq_iff)

lemma linked_mono: "linked n sh c w \<Longrightarrow> m \<le> n \<Longrightarrow> linked m sh c w"
  by (auto simp: linked_def line_ok_def)

definition short_body :: "wenv \<Rightarrow> msg_body \<Rightarrow> bool" where
  "short_body env body \<longleftrightarrow> length (ser_body (w_pb env) body) \<le> 64000000"

lemma sendable_head_for: "short_body env body \<Longrightarrow> sendable (w_pb env) ((head_for env cw sq body), body)"
  by (simp add: short_body_def sendable_def framed_def head_for_def)

abbreviation frame_for :: "wenv \<Rightarrow> u32 \<Rightarrow> u32 \<Rightarrow> msg_body \<Rightarrow> byte list" where
  "frame_for env cw sq body \<equiv> frame (w_pb env) (head_for env cw sq body, body)"

text \<open>Sending a message of the set-up.\<close>

lemma send_setup:
  assumes "proto_env env" "linked (n + length (frame_for env cw sq body)) sh c w" "short_body env body" "cw \<le> CMD_RSP_TELL_WORKER"
  shows "\<exists>w' c'. SendTo_msg env sh (head_for env cw sq body) body w = Some (w', True) \<and> linked n sh c' w' \<and> io_view w' = io_view w \<and>
    transmitted sh w' c' = transmitted sh w c @ frame_for env cw sq body \<and>
    contents (pWaitForSendBuff c') = contents (pWaitForSendBuff c) \<and>
    ucConnectStatus c' = (if set_up c then ucConnectStatus c else ucast cw)"
proof -
  have s: "sendable (w_pb env) (head_for env cw sq body, body)" by (rule sendable_head_for [OF assms(3)])
  show ?thesis
    using SendTo_msg_moved [OF assms(1) _ _ _ s, of w sh c n] assms(2,4)
    by (fastforce simp: linked_def moved_def queued_def head_for_def)
qed

section \<open>The side that connects\<close>

abbreviation next_seq :: "'s worker \<Rightarrow> u32" where
  "next_seq w \<equiv> snd (GetSequence_worker w)"

definition with_step :: "'s \<Rightarrow> 's worker \<Rightarrow> 's worker" where
  "with_step st w = w\<lparr>m_ulSequence := next_seq w, m_mapCallbackStep := map_put (next_seq w) st (m_mapCallbackStep w)\<rparr>"

lemma next_seq_cong: "m_ulSequence w = m_ulSequence v \<Longrightarrow> next_seq w = next_seq v"
  by (simp add: GetSequence_worker_def Let_def)

lemma step_fresh_cong: "m_ulSequence w = m_ulSequence v \<Longrightarrow> m_mapCallbackStep w = m_mapCallbackStep v \<Longrightarrow> step_fresh w = step_fresh v"
  using next_seq_cong [of w v] by (simp add: step_fresh_def)

lemma Register_fresh: "step_fresh w \<Longrightarrow> RegisterCallback_step st w = (with_step st w, next_seq w, True)"
  by (simp add: step_fresh_def RegisterCallback_step_def GetSequence_worker_def Let_def with_step_def)

lemma io_view_push:
  "io_view (with_step st w) = with_step st (io_view w)" "io_view (AddInnerFd sh w) = AddInnerFd sh (io_view w)"
  "io_view (w\<lparr>m_mapSeq2WorkerIndex := m\<rparr>) = (io_view w)\<lparr>m_mapSeq2WorkerIndex := m\<rparr>"
  by (simp_all add: io_view_def with_step_def AddInnerFd_def GetSequence_worker_def Let_def)

lemma linked_step [simp]: "linked n sh c (with_step st w) = linked n sh c w" "transmitted sh (with_step st w) = transmitted sh w"
  by (simp_all add: with_step_def)

definition connect_body :: "('d, 'u) wcode \<Rightarrow> int \<Rightarrow> msg_body" where
  "connect_body code index = plain_body (ser_connect (c_sys code) index)"

abbreviation connect_step :: "('d, 'u) wcode \<Rightarrow> msg_shell \<Rightarrow> int \<Rightarrow> 'u sys_step" where
  "connect_step code sh index \<equiv>
     StepConnectWorker sh (head_for (c_env code) CMD_REQ_CONNECT_TO_WORKER 0 (connect_body code index)) (connect_body code index) 0"

abbreviation connect_frame :: "('d, 'u) wcode \<Rightarrow> u32 \<Rightarrow> int \<Rightarrow> byte list" where
  "connect_frame code sq index \<equiv> frame_for (c_env code) CMD_REQ_CONNECT_TO_WORKER sq (connect_body code index)"

lemma Start_sends:
  assumes "proto_env (c_env code)" "step_fresh w" "linked (n + length (connect_frame code (next_seq w) index)) sh c w"
    "short_body (c_env code) (connect_body code index)"
  shows "\<exists>w' c'. CmdConnectWorker_Start code sh index w = Some (w', True) \<and> linked n sh c' w' \<and>
    io_view w' = io_view (with_step (connect_step code sh index) w) \<and>
    transmitted sh w' c' = transmitted sh w c @ connect_frame code (next_seq w) index \<and>
    contents (pWaitForSendBuff c') = contents (pWaitForSendBuff c) \<and>
    ucConnectStatus c' = (if set_up c then ucConnectStatus c else ucast CMD_REQ_CONNECT_TO_WORKER)"
proof -
  have seq: "(head_for env cw 0 body)\<lparr>h_seq := sq\<rparr> = head_for env cw sq body" for env cw sq body by (simp add: head_for_def)
  show ?thesis
    using send_setup [OF assms(1) _ assms(4), of n CMD_REQ_CONNECT_TO_WORKER "next_seq w" sh c "with_step (connect_step code sh index) w"] assms(3)
    by (auto simp: CmdConnectWorker_Start_def Let_def numeral_3_eq_3 Register_fresh [OF assms(2)] StepConnectWorker_Emit_def
      CMD_REQ_CONNECT_TO_WORKER_def CMD_RSP_TELL_WORKER_def seq connect_body_def [symmetric])
qed

lemma write_out_empty: "wf_cbuffer (pSendBuff c) \<Longrightarrow> contents (pSendBuff c) = [] \<Longrightarrow> write_out env fd c w = Some (w', len, err) \<Longrightarrow> len = 0"
  using length_contents [of "pSendBuff c"]
  by (auto simp: write_out_def Let_def WriteFD_def bind_eq_Some_conv split: prod.splits)

lemma first_write_event:
  assumes "proto_env (c_env code)" "step_fresh w" "linked (n + length (connect_frame code (next_seq w) index)) sh c w"
    "short_body (c_env code) (connect_body code index)" "contents (pSendBuff c) = []" "contents (pWaitForSendBuff c) \<noteq> []"
    "map_find (snd sh) (m_mapSeq2WorkerIndex w) = Some index"
  shows "\<exists>w' c'. IoWrite code sh w = Some (w', True) \<and> linked n sh c' w' \<and>
    io_view w' = io_view (with_step (connect_step code sh index)
      (AddInnerFd sh (w\<lparr>m_mapSeq2WorkerIndex := map_erase (snd sh) (m_mapSeq2WorkerIndex w)\<rparr>))) \<and>
    transmitted sh w' c' = transmitted sh w c @ connect_frame code (next_seq w) index \<and>
    contents (pWaitForSendBuff c') = contents (pWaitForSendBuff c) \<and>
    ucConnectStatus c' = (if set_up c then ucConnectStatus c else ucast CMD_REQ_CONNECT_TO_WORKER)"
proof -
  let ?env = "c_env code"
  have l: "map_ok (m_mapFdAttr w)" "conn_of sh w = Some c" "line_ok (n + length (connect_frame code (next_seq w) index)) c"
    using assms(3) by (simp_all add: linked_def)
  obtain w1 b len err where w1: "write_out ?env (fst sh) c w = Some (w1, len, err)" "moved sh w c w1 (c\<lparr>pSendBuff := b\<rparr>)"
      "transmitted sh w1 (c\<lparr>pSendBuff := b\<rparr>) = transmitted sh w c" "wf_cbuffer b" "m_write_idx b \<le> m_write_idx (pSendBuff c)"
    using write_out_spec [OF assms(1) l(1,2)] l(3) by (auto simp: line_ok_def)
  have len: "len = 0" using write_out_empty [OF _ assms(5) w1(1)] l(3) by (simp add: line_ok_def)
  let ?c1 = "c\<lparr>pSendBuff := b\<rparr>"
  note v = io_viewD [OF movedD(4) [OF w1(2)]]
  have l1: "linked (n + length (connect_frame code (next_seq w) index)) sh ?c1 (AddInnerFd sh w1)"
    using l(3) w1(2,4,5) assms(3) by (auto simp: linked_def moved_def line_ok_def AddInnerFd_def conn_of_def)
  have sq: "next_seq (AddInnerFd sh w1) = next_seq w" "step_fresh (AddInnerFd sh w1)"
    using assms(2) v(2,6) next_seq_cong [of "AddInnerFd sh w1" w] step_fresh_cong [of "AddInnerFd sh w1" w] by (simp_all add: AddInnerFd_def)
  obtain w2 c2 where w2: "CmdConnectWorker_Start code sh index (AddInnerFd sh w1) = Some (w2, True)" "linked n sh c2 w2"
      "io_view w2 = io_view (with_step (connect_step code sh index) (AddInnerFd sh w1))"
      "transmitted sh w2 c2 = transmitted sh w1 ?c1 @ connect_frame code (next_seq w) index"
      "contents (pWaitForSendBuff c2) = contents (pWaitForSendBuff c)"
      "ucConnectStatus c2 = (if set_up c then ucConnectStatus c else ucast CMD_REQ_CONNECT_TO_WORKER)"
    using Start_sends [OF assms(1) sq(2) _ assms(4), of n sh ?c1] l1 sq(1) by (auto simp: AddInnerFd_def set_up_def)
  define w3 where "w3 = w2\<lparr>m_mapSeq2WorkerIndex := map_erase (snd sh) (m_mapSeq2WorkerIndex w2)\<rparr>"
  have l3: "map_ok (m_mapFdAttr w3)" "conn_of sh w3 = Some c2" using w2(2) by (simp_all add: w3_def linked_def conn_of_def)
  obtain c3 where c3: "moved sh w3 c2 (RemoveIoWriteEvent (fst sh) w3) c3" "same_line c2 c3"
      "transmitted sh (RemoveIoWriteEvent (fst sh) w3) c3 = transmitted sh w3 c2"
    using events_moved(2) [OF l3] by blast
  have "ReadableBytes (pWaitForSendBuff c) \<noteq> 0"
    using assms(6) l(3) length_contents [of "pWaitForSendBuff c"] by (auto simp: line_ok_def)
  then have "IoWrite code sh w = Some (RemoveIoWriteEvent (fst sh) w3, True)"
    using l(2) w1(1) len w2(1) l3(2) assms(7) v(4) assms(3)
    by (simp add: IoWrite_def first_write_def Let_def w3_def [symmetric] linked_def)
  moreover have "io_view (RemoveIoWriteEvent (fst sh) w3) = io_view (with_step (connect_step code sh index)
      (AddInnerFd sh (w\<lparr>m_mapSeq2WorkerIndex := map_erase (snd sh) (m_mapSeq2WorkerIndex w)\<rparr>)))"
  proof -
    have "m_mapSeq2WorkerIndex w2 = m_mapSeq2WorkerIndex w"
      using io_viewD(4) [OF w2(3)] v(4) by (simp add: with_step_def AddInnerFd_def)
    then have "io_view w3 = (with_step (connect_step code sh index) (AddInnerFd sh (io_view w)))
        \<lparr>m_mapSeq2WorkerIndex := map_erase (snd sh) (m_mapSeq2WorkerIndex w)\<rparr>"
      unfolding w3_def io_view_push w2(3) movedD(4) [OF w1(2)] by simp
    then show ?thesis
      unfolding movedD(4) [OF c3(1)] io_view_push by (simp add: with_step_def AddInnerFd_def GetSequence_worker_def Let_def)
  qed
  moreover have "linked n sh c3 (RemoveIoWriteEvent (fst sh) w3)"
    using w2(2) c3(1) line_ok_same [OF c3(2)] by (simp add: linked_def moved_def)
  ultimately show ?thesis using c3(2,3) w2(4-6) w1(3) by (fastforce simp: same_line_def w3_def)
qed

section \<open>A message arrives\<close>

text \<open>One round of the loop in \<open>RecvDataAndDispose\<close>: the message was decoded and leaves \<open>b\<close> in the receive buffer.\<close>

definition receive :: "('d, 'u) wcode \<Rightarrow> msg_shell \<Rightarrow> cbuffer \<Rightarrow> msg_head \<Rightarrow> msg_body \<Rightarrow> 'u wk \<Rightarrow> ('u wk \<times> (msg_head \<times> msg_body) option) option" where
  "receive code sh b head body w = Dispose code sh head body (note_message (fst sh) head b w)"

definition core :: "'s worker \<Rightarrow> _" where
  "core w = (m_mapMsgShell w, m_mapCallbackStep w, m_mapInnerFd w, route_view w, m_ulSequence w,
     m_strHostForServer w, m_iPortForServer w, m_iWorkerIndex w, m_strNodeType w)"

lemma core_io_view: "io_view w = io_view v \<Longrightarrow> core w = core v"
  by (drule arg_cong [of _ _ core]) (simp add: core_def io_view_def)

lemma coreD:
  assumes "core w = core v"
  shows "m_mapMsgShell w = m_mapMsgShell v" "m_mapCallbackStep w = m_mapCallbackStep v" "m_mapInnerFd w = m_mapInnerFd v"
    "route_view w = route_view v" "m_ulSequence w = m_ulSequence v" "own_identify n w = own_identify n v" "m_strNodeType w = m_strNodeType v"
  using assms by (simp_all add: core_def own_identify_def)

lemma note_message_linked:
  assumes "linked n sh c w"
  shows "\<exists>c'. linked n sh c' (note_message (fst sh) head b w) \<and> core (note_message (fst sh) head b w) = core w \<and>
    transmitted sh (note_message (fst sh) head b w) c' = transmitted sh w c \<and> pWaitForSendBuff c' = pWaitForSendBuff c \<and>
    ucConnectStatus c' = (if ucast (ucConnectStatus c) \<noteq> CMD_RSP_TELL_WORKER then ucast (h_cmd head) else ucConnectStatus c)"
proof -
  have "core (upd_conn fd f v) = core v" for fd f and v :: "'a worker" by (rule core_io_view) simp
  moreover have "core (v\<lparr>m_iRecvNum := i\<rparr>) = core v" for v :: "'a worker" and i by (simp add: core_def)
  ultimately have core: "core (note_message (fst sh) head b w) = core w" by (simp add: note_message_def Let_def)
  let ?c = "c\<lparr>pRecvBuff := b,
    ucConnectStatus := (if ucast (ucConnectStatus c) \<noteq> CMD_RSP_TELL_WORKER then ucast (h_cmd head) else ucConnectStatus c)\<rparr>"
  let ?c' = "if h_cmd head \<noteq> 0 \<and> h_cmd head AND 1 \<noteq> 0 then ?c\<lparr>ulForeignSeq := h_seq head\<rparr> else ?c"
  have "linked n sh ?c' (note_message (fst sh) head b w)"
    using assms by (auto simp: linked_def note_message_def Let_def conn_of_find line_ok_def)
  moreover have "transmitted sh (note_message (fst sh) head b w) ?c' = transmitted sh w c"
    by (simp add: transmitted_def note_message_def Let_def wire_of_def)
  ultimately show ?thesis using core by (intro exI [of _ ?c']) simp
qed

section \<open>Telling names\<close>

abbreviation tell_body :: "('d, 'u) wcode \<Rightarrow> nat \<Rightarrow> 's worker \<Rightarrow> msg_body" where
  "tell_body code n w \<equiv> target_body (c_sys code) 0 (own_identify n w) (m_strNodeType w) ''OK''"

lemma core_step: "core w = core v \<Longrightarrow> core (with_step st w) = core (with_step st v)"
  using next_seq_cong [of w v] by (simp add: core_def with_step_def route_view_def)

lemma connect_answered:
  assumes "proto_env (c_env code)" "step_fresh w" "map_ok (m_mapCallbackStep w)"
    "linked (n + length (frame_for (c_env code) CMD_REQ_TELL_WORKER (next_seq w) (tell_body code 64 w))) sh c w"
    "short_body (c_env code) (tell_body code 64 w)" "h_cmd head = CMD_RSP_CONNECT_TO_WORKER"
    "map_find (h_seq head) (m_mapCallbackStep w) = Some (StepConnectWorker sh h0 b0 k)" "parse_ordinary (c_sys code) (b_body body) = Some 0"
  shows "\<exists>w' c'. Dispose code sh head body w = Some (w', None) \<and> linked n sh c' w' \<and>
    core w' = core ((with_step (StepTellWorker sh 0) w)\<lparr>m_mapCallbackStep :=
      map_erase (h_seq head) (map_put (next_seq w) (StepTellWorker sh 0) (m_mapCallbackStep w))\<rparr>) \<and>
    transmitted sh w' c' = transmitted sh w c @ frame_for (c_env code) CMD_REQ_TELL_WORKER (next_seq w) (tell_body code 64 w) \<and>
    contents (pWaitForSendBuff c') = contents (pWaitForSendBuff c) \<and>
    ucConnectStatus c' = (if set_up c then ucConnectStatus c else ucast CMD_REQ_TELL_WORKER)"
proof -
  let ?w = "with_step (StepTellWorker sh 0) w"
  have t: "tell_body code 64 ?w = tell_body code 64 w" by (simp add: with_step_def own_identify_def)
  obtain w1 c1 where w1: "SendTo_msg (c_env code) sh (head_for (c_env code) CMD_REQ_TELL_WORKER (next_seq w) (tell_body code 64 w)) (tell_body code 64 w) ?w = Some (w1, True)"
      "linked n sh c1 w1" "io_view w1 = io_view ?w"
      "transmitted sh w1 c1 = transmitted sh w c @ frame_for (c_env code) CMD_REQ_TELL_WORKER (next_seq w) (tell_body code 64 w)"
      "contents (pWaitForSendBuff c1) = contents (pWaitForSendBuff c)"
      "ucConnectStatus c1 = (if set_up c then ucConnectStatus c else ucast CMD_REQ_TELL_WORKER)"
    using send_setup [OF assms(1) _ assms(5), of n CMD_REQ_TELL_WORKER "next_seq w" sh c ?w] assms(4)
    by (auto simp: CMD_REQ_TELL_WORKER_def CMD_RSP_TELL_WORKER_def)
  have cb: "m_mapCallbackStep w1 = map_put (next_seq w) (StepTellWorker sh 0) (m_mapCallbackStep w)"
    using io_viewD(2) [OF w1(3)] by (simp add: with_step_def)
  have ne: "h_seq head \<noteq> next_seq w" using assms(2,7) by (auto simp: step_fresh_def)
  have "Dispose code sh head body w =
      Some (w1\<lparr>m_mapCallbackStep := map_erase (h_seq head) (map_put (next_seq w) (StepTellWorker sh 0) (m_mapCallbackStep w))\<rparr>, None)"
    using assms(3,6-8) w1(1) cb ne t
    by (simp add: Dispose_def CMD_RSP_CONNECT_TO_WORKER_def Step_Callback_def StepConnectWorker_Callback_def numeral_3_eq_3
      Register_fresh [OF assms(2)] StepTellWorker_Emit_def Let_def map_find_put DeleteCallback_def)
  moreover have "core w1 = core ?w" by (rule core_io_view [OF w1(3)])
  ultimately show ?thesis using w1(2,4-6) by (fastforce simp: core_def route_view_def)
qed

lemma AddMsgShell_linked:
  assumes "linked n sh c w" "map_ok (m_mapMsgShell w)" "GetMsgShell ident w = None \<or> GetMsgShell ident w = Some sh"
  shows "\<exists>w'. AddMsgShell env ident sh w = Some (w', True) \<and> linked n sh (c\<lparr>strIdentify := ident\<rparr>) w' \<and>
    GetMsgShell ident w' = Some sh \<and> core w' = core (w\<lparr>m_mapMsgShell := m_mapMsgShell w'\<rparr>) \<and> transmitted sh w' = transmitted sh w"
proof -
  define v where "v = (if GetMsgShell ident w = None then w\<lparr>m_mapMsgShell := map_put ident sh (m_mapMsgShell w)\<rparr> else w)"
  have v: "linked n sh c v" "GetMsgShell ident v = Some sh" "core v = core (w\<lparr>m_mapMsgShell := m_mapMsgShell v\<rparr>)"
      "transmitted sh v = transmitted sh w"
    using assms by (auto simp: v_def GetMsgShell_def map_find_put core_def route_view_def)
  let ?w = "upd_conn (fst sh) (\<lambda>c. c\<lparr>strIdentify := ident\<rparr>) v"
  have "AddMsgShell env ident sh w = Some (?w, True)"
    using assms(1,3) v(1) by (auto simp: AddMsgShell_def SetConnectIdentify_def GetMsgShell_def v_def linked_def conn_of_find)
  moreover have "linked n sh (c\<lparr>strIdentify := ident\<rparr>) ?w" using v(1) by (simp add: linked_def conn_of_find line_ok_def)
  moreover have "core ?w = core v" by (rule core_io_view) simp
  moreover have "m_mapMsgShell ?w = m_mapMsgShell v" by (rule coreD(1)) (rule core_io_view, simp)
  moreover have "transmitted sh ?w = transmitted sh v" by (simp add: transmitted_def fun_eq_iff)
  ultimately show ?thesis using v(2-4) by (auto simp: GetMsgShell_def)
qed

lemma AddNode_frame [simp]:
  "linked n sh c (AddNodeIdentify ty ident w) = linked n sh c w" "transmitted sh (AddNodeIdentify ty ident w) = transmitted sh w"
  "m_mapMsgShell (AddNodeIdentify ty ident w) = m_mapMsgShell w" "m_mapCallbackStep (AddNodeIdentify ty ident w) = m_mapCallbackStep w"
  "m_mapInnerFd (AddNodeIdentify ty ident w) = m_mapInnerFd w" "m_strNodeType (AddNodeIdentify ty ident w) = m_strNodeType w"
  "own_identify k (AddNodeIdentify ty ident w) = own_identify k w"
  by (auto simp: AddNodeIdentify_def Let_def own_identify_def split: option.split)

lemma AddInnerFd_frame [simp]:
  "own_identify k (AddInnerFd sh w) = own_identify k w" "m_strNodeType (AddInnerFd sh w) = m_strNodeType w"
  by (simp_all add: AddInnerFd_def own_identify_def)

text \<open>What is known of a worker that introduced itself.\<close>

definition knows :: "string \<Rightarrow> msg_shell \<Rightarrow> string \<Rightarrow> 's worker \<Rightarrow> 's worker \<Rightarrow> bool" where
  "knows ident sh ty w w' \<longleftrightarrow> GetMsgShell ident w' = Some sh \<and> routing_ok w' \<and>
     route_of w' = (case route_of w ident of None \<Rightarrow> (route_of w)(ident \<mapsto> ty) | Some _ \<Rightarrow> route_of w)"

lemma introduced:
  assumes "linked n sh c w" "map_ok (m_mapMsgShell w)" "GetMsgShell ident w = None \<or> GetMsgShell ident w = Some sh" "routing_ok w"
  shows "\<exists>w' c'. AddMsgShell env ident sh w = Some (w', True) \<and> linked n sh c' (AddNodeIdentify ty ident w') \<and>
    same_line c c' \<and> knows ident sh ty w (AddNodeIdentify ty ident w') \<and> transmitted sh w' = transmitted sh w \<and>
    m_mapCallbackStep w' = m_mapCallbackStep w \<and> m_mapInnerFd w' = m_mapInnerFd w \<and>
    (\<forall>k. own_identify k w' = own_identify k w) \<and> m_strNodeType w' = m_strNodeType w"
proof -
  obtain w' where w': "AddMsgShell env ident sh w = Some (w', True)" "linked n sh (c\<lparr>strIdentify := ident\<rparr>) w'"
      "GetMsgShell ident w' = Some sh" "core w' = core (w\<lparr>m_mapMsgShell := m_mapMsgShell w'\<rparr>)" "transmitted sh w' = transmitted sh w"
    using AddMsgShell_linked [OF assms(1-3)] by blast
  have rv: "route_view w' = route_view w" using coreD(4) [OF w'(4)] by simp
  have ok: "routing_ok w'" "route_of w' = route_of w" using route_viewD [OF rv] assms(4) by simp_all
  have "knows ident sh ty w (AddNodeIdentify ty ident w')"
    using ok w'(3) by (auto simp: knows_def AddNodeIdentify_fields(1) [OF ok(1)] GetMsgShell_def split: option.split)
  moreover have "own_identify k w' = own_identify k w" for k
    using coreD(6) [OF w'(4), of k] by (simp add: own_identify_def)
  ultimately show ?thesis
    using w' coreD(2,3,7) [OF w'(4)] by (intro exI [of _ w'] exI [of _ "c\<lparr>strIdentify := ident\<rparr>"]) (simp add: same_line_def)
qed

lemma knows_cong: "route_of v = route_of w \<Longrightarrow> knows ident sh ty v w' = knows ident sh ty w w'"
  by (simp add: knows_def split: option.split)

lemma knows_io_view: "io_view w'' = io_view w' \<Longrightarrow> knows ident sh ty w w'' = knows ident sh ty w w'"
  using route_viewD [OF io_viewD(5), of w'' w'] io_viewD(1) [of w'' w'] by (simp add: knows_def GetMsgShell_def)

lemma worker_told:
  assumes "proto_env (c_env code)" "linked (n + length (frame_for (c_env code) CMD_RSP_TELL_WORKER (h_seq head) (tell_body code 65535 w))) sh c w"
    "map_ok (m_mapMsgShell w)" "routing_ok w" "parse_target (c_sys code) (b_body body) = Some t"
    "GetMsgShell (tw_worker_identify t) w = None \<or> GetMsgShell (tw_worker_identify t) w = Some sh"
    "short_body (c_env code) (tell_body code 65535 w)" "h_cmd head = CMD_REQ_TELL_WORKER"
  shows "\<exists>w' c'. Dispose code sh head body w = Some (w', None) \<and> linked n sh c' w' \<and>
    knows (tw_worker_identify t) sh (tw_node_type t) w w' \<and> m_mapInnerFd w' = map_put (fst sh) (snd sh) (m_mapInnerFd w) \<and>
    transmitted sh w' c' = transmitted sh w c @ frame_for (c_env code) CMD_RSP_TELL_WORKER (h_seq head) (tell_body code 65535 w) \<and>
    contents (pWaitForSendBuff c') = contents (pWaitForSendBuff c) \<and>
    ucConnectStatus c' = (if set_up c then ucConnectStatus c else ucast CMD_RSP_TELL_WORKER)"
proof -
  let ?env = "c_env code" and ?id = "tw_worker_identify t" and ?ty = "tw_node_type t"
  obtain w1 c1 where w1: "AddMsgShell ?env ?id sh w = Some (w1, True)" "linked (n + length (frame_for ?env CMD_RSP_TELL_WORKER (h_seq head) (tell_body code 65535 w))) sh c1 (AddNodeIdentify ?ty ?id w1)"
      "same_line c c1" "knows ?id sh ?ty w (AddNodeIdentify ?ty ?id w1)" "transmitted sh w1 = transmitted sh w"
      "m_mapInnerFd w1 = m_mapInnerFd w" "own_identify 65535 w1 = own_identify 65535 w" "m_strNodeType w1 = m_strNodeType w"
    using introduced [OF assms(2,3,6,4)] by blast
  let ?v = "AddInnerFd sh (AddNodeIdentify ?ty ?id w1)"
  have out: "tell_body code 65535 ?v = tell_body code 65535 w"
    using w1(7,8) by simp
  have v: "linked (n + length (frame_for ?env CMD_RSP_TELL_WORKER (h_seq head) (tell_body code 65535 w))) sh c1 ?v"
      "transmitted sh ?v c1 = transmitted sh w c" "knows ?id sh ?ty w ?v" "m_mapInnerFd ?v = map_put (fst sh) (snd sh) (m_mapInnerFd w)"
    using w1(2-6) route_viewD(1,5) [of ?v "AddNodeIdentify ?ty ?id w1"]
    by (simp_all add: AddInnerFd_def knows_def GetMsgShell_def transmitted_def same_line_def)
  obtain w2 c2 where w2: "SendTo_msg ?env sh (head_for ?env CMD_RSP_TELL_WORKER (h_seq head) (tell_body code 65535 w)) (tell_body code 65535 w) ?v = Some (w2, True)"
      "linked n sh c2 w2" "io_view w2 = io_view ?v"
      "transmitted sh w2 c2 = transmitted sh ?v c1 @ frame_for ?env CMD_RSP_TELL_WORKER (h_seq head) (tell_body code 65535 w)"
      "contents (pWaitForSendBuff c2) = contents (pWaitForSendBuff c1)"
      "ucConnectStatus c2 = (if set_up c1 then ucConnectStatus c1 else ucast CMD_RSP_TELL_WORKER)"
    using send_setup [OF assms(1) v(1) assms(7)] by auto
  have cmd: "h_cmd head + 1 = CMD_RSP_TELL_WORKER" "h_cmd head AND 1 \<noteq> 0" "h_cmd head AND gc_uiCmdBit = CMD_REQ_TELL_WORKER"
    by (simp_all add: assms(8) CMD_REQ_TELL_WORKER_def CMD_RSP_TELL_WORKER_def gc_uiCmdBit_def)
  have "Dispose code sh head body w = Some (w2, None)"
    unfolding Dispose_def CmdToldWorker_AnyMessage_def cmd(1) using cmd(2,3) assms(5,8) w1(1) w2(1) out by (simp add: Let_def)
  moreover have "knows ?id sh ?ty w w2" using v(3) knows_io_view [OF w2(3)] by simp
  ultimately show ?thesis using w2 v(2,4) io_viewD(3) [OF w2(3)] w1(3) by (fastforce simp: same_line_def set_up_def)
qed

lemma tell_answered:
  assumes "proto_env (c_env code)" "linked n sh c w" "map_ok (m_mapMsgShell w)" "routing_ok w"
    "parse_target (c_sys code) (b_body body) = Some t" "tw_err_no t = 0"
    "GetMsgShell (tw_worker_identify t) w = None \<or> GetMsgShell (tw_worker_identify t) w = Some sh"
    "h_cmd head = CMD_RSP_TELL_WORKER" "map_find (h_seq head) (m_mapCallbackStep w) = Some (StepTellWorker sh0 k)"
  shows "\<exists>w' c'. Dispose code sh head body w = Some (w', None) \<and> linked n sh c' w' \<and>
    knows (tw_worker_identify t) sh (tw_node_type t) w w' \<and>
    transmitted sh w' c' = transmitted sh w c @ contents (pWaitForSendBuff c) \<and>
    contents (pWaitForSendBuff c') = [] \<and> ucConnectStatus c' = ucConnectStatus c"
proof -
  let ?env = "c_env code" and ?id = "tw_worker_identify t" and ?ty = "tw_node_type t"
  obtain w1 c1 where w1: "AddMsgShell ?env ?id sh w = Some (w1, True)" "linked n sh c1 (AddNodeIdentify ?ty ?id w1)" "same_line c c1"
      "knows ?id sh ?ty w (AddNodeIdentify ?ty ?id w1)" "transmitted sh w1 = transmitted sh w" "m_mapCallbackStep w1 = m_mapCallbackStep w"
    using introduced [OF assms(2,3,7,4)] by blast
  let ?v = "AddNodeIdentify ?ty ?id w1"
  obtain w2 c2 where w2: "SendTo_shell ?env sh ?v = Some (w2, True)" "moved sh ?v c1 w2 c2" "line_ok n c2"
      "ucConnectStatus c2 = ucConnectStatus c1" "contents (pWaitForSendBuff c2) = []"
      "transmitted sh w2 c2 = transmitted sh ?v c1 @ contents (pWaitForSendBuff c1)"
    using SendTo_shell_moved [OF assms(1), of ?v sh c1 n] w1(2) by (auto simp: linked_def)
  have cb: "m_mapCallbackStep w2 = m_mapCallbackStep w" using io_viewD(2) [OF movedD(4) [OF w2(2)]] w1(6) by simp
  have cmd: "\<not> h_cmd head AND 1 \<noteq> 0" by (simp add: assms(8) CMD_RSP_TELL_WORKER_def)
  let ?w = "w2\<lparr>m_mapCallbackStep := map_erase (h_seq head) (m_mapCallbackStep w)\<rparr>"
  have "Dispose code sh head body w = Some (?w, None)"
    using cmd assms(5,6,9) w1(1) w2(1) cb
    by (simp add: Dispose_def Step_Callback_def StepTellWorker_Callback_def DeleteCallback_def Let_def)
  moreover have "linked n sh c2 ?w" using w1(2) w2(2,3) by (simp add: linked_def moved_def conn_of_def)
  moreover have "knows ?id sh ?ty w ?w"
    using w1(4) knows_io_view [OF movedD(4) [OF w2(2)]] route_viewD(1,5) [of ?w w2] by (simp add: knows_def GetMsgShell_def)
  ultimately show ?thesis using w1(3,5) w2(4-6) by (fastforce simp: same_line_def transmitted_def)
qed

section \<open>The whole exchange\<close>

definition second_seq :: "'s worker \<Rightarrow> u32" where
  "second_seq w = next_seq (fst (GetSequence_worker w))"

definition ok_body :: "('d, 'u) wcode \<Rightarrow> msg_body" where
  "ok_body code = plain_body (ser_ordinary (c_sys code) 0 ''OK'')"

text \<open>A worker with a connection on which it has nothing sent and messages waiting; a worker that accepted one.\<close>

definition connecting :: "('d, 'u) wcode \<Rightarrow> nat \<Rightarrow> msg_shell \<Rightarrow> int \<Rightarrow> conn \<Rightarrow> 'u wk \<Rightarrow> bool" where
  "connecting code n sh index c w \<longleftrightarrow>
     linked (n + length (frame_for (c_env code) CMD_REQ_TELL_WORKER (second_seq w) (tell_body code 64 w)) +
       length (connect_frame code (next_seq w) index)) sh c w \<and>
     contents (pSendBuff c) = [] \<and> contents (pWaitForSendBuff c) \<noteq> [] \<and> ucConnectStatus c = 0 \<and>
     map_find (snd sh) (m_mapSeq2WorkerIndex w) = Some index \<and> step_fresh w \<and>
     map_find (second_seq w) (m_mapCallbackStep w) = None \<and> map_ok (m_mapCallbackStep w) \<and> map_ok (m_mapMsgShell w) \<and>
     routing_ok w \<and> short_body (c_env code) (connect_body code index) \<and> short_body (c_env code) (tell_body code 64 w)"

definition accepting :: "('d, 'u) wcode \<Rightarrow> nat \<Rightarrow> msg_shell \<Rightarrow> u32 \<Rightarrow> conn \<Rightarrow> 'u wk \<Rightarrow> bool" where
  "accepting code n sh sq c w \<longleftrightarrow>
     linked (n + length (frame_for (c_env code) CMD_RSP_TELL_WORKER sq (tell_body code 65535 w))) sh c w \<and>
     map_ok (m_mapMsgShell w) \<and> routing_ok w \<and> short_body (c_env code) (tell_body code 65535 w)"

definition free_name :: "string \<Rightarrow> msg_shell \<Rightarrow> 's worker \<Rightarrow> bool" where
  "free_name ident sh w \<longleftrightarrow> GetMsgShell ident w = None \<or> GetMsgShell ident w = Some sh"

lemma receive_told:
  assumes "proto_env (c_env b)" "accepting b n sh (h_seq head) c w" "parse_target (c_sys b) (b_body body) = Some t"
    "free_name (tw_worker_identify t) sh w" "h_cmd head = CMD_REQ_TELL_WORKER"
  shows "\<exists>w' c'. receive b sh q head body w = Some (w', None) \<and> linked n sh c' w' \<and> set_up c' \<and>
    knows (tw_worker_identify t) sh (tw_node_type t) w w' \<and> m_mapInnerFd w' = map_put (fst sh) (snd sh) (m_mapInnerFd w) \<and>
    transmitted sh w' c' = transmitted sh w c @ frame_for (c_env b) CMD_RSP_TELL_WORKER (h_seq head) (tell_body b 65535 w)"
proof -
  let ?v = "note_message (fst sh) head q w"
  have l: "linked (n + length (frame_for (c_env b) CMD_RSP_TELL_WORKER (h_seq head) (tell_body b 65535 w))) sh c w"
    "map_ok (m_mapMsgShell w)" "routing_ok w" "short_body (c_env b) (tell_body b 65535 w)"
    using assms(2) by (simp_all add: accepting_def)
  obtain c1 where c1: "linked (n + length (frame_for (c_env b) CMD_RSP_TELL_WORKER (h_seq head) (tell_body b 65535 w))) sh c1 ?v"
      "core ?v = core w" "transmitted sh ?v c1 = transmitted sh w c" "pWaitForSendBuff c1 = pWaitForSendBuff c"
      "ucConnectStatus c1 = (if ucast (ucConnectStatus c) \<noteq> CMD_RSP_TELL_WORKER then ucast (h_cmd head) else ucConnectStatus c)"
    using note_message_linked [OF l(1)] by blast
  note v = coreD [OF c1(2)]
  have same: "tell_body b 65535 ?v = tell_body b 65535 w" "GetMsgShell ident ?v = GetMsgShell ident w" "route_of ?v = route_of w" "routing_ok ?v" for ident
    using v route_viewD(1,5) [OF v(4)] l(3) by (simp_all add: GetMsgShell_def)
  obtain w' c' where "Dispose b sh head body ?v = Some (w', None)" "linked n sh c' w'" "knows (tw_worker_identify t) sh (tw_node_type t) ?v w'"
      "m_mapInnerFd w' = map_put (fst sh) (snd sh) (m_mapInnerFd ?v)"
      "transmitted sh w' c' = transmitted sh ?v c1 @ frame_for (c_env b) CMD_RSP_TELL_WORKER (h_seq head) (tell_body b 65535 w)"
      "ucConnectStatus c' = (if set_up c1 then ucConnectStatus c1 else ucast CMD_RSP_TELL_WORKER)"
    using worker_told [OF assms(1) _ _ same(4) assms(3) _ _ assms(5), of n sh c1] c1(1) l(2,4) v(1) assms(4) unfolding same free_name_def by auto
  moreover have "set_up c'"
    using calculation(6) by (auto simp: set_up_def CMD_RSP_TELL_WORKER_def split: if_splits)
  ultimately show ?thesis using c1(3) v(3) knows_cong [OF same(3)] by (auto simp: receive_def)
qed

lemma core_parts:
  assumes "core w = core v"
  shows "free_name ident sh w = free_name ident sh v" "routing_ok w = routing_ok v" "route_of w = route_of v"
    "tell_body code k w = tell_body code k v" "next_seq w = next_seq v" "m_mapCallbackStep w = m_mapCallbackStep v"
    "m_mapMsgShell w = m_mapMsgShell v" "step_fresh w = step_fresh v"
  using coreD [OF assms] route_viewD(1,5) [of w v] next_seq_cong [of w v] step_fresh_cong [of w v]
  by (simp_all add: free_name_def GetMsgShell_def)

lemma core_with_step:
  "tell_body code k (with_step st w) = tell_body code k w" "m_mapMsgShell (with_step st w) = m_mapMsgShell w"
  "route_view (with_step st w) = route_view w" "next_seq (with_step st w) = second_seq w"
  "m_mapCallbackStep (with_step st w) = map_put (next_seq w) st (m_mapCallbackStep w)"
  by (simp_all add: with_step_def own_identify_def second_seq_def GetSequence_worker_def Let_def route_view_def)

lemma noted_set_up:
  assumes "ucConnectStatus c' = (if ucast (ucConnectStatus c) \<noteq> CMD_RSP_TELL_WORKER then ucast CMD_RSP_TELL_WORKER else ucConnectStatus c)"
  shows "set_up c'"
proof (cases "ucast (ucConnectStatus c) = CMD_RSP_TELL_WORKER")
  case True
  with assms show ?thesis by (metis set_up_def order_refl unat_ucast_byte)
next
  case False
  with assms show ?thesis by (simp add: set_up_def CMD_RSP_TELL_WORKER_def)
qed

text \<open>The side that connects, up to the answer of the manager.\<close>

lemma connecting_told:
  assumes "proto_env (c_env a)" "sys_pb_ok (c_sys a)" "connecting a n sh index c w"
  shows "\<exists>w1 w2 c2. IoWrite a sh w = Some (w1, True) \<and>
    receive a sh q (head_for env CMD_RSP_CONNECT_TO_WORKER (next_seq w) (ok_body a)) (ok_body a) w1 = Some (w2, None) \<and>
    linked n sh c2 w2 \<and> transmitted sh w2 c2 = transmitted sh w c @ connect_frame a (next_seq w) index @
      frame_for (c_env a) CMD_REQ_TELL_WORKER (second_seq w) (tell_body a 64 w) \<and>
    contents (pWaitForSendBuff c2) = contents (pWaitForSendBuff c) \<and> m_mapMsgShell w2 = m_mapMsgShell w \<and>
    route_view w2 = route_view w \<and> map_find (second_seq w) (m_mapCallbackStep w2) = Some (StepTellWorker sh 0)"
proof -
  let ?env = "c_env a" and ?f9 = "frame_for (c_env a) CMD_REQ_TELL_WORKER (second_seq w) (tell_body a 64 w)"
  let ?head = "head_for env CMD_RSP_CONNECT_TO_WORKER (next_seq w) (ok_body a)"
  note con = assms(3) [unfolded connecting_def]
  obtain w1 c1 where w1: "IoWrite a sh w = Some (w1, True)" "linked (n + length ?f9) sh c1 w1"
      "io_view w1 = io_view (with_step (connect_step a sh index)
        (AddInnerFd sh (w\<lparr>m_mapSeq2WorkerIndex := map_erase (snd sh) (m_mapSeq2WorkerIndex w)\<rparr>)))"
      "transmitted sh w1 c1 = transmitted sh w c @ connect_frame a (next_seq w) index"
      "contents (pWaitForSendBuff c1) = contents (pWaitForSendBuff c)"
    using first_write_event [OF assms(1) _ _ _ _ _, of w "n + length ?f9" index sh c] con by auto
  define v where "v = note_message (fst sh) ?head q w1"
  obtain c2 where c2: "linked (n + length ?f9) sh c2 v" "core v = core w1" "transmitted sh v c2 = transmitted sh w1 c1"
      "pWaitForSendBuff c2 = pWaitForSendBuff c1"
    using note_message_linked [OF w1(2)] unfolding v_def by blast
  have cv: "core v = core (with_step (connect_step a sh index) (AddInnerFd sh w))"
    using c2(2) core_io_view [OF w1(3)] by (simp add: core_def with_step_def AddInnerFd_def GetSequence_worker_def Let_def route_view_def)
  have sec: "second_seq (AddInnerFd sh w) = second_seq w" "next_seq (AddInnerFd sh w) = next_seq w"
    by (simp_all add: second_seq_def AddInnerFd_def GetSequence_worker_def Let_def)
  have inner: "m_mapMsgShell (AddInnerFd sh w) = m_mapMsgShell w" "route_view (AddInnerFd sh w) = route_view w"
    "m_mapCallbackStep (AddInnerFd sh w) = m_mapCallbackStep w" by (simp_all add: AddInnerFd_def route_view_def)
  have steps: "m_mapCallbackStep v = map_put (next_seq w) (connect_step a sh index) (m_mapCallbackStep w)"
    using core_parts(6) [OF cv] by (simp add: core_with_step sec inner)
  have ne: "second_seq w \<noteq> next_seq w" by (auto simp: second_seq_def GetSequence_worker_def Let_def split: if_splits)
  have next_v: "next_seq v = second_seq w" using core_parts(5) [OF cv] by (simp add: core_with_step sec)
  have fresh: "step_fresh v"
    using con ne steps next_v by (simp add: step_fresh_def map_find_put)
  have tell: "tell_body a 64 v = tell_body a 64 w" using core_parts(4) [OF cv] by (simp add: core_with_step)
  have "parse_ordinary (c_sys a) (b_body (ok_body a)) = Some 0" using assms(2) by (simp add: sys_pb_ok_def ok_body_def plain_body_def)
  moreover have "map_ok (m_mapCallbackStep v)" using con steps by (simp add: map_put_ok)
  moreover have "map_find (h_seq ?head) (m_mapCallbackStep v) = Some (connect_step a sh index)"
    using con steps by (simp add: head_for_def map_find_put)
  moreover have "h_cmd ?head = CMD_RSP_CONNECT_TO_WORKER" by (simp add: head_for_def)
  ultimately obtain w2 c3 where w2: "Dispose a sh ?head (ok_body a) v = Some (w2, None)" "linked n sh c3 w2"
      "core w2 = core ((with_step (StepTellWorker sh 0) v)\<lparr>m_mapCallbackStep :=
        map_erase (h_seq ?head) (map_put (next_seq v) (StepTellWorker sh 0) (m_mapCallbackStep v))\<rparr>)"
      "transmitted sh w2 c3 = transmitted sh v c2 @ ?f9" "contents (pWaitForSendBuff c3) = contents (pWaitForSendBuff c2)"
    using connect_answered [OF assms(1) fresh, of n sh c2 ?head _ _ _ "ok_body a"] con c2(1) unfolding tell next_v by blast
  have "m_mapMsgShell w2 = m_mapMsgShell w" "route_view w2 = route_view w"
    using coreD(1,4) [OF w2(3)] coreD(1,4) [OF cv] by (simp_all add: core_with_step inner)
  moreover have "map_find (second_seq w) (m_mapCallbackStep w2) = Some (StepTellWorker sh 0)"
    using coreD(2) [OF w2(3)] next_v ne con steps by (simp add: head_for_def map_find_erase map_find_put map_put_ok)
  ultimately show ?thesis
    using w1(1,4,5) w2 c2(3,4) by (intro exI [of _ w1] exI [of _ w2] exI [of _ c3]) (simp add: receive_def v_def)
qed

section \<open>Property\<close>

text \<open>The set-up of a connection works: when a worker's connection becomes writable and the manager of the
  other node answers, the two workers tell each other their names. The worker that connected sends its request
  for a worker, then its name, and only then the messages that waited, in order and completely; the other side
  sends one answer. Afterwards the connection counts as set up on both sides, nothing waits any more, each
  worker finds the other by name, and its type is in the routing table.\<close>

theorem connection_setup:
  assumes "proto_env (c_env a)" "proto_env (c_env b)" "sys_pb_ok (c_sys a)" "c_sys b = c_sys a"
    "connecting a n sha index ca wa" "accepting b m shb (second_seq wa) cb wb"
    "free_name (own_identify 65535 wb) sha wa" "free_name (own_identify 64 wa) shb wb"
  shows "\<exists>wa1 wa2 wa3 wb1 ca3 cb1. IoWrite a sha wa = Some (wa1, True) \<and>
    receive a sha q1 (head_for env CMD_RSP_CONNECT_TO_WORKER (next_seq wa) (ok_body a)) (ok_body a) wa1 = Some (wa2, None) \<and>
    receive b shb q2 (head_for (c_env a) CMD_REQ_TELL_WORKER (second_seq wa) (tell_body a 64 wa)) (tell_body a 64 wa) wb = Some (wb1, None) \<and>
    receive a sha q3 (head_for (c_env b) CMD_RSP_TELL_WORKER (second_seq wa) (tell_body b 65535 wb)) (tell_body b 65535 wb) wa2 = Some (wa3, None) \<and>
    transmitted sha wa3 ca3 = transmitted sha wa ca @ connect_frame a (next_seq wa) index @
      frame_for (c_env a) CMD_REQ_TELL_WORKER (second_seq wa) (tell_body a 64 wa) @ contents (pWaitForSendBuff ca) \<and>
    transmitted shb wb1 cb1 = transmitted shb wb cb @ frame_for (c_env b) CMD_RSP_TELL_WORKER (second_seq wa) (tell_body b 65535 wb) \<and>
    linked n sha ca3 wa3 \<and> linked m shb cb1 wb1 \<and> set_up ca3 \<and> set_up cb1 \<and> contents (pWaitForSendBuff ca3) = [] \<and>
    knows (own_identify 65535 wb) sha (m_strNodeType wb) wa wa3 \<and> knows (own_identify 64 wa) shb (m_strNodeType wa) wb wb1 \<and>
    m_mapInnerFd wb1 = map_put (fst shb) (snd shb) (m_mapInnerFd wb)"
proof -
  let ?h9 = "head_for (c_env a) CMD_REQ_TELL_WORKER (second_seq wa) (tell_body a 64 wa)"
  let ?h10 = "head_for (c_env b) CMD_RSP_TELL_WORKER (second_seq wa) (tell_body b 65535 wb)"
  have parse: "parse_target (c_sys b) (b_body (tell_body a 64 wa)) =
      Some \<lparr>tw_err_no = 0, tw_worker_identify = own_identify 64 wa, tw_node_type = m_strNodeType wa, tw_err_msg = ''OK''\<rparr>"
    "parse_target (c_sys a) (b_body (tell_body b 65535 wb)) =
      Some \<lparr>tw_err_no = 0, tw_worker_identify = own_identify 65535 wb, tw_node_type = m_strNodeType wb, tw_err_msg = ''OK''\<rparr>"
    using assms(3) by (simp_all add: assms(4) target_body_def plain_body_def sys_pb_ok_def)
  have heads: "h_seq ?h9 = second_seq wa" "h_cmd ?h9 = CMD_REQ_TELL_WORKER" "h_seq ?h10 = second_seq wa" "h_cmd ?h10 = CMD_RSP_TELL_WORKER"
    by (simp_all add: head_for_def)
  obtain wa1 wa2 ca2 where wa2: "IoWrite a sha wa = Some (wa1, True)"
      "receive a sha q1 (head_for env CMD_RSP_CONNECT_TO_WORKER (next_seq wa) (ok_body a)) (ok_body a) wa1 = Some (wa2, None)"
      "linked n sha ca2 wa2" "transmitted sha wa2 ca2 = transmitted sha wa ca @ connect_frame a (next_seq wa) index @
        frame_for (c_env a) CMD_REQ_TELL_WORKER (second_seq wa) (tell_body a 64 wa)"
      "contents (pWaitForSendBuff ca2) = contents (pWaitForSendBuff ca)" "m_mapMsgShell wa2 = m_mapMsgShell wa"
      "route_view wa2 = route_view wa" "map_find (second_seq wa) (m_mapCallbackStep wa2) = Some (StepTellWorker sha 0)"
    using connecting_told [OF assms(1,3,5)] by blast
  obtain wb1 cb1 where wb1: "receive b shb q2 ?h9 (tell_body a 64 wa) wb = Some (wb1, None)" "linked m shb cb1 wb1" "set_up cb1"
      "knows (own_identify 64 wa) shb (m_strNodeType wa) wb wb1" "m_mapInnerFd wb1 = map_put (fst shb) (snd shb) (m_mapInnerFd wb)"
      "transmitted shb wb1 cb1 = transmitted shb wb cb @ frame_for (c_env b) CMD_RSP_TELL_WORKER (second_seq wa) (tell_body b 65535 wb)"
    using receive_told [OF assms(2) _ parse(1), of m shb ?h9 cb wb q2] assms(6,8) heads by auto
  define v where "v = note_message (fst sha) ?h10 q3 wa2"
  obtain c3 where c3: "linked n sha c3 v" "core v = core wa2" "transmitted sha v c3 = transmitted sha wa2 ca2"
      "pWaitForSendBuff c3 = pWaitForSendBuff ca2"
      "ucConnectStatus c3 = (if ucast (ucConnectStatus ca2) \<noteq> CMD_RSP_TELL_WORKER then ucast (h_cmd ?h10) else ucConnectStatus ca2)"
    using note_message_linked [OF wa2(3)] unfolding v_def by blast
  note cv = core_parts [OF c3(2)] and view = route_viewD [OF wa2(7)]
  have pre: "map_ok (m_mapMsgShell v)" "routing_ok v" "GetMsgShell ident v = GetMsgShell ident wa" "route_of v = route_of wa" for ident
    using assms(5) cv(2,3,7) wa2(6) view(1,5) by (simp_all add: connecting_def GetMsgShell_def)
  obtain wa3 ca3 where wa3: "Dispose a sha ?h10 (tell_body b 65535 wb) v = Some (wa3, None)" "linked n sha ca3 wa3"
      "knows (own_identify 65535 wb) sha (m_strNodeType wb) v wa3"
      "transmitted sha wa3 ca3 = transmitted sha v c3 @ contents (pWaitForSendBuff c3)" "contents (pWaitForSendBuff ca3) = []"
      "ucConnectStatus ca3 = ucConnectStatus c3"
    using tell_answered [OF assms(1) c3(1) pre(1,2) parse(2) _ _ heads(4), of sha 0] assms(7) pre(3) cv(6) wa2(8) heads(3)
    by (auto simp: free_name_def)
  have "set_up ca3" using c3(5) wa3(6) heads(4) by (intro noted_set_up [of _ ca2]) simp
  moreover have "knows (own_identify 65535 wb) sha (m_strNodeType wb) wa wa3" using wa3(3) knows_cong [OF pre(4)] by simp
  ultimately show ?thesis
    using wa2(1,2,4,5) wb1 wa3(1,2,4,5) c3(3,4)
    by (intro exI [of _ wa1] exI [of _ wa2] exI [of _ wa3] exI [of _ wb1] exI [of _ ca3] exI [of _ cb1])
      (simp add: receive_def v_def)
qed

definition setup_conn :: conn where
  "setup_conn = (new_conn 1 CODEC_PROTOBUF)\<lparr>ucConnectStatus := 0, pWaitForSendBuff := sample_buffer\<rparr>"

definition setup_a :: "unit wk" where
  "setup_a = (Init_worker 3 4 0 ''ACCESS'' ''a'' 9001 [])\<lparr>m_mapFdAttr := [(7, setup_conn)], m_mapSeq2WorkerIndex := [(1, 2)], m_ulSequence := 1\<rparr>"

definition setup_b :: "unit wk" where
  "setup_b = (Init_worker 3 4 2 ''LOGIC'' ''b'' 9000 [])\<lparr>m_mapFdAttr := [(8, new_conn 5 CODEC_PROTOBUF)], m_ulSequence := 5\<rparr>"

lemma length_example_body: "length (ser_body example_pb (plain_body xs)) = 2 * length xs + 4"
  by (simp add: example_pb_def body_ser_def plain_body_def enc_opt_def enc_list_def)

lemma length_example_frame: "length (frame example_pb (head, plain_body xs)) = 2 * length xs + 19"
proof -
  have "length (ser_head example_pb head) = 15" using example_pb_ok by (simp add: pb_ok_def)
  then show ?thesis by (simp add: frame_def length_example_body)
qed

lemma length_target: "length (ser_target example_sys t) = 2 * nat \<bar>tw_err_no t\<bar> + 2 * length (tw_worker_identify t) + 2 * length (tw_node_type t) + 2 * length (tw_err_msg t) + 6"
  by (simp add: example_sys_def enc_int_def enc_list_def ascii_def)

lemma setup_names:
  "own_identify 64 setup_a = ''a:9001.0''" "own_identify 65535 setup_b = ''b:9000.2''"
  "m_strNodeType setup_a = ''ACCESS''" "m_strNodeType setup_b = ''LOGIC''"
  by (simp_all add: own_identify_def setup_a_def setup_b_def Init_worker_def fmt_identify_def learn_names c_str_def snprintf_def)

lemma setup_facts:
  "connecting example_code 0 (7, 1) 2 setup_conn setup_a"
  "accepting example_code 0 (8, 5) (second_seq setup_a) (new_conn 5 CODEC_PROTOBUF) setup_b"
  "free_name (own_identify 65535 setup_b) (7, 1) setup_a" "free_name (own_identify 64 setup_a) (8, 5) setup_b"
proof -
  have ok: "routing_ok setup_a" "routing_ok setup_b"
    using routing_ok_init [of 3 4 0 "''ACCESS''" "''a''" 9001 "[]", where 'a = "unit sys_step"]
      routing_ok_init [of 3 4 2 "''LOGIC''" "''b''" 9000 "[]", where 'a = "unit sys_step"]
    by (simp_all add: setup_a_def setup_b_def routing_ok_def route_of_def workers_def turn_def)
  have conn: "ser_connect example_sys 2 = enc_int 2" by (simp add: example_sys_def)
  have buf: "m_write_idx sample_buffer = 4" by (simp add: sample_buffer_def)
  show "connecting example_code 0 (7, 1) 2 setup_conn setup_a"
    using ok buf
    by (simp add: connecting_def linked_def line_ok_def setup_names target_body_def connect_body_def short_body_def
      length_example_body length_example_frame length_target conn enc_int_def enc_list_def)
      (simp add: setup_a_def setup_conn_def new_conn_def Init_worker_def conn_of_def map_ok_def step_fresh_def second_seq_def
        GetSequence_worker_def)
  show "accepting example_code 0 (8, 5) (second_seq setup_a) (new_conn 5 CODEC_PROTOBUF) setup_b"
    using ok
    by (simp add: accepting_def linked_def line_ok_def setup_names target_body_def short_body_def
      length_example_body length_example_frame length_target)
      (simp add: setup_b_def new_conn_def Init_worker_def conn_of_def map_ok_def)
  show "free_name (own_identify 65535 setup_b) (7, 1) setup_a" "free_name (own_identify 64 setup_a) (8, 5) setup_b"
    by (simp_all add: free_name_def GetMsgShell_def setup_a_def setup_b_def Init_worker_def)
qed

theorem connection_setup_witness:
  "\<exists>wa1 wa2 (wa3 :: unit wk) (wb1 :: unit wk) ca3. IoWrite example_code (7, 1) setup_a = Some (wa1, True) \<and>
    receive example_code (7, 1) empty_cbuffer (head_for example_env CMD_RSP_CONNECT_TO_WORKER (next_seq setup_a) (ok_body example_code))
      (ok_body example_code) wa1 = Some (wa2, None) \<and>
    contents (pWaitForSendBuff ca3) = [] \<and> linked 0 (7, 1) ca3 wa3 \<and>
    GetMsgShell ''b:9000.2'' wa3 = Some (7, 1) \<and> GetMsgShell ''a:9001.0'' wb1 = Some (8, 5)"
proof -
  have "proto_env (c_env example_code)" "sys_pb_ok (c_sys example_code)" by (simp_all add: example_env_ok example_sys_ok)
  note set_up = connection_setup [OF this(1,1,2) refl setup_facts, of empty_cbuffer example_env empty_cbuffer empty_cbuffer]
  show ?thesis
    using set_up unfolding setup_names knows_def by (elim exE conjE) (intro exI conjI; assumption)
qed

section \<open>A worker that connects again\<close>

lemma shells_DelNode [simp]: "m_mapMsgShell (DelNodeIdentify ty ident w) = m_mapMsgShell w"
  by (auto simp: DelNodeIdentify_def Let_def split: option.split)

lemma shells_DelMsgShell: "m_mapMsgShell (DelMsgShell ident w) = map_erase ident (m_mapMsgShell w)"
proof -
  have "m_mapMsgShell (fold (\<lambda>center w. if center = ident then DelNodeIdentify [] ident w else w) cs v) = m_mapMsgShell v"
    for cs and v :: "'a worker" by (induction cs arbitrary: v) simp_all
  then show ?thesis by (simp add: DelMsgShell_def)
qed

lemma DestroyConnect_name:
  assumes "map_find fd (m_mapFdAttr w) = Some c" "os_close env (m_calls w) = None \<or> os_close env (m_calls w) = Some EINTR"
    "\<not> disconnect_so env \<or> wf_cbuffer (pClientData c)"
  shows "\<exists>w'. DestroyConnect env fd True w = Some (w', True) \<and> m_mapMsgShell w' = map_erase (strIdentify c) (m_mapMsgShell w)"
  using assms(3)
  by (auto simp: DestroyConnect_def assms(1) Let_def MsgShellNotice_def ToString_spec GetSequence_worker_def shells_DelMsgShell
      split: option.splits intro: disjE [OF assms(2)])

text \<open>A worker that connects again under its name, while the connection it had is still registered, brings
  the other worker into undefined behaviour: \<open>AddMsgShell\<close> destroys the old connection, which erases the entry of
  the name, and then writes through its iterator to that entry. This happens whatever the request
  \<open>CMD_REQ_TELL_WORKER\<close> says beyond the name.\<close>

theorem reconnect_undefined:
  assumes "parse_target (c_sys code) (b_body body) = Some t" "h_cmd head = CMD_REQ_TELL_WORKER"
    "GetMsgShell (tw_worker_identify t) w = Some old" "old \<noteq> sh"
    "map_find (fst old) (m_mapFdAttr w) = Some c" "strIdentify c = tw_worker_identify t"
    "os_close (c_env code) (m_calls w) = None \<or> os_close (c_env code) (m_calls w) = Some EINTR"
    "\<not> disconnect_so (c_env code) \<or> wf_cbuffer (pClientData c)" "snd (GetWorkerIdentify w) \<noteq> tw_worker_identify t"
  shows "Dispose code sh head body w = None"
proof -
  let ?v = "fst (GetWorkerIdentify w)"
  have v: "m_mapFdAttr ?v = m_mapFdAttr w" "m_calls ?v = m_calls w" by (simp_all add: GetWorkerIdentify_def Let_def)
  obtain w' where "DestroyConnect (c_env code) (fst old) True ?v = Some (w', True)"
      "m_mapMsgShell w' = map_erase (tw_worker_identify t) (m_mapMsgShell ?v)"
    using DestroyConnect_name [of "fst old" ?v c "c_env code"] assms(5-8) v by auto
  then have "AddMsgShell (c_env code) (tw_worker_identify t) sh w = None"
    using assms(3,4,9) by (auto simp: AddMsgShell_def GetMsgShell_def map_find_erase split: prod.split)
  moreover have "h_cmd head AND 1 \<noteq> 0" "h_cmd head AND gc_uiCmdBit = CMD_REQ_TELL_WORKER"
    by (simp_all add: assms(2) CMD_REQ_TELL_WORKER_def gc_uiCmdBit_def)
  ultimately show ?thesis
    unfolding Dispose_def CmdToldWorker_AnyMessage_def using assms(1,2) by (simp add: Let_def)
qed

definition reconnect_worker :: "unit wk" where
  "reconnect_worker = setup_b\<lparr>m_mapFdAttr := [(6, (new_conn 3 CODEC_PROTOBUF)\<lparr>strIdentify := ''a:9001.0''\<rparr>), (8, new_conn 5 CODEC_PROTOBUF)],
     m_mapMsgShell := [(''a:9001.0'', (6, 3))], m_strWorkerIdentify := ''b:9000.2''\<rparr>"

theorem reconnect_undefined_witness:
  "Dispose example_code (8, 5) (head_for example_env CMD_REQ_TELL_WORKER 1 (tell_body example_code 64 setup_a))
     (tell_body example_code 64 setup_a) reconnect_worker = None"
proof (rule reconnect_undefined [where old = "(6, 3)" and c = "(new_conn 3 CODEC_PROTOBUF)\<lparr>strIdentify := ''a:9001.0''\<rparr>"])
  show "parse_target (c_sys example_code) (b_body (tell_body example_code 64 setup_a)) =
      Some \<lparr>tw_err_no = 0, tw_worker_identify = ''a:9001.0'', tw_node_type = ''ACCESS'', tw_err_msg = ''OK''\<rparr>"
    using example_sys_ok by (simp add: target_body_def plain_body_def sys_pb_ok_def setup_names)
qed (simp_all add: head_for_def reconnect_worker_def GetMsgShell_def GetWorkerIdentify_def Let_def example_env_def)

end
