(* ===== verification/Worker_Reactor.thy ===== *)
theory Worker_Reactor
  imports Worker_Setup
begin

text \<open>
  The event loop of a worker: every callback that \<open>libev\<close> makes into \<open>OssWorker\<close> as one step, the states a
  worker can reach from its start, and what holds in all of them as long as the loaded code, which works
  through the same operations, keeps it.
\<close>

section \<open>What every callback keeps\<close>

definition tidy :: "string list \<Rightarrow> 's worker \<Rightarrow> bool" where
  "tidy centers w \<longleftrightarrow> routing_ok w \<and> m_vecCenterIdentify w = centers"

lemma tidy_cong: "route_view w' = route_view w \<Longrightarrow> tidy cs w' = tidy cs w"
  using route_viewD [of w' w] by (simp add: tidy_def)

lemma view_node_id [simp]: "route_view (w\<lparr>m_uiNodeId := i\<rparr>) = route_view w"
  by (simp add: route_view_def)

lemma view_more [simp]:
  "route_view (RemoveIoWriteEvent fd w) = route_view w" "route_view (AddInnerFd sh w) = route_view w"
  "route_view (DeleteCallback sq v) = route_view v" "route_view (note_message fd head b w) = route_view w"
  by (simp_all add: RemoveIoWriteEvent_def AddInnerFd_def DeleteCallback_def note_message_def Let_def
      split: option.split sys_step.split list.split)

lemmas tidy_simps [simp] = route_view_simps [THEN tidy_cong] view_upd_conn [THEN tidy_cong] view_fst [THEN tidy_cong]
  view_node_id [THEN tidy_cong] view_more [THEN tidy_cong]

lemma tidy_Add [simp, intro!]: "tidy cs w \<Longrightarrow> tidy cs (AddNodeIdentify ty ident w)"
  and tidy_Del [simp, intro!]: "tidy cs w \<Longrightarrow> tidy cs (DelNodeIdentify ty ident w)"
  by (simp_all add: tidy_def AddNodeIdentify_fields DelNodeIdentify_fields)

lemma view_Register: "RegisterCallback_step st w = (w', sq, ok) \<Longrightarrow> route_view w' = route_view w"
  by (auto simp: RegisterCallback_step_def Let_def split: prod.splits if_splits dest: view_steps)

lemmas tidy_dests = view_steps [THEN tidy_cong] view_write_out [THEN tidy_cong] view_encode_to [THEN tidy_cong]
  view_Register [THEN tidy_cong]

lemma tidy_pruned:
  assumes "\<And>u. pruned u w \<Longrightarrow> post (\<lambda>(w', b). pruned u w') r" "tidy cs w"
  shows "post (\<lambda>x. tidy cs (fst x)) r"
  using assms(1) [OF pruned_refl] assms(2) unfolding post_def tidy_def by (auto dest: pruned_ok pruned_centers)

lemma tidy_sends:
  assumes "tidy cs w"
  shows "post (\<lambda>x. tidy cs (fst x)) (SendTo_msg env sh head body w)"
    and "post (\<lambda>x. tidy cs (fst x)) (SendTo_shell env sh w)"
    and "post (\<lambda>x. tidy cs (fst x)) (DestroyConnect env fd notice w)"
    and "post (\<lambda>x. tidy cs (fst x)) (AddMsgShell env ident sh w)"
  by (rule tidy_pruned [OF _ assms], erule pruned_SendTo_msg pruned_SendTo_shell pruned_DestroyConnect pruned_AddMsgShell)+

lemma tidy_calls:
  "SendTo_msg env sh head body w = Some (w', b) \<Longrightarrow> tidy cs w \<Longrightarrow> tidy cs w'"
  "SendTo_shell env sh w = Some (w', b) \<Longrightarrow> tidy cs w \<Longrightarrow> tidy cs w'"
  "DestroyConnect env fd notice w = Some (w', b) \<Longrightarrow> tidy cs w \<Longrightarrow> tidy cs w'"
  "AddMsgShell env ident sh w = Some (w', b) \<Longrightarrow> tidy cs w \<Longrightarrow> tidy cs w'"
  by (drule tidy_sends [THEN postD, rotated]; simp)+

lemma tidy_drop_conn: "tidy cs w \<Longrightarrow> post (\<lambda>x. tidy cs (fst x)) (drop_conn env fd w)"
  unfolding drop_conn_def by (intro branches) (auto elim!: tidy_calls)

lemma tidy_send_back: "tidy cs w \<Longrightarrow> post (tidy cs) (send_back env enc fd c out w)"
  unfolding send_back_def by (intro branches) (auto dest: tidy_dests [where cs = cs])

lemma tidy_Start:
  "tidy cs w \<Longrightarrow> post (\<lambda>x. tidy cs (fst x)) (Start_tries n env sh head body w)"
proof (induction n arbitrary: w)
  case (Suc n)
  show ?case
    unfolding Start_tries.simps Let_def StepConnectWorker_Emit_def
    by (intro branches) (use Suc in \<open>auto dest!: tidy_dests [where cs = cs] elim!: tidy_calls intro: Suc.IH\<close>)
qed (simp add: post_Some)

lemma tidy_Tell: "tidy cs w \<Longrightarrow> post (tidy cs) (Tell_tries n code sh w)"
proof (induction n arbitrary: w)
  case (Suc n)
  show ?case
    unfolding Tell_tries.simps Let_def StepTellWorker_Emit_def
    by (intro branches) (use Suc in \<open>auto dest!: tidy_dests [where cs = cs] elim!: tidy_calls intro: Suc.IH\<close>)
qed (simp add: post_Some)

lemma tidy_tries:
  "Start_tries n env sh head body w = Some (w', b) \<Longrightarrow> tidy cs w \<Longrightarrow> tidy cs w'"
  "Tell_tries n code sh w = Some w' \<Longrightarrow> tidy cs w \<Longrightarrow> tidy cs w'"
  by (drule tidy_Start [THEN postD, rotated] tidy_Tell [THEN postD, rotated]; simp)+

section \<open>Notices\<close>

lemma tidy_each_worker:
  assumes "\<And>i v. tidy cs v \<Longrightarrow> tidy cs (f i v)"
  shows "tidy cs w \<Longrightarrow> post (tidy cs) (each_worker f ip port j k w)"
proof (induction k arbitrary: j w)
  case (Suc k)
  then show ?case using assms by (auto simp: Let_def intro!: branches)
qed (simp add: post_Some)

lemma tidy_each_entry:
  assumes "\<And>ty i v. tidy cs v \<Longrightarrow> tidy cs (f ty i v)"
  shows "each_entry f arr i k v w = Some (w', v') \<Longrightarrow> tidy cs w \<Longrightarrow> tidy cs w'"
proof (induction k arbitrary: i v w)
  case (Suc k)
  obtain ty ip port num ok where e: "notice_entry (at_index arr (of_nat i)) v = ((ty, ip, port, num), ok)"
    by (metis surj_pair)
  show ?case
  proof (cases ok)
    case True
    then obtain w1 where w1: "each_worker (f ty) ip port 0 (nat num) w = Some w1"
        "each_entry f arr (Suc i) k (ty, ip, port, num) w1 = Some (w', v')"
      using Suc.prems(1) e by (auto split: option.splits)
    have "post (tidy cs) (each_worker (f ty) ip port 0 (nat num) w)"
      by (rule tidy_each_worker) (use assms Suc.prems(2) in auto)
    then have "tidy cs w1" using w1(1) by (rule postD)
    then show ?thesis using Suc.IH [OF w1(2)] by blast
  next
    case False
    then have "each_entry f arr (Suc i) k (ty, ip, port, num) w = Some (w', v')" using Suc.prems(1) e by simp
    then show ?thesis using Suc.IH Suc.prems(2) by blast
  qed
qed simp

lemma tidy_Emit:
  assumes "tidy cs w"
  shows "post (tidy cs) (StepNodeNotice_Emit data w)"
  unfolding StepNodeNotice_Emit_def Let_def
proof (intro branches)
  fix y w1 v1 x
  assume y: "each_entry AddNodeIdentify (at_key data (ascii ''node_arry_reg'')) 0
      (Jobj_GetArraySize (at_key data (ascii ''node_arry_reg''))) ([], [], 0, 0) w = Some y" "y = (w1, v1)"
    and x: "each_entry DelNodeIdentify (at_key data (ascii ''node_arry_exit'')) 0
      (Jobj_GetArraySize (at_key data (ascii ''node_arry_exit''))) v1 w1 = Some x"
  have "tidy cs w1" by (rule tidy_each_entry [OF _ y(1) [unfolded y(2)] assms]) simp
  with x show "tidy cs (fst x)"
    using tidy_each_entry [where f = DelNodeIdentify and w' = "fst x" and v' = "snd x" and cs = cs] by simp
qed

lemma tidy_NodeNotice: "tidy cs w \<Longrightarrow> post (\<lambda>x. tidy cs (fst x)) (CmdNodeNotice_AnyMessage fp junk k st head body w)"
  unfolding CmdNodeNotice_AnyMessage_def Let_def
  by (auto split: presult.split bool.split prod.split dest!: tidy_dests [where cs = cs] dest: tidy_Emit [THEN postD, rotated] intro!: branches)

section \<open>Commands, steps and time\<close>

lemma tidy_ToldWorker: "tidy cs w \<Longrightarrow> post (\<lambda>x. tidy cs (fst x)) (CmdToldWorker_AnyMessage code k sh head body w)"
  unfolding CmdToldWorker_AnyMessage_def Let_def
  apply (rule post_bind_via [where Q = "\<lambda>x. tidy cs (fst x)"])
   apply (intro branches)
      apply (auto elim!: tidy_calls intro!: branches)
  done

lemma tidy_Beat: "tidy cs w \<Longrightarrow> post (\<lambda>x. tidy cs (fst x)) (CmdBeat_AnyMessage code sh head body w)"
  unfolding CmdBeat_AnyMessage_def by (intro branches) (auto elim!: tidy_calls)

lemma tidy_UpdateNodeId: "tidy cs w \<Longrightarrow> post (\<lambda>x. tidy cs (fst x)) (CmdUpdateNodeId_AnyMessage code body w)"
  unfolding CmdUpdateNodeId_AnyMessage_def by (auto split: presult.split bool.split prod.split intro!: branches)

lemma tidy_IoTimeout: "tidy cs w \<Longrightarrow> post (\<lambda>x. tidy cs (fst x)) (IoTimeout code chk sh w)"
  unfolding IoTimeout_def StepIoTimeout_Emit_def Let_def
  by (intro branches) (auto dest!: tidy_dests [where cs = cs] elim!: tidy_calls)

lemma tidy_timeouts: "IoTimeout code chk sh w = Some (w', b) \<Longrightarrow> tidy cs w \<Longrightarrow> tidy cs w'"
  by (drule tidy_IoTimeout [THEN postD, rotated]; simp)

text \<open>The loaded code is asked to keep what its own operations keep.\<close>

definition code_tidy :: "string list \<Rightarrow> ('d, 'u) wcode \<Rightarrow> bool" where
  "code_tidy cs code \<longleftrightarrow>
     (\<forall>k f sh head body w. c_cmd code k = Some f \<longrightarrow> tidy cs w \<longrightarrow> post (tidy cs) (f sh head body w)) \<and>
     (\<forall>sq u sh head body w. tidy cs w \<longrightarrow> post (\<lambda>x. tidy cs (fst x)) (c_step code sq u sh head body w)) \<and>
     (\<forall>sq u w. tidy cs w \<longrightarrow> post (\<lambda>x. tidy cs (fst x)) (c_timeout code sq u w)) \<and>
     (\<forall>sh body w. tidy cs w \<longrightarrow> post (\<lambda>x. tidy cs (fst x)) (c_http code sh body w))"

lemma code_tidyD:
  assumes "code_tidy cs code" "tidy cs w"
  shows "c_cmd code k = Some f \<Longrightarrow> post (tidy cs) (f sh head body w)"
    and "post (\<lambda>x. tidy cs (fst x)) (c_step code sq u sh head body w)"
    and "post (\<lambda>x. tidy cs (fst x)) (c_timeout code sq u w)"
    and "post (\<lambda>x. tidy cs (fst x)) (c_http code sh body w)"
  by (rule assms(1) [unfolded code_tidy_def, THEN conjunct1, rule_format, OF _ assms(2)], assumption,
      rule assms(1) [unfolded code_tidy_def, THEN conjunct2, THEN conjunct1, rule_format, OF assms(2)],
      rule assms(1) [unfolded code_tidy_def, THEN conjunct2, THEN conjunct2, THEN conjunct1, rule_format, OF assms(2)],
      rule assms(1) [unfolded code_tidy_def, THEN conjunct2, THEN conjunct2, THEN conjunct2, rule_format, OF assms(2)])

lemma tidy_Step_Timeout:
  assumes "code_tidy cs code" "tidy cs w"
  shows "post (\<lambda>x. tidy cs (fst x)) (Step_Timeout code sq st w)"
proof (cases st)
  case (StepIoTimeout sh)
  then show ?thesis
    using assms(2) by (auto simp: Step_Timeout_def elim!: tidy_timeouts intro!: branches)
next
  case (LoadedStep u pre)
  then show ?thesis using code_tidyD(3) [OF assms] by (simp add: Step_Timeout_def)
qed (use assms in \<open>auto simp: Step_Timeout_def StepConnectWorker_Emit_def StepTellWorker_Emit_def Let_def elim!: tidy_calls intro!: branches\<close>)

lemma tidy_StepTimeout:
  assumes "code_tidy cs code" "tidy cs w"
  shows "post (tidy cs) (OssWorker_StepTimeout code sq w)"
  unfolding OssWorker_StepTimeout_def Let_def
  by (intro branches) (use assms in \<open>auto dest!: tidy_Step_Timeout [THEN postD, rotated 2]\<close>)

lemma tidy_Step_Callback:
  assumes "code_tidy cs code" "tidy cs w"
  shows "post (\<lambda>x. tidy cs (fst x)) (Step_Callback code sq st sh head body w)"
proof (cases st)
  case (StepIoTimeout sh)
  then show ?thesis
    using assms(2) by (auto simp: Step_Callback_def elim!: tidy_timeouts intro!: branches)
next
  case (LoadedStep u pre)
  then show ?thesis using code_tidyD(2) [OF assms] by (simp add: Step_Callback_def)
next
  case StepConnectWorker
  then show ?thesis
    using assms by (auto simp: Step_Callback_def StepConnectWorker_Callback_def dest!: tidy_tries intro!: branches)
next
  case StepTellWorker
  then show ?thesis
    using assms by (auto simp: Step_Callback_def StepTellWorker_Callback_def Let_def elim!: tidy_calls intro!: branches)
qed (use assms in \<open>simp add: Step_Callback_def post_Some\<close>)

lemma tidy_steps_calls:
  "Step_Callback code sq st sh head body w = Some (w', b) \<Longrightarrow> code_tidy cs code \<Longrightarrow> tidy cs w \<Longrightarrow> tidy cs w'"
  by (drule tidy_Step_Callback [THEN postD, rotated 2]; simp)

lemma tidy_Dispose:
  assumes "code_tidy cs code" "tidy cs w"
  shows "post (\<lambda>x. tidy cs (fst x)) (Dispose code sh head body w)"
proof -
  note kept = tidy_ToldWorker [OF assms(2), THEN postD] tidy_UpdateNodeId [OF assms(2), THEN postD]
    tidy_NodeNotice [OF assms(2), THEN postD] tidy_Beat [OF assms(2), THEN postD] code_tidyD(1) [OF assms, THEN postD]
  have "post (\<lambda>x. tidy cs (fst x)) (unhandled code sh head body w)"
    unfolding unhandled_def Let_def
    by (intro branches) (use assms(2) in \<open>auto dest: code_tidyD(1) [OF assms, THEN postD] split: if_splits\<close>)
  moreover have "post (\<lambda>x. tidy cs (fst x)) (map_option (\<lambda>(w, _). (w, None :: (msg_head \<times> msg_body) option)) r)"
    if "\<And>x. r = Some x \<Longrightarrow> tidy cs (fst x)" for r :: "('b wk \<times> bool) option"
    using that by (auto intro!: branches)
  ultimately show ?thesis
    unfolding Dispose_def Let_def
    by (intro post_if post_option post_map post_Some post_bind post_prod post_None; (elim kept)?)
      (use assms in \<open>auto elim!: tidy_steps_calls dest: kept\<close>)
qed

lemma tidy_reading_calls:
  "Dispose code sh head body w = Some (w', out) \<Longrightarrow> code_tidy cs code \<Longrightarrow> tidy cs w \<Longrightarrow> tidy cs w'"
  "c_http code sh body w = Some (w', b) \<Longrightarrow> code_tidy cs code \<Longrightarrow> tidy cs w \<Longrightarrow> tidy cs w'"
  "send_back env enc fd c out w = Some w' \<Longrightarrow> tidy cs w \<Longrightarrow> tidy cs w'"
  "drop_conn env fd w = Some (w', b) \<Longrightarrow> tidy cs w \<Longrightarrow> tidy cs w'"
  by (drule tidy_Dispose [THEN postD, rotated 2] code_tidyD(4) [THEN postD, rotated 2] tidy_send_back [THEN postD, rotated]
      tidy_drop_conn [THEN postD, rotated]; simp)+

section \<open>Reading and writing\<close>

lemma tidy_dispose_loop:
  assumes "dispose_loop code enc dcr sh w = Some y" "code_tidy cs code" "tidy cs w"
  shows "tidy cs (fst y)"
proof -
  have "code_tidy cs code \<longrightarrow> tidy cs w \<longrightarrow> tidy cs (fst y)"
  proof (rule dispose_loop.raw_induct [where P = "\<lambda>code enc dcr sh w y. code_tidy cs code \<longrightarrow> tidy cs w \<longrightarrow> tidy cs (fst y)", OF _ assms(1)], goal_cases)
    case (1 rec code enc dcr sh w y)
    from 1(2) show ?case
      by (cases y) (auto simp: Let_def bind_eq_Some_conv split: option.splits if_splits prod.splits dest!: 1(1)
        elim!: tidy_reading_calls tidy_calls; erule notE, auto elim!: tidy_reading_calls)
  qed
  then show ?thesis using assms(2,3) by simp
qed

lemma tidy_recv_loop:
  assumes "recv_loop code sh c w = Some y" "code_tidy cs code" "tidy cs w"
  shows "tidy cs (fst y)"
proof -
  have "code_tidy cs code \<longrightarrow> tidy cs w \<longrightarrow> tidy cs (fst y)"
  proof (rule recv_loop.raw_induct [where P = "\<lambda>code sh c w y. code_tidy cs code \<longrightarrow> tidy cs w \<longrightarrow> tidy cs (fst y)", OF _ assms(1)], goal_cases)
    case (1 rec code sh c w y)
    from 1(2) show ?case
      by (cases y) (auto simp: Let_def split: option.splits if_splits prod.splits elim!: tidy_reading_calls
        dest!: 1(1) tidy_dispose_loop)
  qed
  then show ?thesis using assms(2,3) by simp
qed

lemma tidy_RecvDataAndDispose:
  "code_tidy cs code \<Longrightarrow> tidy cs w \<Longrightarrow> post (\<lambda>x. tidy cs (fst x)) (RecvDataAndDispose code sh w)"
  unfolding RecvDataAndDispose_def Let_def
  by (intro branches) (auto simp: post_def dest: tidy_recv_loop)

lemma tidy_IoWrite:
  assumes "tidy cs w"
  shows "post (\<lambda>x. tidy cs (fst x)) (IoWrite code sh w)"
proof -
  have first: "post (tidy cs) (first_write code sh c v)" if "tidy cs v" for c v
    unfolding first_write_def CmdConnectWorker_Start_def Let_def
    by (intro branches) (use that in \<open>auto elim!: tidy_calls tidy_tries split: if_splits\<close>)
  show ?thesis
    unfolding IoWrite_def Let_def
    apply (intro post_option post_Some post_bind post_prod)
     apply (use assms in simp)
    subgoal for c x v len err
      using assms first [of v c, THEN postD]
      by (auto dest!: tidy_dests [where cs = cs] elim!: tidy_calls split: if_splits)
    done
qed

lemma tidy_FdTransfer: "tidy cs w \<Longrightarrow> post (\<lambda>x. tidy cs (fst x)) (FdTransfer env fd ip ct w)"
  unfolding FdTransfer_def Let_def
  by (intro branches) (auto dest!: tidy_dests [where cs = cs] elim!: tidy_calls)

lemma tidy_CheckParent: "tidy cs w \<Longrightarrow> post (\<lambda>x. tidy cs (fst x)) (CheckParent fp env w)"
  unfolding CheckParent_def SendToParent_def Let_def
  by (intro branches) (auto dest!: tidy_dests [where cs = cs] split: option.splits simp: bind_eq_Some_conv)

lemma tidy_CreateEvents:
  assumes "tidy cs w"
  shows "post (\<lambda>x. tidy cs (fst x)) (CreateEvents env w)"
proof -
  have channel: "post (\<lambda>x. tidy cs (fst x)) (create_channel env fd v)" if "tidy cs v" for fd v
    unfolding create_channel_def Let_def
    by (intro branches) (use that in \<open>auto dest!: tidy_dests [where cs = cs] elim!: tidy_calls\<close>)
  show ?thesis
    unfolding CreateEvents_def
    by (rule post_bind_via [OF channel [OF assms]]) (auto intro!: post_if channel post_Some)
qed

section \<open>Events and reachable states\<close>

datatype event =
  ReadEvent msg_shell | FdEvent int string codec_type | WriteEvent msg_shell | ErrorEvent msg_shell
| IoTimeoutEvent msg_shell | StepTimeoutEvent u32 | PeriodicEvent

fun handle :: "('d, 'u) wcode \<Rightarrow> event \<Rightarrow> 'u wk \<Rightarrow> 'u wk option" where
  "handle code (ReadEvent sh) w = map_option fst (RecvDataAndDispose code sh w)"
| "handle code (FdEvent fd ip ct) w = map_option fst (FdTransfer (c_env code) fd ip ct w)"
| "handle code (WriteEvent sh) w = map_option fst (IoWrite code sh w)"
| "handle code (ErrorEvent sh) w = map_option fst (IoError (c_env code) sh w)"
| "handle code (IoTimeoutEvent sh) w = map_option fst (IoTimeout code True sh w)"
| "handle code (StepTimeoutEvent sq) w = OssWorker_StepTimeout code sq w"
| "handle code PeriodicEvent w = map_option fst (CheckParent (c_fp code) (c_env code) w)"

inductive reaches :: "('d, 'u) wcode \<Rightarrow> 'u wk \<Rightarrow> 'u wk \<Rightarrow> bool" for code w0 where
  started: "CreateEvents (c_env code) w0 = Some (w, True) \<Longrightarrow> reaches code w0 w"
| event: "reaches code w0 w \<Longrightarrow> handle code e w = Some w' \<Longrightarrow> reaches code w0 w'"

lemma tidy_handle:
  assumes "code_tidy cs code" "handle code e w = Some w'" "tidy cs w"
  shows "tidy cs w'"
proof (cases e)
  case (ErrorEvent sh)
  then show ?thesis
    using assms(2,3) by (auto simp: IoError_def split: option.splits elim!: tidy_calls)
qed (use assms in \<open>auto dest: tidy_RecvDataAndDispose [THEN postD, rotated 2] tidy_FdTransfer [THEN postD, rotated]
      tidy_IoWrite [THEN postD, rotated] tidy_IoTimeout [THEN postD, rotated] tidy_StepTimeout [THEN postD, rotated 2]
      tidy_CheckParent [THEN postD, rotated]\<close>)


definition reactor_start :: "unit wk" where
  "reactor_start = Init_worker 3 4 0 ''ACCESS'' ''a'' 9001 [(''c'', ''9000'')]"

lemma example_code_tidy: "code_tidy cs example_code"
  by (simp add: code_tidy_def example_code_def post_def)

lemma reactor_events:
  "\<exists>w w'. CreateEvents example_env reactor_start = Some (w, True) \<and>
    handle example_code (FdEvent 7 ''1.2.3.4'' CODEC_PROTOBUF) w = Some w' \<and> conn_of (7, 3) w' \<noteq> None"
  by (simp add: CreateEvents_def create_channel_def GetSequence_worker_def CreateFdAttr_def example_env_def zero_malloc_def
      AddIoReadEvent_def AddInnerFd_def FdTransfer_def AddIoTimeout_def upd_conn_def reactor_start_def Init_worker_def
      conn_of_def watch_def new_conn_def c_str_def Let_def) blast


text \<open>In an access node no message of a client is refused for want of a login: whatever the client has sent
  before, unless it came over a websocket that was not opened, the check lets the message through, completed with
  the data of the client when there is some. The comparison that was to refuse it is of an unsigned number with
  zero.\<close>

theorem access_clients_unchecked:
  assumes "c_access code" "wf_cbuffer (pClientData c)" "eCodecType c \<noteq> CODEC_WEBSOCKET_JSON"
  shows "\<exists>head'. h_cmd head' = h_cmd head \<and> h_seq head' = h_seq head \<and>
    access_gate code fd c head body w =
      Some (head', (if contents (pClientData c) = [] then body else body\<lparr>b_additional := Some (contents (pClientData c))\<rparr>), True)"
  using assms length_contents [of "pClientData c"] by (auto simp: access_gate_def ToString_spec Let_def)

theorem access_clients_unchecked_witness:
  "access_gate (example_code\<lparr>c_access := True\<rparr>) 7 ((new_conn 3 CODEC_PROTOBUF)\<lparr>ulMsgNum := 5\<rparr>)
     (head_for example_env 1001 1 (plain_body [])) (plain_body []) line_worker \<noteq> None"
  using access_clients_unchecked [of "example_code\<lparr>c_access := True\<rparr>" "(new_conn 3 CODEC_PROTOBUF)\<lparr>ulMsgNum := 5\<rparr>"
      "head_for example_env 1001 1 (plain_body [])" 7 "plain_body []" line_worker]
  by (auto simp: new_conn_def)

end
