(* ===== verification/Manager_State.thy ===== *)
theory Manager_State
  imports Worker_Io
begin

text \<open>
  The manager process of a node (\<open>Starship/src/labor/duty/OssManager.cpp\<close>): its connections, the table of its
  worker processes, and sending. A connection has the type it has in a worker; fields of the manager carry an
  \<open>M\<close>, and operations that a worker has under the same name end in \<open>_mgr\<close>. \<open>M_calls\<close> numbers the system
  calls whose outcomes are arguments; \<open>M_wire\<close>, \<open>M_connects\<close>, \<open>M_passed\<close>, \<open>M_closed\<close> and \<open>M_killed\<close> record what
  was handed to \<open>send\<close>, \<open>connect\<close>, \<open>sendmsg\<close>, \<open>close\<close> and \<open>kill\<close>. \<open>None\<close> is undefined behaviour.
\<close>

section \<open>The manager\<close>

record 'd worker_attr =
  iWorkerIndex :: int
  iControlFd :: int
  iDataFd :: int
  iLoad :: int
  iConnect :: int
  iRecvNum :: int
  iRecvByte :: int
  iSendNum :: int
  iSendByte :: int
  iClientNum :: int
  dBeatTime :: 'd

text \<open>\<open>M_wait\<close> is the data of the timer of a pending stop or restart.\<close>

record 'd manager =
  M_ulSequence :: u32
  M_strNodeType :: string
  M_uiNodeId :: u32
  M_strHostForServer :: string
  M_strHostForClient :: string
  M_strGateway :: string
  M_iPortForServer :: int
  M_iPortForClient :: int
  M_iGatewayIp :: int
  M_eCodec :: codec_type
  M_iAddrPermitNum :: int
  M_iRefreshInterval :: int
  M_iLastRefreshCalc :: int
  M_iWaitToExitCounter :: int
  M_wait :: "(msg_shell \<times> u32 \<times> u32) option"
  M_mapWorker :: "(int, 'd worker_attr) stdmap"
  M_mapWorkerRestartNum :: "(int, int) stdmap"
  M_mapWorkerFdPid :: "(int, int) stdmap"
  M_mapCenterMsgShell :: "(string, msg_shell) stdmap"
  M_mapFdAttr :: "(int, conn) stdmap"
  M_mapSeq2WorkerIndex :: "(u32, int) stdmap"
  M_mapClientConnFrequency :: "(u32, u32) stdmap"
  M_calls :: nat
  M_wire :: "(msg_shell \<times> byte list) list"
  M_connects :: "(int \<times> string \<times> u16) list"
  M_passed :: "(int \<times> int \<times> string \<times> codec_type) list"
  M_closed :: "int list"
  M_killed :: "(int \<times> int) list"
  M_exited :: bool

text \<open>What the manager runs in: \<open>g_late\<close> compares a beat with the current time, \<open>g_recent\<close> says whether a
  connection was active within its time limit, \<open>g_pass\<close> is the error of passing a descriptor, \<open>g_pair\<close> the parent's
  end of a new socket pair and \<open>g_fork\<close> the process number of a new worker.\<close>

record 'd menv =
  g_env :: wenv
  g_sys :: sys_pb
  g_fp :: "'d fpu"
  g_junk :: "u32 \<times> u32"
  g_access :: bool
  g_now :: "nat \<Rightarrow> 'd"
  g_late :: "'d \<Rightarrow> 'd \<Rightarrow> bool"
  g_recent :: "nat \<Rightarrow> bool"
  g_recv :: "nat \<Rightarrow> int + byte list"
  g_pass :: "nat \<Rightarrow> int"
  g_pair :: "nat \<Rightarrow> int option"
  g_fork :: "nat \<Rightarrow> int option"

definition SIGINT :: int where "SIGINT = 2"
definition SIGKILL :: int where "SIGKILL = 9"

definition next_call :: "'d manager \<Rightarrow> 'd manager" where
  "next_call g = g\<lparr>M_calls := Suc (M_calls g)\<rparr>"

definition GetSequence_mgr :: "'d manager \<Rightarrow> 'd manager \<times> u32" where
  "GetSequence_mgr g = (g\<lparr>M_ulSequence := M_ulSequence g + 1\<rparr>, M_ulSequence g)"

definition new_worker :: "int \<Rightarrow> int \<Rightarrow> int \<Rightarrow> 'd \<Rightarrow> 'd worker_attr" where
  "new_worker index control data now =
     \<lparr>iWorkerIndex = index, iControlFd = control, iDataFd = data, iLoad = 0, iConnect = 0, iRecvNum = 0, iRecvByte = 0,
      iSendNum = 0, iSendByte = 0, iClientNum = 0, dBeatTime = now\<rparr>"

section \<open>Connections\<close>

definition upd_mgr :: "int \<Rightarrow> (conn \<Rightarrow> conn) \<Rightarrow> 'd manager \<Rightarrow> 'd manager" where
  "upd_mgr fd f g =
     (case map_find fd (M_mapFdAttr g) of None \<Rightarrow> g
      | Some c \<Rightarrow> g\<lparr>M_mapFdAttr := map_put fd (f c) (M_mapFdAttr g)\<rparr>)"

definition conn_mgr :: "msg_shell \<Rightarrow> 'd manager \<Rightarrow> conn option" where
  "conn_mgr sh g =
     (case map_find (fst sh) (M_mapFdAttr g) of None \<Rightarrow> None | Some c \<Rightarrow> if ulSeq c = snd sh then Some c else None)"

definition CreateFdAttr_mgr :: "int \<Rightarrow> u32 \<Rightarrow> 'd manager \<Rightarrow> 'd manager \<times> bool" where
  "CreateFdAttr_mgr fd sq g =
     (if map_find fd (M_mapFdAttr g) \<noteq> None then (g, False)
      else (g\<lparr>M_mapFdAttr := map_put fd ((new_conn sq CODEC_PROTOBUF)\<lparr>pRemoteAddr := None\<rparr>) (M_mapFdAttr g)\<rparr>, True))"

definition AddIoReadEvent_mgr :: "int \<Rightarrow> 'd manager \<Rightarrow> 'd manager \<times> bool" where
  "AddIoReadEvent_mgr fd g = (upd_mgr fd (watch True False) g, True)"

definition AddIoWriteEvent_mgr :: "int \<Rightarrow> 'd manager \<Rightarrow> 'd manager \<times> bool" where
  "AddIoWriteEvent_mgr fd g = (upd_mgr fd (watch False True) g, True)"

definition RemoveIoWriteEvent_mgr :: "int \<Rightarrow> 'd manager \<Rightarrow> 'd manager" where
  "RemoveIoWriteEvent_mgr fd g =
     upd_mgr fd (\<lambda>c. case pIoWatcher c of None \<Rightarrow> c | Some (r, _) \<Rightarrow> c\<lparr>pIoWatcher := Some (r, False)\<rparr>) g"

definition AddIoTimeout_mgr :: "int \<Rightarrow> 'd manager \<Rightarrow> 'd manager \<times> bool" where
  "AddIoTimeout_mgr fd g = (upd_mgr fd (\<lambda>c. c\<lparr>pTimeWatcher := True\<rparr>) g, True)"

text \<open>\<open>DelEvents\<close> goes through the watcher of the connection, which must be there. What \<open>close\<close> returns is not
  looked at.\<close>

definition DestroyConnect_mgr :: "int \<Rightarrow> 'd manager \<Rightarrow> ('d manager \<times> bool) option" where
  "DestroyConnect_mgr fd g =
     (case map_find fd (M_mapFdAttr g) of None \<Rightarrow> Some (g, False)
      | Some c \<Rightarrow>
          if pIoWatcher c = None then None
          else
            let g = (if map_find (strIdentify c) (M_mapCenterMsgShell g) \<noteq> None
                     then g\<lparr>M_mapCenterMsgShell := map_put (strIdentify c) (0, 0) (M_mapCenterMsgShell g)\<rparr> else g)
            in Some (g\<lparr>M_closed := M_closed g @ [fd], M_mapFdAttr := map_erase fd (M_mapFdAttr g)\<rparr>, True))"

definition SetConnectIdentify_mgr :: "msg_shell \<Rightarrow> string \<Rightarrow> 'd manager \<Rightarrow> 'd manager \<times> bool" where
  "SetConnectIdentify_mgr sh ident g =
     (if conn_mgr sh g = None then (g, False) else (upd_mgr (fst sh) (\<lambda>c. c\<lparr>strIdentify := ident\<rparr>) g, True))"

section \<open>Sending\<close>

text \<open>\<open>WriteFD\<close> on the send buffer.\<close>

definition flush_fd :: "'d menv \<Rightarrow> int \<Rightarrow> 'd manager \<Rightarrow> ('d manager \<times> int \<times> int option) option" where
  "flush_fd e fd g = do {
     c \<leftarrow> map_find fd (M_mapFdAttr g);
     let b = pSendBuff c;
     let n = ReadableBytes b;
     let (b', len, err) = WriteFD (os_send (g_env e) (M_calls g) n) b;
     let g = (if int_of_size n = 0 then g else next_call g);
     out \<leftarrow> (if len > 0 then map_option (\<lambda>xs. [((fd, ulSeq c), take (nat len) xs)]) (ToString b) else Some []);
     Some (upd_mgr fd (\<lambda>c. c\<lparr>pSendBuff := b'\<rparr>) (g\<lparr>M_wire := M_wire g @ out\<rparr>), len, err)
   }"

definition rewatch :: "int \<Rightarrow> bool \<Rightarrow> 'd manager \<Rightarrow> 'd manager" where
  "rewatch fd all_sent g = (if all_sent then RemoveIoWriteEvent_mgr fd g else fst (AddIoWriteEvent_mgr fd g))"

text \<open>The common end of both \<open>SendTo\<close>, once the bytes are in the send buffer.\<close>

definition flush_out :: "'d menv \<Rightarrow> int \<Rightarrow> 'd manager \<Rightarrow> ('d manager \<times> bool) option" where
  "flush_out e fd g = do {
     c \<leftarrow> map_find fd (M_mapFdAttr g);
     let need = int_of_size (ReadableBytes (pSendBuff c));
     (g, len, err) \<leftarrow> flush_fd e fd g;
     if len < 0
     then if err \<noteq> Some EAGAIN \<and> err \<noteq> Some EINTR then map_option (\<lambda>(g, _). (g, False)) (DestroyConnect_mgr fd g)
          else if err = Some EAGAIN then Some (fst (AddIoWriteEvent_mgr fd g), True)
          else Some (g, True)
     else if len > 0 then Some (rewatch fd (len = need) g, True)
     else Some (g, True)
   }"

definition SendTo_shell_mgr :: "'d menv \<Rightarrow> msg_shell \<Rightarrow> 'd manager \<Rightarrow> ('d manager \<times> bool) option" where
  "SendTo_shell_mgr e sh g =
     (case conn_mgr sh g of None \<Rightarrow> Some (g, False)
      | Some c \<Rightarrow>
          let need = int_of_size (ReadableBytes (pWaitForSendBuff c)); idx = GetWriteIndex (pSendBuff c) in
          (case Write_unit (w_malloc (g_env e)) (Some (pWaitForSendBuff c)) (ReadableBytes (pWaitForSendBuff c)) (pSendBuff c) of
             Some (send, Some wait, moved) \<Rightarrow>
               let g = upd_mgr (fst sh) (\<lambda>c. c\<lparr>pSendBuff := send, pWaitForSendBuff := wait\<rparr>) g in
               if moved = need then flush_out e (fst sh) g
               else Some (upd_mgr (fst sh) (\<lambda>c. c\<lparr>pSendBuff := SetWriteIndex idx (pSendBuff c)\<rparr>) g, False)
           | _ \<Rightarrow> None))"

definition SendTo_mgr :: "'d menv \<Rightarrow> msg_shell \<Rightarrow> msg_head \<Rightarrow> msg_body \<Rightarrow> 'd manager \<Rightarrow> ('d manager \<times> bool) option" where
  "SendTo_mgr e sh head body g =
     (case conn_mgr sh g of None \<Rightarrow> Some (g, False)
      | Some c \<Rightarrow> do {
          let hs = ser_head (w_pb (g_env e)) head;
          let bs = ser_body (w_pb (g_env e)) body;
          let idx = GetWriteIndex (pSendBuff c);
          let set_buff = (\<lambda>b g. upd_mgr (fst sh) (\<lambda>c. c\<lparr>pSendBuff := b\<rparr>) g);
          (b, n) \<leftarrow> Write (w_malloc (g_env e)) hs (pSendBuff c);
          if n \<noteq> int_of_size (length hs) then Some (set_buff (SetWriteIndex idx b) g, False)
          else do {
            (b, n) \<leftarrow> Write (w_malloc (g_env e)) bs b;
            if n = int_of_size (length bs) then flush_out e (fst sh) (set_buff b g)
            else Some (set_buff (SetWriteIndex idx b) g, False)
          }
        })"

text \<open>\<open>AutoSend\<close> takes the identify apart without checking it, nor the descriptor.\<close>

definition split_identify :: "string \<Rightarrow> string \<times> int \<times> int" where
  "split_identify ident =
     (let p = (case find_char (CHR '':'') ident of None \<Rightarrow> -1 | Some i \<Rightarrow> int i); d = rfind_char (CHR ''.'') ident in
      (substr ident 0 p, atoi (substr ident (nat (p + 1)) (d - (p + 1))), atoi (drop (nat (d + 1)) ident)))"

definition AutoSend_mgr :: "'d menv \<Rightarrow> string \<Rightarrow> msg_head \<Rightarrow> msg_body \<Rightarrow> 'd manager \<Rightarrow> ('d manager \<times> bool) option" where
  "AutoSend_mgr e ident head body g =
     (let (host, port, index) = split_identify ident; fd = os_socket (g_env e) (M_calls g); g = next_call g;
          (g, sq) = GetSequence_mgr g; (g, ok) = CreateFdAttr_mgr fd sq g in
      if \<not> ok then Some (g\<lparr>M_closed := M_closed g @ [fd]\<rparr>, False)
      else let (g, timed) = AddIoTimeout_mgr fd g in
        if \<not> timed then map_option (\<lambda>(g, _). (g, False)) (DestroyConnect_mgr fd g)
        else let (g, r) = AddIoReadEvent_mgr fd g in
          if \<not> r then map_option (\<lambda>(g, _). (g, False)) (DestroyConnect_mgr fd g)
          else let (g, wr) = AddIoWriteEvent_mgr fd g in
            if \<not> wr then map_option (\<lambda>(g, _). (g, False)) (DestroyConnect_mgr fd g)
            else do {
              c \<leftarrow> map_find fd (M_mapFdAttr g);
              (b, _) \<leftarrow> Write (w_malloc (g_env e)) (ser_head (w_pb (g_env e)) head) (pWaitForSendBuff c);
              (b, _) \<leftarrow> Write (w_malloc (g_env e)) (ser_body (w_pb (g_env e)) body) b;
              let g = upd_mgr fd (\<lambda>c. c\<lparr>pWaitForSendBuff := b, strIdentify := ident\<rparr>) g;
              let g = g\<lparr>M_mapSeq2WorkerIndex := map_insert sq index (M_mapSeq2WorkerIndex g)\<rparr>;
              let g = (if map_find ident (M_mapCenterMsgShell g) = None then g
                else g\<lparr>M_mapCenterMsgShell := map_put ident (fd, sq) (M_mapCenterMsgShell g)\<rparr>);
              Some (g\<lparr>M_connects := M_connects g @ [(fd, host, of_int port)]\<rparr>, True)
            })"

section \<open>The workers\<close>

text \<open>The worker with the least load, the first of them in the order of the process numbers.\<close>

fun min_worker :: "int \<times> int \<Rightarrow> int \<Rightarrow> (int, 'd worker_attr) stdmap \<Rightarrow> int \<times> int" where
  "min_worker best iMinLoad [] = best"
| "min_worker best iMinLoad ((pid, a) # ws) =
     (if iLoad a < iMinLoad then min_worker (pid, iDataFd a) (iLoad a) ws else min_worker best iMinLoad ws)"

definition GetMinLoadWorkerDataFd :: "'d manager \<Rightarrow> int \<times> int" where
  "GetMinLoadWorkerDataFd g =
     (case M_mapWorker g of [] \<Rightarrow> (0, 0) | (pid, a) # ws \<Rightarrow> min_worker (pid, iDataFd a) (iLoad a) ws)"

definition upd_worker :: "int \<Rightarrow> ('d worker_attr \<Rightarrow> 'd worker_attr) \<Rightarrow> 'd manager \<Rightarrow> 'd manager" where
  "upd_worker pid f g =
     (case map_find pid (M_mapWorker g) of None \<Rightarrow> g
      | Some a \<Rightarrow> g\<lparr>M_mapWorker := map_put pid (f a) (M_mapWorker g)\<rparr>)"

definition read_int :: "'x jobj \<Rightarrow> string \<Rightarrow> int \<Rightarrow> int" where
  "read_int ob k old = (case Get_key_int32 ob (ascii k) of None \<Rightarrow> old | Some i \<Rightarrow> i)"

definition SetWorkerLoad :: "'d menv \<Rightarrow> int \<Rightarrow> 'd jobj \<Rightarrow> 'd manager \<Rightarrow> 'd manager" where
  "SetWorkerLoad e pid ob g =
     upd_worker pid (\<lambda>a. a\<lparr>iLoad := read_int ob ''load'' (iLoad a), iConnect := read_int ob ''connect'' (iConnect a),
       iRecvNum := read_int ob ''recv_num'' (iRecvNum a), iRecvByte := read_int ob ''recv_byte'' (iRecvByte a),
       iSendNum := read_int ob ''send_num'' (iSendNum a), iSendByte := read_int ob ''send_byte'' (iSendByte a),
       iClientNum := read_int ob ''client'' (iClientNum a), dBeatTime := g_now e (M_calls g)\<rparr>) (next_call g)"

definition AddWorkerLoad :: "int \<Rightarrow> int \<Rightarrow> 'd manager \<Rightarrow> 'd manager" where
  "AddWorkerLoad pid n g = upd_worker pid (\<lambda>a. a\<lparr>iLoad := wrap32 (iLoad a + n)\<rparr>) g"

text \<open>\<open>SendToWorker\<close>: to one worker, and to all of them.\<close>

definition send_worker :: "'d menv \<Rightarrow> msg_head \<Rightarrow> msg_body \<Rightarrow> 'd worker_attr \<Rightarrow> 'd manager \<Rightarrow> 'd manager option" where
  "send_worker e head body a g =
     (let fd = iControlFd a in
      case map_find fd (M_mapFdAttr g) of None \<Rightarrow> Some g
      | Some c \<Rightarrow> do {
          (b, _) \<leftarrow> Write (w_malloc (g_env e)) (ser_head (w_pb (g_env e)) head) (pSendBuff c);
          (b, _) \<leftarrow> Write (w_malloc (g_env e)) (ser_body (w_pb (g_env e)) body) b;
          let need = int_of_size (ReadableBytes b);
          (g, len, err) \<leftarrow> flush_fd e fd (upd_mgr fd (\<lambda>c. c\<lparr>pSendBuff := b\<rparr>) g);
          let g = (if len < 0 then if err = Some EAGAIN then fst (AddIoWriteEvent_mgr fd g) else g
                   else if len > 0 then rewatch fd (len = need) g else g);
          c \<leftarrow> map_find fd (M_mapFdAttr g);
          (b, _) \<leftarrow> Compact (w_malloc (g_env e)) 32784 (pSendBuff c);
          Some (upd_mgr fd (\<lambda>c. c\<lparr>pSendBuff := b\<rparr>) g)
        })"

fun send_workers :: "'d menv \<Rightarrow> msg_head \<Rightarrow> msg_body \<Rightarrow> (int, 'd worker_attr) stdmap \<Rightarrow> 'd manager \<Rightarrow> 'd manager option" where
  "send_workers e head body [] g = Some g"
| "send_workers e head body ((_, a) # ws) g =
     (case send_worker e head body a g of None \<Rightarrow> None | Some g \<Rightarrow> send_workers e head body ws g)"

definition SendToWorker :: "'d menv \<Rightarrow> msg_head \<Rightarrow> msg_body \<Rightarrow> 'd manager \<Rightarrow> ('d manager \<times> bool) option" where
  "SendToWorker e head body g = map_option (\<lambda>g. (g, True)) (send_workers e head body (M_mapWorker g) g)"

text \<open>The counter of the loop in \<open>SendToWorkerWithMod\<close> stays zero, so only the first worker can be the target. With
  no worker the remainder is undefined.\<close>

definition SendToWorkerWithMod :: "'d menv \<Rightarrow> u32 \<Rightarrow> msg_head \<Rightarrow> msg_body \<Rightarrow> 'd manager \<Rightarrow> ('d manager \<times> bool) option" where
  "SendToWorkerWithMod e uiModFactor head body g =
     (case M_mapWorker g of [] \<Rightarrow> None
      | (_, a) # ws \<Rightarrow>
          if unat uiModFactor mod length (M_mapWorker g) = 0
          then map_option (\<lambda>g. (g, True)) (send_worker e head body a g) else Some (g, False))"

end
