(* ===== verification/Manager_Cmd.thy ===== *)
theory Manager_Cmd
  imports Manager_State
begin

text \<open>
  The callbacks of the manager (\<open>OssManager.cpp\<close>): connections of clients and servers and the passing of
  their descriptors to workers, messages from workers, centers and other nodes, timeouts, dead workers, and the
  reports to the centers. Reading the configuration file again (\<open>RefreshServer\<close>) is left out.
\<close>

section \<open>Accepting and passing descriptors\<close>

text \<open>The descriptor \<open>fd\<close> goes to the worker with the least load; when there is none it stays open.\<close>

definition pass_client :: "'d menv \<Rightarrow> int \<Rightarrow> string \<Rightarrow> 'd manager \<Rightarrow> 'd manager \<times> bool" where
  "pass_client e fd ip g =
     (let (pid, data) = GetMinLoadWorkerDataFd g in
      if data > 0
      then let iErrno = g_pass e (M_calls g); g = next_call g;
               g = (if iErrno = 0
                    then AddWorkerLoad pid 1 (g\<lparr>M_passed := M_passed g @ [(data, fd, ip, M_eCodec g)]\<rparr>) else g)
           in (g\<lparr>M_closed := M_closed g @ [fd]\<rparr>, True)
      else (g, False))"

text \<open>\<open>accept\<close> gave \<open>fd\<close> for a peer at \<open>addr\<close>, written \<open>ip\<close>. The number of connections of an address is limited in
  an access node only.\<close>

definition FdTransfer_mgr :: "'d menv \<Rightarrow> int \<Rightarrow> u32 \<Rightarrow> string \<Rightarrow> 'd manager \<Rightarrow> 'd manager \<times> bool" where
  "FdTransfer_mgr e fd addr ip g =
     (let freq = map_find addr (M_mapClientConnFrequency g); n = (case freq of None \<Rightarrow> 1 | Some n \<Rightarrow> n + 1);
          g = g\<lparr>M_mapClientConnFrequency := map_put addr n (M_mapClientConnFrequency g)\<rparr> in
      if g_access e \<and> freq \<noteq> None \<and> n > of_int (M_iAddrPermitNum g)
      then (g\<lparr>M_closed := M_closed g @ [fd]\<rparr>, False)
      else pass_client e fd ip g)"

definition ClientConnFrequencyTimeout :: "u32 \<Rightarrow> 'd manager \<Rightarrow> 'd manager \<times> bool" where
  "ClientConnFrequencyTimeout addr g =
     (if map_find addr (M_mapClientConnFrequency g) = None then (g, False)
      else (g\<lparr>M_mapClientConnFrequency := map_erase addr (M_mapClientConnFrequency g)\<rparr>, True))"

definition AcceptServerConn :: "int \<Rightarrow> 'd manager \<Rightarrow> ('d manager \<times> bool) option" where
  "AcceptServerConn fd g =
     (let (g, sq) = GetSequence_mgr g; (g, ok) = CreateFdAttr_mgr fd sq g in
      if \<not> ok then Some (g\<lparr>M_closed := M_closed g @ [fd]\<rparr>, False)
      else let (g, timed) = AddIoTimeout_mgr fd g in
        if \<not> timed then map_option (\<lambda>(g, _). (g, False)) (DestroyConnect_mgr fd g)
        else let (g, r) = AddIoReadEvent_mgr fd g in
          if \<not> r then map_option (\<lambda>(g, _). (g, False)) (DestroyConnect_mgr fd g) else Some (g, True))"

section \<open>Messages\<close>

definition CMD_REQ_NODE_STATUS_REPORT :: u32 where "CMD_REQ_NODE_STATUS_REPORT = 11"
definition CMD_REQ_NODE_REGISTER :: u32 where "CMD_REQ_NODE_REGISTER = 13"
definition CMD_REQ_NODE_STOP :: u32 where "CMD_REQ_NODE_STOP = 35"
definition CMD_REQ_NODE_RESTART_WORKERS :: u32 where "CMD_REQ_NODE_RESTART_WORKERS = 37"
definition ERR_NO_SUCH_WORKER_INDEX :: int where "ERR_NO_SUCH_WORKER_INDEX = 10001"

text \<open>An \<open>OrdinaryResponse\<close> to the message with the given head.\<close>

definition ordinary :: "'d menv \<Rightarrow> msg_head \<Rightarrow> int \<Rightarrow> string \<Rightarrow> msg_head \<times> msg_body" where
  "ordinary e head err msg =
     (let body = plain_body (ser_ordinary (g_sys e) err msg) in (head_for (g_env e) (h_cmd head + 1) (h_seq head) body, body))"

definition respond :: "'d menv \<Rightarrow> msg_shell \<Rightarrow> msg_head \<Rightarrow> 'd manager \<Rightarrow> 'd manager option" where
  "respond e sh head g =
     (let (h, b) = ordinary e head 0 ''OK'' in map_option fst (SendTo_mgr e sh h b g))"

definition AddWaitToExitTaskEvent :: "msg_shell \<Rightarrow> u32 \<Rightarrow> u32 \<Rightarrow> 'd manager \<Rightarrow> 'd manager \<times> bool" where
  "AddWaitToExitTaskEvent sh cw sq g =
     (if M_iWaitToExitCounter g \<noteq> 0 then (g, False)
      else (g\<lparr>M_wait := Some (sh, cw, sq), M_iWaitToExitCounter := wrap32 (M_iWaitToExitCounter g + 1)\<rparr>, True))"

text \<open>The branches for other commands stand inside the branch for \<open>CMD_REQ_UPDATE_WORKER_LOAD\<close>, where they are
  never taken; for every other command the function ends without a \<open>return\<close>, which is undefined.\<close>

definition DisposeDataFromWorker :: "'d menv \<Rightarrow> msg_shell \<Rightarrow> msg_head \<Rightarrow> msg_body \<Rightarrow> 'd manager \<Rightarrow> ('d manager \<times> bool) option" where
  "DisposeDataFromWorker e sh head body g =
     (if h_cmd head = CMD_REQ_UPDATE_WORKER_LOAD
      then case map_find (fst sh) (M_mapWorkerFdPid g) of
             Some pid \<Rightarrow>
               (case Jobj_Parse (g_fp e) (g_junk e) (b_body body) of
                  Done (oJsonLoad, _) \<Rightarrow> Some (SetWorkerLoad e pid oJsonLoad g, True)
                | _ \<Rightarrow> None)
           | None \<Rightarrow> Some (g, True)
      else None)"

text \<open>The request of another node to hand the connection to the worker of an index. The descriptor is passed and,
  since the result is always false, closed here; a peer that asks for an unknown index gets no answer.\<close>

definition write_back :: "'d menv \<Rightarrow> int \<Rightarrow> msg_head \<times> msg_body \<Rightarrow> 'd manager \<Rightarrow> 'd manager option" where
  "write_back e fd m g = do {
     c \<leftarrow> map_find fd (M_mapFdAttr g);
     (b, _) \<leftarrow> Write (w_malloc (g_env e)) (ser_head (w_pb (g_env e)) (fst m)) (pSendBuff c);
     (b, _) \<leftarrow> Write (w_malloc (g_env e)) (ser_body (w_pb (g_env e)) (snd m)) b;
     map_option fst (flush_fd e fd (upd_mgr fd (\<lambda>c. c\<lparr>pSendBuff := b\<rparr>) g))
   }"

definition worker_with_index :: "int \<Rightarrow> 'd manager \<Rightarrow> 'd worker_attr option" where
  "worker_with_index i g = find (\<lambda>a. iWorkerIndex a = i) (map snd (M_mapWorker g))"

definition DisposeDataAndTransferFd :: "'d menv \<Rightarrow> msg_shell \<Rightarrow> msg_head \<Rightarrow> msg_body \<Rightarrow> 'd manager \<Rightarrow> ('d manager \<times> bool) option" where
  "DisposeDataAndTransferFd e sh head body g =
     (if h_cmd head = CMD_REQ_CONNECT_TO_WORKER
      then case parse_connect (g_sys e) (b_body body) of None \<Rightarrow> Some (g, False)
           | Some index \<Rightarrow>
               (case worker_with_index index g of None \<Rightarrow> Some (g, False)
                | Some a \<Rightarrow> do {
                    g \<leftarrow> write_back e (fst sh) (ordinary e head 0 ''OK'') g;
                    let iErrno = g_pass e (M_calls g);
                    let g = next_call g;
                    Some (if iErrno = 0
                          then g\<lparr>M_passed := M_passed g @ [(iDataFd a, fst sh, ''0.0.0.0'', CODEC_PROTOBUF)]\<rparr> else g, False)
                  })
      else map_option (\<lambda>g. (g, False)) (write_back e (fst sh) (ordinary e head ERR_UNKNOWN_CMD ''unknow cmd!'') g))"

text \<open>The answer of the center's manager to the set-up: the manager tells its name and sends what waits. The
  node type it tells is the one of \<open>OssLabor\<close>, which the manager never sets.\<close>

definition tell_center :: "'d menv \<Rightarrow> msg_shell \<Rightarrow> 'd manager \<Rightarrow> ('d manager \<times> bool) option" where
  "tell_center e sh g = do {
     let ident = snprintf 64 (c_str (M_strHostForServer g) @ '':'' @ fmt_d (M_iPortForServer g));
     let body = target_body (g_sys e) 0 ident [] ''OK'';
     let (g, sq) = GetSequence_mgr g;
     let fd = fst sh;
     c \<leftarrow> map_find fd (M_mapFdAttr g);
     (b, _) \<leftarrow> Write (w_malloc (g_env e)) (ser_head (w_pb (g_env e)) (head_for (g_env e) CMD_REQ_TELL_WORKER sq body)) (pSendBuff c);
     (b, _) \<leftarrow> Write (w_malloc (g_env e)) (ser_body (w_pb (g_env e)) body) b;
     (case Write_unit (w_malloc (g_env e)) (Some (pWaitForSendBuff c)) (ReadableBytes (pWaitForSendBuff c)) b of
        Some (b, Some wait, _) \<Rightarrow> do {
          let need = int_of_size (ReadableBytes b);
          (g, len, err) \<leftarrow> flush_fd e fd (upd_mgr fd (\<lambda>c. c\<lparr>pSendBuff := b, pWaitForSendBuff := wait\<rparr>) g);
          Some (if len < 0
                then if err \<noteq> Some EAGAIN \<and> err \<noteq> Some EINTR then (g, False)
                     else if err = Some EAGAIN then (fst (AddIoWriteEvent_mgr fd g), True) else (g, True)
                else if len > 0 then (rewatch fd (len = need) g, True) else (g, True))
        }
      | _ \<Rightarrow> None)
   }"

definition node_registered :: "'d menv \<Rightarrow> msg_shell \<Rightarrow> msg_head \<Rightarrow> msg_body \<Rightarrow> 'd manager \<Rightarrow> ('d manager \<times> bool) option" where
  "node_registered e sh head body g =
     (case Jobj_Parse (g_fp e) (g_junk e) (b_body body) of
        Done (oNode, _) \<Rightarrow>
          if read_int oNode ''errcode'' 0 = 0
          then do {
            let g = g\<lparr>M_uiNodeId := (case Get_key_uint32 oNode (ascii ''node_id'') of None \<Rightarrow> M_uiNodeId g | Some i \<Rightarrow> i)\<rparr>;
            (g, _) \<leftarrow> SendToWorker e \<lparr>h_cmd = CMD_REQ_REFRESH_NODE_ID, h_msgbody_len = h_msgbody_len head, h_seq = h_seq head\<rparr> body g;
            Some (RemoveIoWriteEvent_mgr (fst sh) g, True)
          }
          else Some (g, True)
      | _ \<Rightarrow> None)"

definition DisposeDataFromCenter :: "'d menv \<Rightarrow> msg_shell \<Rightarrow> msg_head \<Rightarrow> msg_body \<Rightarrow> 'd manager \<Rightarrow> ('d manager \<times> bool) option" where
  "DisposeDataFromCenter e sh head body g =
     (if h_cmd head AND 1 \<noteq> 0
      then if h_cmd head = CMD_REQ_BEAT
        then map_option (\<lambda>(g, _). (g, True)) (SendTo_mgr e sh (head\<lparr>h_cmd := h_cmd head + 1\<rparr>) body g)
        else if h_cmd head = of_int CMD_REQ_SERVER_CONFIG
        then do {
          g \<leftarrow> respond e sh head g;
          (g, _) \<leftarrow> SendToWorkerWithMod e 0 head body g;
          Some (g\<lparr>M_iLastRefreshCalc := M_iRefreshInterval g\<rparr>, True)
        }
        else if h_cmd head = CMD_REQ_RELOAD_LOGIC_CONFIG
        then do {
          g \<leftarrow> respond e sh head g;
          SendToWorker e head body g
        }
        else if h_cmd head = CMD_REQ_NODE_STOP \<or> h_cmd head = CMD_REQ_NODE_RESTART_WORKERS
        then Some (fst (AddWaitToExitTaskEvent sh (h_cmd head) (h_seq head) g), True)
        else do {
          (g, _) \<leftarrow> SendToWorker e head body g;
          g \<leftarrow> respond e sh head g;
          Some (g, True)
        }
      else if h_cmd head = of_int CMD_RSP_NODE_REGISTER then node_registered e sh head body g
      else if h_cmd head = CMD_RSP_CONNECT_TO_WORKER then tell_center e sh g
      else Some (g, True))"

section \<open>Reading\<close>

definition gc_uiMsgHeadSize :: nat where "gc_uiMsgHeadSize = 15"

text \<open>Who a message is from is decided by the table of worker descriptors and the name of the connection.\<close>

definition Dispose_mgr :: "'d menv \<Rightarrow> msg_shell \<Rightarrow> conn \<Rightarrow> msg_head \<Rightarrow> msg_body \<Rightarrow> 'd manager \<Rightarrow> ('d manager \<times> bool) option" where
  "Dispose_mgr e sh c head body g =
     (if map_find (fst sh) (M_mapWorkerFdPid g) \<noteq> None then DisposeDataFromWorker e sh head body g
      else if map_find (strIdentify c) (M_mapCenterMsgShell g) = None then DisposeDataAndTransferFd e sh head body g
      else DisposeDataFromCenter e sh head body g)"

text \<open>The loop over the messages. \<open>oInMsgBody\<close> lives across the rounds and is not cleared: after a message without
  body it still holds the one before, whose size is skipped again. \<open>None\<close> as the body is one that was never
  parsed. The buffers are used through the iterator after the dispatch, so the connection must still be there.\<close>

definition body_value :: "msg_body option \<Rightarrow> msg_body" where
  "body_value b = (case b of None \<Rightarrow> plain_body [] | Some b \<Rightarrow> b)"

definition body_size :: "'d menv \<Rightarrow> msg_body option \<Rightarrow> nat" where
  "body_size e b = (case b of None \<Rightarrow> 0 | Some b \<Rightarrow> length (ser_body (w_pb (g_env e)) b))"

definition after_dispose :: "'d menv \<Rightarrow> msg_shell \<Rightarrow> nat \<Rightarrow> 'd manager \<Rightarrow> 'd manager option" where
  "after_dispose e sh n g = do {
     c \<leftarrow> conn_mgr sh g;
     (r, _) \<leftarrow> Compact (w_malloc (g_env e)) 32784 (SkipBytes n (pRecvBuff c));
     (s, _) \<leftarrow> Compact (w_malloc (g_env e)) 32784 (pSendBuff c);
     Some (upd_mgr (fst sh) (\<lambda>c. c\<lparr>pRecvBuff := r, pSendBuff := s\<rparr>) g)
   }"

partial_function (option) message_loop :: "'d menv \<Rightarrow> msg_shell \<Rightarrow> msg_body option \<Rightarrow> 'd manager \<Rightarrow> ('d manager \<times> bool) option" where
  "message_loop e sh oInMsgBody g =
     (case map_find (fst sh) (M_mapFdAttr g) of None \<Rightarrow> None
      | Some c \<Rightarrow>
          let pb = w_pb (g_env e) in
          if ReadableBytes (pRecvBuff c) < gc_uiMsgHeadSize then Some (g, True)
          else
            (case parse_array (parse_head pb) (pRecvBuff c) 0 gc_uiMsgHeadSize of None \<Rightarrow> None
             | Some (ok, head) \<Rightarrow>
                 if \<not> ok then map_option (\<lambda>(g, _). (g, True)) (DestroyConnect_mgr (fst sh) g)
                 else if ReadableBytes (pRecvBuff c) < unat (of_nat gc_uiMsgHeadSize + h_msgbody_len head) then Some (g, True)
                 else
                   (case (if h_msgbody_len head = 0 then Some (True, oInMsgBody)
                          else map_option (\<lambda>(ok, b). (ok, Some b))
                                 (parse_array (protobuf.parse_body pb) (pRecvBuff c) gc_uiMsgHeadSize (unat (h_msgbody_len head)))) of
                      None \<Rightarrow> None
                    | Some (ok, body) \<Rightarrow>
                        if \<not> ok then map_option (\<lambda>(g, _). (g, True)) (DestroyConnect_mgr (fst sh) g)
                        else
                          Option.bind (Dispose_mgr e sh c head (body_value body) g) (\<lambda>(g, bContinue).
                          Option.bind (after_dispose e sh (gc_uiMsgHeadSize + body_size e body) g) (\<lambda>g.
                            if bContinue then message_loop e sh body g
                            else map_option (\<lambda>(g, _). (g, False)) (DestroyConnect_mgr (fst sh) g))))))"

definition RecvDataAndDispose_mgr :: "'d menv \<Rightarrow> msg_shell \<Rightarrow> 'd manager \<Rightarrow> ('d manager \<times> bool) option" where
  "RecvDataAndDispose_mgr e sh g =
     (case map_find (fst sh) (M_mapFdAttr g) of None \<Rightarrow> Some (g, True)
      | Some c \<Rightarrow>
          if ulSeq c \<noteq> snd sh then Some (g, False)
          else do {
            (b, len, err) \<leftarrow> ReadFD (w_malloc (g_env e)) (g_recv e (M_calls g)) (pRecvBuff c);
            let g = upd_mgr (fst sh) (\<lambda>c. c\<lparr>pRecvBuff := b\<rparr>) (next_call g);
            if len > 0 then message_loop e sh None g
            else if len = 0 \<or> err \<noteq> Some EAGAIN \<and> err \<noteq> Some EINTR
            then map_option (\<lambda>(g, _). (g, True)) (DestroyConnect_mgr (fst sh) g)
            else Some (g, True)
          })"

section \<open>Writing and errors\<close>

text \<open>\<open>IoWrite\<close> compares what was written with what is left in the buffer, not with what was there before.\<close>

definition connect_center :: "'d menv \<Rightarrow> msg_shell \<Rightarrow> conn \<Rightarrow> 'd manager \<Rightarrow> 'd manager option" where
  "connect_center e sh c g =
     (case map_find (snd sh) (M_mapSeq2WorkerIndex g) of None \<Rightarrow> Some g
      | Some index \<Rightarrow>
          let g = g\<lparr>M_mapCenterMsgShell := map_put (strIdentify c) sh (M_mapCenterMsgShell g)\<rparr>;
              body = plain_body (ser_connect (g_sys e) index); (g, sq) = GetSequence_mgr g;
              g = g\<lparr>M_mapSeq2WorkerIndex := map_erase (snd sh) (M_mapSeq2WorkerIndex g)\<rparr>
          in map_option fst (SendTo_mgr e sh (head_for (g_env e) CMD_REQ_CONNECT_TO_WORKER sq body) body g))"

definition IoWrite_mgr :: "'d menv \<Rightarrow> msg_shell \<Rightarrow> 'd manager \<Rightarrow> ('d manager \<times> bool) option" where
  "IoWrite_mgr e sh g =
     (case conn_mgr sh g of None \<Rightarrow> Some (g, False)
      | Some _ \<Rightarrow> do {
          let fd = fst sh;
          (g, len, err) \<leftarrow> flush_fd e fd g;
          c \<leftarrow> map_find fd (M_mapFdAttr g);
          g \<leftarrow> (if len < 0
                then if err \<noteq> Some EAGAIN \<and> err \<noteq> Some EINTR then map_option fst (DestroyConnect_mgr fd g)
                     else if err = Some EAGAIN then Some (fst (AddIoWriteEvent_mgr fd g)) else Some g
                else if len > 0 then Some (rewatch fd (len = int_of_size (ReadableBytes (pSendBuff c))) g)
                else if ReadableBytes (pWaitForSendBuff c) > 0 then connect_center e sh c g else Some g);
          Some (g, True)
        })"

text \<open>\<open>IoError\<close> sends the signal to the process whose number is the descriptor.\<close>

definition IoError_mgr :: "msg_shell \<Rightarrow> 'd manager \<Rightarrow> ('d manager \<times> bool) option" where
  "IoError_mgr sh g =
     (case conn_mgr sh g of None \<Rightarrow> Some (g, False)
      | Some _ \<Rightarrow> do {
          (g, _) \<leftarrow> DestroyConnect_mgr (fst sh) g;
          Some (if map_find (fst sh) (M_mapWorkerFdPid g) \<noteq> None then g\<lparr>M_killed := M_killed g @ [(fst sh, SIGINT)]\<rparr> else g, True)
        })"

definition IoTimeout_mgr :: "'d menv \<Rightarrow> msg_shell \<Rightarrow> 'd manager \<Rightarrow> ('d manager \<times> bool) option" where
  "IoTimeout_mgr e sh g =
     (case conn_mgr sh g of None \<Rightarrow> Some (g, False)
      | Some _ \<Rightarrow>
          if g_recent e (M_calls g) then Some (next_call g, True)
          else map_option (\<lambda>(g, _). (g, True)) (DestroyConnect_mgr (fst sh) (next_call g)))"

end
