(* ===== verification/Manager_Workers.thy ===== *)
theory Manager_Workers
  imports Manager_Cmd
begin

text \<open>
  The worker processes of a manager, from their start over the reports to the centers to their end
  (\<open>OssManager.cpp\<close>): creation, restart, supervision by the beat, and the orderly stop or restart of a node.
\<close>

section \<open>Reports to the centers\<close>

text \<open>The counters of one worker, and of all of them added up in an \<open>int\<close>.\<close>

definition load_members :: "int \<Rightarrow> int \<Rightarrow> int \<Rightarrow> int \<Rightarrow> int \<Rightarrow> int \<Rightarrow> int \<Rightarrow> jval" where
  "load_members l c rn rb sn sb cl =
     json_obj [(''load'', JInt l), (''connect'', JInt c), (''recv_num'', JInt rn), (''recv_byte'', JInt rb),
       (''send_num'', JInt sn), (''send_byte'', JInt sb), (''client'', JInt cl)]"

definition worker_json :: "'d worker_attr \<Rightarrow> jval" where
  "worker_json a = load_members (iLoad a) (iConnect a) (iRecvNum a) (iRecvByte a) (iSendNum a) (iSendByte a) (iClientNum a)"

definition total :: "('d worker_attr \<Rightarrow> int) \<Rightarrow> 'd manager \<Rightarrow> int" where
  "total f g = foldl (\<lambda>s a. wrap32 (s + f a)) 0 (map snd (M_mapWorker g))"

definition node_load_json :: "'d manager \<Rightarrow> jval" where
  "node_load_json g = load_members (total iLoad g) (total iConnect g) (total iRecvNum g) (total iRecvByte g)
     (total iSendNum g) (total iSendByte g) (total iClientNum g)"

text \<open>The time is a double, so the report is given as the items of the JSON library.\<close>

definition report_item :: "'d fpu \<Rightarrow> 'd \<Rightarrow> 'd manager \<Rightarrow> 'd cjson" where
  "report_item fp now g =
     with_child (map (\<lambda>(k, it). with_name (Some (ascii k)) it)
       [(''node_type'', of_jval fp None (jstr (M_strNodeType g))), (''node_id'', of_jval fp None (JInt (uint (M_uiNodeId g)))),
        (''node_ip'', of_jval fp None (jstr (M_strHostForServer g))), (''node_port'', of_jval fp None (JInt (M_iPortForServer g))),
        (''access_ip'', of_jval fp None (jstr (if M_strGateway g \<noteq> [] then M_strGateway g else M_strHostForClient g))),
        (''access_port'', of_jval fp None (JInt (if M_iGatewayIp g > 0 then M_iGatewayIp g else M_iPortForClient g))),
        (''worker_num'', of_jval fp None (JInt (wrap32 (int (length (M_mapWorker g)))))),
        (''active_time'', cJSON_CreateDouble fp now (-1)),
        (''node'', of_jval fp None (node_load_json g)),
        (''worker'', of_jval fp None (JArr (map (worker_json \<circ> snd) (M_mapWorker g))))])
     (cJSON_CreateObject fp)"

definition report_body :: "'d menv \<Rightarrow> 'd manager \<Rightarrow> msg_body" where
  "report_body e g = plain_body (cJSON_PrintUnformatted (g_fp e) (report_item (g_fp e) (g_now e (M_calls g)) g))"

text \<open>The loop over the centers; the command of the head stays \<open>CMD_REQ_NODE_REGISTER\<close> once a center without
  connection was met.\<close>

fun to_centers :: "'d menv \<Rightarrow> msg_head \<Rightarrow> msg_body \<Rightarrow> string list \<Rightarrow> 'd manager \<Rightarrow> 'd manager option" where
  "to_centers e head body [] g = Some g"
| "to_centers e head body (ident # ids) g =
     (case map_find ident (M_mapCenterMsgShell g) of None \<Rightarrow> None
      | Some sh \<Rightarrow>
          if fst sh = 0
          then let head = head\<lparr>h_cmd := CMD_REQ_NODE_REGISTER\<rparr> in
               Option.bind (AutoSend_mgr e ident head body g) (\<lambda>(g, _). to_centers e head body ids g)
          else Option.bind (SendTo_mgr e sh head body g) (\<lambda>(g, _). to_centers e head body ids g))"

definition report_to :: "'d menv \<Rightarrow> u32 \<Rightarrow> 'd manager \<Rightarrow> ('d manager \<times> bool) option" where
  "report_to e cw g =
     (let body = report_body e g; (g, sq) = GetSequence_mgr (next_call g)
      in map_option (\<lambda>g. (g, True)) (to_centers e (head_for (g_env e) cw sq body) body (map fst (M_mapCenterMsgShell g)) g))"

definition ReportToCenter :: "'d menv \<Rightarrow> 'd manager \<Rightarrow> ('d manager \<times> bool) option" where
  "ReportToCenter e g = report_to e CMD_REQ_NODE_STATUS_REPORT g"

definition RegisterToCenter :: "'d menv \<Rightarrow> 'd manager \<Rightarrow> ('d manager \<times> bool) option" where
  "RegisterToCenter e g = (if M_mapCenterMsgShell g = [] then Some (g, True) else report_to e CMD_REQ_NODE_REGISTER g)"

section \<open>Worker processes\<close>

text \<open>The part of the parent after \<open>fork\<close>: two socket pairs, the worker's entry, and a connection for each end. The
  numbers are indeterminate when a socket pair failed.\<close>

definition start_worker :: "'d menv \<Rightarrow> int \<Rightarrow> 'd manager \<Rightarrow> ('d manager \<times> bool) option" where
  "start_worker e index g =
     (let control = g_pair e (M_calls g); g = next_call g; data = g_pair e (M_calls g); g = next_call g;
          child = g_fork e (M_calls g); g = next_call g in
      case child of None \<Rightarrow> Some (g, False)
      | Some pid \<Rightarrow>
          (case (control, data) of
             (Some control, Some data) \<Rightarrow>
               let g = g\<lparr>M_mapWorker := map_insert pid (new_worker index control data (g_now e (M_calls g))) (M_mapWorker g),
                         M_mapWorkerFdPid := map_insert data pid (map_insert control pid (M_mapWorkerFdPid g))\<rparr>;
                   (g, sq1) = GetSequence_mgr g; (g, _) = CreateFdAttr_mgr control sq1 g;
                   (g, sq2) = GetSequence_mgr g; (g, _) = CreateFdAttr_mgr data sq2 g;
                   (g, _) = AddIoReadEvent_mgr control g; (g, _) = AddIoReadEvent_mgr data g
               in Some (g, True)
           | _ \<Rightarrow> None))"

fun create_workers :: "'d menv \<Rightarrow> nat \<Rightarrow> nat \<Rightarrow> 'd manager \<Rightarrow> 'd manager option" where
  "create_workers e i 0 g = Some g"
| "create_workers e i (Suc n) g =
     (case start_worker e (int i) g of None \<Rightarrow> None | Some (g, _) \<Rightarrow> create_workers e (Suc i) n g)"

definition CreateWorker :: "'d menv \<Rightarrow> nat \<Rightarrow> 'd manager \<Rightarrow> 'd manager option" where
  "CreateWorker e m_uiWorkerNum g = create_workers e 0 m_uiWorkerNum g"

definition count_restart :: "int \<Rightarrow> 'd manager \<Rightarrow> 'd manager" where
  "count_restart index g =
     g\<lparr>M_mapWorkerRestartNum := (case map_find index (M_mapWorkerRestartNum g) of
         None \<Rightarrow> map_put index 1 (M_mapWorkerRestartNum g)
       | Some n \<Rightarrow> map_put index (wrap32 (n + 1)) (M_mapWorkerRestartNum g))\<rparr>"

definition RestartWorker :: "'d menv \<Rightarrow> int \<Rightarrow> 'd manager \<Rightarrow> ('d manager \<times> bool) option" where
  "RestartWorker e iDeathPid g =
     (case map_find iDeathPid (M_mapWorker g) of None \<Rightarrow> Some (g, False)
      | Some a \<Rightarrow> do {
          let g = g\<lparr>M_mapWorkerFdPid := map_erase (iDataFd a) (map_erase (iControlFd a) (M_mapWorkerFdPid g))\<rparr>;
          (g, _) \<leftarrow> DestroyConnect_mgr (iControlFd a) g;
          (g, _) \<leftarrow> DestroyConnect_mgr (iDataFd a) g;
          let g = g\<lparr>M_mapWorker := map_erase iDeathPid (M_mapWorker g)\<rparr>;
          (g, ok) \<leftarrow> start_worker e (iWorkerIndex a) g;
          if ok then map_option (\<lambda>(g, _). (g, True)) (RegisterToCenter e (count_restart (iWorkerIndex a) g))
          else Some (g, False)
        })"

text \<open>\<open>ChildTerminated\<close> restarts every child that \<open>waitpid\<close> reports.\<close>

fun ChildTerminated :: "'d menv \<Rightarrow> int list \<Rightarrow> 'd manager \<Rightarrow> 'd manager option" where
  "ChildTerminated e [] g = Some g"
| "ChildTerminated e (pid # pids) g =
     (case RestartWorker e pid g of None \<Rightarrow> None | Some (g, _) \<Rightarrow> ChildTerminated e pids g)"

definition CheckWorker :: "'d menv \<Rightarrow> 'd manager \<Rightarrow> 'd manager \<times> bool" where
  "CheckWorker e g =
     (if M_iRefreshInterval g \<le> 0 then (g, True)
      else let now = g_now e (M_calls g); late = filter (\<lambda>(pid, a). g_late e now (dBeatTime a)) (M_mapWorker g)
           in (g\<lparr>M_calls := Suc (M_calls g), M_killed := M_killed g @ map (\<lambda>(pid, _). (pid, SIGINT)) late\<rparr>, True))"

definition RestartWorkers :: "'d manager \<Rightarrow> 'd manager \<times> bool" where
  "RestartWorkers g = (g\<lparr>M_killed := M_killed g @ map (\<lambda>(pid, _). (pid, SIGKILL)) (M_mapWorker g)\<rparr>, True)"

section \<open>Stop and restart of a node\<close>

text \<open>Half a second after the request, and then every second, the timer looks whether no worker has running steps.
  After six rounds it gives up. The result is whether the timer goes on.\<close>

definition idle :: "'d manager \<Rightarrow> bool" where
  "idle g \<longleftrightarrow> (\<forall>a \<in> snd ` set (M_mapWorker g). iLoad a = iConnect a)"

definition wait_answer :: "'d menv \<Rightarrow> msg_shell \<Rightarrow> u32 \<Rightarrow> u32 \<Rightarrow> int \<Rightarrow> string \<Rightarrow> 'd manager \<Rightarrow> 'd manager option" where
  "wait_answer e sh cw sq err msg g =
     (let (h, b) = ordinary e \<lparr>h_cmd = cw, h_msgbody_len = 0, h_seq = sq\<rparr> err msg
      in map_option fst (SendTo_mgr e sh h b (g\<lparr>M_iWaitToExitCounter := 0\<rparr>)))"

definition wait_again :: "'d menv \<Rightarrow> msg_shell \<Rightarrow> u32 \<Rightarrow> u32 \<Rightarrow> 'd manager \<Rightarrow> 'd manager option" where
  "wait_again e sh cw sq g =
     (if M_iWaitToExitCounter g < 6 then Some (g\<lparr>M_iWaitToExitCounter := M_iWaitToExitCounter g + 1\<rparr>)
      else map_option (\<lambda>g. g\<lparr>M_wait := None\<rparr>) (wait_answer e sh cw sq 1 ''FAILED'' g))"

definition CheckWorkerLoadNullExit :: "'d menv \<Rightarrow> msg_shell \<Rightarrow> u32 \<Rightarrow> u32 \<Rightarrow> 'd manager \<Rightarrow> 'd manager option" where
  "CheckWorkerLoadNullExit e sh cw sq g =
     (if idle g then map_option (\<lambda>g. g\<lparr>M_exited := True\<rparr>) (wait_answer e sh cw sq 0 ''OK'' g)
      else wait_again e sh cw sq g)"

definition CheckWorkerLoadNullRestartWorkers :: "'d menv \<Rightarrow> msg_shell \<Rightarrow> u32 \<Rightarrow> u32 \<Rightarrow> 'd manager \<Rightarrow> 'd manager option" where
  "CheckWorkerLoadNullRestartWorkers e sh cw sq g =
     (if idle g then map_option (\<lambda>g. g\<lparr>M_wait := None\<rparr>) (wait_answer e sh cw sq 0 ''OK'' (fst (RestartWorkers g)))
      else wait_again e sh cw sq g)"

definition WaitToExitTaskCallback :: "'d menv \<Rightarrow> 'd manager \<Rightarrow> 'd manager option" where
  "WaitToExitTaskCallback e g =
     (case M_wait g of None \<Rightarrow> Some g
      | Some (sh, cw, sq) \<Rightarrow>
          if cw = CMD_REQ_NODE_STOP then CheckWorkerLoadNullExit e sh cw sq g
          else if cw = CMD_REQ_NODE_RESTART_WORKERS then CheckWorkerLoadNullRestartWorkers e sh cw sq g
          else Some g)"

text \<open>The periodic task of a node that is not a center, without \<open>RefreshServer\<close>.\<close>

definition PeriodicTask :: "'d menv \<Rightarrow> 'd manager \<Rightarrow> 'd manager option" where
  "PeriodicTask e g = map_option (\<lambda>(g, _). fst (CheckWorker e g)) (ReportToCenter e g)"

end
