(* ===== verification/Manager_Laws.thy ===== *)
theory Manager_Laws
  imports Manager_Workers
begin

text \<open>
  The event loop of a manager: its callbacks as events, the runs they make, and the locale of what every run
  keeps. A property of the workers, of the waiting stop request, of the counts of the client addresses and of the
  passed descriptors has to be shown for the few operations that touch them; the rest follows here.
\<close>

section \<open>What sending and connections leave alone\<close>

definition mgr_core :: "'d manager \<Rightarrow> _" where
  "mgr_core g = (M_mapWorker g, M_iWaitToExitCounter g, M_wait g, M_mapClientConnFrequency g, M_iAddrPermitNum g, M_passed g, M_exited g)"

lemma mgr_coreD:
  assumes "mgr_core g' = mgr_core g"
  shows "M_mapWorker g' = M_mapWorker g" "M_iWaitToExitCounter g' = M_iWaitToExitCounter g" "M_wait g' = M_wait g"
    "M_mapClientConnFrequency g' = M_mapClientConnFrequency g" "M_iAddrPermitNum g' = M_iAddrPermitNum g"
    "M_passed g' = M_passed g" "M_exited g' = M_exited g"
  using assms by (simp_all add: mgr_core_def)

lemma core_updates [simp]:
  "mgr_core (g\<lparr>M_ulSequence := a\<rparr>) = mgr_core g" "mgr_core (g\<lparr>M_uiNodeId := b\<rparr>) = mgr_core g"
  "mgr_core (g\<lparr>M_iLastRefreshCalc := c\<rparr>) = mgr_core g" "mgr_core (g\<lparr>M_mapWorkerRestartNum := d\<rparr>) = mgr_core g"
  "mgr_core (g\<lparr>M_mapWorkerFdPid := f\<rparr>) = mgr_core g" "mgr_core (g\<lparr>M_mapCenterMsgShell := h\<rparr>) = mgr_core g"
  "mgr_core (g\<lparr>M_mapFdAttr := i\<rparr>) = mgr_core g" "mgr_core (g\<lparr>M_mapSeq2WorkerIndex := j\<rparr>) = mgr_core g"
  "mgr_core (g\<lparr>M_calls := k\<rparr>) = mgr_core g" "mgr_core (g\<lparr>M_wire := l\<rparr>) = mgr_core g" "mgr_core (g\<lparr>M_connects := m\<rparr>) = mgr_core g"
  "mgr_core (g\<lparr>M_closed := n\<rparr>) = mgr_core g" "mgr_core (g\<lparr>M_killed := q\<rparr>) = mgr_core g"
  by (simp_all add: mgr_core_def)

lemma core_steps [simp]:
  "mgr_core (upd_mgr fd f g) = mgr_core g" "mgr_core (next_call g) = mgr_core g" "mgr_core (fst (GetSequence_mgr g)) = mgr_core g"
  "mgr_core (fst (CreateFdAttr_mgr fd sq g)) = mgr_core g" "mgr_core (fst (AddIoReadEvent_mgr fd g)) = mgr_core g"
  "mgr_core (fst (AddIoWriteEvent_mgr fd g)) = mgr_core g" "mgr_core (fst (AddIoTimeout_mgr fd g)) = mgr_core g"
  "mgr_core (RemoveIoWriteEvent_mgr fd g) = mgr_core g" "mgr_core (rewatch fd b g) = mgr_core g"
  by (simp_all add: upd_mgr_def next_call_def GetSequence_mgr_def CreateFdAttr_mgr_def AddIoReadEvent_mgr_def AddIoWriteEvent_mgr_def
      AddIoTimeout_mgr_def RemoveIoWriteEvent_mgr_def rewatch_def split: option.split)

lemma core_pairs:
  "GetSequence_mgr g = (g', x) \<Longrightarrow> mgr_core g' = mgr_core g" "CreateFdAttr_mgr fd sq g = (g', b) \<Longrightarrow> mgr_core g' = mgr_core g"
  "AddIoReadEvent_mgr fd g = (g', b) \<Longrightarrow> mgr_core g' = mgr_core g" "AddIoWriteEvent_mgr fd g = (g', b) \<Longrightarrow> mgr_core g' = mgr_core g"
  "AddIoTimeout_mgr fd g = (g', b) \<Longrightarrow> mgr_core g' = mgr_core g"
  using core_steps(3) [of g] core_steps(4) [of fd sq g] core_steps(5,6,7) [of fd g] by simp_all

lemma core_Destroy: "DestroyConnect_mgr fd g = Some (g', b) \<Longrightarrow> mgr_core g' = mgr_core g"
  by (auto simp: DestroyConnect_mgr_def Let_def split: option.splits if_splits)

lemma core_flush_fd:
  assumes "flush_fd e fd g = Some (g', x)"
  shows "mgr_core g' = mgr_core g"
proof -
  have "post (\<lambda>x. mgr_core (fst x) = mgr_core g) (flush_fd e fd g)"
    unfolding flush_fd_def Let_def by (intro branches) auto
  then show ?thesis using assms by (auto dest: postD)
qed

lemmas quiet = core_pairs core_Destroy core_flush_fd

lemma core_flush_out: "flush_out e fd g = Some (g', b) \<Longrightarrow> mgr_core g' = mgr_core g"
  by (auto simp: flush_out_def Let_def bind_eq_Some_conv split: if_splits dest!: quiet)

lemma core_SendTo_shell: "SendTo_shell_mgr e sh g = Some (g', b) \<Longrightarrow> mgr_core g' = mgr_core g"
  by (auto simp: SendTo_shell_mgr_def Let_def split: option.splits if_splits prod.splits dest!: core_flush_out)

lemma core_SendTo: "SendTo_mgr e sh head body g = Some (g', b) \<Longrightarrow> mgr_core g' = mgr_core g"
  by (auto simp: SendTo_mgr_def Let_def bind_eq_Some_conv split: option.splits if_splits dest!: core_flush_out)

lemma core_AutoSend:
  assumes "AutoSend_mgr e ident head body g = Some (g', b)"
  shows "mgr_core g' = mgr_core g"
proof -
  have "post (\<lambda>x. mgr_core (fst x) = mgr_core g) (AutoSend_mgr e ident head body g)"
    unfolding AutoSend_mgr_def Let_def
    by (intro branches) (auto dest!: quiet)
  then show ?thesis using assms by (auto dest: postD)
qed

lemma core_send_worker:
  assumes "send_worker e head body a g = Some g'"
  shows "mgr_core g' = mgr_core g"
proof -
  have "post (\<lambda>g'. mgr_core g' = mgr_core g) (send_worker e head body a g)"
    unfolding send_worker_def Let_def by (intro branches) (auto dest!: quiet)
  then show ?thesis using assms by (auto dest: postD)
qed

lemma core_send_workers: "send_workers e head body ws g = Some g' \<Longrightarrow> mgr_core g' = mgr_core g"
  by (induction e head body ws g rule: send_workers.induct) (auto split: option.splits dest: core_send_worker)

lemma core_to_workers:
  "SendToWorker e head body g = Some (g', b) \<Longrightarrow> mgr_core g' = mgr_core g"
  "SendToWorkerWithMod e k head body g = Some (g', b) \<Longrightarrow> mgr_core g' = mgr_core g"
  by (auto simp: SendToWorker_def SendToWorkerWithMod_def dest: core_send_workers core_send_worker split: list.splits if_splits)

lemma core_respond: "respond e sh head g = Some g' \<Longrightarrow> mgr_core g' = mgr_core g"
  by (auto simp: respond_def ordinary_def Let_def dest: core_SendTo)

lemma core_write_back: "write_back e fd m g = Some g' \<Longrightarrow> mgr_core g' = mgr_core g"
  by (auto simp: write_back_def bind_eq_Some_conv dest!: quiet)

lemma core_tell_center:
  assumes "tell_center e sh g = Some (g', b)"
  shows "mgr_core g' = mgr_core g"
proof -
  have "post (\<lambda>x. mgr_core (fst x) = mgr_core g) (tell_center e sh g)"
    unfolding tell_center_def Let_def
    by (intro branches) (auto dest!: quiet)
  then show ?thesis using assms by (auto dest: postD)
qed

lemma core_after_dispose: "after_dispose e sh n g = Some g' \<Longrightarrow> mgr_core g' = mgr_core g"
  by (auto simp: after_dispose_def bind_eq_Some_conv)

lemma core_registered: "node_registered e sh head body g = Some (g', b) \<Longrightarrow> mgr_core g' = mgr_core g"
  by (auto simp: node_registered_def Let_def bind_eq_Some_conv split: presult.splits prod.splits if_splits dest!: core_to_workers)

lemma core_to_centers: "to_centers e head body ids g = Some g' \<Longrightarrow> mgr_core g' = mgr_core g"
proof (induction ids arbitrary: head g)
  case (Cons ident ids)
  from Cons.prems show ?case
    by (auto simp: Let_def bind_eq_Some_conv split: option.splits if_splits dest!: Cons.IH dest: core_AutoSend core_SendTo)
qed simp

lemma core_reports:
  "ReportToCenter e g = Some (g', b) \<Longrightarrow> mgr_core g' = mgr_core g"
  "RegisterToCenter e g = Some (g', b) \<Longrightarrow> mgr_core g' = mgr_core g"
  by (auto simp: ReportToCenter_def RegisterToCenter_def report_to_def Let_def split: prod.splits if_splits dest!: core_to_centers core_pairs)

lemma core_connect_center: "connect_center e sh c g = Some g' \<Longrightarrow> mgr_core g' = mgr_core g"
  by (auto simp: connect_center_def Let_def split: option.splits prod.splits dest!: core_SendTo core_pairs)

lemmas quiet_calls = quiet core_SendTo_shell core_SendTo core_AutoSend core_to_workers core_respond core_write_back core_tell_center
  core_after_dispose core_registered core_reports core_connect_center

lemma core_IoWrite:
  assumes "IoWrite_mgr e sh g = Some (g', b)"
  shows "mgr_core g' = mgr_core g"
proof -
  have "post (\<lambda>x. mgr_core (fst x) = mgr_core g) (IoWrite_mgr e sh g)"
    unfolding IoWrite_mgr_def Let_def
    by (intro branches) (auto split: if_splits dest!: quiet core_connect_center)
  then show ?thesis using assms by (auto dest: postD)
qed

lemma core_IoError: "IoError_mgr sh g = Some (g', b) \<Longrightarrow> mgr_core g' = mgr_core g"
  by (auto simp: IoError_mgr_def bind_eq_Some_conv split: option.splits if_splits dest!: quiet_calls)

lemma core_IoTimeout: "IoTimeout_mgr e sh g = Some (g', b) \<Longrightarrow> mgr_core g' = mgr_core g"
  by (auto simp: IoTimeout_mgr_def split: option.splits if_splits dest!: quiet_calls)

lemma core_Accept:
  assumes "AcceptServerConn fd g = Some (g', b)"
  shows "mgr_core g' = mgr_core g"
proof -
  have "post (\<lambda>x. mgr_core (fst x) = mgr_core g) (AcceptServerConn fd g)"
    unfolding AcceptServerConn_def Let_def by (intro branches) (auto dest!: quiet)
  then show ?thesis using assms by (auto dest: postD)
qed

lemma core_CheckWorker [simp]: "mgr_core (fst (CheckWorker e g)) = mgr_core g"
  by (simp add: CheckWorker_def Let_def)

lemma core_Periodic: "PeriodicTask e g = Some g' \<Longrightarrow> mgr_core g' = mgr_core g"
  by (auto simp: PeriodicTask_def dest: core_reports)

text \<open>A client is counted, and then passed or not.\<close>

lemma core_upd_worker: "mgr_core g' = mgr_core g \<Longrightarrow> mgr_core (upd_worker pid f g') = mgr_core (upd_worker pid f g)"
  by (simp add: mgr_core_def upd_worker_def split: option.split)

lemma pass_client_core:
  "mgr_core (fst (pass_client e fd ip g)) = mgr_core g \<or>
   (\<exists>pid data. mgr_core (fst (pass_client e fd ip g)) =
     mgr_core (AddWorkerLoad pid 1 (g\<lparr>M_passed := M_passed g @ [(data, fd, ip, M_eCodec g)]\<rparr>)))"
proof -
  obtain pid data where m: "GetMinLoadWorkerDataFd g = (pid, data)" by fastforce
  let ?g = "(next_call g)\<lparr>M_passed := M_passed (next_call g) @ [(data, fd, ip, M_eCodec (next_call g))]\<rparr>"
  have "mgr_core ?g = mgr_core (g\<lparr>M_passed := M_passed g @ [(data, fd, ip, M_eCodec g)]\<rparr>)" by (simp add: mgr_core_def next_call_def)
  then have "mgr_core (AddWorkerLoad pid 1 ?g) = mgr_core (AddWorkerLoad pid 1 (g\<lparr>M_passed := M_passed g @ [(data, fd, ip, M_eCodec g)]\<rparr>))"
    unfolding AddWorkerLoad_def by (rule core_upd_worker)
  then show ?thesis by (auto simp: pass_client_def m Let_def)
qed

definition count_client :: "u32 \<Rightarrow> 'd manager \<Rightarrow> u32" where
  "count_client addr g = (case map_find addr (M_mapClientConnFrequency g) of None \<Rightarrow> 0 | Some n \<Rightarrow> n)"

lemma FdTransfer_mgr_cases:
  "FdTransfer_mgr e fd addr ip g =
     (let h = g\<lparr>M_mapClientConnFrequency := map_put addr (count_client addr g + 1) (M_mapClientConnFrequency g)\<rparr> in
      if g_access e \<and> map_find addr (M_mapClientConnFrequency g) \<noteq> None \<and> count_client addr g + 1 > of_int (M_iAddrPermitNum g)
      then (h\<lparr>M_closed := M_closed h @ [fd]\<rparr>, False) else pass_client e fd ip h)"
  by (auto simp: FdTransfer_mgr_def count_client_def Let_def split: option.split)

section \<open>Events\<close>

text \<open>What \<open>libev\<close> calls: \<open>ClientEvent\<close> is a client that was accepted, \<open>ExpireEvent\<close> the end of the time window of an
  address, \<open>ServerEvent\<close> another node that was accepted, \<open>WaitEvent\<close> the timer of a stop request, and \<open>ChildEvent\<close> the
  processes that \<open>waitpid\<close> reports.\<close>

datatype mgr_event =
  ClientEvent int u32 string | ExpireEvent u32 | ServerEvent int | MgrRead msg_shell | MgrWrite msg_shell
| MgrError msg_shell | MgrTimeout msg_shell | WaitEvent | MgrPeriodic | ChildEvent "int list"

fun handle_mgr :: "'d menv \<Rightarrow> mgr_event \<Rightarrow> 'd manager \<Rightarrow> 'd manager option" where
  "handle_mgr e (ClientEvent fd addr ip) g = Some (fst (FdTransfer_mgr e fd addr ip g))"
| "handle_mgr e (ExpireEvent addr) g = Some (fst (ClientConnFrequencyTimeout addr g))"
| "handle_mgr e (ServerEvent fd) g = map_option fst (AcceptServerConn fd g)"
| "handle_mgr e (MgrRead sh) g = map_option fst (RecvDataAndDispose_mgr e sh g)"
| "handle_mgr e (MgrWrite sh) g = map_option fst (IoWrite_mgr e sh g)"
| "handle_mgr e (MgrError sh) g = map_option fst (IoError_mgr sh g)"
| "handle_mgr e (MgrTimeout sh) g = map_option fst (IoTimeout_mgr e sh g)"
| "handle_mgr e WaitEvent g = WaitToExitTaskCallback e g"
| "handle_mgr e MgrPeriodic g = PeriodicTask e g"
| "handle_mgr e (ChildEvent pids) g = ChildTerminated e pids g"

fun run_mgr :: "'d menv \<Rightarrow> mgr_event list \<Rightarrow> 'd manager \<Rightarrow> 'd manager option" where
  "run_mgr e [] g = Some g"
| "run_mgr e (ev # evs) g = (case handle_mgr e ev g of None \<Rightarrow> None | Some g \<Rightarrow> run_mgr e evs g)"

text \<open>The events whose whole effect is on one of these parts of the state.\<close>

fun counted :: "mgr_event \<Rightarrow> bool" where
  "counted (ClientEvent _ _ _) = True"
| "counted (ExpireEvent _) = True"
| "counted WaitEvent = True"
| "counted _ = False"

section \<open>Invariants\<close>

text \<open>The operations that touch the core of a manager are asked to keep \<open>I\<close>; then every callback does but those
  about the addresses of clients and the waiting request.\<close>

locale manager_invariant =
  fixes I :: "'d manager \<Rightarrow> bool" and e :: "'d menv"
  assumes core: "mgr_core g' = mgr_core g \<Longrightarrow> I g \<Longrightarrow> I g'"
    and load: "I g \<Longrightarrow> I (SetWorkerLoad e pid ob g)"
    and pass: "I g \<Longrightarrow> I (g\<lparr>M_passed := M_passed g @ [(data, fd, ''0.0.0.0'', CODEC_PROTOBUF)]\<rparr>)"
    and stop: "I g \<Longrightarrow> I (fst (AddWaitToExitTaskEvent sh cw sq g))"
    and child: "I g \<Longrightarrow> RestartWorker e p g = Some (g', b) \<Longrightarrow> I g'"
begin

lemmas via_core = quiet_calls [THEN core]

lemma from_worker: "DisposeDataFromWorker e sh head body g = Some (g', b) \<Longrightarrow> I g \<Longrightarrow> I g'"
  by (auto simp: DisposeDataFromWorker_def intro: load split: if_splits option.splits presult.splits)

lemma transfer:
  assumes "I g"
  shows "post (\<lambda>x. I (fst x)) (DisposeDataAndTransferFd e sh head body g)"
  unfolding DisposeDataAndTransferFd_def Let_def
proof (intro branches)
  fix index a g1
  assume "write_back e (fst sh) (ordinary e head 0 ''OK'') g = Some g1"
  then have "I (next_call g1)" using assms by (intro core [of "next_call g1" g]) (simp_all add: core_write_back)
  then show "I (fst (if g_pass e (M_calls g1) = 0
      then (next_call g1)\<lparr>M_passed := M_passed (next_call g1) @ [(iDataFd a, fst sh, ''0.0.0.0'', CODEC_PROTOBUF)]\<rparr>
      else next_call g1, False))"
    by (simp add: pass)
qed (use assms in \<open>auto dest: via_core\<close>)

lemma from_center:
  assumes "I g"
  shows "post (\<lambda>x. I (fst x)) (DisposeDataFromCenter e sh head body g)"
proof -
  have same: "mgr_core g1 = mgr_core g \<Longrightarrow> I g1" for g1 using assms core by blast
  show ?thesis
    unfolding DisposeDataFromCenter_def Let_def
    by (intro branches) (use assms stop in \<open>auto intro!: same branches dest!: quiet_calls simp: post_def\<close>)
qed

lemma dispose: "Dispose_mgr e sh c head body g = Some (g', b) \<Longrightarrow> I g \<Longrightarrow> I g'"
  by (auto simp: Dispose_mgr_def split: if_splits dest: from_worker transfer [THEN postD, rotated] from_center [THEN postD, rotated])

lemma messages:
  assumes "message_loop e sh b g = Some y" "I g"
  shows "I (fst y)"
proof -
  have "ev = e \<longrightarrow> I g \<longrightarrow> I (fst y)" if "message_loop ev sh b g = Some y" for ev
  proof (rule message_loop.raw_induct [where P = "\<lambda>ev sh b g y. ev = e \<longrightarrow> I g \<longrightarrow> I (fst y)", OF _ that], goal_cases)
    case (1 rec ev sh b g y)
    from 1(2) show ?case
      by (cases y) (auto simp: Let_def bind_eq_Some_conv split: option.splits if_splits dest!: 1(1) elim!: dispose via_core;
        erule notE, auto elim!: dispose via_core)
  qed
  then show ?thesis using assms by simp
qed

lemma reading:
  assumes "I g"
  shows "post (\<lambda>x. I (fst x)) (RecvDataAndDispose_mgr e sh g)"
proof -
  have "I (upd_mgr (fst sh) f (next_call g))" for f by (rule core [OF _ assms]) simp
  then show ?thesis
    unfolding RecvDataAndDispose_mgr_def Let_def
    by (intro branches) (use assms in \<open>auto intro!: branches simp: post_def dest: messages via_core\<close>)
qed

lemma children: "ChildTerminated e pids g = Some g' \<Longrightarrow> I g \<Longrightarrow> I g'"
  by (induction pids arbitrary: g) (auto split: option.splits intro: child)

lemma event:
  assumes "handle_mgr e ev g = Some g'" "\<not> counted ev" "I g"
  shows "I g'"
  using assms
  by (cases ev) (auto dest: children reading [THEN postD, rotated] core_IoWrite [THEN core] core_IoError [THEN core]
      core_IoTimeout [THEN core] core_Accept [THEN core] core_Periodic [THEN core])

lemma run:
  assumes "\<And>ev g g'. counted ev \<Longrightarrow> I g \<Longrightarrow> handle_mgr e ev g = Some g' \<Longrightarrow> I g'"
  shows "run_mgr e evs g = Some g' \<Longrightarrow> I g \<Longrightarrow> I g'"
proof (induction evs arbitrary: g)
  case (Cons ev evs)
  then show ?case using assms event by (cases "counted ev") (fastforce split: option.splits)+
qed simp

end

end
