(* ===== verification/Manager_Props.thy ===== *)
theory Manager_Props
  imports Manager_Laws Worker_Example
begin

text \<open>
  What every run of a manager keeps: the indices of its workers, the number of connections it lets an address
  make, and that a request to stop is answered.
\<close>

section \<open>The indices of the workers\<close>

abbreviation indices :: "'d manager \<Rightarrow> int list" where
  "indices g \<equiv> map (iWorkerIndex \<circ> snd) (M_mapWorker g)"

definition indices_ok :: "nat \<Rightarrow> 'd manager \<Rightarrow> bool" where
  "indices_ok n g \<longleftrightarrow> map_ok (M_mapWorker g) \<and> distinct (indices g) \<and> set (indices g) \<subseteq> {0 ..< int n}"

lemma map_put_new:
  "map_find k m = None \<Longrightarrow> \<exists>xs ys. m = xs @ ys \<and> map_put k v m = xs @ (k, v) # ys"
proof (induction m)
  case (Cons x m)
  obtain k' v' where x: "x = (k', v')" by (cases x)
  show ?case
  proof (cases "k < k'")
    case True
    then show ?thesis by (intro exI [of _ "[]"] exI [of _ "x # m"]) (simp add: x)
  next
    case False
    moreover obtain xs ys where "m = xs @ ys" "map_put k v m = xs @ (k, v) # ys" using Cons x by (auto split: if_splits)
    ultimately show ?thesis using Cons.prems x by (intro exI [of _ "x # xs"] exI [of _ ys]) (auto split: if_splits)
  qed
qed simp

lemma map_put_old:
  "map_find k m = Some v \<Longrightarrow> map_ok m \<Longrightarrow> \<exists>xs ys. m = xs @ (k, v) # ys \<and> map_put k v' m = xs @ (k, v') # ys"
proof (induction m)
  case (Cons x m)
  obtain k1 v1 where x: "x = (k1, v1)" by (cases x)
  show ?case
  proof (cases "k = k1")
    case True
    then show ?thesis using Cons.prems x by (intro exI [of _ "[]"] exI [of _ m]) simp
  next
    case False
    then have k: "map_find k m = Some v" "map_ok m" using Cons.prems x by (auto simp: map_ok_def)
    have "k \<in> fst ` set m" using k map_find_entries [OF map_ok_distinct [OF k(2)], of k v] by force
    then have "\<not> k < k1" using Cons.prems(2) x by (auto simp: map_ok_def)
    moreover obtain xs ys where "m = xs @ (k, v) # ys" "map_put k v' m = xs @ (k, v') # ys" using Cons.IH k by blast
    ultimately show ?thesis using x False by (intro exI [of _ "x # xs"] exI [of _ ys]) simp
  qed
qed simp

lemma indices_put:
  assumes "indices_ok n g" "map_find pid (M_mapWorker g) = None" "iWorkerIndex a \<notin> set (indices g)" "0 \<le> iWorkerIndex a" "iWorkerIndex a < int n"
  shows "indices_ok n (g\<lparr>M_mapWorker := map_put pid a (M_mapWorker g)\<rparr>)"
proof -
  obtain xs ys where "M_mapWorker g = xs @ ys" "map_put pid a (M_mapWorker g) = xs @ (pid, a) # ys"
    using map_put_new [OF assms(2)] by blast
  then show ?thesis using assms(1,3-5) map_put_ok [of "M_mapWorker g" pid a] by (auto simp: indices_ok_def)
qed

lemma indices_update:
  assumes "map_find pid (M_mapWorker g) = Some a" "map_ok (M_mapWorker g)" "iWorkerIndex b = iWorkerIndex a"
  shows "map (iWorkerIndex \<circ> snd) (map_put pid b (M_mapWorker g)) = indices g"
  using map_put_old [OF assms(1,2), of b] assms(3) by auto

lemma indices_load:
  assumes "indices_ok n g" "\<And>a. iWorkerIndex (f a) = iWorkerIndex a"
  shows "indices_ok n (upd_worker pid f g)"
proof (cases "map_find pid (M_mapWorker g)")
  case (Some a)
  have "map_ok (M_mapWorker (upd_worker pid f g))" "indices (upd_worker pid f g) = indices g"
    using assms indices_update [OF Some _ assms(2)] map_put_ok [of "M_mapWorker g" pid "f a"]
    by (simp_all add: indices_ok_def upd_worker_def Some)
  then show ?thesis using assms(1) unfolding indices_ok_def by simp
qed (use assms in \<open>simp add: upd_worker_def\<close>)

lemma indices_core: "mgr_core g' = mgr_core g \<Longrightarrow> indices_ok n g \<Longrightarrow> indices_ok n g'"
  by (drule mgr_coreD(1)) (simp add: indices_ok_def)

lemma start_worker_core:
  assumes "start_worker e index g = Some (g', b)"
  shows "(\<not> b \<and> mgr_core g' = mgr_core g) \<or>
    (b \<and> (\<exists>pid a. g_fork e (Suc (Suc (M_calls g))) = Some pid \<and> iWorkerIndex a = index \<and>
      mgr_core g' = mgr_core (g\<lparr>M_mapWorker := map_insert pid a (M_mapWorker g)\<rparr>)))"
proof (cases "g_fork e (Suc (Suc (M_calls g)))")
  case None
  then show ?thesis using assms by (simp add: start_worker_def Let_def next_call_def) (auto simp: mgr_core_def)
next
  case (Some pid)
  obtain control data where fds: "g_pair e (M_calls g) = Some control" "g_pair e (Suc (M_calls g)) = Some data"
    using assms Some by (auto simp: start_worker_def Let_def next_call_def split: option.splits)
  define a where "a = new_worker index control data (g_now e (Suc (Suc (Suc (M_calls g)))))"
  have "b \<and> mgr_core g' = mgr_core (g\<lparr>M_mapWorker := map_insert pid a (M_mapWorker g)\<rparr>)"
    using assms Some fds
    by (simp add: start_worker_def Let_def next_call_def a_def split: prod.splits)
      (auto dest!: core_pairs, simp add: mgr_core_def)
  moreover have "iWorkerIndex a = index" by (simp add: a_def new_worker_def)
  ultimately show ?thesis using Some by blast
qed

lemma indices_start:
  assumes "start_worker e index g = Some (g', b)" "indices_ok n g" "index \<notin> set (indices g)" "0 \<le> index" "index < int n"
  shows "indices_ok n g' \<and> set (indices g') \<subseteq> insert index (set (indices g))"
proof -
  from start_worker_core [OF assms(1)] consider "mgr_core g' = mgr_core g"
    | pid a where "iWorkerIndex a = index" "mgr_core g' = mgr_core (g\<lparr>M_mapWorker := map_insert pid a (M_mapWorker g)\<rparr>)" by blast
  then show ?thesis
  proof cases
    case 1
    then show ?thesis using assms(2) indices_core mgr_coreD(1) by (metis subset_insertI)
  next
    case (2 pid a)
    let ?g = "g\<lparr>M_mapWorker := map_insert pid a (M_mapWorker g)\<rparr>"
    have "indices_ok n ?g \<and> set (indices ?g) \<subseteq> insert index (set (indices g))"
    proof (cases "map_find pid (M_mapWorker g)")
      case None
      with indices_put [OF assms(2) None, of a] map_put_new [OF None, of a] assms(3-5) 2(1)
      show ?thesis by (auto simp: map_insert_def)
    next
      case (Some x)
      then show ?thesis using assms(2) by (auto simp: map_insert_def)
    qed
    then show ?thesis using indices_core [OF 2(2)] mgr_coreD(1) [OF 2(2)] by auto
  qed
qed

lemma indices_create:
  "create_workers e i k g = Some g' \<Longrightarrow> indices_ok n g \<Longrightarrow> set (indices g) \<subseteq> {0 ..< int i} \<Longrightarrow> i + k \<le> n \<Longrightarrow> indices_ok n g'"
proof (induction k arbitrary: i g)
  case (Suc k)
  obtain g1 b where g1: "start_worker e (int i) g = Some (g1, b)" "create_workers e (Suc i) k g1 = Some g'"
    using Suc.prems(1) by (auto split: option.splits)
  have "int i \<notin> set (indices g)" using Suc.prems(3) by auto
  then have "indices_ok n g1 \<and> set (indices g1) \<subseteq> insert (int i) (set (indices g))"
    by (rule indices_start [OF g1(1) Suc.prems(2)]) (use Suc.prems(4) in simp_all)
  then show ?case using Suc.IH [OF g1(2)] Suc.prems(3,4) by fastforce
qed simp

lemma RestartWorker_parts:
  assumes "RestartWorker e pid g = Some (g', b)"
  shows "g' = g \<or> (\<exists>a g1 g2 ok. map_find pid (M_mapWorker g) = Some a \<and>
    mgr_core g1 = mgr_core (g\<lparr>M_mapWorker := map_erase pid (M_mapWorker g)\<rparr>) \<and>
    start_worker e (iWorkerIndex a) g1 = Some (g2, ok) \<and> mgr_core g' = mgr_core g2)"
proof (cases "map_find pid (M_mapWorker g)")
  case (Some a)
  let ?g = "g\<lparr>M_mapWorkerFdPid := map_erase (iDataFd a) (map_erase (iControlFd a) (M_mapWorkerFdPid g))\<rparr>"
  obtain g1 b1 g2 b2 g3 ok where g: "DestroyConnect_mgr (iControlFd a) ?g = Some (g1, b1)" "DestroyConnect_mgr (iDataFd a) g1 = Some (g2, b2)"
      "start_worker e (iWorkerIndex a) (g2\<lparr>M_mapWorker := map_erase pid (M_mapWorker g2)\<rparr>) = Some (g3, ok)"
      "(if ok then map_option (\<lambda>(g, _). (g, True)) (RegisterToCenter e (count_restart (iWorkerIndex a) g3)) else Some (g3, False)) = Some (g', b)"
    using assms Some by (auto simp: RestartWorker_def Let_def bind_eq_Some_conv)
  have "mgr_core g' = mgr_core g3"
    using g(4) by (auto split: if_splits simp: count_restart_def dest!: core_reports)
  moreover have "mgr_core g2 = mgr_core g" using g(1,2) by (auto dest!: core_Destroy)
  then have "mgr_core (g2\<lparr>M_mapWorker := map_erase pid (M_mapWorker g2)\<rparr>) = mgr_core (g\<lparr>M_mapWorker := map_erase pid (M_mapWorker g)\<rparr>)"
    by (simp add: mgr_core_def)
  ultimately show ?thesis using Some g(3) by blast
qed (use assms in \<open>simp add: RestartWorker_def\<close>)

lemma indices_erase:
  assumes "indices_ok n g" "map_find pid (M_mapWorker g) = Some a" "mgr_core g1 = mgr_core (g\<lparr>M_mapWorker := map_erase pid (M_mapWorker g)\<rparr>)"
  shows "indices_ok n g1 \<and> iWorkerIndex a \<notin> set (indices g1) \<and> 0 \<le> iWorkerIndex a \<and> iWorkerIndex a < int n"
proof -
  have ok: "map_ok (M_mapWorker g)" "distinct (indices g)" "set (indices g) \<subseteq> {0 ..< int n}" using assms(1) by (simp_all only: indices_ok_def)
  obtain xs ys where xs: "M_mapWorker g = xs @ (pid, a) # ys" using map_put_old [OF assms(2) ok(1), of a] by blast
  have "pid \<notin> fst ` set (xs @ ys)" using map_ok_distinct [OF ok(1)] xs by auto
  then have "filter (\<lambda>e. fst e \<noteq> pid) xs = xs" "filter (\<lambda>e. fst e \<noteq> pid) ys = ys" by (auto simp: filter_id_conv)
  then have e: "map_erase pid (M_mapWorker g) = xs @ ys" unfolding xs map_erase_def by simp
  have w: "M_mapWorker g1 = xs @ ys" using mgr_coreD(1) [OF assms(3)] e by simp
  have "map_ok (xs @ ys)" using map_erase_ok [OF ok(1), of pid] e by simp
  then show ?thesis using ok(2,3) w xs by (auto simp: indices_ok_def)
qed

lemma indices_restart:
  assumes "indices_ok n g" "RestartWorker e pid g = Some (g', b)"
  shows "indices_ok n g'"
  using RestartWorker_parts [OF assms(2)]
proof (elim disjE exE conjE)
  fix a g1 g2 ok
  assume r: "map_find pid (M_mapWorker g) = Some a"
    "mgr_core g1 = mgr_core (g\<lparr>M_mapWorker := map_erase pid (M_mapWorker g)\<rparr>)"
    "start_worker e (iWorkerIndex a) g1 = Some (g2, ok)" "mgr_core g' = mgr_core g2"
  have "indices_ok n g2" using indices_start [OF r(3)] indices_erase [OF assms(1) r(1,2)] by blast
  then show ?thesis by (rule indices_core [OF r(4)])
qed (use assms(1) in simp)

lemma indices_keep: "indices_ok n g \<Longrightarrow> M_mapWorker g' = M_mapWorker g \<Longrightarrow> indices_ok n g'"
  by (simp add: indices_ok_def)

interpretation worker_indices: manager_invariant "indices_ok n" e for n e
proof
  show "indices_ok n g \<Longrightarrow> indices_ok n (SetWorkerLoad e pid ob g)" for n e pid ob and g :: "'a manager"
    unfolding SetWorkerLoad_def by (rule indices_load) (auto intro: indices_core [OF core_steps(2)])
  show "indices_ok n g \<Longrightarrow> indices_ok n (fst (AddWaitToExitTaskEvent sh cw sq g))" for n sh cw sq and g :: "'a manager"
    by (erule indices_keep) (simp add: AddWaitToExitTaskEvent_def)
  show "indices_ok n g \<Longrightarrow> indices_ok n (g\<lparr>M_passed := M_passed g @ [(data, fd, ''0.0.0.0'', CODEC_PROTOBUF)]\<rparr>)"
    for n data fd and g :: "'a manager"
    by (erule indices_keep) simp
qed (rule indices_core indices_restart; assumption)+

lemma wait_answer_parts: "wait_answer e sh cw sq err msg g = Some g' \<Longrightarrow> mgr_core g' = mgr_core (g\<lparr>M_iWaitToExitCounter := 0\<rparr>)"
  by (auto simp: wait_answer_def ordinary_def Let_def dest: core_SendTo)

lemma WaitToExit_workers:
  assumes "WaitToExitTaskCallback e g = Some g'"
  shows "M_mapWorker g' = M_mapWorker g"
proof -
  have "post (\<lambda>g'. M_mapWorker g' = M_mapWorker g) (WaitToExitTaskCallback e g)"
    unfolding WaitToExitTaskCallback_def CheckWorkerLoadNullExit_def CheckWorkerLoadNullRestartWorkers_def wait_again_def RestartWorkers_def
    by (intro branches) (auto dest!: wait_answer_parts [THEN mgr_coreD(1)])
  then show ?thesis using assms by (auto dest: postD)
qed

lemma indices_counted:
  assumes "counted ev" "indices_ok n g" "handle_mgr e ev g = Some g'"
  shows "indices_ok n g'"
proof (cases ev)
  case (ClientEvent fd addr ip)
  let ?h = "g\<lparr>M_mapClientConnFrequency := map_put addr (count_client addr g + 1) (M_mapClientConnFrequency g)\<rparr>"
  have h: "indices_ok n ?h" by (rule indices_keep [OF assms(2)]) simp
  have "indices_ok n (AddWorkerLoad pid 1 (?h\<lparr>M_passed := p\<rparr>))" for pid p
    unfolding AddWorkerLoad_def by (rule indices_load [OF indices_keep [OF h]]) simp_all
  then have "indices_ok n (fst (pass_client e fd ip ?h))"
    using pass_client_core [of e fd ip ?h] h indices_core by blast
  then show ?thesis
    using assms(3) ClientEvent indices_keep [OF h] by (auto simp: FdTransfer_mgr_cases Let_def split: if_splits)
next
  case (ExpireEvent addr)
  then show ?thesis using assms(3)
    by (intro indices_keep [OF assms(2)]) (auto simp: ClientConnFrequencyTimeout_def)
next
  case WaitEvent
  then show ?thesis using assms(3) by (intro indices_keep [OF assms(2)]) (simp add: WaitToExit_workers)
qed (use assms(1) in simp_all)

text \<open>C5: The workers of a node have different indices, all below their configured number, from their creation
  on and whatever happens: messages, connections, timeouts, and workers that die and are started again in any
  order.\<close>

theorem worker_indices_distinct:
  assumes "CreateWorker e n g0 = Some g1" "M_mapWorker g0 = []" "run_mgr e evs g1 = Some g"
  shows "distinct (map (iWorkerIndex \<circ> snd) (M_mapWorker g)) \<and> set (map (iWorkerIndex \<circ> snd) (M_mapWorker g)) \<subseteq> {0 ..< int n}"
proof -
  have "indices_ok n g0" using assms(2) by (simp add: indices_ok_def map_ok_def)
  then have "indices_ok n g1"
    using indices_create [where i = 0 and k = n and n = n and g = g0 and g' = g1 and e = e] assms(1,2) by (simp add: CreateWorker_def)
  then have "indices_ok n g" by (rule worker_indices.run [OF _ assms(3), rotated]) (rule indices_counted)
  then show ?thesis by (simp only: indices_ok_def simp_thms)
qed

section \<open>The limit for an address\<close>

text \<open>How often a connection from \<open>ip\<close> was passed to a worker.\<close>

definition passed_from :: "string \<Rightarrow> 'd manager \<Rightarrow> nat" where
  "passed_from ip g = length (filter (\<lambda>(_, _, i, _). i = ip) (M_passed g))"

definition rate_is :: "u32 \<Rightarrow> string \<Rightarrow> u32 \<Rightarrow> int \<Rightarrow> nat \<Rightarrow> 'd manager \<Rightarrow> bool" where
  "rate_is addr ip n p k g \<longleftrightarrow> ip \<noteq> ''0.0.0.0'' \<and> map_ok (M_mapClientConnFrequency g) \<and> count_client addr g = n \<and>
     M_iAddrPermitNum g = p \<and> passed_from ip g = k"

lemma rate_keep:
  "rate_is addr ip n p k g \<Longrightarrow> M_mapClientConnFrequency g' = M_mapClientConnFrequency g \<Longrightarrow>
   M_iAddrPermitNum g' = M_iAddrPermitNum g \<Longrightarrow> M_passed g' = M_passed g \<Longrightarrow> rate_is addr ip n p k g'"
  by (simp add: rate_is_def count_client_def passed_from_def)

lemma rate_core: "mgr_core g' = mgr_core g \<Longrightarrow> rate_is addr ip n p k g \<Longrightarrow> rate_is addr ip n p k g'"
  by (rule rate_keep) (assumption | erule mgr_coreD)+

lemma upd_worker_parts [simp]:
  "M_mapClientConnFrequency (upd_worker pid f g) = M_mapClientConnFrequency g" "M_iAddrPermitNum (upd_worker pid f g) = M_iAddrPermitNum g"
  "M_passed (upd_worker pid f g) = M_passed g" "M_wait (upd_worker pid f g) = M_wait g" "M_exited (upd_worker pid f g) = M_exited g"
  "M_iWaitToExitCounter (upd_worker pid f g) = M_iWaitToExitCounter g"
  by (simp_all add: upd_worker_def split: option.split)

definition rest_view :: "'d manager \<Rightarrow> _" where
  "rest_view g = (M_mapClientConnFrequency g, M_iAddrPermitNum g, M_passed g, M_wait g, M_iWaitToExitCounter g)"

lemma rest_core: "mgr_core g' = mgr_core g \<Longrightarrow> rest_view g' = rest_view g"
  by (simp add: mgr_core_def rest_view_def)

lemma rest_workers [simp]: "rest_view (g\<lparr>M_mapWorker := ws\<rparr>) = rest_view g"
  by (simp add: rest_view_def)

lemma rest_start:
  assumes "start_worker e index g = Some (g', b)"
  shows "rest_view g' = rest_view g"
  using start_worker_core [OF assms]
proof (elim disjE exE conjE)
  fix pid a
  assume "mgr_core g' = mgr_core (g\<lparr>M_mapWorker := map_insert pid a (M_mapWorker g)\<rparr>)"
  then show ?thesis using rest_core by fastforce
qed (rule rest_core)

lemma rest_restart:
  assumes "RestartWorker e pid g = Some (g', b)"
  shows "rest_view g' = rest_view g"
  using RestartWorker_parts [OF assms]
proof (elim disjE exE conjE)
  fix a g1 g2 ok
  assume r: "mgr_core g1 = mgr_core (g\<lparr>M_mapWorker := map_erase pid (M_mapWorker g)\<rparr>)"
    "start_worker e (iWorkerIndex a) g1 = Some (g2, ok)" "mgr_core g' = mgr_core g2"
  show ?thesis using rest_core [OF r(1)] rest_start [OF r(2)] rest_core [OF r(3)] by simp
qed simp

lemma RestartWorker_keeps:
  assumes "RestartWorker e pid g = Some (g', b)"
  shows "M_mapClientConnFrequency g' = M_mapClientConnFrequency g" "M_iAddrPermitNum g' = M_iAddrPermitNum g"
    "M_passed g' = M_passed g" "M_wait g' = M_wait g" "M_iWaitToExitCounter g' = M_iWaitToExitCounter g"
  using rest_restart [OF assms] by (simp_all add: rest_view_def)

interpretation client_rate: manager_invariant "rate_is addr ip n p k" e for addr ip n p k e
proof
  show "rate_is addr ip n p k g \<Longrightarrow> rate_is addr ip n p k (SetWorkerLoad e pid ob g)" for addr ip n p k pid ob e and g :: "'a manager"
    by (erule rate_keep) (simp_all add: SetWorkerLoad_def next_call_def)
  show "rate_is addr ip n p k g \<Longrightarrow> rate_is addr ip n p k (fst (AddWaitToExitTaskEvent sh cw sq g))" for addr ip n p k sh cw sq and g :: "'a manager"
    by (erule rate_keep) (simp_all add: AddWaitToExitTaskEvent_def)
  show "rate_is addr ip n p k g \<Longrightarrow> rate_is addr ip n p k (g\<lparr>M_passed := M_passed g @ [(data, fd, ''0.0.0.0'', CODEC_PROTOBUF)]\<rparr>)"
    for addr ip n p k data fd and g :: "'a manager"
    by (auto simp: rate_is_def count_client_def passed_from_def)
  show "rate_is addr ip n p k g \<Longrightarrow> RestartWorker e pid g = Some (g', b) \<Longrightarrow> rate_is addr ip n p k g'" for addr ip n p k pid b e and g g' :: "'a manager"
    by (erule rate_keep) (simp_all add: RestartWorker_keeps)
qed (rule rate_core; assumption)

definition rate_view :: "'d manager \<Rightarrow> _" where
  "rate_view g = (M_mapClientConnFrequency g, M_iAddrPermitNum g, M_passed g)"

lemma rate_view_simps [simp]:
  "rate_view (g\<lparr>M_iWaitToExitCounter := a\<rparr>) = rate_view g" "rate_view (g\<lparr>M_wait := b\<rparr>) = rate_view g"
  "rate_view (g\<lparr>M_exited := c\<rparr>) = rate_view g" "rate_view (fst (RestartWorkers g)) = rate_view g"
  by (simp_all add: rate_view_def RestartWorkers_def)

lemma rate_answer: "wait_answer e sh cw sq err msg g = Some g' \<Longrightarrow> rate_view g' = rate_view g"
  using rest_core [OF wait_answer_parts, of e sh cw sq err msg g g'] by (simp add: rest_view_def rate_view_def)

lemma WaitToExit_rate:
  assumes "WaitToExitTaskCallback e g = Some g'" "rate_is addr ip n p k g"
  shows "rate_is addr ip n p k g'"
proof -
  have "post (\<lambda>g'. rate_view g' = rate_view g) (WaitToExitTaskCallback e g)"
    unfolding WaitToExitTaskCallback_def CheckWorkerLoadNullExit_def CheckWorkerLoadNullRestartWorkers_def wait_again_def
    by (intro branches) (simp_all add: rate_answer)
  then have "rate_view g' = rate_view g" using assms(1) by (rule postD)
  then show ?thesis by (intro rate_keep [OF assms(2)]) (simp_all add: rate_view_def)
qed

lemma count_put: "map_ok (M_mapClientConnFrequency g) \<Longrightarrow>
  count_client addr (g\<lparr>M_mapClientConnFrequency := map_put a n (M_mapClientConnFrequency g)\<rparr>) = (if addr = a then n else count_client addr g)"
  by (simp add: count_client_def map_find_put)

lemma passed_from_core: "mgr_core g' = mgr_core g \<Longrightarrow> passed_from ip g' = passed_from ip g"
  by (drule mgr_coreD(6)) (simp add: passed_from_def)

lemma pass_client_rate:
  assumes "rate_is addr ip n p k g"
  shows "\<exists>j \<le> (if ip = ip' then 1 else 0). rate_is addr ip n p (k + j) (fst (pass_client e fd ip' g))"
  using pass_client_core [of e fd ip' g]
proof (elim disjE exE)
  assume "mgr_core (fst (pass_client e fd ip' g)) = mgr_core g"
  from rate_core [OF this assms] show ?thesis by (intro exI [of _ 0]) simp
next
  fix pid data
  let ?h = "AddWorkerLoad pid 1 (g\<lparr>M_passed := M_passed g @ [(data, fd, ip', M_eCodec g)]\<rparr>)"
  assume c: "mgr_core (fst (pass_client e fd ip' g)) = mgr_core ?h"
  have "rate_is addr ip n p (k + (if ip = ip' then 1 else 0)) ?h"
    using assms by (simp add: rate_is_def count_client_def passed_from_def AddWorkerLoad_def)
  from rate_core [OF c this] show ?thesis by (intro exI [of _ "if ip = ip' then 1 else 0"]) simp
qed

text \<open>One event costs at most one of the connections that are left.\<close>

abbreviation attempt :: "u32 \<Rightarrow> mgr_event \<Rightarrow> bool" where
  "attempt addr ev \<equiv> (case ev of ClientEvent _ a _ \<Rightarrow> a = addr | _ \<Rightarrow> False)"

definition honest :: "u32 \<Rightarrow> string \<Rightarrow> mgr_event \<Rightarrow> bool" where
  "honest addr ip ev \<longleftrightarrow> ev \<noteq> ExpireEvent addr \<and> (case ev of ClientEvent _ a i \<Rightarrow> (a = addr) = (i = ip) | _ \<Rightarrow> True)"

lemma rate_event:
  assumes "g_access e" "handle_mgr e ev g = Some g'" "rate_is addr ip n p k g" "honest addr ip ev" "0 < p" "p < 2 ^ 31" "attempt addr ev \<longrightarrow> unat n < 2 ^ 32 - 1"
  shows "\<exists>n' k'. rate_is addr ip n' p k' g' \<and> unat n' = unat n + (if attempt addr ev then 1 else 0) \<and>
    k' + (nat p - min (nat p) (unat n')) \<le> k + (nat p - min (nat p) (unat n))"
proof (cases "counted ev")
  case False
  then have "\<not> attempt addr ev" by (cases ev) simp_all
  moreover have "rate_is addr ip n p k g'" by (rule client_rate.event [OF assms(2) False assms(3)])
  ultimately show ?thesis by auto
next
  case True
  then show ?thesis
  proof (cases ev)
    case (ClientEvent fd a i)
    let ?h = "g\<lparr>M_mapClientConnFrequency := map_put a (count_client a g + 1) (M_mapClientConnFrequency g)\<rparr>"
    define n' where "n' = (if a = addr then n + 1 else n)"
    have h: "rate_is addr ip n' p k ?h"
      using assms(3) by (auto simp: rate_is_def count_put map_put_ok n'_def passed_from_def)
    have u: "unat n' = unat n + (if a = addr then 1 else 0)"
      using assms(7) ClientEvent by (auto simp: n'_def unat_word_ariths)
    have p: "unat (of_int p :: u32) = nat p" using assms(5,6) by (simp add: unsigned_of_int take_bit_int_eq_self)
    consider "a = addr" "nat p < unat n'" "g' = ?h\<lparr>M_closed := M_closed ?h @ [fd]\<rparr>"
      | "a = addr \<longrightarrow> unat n' \<le> nat p" "g' = fst (pass_client e fd i ?h)"
      | "a \<noteq> addr" "g' = ?h\<lparr>M_closed := M_closed ?h @ [fd]\<rparr>"
    proof (cases "g_access e \<and> map_find a (M_mapClientConnFrequency g) \<noteq> None \<and> count_client a g + 1 > of_int (M_iAddrPermitNum g)")
      case True
      then have "g' = ?h\<lparr>M_closed := M_closed ?h @ [fd]\<rparr>" using assms(2) ClientEvent by (simp add: FdTransfer_mgr_cases Let_def)
      moreover have "a = addr \<Longrightarrow> nat p < unat n'" using True assms(3) p by (simp add: rate_is_def n'_def word_less_nat_alt)
      ultimately show ?thesis using that(1,3) by blast
    next
      case False
      then have "g' = fst (pass_client e fd i ?h)" using assms(2) ClientEvent by (auto simp: FdTransfer_mgr_cases Let_def)
      moreover have "unat n' \<le> nat p" if a: "a = addr"
      proof (cases "map_find a (M_mapClientConnFrequency g)")
        case None
        then show ?thesis using a assms(3,5) by (auto simp: rate_is_def n'_def count_client_def)
      next
        case (Some c)
        then show ?thesis using a False assms(1,3) p by (auto simp: rate_is_def n'_def word_less_nat_alt not_less)
      qed
      ultimately show ?thesis using that(2) by blast
    qed
    then show ?thesis
    proof cases
      case 1
      then show ?thesis using rate_core [OF _ h, of g'] u ClientEvent by (intro exI [of _ n'] exI [of _ k]) auto
    next
      case 2
      obtain j where "j \<le> (if ip = i then 1 else 0)" "rate_is addr ip n' p (k + j) g'"
        using pass_client_rate [OF h, of i e fd] 2(2) by blast
      then show ?thesis using 2(1) u ClientEvent assms(4) by (intro exI [of _ n'] exI [of _ "k + j"]) (auto simp: honest_def split: if_splits)
    next
      case 3
      then show ?thesis using rate_core [OF _ h, of g'] u ClientEvent by (intro exI [of _ n'] exI [of _ k]) auto
    qed
  next
    case (ExpireEvent a)
    then have "rate_is addr ip n p k g'"
      using assms(2-4) by (auto simp: honest_def rate_is_def count_client_def passed_from_def ClientConnFrequencyTimeout_def
        map_find_erase map_erase_ok split: if_splits)
    then show ?thesis using ExpireEvent by auto
  next
    case WaitEvent
    then show ?thesis using WaitToExit_rate [OF _ assms(3), of e g'] assms(2) by auto
  qed simp_all
qed

lemma rate_run:
  assumes "g_access e" "0 < p" "p < 2 ^ 31"
  shows "run_mgr e evs g = Some g' \<Longrightarrow> rate_is addr ip n p k g \<Longrightarrow> \<forall>ev \<in> set evs. honest addr ip ev \<Longrightarrow>
    unat n + length (filter (attempt addr) evs) < 2 ^ 32 \<Longrightarrow>
    passed_from ip g' \<le> k + (nat p - min (nat p) (unat n))"
proof (induction evs arbitrary: g n k)
  case Nil
  then show ?case by (simp add: rate_is_def)
next
  case (Cons ev evs)
  obtain g1 where g1: "handle_mgr e ev g = Some g1" "run_mgr e evs g1 = Some g'" using Cons.prems(1) by (auto split: option.splits)
  have "attempt addr ev \<longrightarrow> unat n < 2 ^ 32 - 1" using Cons.prems(4) by (cases "attempt addr ev") simp_all
  then obtain n' k' where r: "rate_is addr ip n' p k' g1" "unat n' = unat n + (if attempt addr ev then 1 else 0)"
      "k' + (nat p - min (nat p) (unat n')) \<le> k + (nat p - min (nat p) (unat n))"
    using rate_event [OF assms(1) g1(1) Cons.prems(2) _ assms(2,3)] Cons.prems(3) by fastforce
  have "unat n' + length (filter (attempt addr) evs) < 2 ^ 32" using r(2) Cons.prems(4) by (auto split: if_splits)
  then show ?case using Cons.IH [OF g1(2) r(1)] Cons.prems(3) r(3) by force
qed

text \<open>C3: The limit of an access node works: from the first connection of an address until the time window
  of the address ends, at most \<open>addr_permit\<close> of its connections are passed to workers, however many it makes
  and whatever other clients, messages and events come in between. (The counter of the attempts is a 32-bit
  number; the claim is for as many attempts as it can count.)\<close>

theorem client_rate_limit:
  assumes "g_access e" "run_mgr e evs g = Some g'" "map_ok (M_mapClientConnFrequency g)"
    "map_find addr (M_mapClientConnFrequency g) = None" "0 < M_iAddrPermitNum g" "M_iAddrPermitNum g < 2 ^ 31"
    "\<forall>ev \<in> set evs. honest addr ip ev" "ip \<noteq> ''0.0.0.0''" "length (filter (attempt addr) evs) < 2 ^ 32"
  shows "int (passed_from ip g') \<le> int (passed_from ip g) + M_iAddrPermitNum g"
proof -
  have "rate_is addr ip 0 (M_iAddrPermitNum g) (passed_from ip g) g"
    using assms(3,4,8) by (simp add: rate_is_def count_client_def)
  from rate_run [OF assms(1,5,6,2) this assms(7)] assms(5,9) show ?thesis by simp
qed

definition example_worker_attr :: "int \<Rightarrow> int \<Rightarrow> int worker_attr" where
  "example_worker_attr index fd = new_worker index fd (fd + 1) 0"

definition example_mgr :: "int manager" where
  "example_mgr = \<lparr>M_ulSequence = 1, M_strNodeType = ''ACCESS'', M_uiNodeId = 0, M_strHostForServer = ''a'', M_strHostForClient = ''b'',
     M_strGateway = [], M_iPortForServer = 9000, M_iPortForClient = 80, M_iGatewayIp = 0, M_eCodec = CODEC_HTTP, M_iAddrPermitNum = 2,
     M_iRefreshInterval = 60, M_iLastRefreshCalc = 0, M_iWaitToExitCounter = 0, M_wait = None,
     M_mapWorker = [(100, example_worker_attr 0 10), (101, example_worker_attr 1 20)], M_mapWorkerRestartNum = [],
     M_mapWorkerFdPid = [(10, 100), (11, 100), (20, 101), (21, 101)], M_mapCenterMsgShell = [], M_mapFdAttr = [],
     M_mapSeq2WorkerIndex = [], M_mapClientConnFrequency = [], M_calls = 0, M_wire = [], M_connects = [], M_passed = [],
     M_closed = [], M_killed = [], M_exited = False\<rparr>"

definition example_menv :: "int menv" where
  "example_menv = \<lparr>g_env = example_env, g_sys = example_sys, g_fp = int_fpu, g_junk = (0, 0), g_access = True, g_now = (\<lambda>_. 0),
     g_late = (\<lambda>_ _. False), g_recent = (\<lambda>_. True), g_recv = (\<lambda>_. Inl EAGAIN), g_pass = (\<lambda>_. 0),
     g_pair = (\<lambda>k. Some (int (2 * k + 30))), g_fork = (\<lambda>k. Some (int k + 200))\<rparr>"

theorem client_rate_limit_witness:
  "\<exists>g'. run_mgr example_menv [ClientEvent 50 7 ''1.2.3.4'', ClientEvent 51 8 ''5.6.7.8'', ClientEvent 52 7 ''1.2.3.4'',
      ClientEvent 53 7 ''1.2.3.4''] example_mgr = Some g' \<and> passed_from ''1.2.3.4'' g' = 2 \<and> length (M_passed g') = 3 \<and>
    int (passed_from ''1.2.3.4'' g') \<le> int (passed_from ''1.2.3.4'' example_mgr) + 2"
proof -
  let ?evs = "[ClientEvent 50 7 ''1.2.3.4'', ClientEvent 51 8 ''5.6.7.8'', ClientEvent 52 7 ''1.2.3.4'', ClientEvent 53 7 ''1.2.3.4'']"
  have run: "\<exists>g'. run_mgr example_menv ?evs example_mgr = Some g' \<and> passed_from ''1.2.3.4'' g' = 2 \<and> length (M_passed g') = 3"
    by (simp add: FdTransfer_mgr_def pass_client_def GetMinLoadWorkerDataFd_def AddWorkerLoad_def upd_worker_def example_mgr_def
      example_menv_def example_worker_attr_def new_worker_def next_call_def passed_from_def wrap32_def)
  then obtain g' where g': "run_mgr example_menv ?evs example_mgr = Some g'" "passed_from ''1.2.3.4'' g' = 2" "length (M_passed g') = 3" by blast
  have "int (passed_from ''1.2.3.4'' g') \<le> int (passed_from ''1.2.3.4'' example_mgr) + M_iAddrPermitNum example_mgr"
    by (rule client_rate_limit [OF _ g'(1), where addr = 7]) (simp_all add: example_menv_def example_mgr_def map_ok_def honest_def)
  then show ?thesis using g' by (auto simp: example_mgr_def)
qed

theorem worker_indices_distinct_witness:
  "\<exists>g1 g. CreateWorker example_menv 3 (example_mgr\<lparr>M_mapWorker := [], M_mapWorkerFdPid := []\<rparr>) = Some g1 \<and>
    run_mgr example_menv [ChildEvent [205]] g1 = Some g \<and>
    length (M_mapWorker g) = 3 \<and> distinct (map (iWorkerIndex \<circ> snd) (M_mapWorker g))"
proof -
  have run: "\<exists>g1 g. CreateWorker example_menv 3 (example_mgr\<lparr>M_mapWorker := [], M_mapWorkerFdPid := []\<rparr>) = Some g1 \<and>
      run_mgr example_menv [ChildEvent [205]] g1 = Some g \<and> length (M_mapWorker g) = 3"
    by (simp add: CreateWorker_def numeral_3_eq_3 start_worker_def example_menv_def example_mgr_def new_worker_def next_call_def
      GetSequence_mgr_def CreateFdAttr_mgr_def AddIoReadEvent_mgr_def upd_mgr_def map_insert_def RestartWorker_def map_erase_def
      DestroyConnect_mgr_def watch_def new_conn_def count_restart_def RegisterToCenter_def)
  then show ?thesis using worker_indices_distinct [of example_menv 3] by fastforce
qed

end
