(* ===== verification/Manager_Stop.thy ===== *)
theory Manager_Stop
  imports Manager_Props
begin

text \<open>
  The orderly end of a node: a request to stop or to restart the workers waits until no worker has running
  steps, and is answered after six rounds of its timer at the latest.
\<close>

definition stopping :: "msg_shell \<Rightarrow> u32 \<Rightarrow> u32 \<Rightarrow> int \<Rightarrow> 'd manager \<Rightarrow> bool" where
  "stopping sh cw sq k g \<longleftrightarrow> M_wait g = Some (sh, cw, sq) \<and> M_iWaitToExitCounter g = k \<and> 1 \<le> k \<and> k \<le> 6"

lemma pending_rest: "rest_view g' = rest_view g \<Longrightarrow> stopping sh cw sq k g \<Longrightarrow> stopping sh cw sq k g'"
  by (simp add: rest_view_def stopping_def)

lemma pending_core: "mgr_core g' = mgr_core g \<Longrightarrow> stopping sh cw sq k g \<Longrightarrow> stopping sh cw sq k g'"
  by (drule rest_core) (rule pending_rest)

interpretation stop_pending: manager_invariant "stopping sh cw sq k" e for sh cw sq k e
proof
  show "stopping sh cw sq k g \<Longrightarrow> stopping sh cw sq k (SetWorkerLoad e pid ob g)" for sh cw sq k e pid ob and g :: "'a manager"
    by (simp add: stopping_def SetWorkerLoad_def next_call_def)
  show "stopping sh cw sq k g \<Longrightarrow> stopping sh cw sq k (g\<lparr>M_passed := M_passed g @ [(data, fd, ''0.0.0.0'', CODEC_PROTOBUF)]\<rparr>)"
    for sh cw sq k data fd and g :: "'a manager"
    by (simp add: stopping_def)
  show "stopping sh cw sq k g \<Longrightarrow> stopping sh cw sq k (fst (AddWaitToExitTaskEvent sh' cw' sq' g))" for sh cw sq k sh' cw' sq' and g :: "'a manager"
    by (simp add: stopping_def AddWaitToExitTaskEvent_def)
  show "stopping sh cw sq k g \<Longrightarrow> RestartWorker e pid g = Some (g', b) \<Longrightarrow> stopping sh cw sq k g'" for sh cw sq k pid b e and g g' :: "'a manager"
    by (rule pending_rest [OF rest_restart])
qed (rule pending_core; assumption)

lemma pending_client:
  assumes "stopping sh cw sq k g"
  shows "stopping sh cw sq k (fst (FdTransfer_mgr e fd addr ip g))"
proof -
  let ?h = "g\<lparr>M_mapClientConnFrequency := map_put addr (count_client addr g + 1) (M_mapClientConnFrequency g)\<rparr>"
  have "stopping sh cw sq k (AddWorkerLoad pid 1 (?h\<lparr>M_passed := p\<rparr>))" for pid p
    using assms by (simp add: stopping_def AddWorkerLoad_def)
  moreover have h: "stopping sh cw sq k ?h" using assms by (simp add: stopping_def)
  ultimately have "stopping sh cw sq k (fst (pass_client e fd ip ?h))"
    using pass_client_core [of e fd ip ?h] pending_core by blast
  then show ?thesis using h by (auto simp: FdTransfer_mgr_cases Let_def elim: pending_core [rotated])
qed

lemma pending_expire: "stopping sh cw sq k g \<Longrightarrow> stopping sh cw sq k (fst (ClientConnFrequencyTimeout addr g))"
  by (simp add: stopping_def ClientConnFrequencyTimeout_def)

text \<open>What the callback does when the waiting is over.\<close>

definition answered :: "'d menv \<Rightarrow> msg_shell \<Rightarrow> u32 \<Rightarrow> u32 \<Rightarrow> 'd manager \<Rightarrow> 'd manager \<Rightarrow> bool" where
  "answered e sh cw sq g g' \<longleftrightarrow>
     (\<exists>h. wait_answer e sh cw sq (if idle g then 0 else 1) (if idle g then ''OK'' else ''FAILED'')
            (if idle g \<and> cw = CMD_REQ_NODE_RESTART_WORKERS then fst (RestartWorkers g) else g) = Some h \<and>
          g' = (if idle g \<and> cw = CMD_REQ_NODE_STOP then h\<lparr>M_exited := True\<rparr> else h\<lparr>M_wait := None\<rparr>))"

lemma wait_round:
  assumes "stopping sh cw sq k g" "cw = CMD_REQ_NODE_STOP \<or> cw = CMD_REQ_NODE_RESTART_WORKERS" "WaitToExitTaskCallback e g = Some g'"
  shows "if idle g \<or> k = 6 then answered e sh cw sq g g' else stopping sh cw sq (k + 1) g'"
  using assms
  by (auto simp: WaitToExitTaskCallback_def stopping_def CheckWorkerLoadNullExit_def CheckWorkerLoadNullRestartWorkers_def wait_again_def
      answered_def CMD_REQ_NODE_STOP_def CMD_REQ_NODE_RESTART_WORKERS_def)

abbreviation rounds :: "mgr_event list \<Rightarrow> nat" where
  "rounds evs \<equiv> length (filter ((=) WaitEvent) evs)"

lemma pending_run:
  assumes "cw = CMD_REQ_NODE_STOP \<or> cw = CMD_REQ_NODE_RESTART_WORKERS"
  shows "run_mgr e evs g = Some g' \<Longrightarrow> stopping sh cw sq k g \<Longrightarrow> 7 \<le> k + int (rounds evs) \<Longrightarrow>
    \<exists>pre post g1 g2. evs = pre @ WaitEvent # post \<and> run_mgr e pre g = Some g1 \<and> handle_mgr e WaitEvent g1 = Some g2 \<and>
      run_mgr e post g2 = Some g' \<and> (idle g1 \<or> k + int (rounds pre) = 6) \<and> k + int (rounds pre) \<le> 6 \<and> answered e sh cw sq g1 g2"
proof (induction evs arbitrary: g k)
  case Nil
  then show ?case by (simp add: stopping_def)
next
  case (Cons ev evs)
  obtain h where h: "handle_mgr e ev g = Some h" "run_mgr e evs h = Some g'" using Cons.prems(1) by (auto split: option.splits)
  note later = Cons.IH [OF h(2)]
  show ?case
  proof (cases "ev = WaitEvent \<and> (idle g \<or> k = 6)")
    case True
    then have "answered e sh cw sq g h" using wait_round [OF Cons.prems(2) assms, of e h] h(1) by simp
    then show ?thesis
      using True h Cons.prems(2) by (intro exI [of _ "[]"] exI [of _ evs] exI [of _ g] exI [of _ h]) (auto simp: stopping_def)
  next
    case False
    define j where "j = (if ev = WaitEvent then k + 1 else k)"
    have "stopping sh cw sq j h"
    proof (cases "counted ev")
      case True
      then show ?thesis
      proof (cases ev)
        case WaitEvent
        then show ?thesis using h(1) False wait_round [OF Cons.prems(2) assms, of e h] by (simp add: j_def)
      qed (use h(1) Cons.prems(2) in \<open>auto simp: j_def intro: pending_client pending_expire\<close>)
    next
      case False
      then have "j = k" by (cases ev) (simp_all add: j_def)
      with stop_pending.event [OF h(1) False Cons.prems(2)] show ?thesis by simp
    qed
    moreover have "7 \<le> j + int (rounds evs)" using Cons.prems(3) by (auto simp: j_def split: if_splits)
    ultimately obtain pre post g1 g2 where r: "evs = pre @ WaitEvent # post" "run_mgr e pre h = Some g1" "handle_mgr e WaitEvent g1 = Some g2"
        "run_mgr e post g2 = Some g'" "idle g1 \<or> j + int (rounds pre) = 6" "j + int (rounds pre) \<le> 6" "answered e sh cw sq g1 g2"
      using later by blast
    then show ?thesis
      using h(1) by (intro exI [of _ "ev # pre"] exI [of _ post] exI [of _ g1] exI [of _ g2]) (auto simp: j_def split: if_splits)
  qed
qed

text \<open>C7: A request to stop a node, or to restart its workers, that was accepted is answered after at most
  six rounds of its timer, whatever happens in between: with OK, and the stop or the restart carried out, in
  the first round that finds no worker with running steps, and with FAILED in the sixth round otherwise.\<close>

theorem stop_request_answered:
  assumes "AddWaitToExitTaskEvent sh cw sq g0 = (g, True)" "cw = CMD_REQ_NODE_STOP \<or> cw = CMD_REQ_NODE_RESTART_WORKERS"
    "run_mgr e evs g = Some g'" "6 \<le> rounds evs"
  shows "\<exists>pre post g1 g2. evs = pre @ WaitEvent # post \<and> run_mgr e pre g = Some g1 \<and> handle_mgr e WaitEvent g1 = Some g2 \<and>
      run_mgr e post g2 = Some g' \<and> (idle g1 \<or> rounds pre = 5) \<and> rounds pre \<le> 5 \<and> answered e sh cw sq g1 g2"
proof -
  have "stopping sh cw sq 1 g" using assms(1) by (auto simp: AddWaitToExitTaskEvent_def stopping_def wrap32_def split: if_splits)
  from pending_run [OF assms(2,3) this] assms(4) show ?thesis by (fastforce simp: of_nat_eq_iff)
qed

definition stop_mgr :: "int manager" where
  "stop_mgr = fst (AddWaitToExitTaskEvent (9, 1) CMD_REQ_NODE_STOP 5 (example_mgr\<lparr>M_mapWorker := [(100, (example_worker_attr 0 10)\<lparr>iLoad := 3\<rparr>)]\<rparr>))"

theorem stop_request_answered_witness:
  "\<exists>g' pre post g1 g2. run_mgr example_menv (replicate 6 WaitEvent) stop_mgr = Some g' \<and> replicate 6 WaitEvent = pre @ WaitEvent # post \<and>
     run_mgr example_menv pre stop_mgr = Some g1 \<and> answered example_menv (9, 1) CMD_REQ_NODE_STOP 5 g1 g2"
proof -
  have "AddWaitToExitTaskEvent (9, 1) CMD_REQ_NODE_STOP 5 (example_mgr\<lparr>M_mapWorker := [(100, (example_worker_attr 0 10)\<lparr>iLoad := 3\<rparr>)]\<rparr>) = (stop_mgr, True)"
    by (simp add: stop_mgr_def AddWaitToExitTaskEvent_def example_mgr_def)
  moreover have "\<exists>g'. run_mgr example_menv (replicate 6 WaitEvent) stop_mgr = Some g'"
    by (simp add: numeral_eq_Suc stop_mgr_def AddWaitToExitTaskEvent_def example_mgr_def WaitToExitTaskCallback_def CheckWorkerLoadNullExit_def
      idle_def example_worker_attr_def new_worker_def wait_again_def wait_answer_def ordinary_def SendTo_mgr_def conn_mgr_def wrap32_def Let_def)
  ultimately show ?thesis using stop_request_answered [of "(9, 1)" CMD_REQ_NODE_STOP 5 _ stop_mgr example_menv "replicate 6 WaitEvent"] by fastforce
qed

end
