(* ===== verification/Manager_Read.thy ===== *)
theory Manager_Read
  imports Manager_Stop Worker_Setup
begin

text \<open>
  Messages that arrive at a manager: what one round of the loop over the messages does, and with it the answers
  to the messages of workers and of other nodes.
\<close>

section \<open>Bytes that arrive\<close>

lemma store_part:
  assumes "wf_cbuffer b" "length xs \<le> m_buffer_len b - m_write_idx b" "m_buffer b \<noteq> None \<or> xs = []"
  shows "\<exists>buf. mem_store (m_buffer b) (m_write_idx b) xs = Some buf \<and>
    wf_cbuffer (b\<lparr>m_buffer := buf, m_write_idx := m_write_idx b + length xs\<rparr>) \<and>
    contents (b\<lparr>m_buffer := buf, m_write_idx := m_write_idx b + length xs\<rparr>) = contents b @ xs"
proof (cases "m_buffer b")
  case None
  then have "xs = []" using assms(3) by simp
  with None assms(1) show ?thesis by (cases b) (simp add: wf_cbuffer_def contents_def)
next
  case (Some mem)
  let ?mem = "take (m_write_idx b) mem @ xs @ drop (m_write_idx b + length xs) mem"
  have le: "m_write_idx b \<le> m_buffer_len b" "m_read_idx b \<le> m_write_idx b" "m_buffer_len b < 2 ^ 63"
      "m_buffer_len b \<le> length mem"
    using assms(1) Some by (simp_all add: wf_cbuffer_def)
  have "m_write_idx b + length xs \<le> m_buffer_len b" using assms(2) le(1) by simp
  then have "mem_store (m_buffer b) (m_write_idx b) xs = Some (Some ?mem)"
    using Some le(4) by (cases "xs = []") (auto simp: mem_store_def)
  moreover have "wf_cbuffer (b\<lparr>m_buffer := Some ?mem, m_write_idx := m_write_idx b + length xs\<rparr>)"
    using le \<open>m_write_idx b + length xs \<le> m_buffer_len b\<close> by (simp add: wf_cbuffer_def)
  moreover have "contents (b\<lparr>m_buffer := Some ?mem, m_write_idx := m_write_idx b + length xs\<rparr>) = contents b @ xs"
    using Some le \<open>m_write_idx b + length xs \<le> m_buffer_len b\<close> by (simp add: contents_def drop_take Suc_diff_le)
  ultimately show ?thesis by blast
qed

lemma ReadFD_spec:
  assumes "wf_cbuffer b" "malloc_ok malloc" "malloc_total malloc" "m_buffer_len b + length xs < 2 ^ 31"
  shows "\<exists>b'. ReadFD malloc (Inr xs) b = Some (b', int (length xs), None) \<and> wf_cbuffer b' \<and> contents b' = contents b @ xs \<and>
    m_write_idx b' \<le> m_buffer_len b + length xs"
proof -
  let ?w = "m_buffer_len b - m_write_idx b"
  have le: "m_write_idx b \<le> m_buffer_len b" using assms(1) by (simp add: wf_cbuffer_def)
  have buf: "m_buffer b \<noteq> None \<or> take ?w xs = []" using assms(1) by (auto simp: wf_cbuffer_def split: option.splits)
  obtain m where m: "mem_store (m_buffer b) (m_write_idx b) (take ?w xs) = Some m"
      "wf_cbuffer (b\<lparr>m_buffer := m, m_write_idx := m_write_idx b + length (take ?w xs)\<rparr>)"
      "contents (b\<lparr>m_buffer := m, m_write_idx := m_write_idx b + length (take ?w xs)\<rparr>) = contents b @ take ?w xs"
    using store_part [OF assms(1) _ buf] by auto
  show ?thesis
  proof (cases "length xs \<le> ?w")
    case True
    have "size_of (m_write_idx b + length xs) = m_write_idx b + length xs" using assms(4) le by simp
    with m True le show ?thesis by (simp add: ReadFD_def Let_def)
  next
    case False
    let ?b = "b\<lparr>m_buffer := m, m_write_idx := m_buffer_len b\<rparr>"
    have b: "wf_cbuffer ?b" "contents ?b = contents b @ take ?w xs" using m(2,3) False le by (simp_all add: min_absorb2)
    obtain d where d: "length (drop ?w xs) = d" "d \<le> length xs" by simp
    have "room d ?b" using assms(4) d(2) by (simp add: room_def)
    then have "room (length (drop ?w xs)) ?b" unfolding d(1) .
    then obtain b' where b': "Write malloc (drop ?w xs) ?b = Some (b', int (length (drop ?w xs)))" "wf_cbuffer b'"
        "m_write_idx b' \<le> m_buffer_len b + length (drop ?w xs)" "contents b' = contents ?b @ drop ?w xs"
      using Write_spec [OF b(1) assms(2), of "drop ?w xs"] assms(3) False by auto
    then show ?thesis using m(1) False b(2) by (simp add: ReadFD_def Let_def)
  qed
qed

section \<open>One round\<close>

lemma map_find_upd_mgr [simp]:
  "map_ok (M_mapFdAttr g) \<Longrightarrow> map_find fd (M_mapFdAttr (upd_mgr fd' f g)) =
     (if fd = fd' then map_option f (map_find fd (M_mapFdAttr g)) else map_find fd (M_mapFdAttr g))"
  by (simp add: upd_mgr_def map_find_put split: option.split)

lemma map_ok_upd_mgr [simp]: "map_ok (M_mapFdAttr g) \<Longrightarrow> map_ok (M_mapFdAttr (upd_mgr fd f g))"
  by (simp add: upd_mgr_def map_put_ok split: option.split)

lemma conn_mgr_find: "conn_mgr sh g = Some c \<longleftrightarrow> map_find (fst sh) (M_mapFdAttr g) = Some c \<and> ulSeq c = snd sh"
  by (auto simp: conn_mgr_def split: option.splits)

lemma upd_mgr_parts [simp]:
  "M_wire (upd_mgr fd f g) = M_wire g" "M_mapWorkerFdPid (upd_mgr fd f g) = M_mapWorkerFdPid g" "M_closed (upd_mgr fd f g) = M_closed g"
  "M_mapCenterMsgShell (upd_mgr fd f g) = M_mapCenterMsgShell g" "M_calls (upd_mgr fd f g) = M_calls g"
  "M_mapWorker (upd_mgr fd f g) = M_mapWorker g" "M_passed (upd_mgr fd f g) = M_passed g"
  by (simp_all add: upd_mgr_def split: option.split)

text \<open>The receive buffer holds a frame, and perhaps more.\<close>

lemma message_round:
  assumes "pb_ok (w_pb (g_env e))" "map_find (fst sh) (M_mapFdAttr g) = Some c" "wf_cbuffer (pRecvBuff c)"
    "contents (pRecvBuff c) = frame (w_pb (g_env e)) (head, body) @ rest" "sendable (w_pb (g_env e)) (head, body)"
    "length (contents (pRecvBuff c)) < 2 ^ 31" "ser_body (w_pb (g_env e)) body \<noteq> []"
  shows "message_loop e sh b g =
    Option.bind (Dispose_mgr e sh c head body g) (\<lambda>(g, bContinue).
    Option.bind (after_dispose e sh (length (frame (w_pb (g_env e)) (head, body))) g) (\<lambda>g.
      if bContinue then message_loop e sh (Some body) g
      else map_option (\<lambda>(g, _). (g, False)) (DestroyConnect_mgr (fst sh) g)))"
proof -
  let ?pb = "w_pb (g_env e)" and ?n = "length (ser_body (w_pb (g_env e)) body)"
  have pb: "length (ser_head ?pb h) = 15" "parse_head ?pb (ser_head ?pb h) = (True, h)"
      "protobuf.parse_body ?pb (ser_body ?pb m) = (True, m)" for h m
    using assms(1) by (simp_all add: pb_ok_def)
  have len: "length (contents (pRecvBuff c)) = 15 + ?n + length rest" using assms(4) pb(1) by (simp add: frame_def)
  have rb: "m_write_idx (pRecvBuff c) - m_read_idx (pRecvBuff c) = 15 + ?n + length rest"
    using len length_contents [OF assms(3)] by simp
  have p1: "parse_array (parse_head ?pb) (pRecvBuff c) 0 15 = Some (True, head)"
    using raw_read_contents [OF assms(3), of 0 15] len pb assms(4) by (simp add: parse_array_def frame_def)
  have p2: "parse_array (protobuf.parse_body ?pb) (pRecvBuff c) 15 ?n = Some (True, body)"
    using raw_read_contents [OF assms(3), of 15 ?n] len pb assms(4,6) by (simp add: parse_array_def frame_def)
  have fr: "framed ?pb body (head, body)" using assms(5) by (simp add: sendable_def)
  have l: "unat (h_msgbody_len head) = ?n" using framed_len [OF fr] by simp
  then have l2: "unat (15 + h_msgbody_len head) = 15 + ?n"
    using assms(6) len by (subst unat_add_lem [THEN iffD1]) simp_all
  have z: "h_msgbody_len head \<noteq> 0" using framed_zero [OF fr] assms(7) by simp
  show ?thesis
    by (subst message_loop.simps)
      (simp add: assms(2) gc_uiMsgHeadSize_def rb p1 p2 l l2 z Let_def body_value_def body_size_def frame_def pb(1)
        cong: option.case_cong)
qed

lemma message_done:
  assumes "map_find (fst sh) (M_mapFdAttr g) = Some c" "wf_cbuffer (pRecvBuff c)" "length (contents (pRecvBuff c)) < 15"
  shows "message_loop e sh b g = Some (g, True)"
  using assms(3) length_contents [OF assms(2)]
  by (subst message_loop.simps) (simp add: assms(1) gc_uiMsgHeadSize_def Let_def)

section \<open>The reports of workers\<close>

lemma after_dispose_ok:
  assumes "conn_mgr sh g = Some c" "map_ok (M_mapFdAttr g)" "wf_cbuffer (pRecvBuff c)" "wf_cbuffer (pSendBuff c)"
    "n \<le> length (contents (pRecvBuff c))" "n < 2 ^ 31" "m_write_idx (pRecvBuff c) < 2 ^ 32" "m_write_idx (pSendBuff c) < 2 ^ 32"
  shows "\<exists>g' c'. after_dispose e sh n g = Some g' \<and> conn_mgr sh g' = Some c' \<and> map_ok (M_mapFdAttr g') \<and> mgr_core g' = mgr_core g \<and>
    wf_cbuffer (pRecvBuff c') \<and> contents (pRecvBuff c') = drop n (contents (pRecvBuff c)) \<and>
    M_wire g' = M_wire g \<and> M_mapWorkerFdPid g' = M_mapWorkerFdPid g \<and> M_closed g' = M_closed g \<and>
    wf_cbuffer (pSendBuff c') \<and> contents (pSendBuff c') = contents (pSendBuff c) \<and>
    pIoWatcher c' = pIoWatcher c \<and> strIdentify c' = strIdentify c \<and> M_mapCenterMsgShell g' = M_mapCenterMsgShell g"
proof -
  note skip = SkipBytes_spec [OF assms(3,5,6)]
  have w: "m_write_idx (SkipBytes n (pRecvBuff c)) < 2 ^ 32" using skip assms(7) by simp
  obtain r k where r: "Compact (w_malloc (g_env e)) 32784 (SkipBytes n (pRecvBuff c)) = Some (r, k)" "wf_cbuffer r"
      "contents r = drop n (contents (pRecvBuff c))"
    using Compact_spec [OF _ w, of "w_malloc (g_env e)" 32784] skip by auto
  obtain s k' where s: "Compact (w_malloc (g_env e)) 32784 (pSendBuff c) = Some (s, k')" "wf_cbuffer s" "contents s = contents (pSendBuff c)"
    using Compact_spec [OF assms(4,8), of "w_malloc (g_env e)" 32784] by auto
  let ?g = "upd_mgr (fst sh) (\<lambda>c. c\<lparr>pRecvBuff := r, pSendBuff := s\<rparr>) g"
  have "after_dispose e sh n g = Some ?g" by (simp add: after_dispose_def assms(1) r(1) s(1))
  moreover have "conn_mgr sh ?g = Some (c\<lparr>pRecvBuff := r, pSendBuff := s\<rparr>)"
    using assms(1,2) by (auto simp: conn_mgr_def split: option.splits if_splits)
  ultimately show ?thesis using r s assms(2) by (intro exI [of _ ?g] exI [of _ "c\<lparr>pRecvBuff := r, pSendBuff := s\<rparr>"]) simp
qed

definition load_keys :: "string list" where
  "load_keys = [''load'', ''connect'', ''recv_num'', ''recv_byte'', ''send_num'', ''send_byte'', ''client'']"

lemma load_keys_differ:
  "list_all (\<lambda>j. list_all (\<lambda>i. cJSON_strcasecmp_eq (Some (ascii (load_keys ! i))) (Some (c_bytes (ascii (load_keys ! j)))) = (i = j))
    [0..<7]) [0..<7]"
  by code_simp

lemma find_name_key:
  assumes "j < length ks" "length vs = length ks"
    "\<forall>i \<le> j. cJSON_strcasecmp_eq (Some (ascii (ks ! i))) (Some k) = (i = j)"
  shows "find_name (Some k) (map (\<lambda>(n, v). of_jval fp (Some n) v) (zip (map ascii ks) vs)) = Some j"
  using assms
proof (induction ks arbitrary: j vs)
  case (Cons x ks)
  obtain v vs' where vs: "vs = v # vs'" using Cons.prems(2) by (cases vs) auto
  show ?case
  proof (cases j)
    case 0
    then show ?thesis using Cons.prems(3) by (simp add: vs)
  next
    case (Suc j')
    have "\<forall>i \<le> j'. cJSON_strcasecmp_eq (Some (ascii (ks ! i))) (Some k) = (i = j')"
    proof (intro allI impI)
      fix i
      assume "i \<le> j'"
      then show "cJSON_strcasecmp_eq (Some (ascii (ks ! i))) (Some k) = (i = j')" using Cons.prems(3) [rule_format, of "Suc i"] Suc by simp
    qed
    then have "find_name (Some k) (map (\<lambda>(n, v). of_jval fp (Some n) v) (zip (map ascii ks) vs')) = Some j'"
      using Cons.IH [of j' vs'] Cons.prems(1,2) Suc vs by simp
    moreover have "\<not> cJSON_strcasecmp_eq (Some (ascii x)) (Some k)" using Cons.prems(3) [rule_format, of 0] Suc by simp
    ultimately show ?thesis by (simp add: vs Suc)
  qed
qed simp

text \<open>What a manager reads from an object of numbers under these keys.\<close>

lemma read_load:
  assumes "j < 7" "length vs = 7" "in32 (vs ! j)"
  shows "read_int (empty_jobj\<lparr>jdata := Some (of_jval fp None (json_obj (zip load_keys (map JInt vs))))\<rparr>) (load_keys ! j) old = vs ! j"
proof -
  let ?ms = "map (\<lambda>(n, v). of_jval fp (Some n) v) (zip (map ascii load_keys) (map JInt vs))"
  have l: "length load_keys = 7" by (simp add: load_keys_def)
  have "\<forall>i \<le> j. cJSON_strcasecmp_eq (Some (ascii (load_keys ! i))) (Some (c_bytes (ascii (load_keys ! j)))) = (i = j)"
    using load_keys_differ assms(1) by (auto simp: list_all_iff)
  then have f: "find_name (Some (c_bytes (ascii (load_keys ! j)))) ?ms = Some j"
    using assms(1,2) l by (intro find_name_key) simp_all
  have "?ms ! j = of_jval fp (Some (ascii (load_keys ! j))) (JInt (vs ! j))" using assms(1,2) l by simp
  then have "get_member (empty_jobj\<lparr>jdata := Some (of_jval fp None (json_obj (zip load_keys (map JInt vs))))\<rparr>) (ascii (load_keys ! j)) =
      Some (of_jval fp (Some (ascii (load_keys ! j))) (JInt (vs ! j)))"
    using f by (simp add: get_member_def focus_def empty_jobj_def has_type_def json_obj_def cJSON_GetObjectItem_def zip_map1 case_prod_beta' comp_def
        del: of_jval.simps(3))
  then show ?thesis by (simp add: read_int_def Get_key_int32_def item_int32_jval [OF assms(3)] del: of_jval.simps(3))
qed

text \<open>The worker's half: the report goes out over the connection to the manager.\<close>

definition report :: "'d fpu \<Rightarrow> 's worker \<Rightarrow> msg_body" where
  "report fp w = plain_body (body_of fp (worker_load_json w))"

lemma CheckParent_sends:
  assumes "proto_env env" "conn_of (m_iManagerControlFd w, sq) w = Some c" "map_ok (m_mapFdAttr w)" "wf_cbuffer (pSendBuff c)"
    "m_write_idx (pSendBuff c) + length (frame_for env CMD_REQ_UPDATE_WORKER_LOAD (next_seq w) (report fp w)) < 2 ^ 31"
  shows "\<exists>w' c'. CheckParent fp env w = Some (w', True) \<and> conn_of (m_iManagerControlFd w, sq) w' = Some c' \<and>
    transmitted (m_iManagerControlFd w, sq) w' c' =
      transmitted (m_iManagerControlFd w, sq) w c @ frame_for env CMD_REQ_UPDATE_WORKER_LOAD (next_seq w) (report fp w)"
proof -
  let ?fd = "m_iManagerControlFd w" and ?sh = "(m_iManagerControlFd w, sq)" and ?head = "head_for env CMD_REQ_UPDATE_WORKER_LOAD (next_seq w) (report fp w)"
  let ?hs = "ser_head (w_pb env) ?head" and ?bs = "ser_body (w_pb env) (report fp w)"
  note pe = proto_envD [OF assms(1)]
  have fl: "length (frame_for env CMD_REQ_UPDATE_WORKER_LOAD (next_seq w) (report fp w)) = length ?hs + length ?bs" by (simp add: frame_def)
  obtain b1 where b1: "Write (w_malloc env) ?hs (pSendBuff c) = Some (b1, int (length ?hs))" "wf_cbuffer b1"
      "m_write_idx b1 \<le> m_write_idx (pSendBuff c) + length ?hs" "contents b1 = contents (pSendBuff c) @ ?hs"
    using Write_spec [OF assms(4) pe(2), of ?hs] assms(5) fl pe(3) by (force simp: room_def)
  obtain b2 where b2: "Write (w_malloc env) ?bs b1 = Some (b2, int (length ?bs))" "wf_cbuffer b2"
      "m_write_idx b2 \<le> m_write_idx b1 + length ?bs" "contents b2 = contents b1 @ ?bs"
    using Write_spec [OF b1(2) pe(2), of ?bs] b1(3) assms(5) fl pe(3) by (force simp: room_def)
  let ?c = "c\<lparr>pSendBuff := b2\<rparr>"
  define v where "v = fst (GetSequence_worker w)"
  have v: "CheckParent fp env w = SendToParent env ?head (report fp w) v" "m_mapFdAttr v = m_mapFdAttr w" "m_iManagerControlFd v = ?fd" "wire_of ?sh v = wire_of ?sh w"
    by (simp_all add: CheckParent_def report_def v_def GetSequence_worker_def Let_def wire_of_def)
  let ?u = "upd_conn ?fd (\<lambda>_. ?c) v"
  have u: "map_ok (m_mapFdAttr ?u)" "conn_of ?sh ?u = Some ?c" "map_find ?fd (m_mapFdAttr v) = Some c"
    using assms(2,3) v(2) by (simp_all add: conn_of_find)
  obtain w' b' len err where w': "write_out env (fst ?sh) ?c ?u = Some (w', len, err)" "moved ?sh ?u ?c w' (?c\<lparr>pSendBuff := b'\<rparr>)"
      "transmitted ?sh w' (?c\<lparr>pSendBuff := b'\<rparr>) = transmitted ?sh ?u ?c"
    using write_out_spec [OF assms(1) u(1,2)] b2(2,3) b1(3) assms(5) fl by fastforce
  let ?w = "w'\<lparr>m_iRecvNum := 0, m_iRecvByte := 0, m_iSendNum := 0, m_iSendByte := 0\<rparr>"
  have "CheckParent fp env w = Some (?w, True)"
    using w'(1) b1(1) b2(1) u(3) by (simp add: SendToParent_def v(1,3) Let_def)
  moreover have "conn_of ?sh ?w = Some (?c\<lparr>pSendBuff := b'\<rparr>)" using w'(2) by (simp add: moved_def conn_of_def)
  moreover have "transmitted ?sh ?w (?c\<lparr>pSendBuff := b'\<rparr>) = transmitted ?sh w c @ frame_for env CMD_REQ_UPDATE_WORKER_LOAD (next_seq w) (report fp w)"
    using w'(3) v(4) b2(4) b1(4) by (simp add: transmitted_def wire_of_def frame_def)
  ultimately show ?thesis by blast
qed

text \<open>The manager's half: the attributes of the worker become what it reported.\<close>

definition reported :: "'s worker \<Rightarrow> 'd \<Rightarrow> 'd worker_attr \<Rightarrow> 'd worker_attr" where
  "reported w now a = a\<lparr>iLoad := wrap32 (int (length (m_mapFdAttr w)) + int (length (m_mapCallbackStep w))),
     iConnect := wrap32 (int (length (m_mapFdAttr w))), iRecvNum := m_iRecvNum w, iRecvByte := m_iRecvByte w,
     iSendNum := m_iSendNum w, iSendByte := m_iSendByte w,
     iClientNum := wrap32 (int (length (m_mapFdAttr w)) - int (length (m_mapInnerFd w))), dBeatTime := now\<rparr>"

definition counters_fit :: "'s worker \<Rightarrow> bool" where
  "counters_fit w \<longleftrightarrow> in32 (m_iRecvNum w) \<and> in32 (m_iRecvByte w) \<and> in32 (m_iSendNum w) \<and> in32 (m_iSendByte w)"

lemma worker_load_values:
  "worker_load_json w = json_obj (zip load_keys (map JInt [wrap32 (int (length (m_mapFdAttr w)) + int (length (m_mapCallbackStep w))),
     wrap32 (int (length (m_mapFdAttr w))), m_iRecvNum w, m_iRecvByte w, m_iSendNum w, m_iSendByte w,
     wrap32 (int (length (m_mapFdAttr w)) - int (length (m_mapInnerFd w)))]))"
  by (simp add: worker_load_json_def load_keys_def Let_def)

lemma report_parsed:
  assumes "counters_fit w"
  shows "Jobj_Parse fp junk (b_body (report fp w)) = Done (empty_jobj\<lparr>jdata := Some (of_jval fp None (worker_load_json w))\<rparr>, True)"
proof -
  have int: "wf_jval (JInt i)" if "in32 i" for i using that by (simp add: in32_def)
  have "\<forall>k \<in> set load_keys. 0 \<notin> set (ascii k)" by (simp add: load_keys_def) (simp add: ascii_def)
  then have "wf_jval (json_obj (zip load_keys (map JInt [i, j, k, l, m, n, p])))"
    if "in32 i" "in32 j" "in32 k" "in32 l" "in32 m" "in32 n" "in32 p" for i j k l m n p
    using that int by (simp add: json_obj_def load_keys_def del: wf_jval.simps(1))
  then have "wf_jval (worker_load_json w)"
    unfolding worker_load_values using assms by (simp add: counters_fit_def)
  then show ?thesis by (simp add: report_def plain_body_def Jobj_Parse_body_of)
qed

lemma report_recorded:
  assumes "map_find (fst sh) (M_mapWorkerFdPid g) = Some pid" "map_find pid (M_mapWorker g) = Some a" "map_ok (M_mapWorker g)"
    "counters_fit w" "h_cmd head = CMD_REQ_UPDATE_WORKER_LOAD"
  shows "\<exists>g'. Dispose_mgr e sh c head (report (g_fp e) w) g = Some (g', True) \<and>
    M_mapWorker g' = map_put pid (reported w (g_now e (M_calls g)) a) (M_mapWorker g) \<and>
    M_mapFdAttr g' = M_mapFdAttr g \<and> M_wire g' = M_wire g"
proof -
  let ?ob = "empty_jobj\<lparr>jdata := Some (of_jval (g_fp e) None (worker_load_json w))\<rparr>"
  let ?vs = "[wrap32 (int (length (m_mapFdAttr w)) + int (length (m_mapCallbackStep w))), wrap32 (int (length (m_mapFdAttr w))),
     m_iRecvNum w, m_iRecvByte w, m_iSendNum w, m_iSendByte w, wrap32 (int (length (m_mapFdAttr w)) - int (length (m_mapInnerFd w)))]"
  have r: "read_int ?ob (load_keys ! j) old = ?vs ! j" if "j < 7" for j old
  proof -
    have "\<forall>v \<in> set ?vs. in32 v" using assms(4) by (simp add: counters_fit_def)
    moreover have "j < length ?vs" using that by simp
    ultimately have "in32 (?vs ! j)" by (blast intro: nth_mem)
    then show ?thesis unfolding worker_load_values using that by (intro read_load) simp_all
  qed
  have rd: "read_int ?ob ''load'' old = ?vs ! 0" "read_int ?ob ''connect'' old = ?vs ! 1" "read_int ?ob ''recv_num'' old = ?vs ! 2"
      "read_int ?ob ''recv_byte'' old = ?vs ! 3" "read_int ?ob ''send_num'' old = ?vs ! 4" "read_int ?ob ''send_byte'' old = ?vs ! 5"
      "read_int ?ob ''client'' old = ?vs ! 6" for old
    using r [of 0] r [of 1] r [of 2] r [of 3] r [of 4] r [of 5] r [of 6] by (simp_all add: load_keys_def)
  have "Dispose_mgr e sh c head (report (g_fp e) w) g = Some (SetWorkerLoad e pid ?ob g, True)"
    using assms(1,5) by (simp add: Dispose_mgr_def DisposeDataFromWorker_def report_parsed [OF assms(4)])
  moreover have "M_mapWorker (SetWorkerLoad e pid ?ob g) = map_put pid (reported w (g_now e (M_calls g)) a) (M_mapWorker g)"
    using assms(2) by (simp add: SetWorkerLoad_def upd_worker_def next_call_def rd reported_def)
  moreover have "M_mapFdAttr (SetWorkerLoad e pid ?ob g) = M_mapFdAttr g" "M_wire (SetWorkerLoad e pid ?ob g) = M_wire g"
    by (simp_all add: SetWorkerLoad_def upd_worker_def next_call_def split: option.split)
  ultimately show ?thesis by blast
qed

text \<open>A connection on which nothing is waiting to be read, with room for \<open>n\<close> bytes.\<close>

definition reading_ok :: "nat \<Rightarrow> conn \<Rightarrow> bool" where
  "reading_ok n c \<longleftrightarrow> wf_cbuffer (pRecvBuff c) \<and> contents (pRecvBuff c) = [] \<and> m_buffer_len (pRecvBuff c) + n < 2 ^ 31 \<and>
     wf_cbuffer (pSendBuff c) \<and> m_write_idx (pSendBuff c) < 2 ^ 32"

text \<open>C6: The load reports of the workers arrive: a worker that reports writes one frame behind what it has sent
  to its manager, and a manager that receives this frame enters exactly the reported numbers and the time
  of the report into the entry of this worker and changes no other worker.\<close>

theorem worker_report_recorded:
  assumes "proto_env env" "conn_of (m_iManagerControlFd w, sq) w = Some cw" "map_ok (m_mapFdAttr w)" "wf_cbuffer (pSendBuff cw)"
    "m_write_idx (pSendBuff cw) + length (frame_for env CMD_REQ_UPDATE_WORKER_LOAD (next_seq w) (report (g_fp e) w)) < 2 ^ 31"
    "g_env e = env" "conn_mgr sh g = Some c" "map_ok (M_mapFdAttr g)"
    "reading_ok (length (frame_for env CMD_REQ_UPDATE_WORKER_LOAD (next_seq w) (report (g_fp e) w))) c"
    "map_find (fst sh) (M_mapWorkerFdPid g) = Some pid" "map_find pid (M_mapWorker g) = Some a" "map_ok (M_mapWorker g)"
    "counters_fit w" "short_body env (report (g_fp e) w)" "ser_body (w_pb env) (report (g_fp e) w) \<noteq> []"
    "g_recv e (M_calls g) = Inr (frame_for env CMD_REQ_UPDATE_WORKER_LOAD (next_seq w) (report (g_fp e) w))"
  shows "\<exists>w' cw' g'. CheckParent (g_fp e) env w = Some (w', True) \<and> conn_of (m_iManagerControlFd w, sq) w' = Some cw' \<and>
    transmitted (m_iManagerControlFd w, sq) w' cw' =
      transmitted (m_iManagerControlFd w, sq) w cw @ frame_for env CMD_REQ_UPDATE_WORKER_LOAD (next_seq w) (report (g_fp e) w) \<and>
    RecvDataAndDispose_mgr e sh g = Some (g', True) \<and>
    (\<forall>p. map_find p (M_mapWorker g') =
      (if p = pid then Some (reported w (g_now e (Suc (M_calls g))) a) else map_find p (M_mapWorker g)))"
proof -
  let ?head = "head_for env CMD_REQ_UPDATE_WORKER_LOAD (next_seq w) (report (g_fp e) w)" and ?body = "report (g_fp e) w"
  let ?f = "frame_for env CMD_REQ_UPDATE_WORKER_LOAD (next_seq w) (report (g_fp e) w)"
  note pe = proto_envD [OF assms(1)] and ro = assms(9) [unfolded reading_ok_def]
  have c: "map_find (fst sh) (M_mapFdAttr g) = Some c" "ulSeq c = snd sh" using assms(7) by (simp_all add: conn_mgr_find)
  obtain b where b: "ReadFD (w_malloc env) (Inr ?f) (pRecvBuff c) = Some (b, int (length ?f), None)" "wf_cbuffer b"
      "contents b = ?f" "m_write_idx b \<le> m_buffer_len (pRecvBuff c) + length ?f"
    using ReadFD_spec [of "pRecvBuff c" "w_malloc env" ?f] ro pe(2,3) by auto
  define h where "h = upd_mgr (fst sh) (\<lambda>c. c\<lparr>pRecvBuff := b\<rparr>) (next_call g)"
  let ?c = "c\<lparr>pRecvBuff := b\<rparr>"
  have h: "map_find (fst sh) (M_mapFdAttr h) = Some ?c" "map_ok (M_mapFdAttr h)" "M_mapWorkerFdPid h = M_mapWorkerFdPid g"
      "M_mapWorker h = M_mapWorker g" "M_calls h = Suc (M_calls g)"
    using c(1) assms(8) by (simp_all add: h_def next_call_def)
  have len: "0 < length ?f" "length ?f < 2 ^ 31"
    using pe(1) ro by (simp_all add: frame_def pb_ok_def)
  have "RecvDataAndDispose_mgr e sh g = message_loop e sh None h"
    using c b(1) len(1) assms(6,16) by (simp add: RecvDataAndDispose_mgr_def h_def Let_def)
  also have "\<dots> = Option.bind (Dispose_mgr e sh ?c ?head ?body h) (\<lambda>(g, bContinue).
      Option.bind (after_dispose e sh (length ?f) g) (\<lambda>g.
        if bContinue then message_loop e sh (Some ?body) g
        else map_option (\<lambda>(g, _). (g, False)) (DestroyConnect_mgr (fst sh) g)))"
    using message_round [of e sh h ?c ?head ?body "[]" None] h(1) b(2,3) len(2) pe(1) assms(6,15) sendable_head_for [OF assms(14)] by simp
  finally have round: "RecvDataAndDispose_mgr e sh g = Option.bind (Dispose_mgr e sh ?c ?head ?body h) (\<lambda>(g, bContinue).
      Option.bind (after_dispose e sh (length ?f) g) (\<lambda>g.
        if bContinue then message_loop e sh (Some ?body) g
        else map_option (\<lambda>(g, _). (g, False)) (DestroyConnect_mgr (fst sh) g)))" .
  obtain h1 where h1: "Dispose_mgr e sh ?c ?head ?body h = Some (h1, True)"
      "M_mapWorker h1 = map_put pid (reported w (g_now e (M_calls h)) a) (M_mapWorker h)" "M_mapFdAttr h1 = M_mapFdAttr h"
    using report_recorded [of sh h pid a w ?head e ?c] assms(10-13) h(3,4) by (auto simp: head_for_def)
  have "conn_mgr sh h1 = Some ?c" using h(1) h1(3) c(2) by (simp add: conn_mgr_find)
  then obtain h2 c2 where h2: "after_dispose e sh (length ?f) h1 = Some h2" "conn_mgr sh h2 = Some c2" "mgr_core h2 = mgr_core h1"
      "wf_cbuffer (pRecvBuff c2)" "contents (pRecvBuff c2) = []"
    using after_dispose_ok [of sh h1 ?c "length ?f" e] b(2-4) h1(3) h(2) len(2) ro by auto
  then have "message_loop e sh (Some ?body) h2 = Some (h2, True)" by (intro message_done [of _ _ c2]) (simp_all add: conn_mgr_find)
  then have run: "RecvDataAndDispose_mgr e sh g = Some (h2, True)" using round h1(1) h2(1) by simp
  have "map_find p (M_mapWorker h2) = (if p = pid then Some (reported w (g_now e (Suc (M_calls g))) a) else map_find p (M_mapWorker g))" for p
    using mgr_coreD(1) [OF h2(3)] h1(2) h(4,5) assms(12) by (simp add: map_find_put)
  then show ?thesis using CheckParent_sends [OF assms(1-5)] run by blast
qed

definition report_worker :: "unit wk" where
  "report_worker = (Init_worker 3 4 0 ''ACCESS'' ''a'' 9001 [])\<lparr>m_mapFdAttr := [(3, new_conn 1 CODEC_PROTOBUF)], m_iRecvNum := 5\<rparr>"

definition report_mgr :: "int manager" where
  "report_mgr = example_mgr\<lparr>M_mapFdAttr := [(10, new_conn 7 CODEC_PROTOBUF)]\<rparr>"

definition report_menv :: "int menv" where
  "report_menv = example_menv\<lparr>g_recv := (\<lambda>_. Inr (frame_for example_env CMD_REQ_UPDATE_WORKER_LOAD (next_seq report_worker) (report int_fpu report_worker)))\<rparr>"

lemma report_length: "length (b_body (report int_fpu report_worker)) < 1000"
  by (simp add: report_def plain_body_def report_worker_def Init_worker_def new_conn_def worker_load_json_def) code_simp

theorem worker_report_recorded_witness:
  "\<exists>w' g'. CheckParent int_fpu example_env report_worker = Some (w', True) \<and>
    RecvDataAndDispose_mgr report_menv (10, 7) report_mgr = Some (g', True) \<and>
    map_option iRecvNum (map_find 100 (M_mapWorker g')) = Some 5 \<and> map_option iRecvNum (map_find 101 (M_mapWorker g')) = Some 0"
proof -
  have e: "g_env report_menv = example_env" "g_fp report_menv = int_fpu" by (simp_all add: report_menv_def example_menv_def)
  have len: "length (frame_for example_env CMD_REQ_UPDATE_WORKER_LOAD sq (report int_fpu report_worker)) < 3000"
    "length (ser_body example_pb (report int_fpu report_worker)) < 3000" for sq
    using report_length unfolding report_def by (simp_all add: length_example_frame length_example_body) (simp_all add: plain_body_def)
  have m: "m_iManagerControlFd report_worker = 3" by (simp add: report_worker_def Init_worker_def)
  have bufs: "reading_ok (length (frame_for example_env CMD_REQ_UPDATE_WORKER_LOAD (next_seq report_worker) (report int_fpu report_worker))) (new_conn 7 CODEC_PROTOBUF)"
    using len(1) [of "next_seq report_worker"] by (simp add: reading_ok_def new_conn_def) (simp add: empty_cbuffer_def)
  have worker: "conn_of (m_iManagerControlFd report_worker, 1) report_worker = Some (new_conn 1 CODEC_PROTOBUF)"
      "map_ok (m_mapFdAttr report_worker)" "counters_fit report_worker"
    by (simp_all add: report_worker_def Init_worker_def conn_of_def new_conn_def map_ok_def counters_fit_def in32_def)
  have buff: "wf_cbuffer (pSendBuff (new_conn 1 CODEC_PROTOBUF))"
      "m_write_idx (pSendBuff (new_conn 1 CODEC_PROTOBUF)) + length (frame_for example_env CMD_REQ_UPDATE_WORKER_LOAD (next_seq report_worker)
         (report (g_fp report_menv) report_worker)) < 2 ^ 31"
    using len(1) [of "next_seq report_worker"] by (simp_all add: new_conn_def e(2))
  have mgr: "conn_mgr (10, 7) report_mgr = Some (new_conn 7 CODEC_PROTOBUF)" "map_ok (M_mapFdAttr report_mgr)"
      "map_find (fst (10, 7 :: u32)) (M_mapWorkerFdPid report_mgr) = Some 100" "map_find 100 (M_mapWorker report_mgr) = Some (example_worker_attr 0 10)"
      "map_ok (M_mapWorker report_mgr)"
    by (simp_all add: report_mgr_def example_mgr_def conn_mgr_def map_ok_def new_conn_def)
  have msg: "short_body example_env (report (g_fp report_menv) report_worker)"
      "ser_body (w_pb example_env) (report (g_fp report_menv) report_worker) \<noteq> []"
      "g_recv report_menv (M_calls report_mgr) =
         Inr (frame_for example_env CMD_REQ_UPDATE_WORKER_LOAD (next_seq report_worker) (report (g_fp report_menv) report_worker))"
    using len(2) by (simp_all add: short_body_def e(2)) (simp_all add: report_menv_def report_def length_example_body flip: length_greater_0_conv)
  note known = worker_report_recorded [OF example_env_ok worker(1,2) buff e(1) mgr(1,2) bufs [folded e(2)] mgr(3-5) worker(3) msg]
  from known show ?thesis by (auto simp: e report_mgr_def example_mgr_def reported_def report_worker_def example_worker_attr_def new_worker_def)
qed

end
