(* ===== verification/Manager_Handover.thy ===== *)
theory Manager_Handover
  imports Manager_Read
begin

text \<open>
  The whole way of a new connection between two nodes: the worker that connects asks the manager of the other
  node for one of its workers, the manager answers, passes the descriptor to this worker and closes its own
  copy, and the two workers introduce themselves to each other.
\<close>

section \<open>The manager\<close>

lemma flush_all:
  assumes "map_find fd (M_mapFdAttr g) = Some c" "map_ok (M_mapFdAttr g)" "wf_cbuffer (pSendBuff c)" "contents (pSendBuff c) \<noteq> []"
    "length (contents (pSendBuff c)) < 2 ^ 31"
    "os_send (g_env e) (M_calls g) (length (contents (pSendBuff c))) = Inr (length (contents (pSendBuff c)))"
  shows "\<exists>b. flush_fd e fd g = Some (upd_mgr fd (\<lambda>c. c\<lparr>pSendBuff := b\<rparr>) ((next_call g)\<lparr>M_wire := M_wire g @ [((fd, ulSeq c), contents (pSendBuff c))]\<rparr>),
      int (length (contents (pSendBuff c))), None) \<and> wf_cbuffer b \<and> contents b = [] \<and> m_write_idx b = m_write_idx (pSendBuff c)"
proof -
  let ?b = "pSendBuff c" and ?n = "length (contents (pSendBuff c))"
  have r: "ReadableBytes ?b = ?n" using length_contents [OF assms(3)] by simp
  have sz: "int_of_size ?n \<noteq> 0" using assms(4,5) by simp
  have "m_read_idx ?b + ?n = m_write_idx ?b" using length_contents [OF assms(3)] assms(3) by (simp add: wf_cbuffer_def)
  moreover have "m_write_idx ?b < 2 ^ 64" using assms(3) by (simp add: wf_cbuffer_def)
  ultimately have wr: "WriteFD (Inr ?n) ?b = (?b\<lparr>m_read_idx := m_write_idx ?b\<rparr>, int ?n, None)"
    using r sz by (simp add: WriteFD_def)
  have "wf_cbuffer (?b\<lparr>m_read_idx := m_write_idx ?b\<rparr>)" using assms(3) by (auto simp: wf_cbuffer_def split: option.splits)
  moreover have "contents (?b\<lparr>m_read_idx := m_write_idx ?b\<rparr>) = []" by (simp add: contents_def split: option.split)
  ultimately show ?thesis
    using assms(1,4,6) r sz wr by (intro exI [of _ "?b\<lparr>m_read_idx := m_write_idx ?b\<rparr>"]) (simp add: flush_fd_def Let_def ToString_spec [OF assms(3)] next_call_def)
qed

text \<open>A connection that a manager serves: it was accepted from another node, nothing has arrived and nothing
  was sent yet, and there is room for \<open>n\<close> bytes to arrive and \<open>m\<close> to be sent.\<close>

definition serving :: "nat \<Rightarrow> nat \<Rightarrow> msg_shell \<Rightarrow> conn \<Rightarrow> 'd manager \<Rightarrow> bool" where
  "serving n m sh c g \<longleftrightarrow> conn_mgr sh g = Some c \<and> map_ok (M_mapFdAttr g) \<and> reading_ok n c \<and> contents (pSendBuff c) = [] \<and>
     m_write_idx (pSendBuff c) + m < 2 ^ 31 \<and> pIoWatcher c \<noteq> None \<and> map_find (fst sh) (M_mapWorkerFdPid g) = None \<and>
     map_find (strIdentify c) (M_mapCenterMsgShell g) = None"

definition ok_answer :: "'d menv \<Rightarrow> msg_body" where
  "ok_answer e = plain_body (ser_ordinary (g_sys e) 0 ''OK'')"

abbreviation answer_frame :: "'d menv \<Rightarrow> u32 \<Rightarrow> byte list" where
  "answer_frame e sq \<equiv> frame_for (g_env e) CMD_RSP_CONNECT_TO_WORKER sq (ok_answer e)"

lemma write_back_answer:
  assumes "proto_env (g_env e)" "map_find fd (M_mapFdAttr g) = Some c" "map_ok (M_mapFdAttr g)" "wf_cbuffer (pSendBuff c)"
    "contents (pSendBuff c) = []" "m_write_idx (pSendBuff c) + length (frame (w_pb (g_env e)) m) < 2 ^ 31"
    "os_send (g_env e) (M_calls g) (length (frame (w_pb (g_env e)) m)) = Inr (length (frame (w_pb (g_env e)) m))"
  shows "\<exists>g' b. write_back e fd m g = Some g' \<and> M_wire g' = M_wire g @ [((fd, ulSeq c), frame (w_pb (g_env e)) m)] \<and>
    map_find fd (M_mapFdAttr g') = Some (c\<lparr>pSendBuff := b\<rparr>) \<and>
    map_ok (M_mapFdAttr g') \<and> wf_cbuffer b \<and> m_write_idx b < 2 ^ 32 \<and> M_calls g' = Suc (M_calls g) \<and> M_closed g' = M_closed g \<and>
    M_mapCenterMsgShell g' = M_mapCenterMsgShell g \<and> mgr_core g' = mgr_core g"
proof -
  let ?env = "g_env e" and ?f = "frame (w_pb (g_env e)) m"
  let ?hs = "ser_head (w_pb ?env) (fst m)" and ?bs = "ser_body (w_pb ?env) (snd m)"
  note pe = proto_envD [OF assms(1)]
  have hl: "length ?hs = 15" using pe(1) by (simp add: pb_ok_def)
  then have fl: "length ?f = length ?hs + length ?bs" "?f \<noteq> []" "length ?hs = 15" by (auto simp: frame_def)
  obtain b1 where b1: "Write (w_malloc ?env) ?hs (pSendBuff c) = Some (b1, int (length ?hs))" "wf_cbuffer b1"
      "m_write_idx b1 \<le> m_write_idx (pSendBuff c) + length ?hs" "contents b1 = ?hs"
    using Write_spec [OF assms(4) pe(2), of ?hs] assms(5,6) fl(1) pe(3) by (force simp: room_def)
  obtain b2 where b2: "Write (w_malloc ?env) ?bs b1 = Some (b2, int (length ?bs))" "wf_cbuffer b2"
      "m_write_idx b2 \<le> m_write_idx b1 + length ?bs" "contents b2 = ?f"
    using Write_spec [OF b1(2) pe(2), of ?bs] b1(3,4) assms(6) fl(1) pe(3) by (force simp: room_def frame_def)
  define h where "h = upd_mgr fd (\<lambda>c. c\<lparr>pSendBuff := b2\<rparr>) g"
  have h: "map_find fd (M_mapFdAttr h) = Some (c\<lparr>pSendBuff := b2\<rparr>)" "map_ok (M_mapFdAttr h)" "M_calls h = M_calls g"
    using assms(2,3) by (simp_all add: h_def)
  obtain b where b: "flush_fd e fd h = Some (upd_mgr fd (\<lambda>c. c\<lparr>pSendBuff := b\<rparr>) ((next_call h)\<lparr>M_wire := M_wire h @ [((fd, ulSeq c), ?f)]\<rparr>), int (length ?f), None)"
      "wf_cbuffer b" "m_write_idx b = m_write_idx b2"
    using flush_all [OF h(1,2), of e] b2(2,4) fl(2) assms(6,7) h(3) by auto
  let ?g = "upd_mgr fd (\<lambda>c. c\<lparr>pSendBuff := b\<rparr>) ((next_call h)\<lparr>M_wire := M_wire h @ [((fd, ulSeq c), ?f)]\<rparr>)"
  have "write_back e fd m g = Some ?g"
    using b(1) b1(1) b2(1) assms(2) by (simp add: write_back_def h_def)
  moreover have "map_find fd (M_mapFdAttr ?g) = Some (c\<lparr>pSendBuff := b\<rparr>)" "map_ok (M_mapFdAttr ?g)"
    using h by (simp_all add: next_call_def)
  moreover have "mgr_core ?g = mgr_core g" by (simp add: h_def)
  moreover have "m_write_idx b < 2 ^ 32" using b(3) b2(3) b1(3) assms(6) fl(1) by simp
  ultimately show ?thesis using b(2) h by (intro exI [of _ ?g] exI [of _ b]) (simp add: next_call_def h_def)
qed

lemma handed_over:
  assumes "proto_env (g_env e)" "sys_pb_ok (g_sys e)" "serving n (length (answer_frame e (h_seq head))) sh c g" "length (frame (w_pb (g_env e)) (head, body)) \<le> n"
    "sendable (w_pb (g_env e)) (head, body)" "ser_body (w_pb (g_env e)) body \<noteq> []" "h_cmd head = CMD_REQ_CONNECT_TO_WORKER"
    "b_body body = ser_connect (g_sys e) index" "worker_with_index index g = Some a"
    "g_recv e (M_calls g) = Inr (frame (w_pb (g_env e)) (head, body))"
    "os_send (g_env e) (Suc (M_calls g)) (length (answer_frame e (h_seq head))) = Inr (length (answer_frame e (h_seq head)))"
    "g_pass e (Suc (Suc (M_calls g))) = 0"
  shows "\<exists>g'. RecvDataAndDispose_mgr e sh g = Some (g', False) \<and> M_wire g' = M_wire g @ [(sh, answer_frame e (h_seq head))] \<and>
    M_passed g' = M_passed g @ [(iDataFd a, fst sh, ''0.0.0.0'', CODEC_PROTOBUF)] \<and> M_closed g' = M_closed g @ [fst sh] \<and>
    map_find (fst sh) (M_mapFdAttr g') = None \<and> M_mapWorker g' = M_mapWorker g"
proof -
  let ?env = "g_env e" and ?f = "frame (w_pb (g_env e)) (head, body)" and ?fd = "fst sh"
  note pe = proto_envD [OF assms(1)] and sv = assms(3) [unfolded serving_def] 
  have ro: "wf_cbuffer (pRecvBuff c)" "contents (pRecvBuff c) = []" "m_buffer_len (pRecvBuff c) + n < 2 ^ 31" "wf_cbuffer (pSendBuff c)"
    using sv by (simp_all add: reading_ok_def)
  have c: "map_find ?fd (M_mapFdAttr g) = Some c" "ulSeq c = snd sh" using sv by (simp_all add: conn_mgr_find)
  obtain b where b: "ReadFD (w_malloc ?env) (Inr ?f) (pRecvBuff c) = Some (b, int (length ?f), None)" "wf_cbuffer b"
      "contents b = ?f" "m_write_idx b \<le> m_buffer_len (pRecvBuff c) + length ?f"
    using ReadFD_spec [OF ro(1) pe(2,3), of ?f] ro(2,3) assms(4) by auto
  let ?c = "c\<lparr>pRecvBuff := b\<rparr>"
  define h where "h = upd_mgr ?fd (\<lambda>c. c\<lparr>pRecvBuff := b\<rparr>) (next_call g)"
  have h: "map_find ?fd (M_mapFdAttr h) = Some ?c" "map_ok (M_mapFdAttr h)" "M_calls h = Suc (M_calls g)" "M_wire h = M_wire g"
      "M_closed h = M_closed g" "M_mapCenterMsgShell h = M_mapCenterMsgShell g" "M_mapWorkerFdPid h = M_mapWorkerFdPid g" "mgr_core h = mgr_core g"
      "worker_with_index index h = Some a"
    using c(1) sv assms(9) by (simp_all add: h_def next_call_def worker_with_index_def)
  have len: "0 < length ?f" "length ?f < 2 ^ 31" using pe(1) ro(3) assms(4) by (simp_all add: frame_def pb_ok_def)
  have start: "RecvDataAndDispose_mgr e sh g = message_loop e sh None h"
    using c b(1) len(1) assms(10) by (simp add: RecvDataAndDispose_mgr_def h_def Let_def)
  let ?answer = "ordinary e head 0 ''OK''"
  have ans: "frame (w_pb ?env) ?answer = answer_frame e (h_seq head)"
    using assms(7) by (simp add: ordinary_def ok_answer_def Let_def CMD_REQ_CONNECT_TO_WORKER_def CMD_RSP_CONNECT_TO_WORKER_def)
  obtain g1 b1 where g1: "write_back e ?fd ?answer h = Some g1" "M_wire g1 = M_wire h @ [((?fd, ulSeq ?c), answer_frame e (h_seq head))]"
      "map_find ?fd (M_mapFdAttr g1) = Some (?c\<lparr>pSendBuff := b1\<rparr>)" "map_ok (M_mapFdAttr g1)" "wf_cbuffer b1" "m_write_idx b1 < 2 ^ 32"
      "M_calls g1 = Suc (M_calls h)" "M_closed g1 = M_closed h" "M_mapCenterMsgShell g1 = M_mapCenterMsgShell h" "mgr_core g1 = mgr_core h"
    using write_back_answer [OF assms(1) h(1,2), of ?answer] sv ro(4) assms(11) h(3) unfolding ans by auto
  let ?g2 = "(next_call g1)\<lparr>M_passed := M_passed (next_call g1) @ [(iDataFd a, ?fd, ''0.0.0.0'', CODEC_PROTOBUF)]\<rparr>"
  have disp: "Dispose_mgr e sh ?c head body h = Some (?g2, False)"
    using sv h(3,6,7,9) g1(1,7) assms(2,7,8,12)
    by (simp add: Dispose_mgr_def DisposeDataAndTransferFd_def sys_pb_ok_def Let_def)
  have g2: "conn_mgr sh ?g2 = Some (?c\<lparr>pSendBuff := b1\<rparr>)" "map_ok (M_mapFdAttr ?g2)"
    using g1(3,4) c(2) by (simp_all add: conn_mgr_find next_call_def)
  have "length (contents (pRecvBuff (?c\<lparr>pSendBuff := b1\<rparr>))) = length ?f" using b(3) by simp
  then obtain g3 c3 where g3: "after_dispose e sh (length ?f) ?g2 = Some g3" "conn_mgr sh g3 = Some c3" "mgr_core g3 = mgr_core ?g2"
      "M_wire g3 = M_wire ?g2" "M_closed g3 = M_closed ?g2" "map_ok (M_mapFdAttr g3)" "pIoWatcher c3 = pIoWatcher c"
      "strIdentify c3 = strIdentify c" "M_mapCenterMsgShell g3 = M_mapCenterMsgShell ?g2"
    using after_dispose_ok [OF g2, of "length ?f" e] b(2,4) g1(5,6) len(2) ro(3) assms(4) by auto
  have c3: "map_find ?fd (M_mapFdAttr g3) = Some c3" "pIoWatcher c3 \<noteq> None" "map_find (strIdentify c3) (M_mapCenterMsgShell g3) = None"
    using g3(2,7-9) sv g1(9) h(6) by (simp_all add: conn_mgr_find next_call_def)
  let ?g4 = "g3\<lparr>M_closed := M_closed g3 @ [?fd], M_mapFdAttr := map_erase ?fd (M_mapFdAttr g3)\<rparr>"
  have "DestroyConnect_mgr ?fd g3 = Some (?g4, True)" using c3 by (simp add: DestroyConnect_mgr_def)
  moreover have "length (contents b) < 2 ^ 31" using b(3) len(2) by simp
  ultimately have "RecvDataAndDispose_mgr e sh g = Some (?g4, False)"
    unfolding start
    using message_round [of e sh h ?c head body "[]" None] h(1) b(2,3) pe(1) assms(5,6) disp g3(1) by simp
  moreover have "M_passed g3 = M_passed g @ [(iDataFd a, ?fd, ''0.0.0.0'', CODEC_PROTOBUF)]" "M_mapWorker g3 = M_mapWorker g"
    using mgr_coreD [OF g3(3)] mgr_coreD [OF g1(10)] mgr_coreD [OF h(8)] by (simp_all add: next_call_def)
  moreover have "M_wire g3 = M_wire g @ [(sh, answer_frame e (h_seq head))]" "M_closed g3 = M_closed g"
    using g3(4,5) g1(2,8) h(4,5) c(2) by (simp_all add: next_call_def)
  ultimately show ?thesis using g3(6) by (intro exI [of _ ?g4]) (simp add: map_find_erase)
qed

section \<open>The worker that gets the descriptor\<close>

lemma FdTransfer_linked:
  assumes "malloc_total (w_malloc env)" "map_find fd (m_mapFdAttr w) = None" "map_ok (m_mapFdAttr w)" "n < 2 ^ 31"
  shows "\<exists>w' c. FdTransfer env fd ''0.0.0.0'' CODEC_PROTOBUF w = Some (w', True) \<and> linked n (fd, next_seq w) c w' \<and>
    core w' = core (w\<lparr>m_ulSequence := next_seq w\<rparr>) \<and> contents (pSendBuff c) = [] \<and> m_wire w' = m_wire w"
proof -
  let ?c = "watch True False ((new_conn (next_seq w) CODEC_PROTOBUF)\<lparr>pRemoteAddr := Some ''0.0.0.0'', pTimeWatcher := True\<rparr>)"
  obtain r where r: "w_malloc env 32 = Some r" using assms(1) by (force simp: malloc_total_def)
  define v where "v = w\<lparr>m_ulSequence := next_seq w, m_mapFdAttr := map_put fd (new_conn (next_seq w) CODEC_PROTOBUF) (m_mapFdAttr w)\<rparr>"
  have v: "CreateFdAttr env fd (next_seq w) CODEC_PROTOBUF (fst (GetSequence_worker w)) = (v, True)"
    using assms(2) r by (simp add: CreateFdAttr_def v_def GetSequence_worker_def Let_def)
  have fd: "map_find fd (m_mapFdAttr v) = Some (new_conn (next_seq w) CODEC_PROTOBUF)" "map_ok (m_mapFdAttr v)"
    using assms(3) by (simp_all add: v_def map_find_put map_put_ok)
  define w' where "w' = upd_conn fd (watch True False) (upd_conn fd (\<lambda>c. c\<lparr>pTimeWatcher := True\<rparr>)
    (upd_conn fd (\<lambda>c. c\<lparr>pRemoteAddr := Some (snprintf 32 (c_str ''0.0.0.0''))\<rparr>) v))"
  have "FdTransfer env fd ''0.0.0.0'' CODEC_PROTOBUF w = Some (w', True)"
    using v by (simp add: FdTransfer_def w'_def AddIoTimeout_def AddIoReadEvent_def c_str_def case_prod_beta)
  moreover have "linked n (fd, next_seq w) ?c w'"
    using fd assms(4)
    by (simp add: linked_def w'_def conn_of_find c_str_def snprintf_def line_ok_def watch_def new_conn_def)
  moreover have "core w' = core v" unfolding w'_def by (rule core_io_view) simp
  moreover have "core v = core (w\<lparr>m_ulSequence := next_seq w\<rparr>)" by (simp add: v_def core_def route_view_def)
  moreover have "m_wire w' = m_wire w" by (simp add: w'_def v_def)
  ultimately show ?thesis by (intro exI [of _ w'] exI [of _ ?c]) (simp add: watch_def new_conn_def)
qed

lemma FdTransfer_accepting:
  assumes "malloc_total (w_malloc (c_env b))" "map_find fd (m_mapFdAttr w) = None" "map_ok (m_mapFdAttr w)" "map_ok (m_mapMsgShell w)"
    "routing_ok w" "short_body (c_env b) (tell_body b 65535 w)"
    "m + length (frame_for (c_env b) CMD_RSP_TELL_WORKER sq (tell_body b 65535 w)) < 2 ^ 31"
  shows "\<exists>w' c. FdTransfer (c_env b) fd ''0.0.0.0'' CODEC_PROTOBUF w = Some (w', True) \<and> accepting b m (fd, next_seq w) sq c w' \<and>
    own_identify 65535 w' = own_identify 65535 w \<and> m_strNodeType w' = m_strNodeType w \<and> m_mapMsgShell w' = m_mapMsgShell w \<and>
    route_of w' = route_of w \<and> transmitted (fd, next_seq w) w' c = wire_of (fd, next_seq w) w"
proof -
  obtain w' c where w': "FdTransfer (c_env b) fd ''0.0.0.0'' CODEC_PROTOBUF w = Some (w', True)"
      "linked (m + length (frame_for (c_env b) CMD_RSP_TELL_WORKER sq (tell_body b 65535 w))) (fd, next_seq w) c w'"
      "core w' = core (w\<lparr>m_ulSequence := next_seq w\<rparr>)" "contents (pSendBuff c) = []" "m_wire w' = m_wire w"
    using FdTransfer_linked [OF assms(1-3,7)] by blast
  note core = coreD [OF w'(3)] core_parts [OF w'(3)]
  have route: "routing_ok w' = routing_ok w" "route_of w' = route_of w"
    using route_viewD(1,5) [of w' w] core(4) by (simp_all add: route_view_def)
  moreover have "own_identify 65535 w' = own_identify 65535 w" using core(6) [of 65535] by (simp add: own_identify_def)
  ultimately show ?thesis
    using w' core(1,7) assms(4-6) by (auto simp: accepting_def transmitted_def wire_of_def)
qed

section \<open>Property\<close>

text \<open>C1: A connection between two nodes comes about: the worker that connected writes its request for the worker
  with an index, and the manager that serves the connection answers, passes the descriptor to exactly the worker
  with this index and closes its own copy; this worker takes the descriptor over, and the two workers tell each
  other their names. Then the connecting worker sends the messages that waited, in order and completely;
  nothing waits any more, the connection counts as set up on both sides, each worker finds the other by
  name, and its type is in the routing table.\<close>

theorem connection_through_manager:
  assumes "proto_env (c_env a)" "proto_env (c_env b)" "proto_env (g_env e)" "sys_pb_ok (c_sys a)" "c_sys b = c_sys a"
    "g_sys e = c_sys a" "w_pb (g_env e) = w_pb (c_env a)"
    "connecting a n sha index ca wa" "ser_body (w_pb (c_env a)) (connect_body a index) \<noteq> []"
    "serving k (length (answer_frame e (next_seq wa))) sh c g" "length (connect_frame a (next_seq wa) index) \<le> k"
    "worker_with_index index g = Some at" "g_recv e (M_calls g) = Inr (connect_frame a (next_seq wa) index)"
    "os_send (g_env e) (Suc (M_calls g)) (length (answer_frame e (next_seq wa))) = Inr (length (answer_frame e (next_seq wa)))"
    "g_pass e (Suc (Suc (M_calls g))) = 0"
    "map_find fdb (m_mapFdAttr wb) = None" "map_ok (m_mapFdAttr wb)" "map_ok (m_mapMsgShell wb)" "routing_ok wb"
    "short_body (c_env b) (tell_body b 65535 wb)"
    "m + length (frame_for (c_env b) CMD_RSP_TELL_WORKER (second_seq wa) (tell_body b 65535 wb)) < 2 ^ 31"
    "free_name (own_identify 65535 wb) sha wa" "free_name (own_identify 64 wa) (fdb, next_seq wb) wb"
  shows "\<exists>wa1 wa2 wa3 g' wb0 wb1 ca3 cb1. IoWrite a sha wa = Some (wa1, True) \<and>
    RecvDataAndDispose_mgr e sh g = Some (g', False) \<and> M_wire g' = M_wire g @ [(sh, answer_frame e (next_seq wa))] \<and>
    M_passed g' = M_passed g @ [(iDataFd at, fst sh, ''0.0.0.0'', CODEC_PROTOBUF)] \<and> M_closed g' = M_closed g @ [fst sh] \<and>
    FdTransfer (c_env b) fdb ''0.0.0.0'' CODEC_PROTOBUF wb = Some (wb0, True) \<and>
    receive a sha q1 (head_for (g_env e) CMD_RSP_CONNECT_TO_WORKER (next_seq wa) (ok_answer e)) (ok_answer e) wa1 = Some (wa2, None) \<and>
    receive b (fdb, next_seq wb) q2 (head_for (c_env a) CMD_REQ_TELL_WORKER (second_seq wa) (tell_body a 64 wa)) (tell_body a 64 wa) wb0 =
      Some (wb1, None) \<and>
    receive a sha q3 (head_for (c_env b) CMD_RSP_TELL_WORKER (second_seq wa) (tell_body b 65535 wb)) (tell_body b 65535 wb) wa2 = Some (wa3, None) \<and>
    transmitted sha wa3 ca3 = transmitted sha wa ca @ connect_frame a (next_seq wa) index @
      frame_for (c_env a) CMD_REQ_TELL_WORKER (second_seq wa) (tell_body a 64 wa) @ contents (pWaitForSendBuff ca) \<and>
    transmitted (fdb, next_seq wb) wb1 cb1 =
      wire_of (fdb, next_seq wb) wb @ frame_for (c_env b) CMD_RSP_TELL_WORKER (second_seq wa) (tell_body b 65535 wb) \<and>
    linked n sha ca3 wa3 \<and> linked m (fdb, next_seq wb) cb1 wb1 \<and> set_up ca3 \<and> set_up cb1 \<and> contents (pWaitForSendBuff ca3) = [] \<and>
    knows (own_identify 65535 wb) sha (m_strNodeType wb) wa wa3 \<and> knows (own_identify 64 wa) (fdb, next_seq wb) (m_strNodeType wa) wb wb1"
proof -
  let ?head = "head_for (c_env a) CMD_REQ_CONNECT_TO_WORKER (next_seq wa) (connect_body a index)"
  have head: "h_seq ?head = next_seq wa" "h_cmd ?head = CMD_REQ_CONNECT_TO_WORKER" by (simp_all add: head_for_def)
  have msg: "sendable (w_pb (g_env e)) (?head, connect_body a index)" "b_body (connect_body a index) = ser_connect (g_sys e) index"
      "sys_pb_ok (g_sys e)" "ser_body (w_pb (g_env e)) (connect_body a index) \<noteq> []"
    using assms(4,6-9) sendable_head_for by (simp_all add: connecting_def connect_body_def plain_body_def)
  obtain g' where g': "RecvDataAndDispose_mgr e sh g = Some (g', False)" "M_wire g' = M_wire g @ [(sh, answer_frame e (next_seq wa))]"
      "M_passed g' = M_passed g @ [(iDataFd at, fst sh, ''0.0.0.0'', CODEC_PROTOBUF)]" "M_closed g' = M_closed g @ [fst sh]"
    using handed_over [OF assms(3) msg(3) _ _ msg(1,4) head(2) msg(2) assms(12)] assms(10,11,13-15) unfolding head(1) assms(7) by blast
  obtain wb0 cb where wb0: "FdTransfer (c_env b) fdb ''0.0.0.0'' CODEC_PROTOBUF wb = Some (wb0, True)"
      "accepting b m (fdb, next_seq wb) (second_seq wa) cb wb0" "own_identify 65535 wb0 = own_identify 65535 wb"
      "m_strNodeType wb0 = m_strNodeType wb" "m_mapMsgShell wb0 = m_mapMsgShell wb" "route_of wb0 = route_of wb"
      "transmitted (fdb, next_seq wb) wb0 cb = wire_of (fdb, next_seq wb) wb"
    using FdTransfer_accepting [OF proto_envD(3) [OF assms(2)] assms(16-21)] by blast
  have same: "tell_body b 65535 wb0 = tell_body b 65535 wb" using wb0(3,4) by simp
  have ok: "ok_answer e = ok_body a" by (simp add: ok_answer_def ok_body_def assms(6))
  have free: "free_name (own_identify 65535 wb0) sha wa" "free_name (own_identify 64 wa) (fdb, next_seq wb) wb0"
    using assms(22,23) wb0(3,5) by (simp_all add: free_name_def GetMsgShell_def)
  show ?thesis
    using connection_setup [OF assms(1,2,4,5,8) wb0(2) free, of q1 "g_env e" q2 q3] g' wb0(1)
    unfolding same ok wb0(3,4,7) knows_cong [OF wb0(6)] by blast
qed

definition handover_mgr :: "int manager" where
  "handover_mgr = example_mgr\<lparr>M_mapFdAttr := [(30, watch True False (new_conn 7 CODEC_PROTOBUF))],
     M_mapWorker := [(100, example_worker_attr 0 10), (101, example_worker_attr 2 20)]\<rparr>"

definition handover_menv :: "int menv" where
  "handover_menv = example_menv\<lparr>g_recv := (\<lambda>_. Inr (connect_frame example_code (next_seq setup_a) 2))\<rparr>"

definition handover_b :: "unit wk" where
  "handover_b = setup_b\<lparr>m_mapFdAttr := []\<rparr>"

lemma handover_facts:
  "serving 100 (length (answer_frame handover_menv (next_seq setup_a))) (30, 7) (watch True False (new_conn 7 CODEC_PROTOBUF)) handover_mgr"
  "length (connect_frame example_code (next_seq setup_a) 2) \<le> 100"
  "ser_body (w_pb (c_env example_code)) (connect_body example_code 2) \<noteq> []"
proof -
  have env: "g_env handover_menv = example_env" "g_sys handover_menv = example_sys" by (simp_all add: handover_menv_def example_menv_def)
  have "length (ser_ordinary example_sys 0 ''OK'') < 100" "length (ser_connect example_sys 2) < 20"
    by (simp_all add: example_sys_def enc_int_def enc_list_def ascii_def)
  then show "serving 100 (length (answer_frame handover_menv (next_seq setup_a))) (30, 7) (watch True False (new_conn 7 CODEC_PROTOBUF)) handover_mgr"
      "length (connect_frame example_code (next_seq setup_a) 2) \<le> 100"
      "ser_body (w_pb (c_env example_code)) (connect_body example_code 2) \<noteq> []"
    by (simp_all add: serving_def reading_ok_def ok_answer_def connect_body_def env length_example_frame length_example_body
        handover_mgr_def example_mgr_def conn_mgr_def map_ok_def watch_def new_conn_def empty_cbuffer_def wf_cbuffer_def contents_def flip: length_greater_0_conv)
qed

theorem connection_through_manager_witness:
  "\<exists>wa3 wb0 wb1 ca3 g'. RecvDataAndDispose_mgr handover_menv (30, 7) handover_mgr = Some (g', False) \<and>
    M_passed g' = [(21, 30, ''0.0.0.0'', CODEC_PROTOBUF)] \<and> M_closed g' = [30] \<and>
    FdTransfer example_env 8 ''0.0.0.0'' CODEC_PROTOBUF handover_b = Some (wb0, True) \<and>
    contents (pWaitForSendBuff ca3) = [] \<and> linked 0 (7, 1) ca3 (wa3 :: unit wk) \<and>
    GetMsgShell ''b:9000.2'' wa3 = Some (7, 1) \<and> GetMsgShell ''a:9001.0'' (wb1 :: unit wk) = Some (8, next_seq handover_b)"
proof -
  have env: "g_env handover_menv = example_env" "g_sys handover_menv = example_sys" by (simp_all add: handover_menv_def example_menv_def)
  have names: "own_identify 65535 handover_b = ''b:9000.2''" "m_strNodeType handover_b = ''LOGIC''"
    using setup_names by (simp_all add: handover_b_def own_identify_def)
  have envs: "proto_env (c_env example_code)" "proto_env (g_env handover_menv)" "sys_pb_ok (c_sys example_code)"
      "g_sys handover_menv = c_sys example_code" "w_pb (g_env handover_menv) = w_pb (c_env example_code)"
    by (simp_all add: example_env_ok example_sys_ok env)
  have mgr: "worker_with_index 2 handover_mgr = Some (example_worker_attr 2 20)"
      "g_recv handover_menv (M_calls handover_mgr) = Inr (connect_frame example_code (next_seq setup_a) 2)"
      "os_send (g_env handover_menv) (Suc (M_calls handover_mgr)) n = Inr n" "g_pass handover_menv (Suc (Suc (M_calls handover_mgr))) = 0" for n
    by (simp_all add: worker_with_index_def handover_mgr_def example_mgr_def example_worker_attr_def new_worker_def handover_menv_def
        example_menv_def example_env_def)
  have wb: "map_find 8 (m_mapFdAttr handover_b) = None" "map_ok (m_mapFdAttr handover_b)" "map_ok (m_mapMsgShell handover_b)"
      "routing_ok handover_b"
    using setup_facts(2) by (simp_all add: handover_b_def accepting_def routing_ok_def route_of_def workers_def turn_def map_ok_def)
  have room: "short_body (c_env example_code) (tell_body example_code 65535 handover_b)"
      "0 + length (frame_for (c_env example_code) CMD_RSP_TELL_WORKER (second_seq setup_a) (tell_body example_code 65535 handover_b)) < 2 ^ 31"
    by (simp_all add: names target_body_def short_body_def length_example_body length_example_frame length_target)
  have free: "free_name (own_identify 65535 handover_b) (7, 1) setup_a" "free_name (own_identify 64 setup_a) (8, next_seq handover_b) handover_b"
    by (simp_all add: free_name_def GetMsgShell_def setup_a_def handover_b_def setup_b_def Init_worker_def)
  note all = connection_through_manager [OF envs(1,1,2,3) refl envs(4,5) setup_facts(1) handover_facts(3,1,2) mgr wb room free,
      of empty_cbuffer empty_cbuffer empty_cbuffer]
  have "M_passed handover_mgr = []" "M_closed handover_mgr = []" by (simp_all add: handover_mgr_def example_mgr_def)
  moreover have "iDataFd (example_worker_attr 2 20) = 21" by (simp add: example_worker_attr_def new_worker_def)
  ultimately show ?thesis
    using all unfolding names setup_names knows_def by (simp only: append_Nil fst_conv) (elim exE conjE, intro exI conjI; (assumption | simp))
qed

end
