(* ===== verification/Hash_Calc.thy ===== *)
theory Hash_Calc
  imports Rc5
begin

text \<open>
  The hash functions of \<open>loss/src/util/HashCalc.cpp\<close> and \<open>DataProxy/src/SessionRedisNode.cpp\<close>, which place
  keys on the ring of storage nodes. A key is its bytes; a character is signed, so a byte is sign-extended.
\<close>

section \<open>FNV\<close>

text \<open>The two constants have the values of each other's names.\<close>

definition FNV_64_INIT :: u64 where "FNV_64_INIT = 0x100000001b3"
definition FNV_64_PRIME :: u64 where "FNV_64_PRIME = 0xcbf29ce484222325"

definition fnv1_step :: "u64 \<Rightarrow> byte \<Rightarrow> u64" where
  "fnv1_step hash c = (hash * FNV_64_PRIME) XOR scast c"

definition hash_fnv1_64 :: "byte list \<Rightarrow> u32" where
  "hash_fnv1_64 key = ucast (foldl fnv1_step FNV_64_INIT key)"

definition fnv1a_step :: "u32 \<Rightarrow> byte \<Rightarrow> u32" where
  "fnv1a_step hash c = (hash XOR scast c) * ucast FNV_64_PRIME"

definition hash_fnv1a_64 :: "byte list \<Rightarrow> u32" where
  "hash_fnv1a_64 key = foldl fnv1a_step (ucast FNV_64_INIT) key"

text \<open>The null pointer is a key of its own.\<close>

definition CalcKeyHash :: "byte list option \<Rightarrow> u32" where
  "CalcKeyHash key = (case key of None \<Rightarrow> ucast FNV_64_INIT | Some key \<Rightarrow> foldl fnv1a_step (ucast FNV_64_INIT) key)"

definition CalcStringSum :: "byte list \<Rightarrow> u32" where
  "CalcStringSum key = foldl (\<lambda>h c. h + of_int \<bar>sint c\<bar>) 0 key"

section \<open>Murmur\<close>

definition ROT32 :: "u32 \<Rightarrow> nat \<Rightarrow> u32" where
  "ROT32 x y = push_bit y x OR drop_bit (32 - y) x"

definition scramble :: "u32 \<Rightarrow> u32" where
  "scramble k = ROT32 (k * 0xcc9e2d51) 15 * 0x1b873593"

definition mix_block :: "u32 \<Rightarrow> u32 \<Rightarrow> u32" where
  "mix_block hash k = ROT32 (hash XOR scramble k) 13 * 5 + 0xe6546b64"

text \<open>\<open>blocks[i]\<close> reads four bytes in the order of the machine, the lowest first.\<close>

fun murmur_blocks :: "nat \<Rightarrow> byte list \<Rightarrow> u32 \<Rightarrow> u32" where
  "murmur_blocks 0 key hash = hash"
| "murmur_blocks (Suc n) key hash =
     murmur_blocks n (drop 4 key) (mix_block hash (load_word (key ! 0) (key ! 1) (key ! 2) (key ! 3)))"

definition murmur_tail :: "byte list \<Rightarrow> u32 \<Rightarrow> u32" where
  "murmur_tail tail hash =
     (case length tail of
        Suc 0 \<Rightarrow> hash XOR scramble (ucast (tail ! 0))
      | Suc (Suc 0) \<Rightarrow> hash XOR scramble (push_bit 8 (ucast (tail ! 1)) XOR ucast (tail ! 0))
      | Suc (Suc (Suc 0)) \<Rightarrow>
          hash XOR scramble (push_bit 16 (ucast (tail ! 2)) XOR push_bit 8 (ucast (tail ! 1)) XOR ucast (tail ! 0))
      | _ \<Rightarrow> hash)"

definition murmur_final :: "u32 \<Rightarrow> u32" where
  "murmur_final hash =
     (let hash = (hash XOR drop_bit 16 hash) * 0x85ebca6b; hash = (hash XOR drop_bit 13 hash) * 0xc2b2ae35
      in hash XOR drop_bit 16 hash)"

definition murmur3_32 :: "byte list \<Rightarrow> u32 \<Rightarrow> u32 \<Rightarrow> u32" where
  "murmur3_32 key len seed =
     (let n = unat (len div 4); hash = murmur_blocks n key seed;
          hash = murmur_tail (take (unat (len AND 3)) (drop (4 * n) key)) hash
      in murmur_final (hash XOR len))"

text \<open>Known values.\<close>

lemma murmur_known: "murmur3_32 [] 0 0 = 0" "murmur3_32 [] 0 1 = 0x514E28B7"
  "murmur3_32 [0x74, 0x65, 0x73, 0x74] 4 0 = 0xba6bd213"
  by (simp_all add: murmur3_32_def murmur_tail_def murmur_final_def Let_def) code_simp+

section \<open>Steps that lose nothing\<close>

lemma mult_odd_inj:
  fixes a b c i :: "'a::len word"
  assumes "c * i = 1" "a * c = b * c"
  shows "a = b"
proof -
  have "a * c * i = b * c * i" using assms(2) by simp
  then show ?thesis using assms(1) by (simp add: mult.assoc)
qed

lemma xor_shift_inj:
  fixes a b :: "'a::len word"
  assumes "a XOR drop_bit n a = b XOR drop_bit n b" "0 < n"
  shows "a = b"
proof (rule bit_eqI)
  fix k
  show "bit a k = bit b k"
  proof (induction "LENGTH('a) - k" arbitrary: k rule: less_induct)
    case less
    have eq: "bit (a XOR drop_bit n a) k = bit (b XOR drop_bit n b) k" using assms(1) by simp
    show ?case
    proof (cases "k < LENGTH('a)")
      case True
      have "bit a (n + k) = bit b (n + k)"
      proof (cases "n + k < LENGTH('a)")
        case True
        with assms(2) show ?thesis by (intro less) auto
      qed (auto dest: bit_imp_le_length)
      then show ?thesis using eq by (auto simp: bit_xor_iff bit_drop_bit_eq)
    qed (auto dest: bit_imp_le_length)
  qed
qed

lemma ROT32_bit: "k < 32 \<Longrightarrow> y < 32 \<Longrightarrow> bit (ROT32 x y) ((k + y) mod 32) = bit x k"
  by (cases "k + y < 32") (auto simp: ROT32_def bit_or_iff bit_push_bit_iff bit_drop_bit_eq mod_if dest: bit_imp_le_length)

lemma ROT32_inj:
  assumes "ROT32 a y = ROT32 b y" "y < 32"
  shows "a = b"
proof (rule bit_eqI)
  fix k
  assume "possible_bit TYPE(u32) k"
  then have k: "k < 32" by simp
  have "bit (ROT32 a y) ((k + y) mod 32) = bit (ROT32 b y) ((k + y) mod 32)" using assms(1) by simp
  then show "bit a k = bit b k" unfolding ROT32_bit [OF k assms(2)] .
qed

lemma xor_cancel: "(a :: 'a::len word) XOR c = b XOR c \<longleftrightarrow> a = b"
  by (metis xor.assoc xor.right_neutral xor_self_eq)

lemma xor_cancel_left: "c XOR (a :: 'a::len word) = c XOR b \<longleftrightarrow> a = b"
  by (metis xor_cancel xor.commute)

lemma scramble_inj: "scramble a = scramble b \<longleftrightarrow> a = b"
proof
  assume "scramble a = scramble b"
  then have "ROT32 (a * 0xcc9e2d51) 15 * 0x1b873593 = ROT32 (b * 0xcc9e2d51) 15 * 0x1b873593" by (simp only: scramble_def)
  then have "ROT32 (a * 0xcc9e2d51) 15 = ROT32 (b * 0xcc9e2d51) 15"
    by (rule mult_odd_inj [where i = "0x56ed309b", rotated]) simp
  then have "a * 0xcc9e2d51 = b * 0xcc9e2d51" by (rule ROT32_inj) simp
  then show "a = b" by (rule mult_odd_inj [where i = "0xdee13bb1", rotated]) simp
qed simp

lemma mix_block_inj: "mix_block h a = mix_block h b \<longleftrightarrow> a = b"
proof
  assume "mix_block h a = mix_block h b"
  then have "ROT32 (h XOR scramble a) 13 * 5 = ROT32 (h XOR scramble b) 13 * 5" by (simp add: mix_block_def)
  then have "ROT32 (h XOR scramble a) 13 = ROT32 (h XOR scramble b) 13"
    by (rule mult_odd_inj [where i = "0xcccccccd", rotated]) simp
  then have "h XOR scramble a = h XOR scramble b" by (rule ROT32_inj) simp
  then show "a = b" by (simp add: xor_cancel_left scramble_inj)
qed simp

lemma murmur_final_inj: "murmur_final a = murmur_final b \<longleftrightarrow> a = b"
proof
  assume eq: "murmur_final a = murmur_final b"
  let ?f = "\<lambda>h :: u32. (h XOR drop_bit 16 h) * 0x85ebca6b" and ?g = "\<lambda>h :: u32. (h XOR drop_bit 13 h) * 0xc2b2ae35"
  have f: "x = y" if "?f x = ?f y" for x y
    by (rule xor_shift_inj [OF mult_odd_inj [OF _ that, where i = "0xa5cb9243"]]) simp_all
  have g: "x = y" if "?g x = ?g y" for x y
    by (rule xor_shift_inj [OF mult_odd_inj [OF _ that, where i = "0x7ed1b41d"]]) simp_all
  have "?g (?f a) = ?g (?f b)"
    using eq unfolding murmur_final_def Let_def by (rule xor_shift_inj) simp
  then show "a = b" by (rule f [OF g])
qed simp

lemma load_word_inj: "load_word a b c d = load_word a' b' c' d' \<longleftrightarrow> a = a' \<and> b = b' \<and> c = c' \<and> d = d'"
proof
  assume "load_word a b c d = load_word a' b' c' d'"
  then have "store_word (load_word a b c d) = store_word (load_word a' b' c' d')" by simp
  then show "a = a' \<and> b = b' \<and> c = c' \<and> d = d'" by (simp add: store_load_word)
qed simp

lemma scast_byte_inj: "(scast a :: u32) = scast b \<longleftrightarrow> a = (b :: byte)"
proof
  assume "(scast a :: u32) = scast b"
  then have "(scast (scast a :: u32) :: byte) = scast (scast b :: u32)" by simp
  then show "a = b" by (simp add: scast_up_scast_id is_up)
qed simp

lemma low_prime: "(ucast FNV_64_PRIME :: u32) = 0x84222325" by (simp add: FNV_64_PRIME_def)

lemma fnv1a_inj: "foldl fnv1a_step g ys = foldl fnv1a_step h ys \<longleftrightarrow> g = h"
proof (induction ys arbitrary: g h)
  case (Cons y ys)
  have "g XOR scast y = h XOR scast y" if "fnv1a_step g y = fnv1a_step h y"
    using that unfolding fnv1a_step_def low_prime by (rule mult_odd_inj [where i = "0x150140ad", rotated]) simp
  with Cons show ?case by (auto simp: xor_cancel)
qed simp

lemma low_mult: "(ucast (a * b :: u64) :: u32) = ucast a * ucast b"
proof -
  have "a * b = of_int (uint a * uint b)" by simp
  moreover have "(ucast (of_int (uint a * uint b) :: u64) :: u32) = of_int (uint a * uint b)"
    by (rule ucast_down_wi) (simp add: is_down)
  ultimately have "(ucast (a * b) :: u32) = of_int (uint a * uint b)" by (simp only:)
  then show ?thesis by (simp only: ucast_eq of_int_mult)
qed

lemma low_scast: "(ucast (scast c :: u64) :: u32) = scast (c :: byte)"
proof -
  have "(ucast (of_int (sint c) :: u64) :: u32) = of_int (sint c)" by (rule ucast_down_wi) (simp add: is_down)
  then show ?thesis by (simp only: scast_eq)
qed

lemma low_step: "(ucast (fnv1_step h x) :: u32) = (ucast h * 0x84222325) XOR scast x"
  by (simp only: fnv1_step_def unsigned_xor_eq low_mult low_scast low_prime)

lemma low_fnv1: "(ucast (foldl fnv1_step h xs) :: u32) = foldl (\<lambda>h c. (h * 0x84222325) XOR scast c) (ucast h) xs"
  by (induction xs arbitrary: h) (simp_all only: foldl_Cons foldl_Nil low_step)

lemma fnv1_inj: "foldl (\<lambda>h c. (h * 0x84222325) XOR scast c) g ys = foldl (\<lambda>h c. (h * 0x84222325) XOR scast (c :: byte)) h ys \<longleftrightarrow> g = (h :: u32)"
proof (induction ys arbitrary: g h)
  case (Cons y ys)
  have "g = h" if "(g * 0x84222325) XOR scast y = (h * 0x84222325) XOR scast y"
    by (rule mult_odd_inj [where i = "0x150140ad", OF _ that [unfolded xor_cancel]]) simp
  with Cons show ?case by auto
qed simp

section \<open>Property\<close>

text \<open>Keys that differ in one character never get the same place on the ring under the two FNV functions, at whatever
  position and however long they are, and under Murmur keys of four characters never collide. So the
  functions lose nothing in a step, in spite of the confused constants and although the first one is computed in
  64 bits and then cut to 32.\<close>

theorem hash_tells_apart:
  "(hash_fnv1_64 (xs @ a # ys) = hash_fnv1_64 (xs @ b # ys) \<longleftrightarrow> a = b) \<and>
   (hash_fnv1a_64 (xs @ a # ys) = hash_fnv1a_64 (xs @ b # ys) \<longleftrightarrow> a = b) \<and>
   (murmur3_32 [c0, c1, c2, c3] 4 seed = murmur3_32 [d0, d1, d2, d3] 4 seed \<longleftrightarrow> [c0, c1, c2, c3] = [d0, d1, d2, d3])"
proof (intro conjI)
  show "hash_fnv1_64 (xs @ a # ys) = hash_fnv1_64 (xs @ b # ys) \<longleftrightarrow> a = b"
    by (simp only: hash_fnv1_64_def low_fnv1 low_step foldl_append foldl_Cons fnv1_inj xor_cancel_left scast_byte_inj)
  have "g XOR scast a = g XOR scast b" if "fnv1a_step g a = fnv1a_step g b" for g
    using that unfolding fnv1a_step_def low_prime by (rule mult_odd_inj [where i = "0x150140ad", rotated]) simp
  then show "hash_fnv1a_64 (xs @ a # ys) = hash_fnv1a_64 (xs @ b # ys) \<longleftrightarrow> a = b"
    by (auto simp: hash_fnv1a_64_def fnv1a_inj xor_cancel_left scast_byte_inj)
  show "murmur3_32 [c0, c1, c2, c3] 4 seed = murmur3_32 [d0, d1, d2, d3] 4 seed \<longleftrightarrow> [c0, c1, c2, c3] = [d0, d1, d2, d3]"
    by (simp add: murmur3_32_def Let_def murmur_tail_def murmur_final_inj xor_cancel mix_block_inj load_word_inj)
qed

end
