(* ===== verification/Redis_Ring.thy ===== *)
theory Redis_Ring
  imports Hash_Calc StdMap
begin

text \<open>
  The ring of storage nodes of the data proxy (\<open>DataProxy/src/SessionRedisNode.cpp\<close>): every node has points on
  the circle of 32-bit numbers, and a key belongs to the node of the first point at or after its hash.
\<close>

section \<open>State and operations\<close>

datatype hash_algorithm = HASH_fnv1a_64 | HASH_fnv1_64 | HASH_murmur3_32

record redis_attr =
  strMasterNodeIdentify :: string
  strSlaveNodeIdentify :: string
  vecHash :: "u32 list"

record redis_ring =
  m_iHashAlgorithm :: int
  m_iVirtualNodeNum :: int
  m_mapRedisNode :: "(string, redis_attr) stdmap"
  m_mapRedisNodeHash :: "(u32, string \<times> string) stdmap"

definition hash_code :: "hash_algorithm \<Rightarrow> int" where
  "hash_code a = (case a of HASH_fnv1a_64 \<Rightarrow> 0 | HASH_fnv1_64 \<Rightarrow> 1 | HASH_murmur3_32 \<Rightarrow> 2)"

definition key_hash :: "int \<Rightarrow> byte list \<Rightarrow> u32" where
  "key_hash alg key =
     (if alg = hash_code HASH_fnv1_64 then hash_fnv1_64 key
      else if alg = hash_code HASH_murmur3_32 then murmur3_32 key (of_nat (length key)) 0x1b3
      else hash_fnv1a_64 key)"

text \<open>The first entry at or after the hash, else the first one; with an empty ring the end of the map is
  dereferenced.\<close>

definition GetRedisNode :: "byte list \<Rightarrow> redis_ring \<Rightarrow> (bool \<times> string \<times> string) option" where
  "GetRedisNode key r =
     (case find (\<lambda>e. key_hash (m_iHashAlgorithm r) key \<le> fst e) (m_mapRedisNodeHash r) of
        Some e \<Rightarrow> Some (True, snd e)
      | None \<Rightarrow> (case m_mapRedisNodeHash r of [] \<Rightarrow> None | e # _ \<Rightarrow> Some (True, snd e)))"

text \<open>The points of a node: four from each digest, which is MD5 of the name of a virtual node in 31 characters.\<close>

definition virtual_name :: "string \<Rightarrow> nat \<Rightarrow> string" where
  "virtual_name ident i = snprintf 32 (c_str ident @ ''#'' @ fmt_d (int i))"

definition digest_points :: "byte list \<Rightarrow> u32 list" where
  "digest_points d =
     map (\<lambda>j. push_bit 24 (ucast (d ! (3 + j * 4))) OR push_bit 16 (ucast (d ! (2 + j * 4))) OR
              push_bit 8 (ucast (d ! (1 + j * 4))) OR ucast (d ! (j * 4))) [0..<4]"

definition node_points :: "(byte list \<Rightarrow> byte list) \<Rightarrow> int \<Rightarrow> string \<Rightarrow> u32 list" where
  "node_points md5 n ident =
     concat (map (\<lambda>i. digest_points (md5 (ascii (virtual_name ident i)))) [0..<nat (n div 4)])"

definition AddRedisNode :: "(byte list \<Rightarrow> byte list) \<Rightarrow> string \<Rightarrow> string \<Rightarrow> string \<Rightarrow> redis_ring \<Rightarrow> redis_ring" where
  "AddRedisNode md5 ident master slave r =
     (case map_find ident (m_mapRedisNode r) of
        None \<Rightarrow>
          let ks = node_points md5 (m_iVirtualNodeNum r) ident
          in r\<lparr>m_mapRedisNodeHash := fold (\<lambda>k m. map_insert k (master, slave) m) ks (m_mapRedisNodeHash r),
               m_mapRedisNode := map_insert ident \<lparr>strMasterNodeIdentify = master, strSlaveNodeIdentify = slave, vecHash = ks\<rparr>
                                   (m_mapRedisNode r)\<rparr>
      | Some a \<Rightarrow>
          r\<lparr>m_mapRedisNode := map_put ident (a\<lparr>strMasterNodeIdentify := master, strSlaveNodeIdentify := slave\<rparr>) (m_mapRedisNode r),
            m_mapRedisNodeHash := fold (\<lambda>k m. map_update k (master, slave) m) (vecHash a) (m_mapRedisNodeHash r)\<rparr>)"

text \<open>A point that is not there is erased through the end of the map, which is undefined.\<close>

fun erase_points :: "u32 list \<Rightarrow> (u32, string \<times> string) stdmap \<Rightarrow> (u32, string \<times> string) stdmap option" where
  "erase_points [] m = Some m"
| "erase_points (k # ks) m = (if map_find k m = None then None else erase_points ks (map_erase k m))"

definition DelRedisNode :: "string \<Rightarrow> redis_ring \<Rightarrow> redis_ring option" where
  "DelRedisNode ident r =
     (case map_find ident (m_mapRedisNode r) of
        None \<Rightarrow> Some r
      | Some a \<Rightarrow>
          map_option (\<lambda>m. r\<lparr>m_mapRedisNodeHash := m, m_mapRedisNode := map_erase ident (m_mapRedisNode r)\<rparr>)
            (erase_points (vecHash a) (m_mapRedisNodeHash r)))"

definition new_ring :: "int \<Rightarrow> int \<Rightarrow> redis_ring" where
  "new_ring alg n = \<lparr>m_iHashAlgorithm = alg, m_iVirtualNodeNum = n, m_mapRedisNode = [], m_mapRedisNodeHash = []\<rparr>"

datatype ring_op = AddNode string string string | DelNode string

fun ring_run :: "(byte list \<Rightarrow> byte list) \<Rightarrow> ring_op list \<Rightarrow> redis_ring \<Rightarrow> redis_ring option" where
  "ring_run md5 [] r = Some r"
| "ring_run md5 (AddNode ident ma sl # ops) r = ring_run md5 ops (AddRedisNode md5 ident ma sl r)"
| "ring_run md5 (DelNode ident # ops) r =
     (case DelRedisNode ident r of None \<Rightarrow> None | Some r \<Rightarrow> ring_run md5 ops r)"

section \<open>The abstract ring\<close>

text \<open>A set of nodes with their addresses.\<close>

type_synonym cluster = "string \<rightharpoonup> string \<times> string"

fun cluster_step :: "ring_op \<Rightarrow> cluster \<Rightarrow> cluster" where
  "cluster_step (AddNode ident ma sl) s = s(ident \<mapsto> (ma, sl))"
| "cluster_step (DelNode ident) s = s(ident := None)"

fun op_name :: "ring_op \<Rightarrow> string" where
  "op_name (AddNode ident _ _) = ident"
| "op_name (DelNode ident) = ident"

text \<open>No two points of nodes in \<open>N\<close> coincide.\<close>

definition separate :: "(string \<Rightarrow> u32 list) \<Rightarrow> string set \<Rightarrow> bool" where
  "separate pts N \<longleftrightarrow> (\<forall>x \<in> N. distinct (pts x)) \<and> (\<forall>x \<in> N. \<forall>y \<in> N. x \<noteq> y \<longrightarrow> set (pts x) \<inter> set (pts y) = {})"

text \<open>Who owns a point.\<close>

definition owner :: "(string \<Rightarrow> u32 list) \<Rightarrow> cluster \<Rightarrow> u32 \<Rightarrow> string \<Rightarrow> bool" where
  "owner pts s k ident \<longleftrightarrow> s ident \<noteq> None \<and> k \<in> set (pts ident)"

definition implements :: "(string \<Rightarrow> u32 list) \<Rightarrow> cluster \<Rightarrow> redis_ring \<Rightarrow> bool" where
  "implements pts s r \<longleftrightarrow> map_ok (m_mapRedisNode r) \<and> map_ok (m_mapRedisNodeHash r) \<and>
     (\<forall>x. map_option (\<lambda>a. ((strMasterNodeIdentify a, strSlaveNodeIdentify a), vecHash a)) (map_find x (m_mapRedisNode r)) =
            map_option (\<lambda>v. (v, pts x)) (s x)) \<and>
     (\<forall>k v. map_find k (m_mapRedisNodeHash r) = Some v \<longleftrightarrow> (\<exists>x. owner pts s k x \<and> s x = Some v))"

lemma fold_insert:
  assumes "map_ok m"
  shows "map_ok (fold (\<lambda>k m. map_insert k v m) ks m) \<and>
    map_find k' (fold (\<lambda>k m. map_insert k v m) ks m) =
      (case map_find k' m of Some w \<Rightarrow> Some w | None \<Rightarrow> if k' \<in> set ks then Some v else None)"
  using assms
proof (induction ks arbitrary: m)
  case (Cons k ks)
  have "map_ok (map_insert k v m)" using Cons.prems by simp
  from Cons.IH [OF this] show ?case
    using Cons.prems by (auto simp: map_insert_def map_find_put split: option.splits if_splits)
qed (simp split: option.split)

lemma fold_update:
  assumes "map_ok m"
  shows "map_ok (fold (\<lambda>k m. map_update k v m) ks m) \<and>
    map_find k' (fold (\<lambda>k m. map_update k v m) ks m) =
      (case map_find k' m of None \<Rightarrow> None | Some w \<Rightarrow> if k' \<in> set ks then Some v else Some w)"
  using assms
proof (induction ks arbitrary: m)
  case (Cons k ks)
  have "map_ok (map_update k v m)" using Cons.prems by simp
  from Cons.IH [OF this] show ?case
    using Cons.prems by (auto simp: map_update_def map_find_put split: option.splits if_splits)
qed (simp split: option.split)

lemma erase_points_ok:
  assumes "distinct ks" "\<forall>k \<in> set ks. map_find k m \<noteq> None" "map_ok m"
  shows "\<exists>m'. erase_points ks m = Some m' \<and> map_ok m' \<and> (\<forall>k. map_find k m' = (if k \<in> set ks then None else map_find k m))"
  using assms
proof (induction ks arbitrary: m)
  case (Cons k ks)
  have "\<forall>x \<in> set ks. map_find x (map_erase k m) \<noteq> None" using Cons.prems by (auto simp: map_find_erase)
  then obtain m' where "erase_points ks (map_erase k m) = Some m'" "map_ok m'"
      "\<forall>x. map_find x m' = (if x \<in> set ks then None else map_find x (map_erase k m))"
    using Cons.IH [of "map_erase k m"] Cons.prems(1,3) map_erase_ok by auto
  then show ?case using Cons.prems(2) by (auto simp: map_find_erase)
qed simp

lemma erase_points_repeated: "\<not> distinct ks \<Longrightarrow> erase_points ks m = None"
proof (induction ks arbitrary: m)
  case (Cons k ks)
  have gone: "k \<in> set ks \<Longrightarrow> map_find k m = None \<Longrightarrow> erase_points ks m = None" for m
  proof (induction ks arbitrary: m)
    case (Cons x ks)
    then show ?case by (auto simp: map_find_erase)
  qed simp
  show ?case using Cons gone [of "map_erase k m"] by (auto simp: map_find_erase)
qed simp

lemma implementsD:
  assumes "implements pts s r"
  shows "map_ok (m_mapRedisNode r)" "map_ok (m_mapRedisNodeHash r)"
    "map_option (\<lambda>a. ((strMasterNodeIdentify a, strSlaveNodeIdentify a), vecHash a)) (map_find x (m_mapRedisNode r)) =
       map_option (\<lambda>v. (v, pts x)) (s x)"
    "map_find k (m_mapRedisNodeHash r) = Some v \<longleftrightarrow> (\<exists>x. owner pts s k x \<and> s x = Some v)"
  using assms unfolding implements_def by blast+

lemma owner_unique: "separate pts N \<Longrightarrow> dom s \<subseteq> N \<Longrightarrow> owner pts s k x \<Longrightarrow> owner pts s k y \<Longrightarrow> x = y"
  unfolding owner_def separate_def by (metis disjoint_iff domIff subsetD)

lemma no_point: "implements pts s r \<Longrightarrow> map_find k (m_mapRedisNodeHash r) = None \<longleftrightarrow> (\<nexists>x. owner pts s k x)"
  using implementsD(4) [of pts s r k] by (metis not_None_eq owner_def)

lemma implements_find:
  assumes "implements pts s r"
  shows "map_find x (m_mapRedisNode r) = None \<longleftrightarrow> s x = None"
    "map_find x (m_mapRedisNode r) = Some a \<Longrightarrow> s x = Some (strMasterNodeIdentify a, strSlaveNodeIdentify a) \<and> vecHash a = pts x"
  using implementsD(3) [OF assms, of x] by (cases "s x"; auto)+

lemma new_ring_implements: "implements pts Map.empty (new_ring alg n)"
  by (simp add: implements_def new_ring_def map_ok_def owner_def)

lemma add_implements:
  assumes "implements pts s r" "separate pts N" "dom s \<subseteq> N" "x \<in> N" "pts = node_points md5 (m_iVirtualNodeNum r)"
  shows "implements pts (s(x \<mapsto> (ma, sl))) (AddRedisNode md5 x ma sl r)"
proof (cases "map_find x (m_mapRedisNode r)")
  case None
  let ?r = "AddRedisNode md5 x ma sl r"
  have x: "s x = None" using None implements_find(1) [OF assms(1)] by simp
  have r: "m_mapRedisNodeHash ?r = fold (\<lambda>k m. map_insert k (ma, sl) m) (pts x) (m_mapRedisNodeHash r)"
      "m_mapRedisNode ?r = map_insert x \<lparr>strMasterNodeIdentify = ma, strSlaveNodeIdentify = sl, vecHash = pts x\<rparr> (m_mapRedisNode r)"
    by (simp_all add: AddRedisNode_def None assms(5) Let_def)
  note f = fold_insert [OF implementsD(2) [OF assms(1)], of "(ma, sl)" "pts x"]
  have apart: "owner pts s k y \<Longrightarrow> y \<noteq> x \<and> k \<notin> set (pts x)" for k y
    using assms(2-4) x by (force simp: owner_def separate_def)
  have "map_find k (m_mapRedisNodeHash ?r) = Some v \<longleftrightarrow> (\<exists>y. owner pts (s(x \<mapsto> (ma, sl))) k y \<and> (s(x \<mapsto> (ma, sl))) y = Some v)" for k v
  proof (cases "map_find k (m_mapRedisNodeHash r)")
    case None
    then have "\<nexists>y. owner pts s k y" using no_point [OF assms(1)] by simp
    with None f [of k] show ?thesis by (auto simp: r(1) owner_def)
  next
    case (Some w)
    then obtain y where y: "owner pts s k y" "s y = Some w" using implementsD(4) [OF assms(1)] by blast
    have "owner pts (s(x \<mapsto> (ma, sl))) k z \<longleftrightarrow> z = y" for z
      using y(1) apart [OF y(1)] owner_unique [OF assms(2,3) y(1), of z] by (auto simp: owner_def)
    with Some f [of k] y(2) apart [OF y(1)] show ?thesis by (simp add: r(1))
  qed
  moreover have "map_option (\<lambda>a. ((strMasterNodeIdentify a, strSlaveNodeIdentify a), vecHash a)) (map_find y (m_mapRedisNode ?r)) =
      map_option (\<lambda>v. (v, pts y)) ((s(x \<mapsto> (ma, sl))) y)" for y
    using implementsD(1) [OF assms(1)] implementsD(3) [OF assms(1), of y] None by (simp add: r(2) map_insert_def map_find_put)
  ultimately show ?thesis using f implementsD(1) [OF assms(1)] by (simp add: implements_def r)
next
  case (Some a)
  let ?r = "AddRedisNode md5 x ma sl r"
  note a = implements_find(2) [OF assms(1) Some]
  have r: "m_mapRedisNodeHash ?r = fold (\<lambda>k m. map_update k (ma, sl) m) (pts x) (m_mapRedisNodeHash r)"
      "m_mapRedisNode ?r = map_put x (a\<lparr>strMasterNodeIdentify := ma, strSlaveNodeIdentify := sl\<rparr>) (m_mapRedisNode r)"
    using a by (simp_all add: AddRedisNode_def Some)
  note f = fold_update [OF implementsD(2) [OF assms(1)], of "(ma, sl)" "pts x"]
  have own: "owner pts (s(x \<mapsto> (ma, sl))) k y = owner pts s k y" for k y using a by (auto simp: owner_def)
  have "map_find k (m_mapRedisNodeHash ?r) = Some v \<longleftrightarrow> (\<exists>y. owner pts (s(x \<mapsto> (ma, sl))) k y \<and> (s(x \<mapsto> (ma, sl))) y = Some v)" for k v
  proof (cases "map_find k (m_mapRedisNodeHash r)")
    case None
    then have "\<nexists>y. owner pts s k y" using no_point [OF assms(1)] by simp
    with None f [of k] own show ?thesis by (auto simp: r(1))
  next
    case (Some w)
    then obtain y where y: "owner pts s k y" "s y = Some w" using implementsD(4) [OF assms(1)] by blast
    have "k \<in> set (pts x) \<longleftrightarrow> y = x"
      using y(1) owner_unique [OF assms(2,3), of k y x] a by (auto simp: owner_def)
    moreover have "owner pts (s(x \<mapsto> (ma, sl))) k z \<longleftrightarrow> z = y" for z
      using y(1) own owner_unique [OF assms(2,3) y(1), of z] by blast
    ultimately show ?thesis using Some f [of k] y(2) by (auto simp: r(1))
  qed
  moreover have "map_option (\<lambda>a. ((strMasterNodeIdentify a, strSlaveNodeIdentify a), vecHash a)) (map_find y (m_mapRedisNode ?r)) =
      map_option (\<lambda>v. (v, pts y)) ((s(x \<mapsto> (ma, sl))) y)" for y
    using implementsD(1) [OF assms(1)] implementsD(3) [OF assms(1), of y] a by (simp add: r(2) map_find_put)
  ultimately show ?thesis using f implementsD(1) [OF assms(1)] by (simp add: implements_def r map_put_ok)
qed

lemma del_implements:
  assumes "implements pts s r" "separate pts N" "dom s \<subseteq> N"
  shows "\<exists>r'. DelRedisNode x r = Some r' \<and> implements pts (s(x := None)) r' \<and> m_iVirtualNodeNum r' = m_iVirtualNodeNum r \<and>
    m_iHashAlgorithm r' = m_iHashAlgorithm r"
proof (cases "map_find x (m_mapRedisNode r)")
  case None
  then have "s(x := None) = s" using implements_find(1) [OF assms(1), of x] by (simp add: fun_upd_idem)
  with None assms(1) show ?thesis by (simp add: DelRedisNode_def)
next
  case (Some a)
  note a = implements_find(2) [OF assms(1) Some]
  have pts: "distinct (pts x)" "\<forall>k \<in> set (pts x). map_find k (m_mapRedisNodeHash r) \<noteq> None"
    using a assms(2,3) no_point [OF assms(1)] by (auto simp: separate_def owner_def)
  obtain m where m: "erase_points (pts x) (m_mapRedisNodeHash r) = Some m" "map_ok m"
      "\<forall>k. map_find k m = (if k \<in> set (pts x) then None else map_find k (m_mapRedisNodeHash r))"
    using erase_points_ok [OF pts implementsD(2) [OF assms(1)]] by blast
  let ?r = "r\<lparr>m_mapRedisNodeHash := m, m_mapRedisNode := map_erase x (m_mapRedisNode r)\<rparr>"
  have "DelRedisNode x r = Some ?r" using a m(1) by (simp add: DelRedisNode_def Some)
  moreover have "map_find k m = Some v \<longleftrightarrow> (\<exists>y. owner pts (s(x := None)) k y \<and> (s(x := None)) y = Some v)" for k v
  proof -
    have "k \<in> set (pts x) \<longleftrightarrow> owner pts s k x" using a by (simp add: owner_def)
    moreover have "owner pts (s(x := None)) k y \<longleftrightarrow> owner pts s k y \<and> y \<noteq> x" for y by (auto simp: owner_def)
    ultimately show ?thesis
      using m(3) implementsD(4) [OF assms(1), of k v] owner_unique [OF assms(2,3), of k x] by auto
  qed
  moreover have "map_option (\<lambda>a. ((strMasterNodeIdentify a, strSlaveNodeIdentify a), vecHash a)) (map_find y (map_erase x (m_mapRedisNode r))) =
      map_option (\<lambda>v. (v, pts y)) ((s(x := None)) y)" for y
    using implementsD(3) [OF assms(1), of y] by (simp add: map_find_erase)
  ultimately show ?thesis using m(2) map_erase_ok [OF implementsD(1) [OF assms(1)]] by (simp add: implements_def)
qed

lemma run_implements:
  assumes "implements (node_points md5 (m_iVirtualNodeNum r)) s r" "separate (node_points md5 (m_iVirtualNodeNum r)) N" "dom s \<subseteq> N"
    "op_name ` set ops \<subseteq> N"
  shows "\<exists>r'. ring_run md5 ops r = Some r' \<and> implements (node_points md5 (m_iVirtualNodeNum r)) (fold cluster_step ops s) r' \<and>
    m_iHashAlgorithm r' = m_iHashAlgorithm r"
  using assms
proof (induction ops arbitrary: r s)
  case (Cons op ops)
  show ?case
  proof (cases op)
    case (AddNode x ma sl)
    let ?r = "AddRedisNode md5 x ma sl r"
    have same: "m_iVirtualNodeNum ?r = m_iVirtualNodeNum r" "m_iHashAlgorithm ?r = m_iHashAlgorithm r"
      by (simp_all add: AddRedisNode_def Let_def split: option.split)
    have "implements (node_points md5 (m_iVirtualNodeNum r)) (s(x \<mapsto> (ma, sl))) ?r"
      using add_implements [OF Cons.prems(1-3) _ refl] Cons.prems(4) AddNode by simp
    moreover have "dom (s(x \<mapsto> (ma, sl))) \<subseteq> N" "op_name ` set ops \<subseteq> N" using Cons.prems(3,4) AddNode by auto
    ultimately show ?thesis
      using Cons.IH [of ?r "s(x \<mapsto> (ma, sl))"] Cons.prems(2) unfolding AddNode same by (simp del: fun_upd_apply)
  next
    case (DelNode x)
    obtain r' where r': "DelRedisNode x r = Some r'" "implements (node_points md5 (m_iVirtualNodeNum r)) (s(x := None)) r'"
        "m_iVirtualNodeNum r' = m_iVirtualNodeNum r" "m_iHashAlgorithm r' = m_iHashAlgorithm r"
      using del_implements [OF Cons.prems(1-3)] by blast
    moreover have "dom (s(x := None)) \<subseteq> N" "op_name ` set ops \<subseteq> N" using Cons.prems(3,4) DelNode by auto
    ultimately show ?thesis
      using Cons.IH [of r' "s(x := None)"] Cons.prems(2) unfolding DelNode by (simp del: fun_upd_apply)
  qed
qed simp

section \<open>Looking up\<close>

lemma lower_bound:
  assumes "map_ok m" "find (\<lambda>e. h \<le> fst e) m = Some e"
  shows "e \<in> set m \<and> h \<le> fst e \<and> (\<forall>e' \<in> set m. h \<le> fst e' \<longrightarrow> fst e \<le> fst e')"
  using assms by (induction m) (auto simp: map_ok_def split: if_splits)

lemma first_least: "map_ok (e # m) \<Longrightarrow> \<forall>e' \<in> set (e # m). fst e \<le> fst e'"
  by (auto simp: map_ok_def)

text \<open>How far a point is from a hash going up and around.\<close>

definition nearest :: "(string \<Rightarrow> u32 list) \<Rightarrow> cluster \<Rightarrow> u32 \<Rightarrow> u32 \<Rightarrow> bool" where
  "nearest pts s h k \<longleftrightarrow> (\<exists>x. owner pts s k x) \<and> (\<forall>k' x'. owner pts s k' x' \<longrightarrow> k - h \<le> k' - h)"

definition belongs :: "(string \<Rightarrow> u32 list) \<Rightarrow> cluster \<Rightarrow> u32 \<Rightarrow> string \<Rightarrow> bool" where
  "belongs pts s h x \<longleftrightarrow> (\<exists>k. nearest pts s h k \<and> owner pts s k x)"

lemma nearest_unique: "nearest pts s h k \<Longrightarrow> nearest pts s h k' \<Longrightarrow> k = k'"
proof -
  assume "nearest pts s h k" "nearest pts s h k'"
  then have "k - h = k' - h" unfolding nearest_def by (blast intro: order_antisym)
  then show ?thesis by simp
qed

lemma behind: "(h :: u32) \<le> k \<Longrightarrow> h \<le> k' \<longrightarrow> k \<le> k' \<Longrightarrow> k - h \<le> k' - h"
proof -
  assume "h \<le> k" "h \<le> k' \<longrightarrow> k \<le> k'"
  moreover have "unat k < 2 ^ LENGTH(32)" by (rule unsigned_less)
  ultimately show ?thesis by (auto simp: word_le_nat_alt unat_sub_if')
qed

lemma around: "\<not> (h :: u32) \<le> k \<Longrightarrow> \<not> h \<le> k' \<Longrightarrow> k \<le> k' \<Longrightarrow> k - h \<le> k' - h"
  by (auto simp: word_le_nat_alt unat_sub_if')

lemma lookup:
  assumes "implements pts s r"
  shows "case GetRedisNode key r of
      None \<Rightarrow> \<forall>k x. \<not> owner pts s k x
    | Some (ok, v) \<Rightarrow> ok \<and> (\<exists>x. belongs pts s (key_hash (m_iHashAlgorithm r) key) x \<and> s x = Some v)"
proof -
  let ?h = "key_hash (m_iHashAlgorithm r) key" and ?m = "m_mapRedisNodeHash r"
  note m = implementsD(2) [OF assms]
  have entry: "(k, v) \<in> set ?m \<longleftrightarrow> (\<exists>x. owner pts s k x \<and> s x = Some v)" for k v
    using stdmap.entries_find [OF m, of k v] implementsD(4) [OF assms, of k v] by simp
  have point: "\<exists>e \<in> set ?m. fst e = k" if "owner pts s k x" for k x
    using that entry [of k "the (s x)"] by (force simp: owner_def)
  have owned: "\<exists>x. belongs pts s ?h x \<and> s x = Some (snd e)" if e: "e \<in> set ?m" "\<forall>e' \<in> set ?m. fst e - ?h \<le> fst e' - ?h" for e
  proof -
    obtain x where x: "owner pts s (fst e) x" "s x = Some (snd e)" using e(1) entry [of "fst e" "snd e"] by auto
    have "nearest pts s ?h (fst e)" using x(1) e(2) point by (fastforce simp: nearest_def)
    with x show ?thesis by (auto simp: belongs_def)
  qed
  show ?thesis
  proof (cases "find (\<lambda>e. ?h \<le> fst e) ?m")
    case (Some e)
    have "\<forall>e' \<in> set ?m. fst e - ?h \<le> fst e' - ?h" using lower_bound [OF m Some] by (blast intro: behind)
    then show ?thesis using owned [of e] lower_bound [OF m Some] by (simp add: GetRedisNode_def Some)
  next
    case None
    then have low: "\<forall>e \<in> set ?m. \<not> ?h \<le> fst e" unfolding find_None_iff by blast
    show ?thesis
    proof (cases ?m)
      case Nil
      then show ?thesis using point by (auto simp: GetRedisNode_def)
    next
      case (Cons e es)
      have "\<forall>e' \<in> set ?m. fst e - ?h \<le> fst e' - ?h"
        using first_least [of e es] m low Cons by (metis around list.set_intros(1))
      then show ?thesis using owned [of e] None Cons by (simp add: GetRedisNode_def)
    qed
  qed
qed

lemma GetRedisNode_iff:
  assumes "implements pts s r" "separate pts N" "dom s \<subseteq> N"
  shows "GetRedisNode key r = Some (ok, v) \<longleftrightarrow> ok \<and> (\<exists>x. belongs pts s (key_hash (m_iHashAlgorithm r) key) x \<and> s x = Some v)"
proof
  assume "GetRedisNode key r = Some (ok, v)"
  then show "ok \<and> (\<exists>x. belongs pts s (key_hash (m_iHashAlgorithm r) key) x \<and> s x = Some v)"
    using lookup [OF assms(1), of key] by simp
next
  assume "ok \<and> (\<exists>x. belongs pts s (key_hash (m_iHashAlgorithm r) key) x \<and> s x = Some v)"
  then obtain x where x: ok "belongs pts s (key_hash (m_iHashAlgorithm r) key) x" "s x = Some v" by blast
  have uni: "belongs pts s h y \<Longrightarrow> belongs pts s h x \<Longrightarrow> y = x" for h y
    unfolding belongs_def using nearest_unique owner_unique [OF assms(2,3)] by metis
  show "GetRedisNode key r = Some (ok, v)"
  proof (cases "GetRedisNode key r")
    case None
    then show ?thesis using lookup [OF assms(1), of key] x(2) by (auto simp: belongs_def)
  next
    case (Some res)
    obtain ok' v' where res: "res = (ok', v')" by (cases res) 
    then obtain y where "ok'" "belongs pts s (key_hash (m_iHashAlgorithm r) key) y" "s y = Some v'"
      using lookup [OF assms(1), of key] Some by auto
    then have "y = x" using uni x(2) by blast
    then show ?thesis using \<open>ok'\<close> \<open>s y = Some v'\<close> x(1,3) Some res by simp
  qed
qed

lemma implements_same:
  assumes "implements pts s r" "implements pts s r'" "separate pts N" "dom s \<subseteq> N" "m_iHashAlgorithm r' = m_iHashAlgorithm r"
  shows "GetRedisNode key r' = GetRedisNode key r"
proof (cases "GetRedisNode key r")
  case None
  have "GetRedisNode key r' \<noteq> Some (ok, v)" for ok v
    using GetRedisNode_iff [OF assms(1,3,4), of key ok v] GetRedisNode_iff [OF assms(2-4), of key ok v] None assms(5) by simp
  with None show ?thesis by (metis not_None_eq prod.exhaust)
next
  case (Some res)
  then show ?thesis
    using GetRedisNode_iff [OF assms(1,3,4), of key "fst res" "snd res"] GetRedisNode_iff [OF assms(2-4), of key "fst res" "snd res"] assms(5)
    by (cases res) simp
qed

section \<open>Properties\<close>

lemma run_new:
  assumes "separate (node_points md5 n) N" "op_name ` set ops \<subseteq> N"
  shows "\<exists>r. ring_run md5 ops (new_ring alg n) = Some r \<and> implements (node_points md5 n) (fold cluster_step ops Map.empty) r \<and>
    m_iHashAlgorithm r = alg"
  using run_implements [of md5 "new_ring alg n" Map.empty N ops] new_ring_implements [of "node_points md5 n" alg n] assms
  by (simp add: new_ring_def)

lemma dom_cluster: "dom (fold cluster_step ops s) \<subseteq> dom s \<union> op_name ` set ops"
proof (induction ops arbitrary: s)
  case (Cons op ops)
  have "dom (cluster_step op s) \<subseteq> insert (op_name op) (dom s)" by (cases op) auto
  then show ?case using Cons [of "cluster_step op s"] unfolding fold_simps(2) list.set(2) image_insert by blast
qed simp

text \<open>C13: However nodes are added, changed and removed, as long as no two of their points coincide the ring does what its
  nodes promise: no operation goes wrong, and a key belongs to the node with the first point at or after the
  hash of the key, going around the circle, with the addresses the node was given last. Without a point the
  lookup is undefined.\<close>

theorem ring_refines_cluster:
  assumes "separate (node_points md5 n) (op_name ` set ops)"
  shows "\<exists>r. ring_run md5 ops (new_ring alg n) = Some r \<and>
    (\<forall>key ok v. GetRedisNode key r = Some (ok, v) \<longleftrightarrow>
       ok \<and> (\<exists>x. belongs (node_points md5 n) (fold cluster_step ops Map.empty) (key_hash alg key) x \<and>
                 fold cluster_step ops Map.empty x = Some v)) \<and>
    (\<forall>key. GetRedisNode key r = None \<longleftrightarrow> (\<forall>k x. \<not> owner (node_points md5 n) (fold cluster_step ops Map.empty) k x))"
proof -
  let ?s = "fold cluster_step ops Map.empty" and ?p = "node_points md5 n"
  obtain r where r: "ring_run md5 ops (new_ring alg n) = Some r" "implements ?p ?s r" "m_iHashAlgorithm r = alg"
    using run_new [OF assms order_refl] by blast
  have "dom ?s \<subseteq> op_name ` set ops" using dom_cluster [of ops Map.empty] by simp
  note iff = GetRedisNode_iff [OF r(2) assms this, unfolded r(3)]
  have "GetRedisNode key r = None \<longleftrightarrow> (\<forall>k x. \<not> owner ?p ?s k x)" for key
  proof
    assume "\<forall>k x. \<not> owner ?p ?s k x"
    then have "GetRedisNode key r \<noteq> Some (ok, v)" for ok v using iff [of key ok v] by (simp add: belongs_def)
    then show "GetRedisNode key r = None" by (metis not_None_eq prod.exhaust)
  qed (use lookup [OF r(2), of key] in simp)
  with r(1) iff show ?thesis by blast
qed

text \<open>C14: The hashing is consistent: adding a node moves only keys to this node and none between the others, and
  removing it again moves exactly these back, so every key is where it was before.\<close>

theorem ring_moves_little:
  assumes "separate (node_points md5 n) (insert x (op_name ` set ops))" "fold cluster_step ops Map.empty x = None"
  shows "\<exists>r r1 r2. ring_run md5 ops (new_ring alg n) = Some r \<and>
    ring_run md5 (ops @ [AddNode x ma sl]) (new_ring alg n) = Some r1 \<and>
    ring_run md5 (ops @ [AddNode x ma sl, DelNode x]) (new_ring alg n) = Some r2 \<and>
    (\<forall>key. GetRedisNode key r1 \<in> {GetRedisNode key r, Some (True, ma, sl)} \<and> GetRedisNode key r2 = GetRedisNode key r)"
proof -
  let ?s = "fold cluster_step ops Map.empty" and ?p = "node_points md5 n" and ?N = "insert x (op_name ` set ops)"
  let ?s1 = "?s(x \<mapsto> (ma, sl))"
  have dom: "dom ?s \<subseteq> ?N" "dom ?s1 \<subseteq> ?N" using dom_cluster [of ops Map.empty] by auto
  obtain r where r: "ring_run md5 ops (new_ring alg n) = Some r" "implements ?p ?s r" "m_iHashAlgorithm r = alg"
    using run_new [OF assms(1), of ops] by blast
  obtain r1 where r1: "ring_run md5 (ops @ [AddNode x ma sl]) (new_ring alg n) = Some r1" "implements ?p ?s1 r1"
      "m_iHashAlgorithm r1 = alg"
    using run_new [OF assms(1), of "ops @ [AddNode x ma sl]"] by auto
  have undo: "?s1(x := None) = ?s" using assms(2) by (simp add: fun_upd_idem)
  obtain r2 where r2: "ring_run md5 (ops @ [AddNode x ma sl, DelNode x]) (new_ring alg n) = Some r2" "implements ?p ?s r2"
      "m_iHashAlgorithm r2 = alg"
    using run_new [OF assms(1), of "ops @ [AddNode x ma sl, DelNode x]"] undo by auto
  have "GetRedisNode key r1 \<in> {GetRedisNode key r, Some (True, ma, sl)}" for key
  proof (cases "GetRedisNode key r1")
    case None
    then have "\<forall>k y. \<not> owner ?p ?s1 k y" using lookup [OF r1(2), of key] by simp
    then have "\<forall>k y. \<not> owner ?p ?s k y" using assms(2) by (auto simp: owner_def split: if_splits)
    then show ?thesis using lookup [OF r(2), of key] None by (auto simp: belongs_def split: option.splits)
  next
    case (Some res)
    then obtain v where v: "GetRedisNode key r1 = Some (True, v)" using lookup [OF r1(2), of key] by (cases res) simp
    then obtain y where y: "belongs ?p ?s1 (key_hash alg key) y" "?s1 y = Some v"
      using GetRedisNode_iff [OF r1(2) assms(1) dom(2)] r1(3) by auto
    show ?thesis
    proof (cases "y = x")
      case True
      then show ?thesis using v y(2) by simp
    next
      case False
      have mono: "owner ?p ?s k z \<Longrightarrow> owner ?p ?s1 k z" for k z by (auto simp: owner_def)
      obtain k where k: "nearest ?p ?s1 (key_hash alg key) k" "owner ?p ?s1 k y" using y(1) by (auto simp: belongs_def)
      have "owner ?p ?s k y" using k(2) False by (simp add: owner_def)
      then have "belongs ?p ?s (key_hash alg key) y" using k(1) mono unfolding belongs_def nearest_def by blast
      then have "GetRedisNode key r = Some (True, v)"
        using GetRedisNode_iff [OF r(2) assms(1) dom(1), of key True v] r(3) y(2) False by auto
      then show ?thesis using v by simp
    qed
  qed
  moreover have "GetRedisNode key r2 = GetRedisNode key r" for key
    using implements_same [OF r(2) r2(2) assms(1) dom(1)] r(3) r2(3) by simp
  ultimately show ?thesis using r(1) r1(1) r2(1) by blast
qed

text \<open>A node with a name of 31 characters or more cannot be removed: the buffer for the names of its virtual
  nodes cuts off their numbers, so all groups of points are the same four, and removing the node erases the second
  of them through the end of the map. This happens whatever the digest is, with eight or more virtual nodes.\<close>

theorem long_name_not_removed:
  assumes "31 \<le> length (c_str x)" "8 \<le> m_iVirtualNodeNum r" "map_find x (m_mapRedisNode r) = None" "map_ok (m_mapRedisNode r)"
  shows "DelRedisNode x (AddRedisNode md5 x ma sl r) = None"
proof -
  let ?p = "node_points md5 (m_iVirtualNodeNum r) x"
  have name: "virtual_name x i = take 31 (c_str x)" for i using assms(1) by (simp add: virtual_name_def snprintf_def)
  have "2 \<le> nat (m_iVirtualNodeNum r div 4)" using assms(2) by simp
  then obtain m where m: "nat (m_iVirtualNodeNum r div 4) = 2 + m" using le_Suc_ex by blast
  let ?q = "digest_points (md5 (ascii (take 31 (c_str x))))"
  have "[0..<2 + m] = [0, 1] @ [2..<2 + m]" using upt_add_eq_append [of 0 2 m] by (simp add: numeral_2_eq_2)
  then have "?p = ?q @ ?q @ concat (map (\<lambda>_. ?q) [2..<2 + m])" unfolding node_points_def name m by simp
  moreover have "?q \<noteq> []" by (simp add: digest_points_def)
  ultimately have "\<not> distinct ?p" by simp
  then show ?thesis
    using assms(3,4) by (simp add: DelRedisNode_def AddRedisNode_def Let_def map_insert_def map_find_put erase_points_repeated)
qed

section \<open>Examples\<close>

definition example_md5 :: "byte list \<Rightarrow> byte list" where
  "example_md5 xs = concat (map (\<lambda>j. [of_nat j, 0, 0, hd xs]) [0..<4])"

definition example_ops :: "ring_op list" where
  "example_ops = [AddNode ''a'' ''m1'' ''s1'', AddNode ''b'' ''m2'' ''s2'', AddNode ''a'' ''m3'' ''s3'', DelNode ''b'']"

lemma example_points:
  "node_points example_md5 4 ''a'' = [0x61000000, 0x61000001, 0x61000002, 0x61000003]"
  "node_points example_md5 4 ''b'' = [0x62000000, 0x62000001, 0x62000002, 0x62000003]"
  "node_points example_md5 4 ''c'' = [0x63000000, 0x63000001, 0x63000002, 0x63000003]"
  by code_simp+

lemma example_separate: "separate (node_points example_md5 4) {''a'', ''b'', ''c''}"
  by (simp add: separate_def example_points)

lemma separate_subset: "separate pts N \<Longrightarrow> M \<subseteq> N \<Longrightarrow> separate pts M"
  unfolding separate_def by blast

theorem ring_refines_cluster_witness:
  "\<exists>r. ring_run example_md5 example_ops (new_ring 0 4) = Some r \<and> GetRedisNode [1, 2, 3] r \<noteq> None"
proof -
  have "separate (node_points example_md5 4) (op_name ` set example_ops)"
    by (rule separate_subset [OF example_separate]) (simp add: example_ops_def)
  from ring_refines_cluster [OF this, of 0] obtain r where r: "ring_run example_md5 example_ops (new_ring 0 4) = Some r"
    "\<forall>key. GetRedisNode key r = None \<longleftrightarrow> (\<forall>k x. \<not> owner (node_points example_md5 4) (fold cluster_step example_ops Map.empty) k x)"
    by blast
  have "owner (node_points example_md5 4) (fold cluster_step example_ops Map.empty) 0x61000000 ''a''"
    by (simp add: owner_def example_points example_ops_def)
  with r show ?thesis by blast
qed

theorem ring_moves_little_witness:
  "\<exists>r r1 r2. ring_run example_md5 example_ops (new_ring 2 4) = Some r \<and>
    ring_run example_md5 (example_ops @ [AddNode ''c'' ''m4'' ''s4'']) (new_ring 2 4) = Some r1 \<and>
    ring_run example_md5 (example_ops @ [AddNode ''c'' ''m4'' ''s4'', DelNode ''c'']) (new_ring 2 4) = Some r2 \<and>
    GetRedisNode [7] r1 \<in> {GetRedisNode [7] r, Some (True, ''m4'', ''s4'')} \<and> GetRedisNode [7] r2 = GetRedisNode [7] r"
proof -
  have "separate (node_points example_md5 4) (insert ''c'' (op_name ` set example_ops))"
    by (rule separate_subset [OF example_separate]) (simp add: example_ops_def)
  moreover have "fold cluster_step example_ops Map.empty ''c'' = None" by (simp add: example_ops_def)
  ultimately show ?thesis using ring_moves_little [of example_md5 4 "''c''" example_ops 2 "''m4''" "''s4''"] by blast
qed

theorem long_name_not_removed_witness:
  "DelRedisNode ''PropertyRedis.cluster.eu.west.01'' (AddRedisNode example_md5 ''PropertyRedis.cluster.eu.west.01'' ''m'' ''s'' (new_ring 0 200)) = None"
  by (rule long_name_not_removed) (simp_all add: new_ring_def c_str_def map_ok_def)

end
