(* ===== verification/String_Coder.thy ===== *)
theory String_Coder
  imports StdMap
begin

text \<open>
  \<open>loss/src/util/StringCoder.cpp\<close>: URL encoding, hexadecimal text and the parameter lists of requests. Texts are
  bytes, the class of a character is that of the C locale; \<open>None\<close> is a failed \<open>assert\<close> or a read behind the
  end of a text.
\<close>

section \<open>URL encoding\<close>

definition between :: "byte \<Rightarrow> char \<Rightarrow> char \<Rightarrow> bool" where
  "between x a b \<longleftrightarrow> of_char a \<le> unat x \<and> unat x \<le> (of_char b :: nat)"

definition is_char :: "byte \<Rightarrow> char \<Rightarrow> bool" where
  "is_char x a \<longleftrightarrow> unat x = (of_char a :: nat)"

definition byte_of :: "char \<Rightarrow> byte" where
  "byte_of c = of_nat (of_char c)"

definition isalnum :: "byte \<Rightarrow> bool" where
  "isalnum x \<longleftrightarrow> between x CHR ''0'' CHR ''9'' \<or> between x CHR ''A'' CHR ''Z'' \<or> between x CHR ''a'' CHR ''z''"

definition ToHex :: "byte \<Rightarrow> byte" where
  "ToHex x = (if x > 9 then x + 55 else x + 48)"

definition FromHex :: "byte \<Rightarrow> byte option" where
  "FromHex x =
     (if between x CHR ''A'' CHR ''Z'' then Some (x - byte_of CHR ''A'' + 10)
      else if between x CHR ''a'' CHR ''z'' then Some (x - byte_of CHR ''a'' + 10)
      else if between x CHR ''0'' CHR ''9'' then Some (x - byte_of CHR ''0'')
      else None)"

definition url_char :: "byte \<Rightarrow> byte list" where
  "url_char x =
     (if isalnum x \<or> is_char x CHR ''-'' \<or> is_char x CHR ''_'' \<or> is_char x CHR ''.'' \<or> is_char x CHR ''~'' then [x]
      else if is_char x CHR '' '' then [byte_of CHR ''+'']
      else if between x CHR ''0'' CHR ''9'' \<or> between x CHR ''A'' CHR ''Z'' \<or> between x CHR ''a'' CHR ''z'' then [x]
      else [byte_of CHR ''%'', ToHex (drop_bit 4 x), ToHex (x mod 16)])"

definition UrlEncode :: "byte list \<Rightarrow> byte list" where
  "UrlEncode s = concat (map url_char s)"

fun UrlDecode :: "byte list \<Rightarrow> byte list option" where
  "UrlDecode [] = Some []"
| "UrlDecode (x # xs) =
     (if is_char x CHR ''+'' then map_option ((#) (byte_of CHR '' '')) (UrlDecode xs)
      else if is_char x CHR ''%''
      then (case xs of
              h # l # xs \<Rightarrow>
                (case (FromHex h, FromHex l) of
                   (Some high, Some low) \<Rightarrow> map_option ((#) (high * 16 + low)) (UrlDecode xs)
                 | _ \<Rightarrow> None)
            | _ \<Rightarrow> None)
      else map_option ((#) x) (UrlDecode xs))"

lemma hex_digit: "unat y < 16 \<Longrightarrow> FromHex (ToHex y) = Some y"
proof -
  assume y: "unat y < 16"
  have "list_all (\<lambda>n. FromHex (ToHex (of_nat n)) = Some (of_nat n)) [0..<16]" by code_simp
  then have "FromHex (ToHex (of_nat (unat y))) = Some (of_nat (unat y))" using y by (simp add: list_all_iff del: of_nat_unat)
  then show ?thesis by simp
qed

lemma nibbles: "unat (drop_bit 4 x) < 16" "unat (x mod 16) < 16" "drop_bit 4 x * 16 + x mod 16 = (x :: byte)"
proof -
  have "unat x div 16 < 16" by (rule less_mult_imp_div_less) simp
  then show "unat (drop_bit 4 x) < 16" by (simp add: drop_bit_eq_div unat_div)
  show "unat (x mod 16) < 16" by (simp add: unat_mod)
  show "drop_bit 4 x * 16 + x mod 16 = x" by (simp add: drop_bit_eq_div div_mult_mod_eq)
qed

lemma is_char_byte_of [simp]: "is_char (byte_of a) b \<longleftrightarrow> a = b"
proof -
  have "unat (byte_of a) = of_char a mod 256" unfolding byte_of_def unat_of_nat by simp
  then show ?thesis by (simp add: is_char_def)
qed

lemma is_char_unique: "is_char x a \<Longrightarrow> x = byte_of a"
  unfolding is_char_def byte_of_def by (drule sym) simp

lemma url_char_plain:
  assumes "isalnum x \<or> is_char x CHR ''-'' \<or> is_char x CHR ''_'' \<or> is_char x CHR ''.'' \<or> is_char x CHR ''~''"
  shows "\<not> is_char x CHR ''+'' \<and> \<not> is_char x CHR ''%''"
proof -
  define n where "n = unat x"
  have "n = 45 \<or> n = 95 \<or> n = 46 \<or> n = 126 \<or> 48 \<le> n \<and> n \<le> 57 \<or> 65 \<le> n \<and> n \<le> 90 \<or> 97 \<le> n \<and> n \<le> 122"
    using assms unfolding isalnum_def between_def is_char_def n_def [symmetric] by (simp only: of_char_Char) auto
  then have "n \<noteq> 43 \<and> n \<noteq> 37" by linarith
  then show ?thesis by (simp add: is_char_def n_def)
qed

lemma UrlDecode_char: "UrlDecode (url_char x @ xs) = map_option ((#) x) (UrlDecode xs)"
proof (cases "isalnum x \<or> is_char x CHR ''-'' \<or> is_char x CHR ''_'' \<or> is_char x CHR ''.'' \<or> is_char x CHR ''~''")
  case True
  then have "url_char x = [x]" by (simp only: url_char_def if_True)
  then show ?thesis using url_char_plain [OF True] by simp
next
  case False
  show ?thesis
  proof (cases "is_char x CHR '' ''")
    case True
    with False have "url_char x = [byte_of CHR ''+'']" by (simp only: url_char_def if_True if_False)
    with is_char_unique [OF True] show ?thesis by simp
  next
    case blank: False
    have "url_char x = [byte_of CHR ''%'', ToHex (drop_bit 4 x), ToHex (x mod 16)]"
      using False blank by (simp only: url_char_def isalnum_def [symmetric] if_False) simp
    then show ?thesis using hex_digit [OF nibbles(1), of x] hex_digit [OF nibbles(2), of x] nibbles(3) [of x] by simp
  qed
qed

text \<open>URL encoding can be undone: decoding what \<open>UrlEncode\<close> gives returns every text, whatever bytes are in it, and
  never runs into the assertions of the decoder.\<close>

theorem url_roundtrip: "UrlDecode (UrlEncode s) = Some s"
  by (induction s) (simp_all add: UrlEncode_def UrlDecode_char)

section \<open>Hexadecimal text\<close>

definition MAPX :: "byte list" where
  "MAPX = map byte_of ''0123456789ABCDEF''"

definition CharToHex :: "byte \<Rightarrow> byte list" where
  "CharToHex c = [MAPX ! unat (signed_drop_bit 4 c AND 0x0F), MAPX ! unat (c AND 0x0F)]"

definition EncodeHexToString :: "byte list \<Rightarrow> byte list" where
  "EncodeHexToString s = concat (map CharToHex s)"

definition toupper_c :: "byte \<Rightarrow> byte" where
  "toupper_c x = (if between x CHR ''a'' CHR ''z'' then x - 32 else x)"

definition hex_value :: "byte \<Rightarrow> byte" where
  "hex_value x = (let c1 = toupper_c x in if byte_of CHR ''A'' \<le> c1 then c1 - (byte_of CHR ''A'' - 10) else c1 - byte_of CHR ''0'')"

definition HexToChar :: "byte list \<Rightarrow> byte" where
  "HexToChar s = foldl (\<lambda>c x. push_bit 4 c + hex_value x) 0 (take 2 s)"

text \<open>The decoder skips the first two characters and then takes pairs.\<close>

fun hex_pairs :: "byte list \<Rightarrow> byte list option" where
  "hex_pairs [] = Some []"
| "hex_pairs [x] = None"
| "hex_pairs (x # y # xs) = map_option ((#) (HexToChar [x, y])) (hex_pairs xs)"

definition DecodeStringToHex :: "byte list \<Rightarrow> byte list option" where
  "DecodeStringToHex s = (if length s < 2 then None else hex_pairs (drop 2 s))"

lemma hex_digit_value: "unat y < 16 \<Longrightarrow> hex_value (MAPX ! unat y) = y"
proof -
  assume y: "unat y < 16"
  have "list_all (\<lambda>n. hex_value (MAPX ! n) = of_nat n) [0..<16]" by code_simp
  then have "hex_value (MAPX ! unat y) = of_nat (unat y)" using y by (simp add: list_all_iff del: of_nat_unat)
  then show ?thesis by simp
qed

lemma low_bits: "x AND 0x0F = take_bit 4 (x :: byte)"
proof -
  have "mask 4 = (0x0F :: byte)" by (simp add: mask_eq_exp_minus_1)
  then show ?thesis by (simp add: take_bit_eq_mask)
qed

lemma low_nibble: "unat (x AND 0x0F :: byte) < 16"
proof -
  have "take_bit 4 (unat x) < 2 ^ 4" by (rule take_bit_nat_less_exp)
  then show ?thesis by (simp add: low_bits unsigned_take_bit_eq)
qed

lemma nibble_join: "push_bit 4 (signed_drop_bit 4 c AND 0x0F) + (c AND 0x0F) = (c :: byte)"
proof -
  have "push_bit 4 (take_bit 4 (signed_drop_bit 4 c)) = push_bit 4 (drop_bit 4 c)"
    by (rule bit_word_eqI) (auto simp: bit_push_bit_iff bit_take_bit_iff bit_signed_drop_bit_iff bit_drop_bit_eq)
  then show ?thesis by (simp only: low_bits bits_ident)
qed

lemma CharToHex_decoded: "hex_pairs (CharToHex c @ xs) = map_option ((#) c) (hex_pairs xs)"
  using hex_digit_value [OF low_nibble] nibble_join by (simp add: CharToHex_def HexToChar_def)

text \<open>Decoding hexadecimal text skips two characters: text behind a prefix of two characters is decoded to
  what it was made from, but what the encoder gives has no such prefix, so the two functions are not inverse: the
  first character of a text is lost, and decoding the empty text reads behind its end.\<close>

theorem hex_prefix_needed:
  "DecodeStringToHex ([p, q] @ EncodeHexToString s) = Some s \<and>
   DecodeStringToHex (EncodeHexToString s) = (case s of [] \<Rightarrow> None | _ # s \<Rightarrow> Some s)"
proof -
  have "hex_pairs (EncodeHexToString s) = Some s" for s
    by (induction s) (simp_all add: EncodeHexToString_def CharToHex_decoded)
  then show ?thesis by (simp add: DecodeStringToHex_def EncodeHexToString_def CharToHex_def split: list.split)
qed

section \<open>Parameters\<close>

definition add_parameter :: "string \<times> string \<Rightarrow> string \<Rightarrow> string" where
  "add_parameter p s = (if length s > 0 then s @ ''&'' else s) @ fst p @ ''='' @ snd p"

definition EncodeParameter :: "(string, string) stdmap \<Rightarrow> string" where
  "EncodeParameter m = fold add_parameter m []"

definition store_parameter :: "string \<Rightarrow> string \<Rightarrow> (string, string) stdmap \<Rightarrow> (string, string) stdmap" where
  "store_parameter key val m = (if length key > 0 then map_insert key val m else m)"

fun decode_parameter :: "string \<Rightarrow> string \<Rightarrow> string \<Rightarrow> bool \<Rightarrow> (string, string) stdmap \<Rightarrow> (string, string) stdmap" where
  "decode_parameter [] key val is_value m = store_parameter key val m"
| "decode_parameter (c # s) key val is_value m =
     (if c = CHR ''&'' then decode_parameter s [] [] False (store_parameter key val m)
      else if c = CHR ''='' then decode_parameter s key val True m
      else if is_value then decode_parameter s key (val @ [c]) is_value m
      else decode_parameter s (key @ [c]) val is_value m)"

definition DecodeParameter :: "string \<Rightarrow> (string, string) stdmap" where
  "DecodeParameter s = decode_parameter s [] [] False []"

lemma decode_value:
  "CHR ''&'' \<notin> set v \<Longrightarrow> decode_parameter (v @ s) key val True m = decode_parameter s key (val @ filter (\<lambda>c. c \<noteq> CHR ''='') v) True m"
  by (induction v arbitrary: val) auto

lemma decode_key:
  "CHR ''&'' \<notin> set k \<Longrightarrow> CHR ''='' \<notin> set k \<Longrightarrow> decode_parameter (k @ s) key val False m = decode_parameter s (key @ k) val False m"
  by (induction k arbitrary: key) auto

definition plain_parameters :: "(string, string) stdmap \<Rightarrow> bool" where
  "plain_parameters m \<longleftrightarrow> map_ok m \<and> (\<forall>(k, v) \<in> set m. k \<noteq> [] \<and> CHR ''&'' \<notin> set k \<and> CHR ''='' \<notin> set k \<and> CHR ''&'' \<notin> set v)"

fun joined :: "(string, string) stdmap \<Rightarrow> string" where
  "joined [] = []"
| "joined ((k, v) # m) = k @ ''='' @ v @ (if m = [] then [] else CHR ''&'' # joined m)"

lemma fold_joined: "fold add_parameter m s = (if m = [] then s else (if s = [] then [] else s @ ''&'') @ joined m)"
proof (induction m arbitrary: s)
  case (Cons p m)
  obtain k v where p: "p = (k, v)" by (cases p)
  show ?case using Cons [of "add_parameter p s"] by (auto simp: p add_parameter_def)
qed simp

lemma put_last:
  assumes "map_ok (m @ [(k, v)])"
  shows "map_insert k v m = m @ [(k, v)]"
proof -
  have "map_find k m = None \<and> map_put k v m = m @ [(k, v)]" using assms by (induction m) (auto simp: map_ok_def)
  then show ?thesis by (simp add: map_insert_def)
qed

text \<open>The values without their equal signs.\<close>

definition stripped :: "(string, string) stdmap \<Rightarrow> (string, string) stdmap" where
  "stripped m = map (\<lambda>(k, v). (k, filter (\<lambda>c. c \<noteq> CHR ''='') v)) m"

lemma stripped_simps [simp]:
  "stripped [] = []" "stripped (m @ m') = stripped m @ stripped m'" "stripped [(k, v)] = [(k, filter (\<lambda>c. c \<noteq> CHR ''='') v)]"
  by (simp_all add: stripped_def)

lemma stripped_ok: "map_ok (stripped m) = map_ok m"
proof -
  have "map fst (stripped m) = map fst m" by (induction m) (auto simp: stripped_def)
  then show ?thesis by (simp add: map_ok_def)
qed

lemma decode_joined:
  assumes "plain_parameters (m0 @ m)"
  shows "decode_parameter (joined m) [] [] False (stripped m0) = stripped (m0 @ m)"
  using assms
proof (induction m arbitrary: m0)
  case (Cons p m)
  obtain k v where p: "p = (k, v)" by (cases p)
  let ?v = "filter (\<lambda>c. c \<noteq> CHR ''='') v"
  have kv: "k \<noteq> []" "CHR ''&'' \<notin> set k" "CHR ''='' \<notin> set k" "CHR ''&'' \<notin> set v" "map_ok (m0 @ [(k, v)])"
    using Cons.prems by (auto simp: p plain_parameters_def map_ok_def sorted_wrt_append)
  have "map_ok (stripped m0 @ [(k, ?v)])" using kv(5) stripped_ok [of "m0 @ [(k, v)]"] by simp
  then have store: "store_parameter k ?v (stripped m0) = stripped (m0 @ [(k, v)])"
    using kv(1) by (simp add: store_parameter_def put_last)
  have head: "decode_parameter (k @ ''='' @ v @ s) [] [] False (stripped m0) = decode_parameter s k ?v True (stripped m0)" for s
    using kv by (simp add: decode_key decode_value)
  show ?case
  proof (cases "m = []")
    case True
    then show ?thesis using head [of "[]"] store by (simp add: p)
  next
    case False
    then show ?thesis using head [of "CHR ''&'' # joined m"] store Cons.IH [of "m0 @ [(k, v)]"] Cons.prems by (simp add: p)
  qed
qed (simp add: store_parameter_def)

text \<open>A list of parameters is read back with every key and in every value all characters but the equal signs, when
  keys are not empty and have no separator in them and values no ampersand. So the round trip is exact for values
  without equal signs, and a value that ends in them, like Base64 text, comes back changed.\<close>

theorem parameter_roundtrip:
  assumes "plain_parameters m"
  shows "DecodeParameter (EncodeParameter m) = stripped m"
  using decode_joined [of "[]" m] assms by (simp add: DecodeParameter_def EncodeParameter_def fold_joined store_parameter_def split: if_splits)

theorem parameter_roundtrip_witness:
  "DecodeParameter (EncodeParameter [(''id'', ''7''), (''sig'', ''YQ=='')]) = [(''id'', ''7''), (''sig'', ''YQ'')]"
proof -
  have "plain_parameters [(''id'', ''7''), (''sig'', ''YQ=='')]" by (simp add: plain_parameters_def map_ok_def)
  from parameter_roundtrip [OF this] show ?thesis by (simp add: stripped_def)
qed

end
