(* ===== verification/Tlv.thy ===== *)
theory Tlv
  imports Starship_Codec
begin

text \<open>
  \<open>loss/src/util/CTlv.cpp\<close>: messages of a type, a length and that many bytes, on the byte buffer. The codec is an
  instance of the contract for framed messages. \<open>None\<close> is a read behind the bytes of a buffer.
\<close>

section \<open>The codec\<close>

record tlv =
  m_uiType :: u32
  m_uiLength :: u32
  m_oBuff :: cbuffer

definition CTlv_new :: tlv where
  "CTlv_new = \<lparr>m_uiType = 0, m_uiLength = 0, m_oBuff = empty_cbuffer\<rparr>"

text \<open>The result of the write is not looked at.\<close>

definition CTlv_make :: "allocator \<Rightarrow> u32 \<Rightarrow> u32 \<Rightarrow> cbuffer \<Rightarrow> tlv option" where
  "CTlv_make malloc ty len b =
     Option.bind (raw_read b 0 (unat len)) (\<lambda>xs.
       map_option (\<lambda>(buf, _). \<lparr>m_uiType = ty, m_uiLength = len, m_oBuff = buf\<rparr>) (Write malloc xs empty_cbuffer))"

text \<open>The number of bytes written is compared as an unsigned number.\<close>

definition put_bytes :: "allocator \<Rightarrow> byte list \<Rightarrow> cbuffer \<Rightarrow> (cbuffer \<times> bool) option" where
  "put_bytes malloc xs b = map_option (\<lambda>(b, n). (b, (of_int n :: u32) = of_nat (length xs))) (Write malloc xs b)"

definition CTlv_Encode_static :: "allocator \<Rightarrow> u32 \<Rightarrow> u32 \<Rightarrow> cbuffer \<Rightarrow> cbuffer \<Rightarrow> (cbuffer \<times> bool) option" where
  "CTlv_Encode_static malloc ty len inb out =
     Option.bind (put_bytes malloc (store_word ty) out) (\<lambda>(out, ok).
       if \<not> ok then Some (out, False)
       else Option.bind (put_bytes malloc (store_word len) out) (\<lambda>(out, ok).
         if \<not> ok then Some (out, False)
         else Option.bind (raw_read inb 0 (unat len)) (\<lambda>xs. put_bytes malloc xs out)))"

definition CTlv_Encode :: "allocator \<Rightarrow> tlv \<Rightarrow> cbuffer \<Rightarrow> (cbuffer \<times> bool) option" where
  "CTlv_Encode malloc t out = CTlv_Encode_static malloc (m_uiType t) (m_uiLength t) (m_oBuff t) out"

definition word_at :: "byte list \<Rightarrow> u32" where
  "word_at xs = load_word (xs ! 0) (xs ! 1) (xs ! 2) (xs ! 3)"

text \<open>The bytes are appended to what the object already holds.\<close>

definition CTlv_Decode :: "allocator \<Rightarrow> tlv \<Rightarrow> cbuffer \<Rightarrow> (tlv \<times> cbuffer \<times> bool) option" where
  "CTlv_Decode malloc t inb =
     (if ReadableBytes inb < 4 then Some (t, inb, False)
      else let uiReadIdx = GetReadIndex inb in
        Option.bind (Read 4 inb) (\<lambda>(inb, xs, n).
          if n \<noteq> 4 then Some (t, SetReadIndex uiReadIdx inb, False)
          else let t = t\<lparr>m_uiType := word_at xs\<rparr> in
            Option.bind (Read 4 inb) (\<lambda>(inb, xs, n).
              if n \<noteq> 4 then Some (t, SetReadIndex uiReadIdx inb, False)
              else let t = t\<lparr>m_uiLength := word_at xs\<rparr> in
                if ReadableBytes inb < unat (m_uiLength t) then Some (t, SetReadIndex uiReadIdx inb, False)
                else
                  (case Write_unit malloc (Some inb) (unat (m_uiLength t)) (m_oBuff t) of
                     Some (buf, Some inb, n) \<Rightarrow>
                       let t = t\<lparr>m_oBuff := buf\<rparr> in
                       if n \<noteq> sint (m_uiLength t) then Some (t, SetReadIndex uiReadIdx inb, False) else Some (t, inb, True)
                   | _ \<Rightarrow> None))))"

section \<open>It frames messages\<close>

type_synonym tlv_msg = "u32 \<times> byte list"

definition tlv_frame :: "tlv_msg \<Rightarrow> byte list" where
  "tlv_frame m = store_word (fst m) @ store_word (of_nat (length (snd m))) @ snd m"

definition tlv_ok :: "tlv_msg \<Rightarrow> bool" where
  "tlv_ok m \<longleftrightarrow> length (snd m) < 2 ^ 30"

text \<open>A client that encodes bytes puts them into a buffer of their own and makes a message of it; one that decodes
  takes a new object.\<close>

definition tlv_enc :: "allocator \<Rightarrow> tlv_msg \<Rightarrow> cbuffer \<Rightarrow> cbuffer option" where
  "tlv_enc malloc m out =
     Option.bind (Write malloc (snd m) empty_cbuffer) (\<lambda>(b, _).
     Option.bind (CTlv_make malloc (fst m) (of_nat (length (snd m))) b) (\<lambda>t.
     Option.bind (CTlv_Encode malloc t out) (\<lambda>(out, ok). if ok then Some out else None)))"

definition tlv_dec :: "allocator \<Rightarrow> cbuffer \<Rightarrow> (cbuffer \<times> tlv_msg) option" where
  "tlv_dec malloc inb =
     Option.bind (CTlv_Decode malloc CTlv_new inb) (\<lambda>(t, inb, ok).
       if ok then Some (inb, (m_uiType t, contents (m_oBuff t))) else None)"

lemma word_at_store [simp]: "word_at (store_word w) = w"
proof -
  obtain a b c d where w: "store_word w = [a, b, c, d]" by (simp add: store_word_def)
  from load_store_word [OF this] show ?thesis by (simp add: word_at_def w)
qed

lemma put_bytes_ok:
  assumes "wf_cbuffer b" "malloc_ok malloc" "malloc_total malloc" "room (length xs + k) b"
  shows "\<exists>b'. put_bytes malloc xs b = Some (b', True) \<and> wf_cbuffer b' \<and> contents b' = contents b @ xs \<and> room k b'"
proof -
  obtain b' where "Write malloc xs b = Some (b', int (length xs))" "wf_cbuffer b'" "contents b' = contents b @ xs" "room k b'"
    using cbq.put_obtain [of malloc b xs k] assms by blast
  then show ?thesis by (simp add: put_bytes_def)
qed

lemma Encode_static_frame:
  assumes "wf_cbuffer out" "malloc_ok malloc" "malloc_total malloc" "wf_cbuffer inb" "contents inb = xs" "length xs < 2 ^ 30"
    "room (length (tlv_frame (ty, xs)) + k) out"
  shows "\<exists>out'. CTlv_Encode_static malloc ty (of_nat (length xs)) inb out = Some (out', True) \<and> wf_cbuffer out' \<and>
    contents out' = contents out @ tlv_frame (ty, xs) \<and> room k out'"
proof -
  have len: "unat (of_nat (length xs) :: u32) = length xs" using assms(6) by (simp add: unat_of_nat)
  obtain o1 where o1: "put_bytes malloc (store_word ty) out = Some (o1, True)" "wf_cbuffer o1" "contents o1 = contents out @ store_word ty"
      "room (4 + length xs + k) o1"
    using put_bytes_ok [OF assms(1-3), of "store_word ty" "4 + length xs + k"] assms(7) by (auto simp: tlv_frame_def add.assoc)
  obtain o2 where o2: "put_bytes malloc (store_word (of_nat (length xs))) o1 = Some (o2, True)" "wf_cbuffer o2"
      "contents o2 = contents o1 @ store_word (of_nat (length xs))" "room (length xs + k) o2"
    using put_bytes_ok [OF o1(2) assms(2,3), of "store_word (of_nat (length xs))" "length xs + k"] o1(4) by (auto simp: add.assoc)
  obtain o3 where o3: "put_bytes malloc xs o2 = Some (o3, True)" "wf_cbuffer o3" "contents o3 = contents o2 @ xs" "room k o3"
    using put_bytes_ok [OF o2(2) assms(2,3) o2(4)] by auto
  have "raw_read inb 0 (length xs) = Some xs" using raw_read_contents [OF assms(4), of 0 "length xs"] assms(5) by simp
  with o1 o2 o3 len show ?thesis by (simp add: CTlv_Encode_static_def tlv_frame_def)
qed

lemma tlv_enc_frame:
  assumes "wf_cbuffer out" "malloc_ok malloc" "malloc_total malloc" "tlv_ok m" "room (length (tlv_frame m) + k) out"
  shows "\<exists>out'. tlv_enc malloc m out = Some out' \<and> wf_cbuffer out' \<and> contents out' = contents out @ tlv_frame m \<and> room k out'"
proof -
  obtain ty xs where m: "m = (ty, xs)" by (cases m)
  have xs: "length xs < 2 ^ 30" using assms(4) by (simp add: tlv_ok_def m)
  have len: "unat (of_nat (length xs) :: u32) = length xs" using xs by (simp add: unat_of_nat)
  have fits: "room (length xs + 0) empty_cbuffer" using xs by (simp add: room_def empty_cbuffer_def)
  obtain b where b: "Write malloc xs empty_cbuffer = Some (b, int (length xs))" "wf_cbuffer b" "contents b = xs"
    using cbq.put_obtain [of malloc empty_cbuffer xs 0] assms(2,3) fits by auto
  have "raw_read b 0 (length xs) = Some xs" using raw_read_contents [OF b(2), of 0 "length xs"] b(3) by simp
  then have t: "CTlv_make malloc ty (of_nat (length xs)) b = Some \<lparr>m_uiType = ty, m_uiLength = of_nat (length xs), m_oBuff = b\<rparr>"
    using b(1) len by (simp add: CTlv_make_def)
  obtain out' where "CTlv_Encode_static malloc ty (of_nat (length xs)) b out = Some (out', True)" "wf_cbuffer out'"
      "contents out' = contents out @ tlv_frame m" "room k out'"
    using Encode_static_frame [OF assms(1-3) b(2,3) xs] assms(5) m by blast
  with b(1) t show ?thesis by (simp add: tlv_enc_def m CTlv_Encode_def)
qed

lemma Decode_frame:
  assumes "wf_cbuffer b" "malloc_ok malloc" "malloc_total malloc" "tlv_ok (ty, xs)" "contents b = tlv_frame (ty, xs) @ rest"
    "wf_cbuffer (m_oBuff t)" "room (length xs) (m_oBuff t)"
  shows "\<exists>t' b'. CTlv_Decode malloc t b = Some (t', b', True) \<and> wf_cbuffer b' \<and> contents b' = rest \<and>
    m_uiType t' = ty \<and> m_uiLength t' = of_nat (length xs) \<and> wf_cbuffer (m_oBuff t') \<and> contents (m_oBuff t') = contents (m_oBuff t) @ xs"
proof -
  have xs: "length xs < 2 ^ 30" using assms(4) by (simp add: tlv_ok_def)
  have len: "unat (of_nat (length xs) :: u32) = length xs" "sint (of_nat (length xs) :: u32) = int (length xs)"
    using xs by (simp_all add: unat_of_nat signed_of_nat signed_take_bit_int_eq_self)
  have c: "contents b = store_word ty @ store_word (of_nat (length xs)) @ xs @ rest" using assms(5) by (simp add: tlv_frame_def)
  then have rb: "ReadableBytes b \<ge> 4" using length_contents [OF assms(1)] by simp
  obtain b1 where b1: "Read 4 b = Some (b1, store_word ty, 4)" "wf_cbuffer b1" "contents b1 = store_word (of_nat (length xs)) @ xs @ rest"
    using Read_spec [OF assms(1), of 4] c by auto
  obtain b2 where b2: "Read 4 b1 = Some (b2, store_word (of_nat (length xs)), 4)" "wf_cbuffer b2" "contents b2 = xs @ rest"
    using Read_spec [OF b1(2), of 4] b1(3) by auto
  have rb2: "\<not> ReadableBytes b2 < length xs" using length_contents [OF b2(2)] b2(3) by simp
  obtain o1 b3 where w: "Write_unit malloc (Some b2) (length xs) (m_oBuff t) = Some (o1, Some b3, int (length xs))"
      "wf_cbuffer o1" "wf_cbuffer b3" "contents o1 = contents (m_oBuff t) @ xs" "contents b3 = rest"
    using Write_unit_moves [OF assms(6) b2(2) assms(2,3), of "length xs"] assms(7) b2(3) by auto
  show ?thesis
    using rb b1 b2 rb2 w len by (simp add: CTlv_Decode_def Let_def)
qed

lemma tlv_dec_frame:
  assumes "wf_cbuffer b" "malloc_ok malloc" "malloc_total malloc" "tlv_ok m" "contents b = tlv_frame m @ rest"
  shows "\<exists>b'. tlv_dec malloc b = Some (b', m) \<and> wf_cbuffer b' \<and> contents b' = rest"
proof -
  obtain ty xs where m: "m = (ty, xs)" by (cases m)
  have "room (length xs) empty_cbuffer" using assms(4) by (simp add: tlv_ok_def m room_def empty_cbuffer_def)
  then show ?thesis
    using Decode_frame [OF assms(1-3), of ty xs rest CTlv_new] assms(4,5) by (force simp: m CTlv_new_def tlv_dec_def)
qed

interpretation tlv: frame_codec "\<lambda>malloc. malloc_ok malloc \<and> malloc_total malloc" wf_cbuffer contents room "\<lambda>_. tlv_ok" "\<lambda>_. tlv_frame"
  tlv_enc tlv_dec
  by unfold_locales (auto intro: tlv_enc_frame tlv_dec_frame)

section \<open>Properties\<close>

text \<open>TLV messages that are appended to a buffer are taken off one by one, each with its type and its bytes, in order
  and with nothing left.\<close>

theorem tlv_stream_roundtrip:
  assumes "malloc_ok malloc" "malloc_total malloc" "wf_cbuffer b" "contents b = []" "\<forall>m \<in> set ms. tlv_ok m"
    "room (length (concat (map tlv_frame ms))) b"
  shows "\<exists>b1 b2. enc_all (tlv_enc malloc) ms b = Some b1 \<and> dec_all (tlv_dec malloc) (length ms) b1 = Some (b2, ms) \<and> contents b2 = []"
  using tlv.stream [of malloc b ms] assms by auto

theorem tlv_stream_roundtrip_witness:
  "\<exists>b1 b2. enc_all (tlv_enc zero_malloc) [(1, [1, 2, 3]), (2, [])] empty_cbuffer = Some b1 \<and>
    dec_all (tlv_dec zero_malloc) 2 b1 = Some (b2, [(1, [1, 2, 3]), (2, [])]) \<and> contents b2 = []"
proof -
  have "room (length (concat (map tlv_frame [(1, [1, 2, 3]), (2, [])]))) empty_cbuffer"
    by (simp add: tlv_frame_def room_def empty_cbuffer_def)
  moreover have "\<forall>m \<in> set [(1, [1, 2, 3]), (2, [])]. tlv_ok m" by (simp add: tlv_ok_def)
  ultimately show ?thesis
    using tlv_stream_roundtrip [of zero_malloc empty_cbuffer "[(1, [1, 2, 3]), (2, [])]"]
    by (simp add: numeral_2_eq_2 [symmetric] del: enc_all.simps dec_all.simps)
qed

text \<open>While only part of a message has arrived, \<open>Decode\<close> reports failure and leaves the buffer and the bytes the
  object holds as they were, so it can be called again when more has come.\<close>

theorem tlv_partial_waits:
  assumes "wf_cbuffer b" "tlv_ok (ty, xs)" "tlv_frame (ty, xs) = contents b @ rest" "rest \<noteq> []"
  shows "\<exists>t'. CTlv_Decode malloc t b = Some (t', b, False) \<and> m_oBuff t' = m_oBuff t"
proof -
  let ?n = "length (contents b)"
  have xs: "unat (of_nat (length xs) :: u32) = length xs" using assms(2) by (simp add: tlv_ok_def unat_of_nat)
  have frame: "tlv_frame (ty, xs) = store_word ty @ store_word (of_nat (length xs)) @ xs" by (simp add: tlv_frame_def)
  have "0 < length rest" using assms(4) by simp
  moreover have "8 + length xs = ?n + length rest" using arg_cong [OF assms(3), of length] by (simp add: frame)
  ultimately have part: "contents b = take ?n (tlv_frame (ty, xs))" "?n < 8 + length xs" by (simp_all add: assms(3))
  have rb: "ReadableBytes b = ?n" using length_contents [OF assms(1)] by simp
  have undo: "SetReadIndex (m_read_idx b) (b\<lparr>m_read_idx := i\<rparr>) = b" for i by (simp add: SetReadIndex_def)
  consider "?n < 4" | "4 \<le> ?n" "?n < 8" | "8 \<le> ?n" by linarith
  then show ?thesis
  proof cases
    case 1
    with rb show ?thesis by (simp add: CTlv_Decode_def)
  next
    case 2
    obtain ys where ys: "Read 4 b = Some (b\<lparr>m_read_idx := m_read_idx b + 4\<rparr>, ys, 4)" "wf_cbuffer (b\<lparr>m_read_idx := m_read_idx b + 4\<rparr>)"
        "contents (b\<lparr>m_read_idx := m_read_idx b + 4\<rparr>) = drop 4 (contents b)"
      using Read_spec [OF assms(1), of 4] 2 by auto
    have "Read 4 (b\<lparr>m_read_idx := m_read_idx b + 4\<rparr>) = Some (b\<lparr>m_read_idx := m_read_idx b + 4\<rparr>, [], -1)"
      using Read_short [OF ys(2), of 4] ys(3) 2 by simp
    with ys(1) rb 2 undo show ?thesis by (simp add: CTlv_Decode_def Let_def GetReadIndex_def)
  next
    case 3
    let ?b1 = "b\<lparr>m_read_idx := m_read_idx b + 4\<rparr>" and ?b2 = "b\<lparr>m_read_idx := m_read_idx b + 8\<rparr>"
    have b1: "Read 4 b = Some (?b1, take 4 (contents b), 4)" "wf_cbuffer ?b1" "contents ?b1 = drop 4 (contents b)"
      using Read_spec [OF assms(1), of 4] 3 by auto
    have b2: "Read 4 ?b1 = Some (?b2, take 4 (drop 4 (contents b)), 4)" "wf_cbuffer ?b2" "contents ?b2 = drop 8 (contents b)"
      using Read_spec [OF b1(2), of 4] b1(3) 3 by (auto simp: add.commute)
    have "take 4 (drop 4 (contents b)) = store_word (of_nat (length xs))"
      using 3 by (subst part(1)) (simp add: frame take_drop drop_take)
    then have len: "word_at (take 4 (drop 4 (contents b))) = of_nat (length xs)" by simp
    have "ReadableBytes ?b2 < length xs" using length_contents [OF b2(2)] b2(3) part(2) 3 by simp
    then show ?thesis using b1(1) b2(1) rb 3 undo len xs by (simp add: CTlv_Decode_def Let_def GetReadIndex_def)
  qed
qed

theorem tlv_partial_waits_witness:
  "\<exists>t'. CTlv_Decode zero_malloc CTlv_new sample_buffer = Some (t', sample_buffer, False) \<and> m_oBuff t' = m_oBuff CTlv_new"
proof (rule tlv_partial_waits [where ty = "load_word 1 2 3 0" and xs = "[9]"])
  show "tlv_frame (load_word 1 2 3 0, [9]) = contents sample_buffer @ 0 # store_word 1 @ [9]"
    by (simp add: tlv_frame_def store_load_word)
qed (simp_all add: tlv_ok_def)

end
