(* ===== verification/Worker_Clock.thy ===== *)
theory Worker_Clock
  imports StdMap Complex_Main
begin

text \<open>
  The time as the callbacks of a worker see it. Times are exact numbers, the rounding of \<open>double\<close> is not modelled.
\<close>

text \<open>The time of the event loop, the precise time, which is read later, whether trace messages are printed, and
  whether \<open>malloc\<close> succeeds.\<close>

record moment =
  ev_now :: rat
  ev_time :: rat
  trace_on :: bool
  malloc_works :: bool

text \<open>\<open>ev_timer_set(w, after + ev_time() - ev_now(m_loop), 0)\<close>: a timer is set relative to the time of the loop.\<close>

definition due_time :: "moment \<Rightarrow> rat \<Rightarrow> rat" where
  "due_time t after = ev_now t + (after + ev_time t - ev_now t)"

definition moment_at :: "rat \<Rightarrow> moment" where
  "moment_at t = \<lparr>ev_now = t, ev_time = t, trace_on = True, malloc_works = True\<rparr>"

lemma moment_at_simps [simp]:
  "ev_now (moment_at t) = t" "ev_time (moment_at t) = t" "trace_on (moment_at t)" "malloc_works (moment_at t)"
  by (simp_all add: moment_at_def)

lemma map_find_put_any: "map_find k' (map_put k v m) = (if k' = k then Some v else map_find k' m)"
  by (induction m) auto

lemma map_ok_Nil [simp]: "map_ok []" by (simp add: map_ok_def)

end
