(* ===== verification/Worker_Session.thy ===== *)
theory Worker_Session
  imports Worker_Clock
begin

text \<open>
  The sessions of a worker (\<open>RegisterCallback(Session*)\<close>, \<open>DeleteCallback(Session*)\<close>, \<open>GetSession\<close> and
  \<open>SessionTimeout\<close> of \<open>Starship/src/labor/duty/OssWorker.cpp\<close>, \<open>Starship/src/session/Session.cpp\<close>).
  Sessions are objects of the business code, so the model keeps a store from addresses to objects:
  \<open>None\<close> is the use of an address that holds no object. A timer lives in its session and is found in
  \<open>timers\<close> under its address while it is active; when the session is freed an active timer stays there.
  What a session does when its time is over is an argument.
\<close>

section \<open>Objects and tables\<close>

record session =
  s_bRegistered :: bool
  m_dSessionTimeout :: rat
  m_activeTime :: rat
  m_strSessionId :: string
  m_strSessionClassName :: string
  s_pTimeoutWatcher :: bool

record sessions =
  m_mapCallbackSession :: "(string, (string, nat) stdmap) stdmap"
  store :: "nat \<Rightarrow> session option"
  timers :: "nat \<Rightarrow> rat option"

definition Session_new :: "string \<Rightarrow> rat \<Rightarrow> string \<Rightarrow> session" where
  "Session_new sid timeout cls =
     \<lparr>s_bRegistered = False, m_dSessionTimeout = timeout, m_activeTime = 0, m_strSessionId = sid,
      m_strSessionClassName = cls, s_pTimeoutWatcher = False\<rparr>"

definition Session_new_number :: "u32 \<Rightarrow> rat \<Rightarrow> string \<Rightarrow> session" where
  "Session_new_number sid timeout cls = Session_new (snprintf 16 (dec (unat sid))) timeout cls"

definition put_session :: "nat \<Rightarrow> session \<Rightarrow> sessions \<Rightarrow> sessions" where
  "put_session a s w = w\<lparr>store := (store w)(a \<mapsto> s)\<rparr>"

definition start_timer :: "moment \<Rightarrow> rat \<Rightarrow> nat \<Rightarrow> sessions \<Rightarrow> sessions" where
  "start_timer t after a w = w\<lparr>timers := (timers w)(a \<mapsto> due_time t after)\<rparr>"

section \<open>Operations\<close>

text \<open>The message at the start of \<open>RegisterCallback\<close> reads the session before the test for \<open>NULL\<close>.\<close>

definition enter_session :: "nat \<Rightarrow> session \<Rightarrow> sessions \<Rightarrow> sessions \<times> bool" where
  "enter_session a s w =
     (let m = m_mapCallbackSession w; cls = m_strSessionClassName s; sid = m_strSessionId s in
      case map_find cls m of
        None \<Rightarrow> (w\<lparr>m_mapCallbackSession := map_put cls (map_put sid a []) m\<rparr>, True)
      | Some ids \<Rightarrow>
          if map_find sid ids = None then (w\<lparr>m_mapCallbackSession := map_put cls (map_put sid a ids) m\<rparr>, True)
          else (w, False))"

definition RegisterCallback_session :: "moment \<Rightarrow> nat option \<Rightarrow> sessions \<Rightarrow> (sessions \<times> bool) option" where
  "RegisterCallback_session t p w =
     (case p of
        None \<Rightarrow> if trace_on t then None else Some (w, False)
      | Some a \<Rightarrow>
          Option.bind (store w a) (\<lambda>s.
            if s_bRegistered s then Some (w, True)
            else
              let s = s\<lparr>s_bRegistered := True, m_activeTime := ev_now t\<rparr>;
                  (w, ok) = enter_session a s (put_session a s w) in
              if \<not> ok then Some (w, False)
              else if m_dSessionTimeout s = 0 then Some (w, True)
              else if \<not> malloc_works t then Some (w, False)
              else Some (start_timer t (m_dSessionTimeout s) a (put_session a (s\<lparr>s_pTimeoutWatcher := True\<rparr>) w), True)))"

text \<open>The object that is deleted is the one found under the names of the argument.\<close>

definition DeleteCallback_session :: "nat option \<Rightarrow> sessions \<Rightarrow> sessions option" where
  "DeleteCallback_session p w =
     (case p of None \<Rightarrow> Some w
      | Some a \<Rightarrow>
          Option.bind (store w a) (\<lambda>s.
            let w = (if s_pTimeoutWatcher s then w\<lparr>timers := (timers w)(a := None)\<rparr> else w);
                m = m_mapCallbackSession w; cls = m_strSessionClassName s; sid = m_strSessionId s in
            case map_find cls m of None \<Rightarrow> Some w
            | Some ids \<Rightarrow>
                (case map_find sid ids of None \<Rightarrow> Some w
                 | Some b \<Rightarrow>
                     if store w b = None then None
                     else Some (w\<lparr>store := (store w)(b := None),
                                   m_mapCallbackSession := map_put cls (map_erase sid ids) m\<rparr>))))"

definition GetSession :: "moment \<Rightarrow> string \<Rightarrow> string \<Rightarrow> sessions \<Rightarrow> (sessions \<times> nat option) option" where
  "GetSession t sid cls w =
     (case map_find cls (m_mapCallbackSession w) of None \<Rightarrow> Some (w, None)
      | Some ids \<Rightarrow>
          (case map_find sid ids of None \<Rightarrow> Some (w, None)
           | Some a \<Rightarrow>
               Option.bind (store w a) (\<lambda>s.
                 Some (put_session a (s\<lparr>m_activeTime := ev_now t\<rparr>) w, Some a))))"

definition GetSession_number :: "moment \<Rightarrow> u32 \<Rightarrow> string \<Rightarrow> sessions \<Rightarrow> (sessions \<times> nat option) option" where
  "GetSession_number t sid cls w = GetSession t (snprintf 16 (dec (unat sid))) cls w"

text \<open>\<open>biz\<close> is the virtual function \<open>Timeout\<close>, which says whether the session goes on. The timer that is set
  again is memory of the session.\<close>

definition SessionTimeout ::
    "moment \<Rightarrow> (sessions \<Rightarrow> (sessions \<times> bool) option) \<Rightarrow> nat \<Rightarrow> sessions \<Rightarrow> sessions option" where
  "SessionTimeout t biz a w =
     Option.bind (store w a) (\<lambda>s.
       let after = m_activeTime s - ev_now t + m_dSessionTimeout s in
       if after > 0 then if s_pTimeoutWatcher s then Some (start_timer t after a w) else None
       else
         Option.bind (biz w) (\<lambda>(w, running).
           if running then
             Option.bind (store w a) (\<lambda>s.
               if s_pTimeoutWatcher s then Some (start_timer t (m_dSessionTimeout s) a w) else None)
           else DeleteCallback_session (Some a) w))"

text \<open>The event loop: an active timer whose time has come is stopped and its callback runs.\<close>

definition SessionTimeoutCallback ::
    "moment \<Rightarrow> (sessions \<Rightarrow> (sessions \<times> bool) option) \<Rightarrow> nat \<Rightarrow> sessions \<Rightarrow> sessions option" where
  "SessionTimeoutCallback t biz a w =
     (case timers w a of None \<Rightarrow> Some w
      | Some due \<Rightarrow>
          if ev_now t < due then Some w
          else SessionTimeout t biz a (w\<lparr>timers := (timers w)(a := None)\<rparr>))"

section \<open>Runs\<close>

text \<open>What business code does with sessions: it creates objects, calls the worker, and deletes objects that it
  did not manage to register. A timer that runs out calls it again.\<close>

datatype session_op =
  NewSession nat session
| Register nat
| Delete nat
| Get string string
| Free nat

fun run_op :: "moment \<Rightarrow> session_op \<Rightarrow> sessions \<Rightarrow> sessions option" where
  "run_op t (NewSession a s) w = Some (put_session a s w)"
| "run_op t (Register a) w = map_option fst (RegisterCallback_session t (Some a) w)"
| "run_op t (Delete a) w = DeleteCallback_session (Some a) w"
| "run_op t (Get sid cls) w = map_option fst (GetSession t sid cls w)"
| "run_op t (Free a) w = (if store w a = None then None else Some (w\<lparr>store := (store w)(a := None)\<rparr>))"

fun run_ops :: "moment \<Rightarrow> session_op list \<Rightarrow> sessions \<Rightarrow> sessions option" where
  "run_ops t [] w = Some w"
| "run_ops t (x # xs) w = Option.bind (run_op t x w) (run_ops t xs)"

datatype session_event =
  Call moment session_op
| Expire moment nat "session_op list" bool

fun run_event :: "session_event \<Rightarrow> sessions \<Rightarrow> sessions option" where
  "run_event (Call t x) w = run_op t x w"
| "run_event (Expire t a xs running) w =
     SessionTimeoutCallback t (\<lambda>w. map_option (\<lambda>w. (w, running)) (run_ops t xs w)) a w"

fun run_events :: "session_event list \<Rightarrow> sessions \<Rightarrow> sessions option" where
  "run_events [] w = Some w"
| "run_events (e # es) w = Option.bind (run_event e w) (run_events es)"

definition no_sessions :: sessions where
  "no_sessions = \<lparr>m_mapCallbackSession = [], store = Map.empty, timers = Map.empty\<rparr>"

section \<open>The table as a map\<close>

definition table_find :: "string \<times> string \<Rightarrow> (string, (string, nat) stdmap) stdmap \<Rightarrow> nat option" where
  "table_find k m = Option.bind (map_find (fst k) m) (map_find (snd k))"

definition table_put ::
    "string \<times> string \<Rightarrow> nat \<Rightarrow> (string, (string, nat) stdmap) stdmap \<Rightarrow> (string, (string, nat) stdmap) stdmap" where
  "table_put k a m =
     map_put (fst k) (map_put (snd k) a (case map_find (fst k) m of None \<Rightarrow> [] | Some ids \<Rightarrow> ids)) m"

definition table_erase ::
    "string \<times> string \<Rightarrow> (string, (string, nat) stdmap) stdmap \<Rightarrow> (string, (string, nat) stdmap) stdmap" where
  "table_erase k m =
     (case map_find (fst k) m of None \<Rightarrow> m | Some ids \<Rightarrow> map_put (fst k) (map_erase (snd k) ids) m)"

definition table_entries :: "(string, (string, nat) stdmap) stdmap \<Rightarrow> ((string \<times> string) \<times> nat) list" where
  "table_entries m = concat (map (\<lambda>(cls, ids). map (\<lambda>(sid, a). ((cls, sid), a)) ids) m)"

definition table_ok :: "(string, (string, nat) stdmap) stdmap \<Rightarrow> bool" where
  "table_ok m \<longleftrightarrow> map_ok m \<and> (\<forall>cls ids. map_find cls m = Some ids \<longrightarrow> map_ok ids)"

lemma table_find_put: "table_find k' (table_put k a m) = (if k' = k then Some a else table_find k' m)"
  by (cases k; cases k') (auto simp: table_find_def table_put_def map_find_put_any split: option.splits)

lemma table_find_erase: "table_find k' (table_erase k m) = (if k' = k then None else table_find k' m)"
  by (cases k; cases k')
    (auto simp: table_find_def table_erase_def map_find_put_any map_find_erase split: option.splits)

lemma table_put_ok: "table_ok m \<Longrightarrow> table_ok (table_put k a m)"
  by (auto simp: table_ok_def table_put_def map_find_put_any map_put_ok split: option.splits)

lemma table_erase_ok: "table_ok m \<Longrightarrow> table_ok (table_erase k m)"
  by (auto simp: table_ok_def table_erase_def map_find_put_any map_put_ok map_erase_ok split: option.splits)

lemma table_ok_inner: "table_ok m \<Longrightarrow> (cls, ids) \<in> set m \<Longrightarrow> map_find cls m = Some ids \<and> map_ok ids"
  using stdmap.entries_find [of m cls ids] by (auto simp: table_ok_def)

lemma table_entries_find: "table_ok m \<Longrightarrow> (k, a) \<in> set (table_entries m) \<longleftrightarrow> table_find k m = Some a"
proof (cases k)
  case (Pair cls sid)
  assume ok: "table_ok m"
  have "(k, a) \<in> set (table_entries m) \<longleftrightarrow> (\<exists>ids. (cls, ids) \<in> set m \<and> (sid, a) \<in> set ids)"
    by (force simp: Pair table_entries_def)
  also have "\<dots> \<longleftrightarrow> (\<exists>ids. map_find cls m = Some ids \<and> map_find sid ids = Some a)"
    using ok stdmap.entries_find [of m cls] table_ok_inner [OF ok] stdmap.entries_find
    by (metis table_ok_def)
  also have "\<dots> \<longleftrightarrow> table_find k m = Some a"
    by (auto simp: Pair table_find_def bind_eq_Some_conv)
  finally show ?thesis .
qed

lemma distinct_keys_concat:
  "distinct (map fst m) \<Longrightarrow> (\<And>c ids. (c, ids) \<in> set m \<Longrightarrow> distinct (map fst ids)) \<Longrightarrow>
   distinct (map fst (concat (map (\<lambda>(c, ids). map (\<lambda>(i, a). ((c, i), a)) ids) m)))"
proof (induction m)
  case (Cons e m)
  obtain c ids where e: "e = (c, ids)" by (cases e)
  have "distinct (map fst ids)" using Cons.prems(2) [of c] by (simp add: e)
  then have "distinct (map fst (map (\<lambda>(i, a). ((c, i), a)) ids))"
    by (induction ids) force+
  moreover have "distinct (map fst (concat (map (\<lambda>(c, ids). map (\<lambda>(i, a). ((c, i), a)) ids) m)))"
    using Cons by auto
  moreover have "c \<notin> fst ` set m" using Cons.prems(1) by (simp add: e)
  ultimately show ?case unfolding e by (fastforce simp: image_iff)
qed simp

interpretation session_table: ordered_map table_ok table_find table_put table_erase table_entries
proof
  fix m :: "(string, (string, nat) stdmap) stdmap"
  assume ok: "table_ok m"
  show "distinct (map fst (table_entries m))"
    unfolding table_entries_def
  proof (rule distinct_keys_concat)
    show "distinct (map fst m)" using ok by (simp add: table_ok_def map_ok_distinct)
    show "distinct (map fst ids)" if "(c, ids) \<in> set m" for c ids
      using table_ok_inner [OF ok that] by (simp add: map_ok_distinct)
  qed
qed (auto simp: table_find_put table_find_erase table_put_ok table_erase_ok table_entries_find)

definition session_key :: "session \<Rightarrow> string \<times> string" where
  "session_key s = (m_strSessionClassName s, m_strSessionId s)"

definition entered :: "sessions \<Rightarrow> string \<times> string \<Rightarrow> nat option" where
  "entered w k = table_find k (m_mapCallbackSession w)"

lemma enter_session_table:
  "enter_session a s w =
     (if entered w (session_key s) = None
      then (w\<lparr>m_mapCallbackSession := table_put (session_key s) a (m_mapCallbackSession w)\<rparr>, True) else (w, False))"
  by (auto simp: enter_session_def entered_def session_key_def table_find_def table_put_def Let_def split: option.splits)

lemma DeleteCallback_table:
  "DeleteCallback_session (Some a) w =
     Option.bind (store w a) (\<lambda>s.
       let w = (if s_pTimeoutWatcher s then w\<lparr>timers := (timers w)(a := None)\<rparr> else w) in
       case entered w (session_key s) of None \<Rightarrow> Some w
       | Some b \<Rightarrow> if store w b = None then None
           else Some (w\<lparr>store := (store w)(b := None),
                m_mapCallbackSession := table_erase (session_key s) (m_mapCallbackSession w)\<rparr>))"
  by (cases "store w a")
    (auto simp: DeleteCallback_session_def entered_def session_key_def table_find_def table_erase_def Let_def
      split: option.splits)

lemma GetSession_table:
  "GetSession t sid cls w =
     (case entered w (cls, sid) of None \<Rightarrow> Some (w, None)
      | Some a \<Rightarrow> Option.bind (store w a) (\<lambda>s. Some (put_session a (s\<lparr>m_activeTime := ev_now t\<rparr>) w, Some a)))"
  by (auto simp: GetSession_def entered_def table_find_def split: option.splits)

section \<open>What every run keeps\<close>

text \<open>An entry of the table is a live object of that name, an active timer belongs to a live object that is entered, and
  an entered object with a timer will be looked at again. The address \<open>skip\<close> is the session whose timer runs out
  at the moment.\<close>

definition entered_at :: "nat \<Rightarrow> sessions \<Rightarrow> bool" where
  "entered_at a w = (case store w a of None \<Rightarrow> False | Some s \<Rightarrow> entered w (session_key s) = Some a)"

definition session_ok :: "nat option \<Rightarrow> sessions \<Rightarrow> bool" where
  "session_ok skip w \<longleftrightarrow>
     table_ok (m_mapCallbackSession w) \<and>
     (\<forall>k a. entered w k = Some a \<longrightarrow> (\<exists>s. store w a = Some s \<and> session_key s = k \<and> s_bRegistered s)) \<and>
     (\<forall>a s. store w a = Some s \<longrightarrow> s_pTimeoutWatcher s \<longrightarrow> entered w (session_key s) = Some a) \<and>
     (\<forall>a s. store w a = Some s \<longrightarrow> s_pTimeoutWatcher s \<longrightarrow> Some a \<noteq> skip \<longrightarrow> timers w a \<noteq> None) \<and>
     (\<forall>a. timers w a \<noteq> None \<longrightarrow> (\<exists>s. store w a = Some s \<and> s_pTimeoutWatcher s))"

text \<open>The rules for business code: new objects are at free addresses, a session is registered while it exists,
  deleted through the worker only if it is entered, and otherwise by its owner.\<close>

fun allowed :: "session_op \<Rightarrow> sessions \<Rightarrow> bool" where
  "allowed (NewSession a s) w \<longleftrightarrow> store w a = None \<and> \<not> s_bRegistered s \<and> \<not> s_pTimeoutWatcher s"
| "allowed (Register a) w \<longleftrightarrow> store w a \<noteq> None"
| "allowed (Delete a) w \<longleftrightarrow> entered_at a w"
| "allowed (Get sid cls) w \<longleftrightarrow> True"
| "allowed (Free a) w \<longleftrightarrow> store w a \<noteq> None \<and> \<not> entered_at a w"

fun allowed_ops :: "moment \<Rightarrow> session_op list \<Rightarrow> sessions \<Rightarrow> bool" where
  "allowed_ops t [] w \<longleftrightarrow> True"
| "allowed_ops t (x # xs) w \<longleftrightarrow>
     allowed x w \<and> (case run_op t x w of None \<Rightarrow> True | Some w \<Rightarrow> allowed_ops t xs w)"

fun allowed_event :: "session_event \<Rightarrow> sessions \<Rightarrow> bool" where
  "allowed_event (Call t x) w \<longleftrightarrow> allowed x w"
| "allowed_event (Expire t a xs running) w \<longleftrightarrow>
     (let w = w\<lparr>timers := (timers w)(a := None)\<rparr> in
      allowed_ops t xs w \<and>
      (case run_ops t xs w of None \<Rightarrow> True
       | Some w \<Rightarrow> (case store w a of None \<Rightarrow> False | Some s \<Rightarrow> s_pTimeoutWatcher s)))"

fun allowed_events :: "session_event list \<Rightarrow> sessions \<Rightarrow> bool" where
  "allowed_events [] w \<longleftrightarrow> True"
| "allowed_events (e # es) w \<longleftrightarrow>
     allowed_event e w \<and> (case run_event e w of None \<Rightarrow> True | Some w \<Rightarrow> allowed_events es w)"

lemma session_okE:
  assumes "session_ok skip w"
  shows "table_ok (m_mapCallbackSession w)"
    and "entered w k = Some a \<Longrightarrow> \<exists>s. store w a = Some s \<and> session_key s = k \<and> s_bRegistered s"
    and "store w a = Some s \<Longrightarrow> s_pTimeoutWatcher s \<Longrightarrow> entered w (session_key s) = Some a"
    and "store w a = Some s \<Longrightarrow> s_pTimeoutWatcher s \<Longrightarrow> Some a \<noteq> skip \<Longrightarrow> timers w a \<noteq> None"
    and "timers w a \<noteq> None \<Longrightarrow> \<exists>s. store w a = Some s \<and> s_pTimeoutWatcher s"
  using assms unfolding session_ok_def by blast+

lemma session_okI:
  assumes "table_ok (m_mapCallbackSession w)"
    and "\<And>k a. entered w k = Some a \<Longrightarrow> \<exists>s. store w a = Some s \<and> session_key s = k \<and> s_bRegistered s"
    and "\<And>a s. store w a = Some s \<Longrightarrow> s_pTimeoutWatcher s \<Longrightarrow> entered w (session_key s) = Some a"
    and "\<And>a s. store w a = Some s \<Longrightarrow> s_pTimeoutWatcher s \<Longrightarrow> Some a \<noteq> skip \<Longrightarrow> timers w a \<noteq> None"
    and "\<And>a. timers w a \<noteq> None \<Longrightarrow> \<exists>s. store w a = Some s \<and> s_pTimeoutWatcher s"
  shows "session_ok skip w"
  using assms unfolding session_ok_def by blast

lemma entered_simps [simp]:
  "entered (put_session a s w) = entered w" "entered (w\<lparr>timers := ts\<rparr>) = entered w" "entered (w\<lparr>store := st\<rparr>) = entered w"
  "entered (start_timer t d a w) = entered w"
  "entered (w\<lparr>m_mapCallbackSession := m\<rparr>) k = table_find k m"
  by (simp_all add: fun_eq_iff entered_def put_session_def start_timer_def)

lemma store_simps [simp]:
  "store (put_session a s w) = (store w)(a \<mapsto> s)" "store (start_timer t d a w) = store w"
  "timers (put_session a s w) = timers w" "m_mapCallbackSession (put_session a s w) = m_mapCallbackSession w"
  "m_mapCallbackSession (start_timer t d a w) = m_mapCallbackSession w"
  "timers (start_timer t d a w) = (timers w)(a \<mapsto> due_time t d)"
  by (simp_all add: put_session_def start_timer_def)

text \<open>Changing an object in place, and adding one that is not registered.\<close>

lemma session_ok_put:
  assumes ok: "session_ok skip w" and s': "store w a = Some s'" and same: "session_key s = session_key s'"
    "s_pTimeoutWatcher s = s_pTimeoutWatcher s'" "s_bRegistered s' \<Longrightarrow> s_bRegistered s"
  shows "session_ok skip (put_session a s w)"
proof (rule session_okI)
  fix k b assume "entered (put_session a s w) k = Some b"
  then show "\<exists>r. store (put_session a s w) b = Some r \<and> session_key r = k \<and> s_bRegistered r"
    using session_okE(2) [OF ok, of k b] s' same by (cases "b = a") auto
next
  fix b r assume "store (put_session a s w) b = Some r" "s_pTimeoutWatcher r"
  then show "entered (put_session a s w) (session_key r) = Some b"
    using session_okE(3) [OF ok] s' same by (cases "b = a") auto
next
  fix b r assume "store (put_session a s w) b = Some r" "s_pTimeoutWatcher r" "Some b \<noteq> skip"
  then show "timers (put_session a s w) b \<noteq> None"
    using session_okE(4) [OF ok] s' same by (cases "b = a") auto
next
  fix b assume "timers (put_session a s w) b \<noteq> None"
  then show "\<exists>r. store (put_session a s w) b = Some r \<and> s_pTimeoutWatcher r"
    using session_okE(5) [OF ok, of b] s' same by (cases "b = a") auto
qed (use session_okE(1) [OF ok] in simp)

lemma session_ok_new:
  assumes ok: "session_ok skip w" and s: "store w a = None" "\<not> s_pTimeoutWatcher s"
  shows "session_ok skip (put_session a s w)"
proof (rule session_okI)
  fix k b assume "entered (put_session a s w) k = Some b"
  then show "\<exists>r. store (put_session a s w) b = Some r \<and> session_key r = k \<and> s_bRegistered r"
    using session_okE(2) [OF ok, of k b] s by (cases "b = a") auto
next
  fix b r assume "store (put_session a s w) b = Some r" "s_pTimeoutWatcher r"
  then show "entered (put_session a s w) (session_key r) = Some b"
    using session_okE(3) [OF ok, of b r] s by (cases "b = a") auto
next
  fix b r assume "store (put_session a s w) b = Some r" "s_pTimeoutWatcher r" "Some b \<noteq> skip"
  then show "timers (put_session a s w) b \<noteq> None"
    using session_okE(4) [OF ok, of b r] s by (cases "b = a") auto
next
  fix b assume "timers (put_session a s w) b \<noteq> None"
  then show "\<exists>r. store (put_session a s w) b = Some r \<and> s_pTimeoutWatcher r"
    using session_okE(5) [OF ok, of b] s by (cases "b = a") auto
qed (use session_okE(1) [OF ok] in simp)

text \<open>Entering an object under a free name; giving an entered object a timer; freeing one.\<close>

lemma session_ok_enter:
  assumes ok: "session_ok skip w" and s: "store w a = Some s" "s_bRegistered s" "\<not> s_pTimeoutWatcher s"
    and free: "entered w (session_key s) = None"
  shows "session_ok skip (w\<lparr>m_mapCallbackSession := table_put (session_key s) a (m_mapCallbackSession w)\<rparr>)"
    (is "session_ok skip ?w")
proof (rule session_okI)
  fix k b assume "entered ?w k = Some b"
  then show "\<exists>r. store ?w b = Some r \<and> session_key r = k \<and> s_bRegistered r"
    using session_okE(2) [OF ok, of k b] s by (cases "k = session_key s") (auto simp: table_find_put entered_def)
next
  fix b r assume "store ?w b = Some r" "s_pTimeoutWatcher r"
  then have "entered w (session_key r) = Some b" using session_okE(3) [OF ok] by simp
  then show "entered ?w (session_key r) = Some b"
    using free by (cases "session_key r = session_key s") (simp_all add: table_find_put entered_def)
next
  fix b r assume "store ?w b = Some r" "s_pTimeoutWatcher r" "Some b \<noteq> skip"
  then show "timers ?w b \<noteq> None" using session_okE(4) [OF ok] by simp
next
  fix b assume "timers ?w b \<noteq> None"
  then show "\<exists>r. store ?w b = Some r \<and> s_pTimeoutWatcher r" using session_okE(5) [OF ok] by simp
qed (use session_okE(1) [OF ok] in \<open>simp add: table_put_ok\<close>)

lemma session_ok_timer:
  assumes ok: "session_ok skip w" and s: "store w a = Some s" "entered w (session_key s) = Some a"
  shows "session_ok skip (start_timer t d a (put_session a (s\<lparr>s_pTimeoutWatcher := True\<rparr>) w))" (is "session_ok skip ?w")
proof (rule session_okI)
  have reg: "s_bRegistered s" using session_okE(2) [OF ok s(2)] s(1) by auto
  fix k b assume "entered ?w k = Some b"
  then show "\<exists>r. store ?w b = Some r \<and> session_key r = k \<and> s_bRegistered r"
    using session_okE(2) [OF ok, of k b] s reg by (cases "b = a") (auto simp: session_key_def)
next
  fix b r assume "store ?w b = Some r" "s_pTimeoutWatcher r"
  then show "entered ?w (session_key r) = Some b"
    using session_okE(3) [OF ok, of b r] s by (cases "b = a") (auto simp: session_key_def)
next
  fix b r assume "store ?w b = Some r" "s_pTimeoutWatcher r" "Some b \<noteq> skip"
  then show "timers ?w b \<noteq> None" using session_okE(4) [OF ok, of b r] by (cases "b = a") auto
next
  fix b assume "timers ?w b \<noteq> None"
  then show "\<exists>r. store ?w b = Some r \<and> s_pTimeoutWatcher r" using session_okE(5) [OF ok, of b] by (cases "b = a") auto
qed (use session_okE(1) [OF ok] in simp)

lemma session_ok_restart:
  assumes "session_ok skip w" "store w a = Some s" "s_pTimeoutWatcher s" "skip = None \<or> skip = Some a"
  shows "session_ok None (start_timer t d a w)"
  by (rule session_okI) (use session_okE [OF assms(1)] assms(2-) in \<open>auto split: if_splits\<close>)

lemma session_ok_skip: "session_ok None w \<Longrightarrow> session_ok (Some a) (w\<lparr>timers := (timers w)(a := None)\<rparr>)"
  by (rule session_okI) (use session_okE [of None w] in \<open>auto split: if_splits\<close>)

text \<open>A session that leaves the table and is freed, and one that is freed without having been in the table.\<close>

lemma session_ok_leave:
  assumes ok: "session_ok skip w" and s: "store w a = Some s" "entered w (session_key s) = Some a"
    and skip: "skip = skip' \<or> skip = Some a"
  shows "session_ok skip' (w\<lparr>timers := (timers w)(a := None), store := (store w)(a := None),
           m_mapCallbackSession := table_erase (session_key s) (m_mapCallbackSession w)\<rparr>)" (is "session_ok skip' ?w")
proof (rule session_okI)
  have find: "entered ?w k = (if k = session_key s then None else entered w k)" for k
    by (simp add: table_find_erase entered_def)
  fix k b assume k: "entered ?w k = Some b"
  then have "k \<noteq> session_key s" "entered w k = Some b" using find [of k] by (auto split: if_splits)
  then show "\<exists>r. store ?w b = Some r \<and> session_key r = k \<and> s_bRegistered r"
    using session_okE(2) [OF ok, of k b] s by (cases "b = a") auto
next
  fix b r assume "store ?w b = Some r" "s_pTimeoutWatcher r"
  then have "b \<noteq> a" "entered w (session_key r) = Some b" using session_okE(3) [OF ok, of b r] by (auto split: if_splits)
  then show "entered ?w (session_key r) = Some b" using s(2)
    by (cases "session_key r = session_key s") (simp_all add: table_find_erase entered_def)
next
  fix b r assume "store ?w b = Some r" "s_pTimeoutWatcher r" "Some b \<noteq> skip'"
  then show "timers ?w b \<noteq> None" using session_okE(4) [OF ok, of b r] skip by (auto split: if_splits)
next
  fix b assume "timers ?w b \<noteq> None"
  then show "\<exists>r. store ?w b = Some r \<and> s_pTimeoutWatcher r"
    using session_okE(5) [OF ok, of b] by (auto split: if_splits)
qed (use session_okE(1) [OF ok] in \<open>simp add: table_erase_ok\<close>)

lemma session_ok_free:
  assumes ok: "session_ok skip w" and s: "store w a = Some s" "entered w (session_key s) \<noteq> Some a"
  shows "session_ok skip (w\<lparr>store := (store w)(a := None)\<rparr>)" (is "session_ok skip ?w")
proof (rule session_okI)
  fix k b assume "entered ?w k = Some b"
  then show "\<exists>r. store ?w b = Some r \<and> session_key r = k \<and> s_bRegistered r"
    using session_okE(2) [OF ok, of k b] s by (cases "b = a") auto
next
  fix b assume "timers ?w b \<noteq> None"
  then obtain r where "store w b = Some r" "s_pTimeoutWatcher r" using session_okE(5) [OF ok] by auto
  then show "\<exists>r. store ?w b = Some r \<and> s_pTimeoutWatcher r"
    using session_okE(3) [OF ok, of b r] s by (cases "b = a") auto
qed (use session_okE [OF ok] in \<open>auto split: if_splits\<close>)

text \<open>Hence every operation that the rules allow is defined and keeps the invariant.\<close>

lemma Register_ok:
  assumes ok: "session_ok skip w" and a: "store w a \<noteq> None"
  shows "\<exists>r. RegisterCallback_session t (Some a) w = Some r \<and> session_ok skip (fst r)"
proof -
  from a obtain s where s: "store w a = Some s" by auto
  show ?thesis
  proof (cases "s_bRegistered s")
    case True
    then show ?thesis using s ok by (simp add: RegisterCallback_session_def)
  next
    case False
    let ?s = "s\<lparr>s_bRegistered := True, m_activeTime := ev_now t\<rparr>"
    let ?v = "put_session a ?s w"
    have key: "session_key ?s = session_key s" by (simp add: session_key_def)
    have v: "session_ok skip ?v" by (rule session_ok_put [OF ok s key]) simp_all
    show ?thesis
    proof (cases "entered w (session_key s) = None")
      case True
      have nw: "\<not> s_pTimeoutWatcher s" using session_okE(3) [OF ok s] True by auto
      let ?e = "?v\<lparr>m_mapCallbackSession := table_put (session_key ?s) a (m_mapCallbackSession ?v)\<rparr>"
      have e: "session_ok skip ?e"
        by (rule session_ok_enter [OF v]) (use True nw in \<open>simp_all add: key\<close>)
      have "session_ok skip (start_timer t d a (put_session a (?s\<lparr>s_pTimeoutWatcher := True\<rparr>) ?e))" for d
        by (rule session_ok_timer [OF e]) (simp_all add: key table_find_put)
      with e show ?thesis using s False True
        by (cases "m_dSessionTimeout s = 0"; cases "malloc_works t")
          (simp_all add: RegisterCallback_session_def enter_session_table key Let_def)
    qed (use s False v in \<open>auto simp: RegisterCallback_session_def enter_session_table key Let_def\<close>)
  qed
qed

lemma Delete_ok:
  assumes ok: "session_ok skip w" and a: "entered_at a w" and skip: "skip = skip' \<or> skip = Some a"
  shows "\<exists>w'. DeleteCallback_session (Some a) w = Some w' \<and> session_ok skip' w' \<and> store w' a = None"
proof -
  from a obtain s where s: "store w a = Some s" "entered w (session_key s) = Some a"
    by (auto simp: entered_at_def split: option.splits)
  have t: "timers w a = None" if "\<not> s_pTimeoutWatcher s" using session_okE(5) [OF ok, of a] s that by (cases "timers w a") auto
  have "DeleteCallback_session (Some a) w =
     Some (w\<lparr>timers := (timers w)(a := None), store := (store w)(a := None),
            m_mapCallbackSession := table_erase (session_key s) (m_mapCallbackSession w)\<rparr>)"
    using s t by (cases "s_pTimeoutWatcher s") (simp_all add: DeleteCallback_table fun_upd_idem)
  with session_ok_leave [OF ok s skip] show ?thesis by simp
qed

lemma Get_ok:
  assumes ok: "session_ok skip w"
  shows "\<exists>w'. GetSession t sid cls w = Some (w', entered w (cls, sid)) \<and> session_ok skip w' \<and> entered w' = entered w"
proof (cases "entered w (cls, sid)")
  case None
  then show ?thesis using ok by (simp add: GetSession_table)
next
  case (Some a)
  then obtain s where s: "store w a = Some s" using session_okE(2) [OF ok] by blast
  have "session_ok skip (put_session a (s\<lparr>m_activeTime := ev_now t\<rparr>) w)"
    by (rule session_ok_put [OF ok s]) (simp_all add: session_key_def)
  then show ?thesis using s Some by (simp add: GetSession_table)
qed

lemma run_op_ok:
  assumes ok: "session_ok skip w" and x: "allowed x w"
  shows "\<exists>w'. run_op t x w = Some w' \<and> session_ok skip w'"
proof (cases x)
  case (NewSession a s)
  then show ?thesis using session_ok_new [OF ok] x by simp
next
  case (Register a)
  then show ?thesis using Register_ok [OF ok, of a t] x by auto
next
  case (Delete a)
  then show ?thesis using Delete_ok [OF ok, of a skip] x by auto
next
  case (Get sid cls)
  then show ?thesis using Get_ok [OF ok, of t sid cls] by auto
next
  case (Free a)
  then obtain s where "store w a = Some s" "entered w (session_key s) \<noteq> Some a"
    using x by (auto simp: entered_at_def)
  then show ?thesis using session_ok_free [OF ok] Free by simp
qed

lemma run_ops_ok: "session_ok skip w \<Longrightarrow> allowed_ops t xs w \<Longrightarrow> \<exists>w'. run_ops t xs w = Some w' \<and> session_ok skip w'"
proof (induction xs arbitrary: w)
  case (Cons x xs)
  obtain v where "run_op t x w = Some v" "session_ok skip v" using run_op_ok [OF Cons.prems(1), of x t] Cons.prems by auto
  then show ?case using Cons by simp
qed simp

lemma run_event_ok:
  assumes ok: "session_ok None w" and e: "allowed_event e w"
  shows "\<exists>w'. run_event e w = Some w' \<and> session_ok None w'"
proof (cases e)
  case (Call t x)
  then show ?thesis using run_op_ok [OF ok] e by simp
next
  case (Expire t a xs running)
  let ?v = "w\<lparr>timers := (timers w)(a := None)\<rparr>"
  show ?thesis
  proof (cases "timers w a")
    case (Some due)
    then obtain s where s: "store w a = Some s" "s_pTimeoutWatcher s" using session_okE(5) [OF ok, of a] by auto
    have v: "session_ok (Some a) ?v" by (rule session_ok_skip [OF ok])
    obtain u where u: "run_ops t xs ?v = Some u" "session_ok (Some a) u"
      using run_ops_ok [OF v, of t xs] e by (auto simp: Expire Let_def)
    obtain r where r: "store u a = Some r" "s_pTimeoutWatcher r"
      using e u(1) by (auto simp: Expire Let_def split: option.splits)
    have at: "entered_at a u" using session_okE(3) [OF u(2) r] r(1) by (simp add: entered_at_def)
    have after: "session_ok None (start_timer t d a ?v)" for d
      by (rule session_ok_restart [OF v, of _ s]) (use s in simp_all)
    have again: "session_ok None (start_timer t d a u)" for d
      by (rule session_ok_restart [OF u(2) r]) simp
    obtain z where "DeleteCallback_session (Some a) u = Some z" "session_ok None z"
      using Delete_ok [OF u(2) at, of None] by auto
    then show ?thesis
      using Some s u(1) r after again ok by (simp add: Expire SessionTimeoutCallback_def SessionTimeout_def Let_def)
  qed (use ok Expire in \<open>simp add: SessionTimeoutCallback_def\<close>)
qed

lemma run_events_ok:
  "session_ok None w \<Longrightarrow> allowed_events es w \<Longrightarrow> \<exists>w'. run_events es w = Some w' \<and> session_ok None w'"
proof (induction es arbitrary: w)
  case (Cons e es)
  obtain v where "run_event e w = Some v" "session_ok None v" using run_event_ok [OF Cons.prems(1), of e] Cons.prems by auto
  then show ?case using Cons by simp
qed simp

lemma no_sessions_ok: "session_ok skip no_sessions"
  by (simp add: session_ok_def no_sessions_def entered_def table_find_def table_ok_def)

text \<open>C10: As long as the code of the sessions follows the rules (it deletes through the worker only what it has
  registered, and never what is in use), no run of registrations, lookups, deletions and timeouts uses freed memory:
  every event is defined, and afterwards each table entry is a live object of that name, each active timer
  belongs to an object in the table, and each such object still has its timer.
\<close>

theorem sessions_memory_safe:
  assumes "allowed_events es no_sessions"
  shows "\<exists>w. run_events es no_sessions = Some w \<and> session_ok None w"
  by (rule run_events_ok [OF no_sessions_ok assms])

text \<open>A session that an access node keeps for a client, a second one of the same name, and a run: the first is registered,
  looked up, kept because it was looked up, and deleted when its time is over.\<close>

definition client_session :: session where
  "client_session = Session_new_number 7 60 ''im.UserSession''"

definition client_run :: "session_event list" where
  "client_run =
     [Call (moment_at 100) (NewSession 1 client_session), Call (moment_at 100) (Register 1),
      Call (moment_at 130) (NewSession 2 client_session), Call (moment_at 130) (Register 2), Call (moment_at 130) (Free 2),
      Call (moment_at 150) (Get ''7'' ''im.UserSession''), Expire (moment_at 160) 1 [] False, Expire (moment_at 210) 1 [] False]"

lemma client_session_unfold:
  "client_session = \<lparr>s_bRegistered = False, m_dSessionTimeout = 60, m_activeTime = 0, m_strSessionId = ''7'',
     m_strSessionClassName = ''im.UserSession'', s_pTimeoutWatcher = False\<rparr>"
  by code_simp

lemmas session_run_simps =
  due_time_def client_session_unfold no_sessions_def RegisterCallback_session_def enter_session_def put_session_def start_timer_def
  DeleteCallback_session_def GetSession_def SessionTimeoutCallback_def SessionTimeout_def map_erase_def Let_def

theorem sessions_memory_safe_witness:
  "\<exists>w. run_events client_run no_sessions = Some w \<and> session_ok None w"
proof (rule sessions_memory_safe)
  show "allowed_events client_run no_sessions"
    by (simp add: client_run_def session_run_simps entered_at_def entered_def session_key_def table_find_def)
qed

text \<open>What the operations do to the table, and when a session goes.\<close>

lemma Register_entered:
  assumes "store w a = Some s" "RegisterCallback_session t (Some a) w = Some (w', b)"
  shows "entered w' = (if s_bRegistered s \<or> entered w (session_key s) \<noteq> None then entered w
                       else (entered w)(session_key s \<mapsto> a))"
proof -
  let ?s = "s\<lparr>s_bRegistered := True, m_activeTime := ev_now t\<rparr>"
  have key: "session_key ?s = session_key s" by (simp add: session_key_def)
  have put: "entered (v\<lparr>m_mapCallbackSession := table_put k a (m_mapCallbackSession w)\<rparr>) = (entered w)(k \<mapsto> a)" for v k
    by (rule ext) (simp add: table_find_put entered_def)
  show ?thesis
    using assms by (auto simp: RegisterCallback_session_def enter_session_table key Let_def put split: if_splits)
qed

lemma Delete_entered:
  assumes "store w a = Some s" "DeleteCallback_session (Some a) w = Some w'"
  shows "entered w' = (entered w)(session_key s := None)"
proof -
  have erase: "entered (v\<lparr>m_mapCallbackSession := table_erase k (m_mapCallbackSession w)\<rparr>) = (entered w)(k := None)" for v k
    by (rule ext) (simp add: table_find_erase entered_def)
  show ?thesis
    using assms by (auto simp: DeleteCallback_table Let_def erase fun_upd_idem split: option.splits if_splits)
qed

fun table_spec :: "sessions \<Rightarrow> session_op \<Rightarrow> (string \<times> string \<rightharpoonup> nat) \<Rightarrow> (string \<times> string \<rightharpoonup> nat)" where
  "table_spec w (Register a) T =
     (case store w a of None \<Rightarrow> T
      | Some s \<Rightarrow> if s_bRegistered s \<or> T (session_key s) \<noteq> None then T else T(session_key s \<mapsto> a))"
| "table_spec w (Delete a) T =
     (case store w a of None \<Rightarrow> T | Some s \<Rightarrow> T(session_key s := None))"
| "table_spec w x T = T"

text \<open>C20: The table of sessions is a map from names to objects. An operation changes it as the abstract map is changed: a
  registration adds the object when its name is free and it was not registered, a deletion removes the
  name, nothing else touches it; and a lookup returns the object of that name, whatever was done before.
\<close>

theorem session_table_refines:
  assumes "session_ok skip w" "allowed x w" "run_op t x w = Some w'"
  shows "entered w' = table_spec w x (entered w) \<and>
    map_option snd (GetSession t' sid cls w') = Some (table_spec w x (entered w) (cls, sid))"
proof -
  have e: "entered w' = table_spec w x (entered w)"
  proof (cases x)
    case (Get sid cls)
    then show ?thesis using assms Get_ok [OF assms(1), of t sid cls] by auto
  qed (use assms Register_entered Delete_entered in \<open>fastforce simp: entered_at_def split: option.splits if_splits\<close>)+
  have "session_ok skip w'" using run_op_ok [OF assms(1,2), of t] assms(3) by simp
  from Get_ok [OF this, of t' sid cls] e show ?thesis by auto
qed

definition one_session :: sessions where
  "one_session =
     \<lparr>m_mapCallbackSession = [(''im.UserSession'', [(''7'', 1)])],
      store = [1 \<mapsto> client_session\<lparr>s_bRegistered := True, m_activeTime := 100, s_pTimeoutWatcher := True\<rparr>,
               2 \<mapsto> client_session],
      timers = [1 \<mapsto> 160]\<rparr>"

lemma one_session_ok: "session_ok None one_session"
  by (rule session_okI)
    (auto simp: one_session_def client_session_unfold entered_def table_find_def table_ok_def map_ok_def session_key_def
      split: if_splits)

theorem session_table_refines_witness:
  "\<exists>w'. run_op (moment_at 130) (Register 2) one_session = Some w' \<and>
    entered w' = table_spec one_session (Register 2) (entered one_session) \<and>
    map_option snd (GetSession (moment_at 140) ''7'' ''im.UserSession'' w') =
      Some (table_spec one_session (Register 2) (entered one_session) (''im.UserSession'', ''7''))"
proof -
  have x: "allowed (Register 2) one_session" by (simp add: one_session_def)
  obtain w' where w': "run_op (moment_at 130) (Register 2) one_session = Some w'"
    using run_op_ok [OF one_session_ok x] by blast
  show ?thesis by (intro exI [of _ w'] conjI w') (use session_table_refines [OF one_session_ok x w'] in blast)+
qed

text \<open>A lookup keeps a session alive: until its time after the lookup is over its timer only starts again. Then,
  when the timer runs and the session does not want to go on, it is removed from the table and freed.
\<close>

theorem session_expiry:
  assumes ok: "session_ok None w" and get: "GetSession t0 sid cls w = Some (v, Some a)" and s: "store v a = Some s"
    and due: "timers v a = Some due" "due \<le> ev_now t"
    and biz: "biz (v\<lparr>timers := (timers v)(a := None)\<rparr>) = Some (u, False)" "session_ok (Some a) u" "entered u (cls, sid) = Some a"
  shows "\<exists>z. SessionTimeoutCallback t biz a v = Some z \<and>
    (if ev_now t < ev_now t0 + m_dSessionTimeout s then entered z (cls, sid) = Some a
     else entered z (cls, sid) = None \<and> store z a = None)"
proof -
  obtain v' where "GetSession t0 sid cls w = Some (v', entered w (cls, sid))" "session_ok None v'" "entered v' = entered w"
    using Get_ok [OF ok] by blast
  with get have v: "session_ok None v" "entered v (cls, sid) = Some a" by auto
  have act: "m_activeTime s = ev_now t0"
    using get s by (auto simp: GetSession_table bind_eq_Some_conv split: option.splits)
  have watch: "s_pTimeoutWatcher s" using session_okE(5) [OF v(1), of a] due s by auto
  obtain r where r: "store u a = Some r" "session_key r = (cls, sid)" using session_okE(2) [OF biz(2,3)] by auto
  have at: "entered_at a u" by (simp add: entered_at_def r biz(3))
  obtain z where z: "DeleteCallback_session (Some a) u = Some z" "store z a = None"
    using Delete_ok [OF biz(2) at, of None] by auto
  have gone: "entered z (cls, sid) = None" using Delete_entered [OF r(1) z(1)] r(2) by simp
  show ?thesis
    using due s biz(1) z gone v(2) watch
    by (auto simp: SessionTimeoutCallback_def SessionTimeout_def act Let_def)
qed

theorem session_expiry_witness:
  "\<exists>v z. GetSession (moment_at 110) ''7'' ''im.UserSession'' one_session = Some (v, Some 1) \<and>
    SessionTimeoutCallback (moment_at 200) (\<lambda>w. Some (w, False)) 1 v = Some z \<and> store z 1 = None"
proof -
  let ?s = "client_session\<lparr>s_bRegistered := True, m_activeTime := 110, s_pTimeoutWatcher := True\<rparr>"
  let ?v = "one_session\<lparr>store := (store one_session)(1 \<mapsto> ?s)\<rparr>"
  have get: "GetSession (moment_at 110) ''7'' ''im.UserSession'' one_session = Some (?v, Some 1)"
    by (simp add: GetSession_def one_session_def put_session_def client_session_unfold)
  have v: "session_ok None ?v" using Get_ok [OF one_session_ok, of "moment_at 110" "''7''" "''im.UserSession''"] get by auto
  have "\<exists>z. SessionTimeoutCallback (moment_at 200) (\<lambda>w. Some (w, False)) 1 ?v = Some z \<and>
    (if ev_now (moment_at 200) < ev_now (moment_at 110) + m_dSessionTimeout ?s then entered z (''im.UserSession'', ''7'') = Some 1
     else entered z (''im.UserSession'', ''7'') = None \<and> store z 1 = None)"
    by (rule session_expiry [OF one_session_ok get _ _ _ _ session_ok_skip [OF v], of ?s 160])
      (simp_all add: one_session_def entered_def table_find_def)
  then obtain z where "SessionTimeoutCallback (moment_at 200) (\<lambda>w. Some (w, False)) 1 ?v = Some z" "store z 1 = None"
    by (auto simp: client_session_unfold)
  with get show ?thesis by blast
qed

text \<open>A second object of a name that is taken is refused once and then reported as registered, though lookups still
  find the first. If it is deleted through the worker, the first one is freed instead and its timer stays
  active, so that the next timeout uses freed memory.
\<close>

theorem duplicate_session:
  assumes ok: "session_ok None w" and s: "store w a = Some s" "\<not> s_bRegistered s" and b: "entered w (session_key s) = Some b"
    and due: "timers w b = Some due" "due \<le> ev_now t''"
  shows "\<exists>v z. RegisterCallback_session t (Some a) w = Some (v, False) \<and>
    RegisterCallback_session t' (Some a) v = Some (v, True) \<and> entered v (session_key s) = Some b \<and>
    DeleteCallback_session (Some a) v = Some z \<and> store z b = None \<and> store z a \<noteq> None \<and>
    SessionTimeoutCallback t'' biz b z = None"
proof -
  let ?s = "s\<lparr>s_bRegistered := True, m_activeTime := ev_now t\<rparr>"
  let ?v = "put_session a ?s w"
  let ?z = "?v\<lparr>store := (store ?v)(b := None), m_mapCallbackSession := table_erase (session_key s) (m_mapCallbackSession w)\<rparr>"
  have key: "session_key ?s = session_key s" by (simp add: session_key_def)
  obtain r where r: "store w b = Some r" "s_bRegistered r" using session_okE(2) [OF ok b] by blast
  then have ab: "a \<noteq> b" using s by auto
  have nw: "\<not> s_pTimeoutWatcher s" using session_okE(3) [OF ok s(1)] b ab by auto
  have "RegisterCallback_session t (Some a) w = Some (?v, False)"
    using s b by (simp add: RegisterCallback_session_def enter_session_table key Let_def)
  moreover have "RegisterCallback_session t' (Some a) ?v = Some (?v, True)" by (simp add: RegisterCallback_session_def)
  moreover have "DeleteCallback_session (Some a) ?v = Some ?z"
    using nw b r ab by (simp add: DeleteCallback_table key Let_def)
  moreover have "SessionTimeoutCallback t'' biz b ?z = None"
    using due by (simp add: SessionTimeoutCallback_def SessionTimeout_def)
  ultimately show ?thesis using ab b by (intro exI [of _ ?v] exI [of _ ?z]) simp
qed

theorem duplicate_session_witness:
  "\<exists>z. DeleteCallback_session (Some 2) (put_session 2 (client_session\<lparr>s_bRegistered := True, m_activeTime := 130\<rparr>) one_session)
     = Some z \<and> store z 1 = None \<and> SessionTimeoutCallback (moment_at 160) (\<lambda>w. Some (w, False)) 1 z = None"
proof -
  have "\<exists>v z. RegisterCallback_session (moment_at 130) (Some 2) one_session = Some (v, False) \<and>
    RegisterCallback_session (moment_at 131) (Some 2) v = Some (v, True) \<and> entered v (session_key client_session) = Some 1 \<and>
    DeleteCallback_session (Some 2) v = Some z \<and> store z 1 = None \<and> store z 2 \<noteq> None \<and>
    SessionTimeoutCallback (moment_at 160) (\<lambda>w. Some (w, False)) 1 z = None"
    by (rule duplicate_session [OF one_session_ok, where due = 160])
      (simp_all add: one_session_def client_session_unfold entered_def table_find_def session_key_def)
  then show ?thesis
    by (auto simp: RegisterCallback_session_def enter_session_def one_session_def client_session_unfold Let_def split: if_splits)
qed

end
