(* ===== verification/Step_Chain.thy ===== *)
theory Step_Chain
  imports Worker_Clock StdSet
begin

text \<open>
  Steps as objects (\<open>Starship/src/step/Step.cpp\<close> and the functions of \<open>OssWorker.cpp\<close> that register, run
  and delete them). A step points to the step that comes next, and knows by their numbers the next steps that are
  registered and the steps that it has to wait for. The store maps addresses to objects; \<open>None\<close> is the
  use of an address without object, of a timer that was never made, or of an iterator whose entry is gone. The
  virtual functions of a step are arguments that return the new state and whether the step goes on.
\<close>

section \<open>Objects and tables\<close>

type_synonym redis_cmd = "string \<times> (string \<times> bool) list"

record step_obj =
  m_bRegistered :: bool
  m_ulSequence :: u32
  m_dActiveTime :: rat
  m_dTimeout :: rat
  m_pLabor :: bool
  m_pTimeoutWatcher :: bool
  m_pNextStep :: "nat option"
  m_setNextStepSeq :: "u32 stdset"
  m_setPreStepSeq :: "u32 stdset"
  m_pRedisCmd :: "redis_cmd option"

text \<open>\<open>rest\<close> is the part of the worker that steps are not concerned with.\<close>

record 'r step_world =
  m_mapCallbackStep :: "(u32, nat) stdmap"
  w_ulSequence :: u32
  m_dStepTimeout :: rat
  objects :: "(nat, step_obj) stdmap"
  step_timers :: "(nat, rat) stdmap"
  rest :: 'r

definition deref :: "nat \<Rightarrow> 'r step_world \<Rightarrow> step_obj option" where
  "deref a w = map_find a (objects w)"

definition put_step :: "nat \<Rightarrow> step_obj \<Rightarrow> 'r step_world \<Rightarrow> 'r step_world" where
  "put_step a s w = w\<lparr>objects := map_put a s (objects w)\<rparr>"

definition GetSequence_labor :: "'r step_world \<Rightarrow> 'r step_world \<times> u32" where
  "GetSequence_labor w =
     (let s = w_ulSequence w + 1; s = (if s = 0 then s + 1 else s) in (w\<lparr>w_ulSequence := s\<rparr>, s))"

definition Step_GetSequence :: "nat \<Rightarrow> 'r step_world \<Rightarrow> ('r step_world \<times> u32) option" where
  "Step_GetSequence a w =
     Option.bind (deref a w) (\<lambda>s.
       if \<not> m_bRegistered s then Some (w, 0)
       else if m_ulSequence s = 0 \<and> m_pLabor s then
         let (w, n) = GetSequence_labor w in Some (put_step a (s\<lparr>m_ulSequence := n\<rparr>) w, n)
       else Some (w, m_ulSequence s))"

text \<open>The constructor, and the destructor with the chain of steps that it deletes. \<open>running\<close> are the objects whose
  destructors have begun: they can still be read, but not be deleted again.\<close>

definition Step_new :: "nat option \<Rightarrow> redis_cmd option \<Rightarrow> 'r step_world \<Rightarrow> ('r step_world \<times> step_obj) option" where
  "Step_new next cmd w =
     (let s = \<lparr>m_bRegistered = False, m_ulSequence = 0, m_dActiveTime = 0, m_dTimeout = 1/2, m_pLabor = False,
                m_pTimeoutWatcher = False, m_pNextStep = next, m_setNextStepSeq = [], m_setPreStepSeq = [], m_pRedisCmd = cmd\<rparr> in
      case next of None \<Rightarrow> Some (w, s)
      | Some b \<Rightarrow>
          Option.bind (deref b w) (\<lambda>r.
            if m_bRegistered r then map_option (\<lambda>(w, n). (w, s\<lparr>m_setNextStepSeq := [n]\<rparr>)) (Step_GetSequence b w)
            else Some (w, s)))"

function destroy :: "nat list \<Rightarrow> nat \<Rightarrow> (nat, step_obj) stdmap \<Rightarrow> (nat, step_obj) stdmap option" where
  "destroy running a m =
     (if a \<in> set running then None
      else case map_find a m of None \<Rightarrow> None
      | Some s \<Rightarrow>
          (case m_pNextStep s of None \<Rightarrow> Some (map_erase a m)
           | Some b \<Rightarrow>
               (case map_find b m of None \<Rightarrow> None
                | Some r \<Rightarrow>
                    if m_bRegistered r then Some (map_erase a m)
                    else map_option (map_erase a) (destroy (a # running) b m))))"
  by pat_completeness auto

lemma map_find_mem: "map_find a m = Some s \<Longrightarrow> (a, s) \<in> set m"
  by (induction m) (auto split: if_splits)

lemma destroy_less:
  assumes "a \<notin> set d" "map_find a m = Some s"
  shows "length (filter (\<lambda>e. fst e \<notin> set (a # d)) m) < length (filter (\<lambda>e. fst e \<notin> set d) m)"
proof -
  have "(a, s) \<in> set (filter (\<lambda>e. fst e \<notin> set d) m)" using assms map_find_mem by fastforce
  then have "length (filter (\<lambda>e. fst e \<noteq> a) (filter (\<lambda>e. fst e \<notin> set d) m)) < length (filter (\<lambda>e. fst e \<notin> set d) m)"
    by (rule length_filter_less) simp
  moreover have "filter (\<lambda>e. fst e \<noteq> a) (filter (\<lambda>e. fst e \<notin> set d) m) = filter (\<lambda>e. fst e \<notin> set (a # d)) m"
    by (induction m) auto
  ultimately show ?thesis by simp
qed

termination destroy
  by (relation "measure (\<lambda>(d, a, m). length (filter (\<lambda>e. fst e \<notin> set d) m))") (auto dest: destroy_less)

declare destroy.simps [simp del]

section \<open>Timers\<close>

text \<open>Setting the timer of a step; \<open>ResetTimeout\<close> adds the time of the loop to the delay, which is relative.\<close>

definition set_timer :: "moment \<Rightarrow> rat \<Rightarrow> nat \<Rightarrow> 'r step_world \<Rightarrow> 'r step_world option" where
  "set_timer t after a w =
     Option.bind (deref a w) (\<lambda>s.
       if m_pTimeoutWatcher s then Some (w\<lparr>step_timers := map_put a (due_time t after) (step_timers w)\<rparr>) else None)"

definition ResetTimeout :: "moment \<Rightarrow> nat \<Rightarrow> 'r step_world \<Rightarrow> 'r step_world option" where
  "ResetTimeout t a w = Option.bind (deref a w) (\<lambda>s. set_timer t (ev_now t + m_dTimeout s) a w)"

definition DelayTimeout :: "moment \<Rightarrow> nat \<Rightarrow> 'r step_world \<Rightarrow> 'r step_world option" where
  "DelayTimeout t a w =
     Option.bind (deref a w) (\<lambda>s.
       if m_bRegistered s then ResetTimeout t a w
       else Some (put_step a (s\<lparr>m_dActiveTime := m_dActiveTime s + (m_dTimeout s + 1/2)\<rparr>) w))"

definition DelayNextStep :: "moment \<Rightarrow> nat \<Rightarrow> 'r step_world \<Rightarrow> 'r step_world option" where
  "DelayNextStep t a w =
     Option.bind (deref a w) (\<lambda>s.
       case m_pNextStep s of None \<Rightarrow> Some w
       | Some b \<Rightarrow> Option.bind (deref b w) (\<lambda>r. if m_bRegistered r then DelayTimeout t b w else Some w))"

section \<open>Registration\<close>

definition insert_step :: "moment \<Rightarrow> rat \<Rightarrow> nat \<Rightarrow> 'r step_world \<Rightarrow> ('r step_world \<times> bool) option" where
  "insert_step t dTimeout a w =
     Option.bind (Step_GetSequence a w) (\<lambda>(w, sq).
       if map_find sq (m_mapCallbackStep w) \<noteq> None then Some (w, False)
       else
         let w = w\<lparr>m_mapCallbackStep := map_put sq a (m_mapCallbackStep w)\<rparr> in
         if \<not> malloc_works t then Some (w, False)
         else
           Option.bind (deref a w) (\<lambda>s.
             let s = s\<lparr>m_dTimeout := (if dTimeout = 0 then m_dStepTimeout w else dTimeout), m_pTimeoutWatcher := True\<rparr> in
             map_option (\<lambda>w. (w, True)) (set_timer t (m_dTimeout s) a (put_step a s w))))"

definition RegisterCallback :: "moment \<Rightarrow> rat \<Rightarrow> nat option \<Rightarrow> 'r step_world \<Rightarrow> ('r step_world \<times> bool) option" where
  "RegisterCallback t dTimeout p w =
     (case p of None \<Rightarrow> Some (w, False)
      | Some a \<Rightarrow>
          Option.bind (deref a w) (\<lambda>s.
            if m_bRegistered s then Some (w, True)
            else insert_step t dTimeout a (put_step a (s\<lparr>m_pLabor := True, m_bRegistered := True, m_dActiveTime := ev_now t\<rparr>) w)))"

text \<open>When the registering step is the next step of the other, it will have to wait for it.\<close>

definition note_pre :: "u32 \<Rightarrow> nat \<Rightarrow> 'r step_world \<Rightarrow> 'r step_world option" where
  "note_pre self a w =
     Option.bind (deref a w) (\<lambda>s.
       if self \<notin> set (m_setNextStepSeq s) then Some w
       else case map_find self (m_mapCallbackStep w) of None \<Rightarrow> Some w
       | Some b \<Rightarrow>
           Option.bind (Step_GetSequence a w) (\<lambda>(w, sq).
             Option.bind (deref b w) (\<lambda>r. Some (put_step b (r\<lparr>m_setPreStepSeq := set_put sq (m_setPreStepSeq r)\<rparr>) w))))"

definition RegisterCallback_from ::
    "u32 \<Rightarrow> moment \<Rightarrow> rat \<Rightarrow> nat option \<Rightarrow> 'r step_world \<Rightarrow> ('r step_world \<times> bool) option" where
  "RegisterCallback_from self t dTimeout p w =
     (case p of None \<Rightarrow> Some (w, False)
      | Some a \<Rightarrow>
          Option.bind (deref a w) (\<lambda>s.
            if m_bRegistered s then map_option (\<lambda>w. (w, True)) (note_pre self a w)
            else
              let w = put_step a (s\<lparr>m_pLabor := True, m_bRegistered := True, m_dActiveTime := ev_now t\<rparr>) w in
              Option.bind (note_pre self a w) (insert_step t dTimeout a)))"

section \<open>Deletion\<close>

text \<open>The steps to wait for: the numbers of those that are gone are dropped, up to one that is still
  there, unless it is the step that asks.\<close>

fun pre_scan :: "u32 option \<Rightarrow> (u32, nat) stdmap \<Rightarrow> u32 list \<Rightarrow> u32 list \<times> bool" where
  "pre_scan self m [] = ([], False)"
| "pre_scan self m (q # qs) =
     (if map_find q m = None then pre_scan self m qs
      else if Some q = self then (let (qs, wait) = pre_scan self m qs in (q # qs, wait))
      else (q # qs, True))"

definition delete_step :: "u32 option \<Rightarrow> moment \<Rightarrow> nat option \<Rightarrow> 'r step_world \<Rightarrow> 'r step_world option" where
  "delete_step self t p w =
     (case p of None \<Rightarrow> Some w
      | Some a \<Rightarrow>
          Option.bind (deref a w) (\<lambda>s.
            let (pre, wait) = pre_scan self (m_mapCallbackStep w) (m_setPreStepSeq s);
                w = put_step a (s\<lparr>m_setPreStepSeq := pre\<rparr>) w in
            if wait then DelayTimeout t a w
            else
              let w = (if m_pTimeoutWatcher s then w\<lparr>step_timers := map_erase a (step_timers w)\<rparr> else w) in
              Option.bind (Step_GetSequence a w) (\<lambda>(w, sq).
                if map_find sq (m_mapCallbackStep w) = None then Some w
                else map_option (\<lambda>m. w\<lparr>objects := m, m_mapCallbackStep := map_erase sq (m_mapCallbackStep w)\<rparr>)
                       (destroy [] a (objects w)))))"

definition DeleteCallback :: "moment \<Rightarrow> nat option \<Rightarrow> 'r step_world \<Rightarrow> 'r step_world option" where
  "DeleteCallback = delete_step None"

definition DeleteCallback_from :: "u32 \<Rightarrow> moment \<Rightarrow> nat option \<Rightarrow> 'r step_world \<Rightarrow> 'r step_world option" where
  "DeleteCallback_from self = delete_step (Some self)"

section \<open>Running steps\<close>

text \<open>\<open>biz\<close> is the virtual function \<open>Timeout\<close>, \<open>Callback\<close> or \<open>Emit\<close>.\<close>

definition StepTimeout ::
    "moment \<Rightarrow> ('r step_world \<Rightarrow> ('r step_world \<times> bool) option) \<Rightarrow> nat \<Rightarrow> 'r step_world \<Rightarrow> 'r step_world option" where
  "StepTimeout t biz a w =
     Option.bind (deref a w) (\<lambda>s.
       let after = m_dActiveTime s - ev_now t + m_dTimeout s in
       if after > 0 then set_timer t after a w
       else
         Option.bind (biz w) (\<lambda>(w, running).
           if running then Option.bind (deref a w) (\<lambda>s. set_timer t (m_dTimeout s) a w)
           else DeleteCallback t (Some a) w))"

definition StepTimeoutCallback ::
    "moment \<Rightarrow> ('r step_world \<Rightarrow> ('r step_world \<times> bool) option) \<Rightarrow> nat \<Rightarrow> 'r step_world \<Rightarrow> 'r step_world option" where
  "StepTimeoutCallback t biz a w =
     (case map_find a (step_timers w) of None \<Rightarrow> Some w
      | Some due \<Rightarrow>
          if ev_now t < due then Some w
          else StepTimeout t biz a (w\<lparr>step_timers := map_erase a (step_timers w)\<rparr>))"

text \<open>A message for a step, the second half of \<open>Dispose\<close>.\<close>

definition StepMessage ::
    "moment \<Rightarrow> (nat \<Rightarrow> 'r step_world \<Rightarrow> ('r step_world \<times> bool) option) \<Rightarrow> u32 \<Rightarrow> 'r step_world \<Rightarrow> 'r step_world option" where
  "StepMessage t biz sq w =
     (case map_find sq (m_mapCallbackStep w) of None \<Rightarrow> Some w
      | Some a \<Rightarrow>
          Option.bind (deref a w) (\<lambda>s.
            Option.bind (biz a (put_step a (s\<lparr>m_dActiveTime := ev_now t\<rparr>) w)) (\<lambda>(w, running).
              if running then Some w
              else case map_find sq (m_mapCallbackStep w) of None \<Rightarrow> None
                | Some a \<Rightarrow> DeleteCallback t (Some a) w)))"

definition ExecStep ::
    "moment \<Rightarrow> (nat \<Rightarrow> 'r step_world \<Rightarrow> ('r step_world \<times> bool) option) \<Rightarrow> u32 \<Rightarrow> u32 \<Rightarrow> 'r step_world \<Rightarrow> 'r step_world option" where
  "ExecStep t emit caller called w =
     (case map_find called (m_mapCallbackStep w) of None \<Rightarrow> Some w
      | Some a \<Rightarrow>
          Option.bind (emit a w) (\<lambda>(w, running).
            if running then Some w
            else case map_find called (m_mapCallbackStep w) of None \<Rightarrow> None
            | Some a \<Rightarrow>
                Option.bind (DeleteCallback_from caller t (Some a) w) (\<lambda>w.
                  case map_find caller (m_mapCallbackStep w) of None \<Rightarrow> Some w
                  | Some c \<Rightarrow>
                      Option.bind (deref c w) (\<lambda>s.
                        case m_pNextStep s of None \<Rightarrow> Some w
                        | Some n \<Rightarrow>
                            Option.bind (Step_GetSequence n w) (\<lambda>(w, sq).
                              if sq = called then Option.bind (deref c w) (\<lambda>s. Some (put_step c (s\<lparr>m_pNextStep := None\<rparr>) w))
                              else Some w)))))"

section \<open>The functions of a step\<close>

definition Step_RegisterCallback ::
    "moment \<Rightarrow> rat \<Rightarrow> nat \<Rightarrow> nat option \<Rightarrow> 'r step_world \<Rightarrow> ('r step_world \<times> bool) option" where
  "Step_RegisterCallback t dTimeout a p w =
     Option.bind (Step_GetSequence a w) (\<lambda>(w, self).
       Option.bind (RegisterCallback_from self t dTimeout p w) (\<lambda>(w, ok).
         Option.bind (deref a w) (\<lambda>s.
           case p of None \<Rightarrow> Some (w, ok)
           | Some b \<Rightarrow>
               if ok \<and> m_pNextStep s = Some b then
                 Option.bind (Step_GetSequence b w) (\<lambda>(w, sq).
                   Option.bind (deref a w) (\<lambda>s.
                     Some (put_step a (s\<lparr>m_setNextStepSeq := set_put sq (m_setNextStepSeq s)\<rparr>) w, ok)))
               else Some (w, ok))))"

definition Step_DeleteCallback :: "moment \<Rightarrow> nat \<Rightarrow> nat option \<Rightarrow> 'r step_world \<Rightarrow> 'r step_world option" where
  "Step_DeleteCallback t a p w = Option.bind (Step_GetSequence a w) (\<lambda>(w, self). DeleteCallback_from self t p w)"

definition AddPreStepSeq :: "nat \<Rightarrow> nat option \<Rightarrow> 'r step_world \<Rightarrow> 'r step_world option" where
  "AddPreStepSeq a p w =
     (case p of None \<Rightarrow> Some w
      | Some b \<Rightarrow>
          Option.bind (deref b w) (\<lambda>r.
            if \<not> m_bRegistered r then Some w
            else Option.bind (Step_GetSequence b w) (\<lambda>(w, sq).
              Option.bind (deref a w) (\<lambda>s. Some (put_step a (s\<lparr>m_setPreStepSeq := set_put sq (m_setPreStepSeq s)\<rparr>) w)))))"

definition SetNextStepNull :: "nat \<Rightarrow> 'r step_world \<Rightarrow> 'r step_world option" where
  "SetNextStepNull a w =
     Option.bind (deref a w) (\<lambda>s. Some (put_step a (s\<lparr>m_setNextStepSeq := [], m_pNextStep := None\<rparr>) w))"

text \<open>Three attempts to register a step that is not registered.\<close>

fun try_register :: "nat \<Rightarrow> moment \<Rightarrow> nat \<Rightarrow> nat \<Rightarrow> 'r step_world \<Rightarrow> 'r step_world option" where
  "try_register 0 t a b w = Some w"
| "try_register (Suc n) t a b w =
     Option.bind (Step_RegisterCallback t 0 a (Some b) w) (\<lambda>(w, ok). if ok then Some w else try_register n t a b w)"

definition ready_step :: "moment \<Rightarrow> nat \<Rightarrow> nat \<Rightarrow> 'r step_world \<Rightarrow> ('r step_world \<times> bool) option" where
  "ready_step t a b w =
     Option.bind (deref b w) (\<lambda>r.
       Option.bind (if m_bRegistered r then Some w else try_register 3 t a b w) (\<lambda>w.
         map_option (\<lambda>r. (w, m_bRegistered r)) (deref b w)))"

definition NextStep_of ::
    "moment \<Rightarrow> (nat \<Rightarrow> 'r step_world \<Rightarrow> ('r step_world \<times> bool) option) \<Rightarrow> nat \<Rightarrow> nat option \<Rightarrow> 'r step_world
     \<Rightarrow> ('r step_world \<times> bool) option" where
  "NextStep_of t emit a p w =
     (case p of None \<Rightarrow> Some (w, False)
      | Some b \<Rightarrow>
          Option.bind (ready_step t a b w) (\<lambda>(w, ready).
            if \<not> ready then Some (w, False)
            else Option.bind (emit b w) (\<lambda>(w, running).
              if running then Some (w, True)
              else map_option (\<lambda>w. (w, True)) (Step_DeleteCallback t a (Some b) w))))"

text \<open>The loop over the numbers of the next steps reads the set again in each round. It may go on for ever when
  the steps it runs keep adding numbers, so it is a partial function.\<close>

partial_function (option) exec_next ::
    "moment \<Rightarrow> (nat \<Rightarrow> 'r step_world \<Rightarrow> ('r step_world \<times> bool) option) \<Rightarrow> nat \<Rightarrow> u32 option \<Rightarrow> 'r step_world
     \<Rightarrow> 'r step_world option" where
  "exec_next t emit a it w =
     (case it of None \<Rightarrow> Some w
      | Some q \<Rightarrow>
          Option.bind (Step_GetSequence a w) (\<lambda>(w, self).
            Option.bind (ExecStep t emit self q w) (\<lambda>w.
              Option.bind (deref a w) (\<lambda>s. exec_next t emit a (set_next q (m_setNextStepSeq s)) w))))"

definition NextStep ::
    "moment \<Rightarrow> (nat \<Rightarrow> 'r step_world \<Rightarrow> ('r step_world \<times> bool) option) \<Rightarrow> nat \<Rightarrow> 'r step_world
     \<Rightarrow> ('r step_world \<times> bool) option" where
  "NextStep t emit a w =
     Option.bind (deref a w) (\<lambda>s.
       Option.bind (exec_next t emit a (set_begin (m_setNextStepSeq s)) w) (\<lambda>w.
         Option.bind (deref a w) (\<lambda>s.
           if m_setNextStepSeq s \<noteq> [] then Some (w, True)
           else case m_pNextStep s of None \<Rightarrow> Some (w, False)
           | Some b \<Rightarrow>
               let forget = (\<lambda>w. Option.bind (deref a w) (\<lambda>s. Some (put_step a (s\<lparr>m_pNextStep := None\<rparr>) w))) in
               Option.bind (ready_step t a b w) (\<lambda>(w, ready).
                 if ready then
                   Option.bind (emit b w) (\<lambda>(w, running).
                     if running then Some (w, True)
                     else Option.bind (Step_DeleteCallback t a (Some b) w) (\<lambda>w. map_option (\<lambda>w. (w, True)) (forget w)))
                 else
                   Option.bind (destroy [] b (objects w)) (\<lambda>m. map_option (\<lambda>w. (w, False)) (forget (w\<lparr>objects := m\<rparr>)))))))"

end
