(* ===== verification/Step_Safety.thy ===== *)
theory Step_Safety
  imports Step_Chain
begin

text \<open>
  What keeps the memory of steps safe: the pointers to next steps form chains that end and that no two steps
  share. Runs that never delete a step while another one still points to it use no freed memory; and the places where the
  framework itself does not keep to this.
\<close>

section \<open>Chains\<close>

definition next_of :: "(nat, step_obj) stdmap \<Rightarrow> (nat \<times> nat) set" where
  "next_of m = {(x, y). \<exists>s. map_find x m = Some s \<and> m_pNextStep s = Some y}"

definition chains_ok :: "(nat, step_obj) stdmap \<Rightarrow> bool" where
  "chains_ok m \<longleftrightarrow> acyclic (next_of m) \<and>
     (\<forall>x y. (x, y) \<in> next_of m \<longrightarrow> map_find y m \<noteq> None) \<and>
     (\<forall>x x' y. (x, y) \<in> next_of m \<longrightarrow> (x', y) \<in> next_of m \<longrightarrow> x = x')"

lemma next_ofI: "map_find x m = Some s \<Longrightarrow> m_pNextStep s = Some y \<Longrightarrow> (x, y) \<in> next_of m"
  by (auto simp: next_of_def)

lemma chains_okD:
  assumes "chains_ok m"
  shows "acyclic (next_of m)" "(x, y) \<in> next_of m \<Longrightarrow> map_find y m \<noteq> None"
    "(x, y) \<in> next_of m \<Longrightarrow> (x', y) \<in> next_of m \<Longrightarrow> x = x'"
  using assms unfolding chains_ok_def by blast+

text \<open>Deleting an object deletes it and the unregistered objects behind it, and nothing else.\<close>

lemma destroy_chain:
  assumes "chains_ok m" "map_find a m = Some s" "\<And>x. x \<in> set d \<Longrightarrow> (x, a) \<in> (next_of m)\<^sup>+"
  shows "\<exists>C m'. destroy d a m = Some m' \<and> a \<in> C \<and> (\<forall>x. map_find x m' = (if x \<in> C then None else map_find x m)) \<and>
    (\<forall>c \<in> C. c = a \<or> (\<exists>r p. map_find c m = Some r \<and> \<not> m_bRegistered r \<and> p \<in> C \<and> (p, c) \<in> next_of m))"
  using assms(2,3)
proof (induction "length (filter (\<lambda>e. fst e \<notin> set d) m)" arbitrary: d a s rule: less_induct)
  case less
  note chains = chains_okD [OF assms(1)]
  have fresh: "a \<notin> set d" using less.prems(2) [of a] chains(1) by (auto simp: acyclic_def)
  have single: "\<exists>C m'. Some (map_erase a m) = Some m' \<and> a \<in> C \<and> (\<forall>x. map_find x m' = (if x \<in> C then None else map_find x m)) \<and>
    (\<forall>c \<in> C. c = a \<or> (\<exists>r p. map_find c m = Some r \<and> \<not> m_bRegistered r \<and> p \<in> C \<and> (p, c) \<in> next_of m))"
    by (intro exI [of _ "{a}"]) (simp add: map_find_erase)
  show ?case
  proof (cases "m_pNextStep s")
    case None
    then show ?thesis using single fresh less.prems(1) by (simp add: destroy.simps [of d a m])
  next
    case (Some b)
    have ab: "(a, b) \<in> next_of m" using next_ofI less.prems(1) Some by blast
    then obtain r where r: "map_find b m = Some r" using chains(2) by blast
    show ?thesis
    proof (cases "m_bRegistered r")
      case True
      then show ?thesis using single fresh less.prems(1) Some r by (simp add: destroy.simps [of d a m])
    next
      case False
      have "(x, b) \<in> (next_of m)\<^sup>+" if "x \<in> set (a # d)" for x
        using that ab less.prems(2) by (auto intro: trancl_into_trancl)
      then obtain C m' where C: "destroy (a # d) b m = Some m'" "b \<in> C"
          "\<forall>x. map_find x m' = (if x \<in> C then None else map_find x m)"
          "\<forall>c \<in> C. c = b \<or> (\<exists>r p. map_find c m = Some r \<and> \<not> m_bRegistered r \<and> p \<in> C \<and> (p, c) \<in> next_of m)"
        using less.hyps [OF destroy_less [OF fresh less.prems(1)] r] by blast
      have "map_find x (map_erase a m') = (if x \<in> insert a C then None else map_find x m)" for x
        using C(3) by (simp add: map_find_erase)
      moreover have "c = a \<or> (\<exists>r p. map_find c m = Some r \<and> \<not> m_bRegistered r \<and> p \<in> insert a C \<and> (p, c) \<in> next_of m)"
        if "c \<in> insert a C" for c
      proof (cases "c = b")
        case True
        then show ?thesis using ab r False by blast
      next
        case False
        then show ?thesis using that C(4) by blast
      qed
      ultimately show ?thesis
        using C(1) fresh less.prems(1) Some r False
        by (intro exI [of _ "insert a C"] exI [of _ "map_erase a m'"]) (simp add: destroy.simps [of d a m])
    qed
  qed
qed

lemma next_of_put: "next_of (map_put a s m) = {(x, y). if x = a then m_pNextStep s = Some y else (x, y) \<in> next_of m}"
  by (auto simp: next_of_def map_find_put_any)

lemma next_of_same: "map_find a m = Some s' \<Longrightarrow> m_pNextStep s = m_pNextStep s' \<Longrightarrow> next_of (map_put a s m) = next_of m"
  by (auto simp: next_of_def map_find_put_any split: if_splits)

lemma chains_ok_same:
  assumes "chains_ok m" "map_find a m = Some s'" "m_pNextStep s = m_pNextStep s'"
  shows "chains_ok (map_put a s m)"
  using assms(1) by (auto simp: chains_ok_def next_of_same [OF assms(2,3)] map_find_put_any)

lemma chains_ok_cut:
  assumes "chains_ok m" "m_pNextStep s = None"
  shows "chains_ok (map_put a s m)"
proof -
  have sub: "next_of (map_put a s m) \<subseteq> next_of m" using assms(2) by (auto simp: next_of_put split: if_splits)
  then show ?thesis
    using chains_okD [OF assms(1)] acyclic_subset [OF _ sub] unfolding chains_ok_def
    by (metis map_find_put_any option.distinct(1) subsetD)
qed

text \<open>A new object whose next step nobody else points to.\<close>

lemma chains_ok_new:
  assumes ok: "chains_ok m" and new: "map_find a m = None" and nxt: "m_pNextStep s = Some b" "map_find b m \<noteq> None"
    and alone: "\<And>x. (x, b) \<notin> next_of m"
  shows "chains_ok (map_put a s m)"
proof -
  note chains = chains_okD [OF ok]
  have noa: "(a, y) \<notin> next_of m" "(x, a) \<notin> next_of m" for x y
    using new chains(2) [of x a] by (simp add: next_of_def, metis)
  have eq: "next_of (map_put a s m) = insert (a, b) (next_of m)"
    using nxt(1) noa(1) by (auto simp: next_of_put split: if_splits)
  have ab: "a \<noteq> b" using new nxt(2) by auto
  have "(b, a) \<notin> (next_of m)\<^sup>*" using noa(2) ab by (auto elim: rtranclE)
  then have "acyclic (next_of (map_put a s m))" using chains(1) by (simp add: eq acyclic_insert)
  moreover have "map_find y (map_put a s m) \<noteq> None" if "(x, y) \<in> next_of (map_put a s m)" for x y
    using that chains(2) [of x y] nxt(2) by (auto simp: eq map_find_put_any)
  moreover have "x = x'" if "(x, y) \<in> next_of (map_put a s m)" "(x', y) \<in> next_of (map_put a s m)" for x x' y
    using that chains(3) [of x y x'] alone noa by (auto simp: eq)
  ultimately show ?thesis unfolding chains_ok_def by blast
qed

text \<open>Removing a chain that nothing outside points to.\<close>

lemma chains_ok_remove:
  assumes ok: "chains_ok m" and m': "\<And>x. map_find x m' = (if x \<in> C then None else map_find x m)"
    and inner: "\<And>c. c \<in> C \<Longrightarrow> c = a \<or> (\<exists>p \<in> C. (p, c) \<in> next_of m)"
    and alone: "\<And>x. x \<notin> C \<Longrightarrow> (x, a) \<notin> next_of m"
  shows "chains_ok m'"
proof -
  note chains = chains_okD [OF ok]
  have eq: "(x, y) \<in> next_of m' \<longleftrightarrow> x \<notin> C \<and> (x, y) \<in> next_of m" for x y
    by (auto simp: next_of_def m')
  have "acyclic (next_of m')" by (rule acyclic_subset [OF chains(1)]) (auto simp: eq)
  moreover have "map_find y m' \<noteq> None" if "(x, y) \<in> next_of m'" for x y
  proof -
    have "y \<notin> C" using that inner [of y] alone chains(3) by (metis eq)
    then show ?thesis using chains(2) that by (auto simp: eq m')
  qed
  ultimately show ?thesis using chains(3) unfolding chains_ok_def eq by blast
qed

section \<open>The invariant\<close>

text \<open>An entry of the table is a registered object with that number and a timer; an object with a timer is entered and its
  timer is active; \<open>skip\<close> is the step whose timer runs out at the moment.\<close>

definition steps_ok :: "nat option \<Rightarrow> 'r step_world \<Rightarrow> bool" where
  "steps_ok skip w \<longleftrightarrow> chains_ok (objects w) \<and>
     (\<forall>sq a. map_find sq (m_mapCallbackStep w) = Some a \<longrightarrow>
        sq \<noteq> 0 \<and> (\<exists>s. deref a w = Some s \<and> m_bRegistered s \<and> m_ulSequence s = sq \<and> m_pTimeoutWatcher s)) \<and>
     (\<forall>a s. deref a w = Some s \<longrightarrow> m_bRegistered s \<longrightarrow> m_pLabor s) \<and>
     (\<forall>a s. deref a w = Some s \<longrightarrow> m_pTimeoutWatcher s \<longrightarrow>
        m_bRegistered s \<and> map_find (m_ulSequence s) (m_mapCallbackStep w) = Some a) \<and>
     (\<forall>a s. deref a w = Some s \<longrightarrow> m_pTimeoutWatcher s \<longrightarrow> Some a \<noteq> skip \<longrightarrow> map_find a (step_timers w) \<noteq> None) \<and>
     (\<forall>a. map_find a (step_timers w) \<noteq> None \<longrightarrow> (\<exists>s. deref a w = Some s \<and> m_pTimeoutWatcher s))"

lemma steps_okE:
  assumes "steps_ok skip w"
  shows "chains_ok (objects w)"
    and "map_find sq (m_mapCallbackStep w) = Some a \<Longrightarrow>
        sq \<noteq> 0 \<and> (\<exists>s. deref a w = Some s \<and> m_bRegistered s \<and> m_ulSequence s = sq \<and> m_pTimeoutWatcher s)"
    and "deref a w = Some s \<Longrightarrow> m_bRegistered s \<Longrightarrow> m_pLabor s"
    and "deref a w = Some s \<Longrightarrow> m_pTimeoutWatcher s \<Longrightarrow>
        m_bRegistered s \<and> map_find (m_ulSequence s) (m_mapCallbackStep w) = Some a"
    and "deref a w = Some s \<Longrightarrow> m_pTimeoutWatcher s \<Longrightarrow> Some a \<noteq> skip \<Longrightarrow> map_find a (step_timers w) \<noteq> None"
    and "map_find a (step_timers w) \<noteq> None \<Longrightarrow> \<exists>s. deref a w = Some s \<and> m_pTimeoutWatcher s"
  using assms unfolding steps_ok_def by blast+

lemma steps_okI:
  assumes "chains_ok (objects w)"
    and "\<And>sq a. map_find sq (m_mapCallbackStep w) = Some a \<Longrightarrow>
        sq \<noteq> 0 \<and> (\<exists>s. deref a w = Some s \<and> m_bRegistered s \<and> m_ulSequence s = sq \<and> m_pTimeoutWatcher s)"
    and "\<And>a s. deref a w = Some s \<Longrightarrow> m_bRegistered s \<Longrightarrow> m_pLabor s"
    and "\<And>a s. deref a w = Some s \<Longrightarrow> m_pTimeoutWatcher s \<Longrightarrow>
        m_bRegistered s \<and> map_find (m_ulSequence s) (m_mapCallbackStep w) = Some a"
    and "\<And>a s. deref a w = Some s \<Longrightarrow> m_pTimeoutWatcher s \<Longrightarrow> Some a \<noteq> skip \<Longrightarrow> map_find a (step_timers w) \<noteq> None"
    and "\<And>a. map_find a (step_timers w) \<noteq> None \<Longrightarrow> \<exists>s. deref a w = Some s \<and> m_pTimeoutWatcher s"
  shows "steps_ok skip w"
  using assms unfolding steps_ok_def by blast

lemma put_step_simps [simp]:
  "deref b (put_step a s w) = (if b = a then Some s else deref b w)"
  "m_mapCallbackStep (put_step a s w) = m_mapCallbackStep w" "step_timers (put_step a s w) = step_timers w"
  "objects (put_step a s w) = map_put a s (objects w)" "m_dStepTimeout (put_step a s w) = m_dStepTimeout w"
  "deref b (w\<lparr>step_timers := ts\<rparr>) = deref b w" "deref b (w\<lparr>m_mapCallbackStep := m\<rparr>) = deref b w"
  "deref b (w\<lparr>w_ulSequence := n\<rparr>) = deref b w" "deref b (w\<lparr>objects := os\<rparr>) = map_find b os"
  "deref b (w\<lparr>rest := r\<rparr>) = deref b w"
  by (simp_all add: put_step_def deref_def map_find_put_any)

text \<open>Two states with the same objects, table and timers.\<close>

lemma steps_ok_cong:
  "objects v = objects w \<Longrightarrow> m_mapCallbackStep v = m_mapCallbackStep w \<Longrightarrow> step_timers v = step_timers w \<Longrightarrow>
   steps_ok skip v = steps_ok skip w"
  by (simp add: steps_ok_def deref_def)

lemma steps_ok_put:
  assumes ok: "steps_ok skip w" and s': "deref a w = Some s'"
    and same: "m_pNextStep s = m_pNextStep s' \<or> m_pNextStep s = None" "m_pTimeoutWatcher s = m_pTimeoutWatcher s'"
      "m_bRegistered s' \<Longrightarrow> m_bRegistered s" "m_bRegistered s \<Longrightarrow> m_pLabor s"
      "m_pTimeoutWatcher s' \<Longrightarrow> m_ulSequence s = m_ulSequence s'"
  shows "steps_ok skip (put_step a s w)"
proof (rule steps_okI)
  show "chains_ok (objects (put_step a s w))"
    using same(1) chains_ok_same [OF steps_okE(1) [OF ok]] chains_ok_cut [OF steps_okE(1) [OF ok]] s'
    by (auto simp: deref_def)
next
  fix sq b assume "map_find sq (m_mapCallbackStep (put_step a s w)) = Some b"
  then show "sq \<noteq> 0 \<and> (\<exists>r. deref b (put_step a s w) = Some r \<and> m_bRegistered r \<and> m_ulSequence r = sq \<and> m_pTimeoutWatcher r)"
    using steps_okE(2) [OF ok, of sq b] s' same by (cases "b = a") auto
next
  fix b r assume "deref b (put_step a s w) = Some r" "m_bRegistered r"
  then show "m_pLabor r" using steps_okE(3) [OF ok, of b r] same by (auto split: if_splits)
next
  fix b r assume "deref b (put_step a s w) = Some r" "m_pTimeoutWatcher r"
  then show "m_bRegistered r \<and> map_find (m_ulSequence r) (m_mapCallbackStep (put_step a s w)) = Some b"
    using steps_okE(4) [OF ok, of b r] steps_okE(4) [OF ok s'] same by (auto split: if_splits)
next
  fix b r assume "deref b (put_step a s w) = Some r" "m_pTimeoutWatcher r" "Some b \<noteq> skip"
  then show "map_find b (step_timers (put_step a s w)) \<noteq> None"
    using steps_okE(5) [OF ok, of b r] steps_okE(5) [OF ok s'] same by (auto split: if_splits)
next
  fix b assume "map_find b (step_timers (put_step a s w)) \<noteq> None"
  then show "\<exists>r. deref b (put_step a s w) = Some r \<and> m_pTimeoutWatcher r"
    using steps_okE(6) [OF ok, of b] s' same by (cases "b = a") auto
qed

lemma GetSequence_ok:
  assumes ok: "steps_ok skip w" and s: "deref a w = Some s"
  obtains w' n where "Step_GetSequence a w = Some (w', n)" "steps_ok skip w'" "m_bRegistered s \<Longrightarrow> n \<noteq> 0"
    "m_mapCallbackStep w' = m_mapCallbackStep w" "step_timers w' = step_timers w" "m_dStepTimeout w' = m_dStepTimeout w"
    "next_of (objects w') = next_of (objects w)" "m_pTimeoutWatcher s \<Longrightarrow> n = m_ulSequence s \<and> w' = w"
    "deref a w' = Some (if m_bRegistered s then s\<lparr>m_ulSequence := n\<rparr> else s)" "\<forall>b. b \<noteq> a \<longrightarrow> deref b w' = deref b w"
proof (cases "m_bRegistered s \<and> m_ulSequence s = 0")
  case True
  have labor: "m_pLabor s" using steps_okE(3) [OF ok s] True by simp
  have nw: "\<not> m_pTimeoutWatcher s"
    using steps_okE(4) [OF ok s] steps_okE(2) [OF ok, of 0 a] True by auto
  define n v where "n = (if w_ulSequence w + 1 = 0 then 1 else w_ulSequence w + 1)" and "v = w\<lparr>w_ulSequence := n\<rparr>"
  have v: "steps_ok skip v" "deref a v = Some s"
    using steps_ok_cong [of v w skip] ok s by (simp_all add: v_def)
  have "steps_ok skip (put_step a (s\<lparr>m_ulSequence := n\<rparr>) v)"
    by (rule steps_ok_put [OF v]) (use True labor nw in simp_all)
  moreover have "Step_GetSequence a w = Some (put_step a (s\<lparr>m_ulSequence := n\<rparr>) v, n)"
    using s True labor by (simp add: Step_GetSequence_def GetSequence_labor_def Let_def n_def v_def)
  moreover have "n \<noteq> 0" by (simp add: n_def)
  moreover have "next_of (map_put a (s\<lparr>m_ulSequence := n\<rparr>) (objects v)) = next_of (objects v)"
    by (rule next_of_same) (use v(2) in \<open>simp_all add: deref_def\<close>)
  ultimately show ?thesis using True nw
    by (intro that [of "put_step a (s\<lparr>m_ulSequence := n\<rparr>) v" n]) (simp_all add: v_def)
next
  case False
  have "Step_GetSequence a w = Some (w, if m_bRegistered s then m_ulSequence s else 0)"
    using s False by (auto simp: Step_GetSequence_def)
  then show ?thesis using ok s False steps_okE(4) [OF ok s]
    by (intro that [of w "if m_bRegistered s then m_ulSequence s else 0"]) auto
qed

lemma set_timer_ok:
  assumes ok: "steps_ok skip w" and s: "deref a w = Some s" "m_pTimeoutWatcher s" and skip: "skip = skip' \<or> skip = Some a"
  shows "\<exists>w'. set_timer t d a w = Some w' \<and> steps_ok skip' w'"
proof -
  let ?w = "w\<lparr>step_timers := map_put a (due_time t d) (step_timers w)\<rparr>"
  have "steps_ok skip' ?w"
  proof (rule steps_okI)
    fix b assume "map_find b (step_timers ?w) \<noteq> None"
    then show "\<exists>r. deref b ?w = Some r \<and> m_pTimeoutWatcher r"
      using steps_okE(6) [OF ok, of b] s by (cases "b = a") (auto simp: map_find_put_any)
  qed (use steps_okE [OF ok] skip in \<open>auto simp: map_find_put_any\<close>)
  then show ?thesis using s by (simp add: set_timer_def)
qed

text \<open>Entering a registered object under a free number.\<close>

lemma insert_step_ok:
  assumes ok: "steps_ok skip w" and s: "deref a w = Some s" "m_bRegistered s" "\<not> m_pTimeoutWatcher s" and t: "malloc_works t"
  shows "\<exists>r. insert_step t d a w = Some r \<and> steps_ok skip (fst r)"
proof -
  obtain v n where v: "Step_GetSequence a w = Some (v, n)" "steps_ok skip v" "n \<noteq> 0"
    "m_mapCallbackStep v = m_mapCallbackStep w" "step_timers v = step_timers w" "m_dStepTimeout v = m_dStepTimeout w"
    "deref a v = Some (s\<lparr>m_ulSequence := n\<rparr>)"
    by (rule GetSequence_ok [OF ok s(1)]) (use s(2) in simp_all)
  show ?thesis
  proof (cases "map_find n (m_mapCallbackStep w)")
    case None
    define to where "to = (if d = 0 then m_dStepTimeout w else d)"
    let ?s = "s\<lparr>m_ulSequence := n, m_dTimeout := to, m_pTimeoutWatcher := True\<rparr>"
    let ?u = "put_step a ?s (v\<lparr>m_mapCallbackStep := map_put n a (m_mapCallbackStep v)\<rparr>)"
    let ?z = "?u\<lparr>step_timers := map_put a (due_time t to) (step_timers ?u)\<rparr>"
    have "steps_ok skip ?z"
    proof (rule steps_okI)
      show "chains_ok (objects ?z)"
        using chains_ok_same [OF steps_okE(1) [OF v(2)]] v(7) by (simp add: deref_def)
      fix sq b assume "map_find sq (m_mapCallbackStep ?z) = Some b"
      then show "sq \<noteq> 0 \<and> (\<exists>r. deref b ?z = Some r \<and> m_bRegistered r \<and> m_ulSequence r = sq \<and> m_pTimeoutWatcher r)"
        using steps_okE(2) [OF v(2), of sq b] v(3,7) s(2,3) by (cases "sq = n") (auto simp: map_find_put_any)
    next
      fix b r assume r: "deref b ?z = Some r" "m_pTimeoutWatcher r"
      then show "m_bRegistered r \<and> map_find (m_ulSequence r) (m_mapCallbackStep ?z) = Some b"
        using steps_okE(4) [OF v(2), of b r] None v(4) s(2) by (auto simp: map_find_put_any split: if_splits)
    next
      fix b assume "map_find b (step_timers ?z) \<noteq> None"
      then show "\<exists>r. deref b ?z = Some r \<and> m_pTimeoutWatcher r"
        using steps_okE(6) [OF v(2), of b] by (cases "b = a") (auto simp: map_find_put_any)
    qed (use steps_okE(3,5) [OF v(2)] steps_okE(3) [OF v(2,7)] s(2) in \<open>auto simp: map_find_put_any split: if_splits\<close>)
    moreover have "insert_step t d a w = Some (?z, True)"
      using v t None by (simp add: insert_step_def set_timer_def Let_def to_def)
    ultimately show ?thesis by simp
  qed (use v in \<open>auto simp: insert_step_def\<close>)
qed

lemma note_pre_ok:
  assumes ok: "steps_ok skip w" and s: "deref a w = Some s"
  shows "\<exists>w' s'. note_pre self a w = Some w' \<and> steps_ok skip w' \<and> deref a w' = Some s' \<and>
    m_bRegistered s' = m_bRegistered s \<and> m_pTimeoutWatcher s' = m_pTimeoutWatcher s"
proof (cases "self \<in> set (m_setNextStepSeq s) \<and> map_find self (m_mapCallbackStep w) \<noteq> None")
  case True
  then obtain b where b: "map_find self (m_mapCallbackStep w) = Some b" by auto
  obtain v n where v: "Step_GetSequence a w = Some (v, n)" "steps_ok skip v" "m_mapCallbackStep v = m_mapCallbackStep w"
    "deref a v = Some (if m_bRegistered s then s\<lparr>m_ulSequence := n\<rparr> else s)"
    by (rule GetSequence_ok [OF ok s])
  obtain r where r: "deref b v = Some r" "m_bRegistered r" using steps_okE(2) [OF v(2), of self b] b v(3) by auto
  let ?r = "r\<lparr>m_setPreStepSeq := set_put n (m_setPreStepSeq r)\<rparr>"
  have "steps_ok skip (put_step b ?r v)"
    by (rule steps_ok_put [OF v(2) r(1)]) (use steps_okE(3) [OF v(2) r] in simp_all)
  moreover have "note_pre self a w = Some (put_step b ?r v)" using True s b v r by (simp add: note_pre_def)
  ultimately show ?thesis using v(4) r(1) by (cases "b = a") (auto split: if_splits)
qed (use ok s in \<open>auto simp: note_pre_def\<close>)

lemma RegisterCallback_ok:
  assumes ok: "steps_ok skip w" and s: "deref a w = Some s" and t: "malloc_works t"
  shows "\<exists>r. RegisterCallback t d (Some a) w = Some r \<and> steps_ok skip (fst r)"
    and "\<exists>r. RegisterCallback_from self t d (Some a) w = Some r \<and> steps_ok skip (fst r)"
proof -
  let ?s = "s\<lparr>m_pLabor := True, m_bRegistered := True, m_dActiveTime := ev_now t\<rparr>"
  let ?v = "put_step a ?s w"
  have v: "\<not> m_bRegistered s \<Longrightarrow> steps_ok skip ?v" "deref a ?v = Some ?s"
    using steps_ok_put [OF ok s, of ?s] steps_okE(4) [OF ok s] by auto
  have nw: "\<not> m_bRegistered s \<Longrightarrow> \<not> m_pTimeoutWatcher ?s" using steps_okE(4) [OF ok s] by auto
  show "\<exists>r. RegisterCallback t d (Some a) w = Some r \<and> steps_ok skip (fst r)"
    using insert_step_ok [OF v(1,2) _ nw t] ok s by (cases "m_bRegistered s") (auto simp: RegisterCallback_def)
  show "\<exists>r. RegisterCallback_from self t d (Some a) w = Some r \<and> steps_ok skip (fst r)"
  proof (cases "m_bRegistered s")
    case True
    then show ?thesis using note_pre_ok [OF ok s, of self] s by (auto simp: RegisterCallback_from_def)
  next
    case False
    obtain u r where u: "note_pre self a ?v = Some u" "steps_ok skip u" "deref a u = Some r" "m_bRegistered r" "\<not> m_pTimeoutWatcher r"
      using note_pre_ok [OF v(1) [OF False] v(2), of self] nw [OF False] by auto
    show ?thesis
      using insert_step_ok [OF u(2,3,4,5) t, of d] u(1) s False by (simp add: RegisterCallback_from_def Let_def)
  qed
qed

section \<open>Deletion\<close>

definition pointed :: "nat \<Rightarrow> 'r step_world \<Rightarrow> bool" where
  "pointed a w = list_ex (\<lambda>e. m_pNextStep (snd e) = Some a) (objects w)"

lemma not_pointed: "\<not> pointed a w \<Longrightarrow> (x, a) \<notin> next_of (objects w)"
  by (auto simp: pointed_def next_of_def list_ex_iff dest!: map_find_mem)

lemma DelayTimeout_ok:
  assumes ok: "steps_ok skip w" and s: "deref a w = Some s" "m_bRegistered s \<Longrightarrow> m_pTimeoutWatcher s"
    and skip: "skip = skip' \<or> skip = Some a \<and> m_bRegistered s"
  shows "\<exists>w'. DelayTimeout t a w = Some w' \<and> steps_ok skip' w'"
proof (cases "m_bRegistered s")
  case True
  then show ?thesis using set_timer_ok [OF ok s(1)] s skip by (auto simp: DelayTimeout_def ResetTimeout_def)
next
  case False
  have "steps_ok skip (put_step a (s\<lparr>m_dActiveTime := m_dActiveTime s + (m_dTimeout s + 1/2)\<rparr>) w)"
    by (rule steps_ok_put [OF ok s(1)]) (use False in simp_all)
  then show ?thesis using s False skip by (auto simp: DelayTimeout_def)
qed

lemma steps_ok_remove:
  assumes ok: "steps_ok skip w" and s: "deref a w = Some s" "m_pTimeoutWatcher s"
    and m: "\<And>x. map_find x m = (if x \<in> C then None else deref x w)" and a: "a \<in> C"
    and inner: "\<And>c. c \<in> C \<Longrightarrow> c = a \<or> (\<exists>r p. deref c w = Some r \<and> \<not> m_bRegistered r \<and> p \<in> C \<and> (p, c) \<in> next_of (objects w))"
    and alone: "\<And>x. (x, a) \<notin> next_of (objects w)" and skip: "skip = skip' \<or> skip = Some a"
  shows "steps_ok skip' (w\<lparr>step_timers := map_erase a (step_timers w), objects := m,
           m_mapCallbackStep := map_erase (m_ulSequence s) (m_mapCallbackStep w)\<rparr>)" (is "steps_ok skip' ?w")
proof (rule steps_okI)
  have "chains_ok m"
  proof (rule chains_ok_remove [OF steps_okE(1) [OF ok]])
    show "map_find x m = (if x \<in> C then None else map_find x (objects w))" for x using m by (simp only: deref_def)
    show "c = a \<or> (\<exists>p \<in> C. (p, c) \<in> next_of (objects w))" if "c \<in> C" for c using inner [OF that] by blast
  qed (rule alone)
  then show "chains_ok (objects ?w)" by simp
  fix sq b assume "map_find sq (m_mapCallbackStep ?w) = Some b"
  then have b: "sq \<noteq> m_ulSequence s" "map_find sq (m_mapCallbackStep w) = Some b"
    by (auto simp: map_find_erase split: if_splits)
  from steps_okE(2) [OF ok b(2)] obtain r where r: "sq \<noteq> 0" "deref b w = Some r" "m_bRegistered r" "m_ulSequence r = sq" "m_pTimeoutWatcher r"
    by blast
  have "b \<noteq> a" using r(2,4) b(1) s(1) by auto
  then have "b \<notin> C" using inner [of b] r(2,3) by auto
  then show "sq \<noteq> 0 \<and> (\<exists>r. deref b ?w = Some r \<and> m_bRegistered r \<and> m_ulSequence r = sq \<and> m_pTimeoutWatcher r)"
    using r by (simp add: m)
next
  fix b r assume "deref b ?w = Some r" "m_bRegistered r"
  then show "m_pLabor r" using steps_okE(3) [OF ok, of b r] by (simp add: m split: if_splits)
next
  fix b r assume "deref b ?w = Some r" "m_pTimeoutWatcher r"
  then have b: "b \<notin> C" "deref b w = Some r" "m_pTimeoutWatcher r" by (simp_all add: m split: if_splits)
  note r = steps_okE(4) [OF ok b(2,3)]
  have "m_ulSequence r \<noteq> m_ulSequence s" using r steps_okE(4) [OF ok s] a b(1) by auto
  then show "m_bRegistered r \<and> map_find (m_ulSequence r) (m_mapCallbackStep ?w) = Some b" using r by (simp add: map_find_erase)
next
  fix b r assume "deref b ?w = Some r" "m_pTimeoutWatcher r" "Some b \<noteq> skip'"
  then show "map_find b (step_timers ?w) \<noteq> None"
    using steps_okE(5) [OF ok, of b r] a skip by (auto simp: m map_find_erase split: if_splits)
next
  fix b assume "map_find b (step_timers ?w) \<noteq> None"
  then have b: "b \<noteq> a" "map_find b (step_timers w) \<noteq> None" by (auto simp: map_find_erase split: if_splits)
  then obtain r where r: "deref b w = Some r" "m_pTimeoutWatcher r" using steps_okE(6) [OF ok] by blast
  then show "\<exists>r. deref b ?w = Some r \<and> m_pTimeoutWatcher r"
    using inner [of b] b(1) steps_okE(4) [OF ok r] by (auto simp: m)
qed

lemma delete_step_ok:
  assumes ok: "steps_ok skip w" and s: "deref a w = Some s" "m_pTimeoutWatcher s" and alone: "\<And>x. (x, a) \<notin> next_of (objects w)"
    and skip: "skip = skip' \<or> skip = Some a"
  shows "\<exists>w'. delete_step self t (Some a) w = Some w' \<and> steps_ok skip' w'"
proof -
  obtain pre wait where pre: "pre_scan self (m_mapCallbackStep w) (m_setPreStepSeq s) = (pre, wait)" by fastforce
  let ?s = "s\<lparr>m_setPreStepSeq := pre\<rparr>"
  let ?v = "put_step a ?s w"
  note reg = steps_okE(4) [OF ok s]
  have v: "steps_ok skip ?v" "deref a ?v = Some ?s"
    using steps_ok_put [OF ok s(1), of ?s] reg steps_okE(3) [OF ok s(1)] by simp_all
  show ?thesis
  proof (cases wait)
    case True
    then show ?thesis using DelayTimeout_ok [OF v, of skip' t] s pre skip reg by (auto simp: delete_step_def Let_def)
  next
    case False
    let ?u = "?v\<lparr>step_timers := map_erase a (step_timers ?v)\<rparr>"
    have seq: "m_ulSequence s \<noteq> 0" using steps_okE(2) [OF ok] reg by blast
    have get: "Step_GetSequence a ?u = Some (?u, m_ulSequence s)" using reg seq by (simp add: Step_GetSequence_def)
    have nx: "next_of (objects ?v) = next_of (objects w)"
      by (simp, rule next_of_same) (use s(1) in \<open>simp_all add: deref_def\<close>)
    obtain C m where C: "destroy [] a (objects ?v) = Some m" "a \<in> C"
        "\<forall>x. map_find x m = (if x \<in> C then None else map_find x (objects ?v))"
        "\<forall>c \<in> C. c = a \<or> (\<exists>r p. map_find c (objects ?v) = Some r \<and> \<not> m_bRegistered r \<and> p \<in> C \<and> (p, c) \<in> next_of (objects ?v))"
      using destroy_chain [OF steps_okE(1) [OF v(1)], of a ?s "[]"] v(2) by (auto simp: deref_def)
    have "steps_ok skip' (?v\<lparr>step_timers := map_erase a (step_timers ?v), objects := m,
           m_mapCallbackStep := map_erase (m_ulSequence ?s) (m_mapCallbackStep ?v)\<rparr>)"
    proof (rule steps_ok_remove [OF v _ _ C(2) _ _ skip])
      show "map_find x m = (if x \<in> C then None else deref x ?v)" for x using C(3) by (simp only: deref_def) 
      show "c = a \<or> (\<exists>r p. deref c ?v = Some r \<and> \<not> m_bRegistered r \<and> p \<in> C \<and> (p, c) \<in> next_of (objects ?v))" if "c \<in> C" for c
        using C(4) that unfolding deref_def by blast
      show "(x, a) \<notin> next_of (objects ?v)" for x using alone nx by simp
    qed (use s in simp)
    then show ?thesis using s pre False get C(1) reg by (simp add: delete_step_def Let_def)
  qed
qed

section \<open>Runs\<close>

text \<open>What the code of a step does with steps, and the events that run it.\<close>

datatype step_op =
  StepNew nat "nat option" "redis_cmd option"
| StepReg nat rat
| StepRegFrom u32 nat rat
| StepDel nat
| StepDelFrom u32 nat
| StepCut nat
| StepDelay nat
| StepAddPre nat nat

fun run_step_op :: "moment \<Rightarrow> step_op \<Rightarrow> 'r step_world \<Rightarrow> 'r step_world option" where
  "run_step_op t (StepNew a next cmd) w = map_option (\<lambda>(w, s). put_step a s w) (Step_new next cmd w)"
| "run_step_op t (StepReg a d) w = map_option fst (RegisterCallback t d (Some a) w)"
| "run_step_op t (StepRegFrom self a d) w = map_option fst (RegisterCallback_from self t d (Some a) w)"
| "run_step_op t (StepDel a) w = DeleteCallback t (Some a) w"
| "run_step_op t (StepDelFrom self a) w = DeleteCallback_from self t (Some a) w"
| "run_step_op t (StepCut a) w = SetNextStepNull a w"
| "run_step_op t (StepDelay a) w = DelayTimeout t a w"
| "run_step_op t (StepAddPre a b) w = AddPreStepSeq a (Some b) w"

fun run_step_ops :: "moment \<Rightarrow> step_op list \<Rightarrow> 'r step_world \<Rightarrow> 'r step_world option" where
  "run_step_ops t [] w = Some w"
| "run_step_ops t (x # xs) w = Option.bind (run_step_op t x w) (run_step_ops t xs)"

definition step_script :: "moment \<Rightarrow> step_op list \<Rightarrow> bool \<Rightarrow> 'r step_world \<Rightarrow> ('r step_world \<times> bool) option" where
  "step_script t xs running w = map_option (\<lambda>w. (w, running)) (run_step_ops t xs w)"

datatype step_event =
  StepCall moment step_op
| StepMsg moment u32 "step_op list" bool
| StepDue moment nat "step_op list" bool

fun run_step_event :: "step_event \<Rightarrow> 'r step_world \<Rightarrow> 'r step_world option" where
  "run_step_event (StepCall t x) w = run_step_op t x w"
| "run_step_event (StepMsg t sq xs running) w = StepMessage t (\<lambda>_. step_script t xs running) sq w"
| "run_step_event (StepDue t a xs running) w = StepTimeoutCallback t (step_script t xs running) a w"

fun run_step_events :: "step_event list \<Rightarrow> 'r step_world \<Rightarrow> 'r step_world option" where
  "run_step_events [] w = Some w"
| "run_step_events (e # es) w = Option.bind (run_step_event e w) (run_step_events es)"

definition no_steps :: "rat \<Rightarrow> 'r \<Rightarrow> 'r step_world" where
  "no_steps d r = \<lparr>m_mapCallbackStep = [], w_ulSequence = 0, m_dStepTimeout = d, objects = [], step_timers = [], rest = r\<rparr>"

text \<open>The rules: objects are made at free addresses, a next step belongs to one step only, and a step is deleted only
  when it is registered with a timer and no step points to it.\<close>

definition timed :: "nat \<Rightarrow> 'r step_world \<Rightarrow> bool" where
  "timed a w = (case deref a w of None \<Rightarrow> False | Some s \<Rightarrow> m_pTimeoutWatcher s)"

definition deletable :: "nat \<Rightarrow> 'r step_world \<Rightarrow> bool" where
  "deletable a w \<longleftrightarrow> timed a w \<and> \<not> pointed a w"

fun step_allowed :: "moment \<Rightarrow> step_op \<Rightarrow> 'r step_world \<Rightarrow> bool" where
  "step_allowed t (StepNew a next cmd) w \<longleftrightarrow>
     deref a w = None \<and> (case next of None \<Rightarrow> True | Some b \<Rightarrow> deref b w \<noteq> None \<and> \<not> pointed b w)"
| "step_allowed t (StepReg a d) w \<longleftrightarrow> malloc_works t \<and> deref a w \<noteq> None"
| "step_allowed t (StepRegFrom self a d) w \<longleftrightarrow> malloc_works t \<and> deref a w \<noteq> None"
| "step_allowed t (StepDel a) w \<longleftrightarrow> deletable a w"
| "step_allowed t (StepDelFrom self a) w \<longleftrightarrow> deletable a w"
| "step_allowed t (StepCut a) w \<longleftrightarrow> deref a w \<noteq> None"
| "step_allowed t (StepDelay a) w \<longleftrightarrow> timed a w"
| "step_allowed t (StepAddPre a b) w \<longleftrightarrow> deref a w \<noteq> None \<and> deref b w \<noteq> None"

fun step_ops_allowed :: "moment \<Rightarrow> step_op list \<Rightarrow> 'r step_world \<Rightarrow> bool" where
  "step_ops_allowed t [] w \<longleftrightarrow> True"
| "step_ops_allowed t (x # xs) w \<longleftrightarrow>
     step_allowed t x w \<and> (case run_step_op t x w of None \<Rightarrow> True | Some w \<Rightarrow> step_ops_allowed t xs w)"

fun step_event_allowed :: "step_event \<Rightarrow> 'r step_world \<Rightarrow> bool" where
  "step_event_allowed (StepCall t x) w \<longleftrightarrow> step_allowed t x w"
| "step_event_allowed (StepMsg t sq xs running) w \<longleftrightarrow>
     (case map_find sq (m_mapCallbackStep w) of None \<Rightarrow> True
      | Some a \<Rightarrow>
          (case deref a w of None \<Rightarrow> True
           | Some s \<Rightarrow>
               let w = put_step a (s\<lparr>m_dActiveTime := ev_now t\<rparr>) w in
               step_ops_allowed t xs w \<and>
               (case run_step_ops t xs w of None \<Rightarrow> True
                | Some w \<Rightarrow> running \<or> (case map_find sq (m_mapCallbackStep w) of None \<Rightarrow> False | Some b \<Rightarrow> \<not> pointed b w))))"
| "step_event_allowed (StepDue t a xs running) w \<longleftrightarrow>
     (let w = w\<lparr>step_timers := map_erase a (step_timers w)\<rparr> in
      step_ops_allowed t xs w \<and>
      (case run_step_ops t xs w of None \<Rightarrow> True | Some w \<Rightarrow> timed a w \<and> (running \<or> \<not> pointed a w)))"

fun step_events_allowed :: "step_event list \<Rightarrow> 'r step_world \<Rightarrow> bool" where
  "step_events_allowed [] w \<longleftrightarrow> True"
| "step_events_allowed (e # es) w \<longleftrightarrow>
     step_event_allowed e w \<and> (case run_step_event e w of None \<Rightarrow> True | Some w \<Rightarrow> step_events_allowed es w)"

lemma timedE: "timed a w \<Longrightarrow> (\<And>s. deref a w = Some s \<Longrightarrow> m_pTimeoutWatcher s \<Longrightarrow> P) \<Longrightarrow> P"
  by (auto simp: timed_def split: option.splits)

lemma delete_allowed:
  assumes "steps_ok skip w" "deletable a w" "skip = skip' \<or> skip = Some a"
  shows "\<exists>w'. delete_step self t (Some a) w = Some w' \<and> steps_ok skip' w'"
  using assms delete_step_ok [OF assms(1) _ _ _ assms(3)] not_pointed [of a w]
  by (auto simp: deletable_def elim!: timedE)

lemma Step_new_ok:
  assumes ok: "steps_ok skip w" and new: "deref a w = None"
    and nxt: "case next of None \<Rightarrow> True | Some b \<Rightarrow> deref b w \<noteq> None \<and> \<not> pointed b w"
  shows "\<exists>w' s. Step_new next cmd w = Some (w', s) \<and> steps_ok skip (put_step a s w')"
proof -
  have fresh: "steps_ok skip (put_step a s v)"
    if v: "steps_ok skip v" "deref a v = None" and s: "\<not> m_bRegistered s" "\<not> m_pTimeoutWatcher s"
      and nx: "\<And>b. m_pNextStep s = Some b \<Longrightarrow> deref b v \<noteq> None \<and> (\<forall>x. (x, b) \<notin> next_of (objects v))" for v :: "'r step_world" and s
  proof (rule steps_okI)
    show "chains_ok (objects (put_step a s v))"
      using chains_ok_new [OF steps_okE(1) [OF v(1)], of a s] chains_ok_cut [OF steps_okE(1) [OF v(1)], of s a] v(2) nx
      by (cases "m_pNextStep s") (auto simp: deref_def)
    fix sq b assume "map_find sq (m_mapCallbackStep (put_step a s v)) = Some b"
    then show "sq \<noteq> 0 \<and> (\<exists>r. deref b (put_step a s v) = Some r \<and> m_bRegistered r \<and> m_ulSequence r = sq \<and> m_pTimeoutWatcher r)"
      using steps_okE(2) [OF v(1), of sq b] v(2) by (cases "b = a") auto
  next
    fix b assume "map_find b (step_timers (put_step a s v)) \<noteq> None"
    then show "\<exists>r. deref b (put_step a s v) = Some r \<and> m_pTimeoutWatcher r"
      using steps_okE(6) [OF v(1), of b] v(2) by (cases "b = a") auto
  qed (use steps_okE(3,4,5) [OF v(1)] s in \<open>auto split: if_splits\<close>)
  show ?thesis
  proof (cases "next")
    case None
    then show ?thesis by (auto simp: Step_new_def intro!: fresh [OF ok new])
  next
    case (Some b)
    then obtain r where r: "deref b w = Some r" using nxt by auto
    have alone: "(x, b) \<notin> next_of (objects w)" for x using not_pointed [of b w] nxt Some by simp
    show ?thesis
    proof (cases "m_bRegistered r")
      case False
      then show ?thesis using Some r alone by (auto simp: Step_new_def intro!: fresh [OF ok new])
    next
      case True
      have ab: "a \<noteq> b" using new r by auto
      obtain v n where v: "Step_GetSequence b w = Some (v, n)" "steps_ok skip v" "next_of (objects v) = next_of (objects w)"
          "deref b v = Some (if m_bRegistered r then r\<lparr>m_ulSequence := n\<rparr> else r)" "\<forall>x. x \<noteq> b \<longrightarrow> deref x v = deref x w"
        by (rule GetSequence_ok [OF ok r])
      show ?thesis using v ab new Some r True alone by (auto simp: Step_new_def intro!: fresh [OF v(2)])
    qed
  qed
qed

lemma AddPreStepSeq_ok:
  assumes ok: "steps_ok skip w" and s: "deref a w \<noteq> None" "deref b w \<noteq> None"
  shows "\<exists>w'. AddPreStepSeq a (Some b) w = Some w' \<and> steps_ok skip w'"
proof -
  obtain r where r: "deref b w = Some r" using s by auto
  obtain v n where v: "Step_GetSequence b w = Some (v, n)" "steps_ok skip v" "\<forall>x. x \<noteq> b \<longrightarrow> deref x v = deref x w"
      "deref b v = Some (if m_bRegistered r then r\<lparr>m_ulSequence := n\<rparr> else r)"
    by (rule GetSequence_ok [OF ok r])
  obtain u where u: "deref a v = Some u" using s v(3,4) by (cases "a = b") auto
  have "steps_ok skip (put_step a (u\<lparr>m_setPreStepSeq := set_put n (m_setPreStepSeq u)\<rparr>) v)"
    by (rule steps_ok_put [OF v(2) u]) (use steps_okE(3) [OF v(2) u] in simp_all)
  then show ?thesis using ok r v(1) u by (auto simp: AddPreStepSeq_def)
qed

lemma SetNextStepNull_ok:
  assumes ok: "steps_ok skip w" and s: "deref a w \<noteq> None"
  shows "\<exists>w'. SetNextStepNull a w = Some w' \<and> steps_ok skip w'"
proof -
  obtain r where r: "deref a w = Some r" using s by auto
  have "steps_ok skip (put_step a (r\<lparr>m_setNextStepSeq := [], m_pNextStep := None\<rparr>) w)"
    by (rule steps_ok_put [OF ok r]) (use steps_okE(3) [OF ok r] in simp_all)
  then show ?thesis using r by (simp add: SetNextStepNull_def)
qed

lemma run_step_op_ok:
  assumes ok: "steps_ok skip w" and x: "step_allowed t x w"
  shows "\<exists>w'. run_step_op t x w = Some w' \<and> steps_ok skip w'"
proof (cases x)
  case (StepNew a nxt cmd)
  then obtain w' s where "Step_new nxt cmd w = Some (w', s)" "steps_ok skip (put_step a s w')"
    using Step_new_ok [OF ok, of a nxt cmd] x by auto
  then show ?thesis using StepNew by simp
next
  case (StepReg a d)
  then show ?thesis using RegisterCallback_ok(1) [OF ok, of a _ t d] x by auto
next
  case (StepRegFrom self a d)
  then show ?thesis using RegisterCallback_ok(2) [OF ok, of a _ t self d] x by auto
next
  case (StepDel a)
  then show ?thesis using delete_allowed [OF ok, of a skip] x by (auto simp: DeleteCallback_def)
next
  case (StepDelFrom self a)
  then show ?thesis using delete_allowed [OF ok, of a skip] x by (auto simp: DeleteCallback_from_def)
next
  case (StepCut a)
  then show ?thesis using SetNextStepNull_ok [OF ok, of a] x by simp
next
  case (StepDelay a)
  then show ?thesis using DelayTimeout_ok [OF ok, of a _ skip t] x by (auto elim!: timedE)
next
  case (StepAddPre a b)
  then show ?thesis using AddPreStepSeq_ok [OF ok, of a b] x by simp
qed

lemma run_step_ops_ok:
  "steps_ok skip w \<Longrightarrow> step_ops_allowed t xs w \<Longrightarrow> \<exists>w'. run_step_ops t xs w = Some w' \<and> steps_ok skip w'"
proof (induction xs arbitrary: w)
  case (Cons x xs)
  obtain v where "run_step_op t x w = Some v" "steps_ok skip v" using run_step_op_ok [OF Cons.prems(1), of t x] Cons.prems by auto
  then show ?case using Cons by simp
qed simp

lemma StepMsg_ok:
  assumes ok: "steps_ok None w" and e: "step_event_allowed (StepMsg t sq xs running) w"
  shows "\<exists>w'. StepMessage t (\<lambda>_. step_script t xs running) sq w = Some w' \<and> steps_ok None w'"
proof (cases "map_find sq (m_mapCallbackStep w)")
  case (Some a)
  then obtain s where s: "deref a w = Some s" "m_bRegistered s" using steps_okE(2) [OF ok] by blast
  let ?v = "put_step a (s\<lparr>m_dActiveTime := ev_now t\<rparr>) w"
  have v: "steps_ok None ?v" by (rule steps_ok_put [OF ok s(1)]) (use steps_okE(3) [OF ok s] in simp_all)
  obtain u where u: "run_step_ops t xs ?v = Some u" "steps_ok None u"
    using run_step_ops_ok [OF v, of t xs] e Some s by (auto simp: Let_def)
  show ?thesis
  proof (cases running)
    case False
    then obtain b where b: "map_find sq (m_mapCallbackStep u) = Some b" "\<not> pointed b u"
      using e Some s u(1) by (auto simp: Let_def split: option.splits)
    then have "deletable b u" using steps_okE(2) [OF u(2) b(1)] by (auto simp: deletable_def timed_def)
    then obtain z where "DeleteCallback t (Some b) u = Some z" "steps_ok None z"
      using delete_allowed [OF u(2), of b None] by (auto simp: DeleteCallback_def)
    then show ?thesis using Some s u False b by (simp add: StepMessage_def step_script_def)
  qed (use Some s u in \<open>simp add: StepMessage_def step_script_def\<close>)
qed (use ok in \<open>simp add: StepMessage_def\<close>)

lemma StepDue_ok:
  assumes ok: "steps_ok None w" and e: "step_event_allowed (StepDue t a xs running) w"
  shows "\<exists>w'. StepTimeoutCallback t (step_script t xs running) a w = Some w' \<and> steps_ok None w'"
proof (cases "map_find a (step_timers w)")
  case (Some due)
  let ?v = "w\<lparr>step_timers := map_erase a (step_timers w)\<rparr>"
  obtain s where s: "deref a w = Some s" "m_pTimeoutWatcher s" using steps_okE(6) [OF ok, of a] Some by auto
  have v: "steps_ok (Some a) ?v"
    by (rule steps_okI) (use steps_okE [OF ok] in \<open>auto simp: map_find_erase split: if_splits\<close>)
  obtain u where u: "run_step_ops t xs ?v = Some u" "steps_ok (Some a) u" "timed a u" "\<not> running \<Longrightarrow> \<not> pointed a u"
    using run_step_ops_ok [OF v, of t xs] e by (auto simp: Let_def split: option.splits)
  obtain r where r: "deref a u = Some r" "m_pTimeoutWatcher r" using u(3) by (auto elim!: timedE)
  have after: "\<exists>z. set_timer t d a ?v = Some z \<and> steps_ok None z" for d
    by (rule set_timer_ok [OF v]) (use s in simp_all)
  have again: "\<exists>z. set_timer t d a u = Some z \<and> steps_ok None z" for d
    by (rule set_timer_ok [OF u(2) r]) simp
  have gone: "\<exists>z. DeleteCallback t (Some a) u = Some z \<and> steps_ok None z" if "\<not> running"
    using delete_allowed [OF u(2), of a None] u(3,4) that by (simp add: DeleteCallback_def deletable_def)
  show ?thesis
    using Some s u(1) r after [of "m_dActiveTime s - ev_now t + m_dTimeout s"] again [of "m_dTimeout r"] gone ok
    by (cases "m_dActiveTime s - ev_now t + m_dTimeout s > 0"; cases running; cases "ev_now t < due")
      (simp_all add: StepTimeoutCallback_def StepTimeout_def step_script_def Let_def)
qed (use ok in \<open>simp add: StepTimeoutCallback_def\<close>)

lemma run_step_event_ok:
  assumes "steps_ok None w" "step_event_allowed e w"
  shows "\<exists>w'. run_step_event e w = Some w' \<and> steps_ok None w'"
  using assms run_step_op_ok [OF assms(1)] StepMsg_ok [OF assms(1)] StepDue_ok [OF assms(1)]
  by (cases e) (simp_all only: run_step_event.simps step_event_allowed.simps(1))

lemma run_step_events_ok:
  "steps_ok None w \<Longrightarrow> step_events_allowed es w \<Longrightarrow> \<exists>w'. run_step_events es w = Some w' \<and> steps_ok None w'"
proof (induction es arbitrary: w)
  case (Cons e es)
  obtain v where "run_step_event e w = Some v" "steps_ok None v" using run_step_event_ok [OF Cons.prems(1), of e] Cons.prems by auto
  then show ?case using Cons by simp
qed simp

lemma no_steps_ok: "steps_ok skip (no_steps d r)"
  by (simp add: steps_ok_def no_steps_def deref_def chains_ok_def next_of_def acyclic_def)


text \<open>A step starts the next one and ends; then the next one times out.\<close>

definition relay :: "step_event list" where
  "relay =
     [StepCall (moment_at 10) (StepNew 2 None None), StepCall (moment_at 10) (StepNew 1 (Some 2) None),
      StepCall (moment_at 10) (StepReg 1 0), StepMsg (moment_at 11) 1 [StepRegFrom 1 2 5] False,
      StepDue (moment_at 17) 2 [] False]"

lemma destroy_last:
  "map_find a m = Some s \<Longrightarrow> m_pNextStep s = None \<Longrightarrow> destroy [] a m = Some (map_erase a m)"
  "map_find a m = Some s \<Longrightarrow> m_pNextStep s = Some b \<Longrightarrow> map_find b m = Some r \<Longrightarrow> m_bRegistered r \<Longrightarrow>
   destroy [] a m = Some (map_erase a m)"
  by (simp_all add: destroy.simps)

lemmas step_run_simps =
  no_steps_def deref_def put_step_def GetSequence_labor_def Step_GetSequence_def Step_new_def set_timer_def
  insert_step_def RegisterCallback_def note_pre_def RegisterCallback_from_def delete_step_def DeleteCallback_def
  DeleteCallback_from_def StepTimeout_def StepTimeoutCallback_def StepMessage_def step_script_def pointed_def timed_def
  due_time_def map_erase_def destroy_last Let_def


text \<open>The steps a waiting step waits for.\<close>

lemma pre_scan_waits: "q \<in> set qs \<Longrightarrow> map_find q m \<noteq> None \<Longrightarrow> self \<noteq> Some q \<Longrightarrow> snd (pre_scan self m qs)"
  by (induction qs) (auto split: prod.splits)

lemma pre_scan_free: "(\<And>q. q \<in> set qs \<Longrightarrow> map_find q m = None \<or> self = Some q) \<Longrightarrow> \<not> snd (pre_scan self m qs)"
  by (induction qs) (auto split: prod.splits)

text \<open>A step that has to wait for another one which is still registered is not deleted: it stays in the table, with its
  next step. But its timer is set to the time of day instead of a delay, so that it will not time out again
  (\<open>ResetTimeout\<close> adds the time of the loop to a delay that is relative).
\<close>

theorem waiting_step_kept:
  assumes ok: "steps_ok skip w" and s: "deref a w = Some s" "m_pTimeoutWatcher s"
    and wait: "q \<in> set (m_setPreStepSeq s)" "map_find q (m_mapCallbackStep w) \<noteq> None"
  shows "\<exists>w' s'. DeleteCallback t (Some a) w = Some w' \<and> m_mapCallbackStep w' = m_mapCallbackStep w \<and>
    deref a w' = Some s' \<and> m_pNextStep s' = m_pNextStep s \<and>
    map_find a (step_timers w') = Some (ev_now t + (m_dTimeout s + ev_time t))"
proof -
  obtain pre where "pre_scan None (m_mapCallbackStep w) (m_setPreStepSeq s) = (pre, True)"
    using pre_scan_waits [OF wait, of None] by (metis option.distinct(1) surjective_pairing)
  then show ?thesis
    using s steps_okE(4) [OF ok s]
    by (simp add: DeleteCallback_def delete_step_def DelayTimeout_def ResetTimeout_def set_timer_def due_time_def map_find_put_any)
qed

text \<open>Two steps, where the second waits for the first and is its next step.\<close>

definition first_step :: step_obj where
  "first_step =
     \<lparr>m_bRegistered = True, m_ulSequence = 1, m_dActiveTime = 5, m_dTimeout = 3, m_pLabor = True, m_pTimeoutWatcher = True,
      m_pNextStep = Some 20, m_setNextStepSeq = [2], m_setPreStepSeq = [], m_pRedisCmd = None\<rparr>"

definition second_step :: "u32 stdset \<Rightarrow> step_obj" where
  "second_step pre = first_step\<lparr>m_ulSequence := 2, m_pNextStep := None, m_setNextStepSeq := [], m_setPreStepSeq := pre\<rparr>"

definition two_steps :: "u32 stdset \<Rightarrow> unit step_world" where
  "two_steps pre =
     \<lparr>m_mapCallbackStep = [(1, 10), (2, 20)], w_ulSequence = 2, m_dStepTimeout = 3,
      objects = [(10, first_step), (20, second_step pre)], step_timers = [(10, 8), (20, 8)], rest = ()\<rparr>"

lemma two_steps_objects: "deref 10 (two_steps pre) = Some first_step" "deref 20 (two_steps pre) = Some (second_step pre)"
  by (simp_all add: two_steps_def deref_def)

lemma two_steps_ok: "steps_ok None (two_steps pre)"
proof -
  have "next_of (objects (two_steps pre)) = {(10, 20)}"
    by (auto simp: next_of_def two_steps_def first_step_def second_step_def split: if_splits)
  moreover have "acyclic {(10 :: nat, 20 :: nat)}" by (subst acyclic_insert) (simp add: acyclic_def)
  ultimately have "chains_ok (objects (two_steps pre))"
    by (simp add: chains_ok_def two_steps_def)
  then show ?thesis
    by (rule steps_okI) (auto simp: two_steps_def first_step_def second_step_def deref_def split: if_splits)
qed

theorem waiting_step_kept_witness:
  "\<exists>w'. DeleteCallback (moment_at 1000) (Some 20) (two_steps [1]) = Some w' \<and> deref 20 w' \<noteq> None \<and>
    map_find 20 (step_timers w') = Some 2003"
  using waiting_step_kept [OF two_steps_ok two_steps_objects(2), of "[1]" 1 "moment_at 1000"]
  by (auto simp: two_steps_def second_step_def first_step_def)

text \<open>Deletion of a registered step without a next step and without steps to wait for.\<close>

lemma delete_last:
  assumes ok: "steps_ok skip w" and s: "deref a w = Some s" "m_pTimeoutWatcher s" "m_pNextStep s = None"
    and free: "\<And>q. q \<in> set (m_setPreStepSeq s) \<Longrightarrow> map_find q (m_mapCallbackStep w) = None \<or> self = Some q"
  shows "\<exists>v. delete_step self t (Some a) w = Some v \<and> (\<forall>x. deref x v = (if x = a then None else deref x w)) \<and>
    m_mapCallbackStep v = map_erase (m_ulSequence s) (m_mapCallbackStep w)"
proof -
  obtain pre where pre: "pre_scan self (m_mapCallbackStep w) (m_setPreStepSeq s) = (pre, False)"
    using pre_scan_free [OF free] by (metis surjective_pairing)
  have "m_ulSequence s \<noteq> 0" "m_bRegistered s" "map_find (m_ulSequence s) (m_mapCallbackStep w) = Some a"
    using steps_okE(4) [OF ok s(1,2)] steps_okE(2) [OF ok] by auto
  with pre s show ?thesis
    by (simp add: delete_step_def Step_GetSequence_def destroy.simps map_find_put_any map_find_erase deref_def)
qed

text \<open>C37: A next step that ends before the step it belongs to leaves a dangling pointer. When it is deleted first, deleting the
  other step uses freed memory; and when the other step runs it through \<open>ExecStep\<close> and it ends, the very
  test whether the pointer has to be cleared reads the deleted object.
\<close>

theorem next_step_dangles:
  assumes ok: "steps_ok skip w" and a: "deref a w = Some s" "m_pTimeoutWatcher s" "m_pNextStep s = Some b" "m_setPreStepSeq s = []"
    and b: "deref b w = Some r" "m_pTimeoutWatcher r" "m_pNextStep r = None" "m_setPreStepSeq r = []"
  shows "(\<exists>v. DeleteCallback t (Some b) w = Some v \<and> DeleteCallback t' (Some a) v = None) \<and>
    ExecStep t (\<lambda>_ w. Some (w, False)) (m_ulSequence s) (m_ulSequence r) w = None"
proof -
  have "(a, b) \<in> next_of (objects w)" using next_ofI a(1,3) by (simp add: deref_def)
  then have ab: "a \<noteq> b" using chains_okD(1) [OF steps_okE(1) [OF ok]] by (auto simp: acyclic_def)
  note sa = steps_okE(4) [OF ok a(1,2)] and sb = steps_okE(4) [OF ok b(1,2)]
  have seq: "m_ulSequence s \<noteq> m_ulSequence r" using sa sb ab by auto
  have nz: "m_ulSequence s \<noteq> 0" using steps_okE(2) [OF ok] sa by blast
  obtain v where v: "delete_step None t (Some b) w = Some v" "\<forall>x. deref x v = (if x = b then None else deref x w)"
      "m_mapCallbackStep v = map_erase (m_ulSequence r) (m_mapCallbackStep w)"
    using delete_last [OF ok b(1,2,3), of None t] b(4) by auto
  have "destroy [] a (map_put a s' (objects v)) = None" if "m_pNextStep s' = Some b" for s'
    using that ab v(2) by (simp add: destroy.simps map_find_put_any deref_def)
  then have "DeleteCallback t' (Some a) v = None"
    using a v(2,3) ab sa seq nz
    by (simp add: DeleteCallback_def delete_step_def Step_GetSequence_def map_find_erase)
  moreover obtain u where u: "delete_step (Some (m_ulSequence s)) t (Some b) w = Some u"
      "\<forall>x. deref x u = (if x = b then None else deref x w)"
      "m_mapCallbackStep u = map_erase (m_ulSequence r) (m_mapCallbackStep w)"
    using delete_last [OF ok b(1,2,3), of "Some (m_ulSequence s)" t] b(4) by auto
  have "ExecStep t (\<lambda>_ w. Some (w, False)) (m_ulSequence s) (m_ulSequence r) w = None"
    using u a ab sa sb seq
    by (simp add: ExecStep_def DeleteCallback_from_def map_find_erase Step_GetSequence_def)
  ultimately show ?thesis using v(1) by (simp add: DeleteCallback_def)
qed

theorem next_step_dangles_witness:
  "ExecStep (moment_at 6) (\<lambda>_ w. Some (w, False)) 1 2 (two_steps []) = None"
proof -
  have "(\<exists>v. DeleteCallback (moment_at 6) (Some 20) (two_steps []) = Some v \<and> DeleteCallback (moment_at 7) (Some 10) v = None) \<and>
    ExecStep (moment_at 6) (\<lambda>_ w. Some (w, False)) (m_ulSequence first_step) (m_ulSequence (second_step [])) (two_steps []) = None"
    by (rule next_step_dangles [OF two_steps_ok two_steps_objects(1) _ _ _ two_steps_objects(2)])
      (simp_all add: first_step_def second_step_def)
  then show ?thesis by (simp add: first_step_def second_step_def)
qed

end
