(* ===== verification/Worker_Redis.thy ===== *)
theory Worker_Redis
  imports Step_Safety
begin

text \<open>
  The connections of a worker to redis servers (\<open>AutoRedisCmd\<close>, \<open>RegisterCallback\<close> of a \<open>RedisStep\<close>,
  \<open>RedisConnect\<close>, \<open>RedisDisconnect\<close>, \<open>RedisCmdResult\<close> and the tables of contexts in
  \<open>Starship/src/labor/duty/OssWorker.cpp\<close>, \<open>Starship/src/step/RedisStep.hpp\<close>). hiredis is an argument: which
  context a connection gets and whether a command is accepted; its callbacks are events. The function \<open>Callback\<close>
  of a step is an argument too; it may register further steps. The fields \<open>issued\<close>,
  \<open>answered\<close> and \<open>told\<close> record what was handed to hiredis, what was answered, and which steps were called.
\<close>

section \<open>Tables\<close>

record 'reply redis_attr =
  ulSeq :: u32
  bIsReady :: bool
  listData :: "nat list"
  listWaitData :: "nat list"
  issued :: "(nat \<times> string list) list"
  answered :: "(nat \<times> 'reply) list"

record 'reply redis_tables =
  m_mapRedisAttr :: "(nat, 'reply redis_attr) stdmap"
  m_mapRedisContext :: "(string, nat) stdmap"
  m_mapContextIdentify :: "(nat, string) stdmap"
  told :: "(nat \<times> int) list"
  lib_calls :: nat

type_synonym 'reply rworld = "'reply redis_tables step_world"

text \<open>hiredis: the context of a new connection and whether it has an error; whether a command is accepted.\<close>

record hiredis =
  redisAsyncConnect :: "nat \<Rightarrow> string \<Rightarrow> int \<Rightarrow> nat \<times> bool"
  redisAsyncCommandArgv :: "nat \<Rightarrow> nat \<Rightarrow> string list \<Rightarrow> bool"

type_synonym 'reply callback =
  "nat \<Rightarrow> nat \<Rightarrow> int \<Rightarrow> 'reply option \<Rightarrow> 'reply rworld \<Rightarrow> ('reply rworld \<times> bool) option"

definition upd_rest :: "('r \<Rightarrow> 'r) \<Rightarrow> 'r step_world \<Rightarrow> 'r step_world" where
  "upd_rest f w = w\<lparr>rest := f (rest w)\<rparr>"

definition attr_of :: "nat \<Rightarrow> 'reply rworld \<Rightarrow> 'reply redis_attr option" where
  "attr_of c w = map_find c (m_mapRedisAttr (rest w))"

definition put_attr :: "nat \<Rightarrow> 'reply redis_attr \<Rightarrow> 'reply rworld \<Rightarrow> 'reply rworld" where
  "put_attr c ra w = upd_rest (\<lambda>r. r\<lparr>m_mapRedisAttr := map_put c ra (m_mapRedisAttr r)\<rparr>) w"

definition tell :: "nat \<Rightarrow> int \<Rightarrow> 'reply rworld \<Rightarrow> 'reply rworld" where
  "tell p status w = upd_rest (\<lambda>r. r\<lparr>told := told r @ [(p, status)]\<rparr>) w"

section \<open>Sending commands\<close>

definition command_argv :: "redis_cmd \<Rightarrow> string list" where
  "command_argv cmd = fst cmd # map fst (snd cmd)"

text \<open>Handing the command of a step to hiredis.\<close>

definition issue :: "hiredis \<Rightarrow> nat \<Rightarrow> nat \<Rightarrow> 'reply rworld \<Rightarrow> ('reply rworld \<times> string list option) option" where
  "issue hi c p w =
     Option.bind (deref p w) (\<lambda>s.
       Option.bind (m_pRedisCmd s) (\<lambda>cmd.
         let argv = command_argv cmd; n = lib_calls (rest w) in
         Some (upd_rest (\<lambda>r. r\<lparr>lib_calls := Suc n\<rparr>) w,
               if redisAsyncCommandArgv hi n c argv then Some argv else None)))"

definition RegisterCallback_ctx ::
    "hiredis \<Rightarrow> nat \<Rightarrow> nat option \<Rightarrow> 'reply rworld \<Rightarrow> ('reply rworld \<times> bool) option" where
  "RegisterCallback_ctx hi c q w =
     (case q of None \<Rightarrow> Some (w, False)
      | Some p \<Rightarrow>
          Option.bind (deref p w) (\<lambda>s.
            if m_bRegistered s then Some (w, True)
            else
              let w = put_step p (s\<lparr>m_pLabor := True, m_bRegistered := True\<rparr>) w in
              case attr_of c w of None \<Rightarrow> Some (w, False)
              | Some ra \<Rightarrow>
                  if bIsReady ra then
                    Option.bind (issue hi c p w) (\<lambda>(w, sent).
                      case sent of None \<Rightarrow> Some (w, False)
                      | Some argv \<Rightarrow>
                          Some (put_attr c (ra\<lparr>listData := listData ra @ [p], issued := issued ra @ [(p, argv)]\<rparr>) w, True))
                  else Some (put_attr c (ra\<lparr>listWaitData := listWaitData ra @ [p]\<rparr>) w, True)))"

section \<open>Addresses\<close>

definition redis_identify :: "string \<Rightarrow> int \<Rightarrow> string" where
  "redis_identify host port = snprintf 32 (c_str host @ '':'' @ fmt_d port)"

definition AddRedisContextAddr :: "string \<Rightarrow> int \<Rightarrow> nat \<Rightarrow> 'reply rworld \<Rightarrow> 'reply rworld \<times> bool" where
  "AddRedisContextAddr host port c w =
     (let ident = redis_identify host port in
      if map_find ident (m_mapRedisContext (rest w)) = None then
        (upd_rest (\<lambda>r. r\<lparr>m_mapRedisContext := map_put ident c (m_mapRedisContext r),
                          m_mapContextIdentify := map_put c ident (m_mapContextIdentify r)\<rparr>) w, True)
      else (w, False))"

definition DelRedisContextAddr :: "nat \<Rightarrow> 'reply rworld \<Rightarrow> 'reply rworld" where
  "DelRedisContextAddr c w =
     (case map_find c (m_mapContextIdentify (rest w)) of None \<Rightarrow> w
      | Some ident \<Rightarrow>
          upd_rest (\<lambda>r. r\<lparr>m_mapRedisContext := map_erase ident (m_mapRedisContext r),
                           m_mapContextIdentify := map_erase c (m_mapContextIdentify r)\<rparr>) w)"

definition new_attr :: "u32 \<Rightarrow> nat \<Rightarrow> 'reply redis_attr" where
  "new_attr n p = \<lparr>ulSeq = n, bIsReady = False, listData = [], listWaitData = [p], issued = [], answered = []\<rparr>"

definition AutoRedisCmd :: "hiredis \<Rightarrow> string \<Rightarrow> int \<Rightarrow> nat option \<Rightarrow> 'reply rworld \<Rightarrow> ('reply rworld \<times> bool) option" where
  "AutoRedisCmd hi host port q w =
     (let n = lib_calls (rest w); (c, err) = redisAsyncConnect hi n (c_str host) port;
          w = upd_rest (\<lambda>r. r\<lparr>lib_calls := Suc n\<rparr>) w in
      if err then Some (w, False)
      else
        let (w, sq) = GetSequence_labor w in
        Option.bind q (\<lambda>p.
          Option.bind (deref p w) (\<lambda>s.
            let w = put_step p (s\<lparr>m_pLabor := True, m_bRegistered := True\<rparr>) w;
                w = upd_rest (\<lambda>r. r\<lparr>m_mapRedisAttr := map_insert c (new_attr sq p) (m_mapRedisAttr r)\<rparr>) w in
            Some (fst (AddRedisContextAddr host port c w), True))))"

definition RegisterCallback_host ::
    "hiredis \<Rightarrow> string \<Rightarrow> int \<Rightarrow> nat option \<Rightarrow> 'reply rworld \<Rightarrow> ('reply rworld \<times> bool) option" where
  "RegisterCallback_host hi host port q w =
     (case map_find (redis_identify host port) (m_mapRedisContext (rest w)) of
        None \<Rightarrow> AutoRedisCmd hi host port q w
      | Some c \<Rightarrow> RegisterCallback_ctx hi c q w)"

definition RegisterCallback_identify ::
    "hiredis \<Rightarrow> string \<Rightarrow> nat option \<Rightarrow> 'reply rworld \<Rightarrow> ('reply rworld \<times> bool) option" where
  "RegisterCallback_identify hi ident q w =
     (if CHR '':'' \<notin> set ident then Some (w, False)
      else
        let host = takeWhile (\<lambda>c. c \<noteq> CHR '':'') ident; port = atoi (drop (length host + 1) ident) in
        if port = 0 then Some (w, False)
        else case map_find ident (m_mapRedisContext (rest w)) of
          None \<Rightarrow> AutoRedisCmd hi host port q w
        | Some c \<Rightarrow> RegisterCallback_ctx hi c q w)"

section \<open>Callbacks of hiredis\<close>

text \<open>A connection that is ready: the waiting commands are sent, up to the first one that is not accepted.\<close>

fun send_waiting :: "hiredis \<Rightarrow> nat \<Rightarrow> nat list \<Rightarrow> 'reply redis_attr \<Rightarrow> 'reply rworld \<Rightarrow> ('reply rworld \<times> 'reply redis_attr) option" where
  "send_waiting hi c [] ra w = Some (w, ra\<lparr>listWaitData := []\<rparr>)"
| "send_waiting hi c (p # ps) ra w =
     Option.bind (issue hi c p w) (\<lambda>(w, sent).
       case sent of None \<Rightarrow> Some (w, ra\<lparr>listWaitData := p # ps\<rparr>)
       | Some argv \<Rightarrow>
           send_waiting hi c ps (ra\<lparr>listData := listData ra @ [p], issued := issued ra @ [(p, argv)]\<rparr>) w)"

text \<open>A connection that is lost: the steps of one of its lists are called and deleted, in a loop that also reaches
  steps that a callback adds to the list meanwhile, so that it may go on for ever.\<close>

partial_function (option) fail_steps ::
    "'reply callback \<Rightarrow> ('reply redis_attr \<Rightarrow> nat list) \<Rightarrow> nat \<Rightarrow> int \<Rightarrow> nat \<Rightarrow> 'reply rworld \<Rightarrow> 'reply rworld option" where
  "fail_steps cb which c status i w =
     Option.bind (attr_of c w) (\<lambda>ra.
       if i < length (which ra) then
         let p = which ra ! i in
         Option.bind (deref p w) (\<lambda>s.
           Option.bind (cb p c status None (tell p status w)) (\<lambda>(w, b).
             Option.bind (destroy [] p (objects w)) (\<lambda>m.
               fail_steps cb which c status (Suc i) (w\<lparr>objects := m\<rparr>))))
       else Some w)"

definition forget_ctx :: "nat \<Rightarrow> 'reply rworld \<Rightarrow> 'reply rworld" where
  "forget_ctx c w = upd_rest (\<lambda>r. r\<lparr>m_mapRedisAttr := map_erase c (m_mapRedisAttr r)\<rparr>) (DelRedisContextAddr c w)"

definition RedisConnect ::
    "hiredis \<Rightarrow> 'reply callback \<Rightarrow> nat \<Rightarrow> int \<Rightarrow> 'reply rworld \<Rightarrow> 'reply rworld option" where
  "RedisConnect hi cb c status w =
     (case attr_of c w of None \<Rightarrow> Some w
      | Some ra \<Rightarrow>
          if status = 0 then
            let ra = ra\<lparr>bIsReady := True\<rparr> in
            map_option (\<lambda>(w, ra). put_attr c ra w) (send_waiting hi c (listWaitData ra) ra w)
          else map_option (forget_ctx c) (fail_steps cb listWaitData c status 0 w))"

definition RedisDisconnect :: "'reply callback \<Rightarrow> nat \<Rightarrow> int \<Rightarrow> 'reply rworld \<Rightarrow> 'reply rworld option" where
  "RedisDisconnect cb c err w =
     (case attr_of c w of None \<Rightarrow> Some w
      | Some _ \<Rightarrow>
          Option.bind (fail_steps cb listData c err 0 w) (\<lambda>w.
            Option.bind (attr_of c w) (\<lambda>ra.
              let w = put_attr c (ra\<lparr>listData := []\<rparr>) w in
              map_option (forget_ctx c) (fail_steps cb listWaitData c err 0 w))))"

definition RedisCmdResult :: "'reply callback \<Rightarrow> nat \<Rightarrow> int \<Rightarrow> 'reply option \<Rightarrow> 'reply rworld \<Rightarrow> 'reply rworld option" where
  "RedisCmdResult cb c err reply w =
     (case attr_of c w of None \<Rightarrow> Some w
      | Some ra \<Rightarrow>
          (case reply of
             None \<Rightarrow> map_option (forget_ctx c) (fail_steps cb listData c err 0 w)
           | Some x \<Rightarrow>
               (case listData ra of [] \<Rightarrow> Some w
                | p # _ \<Rightarrow>
                    Option.bind (deref p w) (\<lambda>s.
                      Option.bind (cb p c 0 reply (tell p 0 w)) (\<lambda>(w, running).
                        Option.bind (if running then Some (objects w) else destroy [] p (objects w)) (\<lambda>m.
                          Option.bind (attr_of c w) (\<lambda>ra.
                            Some (put_attr c (ra\<lparr>listData := tl (listData ra), answered := answered ra @ [(p, x)]\<rparr>)
                                   (w\<lparr>objects := m\<rparr>)))))))))"

section \<open>Runs\<close>

text \<open>What the code of steps does: it makes steps and registers them, by name or by host and port.\<close>

datatype redis_op =
  RedisNew nat redis_cmd
| RedisBy string nat
| RedisAt string int nat

fun run_redis_op :: "hiredis \<Rightarrow> redis_op \<Rightarrow> 'reply rworld \<Rightarrow> 'reply rworld option" where
  "run_redis_op hi (RedisNew p cmd) w = map_option (\<lambda>(w, s). put_step p s w) (Step_new None (Some cmd) w)"
| "run_redis_op hi (RedisBy ident p) w = map_option fst (RegisterCallback_identify hi ident (Some p) w)"
| "run_redis_op hi (RedisAt host port p) w = map_option fst (RegisterCallback_host hi host port (Some p) w)"

fun run_redis_ops :: "hiredis \<Rightarrow> redis_op list \<Rightarrow> 'reply rworld \<Rightarrow> 'reply rworld option" where
  "run_redis_ops hi [] w = Some w"
| "run_redis_ops hi (x # xs) w = Option.bind (run_redis_op hi x w) (run_redis_ops hi xs)"

definition script_cb :: "hiredis \<Rightarrow> (nat \<Rightarrow> redis_op list \<times> bool) \<Rightarrow> 'reply callback" where
  "script_cb hi script p c status reply w =
     map_option (\<lambda>w. (w, snd (script p))) (run_redis_ops hi (fst (script p)) w)"

datatype 'reply redis_event =
  RedisCall redis_op
| RedisConnected nat int "nat \<Rightarrow> redis_op list \<times> bool"
| RedisLost nat int "nat \<Rightarrow> redis_op list \<times> bool"
| RedisReply nat int "'reply option" "nat \<Rightarrow> redis_op list \<times> bool"

fun run_redis_event :: "hiredis \<Rightarrow> 'reply redis_event \<Rightarrow> 'reply rworld \<Rightarrow> 'reply rworld option" where
  "run_redis_event hi (RedisCall x) w = run_redis_op hi x w"
| "run_redis_event hi (RedisConnected c status script) w = RedisConnect hi (script_cb hi script) c status w"
| "run_redis_event hi (RedisLost c err script) w = RedisDisconnect (script_cb hi script) c err w"
| "run_redis_event hi (RedisReply c err reply script) w = RedisCmdResult (script_cb hi script) c err reply w"

fun run_redis_events :: "hiredis \<Rightarrow> 'reply redis_event list \<Rightarrow> 'reply rworld \<Rightarrow> 'reply rworld option" where
  "run_redis_events hi [] w = Some w"
| "run_redis_events hi (e # es) w = Option.bind (run_redis_event hi e w) (run_redis_events hi es)"

definition no_redis :: "'reply redis_tables" where
  "no_redis = \<lparr>m_mapRedisAttr = [], m_mapRedisContext = [], m_mapContextIdentify = [], told = [], lib_calls = 0\<rparr>"

section \<open>The order of commands and answers\<close>

definition fifo :: "'reply redis_attr \<Rightarrow> bool" where
  "fifo ra \<longleftrightarrow> map fst (issued ra) = map fst (answered ra) @ listData ra"

definition fifo_ok :: "'reply rworld \<Rightarrow> bool" where
  "fifo_ok w \<longleftrightarrow> (\<forall>c ra. attr_of c w = Some ra \<longrightarrow> fifo ra)"

text \<open>What registrations may do to the connections: they add to the ends of the lists.\<close>

definition longer :: "'reply redis_attr \<Rightarrow> 'reply redis_attr \<Rightarrow> bool" where
  "longer ra rb \<longleftrightarrow> bIsReady rb = bIsReady ra \<and> answered rb = answered ra \<and>
     (\<exists>xs. issued rb = issued ra @ xs \<and> listData rb = listData ra @ map fst xs) \<and>
     (\<exists>ys. listWaitData rb = listWaitData ra @ ys)"

definition grows :: "'reply rworld \<Rightarrow> 'reply rworld \<Rightarrow> bool" where
  "grows w v \<longleftrightarrow> (\<forall>c. case attr_of c w of
       None \<Rightarrow> (case attr_of c v of None \<Rightarrow> True | Some rb \<Rightarrow> fifo rb)
     | Some ra \<Rightarrow> (case attr_of c v of None \<Rightarrow> False | Some rb \<Rightarrow> longer ra rb))"

lemma longer_refl [simp]: "longer ra ra" by (simp add: longer_def)

lemma longer_trans: "longer ra rb \<Longrightarrow> longer rb rc \<Longrightarrow> longer ra rc"
  by (auto simp: longer_def)

lemma longer_fifo: "fifo ra \<Longrightarrow> longer ra rb \<Longrightarrow> fifo rb"
  by (auto simp: longer_def fifo_def)

lemma grows_same: "(\<And>c. attr_of c v = attr_of c w) \<Longrightarrow> grows w v"
  by (auto simp: grows_def split: option.splits)

lemma redis_grows_trans:
  assumes "grows u v" "grows v w"
  shows "grows u w"
  unfolding grows_def
proof
  fix c
  show "case attr_of c u of None \<Rightarrow> (case attr_of c w of None \<Rightarrow> True | Some rb \<Rightarrow> fifo rb)
     | Some ra \<Rightarrow> (case attr_of c w of None \<Rightarrow> False | Some rb \<Rightarrow> longer ra rb)"
    using assms(1) [unfolded grows_def, rule_format, of c] assms(2) [unfolded grows_def, rule_format, of c]
    by (auto split: option.splits intro: longer_trans longer_fifo)
qed

lemma grows_fifo: "fifo_ok w \<Longrightarrow> grows w v \<Longrightarrow> fifo_ok v"
  unfolding fifo_ok_def
proof (intro allI impI)
  fix c ra assume w: "\<forall>c ra. attr_of c w = Some ra \<longrightarrow> fifo ra" and g: "grows w v" and ra: "attr_of c v = Some ra"
  show "fifo ra"
    using g [unfolded grows_def, rule_format, of c] ra w by (auto split: option.splits intro: longer_fifo)
qed

lemma growsD: "grows w v \<Longrightarrow> attr_of c w = Some ra \<Longrightarrow> \<exists>rb. attr_of c v = Some rb \<and> longer ra rb"
  unfolding grows_def by (drule spec [of _ c]) (auto split: option.splits)

lemma attr_simps [simp]:
  "attr_of c (put_step p s w) = attr_of c w" "attr_of c (w\<lparr>objects := m\<rparr>) = attr_of c w" "attr_of c (tell p st w) = attr_of c w"
  "attr_of c (put_attr d ra w) = (if c = d then Some ra else attr_of c w)"
  "attr_of c (w\<lparr>w_ulSequence := n\<rparr>) = attr_of c w"
  "attr_of c (upd_rest (\<lambda>r. r\<lparr>lib_calls := k\<rparr>) w) = attr_of c w"
  "attr_of c (upd_rest (\<lambda>r. r\<lparr>m_mapRedisContext := f r, m_mapContextIdentify := g r\<rparr>) w) = attr_of c w"
  by (simp_all add: attr_of_def put_step_def put_attr_def upd_rest_def tell_def map_find_put_any)

lemma issue_attr: "issue hi c p w = Some (v, sent) \<Longrightarrow> attr_of d v = attr_of d w"
  by (auto simp: issue_def bind_eq_Some_conv Let_def)

lemma grows_put:
  assumes "attr_of c w = Some ra" "longer ra rb" "\<And>d. attr_of d u = attr_of d w"
  shows "grows w (put_attr c rb u)"
  unfolding grows_def using assms by (auto split: option.splits)

lemma RegisterCallback_ctx_grows:
  assumes "RegisterCallback_ctx hi c q w = Some (v, b)"
  shows "grows w v"
proof (cases q)
  case (Some p)
  obtain s where s: "deref p w = Some s" using assms by (auto simp: RegisterCallback_ctx_def Some bind_eq_Some_conv)
  let ?u = "put_step p (s\<lparr>m_pLabor := True, m_bRegistered := True\<rparr>) w"
  show ?thesis
  proof (cases "m_bRegistered s \<or> attr_of c w = None")
    case True
    then have "v = w \<or> v = ?u" using assms s by (auto simp: RegisterCallback_ctx_def Some Let_def split: if_splits)
    then show ?thesis by (auto intro: grows_same)
  next
    case False
    then obtain ra where ra: "attr_of c w = Some ra" by auto
    show ?thesis
    proof (cases "bIsReady ra")
      case True
      then obtain u sent where u: "issue hi c p ?u = Some (u, sent)"
          "(case sent of None \<Rightarrow> Some (u, False)
            | Some argv \<Rightarrow> Some (put_attr c (ra\<lparr>listData := listData ra @ [p], issued := issued ra @ [(p, argv)]\<rparr>) u, True)) = Some (v, b)"
        using assms s ra False by (auto simp: RegisterCallback_ctx_def Some Let_def bind_eq_Some_conv)
      have same: "attr_of d u = attr_of d w" for d using issue_attr [OF u(1)] by simp
      show ?thesis
      proof (cases sent)
        case None
        then show ?thesis using u(2) same by (auto intro: grows_same)
      next
        case (Some argv)
        then show ?thesis using u(2) grows_put [OF ra _ same, of "ra\<lparr>listData := listData ra @ [p], issued := issued ra @ [(p, argv)]\<rparr>"]
          by (auto simp: longer_def)
      qed
    next
      case False
      then have "v = put_attr c (ra\<lparr>listWaitData := listWaitData ra @ [p]\<rparr>) ?u"
        using assms s ra \<open>\<not> (m_bRegistered s \<or> attr_of c w = None)\<close> by (simp add: RegisterCallback_ctx_def Some Let_def)
      then show ?thesis using grows_put [OF ra, of "ra\<lparr>listWaitData := listWaitData ra @ [p]\<rparr>" ?u] by (simp add: longer_def)
    qed
  qed
qed (use assms in \<open>simp add: RegisterCallback_ctx_def grows_same\<close>)

lemma attr_Add [simp]: "attr_of d (fst (AddRedisContextAddr host port c w)) = attr_of d w"
  by (simp add: AddRedisContextAddr_def Let_def)

lemma attr_insert:
  "attr_of d (upd_rest (\<lambda>r. r\<lparr>m_mapRedisAttr := map_insert c ra (m_mapRedisAttr r)\<rparr>) w) =
     (if d = c \<and> attr_of c w = None then Some ra else attr_of d w)"
  by (simp add: attr_of_def upd_rest_def map_insert_def map_find_put_any)

lemma grows_insert:
  "(\<And>d. attr_of d v = (if d = c \<and> attr_of c w = None then Some (new_attr n p) else attr_of d w)) \<Longrightarrow> grows w v"
  by (auto simp: grows_def fifo_def new_attr_def split: option.splits)

lemma AutoRedisCmd_grows:
  assumes "AutoRedisCmd hi host port q w = Some (v, b)"
  shows "grows w v"
proof -
  obtain c err where c: "redisAsyncConnect hi (lib_calls (rest w)) (c_str host) port = (c, err)" by fastforce
  have "(\<forall>d. attr_of d v = attr_of d w) \<or> (\<exists>n p. \<forall>d. attr_of d v = (if d = c \<and> attr_of c w = None then Some (new_attr n p) else attr_of d w))"
  proof (cases err)
    case True
    then show ?thesis using assms c by (auto simp: AutoRedisCmd_def)
  next
    case False
    obtain u n where u: "GetSequence_labor (upd_rest (\<lambda>r. r\<lparr>lib_calls := Suc (lib_calls (rest w))\<rparr>) w) = (u, n)" by fastforce
    then have same: "attr_of d u = attr_of d w" for d
      by (auto simp: GetSequence_labor_def Let_def)
    obtain p s where ps: "q = Some p" "deref p u = Some s"
      using assms c False u by (auto simp: AutoRedisCmd_def bind_eq_Some_conv Let_def)
    have "attr_of d v = (if d = c \<and> attr_of c w = None then Some (new_attr n p) else attr_of d w)" for d
      using assms c False u ps by (auto simp: AutoRedisCmd_def Let_def attr_insert same)
    then show ?thesis by blast
  qed
  then show ?thesis by (auto intro: grows_same grows_insert)
qed

lemma run_redis_op_grows: "run_redis_op hi x w = Some v \<Longrightarrow> grows w v"
  by (cases x)
    (auto simp: RegisterCallback_identify_def RegisterCallback_host_def Step_new_def Let_def
      split: option.splits if_splits
      intro: RegisterCallback_ctx_grows AutoRedisCmd_grows grows_same)

lemma run_redis_ops_grows: "run_redis_ops hi xs w = Some v \<Longrightarrow> grows w v"
proof (induction xs arbitrary: w)
  case (Cons x xs)
  then obtain u where "run_redis_op hi x w = Some u" "run_redis_ops hi xs u = Some v" by (auto simp: bind_eq_Some_conv)
  then show ?case using Cons.IH run_redis_op_grows redis_grows_trans by blast
qed (simp add: grows_same)

lemma fail_steps_invariant:
  assumes run: "fail_steps cb which c status i w = Some v"
    and cb: "\<And>p c status reply w v b. cb p c status reply w = Some (v, b) \<Longrightarrow> grows w v"
  shows "grows w v"
proof -
  have "(\<forall>p c status reply w v b. cb p c status reply w = Some (v, b) \<longrightarrow> grows w v) \<longrightarrow> grows w v"
  proof (rule fail_steps.raw_induct [OF _ run], intro impI)
    fix fs cb which c status i w v
    assume IH: "\<And>cb which c status i w v. fs cb which c status i w = Some v \<Longrightarrow>
        (\<forall>p c status reply w v b. cb p c status reply w = Some (v, b) \<longrightarrow> grows w v) \<longrightarrow> grows (w :: 'a rworld) v"
      and body: "Option.bind (attr_of c w) (\<lambda>ra.
       if i < length (which ra) then
         let p = which ra ! i in
         Option.bind (deref p w) (\<lambda>s.
           Option.bind (cb p c status None (tell p status w)) (\<lambda>(w, b).
             Option.bind (destroy [] p (objects w)) (\<lambda>m.
               fs cb which c status (Suc i) (w\<lparr>objects := m\<rparr>))))
       else Some w) = Some v"
      and cb: "\<forall>p c status reply w v b. cb p c status reply w = Some (v, b) \<longrightarrow> grows w v"
    obtain ra where ra: "attr_of c w = Some ra" using body by (auto simp: bind_eq_Some_conv)
    show "grows w v"
    proof (cases "i < length (which ra)")
      case True
      let ?p = "which ra ! i"
      obtain u b m where u: "cb ?p c status None (tell ?p status w) = Some (u, b)"
          "fs cb which c status (Suc i) (u\<lparr>objects := m\<rparr>) = Some v"
        using body ra True by (auto simp: bind_eq_Some_conv Let_def)
      have "grows (tell ?p status w) u" using cb u(1) by blast
      moreover have "grows w (tell ?p status w)" "grows u (u\<lparr>objects := m\<rparr>)" by (simp_all add: grows_same)
      moreover have "grows (u\<lparr>objects := m\<rparr>) v" using IH [OF u(2)] cb by blast
      ultimately show ?thesis using redis_grows_trans by blast
    qed (use body ra in \<open>simp add: grows_same\<close>)
  qed
  then show ?thesis using cb by blast
qed

lemma fifo_forget: "fifo_ok w \<Longrightarrow> fifo_ok (forget_ctx c w)"
  by (auto simp: fifo_ok_def forget_ctx_def attr_of_def upd_rest_def DelRedisContextAddr_def map_find_erase
      split: option.splits if_splits)

lemma fifo_put: "fifo_ok w \<Longrightarrow> fifo ra \<Longrightarrow> fifo_ok (put_attr c ra w)"
  by (auto simp: fifo_ok_def)

lemma send_waiting_fifo:
  "send_waiting hi c ps ra w = Some (v, rb) \<Longrightarrow> fifo ra \<Longrightarrow> fifo rb \<and> (\<forall>d. attr_of d v = attr_of d w)"
proof (induction ps arbitrary: ra w)
  case (Cons p ps)
  obtain u sent where u: "issue hi c p w = Some (u, sent)"
      "(case sent of None \<Rightarrow> Some (u, ra\<lparr>listWaitData := p # ps\<rparr>)
        | Some argv \<Rightarrow> send_waiting hi c ps (ra\<lparr>listData := listData ra @ [p], issued := issued ra @ [(p, argv)]\<rparr>) u) = Some (v, rb)"
    using Cons.prems(1) by (auto simp: bind_eq_Some_conv)
  have same: "attr_of d u = attr_of d w" for d using issue_attr [OF u(1)] .
  show ?case
  proof (cases sent)
    case None
    then show ?thesis using u(2) Cons.prems(2) same by (auto simp: fifo_def)
  next
    case (Some argv)
    let ?ra = "ra\<lparr>listData := listData ra @ [p], issued := issued ra @ [(p, argv)]\<rparr>"
    have "fifo ?ra" using Cons.prems(2) by (simp add: fifo_def)
    with u(2) have "fifo rb \<and> (\<forall>d. attr_of d v = attr_of d u)" by (intro Cons.IH [of ?ra]) (simp_all add: Some)
    then show ?thesis using same by simp
  qed
qed (auto simp: fifo_def)

text \<open>What the worker relies on in the code of its steps: they only add to the connections.\<close>

locale redis_steps =
  fixes cb :: "'reply callback"
  assumes grows: "cb p c status reply w = Some (v, b) \<Longrightarrow> grows w v"
begin

lemma fail_steps_grows: "fail_steps cb which c status i w = Some v \<Longrightarrow> grows w v"
  by (rule fail_steps_invariant) (auto intro: grows)

lemma lost_fifo: "fifo_ok w \<Longrightarrow> fail_steps cb which c status i w = Some v \<Longrightarrow> fifo_ok v"
  by (rule grows_fifo [OF _ fail_steps_grows])

lemma connect_fifo:
  assumes ok: "fifo_ok w" and v: "RedisConnect hi cb c status w = Some v"
  shows "fifo_ok v"
proof (cases "attr_of c w")
  case (Some ra)
  show ?thesis
  proof (cases "status = 0")
    case True
    let ?ra = "ra\<lparr>bIsReady := True\<rparr>"
    obtain u rb where u: "send_waiting hi c (listWaitData ?ra) ?ra w = Some (u, rb)" "v = put_attr c rb u"
      using v Some True by (auto simp: RedisConnect_def Let_def)
    have "fifo ?ra" using ok Some by (simp add: fifo_ok_def fifo_def)
    then have "fifo rb" "fifo_ok u" using send_waiting_fifo [OF u(1)] ok by (simp_all add: fifo_ok_def)
    then show ?thesis using fifo_put u(2) by blast
  next
    case False
    then show ?thesis using v Some by (auto simp: RedisConnect_def intro: fifo_forget lost_fifo [OF ok])
  qed
qed (use ok v in \<open>simp add: RedisConnect_def\<close>)

lemma reply_fifo:
  assumes ok: "fifo_ok w" and v: "RedisCmdResult cb c err reply w = Some v"
  shows "fifo_ok v"
proof (cases "attr_of c w = None \<or> reply = None")
  case True
  then show ?thesis using ok v by (auto simp: RedisCmdResult_def split: option.splits intro: fifo_forget lost_fifo [OF ok])
next
  case False
  then obtain ra x where ra: "attr_of c w = Some ra" "reply = Some x" by auto
  show ?thesis
  proof (cases "listData ra")
    case (Cons p ps)
    obtain u b m rb where u: "cb p c 0 (Some x) (tell p 0 w) = Some (u, b)" "attr_of c u = Some rb"
        "v = put_attr c (rb\<lparr>listData := tl (listData rb), answered := answered rb @ [(p, x)]\<rparr>) (u\<lparr>objects := m\<rparr>)"
      using v ra Cons by (auto simp: RedisCmdResult_def bind_eq_Some_conv)
    have "fifo_ok (tell p 0 w)" using ok by (simp add: fifo_ok_def)
    then have u_ok: "fifo_ok (u\<lparr>objects := m\<rparr>)" using grows_fifo [OF _ grows [OF u(1)]] by (simp add: fifo_ok_def)
    have "longer ra rb" using growsD [OF grows [OF u(1)], of c ra] ra(1) u(2) by simp
    then obtain zs where "listData rb = p # zs" using Cons by (auto simp: longer_def)
    moreover have "fifo rb" using u_ok u(2) by (simp add: fifo_ok_def)
    ultimately have "fifo (rb\<lparr>listData := tl (listData rb), answered := answered rb @ [(p, x)]\<rparr>)"
      by (simp add: fifo_def)
    then show ?thesis using fifo_put [OF u_ok] u(3) by blast
  qed (use ok v ra in \<open>simp add: RedisCmdResult_def\<close>)
qed

end

context redis_steps
begin

lemma disconnect_fifo:
  assumes ok: "fifo_ok w" and v: "RedisDisconnect cb c err w = Some v"
  shows "fifo_ok v"
proof (cases "attr_of c w")
  case (Some ra)
  obtain u rb z where u: "fail_steps cb listData c err 0 w = Some u" "attr_of c u = Some rb"
      "fail_steps cb listWaitData c err 0 (put_attr c (rb\<lparr>listData := []\<rparr>) u) = Some z" "v = forget_ctx c z"
    using v Some by (auto simp: RedisDisconnect_def bind_eq_Some_conv Let_def)
  have fu: "fifo_ok u" using lost_fifo [OF ok u(1)] .
  have "grows (put_attr c (rb\<lparr>listData := []\<rparr>) u) z" by (rule fail_steps_grows [OF u(3)])
  have "fifo ra" if "attr_of d v = Some ra" for d ra
  proof -
    have d: "d \<noteq> c" "attr_of d z = Some ra"
      using that u(4) by (auto simp: forget_ctx_def attr_of_def upd_rest_def DelRedisContextAddr_def map_find_erase
          split: option.splits if_splits)
    show ?thesis
      using \<open>grows (put_attr c (rb\<lparr>listData := []\<rparr>) u) z\<close> [unfolded grows_def, rule_format, of d] d fu
      by (auto simp: fifo_ok_def split: option.splits intro: longer_fifo)
  qed
  then show ?thesis by (simp add: fifo_ok_def)
qed (use ok v in \<open>simp add: RedisDisconnect_def\<close>)

end

text \<open>The scripts satisfy it.\<close>

interpretation redis_script: redis_steps "script_cb hi script" for hi script
  by unfold_locales (auto simp: script_cb_def intro: run_redis_ops_grows)

lemma run_redis_event_fifo: "fifo_ok w \<Longrightarrow> run_redis_event hi e w = Some v \<Longrightarrow> fifo_ok v"
  by (cases e)
    (auto intro: grows_fifo run_redis_op_grows redis_script.connect_fifo redis_script.disconnect_fifo redis_script.reply_fifo)

lemma run_redis_events_fifo: "fifo_ok w \<Longrightarrow> run_redis_events hi es w = Some v \<Longrightarrow> fifo_ok v"
proof (induction es arbitrary: w)
  case (Cons e es)
  then obtain u where "run_redis_event hi e w = Some u" "run_redis_events hi es u = Some v" by (auto simp: bind_eq_Some_conv)
  then show ?case using Cons.IH run_redis_event_fifo [OF Cons.prems(1)] by blast
qed simp


text \<open>A worker that reads two keys; the first answer makes it write one.\<close>

definition plain_redis :: hiredis where
  "plain_redis = \<lparr>redisAsyncConnect = \<lambda>n host port. (100 + n, False), redisAsyncCommandArgv = \<lambda>n c argv. True\<rparr>"

definition get_cmd :: "string \<Rightarrow> redis_cmd" where "get_cmd k = (''GET'', [(k, True)])"

definition two_reads :: "string redis_event list" where
  "two_reads =
     [RedisCall (RedisNew 1 (get_cmd ''a'')), RedisCall (RedisAt ''r'' 7 1),
      RedisConnected 100 0 (\<lambda>_. ([], False)),
      RedisCall (RedisNew 2 (get_cmd ''b'')), RedisCall (RedisAt ''r'' 7 2),
      RedisReply 100 0 (Some ''x'') (\<lambda>_. ([RedisNew 3 (get_cmd ''c''), RedisAt ''r'' 7 3], False)),
      RedisReply 100 0 (Some ''y'') (\<lambda>_. ([], False))]"

lemma redis_identify_r: "redis_identify ''r'' 7 = ''r:7''"
  by code_simp

lemmas redis_run_simps =
  step_run_simps no_redis_def upd_rest_def attr_of_def put_attr_def tell_def command_argv_def issue_def
  RegisterCallback_ctx_def RegisterCallback_host_def AutoRedisCmd_def AddRedisContextAddr_def new_attr_def map_insert_def
  RedisConnect_def RedisCmdResult_def script_cb_def redis_identify_r plain_redis_def get_cmd_def

lemma two_reads_run:
  "(case run_redis_events plain_redis two_reads (no_steps 3 no_redis) of
      None \<Rightarrow> None | Some w \<Rightarrow> map_option (\<lambda>ra. (answered ra, map fst (issued ra), listData ra)) (attr_of 100 w)) =
   Some ([(1, ''x''), (2, ''y'')], [1, 2, 3], [3])"
  by (simp add: two_reads_def redis_run_simps)


section \<open>What the steps of a connection are told\<close>

text \<open>Steps without next steps whose callbacks only take note.\<close>

definition quiet :: "'reply callback" where
  "quiet p c status reply w = Some (w, False)"

definition last_step :: "nat \<Rightarrow> 'r step_world \<Rightarrow> bool" where
  "last_step p w \<longleftrightarrow> (case deref p w of None \<Rightarrow> False | Some s \<Rightarrow> m_pNextStep s = None)"

lemma fail_steps_quiet:
  assumes "attr_of c w = Some ra" "i \<le> length (which ra)" "distinct (drop i (which ra))"
    "\<And>p. p \<in> set (drop i (which ra)) \<Longrightarrow> last_step p w"
  shows "\<exists>v. fail_steps quiet which c status i w = Some v \<and>
    rest v = (rest w)\<lparr>told := told (rest w) @ map (\<lambda>p. (p, status)) (drop i (which ra))\<rparr> \<and>
    (\<forall>q. deref q v = (if q \<in> set (drop i (which ra)) then None else deref q w))"
  using assms
proof (induction "length (which ra) - i" arbitrary: i w)
  case 0
  then show ?case by (intro exI [of _ w]) (simp add: fail_steps.simps [of _ _ _ _ _ w])
next
  case (Suc n)
  then have i: "i < length (which ra)" by simp
  let ?p = "which ra ! i"
  have split: "drop i (which ra) = ?p # drop (Suc i) (which ra)" using i by (simp add: Cons_nth_drop_Suc)
  obtain s where s: "deref ?p w = Some s" "m_pNextStep s = None"
    using Suc.prems(4) [of ?p] by (auto simp: split last_step_def split: option.splits)
  let ?u = "(tell ?p status w)\<lparr>objects := map_erase ?p (objects w)\<rparr>"
  have d: "destroy [] ?p (objects w) = Some (map_erase ?p (objects w))"
    by (rule destroy_last(1)) (use s in \<open>simp_all add: deref_def\<close>)
  have u: "deref q ?u = (if q = ?p then None else deref q w)" for q by (simp add: deref_def map_find_erase)
  have "\<exists>v. fail_steps quiet which c status (Suc i) ?u = Some v \<and>
    rest v = (rest ?u)\<lparr>told := told (rest ?u) @ map (\<lambda>p. (p, status)) (drop (Suc i) (which ra))\<rparr> \<and>
    (\<forall>q. deref q v = (if q \<in> set (drop (Suc i) (which ra)) then None else deref q ?u))"
  proof (rule Suc.hyps(1))
    show "last_step q ?u" if "q \<in> set (drop (Suc i) (which ra))" for q
    proof -
      have "q \<noteq> ?p" using Suc.prems(3) that by (auto simp: split)
      then show ?thesis using Suc.prems(4) [of q] that by (simp add: last_step_def deref_def map_find_erase split)
    qed
  qed (use Suc.hyps(2) Suc.prems(1,3) i split in simp_all)
  then obtain v where v: "fail_steps quiet which c status (Suc i) ?u = Some v"
      "rest v = (rest ?u)\<lparr>told := told (rest ?u) @ map (\<lambda>p. (p, status)) (drop (Suc i) (which ra))\<rparr>"
      "\<forall>q. deref q v = (if q \<in> set (drop (Suc i) (which ra)) then None else deref q ?u)" by blast
  have "fail_steps quiet which c status i w = Some v"
    using Suc.prems(1) i s(1) d v(1)
    by (simp add: fail_steps.simps [of _ _ _ _ i w] quiet_def Let_def tell_def upd_rest_def)
  moreover have "rest v = (rest w)\<lparr>told := told (rest w) @ map (\<lambda>p. (p, status)) (drop i (which ra))\<rparr>"
    using v(2) by (simp add: split tell_def upd_rest_def)
  ultimately show ?case using v(3) u by (intro exI [of _ v]) (simp add: split)
qed

lemma rest_forget: "told (rest (forget_ctx c w)) = told (rest w)" "deref q (forget_ctx c w) = deref q w"
  "attr_of c (forget_ctx c w) = None" "map_find c (m_mapContextIdentify (rest (forget_ctx c w))) = None"
  by (auto simp: forget_ctx_def DelRedisContextAddr_def upd_rest_def deref_def attr_of_def map_find_erase split: option.splits)


text \<open>An answer without a reply ends a connection, but only the steps whose commands were sent are told. A step that still
  waits to be sent stays in memory, is never called, and its connection is forgotten.
\<close>

theorem redis_null_reply_drops:
  assumes "attr_of c w = Some ra" "distinct (listData ra)" "\<forall>p \<in> set (listData ra). last_step p w"
    and wait: "p \<in> set (listWaitData ra)" "p \<notin> set (listData ra)"
  shows "\<exists>v. RedisCmdResult quiet c err None w = Some v \<and>
    told (rest v) = told (rest w) @ map (\<lambda>p. (p, err)) (listData ra) \<and>
    deref p v = deref p w \<and> attr_of c v = None"
proof -
  obtain u where u: "fail_steps quiet listData c err 0 w = Some u"
      "rest u = (rest w)\<lparr>told := told (rest w) @ map (\<lambda>p. (p, err)) (listData ra)\<rparr>"
      "\<forall>q. deref q u = (if q \<in> set (listData ra) then None else deref q w)"
    using fail_steps_quiet [OF assms(1), of 0 listData err] assms(2,3) by auto
  then show ?thesis using assms(1) wait
    by (intro exI [of _ "forget_ctx c u"]) (simp add: RedisCmdResult_def rest_forget)
qed

definition waiting_world :: "string rworld" where
  "waiting_world =
     (no_steps 3 (no_redis\<lparr>m_mapRedisAttr := [(100, (new_attr 1 2)\<lparr>bIsReady := True, listData := [1]\<rparr>)]\<rparr>))
       \<lparr>objects := [(1, first_step\<lparr>m_pNextStep := None\<rparr>), (2, second_step [])]\<rparr>"

lemma waiting_world_attr: "attr_of 100 waiting_world = Some ((new_attr 1 2)\<lparr>bIsReady := True, listData := [1]\<rparr>)"
  by (simp add: waiting_world_def attr_of_def no_steps_def no_redis_def)

lemma waiting_world_steps: "last_step 1 waiting_world" "last_step 2 waiting_world"
  by (simp_all add: waiting_world_def last_step_def deref_def second_step_def)


theorem redis_null_reply_drops_witness:
  "\<exists>v. RedisCmdResult quiet 100 3 None waiting_world = Some v \<and> told (rest v) = [(1, 3)] \<and> deref 2 v \<noteq> None"
  using redis_null_reply_drops [OF waiting_world_attr, of 2 3] waiting_world_steps
  by (auto simp: new_attr_def waiting_world_def no_steps_def no_redis_def deref_def)

text \<open>A step that goes on after its answer and registers again, as the framework asks it to, is reported as registered but
  its command is not sent and it waits in no list: it is still marked as registered from the first time.
\<close>

theorem redis_again_not_sent:
  assumes "attr_of c w = Some ra" "listData ra = p # ps" "deref p w = Some s" "m_bRegistered s"
    and "map_find (redis_identify host port) (m_mapRedisContext (rest w)) = Some c"
  shows "\<exists>v. run_redis_event hi (RedisReply c err (Some x) (\<lambda>_. ([RedisAt host port p], True))) w = Some v \<and>
    attr_of c v = Some (ra\<lparr>listData := ps, answered := answered ra @ [(p, x)]\<rparr>) \<and> deref p v = Some s"
proof -
  have told: "m_mapRedisContext (rest (tell p 0 w)) = m_mapRedisContext (rest w)" "deref p (tell p 0 w) = deref p w"
    by (simp_all add: tell_def upd_rest_def)
  have "script_cb hi (\<lambda>_. ([RedisAt host port p], True)) p c 0 (Some x) (tell p 0 w) = Some (tell p 0 w, True)"
    using assms(3-5) told by (simp add: script_cb_def RegisterCallback_host_def RegisterCallback_ctx_def)
  then show ?thesis
    using assms(1-4) told(2) by (simp add: RedisCmdResult_def) (simp add: put_attr_def upd_rest_def deref_def)
qed

theorem redis_again_not_sent_witness:
  "\<exists>v. run_redis_event plain_redis (RedisReply 100 0 (Some ''x'') (\<lambda>_. ([RedisAt ''r'' 7 1], True)))
      (upd_rest (\<lambda>r. r\<lparr>m_mapRedisContext := [(redis_identify ''r'' 7, 100)]\<rparr>) waiting_world) = Some v \<and>
    map_option listData (attr_of 100 v) = Some [] \<and> deref 1 v \<noteq> None"
proof -
  let ?w = "upd_rest (\<lambda>r. r\<lparr>m_mapRedisContext := [(redis_identify ''r'' 7, 100)]\<rparr>) waiting_world"
  have "\<exists>v. run_redis_event plain_redis (RedisReply 100 0 (Some ''x'') (\<lambda>_. ([RedisAt ''r'' 7 1], True))) ?w = Some v \<and>
    attr_of 100 v = Some (((new_attr 1 2)\<lparr>bIsReady := True, listData := [1]\<rparr>)\<lparr>listData := [],
      answered := answered ((new_attr 1 2)\<lparr>bIsReady := True, listData := [1]\<rparr>) @ [(1, ''x'')]\<rparr>) \<and>
    deref 1 v = Some (first_step\<lparr>m_pNextStep := None\<rparr>)"
    by (rule redis_again_not_sent)
      (simp_all add: waiting_world_def attr_of_def upd_rest_def no_steps_def no_redis_def deref_def first_step_def)
  then show ?thesis by auto
qed

end
