(* ===== verification/Proxy_Types.thy ===== *)
theory Proxy_Types
  imports Redis_Ring Starship_Codec
begin

text \<open>
  The messages of the storage protocol (\<open>Starship/proto/dataproxy.proto\<close>), the replies of a redis server, and
  the objects of the data proxy (\<open>DataProxy/src/CmdDataProxy\<close>): the steps that wait for a storage node or for
  the database agent, with the two functions \<open>Response\<close> of \<open>RedisStorageStep.cpp\<close> and
  \<open>DbStorageStep.cpp\<close>. What a step asks of the worker is a call with a truth value as the answer; the
  trace of the calls and answers is the history of the proxy. The generated code of the messages is a parameter.
\<close>

section \<open>Messages\<close>

text \<open>An optional field that is not set reads as the empty text or zero.\<close>

definition bytes_of :: "byte list option \<Rightarrow> byte list" where
  "bytes_of v = (case v of None \<Rightarrow> [] | Some s \<Rightarrow> s)"

definition int_of_field :: "int option \<Rightarrow> int" where
  "int_of_field v = (case v of None \<Rightarrow> 0 | Some i \<Rightarrow> i)"

record mem_field =
  col_name :: "byte list option"
  col_type :: "int option"
  col_value :: "byte list option"
  col_as :: "byte list option"

definition no_field :: mem_field where
  "no_field = \<lparr>col_name = None, col_type = None, col_value = None, col_as = None\<rparr>"

definition value_field :: "byte list \<Rightarrow> mem_field" where
  "value_field s = no_field\<lparr>col_value := Some s\<rparr>"

type_synonym mem_record = "mem_field list"

datatype operate_type = T_READ | T_WRITE

record redis_operate =
  key_name :: "byte list"
  redis_cmd_read :: "byte list"
  redis_cmd_write :: "byte list"
  op_type :: operate_type
  op_fields :: "mem_field list"
  key_ttl :: "int option"
  redis_structure :: "int option"
  data_purpose :: "int option"
  hash_key :: "byte list option"

datatype query_type = SELECT | INSERT | INSERT_IGNORE | UPDATE | REPLACE | DELETE

record db_condition =
  cond_relation :: int
  cond_col_type :: int
  cond_col_name :: "byte list"
  cond_col_values :: "byte list list"
  cond_col_name_right :: "byte list option"

record condition_group =
  group_relation :: int
  group_condition :: "db_condition list"

record db_operate =
  query_type :: query_type
  table_name :: "byte list"
  db_fields :: "mem_field list"
  conditions :: "condition_group list"
  groupby_col :: "byte list list"
  orderby_col :: "(int \<times> byte list) list"
  groups_relation :: "int option"
  row_limit :: "u32 option"
  limit_from :: "u32 option"
  mod_factor :: "u32 option"

record mem_operate =
  section_factor :: u32
  redis_part :: "redis_operate option"
  db_part :: "db_operate option"

text \<open>Reading an operation that is absent gives the default message.\<close>

definition no_redis :: redis_operate where
  "no_redis = \<lparr>key_name = [], redis_cmd_read = [], redis_cmd_write = [], op_type = T_READ, op_fields = [],
     key_ttl = None, redis_structure = None, data_purpose = None, hash_key = None\<rparr>"

definition no_db :: db_operate where
  "no_db = \<lparr>query_type = SELECT, table_name = [], db_fields = [], conditions = [], groupby_col = [],
     orderby_col = [], groups_relation = None, row_limit = None, limit_from = None, mod_factor = None\<rparr>"

definition redis_of :: "mem_operate \<Rightarrow> redis_operate" where
  "redis_of m = (case redis_part m of None \<Rightarrow> no_redis | Some r \<Rightarrow> r)"

definition db_of :: "mem_operate \<Rightarrow> db_operate" where
  "db_of m = (case db_part m of None \<Rightarrow> no_db | Some d \<Rightarrow> d)"

text \<open>The answer, without the optional place of the data (\<open>locate\<close>), which this command neither sets nor reads.\<close>

record mem_rsp =
  err_no :: int
  err_msg :: "byte list option"
  totalcount :: "int option"
  curcount :: "int option"
  record_data :: "mem_record list"
  rsp_from :: "int option"

definition FROM_REDIS :: int where "FROM_REDIS = 1"

definition error_rsp :: "int \<Rightarrow> byte list \<Rightarrow> mem_rsp" where
  "error_rsp n msg =
     \<lparr>err_no = n, err_msg = Some msg, totalcount = None, curcount = None, record_data = [], rsp_from = None\<rparr>"

text \<open>The answer every handler starts from: no error, and data that come from redis.\<close>

definition redis_rsp :: mem_rsp where
  "redis_rsp = (error_rsp 0 (ascii ''OK''))\<lparr>rsp_from := Some FROM_REDIS\<rparr>"

datatype proxy_error =
    ERR_OK | ERR_PARASE_PROTOBUF | ERR_NEW | ERR_DATA_TRANSFER | ERR_INCOMPLET_DATAPROXY_DATA | ERR_INVALID_REDIS_ROUTE
  | ERR_REDIS_NODE_NOT_FOUND | ERR_REGISTERCALLBACK_REDIS | ERR_REDIS_CMD | ERR_UNEXPECTED_REDIS_REPLY
  | ERR_RESULTSET_EXCEED | ERR_TIMEOUT | ERR_REDIS_AND_DB_CMD_NOT_MATCH | ERR_REDIS_NIL_AND_DB_FAILED
  | ERR_DB_FIELD_NUM | ERR_DB_FIELD_ORDER_OR_FIELD_NAME | ERR_KEY_FIELD | ERR_KEY_FIELD_VALUE | ERR_JOIN_FIELDS
  | ERR_LACK_JOIN_FIELDS | ERR_REDIS_STRUCTURE_NOT_DEFINE | ERR_INVALID_CMD_FOR_HASH_DATASET
  | ERR_DB_TABLE_NOT_DEFINE | ERR_TABLE_FIELD_NAME_EMPTY | ERR_UNDEFINE_REDIS_OPERATE
  | ERR_REDIS_READ_WRITE_CMD_NOT_MATCH

fun error_code :: "proxy_error \<Rightarrow> int" where
  "error_code ERR_OK = 0"
| "error_code ERR_PARASE_PROTOBUF = 10000"
| "error_code ERR_NEW = 10003"
| "error_code ERR_DATA_TRANSFER = 10007"
| "error_code ERR_INCOMPLET_DATAPROXY_DATA = 11001"
| "error_code ERR_INVALID_REDIS_ROUTE = 11002"
| "error_code ERR_REDIS_NODE_NOT_FOUND = 11003"
| "error_code ERR_REGISTERCALLBACK_REDIS = 11004"
| "error_code ERR_REDIS_CMD = 11005"
| "error_code ERR_UNEXPECTED_REDIS_REPLY = 11006"
| "error_code ERR_RESULTSET_EXCEED = 11007"
| "error_code ERR_TIMEOUT = 11009"
| "error_code ERR_REDIS_AND_DB_CMD_NOT_MATCH = 11010"
| "error_code ERR_REDIS_NIL_AND_DB_FAILED = 11011"
| "error_code ERR_DB_FIELD_NUM = 11016"
| "error_code ERR_DB_FIELD_ORDER_OR_FIELD_NAME = 11017"
| "error_code ERR_KEY_FIELD = 11018"
| "error_code ERR_KEY_FIELD_VALUE = 11019"
| "error_code ERR_JOIN_FIELDS = 11020"
| "error_code ERR_LACK_JOIN_FIELDS = 11021"
| "error_code ERR_REDIS_STRUCTURE_NOT_DEFINE = 11022"
| "error_code ERR_INVALID_CMD_FOR_HASH_DATASET = 11023"
| "error_code ERR_DB_TABLE_NOT_DEFINE = 11024"
| "error_code ERR_TABLE_FIELD_NAME_EMPTY = 11028"
| "error_code ERR_UNDEFINE_REDIS_OPERATE = 11029"
| "error_code ERR_REDIS_READ_WRITE_CMD_NOT_MATCH = 11030"

section \<open>Replies of a redis server\<close>

text \<open>\<open>redisReply\<close> of hiredis by its type; \<open>ROther\<close> is a type the code does not name.\<close>

datatype redis_reply =
    RString "byte list" | RArray "redis_reply list" | RInteger int | RNil | RStatus "byte list" | RError "byte list"
  | ROther int

fun reply_type :: "redis_reply \<Rightarrow> int" where
  "reply_type (RString s) = 1"
| "reply_type (RArray es) = 2"
| "reply_type (RInteger i) = 3"
| "reply_type RNil = 4"
| "reply_type (RStatus s) = 5"
| "reply_type (RError s) = 6"
| "reply_type (ROther t) = t"

text \<open>The length and the text of a reply; only texts have them.\<close>

fun reply_len :: "redis_reply \<Rightarrow> nat" where
  "reply_len (RString s) = length s"
| "reply_len (RStatus s) = length s"
| "reply_len (RError s) = length s"
| "reply_len r = 0"

fun reply_text :: "redis_reply \<Rightarrow> byte list" where
  "reply_text (RString s) = takeWhile (\<lambda>c. c \<noteq> 0) s"
| "reply_text (RStatus s) = takeWhile (\<lambda>c. c \<noteq> 0) s"
| "reply_text (RError s) = takeWhile (\<lambda>c. c \<noteq> 0) s"
| "reply_text r = ascii ''(null)''"

text \<open>An answer to a command: the status, the error of the connection, and the reply, if any.\<close>

record redis_answer =
  ans_status :: int
  ans_err :: int
  ans_errstr :: "byte list"
  ans_reply :: "redis_reply option"

text \<open>A message text in a buffer of \<open>n\<close> characters.\<close>

definition message :: "nat \<Rightarrow> byte list list \<Rightarrow> byte list" where
  "message n parts = take (n - 1) (concat parts)"

abbreviation lit :: "string \<Rightarrow> byte list" where
  "lit s \<equiv> ascii s"

definition decimal :: "int \<Rightarrow> byte list" where
  "decimal i = ascii (fmt_d i)"

section \<open>Steps\<close>

record storage_step =
  m_stMsgShell :: "int \<times> u32"
  m_oReqMsgHead :: msg_head
  m_pNodeSession :: "redis_ring option"
  m_strMasterNode :: string
  m_strSlaveNode :: string

record oper_step = storage_step +
  m_oMemOperate :: mem_operate
  m_strKeyField :: "byte list"

record relative_step = oper_step +
  m_iRelative :: int
  m_oJoinField :: "byte list list"

text \<open>\<open>StepWriteBackToRedis\<close> is a \<open>relative_step\<close>; a JSON array of names is the list of its texts.
  \<open>m_ulSequence\<close> is the number of a registered step.\<close>

record db_step = relative_step +
  m_oTableField :: "byte list list"
  m_bFieldFilter :: bool
  m_bNeedResponse :: bool
  m_ulSequence :: "u32 option"

record update_step = oper_step +
  m_oTableFields :: "byte list list"

record write_step = storage_step +
  m_oRedisOperate :: redis_operate
  m_pNextStep :: "db_step option"

record read_step = write_step +
  m_bIsDataSet :: bool
  m_iReadNum :: int
  m_iTableFieldNum :: nat

record ttl_step =
  m_strMasterNodeIdentify :: string
  m_strKey :: "byte list"
  m_iExpireSeconds :: int

datatype proxy_step =
    ReadStep read_step | WriteStep write_step | UpdateStep update_step | BackStep relative_step | TtlStep ttl_step
  | DbStep db_step

datatype cmd_status = STATUS_CMD_RUNNING | STATUS_CMD_COMPLETED | STATUS_CMD_FAULT

section \<open>What the steps ask of the worker\<close>

text \<open>A redis command and a request to the database agent carry the step that waits for the answer.\<close>

datatype call =
    SendTo "int \<times> u32" msg_head mem_rsp
  | SendBody "int \<times> u32" msg_head "byte list"
  | SendToNext string msg_head mem_operate proxy_step
  | RedisCommand string "byte list list" proxy_step
  | RegisterStep proxy_step
  | DeleteStep proxy_step

type_synonym trace = "(call \<times> bool) list"

text \<open>The worker answers a call according to what has happened so far and gives the numbers of steps. The
  generated code of the messages: serialising, parsing (with the object it leaves) and sizes.\<close>

record proxy_env =
  answer :: "trace \<Rightarrow> call \<Rightarrow> bool"
  sequence_of :: "trace \<Rightarrow> u32"
  record_bytes :: "mem_record \<Rightarrow> byte list"
  record_parse :: "byte list \<Rightarrow> bool \<times> mem_record"
  rsp_size :: "mem_rsp \<Rightarrow> int"
  rsp_parse :: "byte list \<Rightarrow> bool \<times> mem_rsp"
  rsp_body_size :: "mem_rsp \<Rightarrow> u32"
  raw_body_size :: "byte list \<Rightarrow> u32"
  oper_body_size :: "mem_operate \<Rightarrow> u32"
  oper_parse :: "byte list \<Rightarrow> bool \<times> mem_operate"

definition invoke :: "proxy_env \<Rightarrow> call \<Rightarrow> trace \<Rightarrow> trace \<times> bool" where
  "invoke e c tr = (tr @ [(c, answer e tr c)], answer e tr c)"

text \<open>The two functions \<open>Response\<close>: a whole answer, and an error number with its text.\<close>

definition Response :: "proxy_env \<Rightarrow> 'x storage_step_scheme \<Rightarrow> mem_rsp \<Rightarrow> trace \<Rightarrow> trace \<times> bool" where
  "Response e st rsp tr =
     (let head = (m_oReqMsgHead st)\<lparr>h_cmd := h_cmd (m_oReqMsgHead st) + 1, h_msgbody_len := rsp_body_size e rsp\<rparr>
      in invoke e (SendTo (m_stMsgShell st) head rsp) tr)"

definition Response_err :: "proxy_env \<Rightarrow> 'x storage_step_scheme \<Rightarrow> proxy_error \<Rightarrow> byte list \<Rightarrow> trace \<Rightarrow> trace \<times> bool" where
  "Response_err e st err msg tr = Response e st (error_rsp (error_code err) msg) tr"

text \<open>Answering with an error and giving up.\<close>

definition fail :: "proxy_env \<Rightarrow> 'x storage_step_scheme \<Rightarrow> proxy_error \<Rightarrow> byte list \<Rightarrow> trace \<Rightarrow> trace \<times> cmd_status" where
  "fail e st err msg tr = (fst (Response_err e st err msg tr), STATUS_CMD_FAULT)"

text \<open>The storage node of an operation: by the hash key if there is one, else by the key.\<close>

definition node_key :: "redis_operate \<Rightarrow> byte list" where
  "node_key r = (case hash_key r of Some k \<Rightarrow> k | None \<Rightarrow> key_name r)"

end
