(* ===== verification/Proxy_Back.thy ===== *)
theory Proxy_Back
  imports Proxy_Types
begin

text \<open>
  Writing rows of the database back to redis: \<open>StepWriteBackToRedis.cpp\<close>, and \<open>StepSetTtl.cpp\<close>, the step
  that gives a key its time to live. A builder of a command returns the arguments it appends after the key, or
  \<open>None\<close> where the code returns false.
\<close>

section \<open>Codes of the structures\<close>

definition REDIS_T_HASH :: int where "REDIS_T_HASH = 1"
definition REDIS_T_STRING :: int where "REDIS_T_STRING = 4"
definition REDIS_T_SORT_SET :: int where "REDIS_T_SORT_SET = 6"

definition RELATIVE_TABLE :: int where "RELATIVE_TABLE = 0"
definition RELATIVE_DATASET :: int where "RELATIVE_DATASET = 1"
definition RELATIVE_JOIN :: int where "RELATIVE_JOIN = 2"

definition is_hash :: "redis_operate \<Rightarrow> bool" where
  "is_hash r \<longleftrightarrow> int_of_field (redis_structure r) = REDIS_T_HASH"

section \<open>The node of a key\<close>

definition locate :: "redis_operate \<Rightarrow> redis_ring \<Rightarrow> 'x storage_step_scheme \<Rightarrow> (bool \<times> 'x storage_step_scheme) option" where
  "locate r ring st =
     map_option (\<lambda>(ok, master, slave). (ok, st\<lparr>m_strMasterNode := master, m_strSlaveNode := slave\<rparr>))
       (GetRedisNode (node_key r) ring)"

section \<open>Time to live\<close>

definition ttl_emit :: "proxy_env \<Rightarrow> ttl_step \<Rightarrow> trace \<Rightarrow> trace \<times> cmd_status" where
  "ttl_emit e st tr =
     (let (tr, ok) = invoke e (RedisCommand (m_strMasterNodeIdentify st)
                       [lit ''EXPIRE'', m_strKey st, decimal (m_iExpireSeconds st)] (TtlStep st)) tr
      in (tr, if ok then STATUS_CMD_RUNNING else STATUS_CMD_FAULT))"

definition ttl_callback :: "redis_answer \<Rightarrow> cmd_status" where
  "ttl_callback a =
     (if ans_status a \<noteq> 0 then STATUS_CMD_FAULT
      else case ans_reply a of
        None \<Rightarrow> STATUS_CMD_FAULT
      | Some r \<Rightarrow> if reply_type r = 6 then STATUS_CMD_FAULT else STATUS_CMD_COMPLETED)"

section \<open>Arguments from joined columns\<close>

text \<open>The column of the key and the columns to join, by the names of the request: the alias if there is one.\<close>

fun join_scan :: "byte list \<Rightarrow> byte list list \<Rightarrow> nat \<Rightarrow> mem_field list \<Rightarrow> nat option \<times> nat list \<Rightarrow> (nat option \<times> nat list) option" where
  "join_scan key names i [] acc = Some acc"
| "join_scan key names i (f # fs) (k, js) =
     (case (case col_as f of Some n \<Rightarrow> Some n | None \<Rightarrow> col_name f) of
        None \<Rightarrow> None
      | Some n \<Rightarrow> join_scan key names (Suc i) fs
          (if key \<noteq> [] \<and> key = n then Some i else k, if n \<in> set names then js @ [i] else js))"

text \<open>The values of one row. An empty value of the key or of a joined column ends the loop over the columns.\<close>

fun join_row :: "nat option \<Rightarrow> nat list \<Rightarrow> nat \<Rightarrow> mem_record \<Rightarrow> byte list \<times> (nat \<Rightarrow> byte list) \<Rightarrow> byte list \<times> (nat \<Rightarrow> byte list)" where
  "join_row k js col [] acc = acc"
| "join_row k js col (f # fs) (kv, vals) =
     (let v = bytes_of (col_value f) in
      if (k = Some col \<or> col \<in> set js) \<and> v = [] then ([], vals)
      else join_row k js (Suc col) fs (if k = Some col then v else kv, if col \<in> set js then vals(col := v) else vals))"

definition joined :: "(nat \<Rightarrow> byte list) \<Rightarrow> nat list \<Rightarrow> byte list" where
  "joined vals js = fold (\<lambda>i s. if s = [] then vals i else s @ lit '':'' @ vals i) js []"

definition join_args :: "nat option \<Rightarrow> nat list \<Rightarrow> mem_record \<Rightarrow> byte list list" where
  "join_args k js row =
     (let (kv, vals) = join_row k js 0 row ([], \<lambda>i. [])
      in if js = [] then [] else (if kv \<noteq> [] then [kv] else []) @ [joined vals js])"

definition MakeCmdWithJoin :: "'x relative_step_scheme \<Rightarrow> mem_rsp \<Rightarrow> byte list list option" where
  "MakeCmdWithJoin st rsp =
     (if record_data rsp = [] then None
      else case join_scan (m_strKeyField st) (m_oJoinField st) 0 (db_fields (db_of (m_oMemOperate st))) (None, []) of
        None \<Rightarrow> None
      | Some (k, js) \<Rightarrow>
          if m_strKeyField st \<noteq> [] \<and> k = None then None
          else Some (concat (map (join_args k js) (record_data rsp))))"

section \<open>Arguments from rows\<close>

text \<open>A row as a dataset: its values, an unset one as the empty text.\<close>

definition dataset_row :: "mem_record \<Rightarrow> mem_record" where
  "dataset_row row = map (\<lambda>f. value_field (bytes_of (col_value f))) row"

definition MakeCmdWithDataSet :: "proxy_env \<Rightarrow> mem_rsp \<Rightarrow> byte list list option" where
  "MakeCmdWithDataSet e rsp =
     (if record_data rsp = [] then None else Some (map (\<lambda>row. record_bytes e (dataset_row row)) (record_data rsp)))"

definition MakeCmdWithoutDataSet :: "mem_rsp \<Rightarrow> byte list list option" where
  "MakeCmdWithoutDataSet rsp =
     (if record_data rsp = [] then None
      else Some (concat (map (map (\<lambda>f. bytes_of (col_value f))) (record_data rsp))))"

definition is_key_column :: "byte list \<Rightarrow> mem_field \<Rightarrow> bool" where
  "is_key_column key f \<longleftrightarrow> key \<noteq> [] \<and> (case col_name f of None \<Rightarrow> False | Some n \<Rightarrow> key = n \<or> col_as f = Some key)"

fun first_index :: "('a \<Rightarrow> bool) \<Rightarrow> nat \<Rightarrow> 'a list \<Rightarrow> nat option" where
  "first_index P i [] = None"
| "first_index P i (x # xs) = (if P x then Some i else first_index P (Suc i) xs)"

text \<open>The rows of a hash under the values of their key column; an empty one refuses the whole command.\<close>

definition hash_name :: "nat \<Rightarrow> mem_record \<Rightarrow> byte list" where
  "hash_name k row = (if k < length row then bytes_of (col_value (row ! k)) else [])"

fun hash_rows :: "proxy_env \<Rightarrow> nat \<Rightarrow> mem_record list \<Rightarrow> byte list list option" where
  "hash_rows e k [] = Some []"
| "hash_rows e k (row # rows) =
     (if hash_name k row = [] then None
      else map_option (\<lambda>args. hash_name k row # record_bytes e (dataset_row row) # args) (hash_rows e k rows))"

definition MakeCmdForHashWithDataSet :: "proxy_env \<Rightarrow> 'x relative_step_scheme \<Rightarrow> mem_rsp \<Rightarrow> byte list list option" where
  "MakeCmdForHashWithDataSet e st rsp =
     (if record_data rsp = [] then None
      else case first_index (is_key_column (m_strKeyField st)) 0 (db_fields (db_of (m_oMemOperate st))) of
        None \<Rightarrow> None
      | Some k \<Rightarrow> hash_rows e k (record_data rsp))"

text \<open>The name under which a column is written: the alias of the answer, of the request, then the names.\<close>

definition column_name :: "mem_field \<Rightarrow> mem_field \<Rightarrow> byte list option" where
  "column_name got asked =
     (case col_as got of Some n \<Rightarrow> Some n
      | None \<Rightarrow> case col_as asked of Some n \<Rightarrow> Some n
      | None \<Rightarrow> case col_name got of Some n \<Rightarrow> Some n
      | None \<Rightarrow> col_name asked)"

fun named_values :: "mem_field list \<Rightarrow> mem_field list \<Rightarrow> byte list list option" where
  "named_values (g # gs) (a # as) =
     (case column_name g a of
        None \<Rightarrow> None
      | Some n \<Rightarrow> map_option (\<lambda>args. n # bytes_of (col_value g) # args) (named_values gs as))"
| "named_values gs as = Some []"

definition MakeCmdForHashWithoutDataSetWithoutField :: "'x oper_step_scheme \<Rightarrow> mem_rsp \<Rightarrow> byte list list option" where
  "MakeCmdForHashWithoutDataSetWithoutField st rsp =
     (let row = hd (record_data rsp); asked = db_fields (db_of (m_oMemOperate st))
      in if length asked \<noteq> length row then None else named_values row asked)"

definition MakeCmdForHashWithoutDataSetWithField :: "'x oper_step_scheme \<Rightarrow> mem_rsp \<Rightarrow> byte list list option" where
  "MakeCmdForHashWithoutDataSetWithField st rsp =
     (let row = hd (record_data rsp); asked = db_fields (db_of (m_oMemOperate st))
      in if length (op_fields (redis_of (m_oMemOperate st))) \<noteq> length row then None
         else if length asked \<noteq> length row then None
         else named_values row asked)"

definition MakeCmdForHashWithoutDataSet :: "'x relative_step_scheme \<Rightarrow> mem_rsp \<Rightarrow> byte list list option" where
  "MakeCmdForHashWithoutDataSet st rsp =
     (if record_data rsp = [] then None
      else if m_iRelative st = RELATIVE_TABLE \<and> 1 < length (record_data rsp) then None
      else if redis_cmd_read (redis_of (m_oMemOperate st)) \<in> {lit ''HGETALL'', lit ''HAVLS''}
      then MakeCmdForHashWithoutDataSetWithoutField st rsp
      else MakeCmdForHashWithoutDataSetWithField st rsp)"

section \<open>The step\<close>

definition back_args :: "proxy_env \<Rightarrow> 'x relative_step_scheme \<Rightarrow> mem_rsp \<Rightarrow> byte list list option" where
  "back_args e st rsp =
     (let h = is_hash (redis_of (m_oMemOperate st)) in
      if m_iRelative st = RELATIVE_JOIN then MakeCmdWithJoin st rsp
      else if m_iRelative st = RELATIVE_DATASET
      then (if h then MakeCmdForHashWithDataSet e st rsp else MakeCmdWithDataSet e rsp)
      else (if h then MakeCmdForHashWithoutDataSet st rsp else MakeCmdWithoutDataSet rsp))"

text \<open>\<open>None\<close> is undefined behaviour: a ring without nodes.\<close>

definition back_emit :: "proxy_env \<Rightarrow> relative_step \<Rightarrow> mem_rsp \<Rightarrow> trace \<Rightarrow> (trace \<times> cmd_status) option" where
  "back_emit e st rsp tr =
     (case m_pNodeSession st of
        None \<Rightarrow> Some (tr, STATUS_CMD_FAULT)
      | Some ring \<Rightarrow>
          let r = redis_of (m_oMemOperate st) in
          map_option (\<lambda>(ok, st).
            if \<not> ok then (tr, STATUS_CMD_FAULT)
            else case back_args e st rsp of
                None \<Rightarrow> (tr, STATUS_CMD_FAULT)
              | Some args \<Rightarrow>
                  let (tr, ok) = invoke e (RedisCommand (m_strMasterNode st)
                                   (redis_cmd_write r # key_name r # args) (BackStep st)) tr
                  in (tr, if ok then STATUS_CMD_RUNNING else STATUS_CMD_FAULT))
            (locate r ring st))"

text \<open>A written key lives as long as the request says, else three days.\<close>

definition back_callback :: "proxy_env \<Rightarrow> relative_step \<Rightarrow> redis_answer \<Rightarrow> trace \<Rightarrow> trace \<times> cmd_status" where
  "back_callback e st a tr =
     (if ans_status a \<noteq> 0 then (tr, STATUS_CMD_FAULT)
      else case ans_reply a of
        None \<Rightarrow> (tr, STATUS_CMD_FAULT)
      | Some rep \<Rightarrow>
          if reply_type rep = 6 then (tr, STATUS_CMD_FAULT)
          else
            let r = redis_of (m_oMemOperate st);
                ttl = (if int_of_field (key_ttl r) \<noteq> 0 then int_of_field (key_ttl r) else 259200)
            in (fst (ttl_emit e \<lparr>m_strMasterNodeIdentify = m_strMasterNode st, m_strKey = key_name r, m_iExpireSeconds = ttl\<rparr> tr),
                STATUS_CMD_COMPLETED))"

end
