(* ===== verification/Proxy_Db.thy ===== *)
theory Proxy_Db
  imports Proxy_Back
begin

text \<open>
  The step that asks the database agent (\<open>StepSendToDbAgent.cpp\<close>), and \<open>Step::NextStep\<close> of
  \<open>Starship/src/step/Step.cpp\<close> as the other steps of the proxy use it: the next step is always one of these.
\<close>

section \<open>The request\<close>

definition column_at :: "byte list list \<Rightarrow> nat \<Rightarrow> byte list" where
  "column_at names i = (if i < length names then names ! i else [])"

text \<open>A column that is not the one of the table, neither by its name nor by its alias.\<close>

definition other_column :: "byte list list \<Rightarrow> nat \<Rightarrow> mem_field \<Rightarrow> bool" where
  "other_column names i f \<longleftrightarrow>
     column_at names i \<noteq> bytes_of (col_name f) \<and> col_as f \<noteq> None \<and> column_at names i \<noteq> bytes_of (col_as f)"

definition name_field :: "byte list \<Rightarrow> mem_field" where
  "name_field s = no_field\<lparr>col_name := Some s\<rparr>"

text \<open>The request for all columns of the table, for a client that asked for some of them.\<close>

definition all_columns :: "byte list list \<Rightarrow> mem_operate \<Rightarrow> mem_operate" where
  "all_columns names m = m\<lparr>db_part := Some ((db_of m)\<lparr>db_fields := map name_field names\<rparr>)\<rparr>"

definition CMD_REQ_STORATE :: u32 where "CMD_REQ_STORATE = 505"

definition db_sequence :: "db_step \<Rightarrow> u32" where
  "db_sequence st = (case m_ulSequence st of None \<Rightarrow> 0 | Some n \<Rightarrow> n)"

definition db_emit :: "proxy_env \<Rightarrow> db_step \<Rightarrow> trace \<Rightarrow> db_step \<times> trace \<times> cmd_status" where
  "db_emit e st tr =
     (let m = m_oMemOperate st;
          select = (query_type (db_of m) = SELECT);
          st = (if \<not> select \<and> redis_part m \<noteq> None then st\<lparr>m_bNeedResponse := False\<rparr> else st);
          dataset = (m_iRelative st = RELATIVE_DATASET \<and> select);
          other = (\<exists>i < length (db_fields (db_of m)). other_column (m_oTableField st) i (db_fields (db_of m) ! i));
          st = (if dataset \<and> other then st\<lparr>m_bFieldFilter := True\<rparr> else st);
          out = (if dataset \<and> m_bFieldFilter st then all_columns (m_oTableField st) m else m);
          head = \<lparr>h_cmd = CMD_REQ_STORATE, h_msgbody_len = oper_body_size e out, h_seq = db_sequence st\<rparr>;
          agent = (if select then ''DBAGENT_R'' else ''DBAGENT_W'');
          (tr, ok) = invoke e (SendToNext agent head out (DbStep st)) tr
      in if ok then (st, tr, STATUS_CMD_RUNNING)
         else let (tr, s) = fail e st ERR_DATA_TRANSFER (lit (''SendToNext(\"'' @ agent @ ''\") error!'')) tr in (st, tr, s))"

section \<open>The answer\<close>

definition new_back :: "'x relative_step_scheme \<Rightarrow> relative_step" where
  "new_back st =
     \<lparr>m_stMsgShell = m_stMsgShell st, m_oReqMsgHead = m_oReqMsgHead st, m_pNodeSession = m_pNodeSession st,
      m_strMasterNode = '''', m_strSlaveNode = '''', m_oMemOperate = m_oMemOperate st, m_strKeyField = m_strKeyField st,
      m_iRelative = m_iRelative st, m_oJoinField = m_oJoinField st\<rparr>"

definition WriteBackToRedis :: "proxy_env \<Rightarrow> db_step \<Rightarrow> mem_rsp \<Rightarrow> trace \<Rightarrow> trace option" where
  "WriteBackToRedis e st rsp tr =
     (if redis_part (m_oMemOperate st) \<noteq> None \<and> op_type (redis_of (m_oMemOperate st)) = T_READ \<and> err_no rsp = 0
      then map_option fst (back_emit e (new_back st) rsp tr)
      else Some tr)"

text \<open>The columns the client asked for, by their places in the table, and the answer that has only these.\<close>

definition client_columns :: "byte list list \<Rightarrow> mem_field list \<Rightarrow> nat list" where
  "client_columns names fs =
     concat (map (\<lambda>f. case first_index (\<lambda>n. n = bytes_of (col_name f) \<or> n = bytes_of (col_as f)) 0 names of
                        None \<Rightarrow> [] | Some j \<Rightarrow> [j]) fs)"

fun pick :: "nat list \<Rightarrow> mem_record \<Rightarrow> mem_record option" where
  "pick [] row = Some []"
| "pick (j # js) row =
     (if j < length row then map_option (\<lambda>fs. value_field (bytes_of (col_value (row ! j))) # fs) (pick js row) else None)"

fun pick_rows :: "nat list \<Rightarrow> mem_record list \<Rightarrow> mem_record list option" where
  "pick_rows js [] = Some []"
| "pick_rows js (row # rows) =
     (case pick js row of None \<Rightarrow> None | Some r \<Rightarrow> map_option (\<lambda>rs. r # rs) (pick_rows js rows))"

definition client_rsp :: "db_step \<Rightarrow> mem_rsp \<Rightarrow> mem_rsp option" where
  "client_rsp st rsp =
     map_option (\<lambda>rows. (error_rsp (err_no rsp) (bytes_of (err_msg rsp)))\<lparr>record_data := rows\<rparr>)
       (pick_rows (client_columns (m_oTableField st) (db_fields (db_of (m_oMemOperate st)))) (record_data rsp))"

definition send_raw :: "proxy_env \<Rightarrow> 'x storage_step_scheme \<Rightarrow> byte list \<Rightarrow> trace \<Rightarrow> trace \<times> bool" where
  "send_raw e st body tr =
     (let head = (m_oReqMsgHead st)\<lparr>h_cmd := h_cmd (m_oReqMsgHead st) + 1, h_msgbody_len := raw_body_size e body\<rparr>
      in invoke e (SendBody (m_stMsgShell st) head body) tr)"

text \<open>\<open>None\<close> is undefined behaviour: a row of the answer lacks a column, or there is no storage node.\<close>

definition db_callback :: "proxy_env \<Rightarrow> db_step \<Rightarrow> byte list \<Rightarrow> trace \<Rightarrow> (trace \<times> cmd_status) option" where
  "db_callback e st body tr =
     (let (ok, rsp) = rsp_parse e body;
          status = (if int_of_field (totalcount rsp) = int_of_field (curcount rsp) then STATUS_CMD_COMPLETED else STATUS_CMD_RUNNING)
      in if \<not> ok then Some (if m_bNeedResponse st then fst (send_raw e st body tr) else tr, STATUS_CMD_FAULT)
         else case WriteBackToRedis e st rsp tr of
             None \<Rightarrow> None
           | Some tr \<Rightarrow>
               if \<not> m_bNeedResponse st then Some (tr, status)
               else if m_bFieldFilter st
               then map_option (\<lambda>out. let (tr, sent) = Response e st out tr in (tr, if sent then status else STATUS_CMD_FAULT))
                      (client_rsp st rsp)
               else let (tr, sent) = send_raw e st body tr in Some (tr, if sent then status else STATUS_CMD_FAULT))"

definition db_timeout :: "proxy_env \<Rightarrow> db_step \<Rightarrow> trace \<Rightarrow> trace \<times> cmd_status" where
  "db_timeout e st tr = fail e st ERR_TIMEOUT (lit ''read from db or write to db timeout!'') tr"

section \<open>The next step\<close>

text \<open>Registering takes up to \<open>n\<close> attempts and gives the step its number.\<close>

fun try_register :: "proxy_env \<Rightarrow> nat \<Rightarrow> db_step \<Rightarrow> trace \<Rightarrow> db_step \<times> trace" where
  "try_register e 0 st tr = (st, tr)"
| "try_register e (Suc n) st tr =
     (let (tr', ok) = invoke e (RegisterStep (DbStep st)) tr
      in if ok then (st\<lparr>m_ulSequence := Some (sequence_of e tr')\<rparr>, tr') else try_register e n st tr')"

definition NextStep :: "proxy_env \<Rightarrow> db_step \<Rightarrow> trace \<Rightarrow> trace \<times> bool" where
  "NextStep e st tr =
     (let (st, tr) = (if m_ulSequence st = None then try_register e 3 st tr else (st, tr))
      in if m_ulSequence st = None then (tr, False)
         else let (st, tr, s) = db_emit e st tr
              in (if s \<noteq> STATUS_CMD_RUNNING then fst (invoke e (DeleteStep (DbStep st)) tr) else tr, True))"

text \<open>What a handler does with an empty result: the next step if there is one.\<close>

definition or_next :: "proxy_env \<Rightarrow> 'x write_step_scheme \<Rightarrow> trace \<times> 'r \<Rightarrow> 'r \<Rightarrow> 'r \<Rightarrow> trace \<Rightarrow> trace \<times> 'r" where
  "or_next e st otherwise good bad tr =
     (case m_pNextStep st of
        None \<Rightarrow> otherwise
      | Some nx \<Rightarrow>
          let (tr, ok) = NextStep e nx tr
          in if ok then (tr, good)
             else (fst (Response_err e st ERR_REDIS_NIL_AND_DB_FAILED
                          (lit ''redis result set is nil and send to dbagent failed!'') tr), bad))"

end
