(* ===== verification/Proxy_Read.thy ===== *)
theory Proxy_Read
  imports Proxy_Db
begin

text \<open>
  Reading from redis: \<open>StepReadFromRedis.cpp\<close>. The reply becomes one answer to the client or, for a long
  array, several; an empty reply passes the request on to the database if there is a next step. The counts of an
  answer are below \<open>2 ^ 31\<close>.
\<close>

section \<open>The command\<close>

definition nonempty :: "byte list option \<Rightarrow> byte list list" where
  "nonempty v = (if bytes_of v = [] then [] else [bytes_of v])"

definition read_argv :: "redis_operate \<Rightarrow> byte list list" where
  "read_argv r = redis_cmd_read r # key_name r # concat (map (\<lambda>f. nonempty (col_name f) @ nonempty (col_value f)) (op_fields r))"

text \<open>The first command goes to the slave, a later one to the master. \<open>None\<close>: a ring without nodes.\<close>

definition read_emit :: "proxy_env \<Rightarrow> read_step \<Rightarrow> trace \<Rightarrow> (trace \<times> cmd_status) option" where
  "read_emit e st tr =
     (case m_pNodeSession st of
        None \<Rightarrow> Some (tr, STATUS_CMD_FAULT)
      | Some ring \<Rightarrow>
          map_option (\<lambda>(found, st).
            if \<not> found then fail e st ERR_REDIS_NODE_NOT_FOUND (lit ''redis node not found!'') tr
            else
              let node = (if m_iReadNum st = 0 then m_strSlaveNode st else m_strMasterNode st);
                  waiting = ReadStep (st\<lparr>m_iReadNum := m_iReadNum st + 1\<rparr>);
                  (tr, ok) = invoke e (RedisCommand node (read_argv (m_oRedisOperate st)) waiting) tr
              in if ok then (tr, STATUS_CMD_RUNNING)
                 else fail e st ERR_NEW (lit ''malloc space for loss::RedisCmd error!'')
                        (fst (Response_err e st ERR_REGISTERCALLBACK_REDIS (lit ''RegisterCallback(RedisStep) error!'') tr)))
            (if m_iReadNum st = 0 then locate (m_oRedisOperate st) ring st else Some (True, st)))"

section \<open>Arrays\<close>

definition max_size :: int where "max_size = 1000000"

definition add_row :: "mem_record \<Rightarrow> mem_rsp \<Rightarrow> mem_rsp" where
  "add_row row rsp = rsp\<lparr>record_data := record_data rsp @ [row]\<rparr>"

definition element_text :: "redis_reply \<Rightarrow> nat \<Rightarrow> redis_reply \<Rightarrow> byte list" where
  "element_text whole i x =
     message 256 [lit ''unexprected redis reply type '', decimal (reply_type whole), lit '' and element['', decimal (int i),
       lit ''] type '', decimal (reply_type x), lit '': '', reply_text x, lit ''!'']"

definition refuse :: "proxy_env \<Rightarrow> 'x storage_step_scheme \<Rightarrow> proxy_error \<Rightarrow> byte list \<Rightarrow> trace \<Rightarrow> trace \<times> bool" where
  "refuse e st err msg tr = (fst (Response_err e st err msg tr), False)"

text \<open>Before an element that does not fit, the rows so far are sent, with the count of this element.\<close>

definition make_room :: "proxy_env \<Rightarrow> 'x storage_step_scheme \<Rightarrow> nat \<Rightarrow> redis_reply \<Rightarrow> mem_rsp \<Rightarrow> int \<Rightarrow> trace \<Rightarrow>
    mem_rsp \<times> int \<times> trace \<times> bool" where
  "make_room e st i x rsp len tr =
     (if len + int (reply_len x) > max_size
      then let rsp = rsp\<lparr>curcount := Some (int i + 1)\<rparr>; (tr, ok) = Response e st rsp tr
           in (rsp\<lparr>record_data := []\<rparr>, 0, tr, ok)
      else (rsp, len, tr, True))"

text \<open>The rows of an array, one value each; \<open>whole\<close> is the reply and \<open>i\<close> the place in it.\<close>

fun array_loop :: "proxy_env \<Rightarrow> 'x write_step_scheme \<Rightarrow> redis_reply \<Rightarrow> nat \<Rightarrow> redis_reply list \<Rightarrow> mem_rsp \<Rightarrow> int \<Rightarrow> trace \<Rightarrow> trace \<times> bool" where
  "array_loop e st whole i [] rsp len tr = Response e st (rsp\<lparr>curcount := Some (int i)\<rparr>) tr"
| "array_loop e st whole i (x # xs) rsp len tr =
     (if int (reply_len x) > max_size then refuse e st ERR_RESULTSET_EXCEED (lit ''hgetall result set exceed 1 MB!'') tr
      else let (rsp, len, tr, ok) = make_room e st i x rsp len tr in
        if \<not> ok then (tr, False)
        else case x of
            RString s \<Rightarrow> array_loop e st whole (Suc i) xs (add_row [value_field s] rsp) (len + int (length s)) tr
          | RInteger v \<Rightarrow> array_loop e st whole (Suc i) xs (add_row [value_field (decimal v)] rsp) (len + 20) tr
          | RNil \<Rightarrow> or_next e st (array_loop e st whole (Suc i) xs (add_row [value_field []] rsp) len tr) True False tr
          | _ \<Rightarrow> refuse e st ERR_UNEXPECTED_REDIS_REPLY (element_text whole i x) tr)"

definition ReadReplyArrayWithoutDataSet :: "proxy_env \<Rightarrow> 'x write_step_scheme \<Rightarrow> redis_reply list \<Rightarrow> trace \<Rightarrow> trace \<times> bool" where
  "ReadReplyArrayWithoutDataSet e st xs tr =
     (let rsp = redis_rsp\<lparr>totalcount := Some (int (length xs))\<rparr>
      in array_loop e st (RArray xs) 0 xs rsp (rsp_size e rsp) tr)"

text \<open>A row of a dataset, or the reason why it is refused.\<close>

definition dataset_of :: "proxy_env \<Rightarrow> read_step \<Rightarrow> byte list \<Rightarrow> byte list + mem_record" where
  "dataset_of e st s =
     (let (ok, row) = record_parse e s in
      if \<not> ok then Inl (lit ''pRecord->ParseFromArray(pReply->element[i]->str, pReply->element[i]->len) failed!'')
      else if m_iTableFieldNum st > 0 \<and> m_iTableFieldNum st \<noteq> length row
      then Inl (lit ''the field of redis dataset record not match the db table field num!'')
      else Inr row)"

fun dataset_loop :: "proxy_env \<Rightarrow> read_step \<Rightarrow> redis_reply \<Rightarrow> nat \<Rightarrow> redis_reply list \<Rightarrow> mem_rsp \<Rightarrow> int \<Rightarrow> trace \<Rightarrow> trace \<times> bool" where
  "dataset_loop e st whole i [] rsp len tr = Response e st (rsp\<lparr>curcount := Some (int i)\<rparr>) tr"
| "dataset_loop e st whole i (x # xs) rsp len tr =
     (if int (reply_len x) > max_size then refuse e st ERR_RESULTSET_EXCEED (lit ''hgetall result set exceed 1 MB!'') tr
      else let (rsp, len, tr, ok) = make_room e st i x rsp len tr in
        if \<not> ok then (tr, False)
        else case x of
            RString s \<Rightarrow> (case dataset_of e st s of
                Inl why \<Rightarrow> or_next e st (refuse e st ERR_REDIS_NIL_AND_DB_FAILED why tr) True False tr
              | Inr row \<Rightarrow> dataset_loop e st whole (Suc i) xs (add_row row rsp) (len + int (length s)) tr)
          | RNil \<Rightarrow> or_next e st (dataset_loop e st whole (Suc i) xs (add_row [] rsp) len tr) True False tr
          | _ \<Rightarrow> refuse e st ERR_UNEXPECTED_REDIS_REPLY (element_text whole i x) tr)"

definition ReadReplyArrayWithDataSet :: "proxy_env \<Rightarrow> read_step \<Rightarrow> redis_reply list \<Rightarrow> trace \<Rightarrow> trace \<times> bool" where
  "ReadReplyArrayWithDataSet e st xs tr =
     (let rsp = redis_rsp\<lparr>totalcount := Some (int (length xs))\<rparr>
      in dataset_loop e st (RArray xs) 0 xs rsp (rsp_size e rsp) tr)"

definition ReadReplyArray :: "proxy_env \<Rightarrow> read_step \<Rightarrow> redis_reply list \<Rightarrow> trace \<Rightarrow> trace \<times> bool" where
  "ReadReplyArray e st xs tr =
     (if m_bIsDataSet st then ReadReplyArrayWithDataSet e st xs tr else ReadReplyArrayWithoutDataSet e st xs tr)"

section \<open>Hashes\<close>

text \<open>The values of a hash, as one row.\<close>

fun hash_loop :: "proxy_env \<Rightarrow> 'x write_step_scheme \<Rightarrow> redis_reply \<Rightarrow> nat \<Rightarrow> redis_reply list \<Rightarrow> mem_rsp \<Rightarrow> mem_record \<Rightarrow> int \<Rightarrow> trace \<Rightarrow> trace \<times> bool" where
  "hash_loop e st whole i [] rsp row len tr = Response e st (rsp\<lparr>record_data := [row], curcount := Some 1\<rparr>) tr"
| "hash_loop e st whole i (x # xs) rsp row len tr =
     (let go = (\<lambda>v n. if len + n > max_size then refuse e st ERR_RESULTSET_EXCEED (lit ''hash result set exceed 1 MB!'') tr
                       else hash_loop e st whole (Suc i) xs rsp (row @ [value_field v]) (len + n) tr)
      in case x of
           RString s \<Rightarrow> go s (int (length s))
         | RInteger v \<Rightarrow> go (decimal v) 20
         | RNil \<Rightarrow> or_next e st (go [] 0) True False tr
         | _ \<Rightarrow> refuse e st ERR_UNEXPECTED_REDIS_REPLY (element_text whole i x) tr)"

definition ReadReplyArrayForHashWithoutDataSet :: "proxy_env \<Rightarrow> 'x write_step_scheme \<Rightarrow> redis_reply list \<Rightarrow> trace \<Rightarrow> trace \<times> bool" where
  "ReadReplyArrayForHashWithoutDataSet e st xs tr =
     (let rsp = redis_rsp\<lparr>totalcount := Some 1\<rparr> in hash_loop e st (RArray xs) 0 xs rsp [] (rsp_size e rsp) tr)"

text \<open>Names and values in turn, as one row of named values. A missing value is looked for in the name.\<close>

fun pairs_loop :: "proxy_env \<Rightarrow> 'x write_step_scheme \<Rightarrow> redis_reply \<Rightarrow> nat \<Rightarrow> redis_reply list \<Rightarrow> mem_rsp \<Rightarrow> mem_record \<Rightarrow> int \<Rightarrow> trace \<Rightarrow> trace \<times> bool" where
  "pairs_loop e st whole i (x # y # xs) rsp row len tr =
     (let go = (\<lambda>f n. if len + n > max_size then refuse e st ERR_RESULTSET_EXCEED (lit ''hgetall result set exceed 1 MB!'') tr
                       else pairs_loop e st whole (i + 2) xs rsp (row @ [f]) (len + n) tr);
          second = (\<lambda>f n. case y of
               RString s \<Rightarrow> go (f\<lparr>col_value := Some s\<rparr>) (n + int (length s))
             | RInteger v \<Rightarrow> go (f\<lparr>col_value := Some (decimal v)\<rparr>) (n + 20)
             | _ \<Rightarrow> if x = RNil then or_next e st (go (f\<lparr>col_value := Some []\<rparr>) n) True False tr
                    else refuse e st ERR_UNEXPECTED_REDIS_REPLY (element_text whole (Suc i) y) tr)
      in case x of
           RString s \<Rightarrow> second (no_field\<lparr>col_name := Some s\<rparr>) (int (length s))
         | RNil \<Rightarrow> or_next e st (second no_field 0) True False tr
         | _ \<Rightarrow> refuse e st ERR_UNEXPECTED_REDIS_REPLY (element_text whole i x) tr)"
| "pairs_loop e st whole i _ rsp row len tr = Response e st (rsp\<lparr>record_data := [row], curcount := Some 1\<rparr>) tr"

definition odd_text :: "redis_reply list \<Rightarrow> byte list" where
  "odd_text xs =
     message 256 [lit ''unexprected redis reply type '', decimal 2, lit '' elements num '', decimal (int (length xs)),
       lit '' not a even number for hgetall!'']"

text \<open>An odd number of elements is answered with an error, and the handler returns the status, which reads as true.\<close>

definition ReadReplyArrayForHgetallWithoutDataSet :: "proxy_env \<Rightarrow> 'x write_step_scheme \<Rightarrow> redis_reply list \<Rightarrow> trace \<Rightarrow> trace \<times> bool" where
  "ReadReplyArrayForHgetallWithoutDataSet e st xs tr =
     (if length xs mod 2 \<noteq> 0 then (fst (Response_err e st ERR_UNEXPECTED_REDIS_REPLY (odd_text xs) tr), True)
      else let rsp = redis_rsp\<lparr>totalcount := Some 1\<rparr> in pairs_loop e st (RArray xs) 0 xs rsp [] (rsp_size e redis_rsp) tr)"

text \<open>The names as one row and the value parsed last as another. Sending the rows removes them from the answer,
  and what is added to them later is lost (\<open>kept\<close>).\<close>

fun hgetall_loop :: "proxy_env \<Rightarrow> read_step \<Rightarrow> redis_reply \<Rightarrow> nat \<Rightarrow> redis_reply list \<Rightarrow> mem_rsp \<Rightarrow> bool \<Rightarrow> mem_record \<Rightarrow> mem_record \<Rightarrow> int \<Rightarrow> trace \<Rightarrow> trace \<times> bool" where
  "hgetall_loop e st whole i (x # y # xs) rsp kept names values len tr =
     (if int (reply_len x) > max_size then refuse e st ERR_RESULTSET_EXCEED (lit ''hgetall result set exceed 1 MB!'') tr
      else let full = (len + int (reply_len x) > max_size);
          rsp = rsp\<lparr>record_data := if kept then [names, values] else []\<rparr>;
          (rsp, len, tr, ok) = make_room e st i x rsp len tr;
          kept = (kept \<and> \<not> full);
          (names, values) = (if full then ([], []) else (names, values)) in
        if \<not> ok then (tr, False)
        else case x of
            RString s \<Rightarrow>
              let names = names @ [no_field\<lparr>col_name := Some s, col_value := Some s\<rparr>]; len = len + 2 * int (length s)
              in (case y of
                    RString v \<Rightarrow> hgetall_loop e st whole (i + 2) xs rsp kept names (snd (record_parse e v)) (len + int (length v)) tr
                  | _ \<Rightarrow> refuse e st ERR_UNEXPECTED_REDIS_REPLY (element_text whole (Suc i) y) tr)
          | _ \<Rightarrow> refuse e st ERR_UNEXPECTED_REDIS_REPLY (element_text whole i x) tr)"
| "hgetall_loop e st whole i _ rsp kept names values len tr =
     Response e st (rsp\<lparr>record_data := if kept then [names, values] else [], curcount := Some (int i)\<rparr>) tr"

definition ReadReplyArrayForHgetallWithDataSet :: "proxy_env \<Rightarrow> read_step \<Rightarrow> redis_reply list \<Rightarrow> trace \<Rightarrow> trace \<times> bool" where
  "ReadReplyArrayForHgetallWithDataSet e st xs tr =
     (if length xs mod 2 \<noteq> 0 then (fst (Response_err e st ERR_UNEXPECTED_REDIS_REPLY (odd_text xs) tr), True)
      else hgetall_loop e st (RArray xs) 0 xs (redis_rsp\<lparr>totalcount := Some (int (length xs))\<rparr>) True [] [] (rsp_size e redis_rsp) tr)"

definition ReadReplyHash :: "proxy_env \<Rightarrow> read_step \<Rightarrow> redis_reply list \<Rightarrow> trace \<Rightarrow> trace \<times> bool" where
  "ReadReplyHash e st xs tr =
     (if redis_cmd_read (m_oRedisOperate st) = lit ''HGETALL''
      then if m_bIsDataSet st then ReadReplyArrayForHgetallWithDataSet e st xs tr
           else ReadReplyArrayForHgetallWithoutDataSet e st xs tr
      else if m_bIsDataSet st then ReadReplyArrayWithDataSet e st xs tr
           else ReadReplyArrayForHashWithoutDataSet e st xs tr)"

section \<open>The answer of redis\<close>

definition done_if :: "trace \<times> bool \<Rightarrow> trace \<times> cmd_status" where
  "done_if r = (fst r, if snd r then STATUS_CMD_COMPLETED else STATUS_CMD_FAULT)"

definition node_text :: "string \<Rightarrow> byte list list \<Rightarrow> byte list" where
  "node_text node parts = message 256 (lit ''redis '' # ascii (c_str node) # parts)"

definition status_text :: "string \<Rightarrow> int \<Rightarrow> byte list" where
  "status_text node status = node_text node [lit '' cmd status '', decimal status, lit ''!'']"

definition error_text :: "string \<Rightarrow> int \<Rightarrow> byte list \<Rightarrow> byte list" where
  "error_text node n s = node_text node [lit '' error '', decimal n, lit '': '', s, lit ''!'']"

definition unexpected_text :: "redis_reply \<Rightarrow> byte list" where
  "unexpected_text x =
     message 256 [lit ''unexprected redis reply type '', decimal (reply_type x), lit '': '', reply_text x, lit ''!'']"

definition read_reply :: "proxy_env \<Rightarrow> read_step \<Rightarrow> redis_reply \<Rightarrow> trace \<Rightarrow> trace \<times> cmd_status" where
  "read_reply e st x tr =
     (let nothing = or_next e st (fst (Response_err e st ERR_OK (lit ''OK'') tr), STATUS_CMD_COMPLETED)
                      STATUS_CMD_COMPLETED STATUS_CMD_FAULT tr;
          row = (\<lambda>r. done_if (Response e st (add_row r redis_rsp) tr))
      in case x of
           RError s \<Rightarrow> fail e st ERR_REDIS_CMD (error_text (m_strSlaveNode st) 6 (reply_text x)) tr
         | RNil \<Rightarrow> nothing
         | RString s \<Rightarrow>
             if m_bIsDataSet st
             then (case dataset_of e st s of
                     Inl why \<Rightarrow> or_next e st (fail e st ERR_REDIS_NIL_AND_DB_FAILED why tr) STATUS_CMD_COMPLETED STATUS_CMD_FAULT tr
                   | Inr r \<Rightarrow> row r)
             else row [value_field s]
         | RInteger v \<Rightarrow> row [value_field (decimal v)]
         | RArray xs \<Rightarrow>
             if xs = [] then nothing
             else done_if (if is_hash (m_oRedisOperate st) then ReadReplyHash e st xs tr else ReadReplyArray e st xs tr)
         | _ \<Rightarrow> fail e st ERR_UNEXPECTED_REDIS_REPLY (unexpected_text x) tr)"

definition read_callback :: "proxy_env \<Rightarrow> read_step \<Rightarrow> redis_answer \<Rightarrow> trace \<Rightarrow> (trace \<times> cmd_status) option" where
  "read_callback e st a tr =
     (if ans_status a \<noteq> 0
      then if m_iReadNum st = 0 then read_emit e st tr
           else Some (fail e st ERR_REDIS_CMD (status_text (m_strMasterNode st) (ans_status a)) tr)
      else case ans_reply a of
        None \<Rightarrow>
          if m_iReadNum st = 0 then read_emit e st tr
          else Some (fail e st ERR_REDIS_CMD (error_text (m_strMasterNode st) (ans_err a) (ans_errstr a)) tr)
      | Some x \<Rightarrow> Some (read_reply e st x tr))"

end
