(* ===== verification/Proxy_Write.thy ===== *)
theory Proxy_Write
  imports Proxy_Read
begin

text \<open>
  Writing to redis (\<open>StepWriteToRedis.cpp\<close>) and changing a row that redis holds
  (\<open>StepReadFromRedisForWrite.cpp\<close>): the row is read, the columns of the request are replaced in it, and the
  changed row is written to redis and then sent to the database.
\<close>

section \<open>Writing\<close>

definition given :: "byte list option \<Rightarrow> byte list list" where
  "given v = (case v of None \<Rightarrow> [] | Some s \<Rightarrow> [s])"

definition write_argv :: "redis_operate \<Rightarrow> byte list list" where
  "write_argv r = redis_cmd_write r # key_name r # concat (map (\<lambda>f. nonempty (col_name f) @ given (col_value f)) (op_fields r))"

definition write_emit :: "proxy_env \<Rightarrow> write_step \<Rightarrow> trace \<Rightarrow> (trace \<times> cmd_status) option" where
  "write_emit e st tr =
     (case m_pNodeSession st of
        None \<Rightarrow> Some (tr, STATUS_CMD_FAULT)
      | Some ring \<Rightarrow>
          map_option (\<lambda>(found, st).
            if \<not> found then fail e st ERR_REDIS_NODE_NOT_FOUND (lit ''redis node not found!'') tr
            else
              let (tr, ok) = invoke e (RedisCommand (m_strMasterNode st) (write_argv (m_oRedisOperate st)) (WriteStep st)) tr
              in if ok then (tr, STATUS_CMD_RUNNING)
                 else fail e st ERR_REGISTERCALLBACK_REDIS (lit ''RegisterCallback(RedisStep) error!'') tr)
            (locate (m_oRedisOperate st) ring st))"

text \<open>The answer made of a reply that is not an array, and whether a status means success.\<close>

definition upper_byte :: "byte \<Rightarrow> byte" where
  "upper_byte c = (if 97 \<le> c \<and> c \<le> 122 then c - 32 else c)"

definition status_ok :: "byte list \<Rightarrow> bool" where
  "status_ok s \<longleftrightarrow> map upper_byte (takeWhile (\<lambda>c. c \<noteq> 0) s) = lit ''OK''"

definition write_rsp :: "redis_reply \<Rightarrow> mem_rsp" where
  "write_rsp x =
     (case x of
        RStatus s \<Rightarrow> if status_ok s then redis_rsp else redis_rsp\<lparr>err_no := 5, err_msg := Some s\<rparr>
      | RString s \<Rightarrow> add_row [value_field s] redis_rsp
      | RInteger v \<Rightarrow> add_row [value_field (decimal v)] redis_rsp
      | _ \<Rightarrow> redis_rsp)"

text \<open>The readers of arrays are those of \<open>StepReadFromRedis\<close> without a next step.\<close>

definition write_array :: "proxy_env \<Rightarrow> write_step \<Rightarrow> redis_reply list \<Rightarrow> trace \<Rightarrow> trace" where
  "write_array e st xs tr =
     (let tr = (if xs = [] then fst (Response_err e st ERR_OK (lit ''OK'') tr) else tr);
          alone = st\<lparr>m_pNextStep := None\<rparr>
      in fst (if is_hash (m_oRedisOperate st) then ReadReplyArrayForHashWithoutDataSet e alone xs tr
              else ReadReplyArrayWithoutDataSet e alone xs tr))"

definition write_ttl :: "proxy_env \<Rightarrow> write_step \<Rightarrow> trace \<Rightarrow> trace" where
  "write_ttl e st tr =
     (let ttl = int_of_field (key_ttl (m_oRedisOperate st)) in
      if ttl \<noteq> 0
      then fst (ttl_emit e \<lparr>m_strMasterNodeIdentify = m_strMasterNode st, m_strKey = key_name (m_oRedisOperate st),
                            m_iExpireSeconds = ttl\<rparr> tr)
      else tr)"

text \<open>The client is answered before the database is asked.\<close>

definition write_reply :: "proxy_env \<Rightarrow> write_step \<Rightarrow> redis_reply \<Rightarrow> trace \<Rightarrow> trace \<times> cmd_status" where
  "write_reply e st x tr =
     (case x of
        RError s \<Rightarrow> fail e st ERR_REDIS_CMD (error_text (m_strMasterNode st) 6 (reply_text x)) tr
      | _ \<Rightarrow>
          let tr = (case x of RArray xs \<Rightarrow> write_array e st xs tr | _ \<Rightarrow> tr);
              tr = fst (Response e st (write_rsp x) tr);
              tr = (case m_pNextStep st of None \<Rightarrow> tr | Some nx \<Rightarrow> fst (NextStep e nx tr))
          in (write_ttl e st tr, STATUS_CMD_COMPLETED))"

definition write_callback :: "proxy_env \<Rightarrow> write_step \<Rightarrow> redis_answer \<Rightarrow> trace \<Rightarrow> trace \<times> cmd_status" where
  "write_callback e st a tr =
     (if ans_status a \<noteq> 0
      then fail e st ERR_REDIS_CMD (status_text (m_strMasterNode st) (ans_status a)) tr
      else case ans_reply a of
        None \<Rightarrow> fail e st ERR_REDIS_CMD (error_text (m_strMasterNode st) (ans_err a) (ans_errstr a)) tr
      | Some x \<Rightarrow> write_reply e st x tr)"

section \<open>Changing a row\<close>

definition update_emit :: "proxy_env \<Rightarrow> update_step \<Rightarrow> trace \<Rightarrow> (trace \<times> cmd_status) option" where
  "update_emit e st tr =
     (case m_pNodeSession st of
        None \<Rightarrow> Some (tr, STATUS_CMD_FAULT)
      | Some ring \<Rightarrow>
          let r = redis_of (m_oMemOperate st) in
          map_option (\<lambda>(found, st).
            if \<not> found then fail e st ERR_REDIS_NODE_NOT_FOUND (lit ''redis node not found!'') tr
            else
              let (tr, ok) = invoke e (RedisCommand (m_strMasterNode st) (read_argv r) (UpdateStep st)) tr
              in if ok then (tr, STATUS_CMD_RUNNING)
                 else fail e st ERR_NEW (lit ''malloc space for loss::RedisCmd error!'')
                        (fst (Response_err e st ERR_REGISTERCALLBACK_REDIS (lit ''RegisterCallback(RedisStep) error!'') tr)))
            (locate r ring st))"

text \<open>A row that is shorter than the table is filled up; then every column named in the request, by its name or
  its alias, gets the value of the request. A later field of the request overwrites an earlier one.\<close>

definition pad_row :: "nat \<Rightarrow> mem_record \<Rightarrow> mem_record" where
  "pad_row n row = row @ replicate (n - length row) (value_field [])"

definition set_column :: "byte list list \<Rightarrow> mem_field \<Rightarrow> nat \<Rightarrow> mem_record \<Rightarrow> mem_record" where
  "set_column names f k row =
     (if bytes_of (col_name f) = names ! k \<or> bytes_of (col_as f) = names ! k
      then row[k := (row ! k)\<lparr>col_value := Some (bytes_of (col_value f))\<rparr>] else row)"

definition set_columns :: "byte list list \<Rightarrow> mem_field list \<Rightarrow> mem_record \<Rightarrow> mem_record" where
  "set_columns names fs row = fold (\<lambda>f row. fold (set_column names f) [0..<length names] row) fs row"

definition update_row :: "byte list list \<Rightarrow> mem_field list \<Rightarrow> mem_record \<Rightarrow> mem_record" where
  "update_row names fs row = set_columns names fs (pad_row (length names) row)"

text \<open>The row becomes the value of the first redis field, which is added when there is none.\<close>

definition with_value :: "byte list \<Rightarrow> mem_operate \<Rightarrow> mem_operate" where
  "with_value s m =
     (let r = redis_of m;
          fs = (case op_fields r of [] \<Rightarrow> [value_field s] | f # fs \<Rightarrow> f\<lparr>col_value := Some s\<rparr> # fs)
      in m\<lparr>redis_part := Some (r\<lparr>op_fields := fs\<rparr>)\<rparr>)"

definition new_db :: "'x storage_step_scheme \<Rightarrow> mem_operate \<Rightarrow> int \<Rightarrow> byte list list \<Rightarrow> byte list \<Rightarrow> byte list list \<Rightarrow> db_step" where
  "new_db st m rel table key join =
     \<lparr>m_stMsgShell = m_stMsgShell st, m_oReqMsgHead = m_oReqMsgHead st, m_pNodeSession = m_pNodeSession st,
      m_strMasterNode = '''', m_strSlaveNode = '''', m_oMemOperate = m, m_strKeyField = key, m_iRelative = rel,
      m_oJoinField = join, m_oTableField = table, m_bFieldFilter = False, m_bNeedResponse = True, m_ulSequence = None\<rparr>"

definition new_write :: "'x storage_step_scheme \<Rightarrow> redis_operate \<Rightarrow> db_step option \<Rightarrow> write_step" where
  "new_write st r nx =
     \<lparr>m_stMsgShell = m_stMsgShell st, m_oReqMsgHead = m_oReqMsgHead st, m_pNodeSession = m_pNodeSession st,
      m_strMasterNode = '''', m_strSlaveNode = '''', m_oRedisOperate = r, m_pNextStep = nx\<rparr>"

definition ExecUpdate :: "proxy_env \<Rightarrow> update_step \<Rightarrow> mem_operate \<Rightarrow> bool \<Rightarrow> trace \<Rightarrow> (trace \<times> cmd_status) option" where
  "ExecUpdate e st m db_only tr =
     (if db_only then
        let db = new_db st (m\<lparr>redis_part := None\<rparr>) RELATIVE_DATASET (m_oTableFields st) (m_strKeyField st) [];
            (db, tr) = try_register e 1 db tr
        in if m_ulSequence db = None
           then Some (fail e st ERR_NEW (lit ''RegisterCallback(pStepSendToDbAgent)!'') tr)
           else let (db, tr, s) = db_emit e db tr
                in Some (if s = STATUS_CMD_RUNNING then tr else fst (invoke e (DeleteStep (DbStep db)) tr), STATUS_CMD_COMPLETED)
      else
        let db = new_db st m RELATIVE_DATASET (m_oTableFields st) (m_strKeyField st) [];
            w = new_write st (redis_of m) (Some db)
        in map_option (\<lambda>(tr, s). (tr, if s = STATUS_CMD_RUNNING then STATUS_CMD_COMPLETED else STATUS_CMD_FAULT)) (write_emit e w tr))"

definition update_reply :: "proxy_env \<Rightarrow> update_step \<Rightarrow> redis_reply \<Rightarrow> trace \<Rightarrow> (trace \<times> cmd_status) option" where
  "update_reply e st x tr =
     (let m = m_oMemOperate st in
      case x of
        RError s \<Rightarrow> Some (fail e st ERR_REDIS_CMD (error_text (m_strSlaveNode st) 6 (reply_text x)) tr)
      | RNil \<Rightarrow> ExecUpdate e st m True tr
      | RString s \<Rightarrow>
          let (ok, row) = record_parse e s in
          if \<not> ok
          then Some (fail e st ERR_UNEXPECTED_REDIS_REPLY
                       (message 256 [lit ''failed to parse redis dataset record \"'', reply_text x, lit ''\"'']) tr)
          else if row = []
          then Some (fail e st ERR_UNEXPECTED_REDIS_REPLY (lit ''can not update empty redis dataset record'') tr)
          else
            let row = update_row (m_oTableFields st) (db_fields (db_of m)) row
            in ExecUpdate e st (with_value (record_bytes e row) m) False tr
      | _ \<Rightarrow> Some (fail e st ERR_UNEXPECTED_REDIS_REPLY
                   (message 256 [lit ''unexprected redis reply type '', decimal (reply_type x), lit '' for update redis dataset!'']) tr))"

definition update_callback :: "proxy_env \<Rightarrow> update_step \<Rightarrow> redis_answer \<Rightarrow> trace \<Rightarrow> (trace \<times> cmd_status) option" where
  "update_callback e st a tr =
     (if ans_status a \<noteq> 0
      then Some (fail e st ERR_REDIS_CMD (status_text (m_strMasterNode st) (ans_status a)) tr)
      else case ans_reply a of
        None \<Rightarrow> Some (fail e st ERR_REDIS_CMD (error_text (m_strMasterNode st) (ans_err a) (ans_errstr a)) tr)
      | Some x \<Rightarrow> update_reply e st x tr)"

end
