(* ===== verification/Proxy_Conf.thy ===== *)
theory Proxy_Conf
  imports Proxy_Write CJsonObject_Laws StdSet
begin

text \<open>
  The state of the data proxy (\<open>CmdDataProxy\<close>), the reading of its two configuration files, and the choice of
  the ring of storage nodes for a request (\<open>ReadDataProxyConf\<close>, \<open>ReadTableRelation\<close>, \<open>GetNodeSession\<close> in
  \<open>DataProxy/src/CmdDataProxy/CmdDataProxy.cpp\<close>). The contents of a file are \<open>None\<close> when it cannot be opened. The
  sessions of the rings are a map of the worker under their names. \<open>None\<close> as a result is undefined behaviour.
\<close>

section \<open>State\<close>

record 'd proxy =
  m_oJsonTableRelative :: "'d jobj"
  m_mapFactorSection :: "(string, u32 stdset) stdmap"
  m_mapTableFields :: "(byte list, byte list stdset) stdmap"
  m_mapNodeSession :: "(string, redis_ring) stdmap"
  m_pRedisNodeSession :: "redis_ring option"

definition text_string :: "byte list \<Rightarrow> string" where
  "text_string s = map (\<lambda>b. char_of (unat b)) s"

text \<open>The texts of a JSON array; an array of a member, and the text of a member, by their names.\<close>

definition texts :: "'d jobj \<Rightarrow> byte list list" where
  "texts ob = map (\<lambda>i. call_index ob (of_nat i)) [0..<Jobj_GetArraySize ob]"

definition sub :: "'d jobj \<Rightarrow> string \<Rightarrow> 'd jobj" where
  "sub ob k = at_key ob (lit k)"

definition fmt_u :: "u32 \<Rightarrow> string" where
  "fmt_u w = dec (unat w)"

section \<open>Reading the configuration\<close>

definition section_name :: "u32 \<Rightarrow> u32 \<Rightarrow> string" where
  "section_name dt f = snprintf 64 (fmt_u dt @ '':'' @ fmt_u f)"

definition session_name :: "u32 \<Rightarrow> u32 \<Rightarrow> u32 \<Rightarrow> string" where
  "session_name dt f s = snprintf 64 (fmt_u dt @ '':'' @ fmt_u f @ '':'' @ fmt_u s)"

text \<open>One node of a section: its session is made when it is not there.\<close>

definition add_node :: "(byte list \<Rightarrow> byte list) \<Rightarrow> 'd jobj \<Rightarrow> int \<Rightarrow> int \<Rightarrow> string \<Rightarrow> byte list \<Rightarrow> (string, redis_ring) stdmap \<Rightarrow>
    (string, redis_ring) stdmap" where
  "add_node md5 groups alg virtual sid node ss =
     (let ring = (case map_find sid ss of Some r \<Rightarrow> r | None \<Rightarrow> new_ring alg virtual);
          group = at_key groups node
      in map_put sid
           (case (Get_key_string group (lit ''master''), Get_key_string group (lit ''slave'')) of
              (Some m, Some s) \<Rightarrow> AddRedisNode md5 (text_string node) (text_string m) (text_string s) ring
            | _ \<Rightarrow> ring) ss)"

text \<open>One section of a data type and a factor.\<close>

definition add_section :: "(byte list \<Rightarrow> byte list) \<Rightarrow> 'd jobj \<Rightarrow> byte list \<times> u32 \<Rightarrow> byte list \<times> u32 \<Rightarrow> int \<Rightarrow>
    u32 stdset \<times> (string, redis_ring) stdmap \<Rightarrow> u32 stdset \<times> (string, redis_ring) stdmap" where
  "add_section md5 conf dt sf k acc =
     (let alg = (case Get_key_int32 conf (lit ''hash_algorithm'') of Some a \<Rightarrow> a | None \<Rightarrow> 0);
          virtual = (case Get_key_int32 conf (lit ''virtual_node_num'') of Some n \<Rightarrow> n | None \<Rightarrow> 200)
      in case Get_index_uint32 (at_key (sub conf ''factor_section'') (fst sf)) k of
           None \<Rightarrow> acc
         | Some s \<Rightarrow>
             let key = snprintf 32 (''LE_'' @ fmt_u s);
                 nodes = sub (at_key (at_key (sub conf ''cluster'') (fst dt)) (fst sf)) key
             in (set_put s (fst acc),
                 if Jobj_IsArray nodes
                 then fold (add_node md5 (sub conf ''redis_group'') alg virtual (session_name (snd dt) (snd sf) s)) (texts nodes) (snd acc)
                 else snd acc))"

definition add_factor :: "(byte list \<Rightarrow> byte list) \<Rightarrow> 'd jobj \<Rightarrow> byte list \<times> u32 \<Rightarrow> byte list \<Rightarrow> 'd proxy \<Rightarrow> 'd proxy" where
  "add_factor md5 conf dt sf p =
     (case Get_key_uint32 (sub conf ''section_factor_enum'') sf of
        None \<Rightarrow> p
      | Some f \<Rightarrow>
          let sections = at_key (sub conf ''factor_section'') sf in
          if \<not> Jobj_IsArray sections then p
          else
            let (set, ss) = fold (\<lambda>k. add_section md5 conf dt (sf, f) (int k)) [0..<Jobj_GetArraySize sections] ([], m_mapNodeSession p)
            in p\<lparr>m_mapFactorSection := map_insert (section_name (snd dt) f) set (m_mapFactorSection p), m_mapNodeSession := ss\<rparr>)"

definition add_type :: "(byte list \<Rightarrow> byte list) \<Rightarrow> 'd jobj \<Rightarrow> byte list \<Rightarrow> 'd proxy \<Rightarrow> 'd proxy" where
  "add_type md5 conf dt p =
     (case Get_key_uint32 (sub conf ''data_type_enum'') dt of
        None \<Rightarrow> p
      | Some t \<Rightarrow> fold (add_factor md5 conf (dt, t)) (texts (sub conf ''section_factor'')) p)"

definition ReadDataProxyConf :: "'d fpu \<Rightarrow> u32 \<times> u32 \<Rightarrow> (byte list \<Rightarrow> byte list) \<Rightarrow> byte list option \<Rightarrow> 'd proxy \<Rightarrow> ('d proxy \<times> bool) option" where
  "ReadDataProxyConf fp junk md5 file p =
     (case file of
        None \<Rightarrow> Some (p, False)
      | Some content \<Rightarrow>
          (case Jobj_Parse fp junk content of
             Done (conf, ok) \<Rightarrow>
               if \<not> ok \<or> Jobj_IsEmpty (sub conf ''cluster'') \<or> Jobj_IsEmpty (sub conf ''redis_group'') then Some (p, False)
               else Some (fold (add_type md5 conf) (texts (sub conf ''data_type'')) p, True)
           | _ \<Rightarrow> None))"

definition ReadTableRelation :: "'d fpu \<Rightarrow> u32 \<times> u32 \<Rightarrow> byte list option \<Rightarrow> 'd proxy \<Rightarrow> ('d proxy \<times> bool) option" where
  "ReadTableRelation fp junk file p =
     (case file of
        None \<Rightarrow> Some (p, False)
      | Some content \<Rightarrow>
          (case Jobj_Parse fp junk content of
             Done (conf, ok) \<Rightarrow> Some (p\<lparr>m_oJsonTableRelative := conf\<rparr>, ok)
           | _ \<Rightarrow> None))"

definition proxy_init :: "'d fpu \<Rightarrow> u32 \<times> u32 \<Rightarrow> (byte list \<Rightarrow> byte list) \<Rightarrow> byte list option \<Rightarrow> byte list option \<Rightarrow> 'd proxy \<Rightarrow> ('d proxy \<times> bool) option" where
  "proxy_init fp junk md5 conf tables p =
     (case ReadDataProxyConf fp junk md5 conf p of
        None \<Rightarrow> None
      | Some (p, ok) \<Rightarrow> if ok then ReadTableRelation fp junk tables p else Some (p, False))"

section \<open>The ring of a request\<close>

text \<open>The first section that does not end before the factor. The result does not say whether the session is there.\<close>

definition lower_section :: "u32 \<Rightarrow> u32 stdset \<Rightarrow> u32 option" where
  "lower_section f s = find (\<lambda>b. f \<le> b) s"

definition GetNodeSession :: "int \<Rightarrow> int \<Rightarrow> u32 \<Rightarrow> 'd proxy \<Rightarrow> 'd proxy \<times> bool" where
  "GetNodeSession dt sf factor p =
     (case map_find (snprintf 32 (fmt_d dt @ '':'' @ fmt_d sf)) (m_mapFactorSection p) of
        None \<Rightarrow> (p, False)
      | Some sections \<Rightarrow>
          (case lower_section factor sections of
             None \<Rightarrow> (p, False)
           | Some b \<Rightarrow>
               let sid = snprintf 32 (fmt_u (of_int dt) @ '':'' @ fmt_u (of_int sf) @ '':'' @ fmt_u b)
               in (p\<lparr>m_pRedisNodeSession := map_find sid (m_mapNodeSession p)\<rparr>, True)))"

end
