(* ===== verification/Proxy_Check.thy ===== *)
theory Proxy_Check
  imports Proxy_Conf
begin

text \<open>
  What the data proxy checks and prepares before it acts on a request (\<open>Preprocess\<close>, \<open>CheckRequest\<close> and its
  parts in \<open>CmdDataProxy.cpp\<close>). A check answers the client and is false when it refuses; the check is a value of
  type \<open>verdict\<close>: the refusal with its error and text, or the result. The client is answered where the refusal
  is turned into a trace (\<open>Proxy_Cmd\<close>).
\<close>

section \<open>The configuration of a request\<close>

type_synonym 'a verdict = "proxy_error \<times> byte list + 'a"

definition purpose :: "redis_operate \<Rightarrow> byte list" where
  "purpose r = decimal (int_of_field (data_purpose r))"

definition struct_of :: "'d proxy \<Rightarrow> redis_operate \<Rightarrow> 'd jobj" where
  "struct_of p r = at_key (sub (m_oJsonTableRelative p) ''redis_struct'') (purpose r)"

definition table_of :: "'d proxy \<Rightarrow> byte list \<Rightarrow> 'd jobj" where
  "table_of p name = at_key (sub (m_oJsonTableRelative p) ''tables'') name"

definition columns :: "'d proxy \<Rightarrow> byte list \<Rightarrow> byte list list" where
  "columns p name = texts (sub (table_of p name) ''cols'')"

definition key_field :: "'d proxy \<Rightarrow> redis_operate \<Rightarrow> byte list" where
  "key_field p r = call_key (struct_of p r) (lit ''key_field'')"

definition join_fields :: "'d proxy \<Rightarrow> redis_operate \<Rightarrow> byte list list" where
  "join_fields p r = texts (sub (struct_of p r) ''join_fields'')"

definition related :: "'d proxy \<Rightarrow> redis_operate \<Rightarrow> string \<Rightarrow> bool" where
  "related p r how \<longleftrightarrow> call_key (sub (m_oJsonTableRelative p) ''relative'') (lit how) = call_key (struct_of p r) (lit ''relative'')"

definition gc_iErrBuffSize :: nat where "gc_iErrBuffSize = 256"

definition refusal :: "proxy_error \<Rightarrow> byte list list \<Rightarrow> 'a verdict" where
  "refusal err parts = Inl (err, message gc_iErrBuffSize parts)"

section \<open>Preprocessing\<close>

text \<open>The two commands pass through a buffer of 64 characters without a check of their length.\<close>

definition upper_cmd :: "byte list \<Rightarrow> byte list option" where
  "upper_cmd s = (if length s < 64 then Some (c_bytes (map upper_byte s)) else None)"

definition Preprocess :: "'d proxy \<Rightarrow> mem_operate \<Rightarrow> mem_operate option" where
  "Preprocess p m =
     (case redis_part m of
        None \<Rightarrow> Some m
      | Some r \<Rightarrow>
          (case (upper_cmd (redis_cmd_read r), upper_cmd (redis_cmd_write r)) of
             (Some rd, Some wr) \<Rightarrow>
               let r = r\<lparr>redis_cmd_read := rd, redis_cmd_write := wr\<rparr>;
                   r = (case Get_key_int32 (struct_of p r) (lit ''ttl'') of None \<Rightarrow> r | Some t \<Rightarrow> r\<lparr>key_ttl := Some t\<rparr>);
                   m = m\<lparr>redis_part := Some r\<rparr>
               in Some (if call_key (sub (m_oJsonTableRelative p) ''section_factor_enum'') (lit ''string'')
                             = call_key (struct_of p r) (lit ''section_factor'')
                        then m\<lparr>section_factor := CalcKeyHash (Some (node_key r))\<rparr> else m)
           | _ \<Rightarrow> None))"

section \<open>Checks of the parts\<close>

text \<open>A reading and a writing command that do not belong together.\<close>

definition mismatched :: "redis_operate \<Rightarrow> bool" where
  "mismatched r \<longleftrightarrow>
     (let rd = redis_cmd_read r; wr = redis_cmd_write r in
      rd \<noteq> [] \<and> wr \<noteq> [] \<and>
      (if is_hash r
       then rd \<in> {lit ''HVALS'', lit ''HMGET'', lit ''HGETALL''} \<and> wr \<noteq> lit ''HMSET'' \<or> rd = lit ''HGET'' \<and> wr \<noteq> lit ''HSET''
       else int_of_field (redis_structure r) = REDIS_T_STRING \<and> rd = lit ''GET'' \<and> wr \<noteq> lit ''SET''))"

definition flush_cmd :: "byte list \<Rightarrow> bool" where
  "flush_cmd c \<longleftrightarrow> c = lit ''FLUSHALL'' \<or> c = lit ''FLUSHDB''"

definition CheckRedisOperate :: "'d fpu \<Rightarrow> u32 \<times> u32 \<Rightarrow> 'd proxy \<Rightarrow> redis_operate \<Rightarrow> unit verdict option" where
  "CheckRedisOperate fp junk p r =
     (if flush_cmd (redis_cmd_write r) \<or> flush_cmd (redis_cmd_read r)
      then Some (Inl (ERR_REDIS_CMD, lit ''cmd flush was forbidden!''))
      else case Get_key_json fp junk (sub (m_oJsonTableRelative p) ''redis_struct'') (purpose r) of
          Done None \<Rightarrow> Some (refusal ERR_REDIS_STRUCTURE_NOT_DEFINE
                             [lit ''the redis structure \"'', purpose r, lit ''\" was not define!''])
        | Done (Some ob) \<Rightarrow>
            Some (if mismatched r
                  then refusal ERR_REDIS_READ_WRITE_CMD_NOT_MATCH
                         [lit ''the redis read cmd \"'', redis_cmd_read r, lit ''\" matching \"HMSET\" not \"'', redis_cmd_write r, lit ''\"!'']
                  else Inr ())
        | _ \<Rightarrow> None)"

text \<open>The set of columns of a table is read from the configuration once.\<close>

definition table_fields :: "'d proxy \<Rightarrow> byte list \<Rightarrow> 'd proxy \<times> byte list stdset" where
  "table_fields p name =
     (case map_find name (m_mapTableFields p) of
        Some s \<Rightarrow> (p, s)
      | None \<Rightarrow>
          let s = fold set_put (columns p name) []
          in (p\<lparr>m_mapTableFields := map_insert name s (m_mapTableFields p)\<rparr>, s))"

fun check_columns :: "byte list \<Rightarrow> byte list stdset \<Rightarrow> mem_field list \<Rightarrow> unit verdict" where
  "check_columns name s [] = Inr ()"
| "check_columns name s (f # fs) =
     (if col_name f = None
      then refusal ERR_TABLE_FIELD_NAME_EMPTY [lit ''the db table \"'', c_bytes name, lit ''\" field name can not be empty!'']
      else if bytes_of (col_name f) \<notin> set s \<and> col_as f \<noteq> None \<and> bytes_of (col_as f) \<notin> set s
      then refusal ERR_DB_FIELD_ORDER_OR_FIELD_NAME
             [lit ''the query table \"'', c_bytes name, lit ''\" field name \"'', c_bytes (bytes_of (col_name f)),
              lit ''\" is not match the table dict!'']
      else check_columns name s fs)"

definition CheckDbOperate :: "'d proxy \<Rightarrow> db_operate \<Rightarrow> 'd proxy \<times> unit verdict" where
  "CheckDbOperate p d =
     (if columns p (table_name d) = []
      then (p, refusal ERR_DB_TABLE_NOT_DEFINE [lit ''the db table \"'', c_bytes (table_name d), lit ''\" was not define!''])
      else let (p, s) = table_fields p (table_name d) in (p, check_columns (table_name d) s (db_fields d)))"

section \<open>The request\<close>

definition routes :: "'d jobj \<Rightarrow> (int \<times> int) option" where
  "routes ob =
     (case (Get_key_int32 ob (lit ''data_type''), Get_key_int32 ob (lit ''section_factor'')) of
        (Some dt, Some sf) \<Rightarrow> Some (dt, sf)
      | _ \<Rightarrow> None)"

definition no_config :: "string \<Rightarrow> byte list \<Rightarrow> 'a verdict" where
  "no_config part name =
     refusal ERR_INVALID_REDIS_ROUTE
       [lit (''no \"data_type\" or \"section_factor\" config in m_oJsonTableRelative[\"'' @ part @ ''\"][\"''), name, lit ''\"]'']"

text \<open>The ring for the structure of the request.\<close>

definition find_ring :: "u32 \<Rightarrow> redis_operate \<Rightarrow> 'd proxy \<Rightarrow> 'd proxy \<times> unit verdict" where
  "find_ring factor r p =
     (case routes (struct_of p r) of
        None \<Rightarrow> (p, no_config ''redis_struct'' (purpose r))
      | Some (dt, sf) \<Rightarrow>
          let (p, ok) = GetNodeSession dt sf factor p
          in (p, if ok then Inr ()
                 else refusal ERR_INVALID_REDIS_ROUTE
                        [lit ''no route for data_type '', decimal dt, lit '' section_factor_type '', decimal sf,
                         lit '' factor '', lit (fmt_u factor)]))"

text \<open>Redis and the database have to be read or written together, and to be divided in the same way.\<close>

definition check_pair :: "'d proxy \<Rightarrow> redis_operate \<Rightarrow> db_operate \<Rightarrow> unit verdict" where
  "check_pair p r d =
     (if (op_type r = T_WRITE \<longleftrightarrow> query_type d = SELECT)
      then Inl (ERR_REDIS_AND_DB_CMD_NOT_MATCH, lit ''redis_operate.op_type() and db_operate.query_type() was not match!'')
      else Inr ())"

definition check_division :: "'d proxy \<Rightarrow> redis_operate \<Rightarrow> db_operate \<Rightarrow> unit verdict" where
  "check_division p r d =
     (case Get_key_string (struct_of p r) (lit ''table'') of
        None \<Rightarrow> Inr ()
      | Some t \<Rightarrow>
          if call_key (struct_of p r) (lit ''data_type'') \<noteq> call_key (table_of p t) (lit ''data_type'')
             \<or> call_key (struct_of p r) (lit ''section_factor'') \<noteq> call_key (table_of p t) (lit ''section_factor'')
          then refusal ERR_INVALID_REDIS_ROUTE
                 [lit ''the \"data_type\" or \"section_factor\" config were conflict in m_oJsonTableRelative[\"redis_struct\"][\"'',
                  purpose r, lit ''\"] and m_oJsonTableRelative[\"tables\"][\"'', c_bytes (table_name d), lit ''\"]'']
          else Inr ())"

text \<open>One check after the other: the first refusal counts.\<close>

definition and_then :: "'s \<times> unit verdict \<Rightarrow> ('s \<Rightarrow> 's \<times> unit verdict) \<Rightarrow> 's \<times> unit verdict" where
  "and_then r f = (case r of (s, Inl err) \<Rightarrow> (s, Inl err) | (s, Inr _) \<Rightarrow> f s)"

definition CheckRequest :: "'d fpu \<Rightarrow> u32 \<times> u32 \<Rightarrow> 'd proxy \<Rightarrow> mem_operate \<Rightarrow> ('d proxy \<times> unit verdict) option" where
  "CheckRequest fp junk p m =
     (let redis = (\<lambda>p. case redis_part m of None \<Rightarrow> (p, Inr ()) | Some r \<Rightarrow> find_ring (section_factor m) r p);
          db = (\<lambda>p. case db_part m of None \<Rightarrow> (p, Inr ())
                  | Some d \<Rightarrow> and_then (CheckDbOperate p d)
                      (\<lambda>p. (p, if routes (table_of p (table_name d)) = None then no_config ''tables'' (c_bytes (table_name d)) else Inr ())));
          both = (\<lambda>p. case (redis_part m, db_part m) of
                  (Some r, Some d) \<Rightarrow>
                    and_then (and_then (p, check_pair p r d) (find_ring (section_factor m) r)) (\<lambda>p. (p, check_division p r d))
                | _ \<Rightarrow> (p, Inr ()))
      in if redis_part m = None \<and> db_part m = None
         then Some (p, Inl (ERR_INCOMPLET_DATAPROXY_DATA, lit ''neighter redis_operate nor db_operate was exist!''))
         else map_option (\<lambda>v. and_then (and_then (and_then (p, v) redis) db) both)
                (case redis_part m of None \<Rightarrow> Some (Inr ()) | Some r \<Rightarrow> CheckRedisOperate fp junk p r))"

end
