(* ===== verification/Proxy_Cmd.thy ===== *)
theory Proxy_Cmd
  imports Proxy_Check
begin

text \<open>
  The handler of the data proxy (\<open>AnyMessage\<close> in \<open>CmdDataProxy.cpp\<close>): the checks of a request on redis and the
  database together, the redis fields made from the columns of the database, and the first step of the request.
\<close>

section \<open>Checks of the columns\<close>

text \<open>The columns of the request have to be those of the table, in its order, by name or alias.\<close>

definition column_matches :: "byte list \<Rightarrow> mem_field \<Rightarrow> bool" where
  "column_matches n f \<longleftrightarrow> n = bytes_of (col_name f) \<or> n = bytes_of (col_as f)"

definition wrong_column :: "byte list \<Rightarrow> byte list \<Rightarrow> mem_field \<Rightarrow> 'a verdict" where
  "wrong_column t n f =
     refusal ERR_DB_FIELD_ORDER_OR_FIELD_NAME
       [lit ''the query table \"'', c_bytes t, lit ''\" query field name \"'', c_bytes (bytes_of (col_name f)),
        lit ''\" is not match the table dict field name \"'', c_bytes n, lit ''\"!'']"

definition no_key_field :: "'d proxy \<Rightarrow> redis_operate \<Rightarrow> proxy_error \<Rightarrow> string \<Rightarrow> 'a verdict" where
  "no_key_field p r err where = refusal err [lit ''key field \"'', c_bytes (key_field p r), lit (''\" not found in the '' @ where @ ''!'')]"

definition CheckDataSet :: "'d proxy \<Rightarrow> redis_operate \<Rightarrow> db_operate \<Rightarrow> unit verdict" where
  "CheckDataSet p r d =
     (let t = table_name d; cols = columns p t; fs = db_fields d in
      if length cols \<noteq> length fs
      then refusal ERR_DB_FIELD_NUM [lit ''the query table \"'', c_bytes t, lit ''\" field num is not match the table dict field num!'']
      else case find (\<lambda>(n, f). \<not> column_matches n f) (zip cols fs) of
          Some (n, f) \<Rightarrow> wrong_column t n f
        | None \<Rightarrow>
            if key_field p r = [] \<or> key_field p r \<in> set cols then Inr ()
            else no_key_field p r ERR_KEY_FIELD ''table dict'')"

definition asked_names :: "mem_field list \<Rightarrow> byte list set" where
  "asked_names fs = set (concat (map (\<lambda>f. given (case col_as f of Some n \<Rightarrow> Some n | None \<Rightarrow> col_name f)) fs))"

definition CheckJoinField :: "'d proxy \<Rightarrow> redis_operate \<Rightarrow> db_operate \<Rightarrow> unit verdict" where
  "CheckJoinField p r d =
     (let names = asked_names (db_fields d) in
      if key_field p r \<noteq> [] \<and> key_field p r \<notin> names then no_key_field p r ERR_KEY_FIELD ''table dict''
      else if \<exists>n \<in> set (join_fields p r). n \<notin> names
      then refusal ERR_JOIN_FIELDS
             [lit ''the query table \"'', c_bytes (table_name d), lit ''\" join field name is not match the db request field!'']
      else Inr ())"

section \<open>Redis fields from columns\<close>

definition is_key :: "'d proxy \<Rightarrow> redis_operate \<Rightarrow> mem_field \<Rightarrow> bool" where
  "is_key p r f \<longleftrightarrow> key_field p r = bytes_of (col_name f) \<or> col_as f = Some (key_field p r)"

definition empty_value :: "proxy_error \<Rightarrow> string \<Rightarrow> byte list \<Rightarrow> 'a verdict" where
  "empty_value err what n = refusal err [lit (''the value of '' @ what @ '' field \"''), c_bytes n, lit ''\" can not be empty!'']"

text \<open>The fields named by the values of the key column; an empty one refuses the request.\<close>

fun key_names :: "'d proxy \<Rightarrow> redis_operate \<Rightarrow> mem_field list \<Rightarrow> mem_field list verdict" where
  "key_names p r [] = Inr []"
| "key_names p r (f # fs) =
     (if \<not> is_key p r f then key_names p r fs
      else if bytes_of (col_value f) = [] then empty_value ERR_KEY_FIELD_VALUE ''key'' (key_field p r)
      else case key_names p r fs of Inl err \<Rightarrow> Inl err | Inr gs \<Rightarrow> Inr (name_field (bytes_of (col_value f)) # gs))"

definition first_value :: "byte list \<Rightarrow> mem_field list \<Rightarrow> mem_field list" where
  "first_value s fs = (case fs of [] \<Rightarrow> [] | f # fs \<Rightarrow> f\<lparr>col_value := Some s\<rparr> # fs)"

definition with_fields :: "mem_field list \<Rightarrow> mem_operate \<Rightarrow> mem_operate" where
  "with_fields fs m = m\<lparr>redis_part := Some ((redis_of m)\<lparr>op_fields := fs\<rparr>)\<rparr>"

definition miss_key_field :: "proxy_error \<times> byte list" where
  "miss_key_field = (ERR_KEY_FIELD, lit ''miss key_field in CmdDataProxyTableRelative.json config!'')"

text \<open>The first field of a deletion has a name and no value.\<close>

definition check_hdel :: "mem_field \<Rightarrow> unit verdict" where
  "check_hdel f =
     (if bytes_of (col_name f) = [] then Inl (ERR_KEY_FIELD, lit ''hash field name is empty for hdel!'')
      else if bytes_of (col_value f) \<noteq> [] then Inl (ERR_KEY_FIELD, lit ''hash field value is not empty for hdel!'')
      else Inr ())"

text \<open>A row for redis out of the columns: for a hash with every value, else without the empty ones.\<close>

definition hash_record :: "mem_field list \<Rightarrow> mem_record" where
  "hash_record fs = map (\<lambda>f. value_field (bytes_of (col_value f))) fs"

definition plain_record :: "mem_field list \<Rightarrow> mem_record" where
  "plain_record fs = map (\<lambda>f. if bytes_of (col_value f) = [] then no_field else value_field (bytes_of (col_value f))) fs"

definition PrepareForWriteBothWithDataset :: "proxy_env \<Rightarrow> 'd proxy \<Rightarrow> mem_operate \<Rightarrow> mem_operate verdict" where
  "PrepareForWriteBothWithDataset e p m =
     (let r = redis_of m; fs = db_fields (db_of m) in
      if is_hash r then
        if key_field p r = [] then Inl miss_key_field
        else if redis_cmd_write r = lit ''HSET'' then
          (case key_names p r fs of
             Inl err \<Rightarrow> Inl err
           | Inr [] \<Rightarrow> no_key_field p r ERR_KEY_FIELD ''table dict''
           | Inr gs \<Rightarrow> Inr (with_fields (first_value (record_bytes e (hash_record fs)) gs) m))
        else if redis_cmd_write r = lit ''HDEL'' then
          (case op_fields r of
             [f] \<Rightarrow> (case check_hdel f of Inl err \<Rightarrow> Inl err | Inr _ \<Rightarrow> Inr m)
           | _ \<Rightarrow> Inl (ERR_KEY_FIELD, lit ''hdel field num must be 1''))
        else Inl (ERR_INVALID_CMD_FOR_HASH_DATASET, lit ''hash with dataset cmd error!'')
      else if redis_cmd_write r = lit ''DEL'' then Inr m
      else Inr (with_fields [value_field (record_bytes e (plain_record fs))] m))"

text \<open>The values of the columns to join, by name; the name counts before the alias.\<close>

definition join_name :: "byte list set \<Rightarrow> mem_field \<Rightarrow> byte list option" where
  "join_name names f =
     (if bytes_of (col_name f) \<in> names then Some (bytes_of (col_name f))
      else case col_as f of None \<Rightarrow> None | Some n \<Rightarrow> if n \<in> names then Some n else None)"

text \<open>For a hash, the fields named by the values of the key column are collected on the way.\<close>

fun join_columns :: "bool \<Rightarrow> 'd proxy \<Rightarrow> redis_operate \<Rightarrow> byte list set \<Rightarrow> mem_field list \<Rightarrow>
    mem_field list \<times> (byte list \<Rightarrow> byte list) \<Rightarrow> (mem_field list \<times> (byte list \<Rightarrow> byte list)) verdict" where
  "join_columns keyed p r names [] acc = Inr acc"
| "join_columns keyed p r names (f # fs) (gs, vals) =
     (let v = bytes_of (col_value f); key = (keyed \<and> is_key p r f) in
      if key \<and> v = [] then empty_value ERR_KEY_FIELD_VALUE ''key'' (key_field p r)
      else
        let gs = (if key then gs @ [name_field v] else gs) in
        case join_name names f of
          None \<Rightarrow> join_columns keyed p r names fs (gs, vals)
        | Some n \<Rightarrow>
            if v = []
            then if keyed then empty_value ERR_KEY_FIELD_VALUE ''join'' (bytes_of (col_name f))
                 else empty_value ERR_KEY_FIELD_VALUE ''key'' (key_field p r)
            else join_columns keyed p r names fs (gs, vals(n := v)))"

definition join_text :: "byte list list \<Rightarrow> (byte list \<Rightarrow> byte list) \<Rightarrow> byte list" where
  "join_text names vals = fold (\<lambda>n s. if s = [] then vals n else s @ lit '':'' @ vals n) names []"

text \<open>\<open>None\<close>: the first field of a deletion is read where there is none.\<close>

definition PrepareForWriteBothWithFieldJoin :: "'d proxy \<Rightarrow> mem_operate \<Rightarrow> mem_operate verdict option" where
  "PrepareForWriteBothWithFieldJoin p m =
     (let r = redis_of m; names = join_fields p r; cmd = redis_cmd_write r;
          scan = (\<lambda>keyed. join_columns keyed p r (set names) (db_fields (db_of m)) ([], \<lambda>n. []))
      in if is_hash r \<or> int_of_field (redis_structure r) = REDIS_T_SORT_SET then
           if key_field p r = [] then Some (Inl miss_key_field)
           else if cmd \<in> {lit ''HSET'', lit ''ZADD''} then
             Some (if op_fields r \<noteq> [] then Inr m
                   else case scan True of
                       Inl err \<Rightarrow> Inl err
                     | Inr (gs, vals) \<Rightarrow>
                         if gs = [] then no_key_field p r ERR_LACK_JOIN_FIELDS ''request redis operator''
                         else Inr (with_fields (first_value (join_text names vals) gs) m))
           else if cmd \<in> {lit ''HDEL'', lit ''ZREM''} then
             (case op_fields r of
                [] \<Rightarrow> None
              | f # _ \<Rightarrow> Some (case check_hdel f of Inl err \<Rightarrow> Inl err | Inr _ \<Rightarrow> Inr m))
           else Some (Inl (ERR_INVALID_CMD_FOR_HASH_DATASET, lit ''hash with field join cmd error!''))
         else if cmd = lit ''DEL'' then Some (Inr m)
         else Some (case scan False of
             Inl err \<Rightarrow> Inl err
           | Inr (gs, vals) \<Rightarrow> Inr (with_fields [value_field (join_text names vals)] m)))"

section \<open>The first step\<close>

definition new_read :: "'x storage_step_scheme \<Rightarrow> redis_operate \<Rightarrow> bool \<Rightarrow> nat \<Rightarrow> db_step option \<Rightarrow> read_step" where
  "new_read st r dataset n nx =
     \<lparr>m_stMsgShell = m_stMsgShell st, m_oReqMsgHead = m_oReqMsgHead st, m_pNodeSession = m_pNodeSession st,
      m_strMasterNode = '''', m_strSlaveNode = '''', m_oRedisOperate = r, m_pNextStep = nx,
      m_bIsDataSet = dataset, m_iReadNum = 0, m_iTableFieldNum = n\<rparr>"

definition new_update :: "'x storage_step_scheme \<Rightarrow> mem_operate \<Rightarrow> byte list list \<Rightarrow> byte list \<Rightarrow> update_step" where
  "new_update st m table key =
     \<lparr>m_stMsgShell = m_stMsgShell st, m_oReqMsgHead = m_oReqMsgHead st, m_pNodeSession = m_pNodeSession st,
      m_strMasterNode = '''', m_strSlaveNode = '''', m_oMemOperate = m, m_strKeyField = key, m_oTableFields = table\<rparr>"

definition if_running :: "(trace \<times> cmd_status) option \<Rightarrow> (trace \<times> bool) option" where
  "if_running = map_option (\<lambda>(tr, s). (tr, s = STATUS_CMD_RUNNING))"

definition reading_step :: "'d proxy \<Rightarrow> storage_step \<Rightarrow> mem_operate \<Rightarrow> db_step option \<Rightarrow> read_step" where
  "reading_step p st m nx =
     (let r = redis_of m in
      if related p r ''dataset'' then new_read st r True (length (columns p (table_name (db_of m)))) nx
      else new_read st r False 0 nx)"

definition RedisOnly :: "proxy_env \<Rightarrow> 'd proxy \<Rightarrow> storage_step \<Rightarrow> mem_operate \<Rightarrow> trace \<Rightarrow> (trace \<times> bool) option" where
  "RedisOnly e p st m tr =
     if_running (if op_type (redis_of m) = T_WRITE then write_emit e (new_write st (redis_of m) None) tr
                 else read_emit e (reading_step p st m None) tr)"

definition DbOnly :: "proxy_env \<Rightarrow> storage_step \<Rightarrow> mem_operate \<Rightarrow> trace \<Rightarrow> trace \<times> bool" where
  "DbOnly e st m tr =
     (let (db, tr) = try_register e 3 (new_db st m RELATIVE_TABLE [] [] []) tr
      in if m_ulSequence db = None then (tr, False)
         else let (db, tr, s) = db_emit e db tr
              in if s = STATUS_CMD_RUNNING then (tr, True) else (fst (invoke e (DeleteStep (DbStep db)) tr), False))"

definition ReadEither :: "proxy_env \<Rightarrow> 'd proxy \<Rightarrow> storage_step \<Rightarrow> mem_operate \<Rightarrow> trace \<Rightarrow> (trace \<times> bool) option" where
  "ReadEither e p st m tr =
     (let r = redis_of m; ob = struct_of p r;
          db = new_db st m (atoi (text_string (call_key ob (lit ''relative'')))) (columns p (call_key ob (lit ''table'')))
                 (key_field p r) (join_fields p r)
      in if_running (read_emit e (reading_step p st m (Some db)) tr))"

definition WriteBoth :: "proxy_env \<Rightarrow> storage_step \<Rightarrow> mem_operate \<Rightarrow> trace \<Rightarrow> (trace \<times> bool) option" where
  "WriteBoth e st m tr =
     if_running (write_emit e (new_write st (redis_of m) (Some (new_db st m RELATIVE_TABLE [] [] []))) tr)"

definition with_redis :: "(redis_operate \<Rightarrow> redis_operate) \<Rightarrow> mem_operate \<Rightarrow> mem_operate" where
  "with_redis f m = m\<lparr>redis_part := Some (f (redis_of m))\<rparr>"

text \<open>Changing a row: for a hash the request has one field with a name and no value.\<close>

definition check_update :: "'d proxy \<Rightarrow> mem_operate \<Rightarrow> mem_operate verdict" where
  "check_update p m =
     (let r = redis_of m in
      if is_hash r then
        if key_field p r = [] then Inl miss_key_field
        else if redis_cmd_write r \<notin> {lit ''HSET'', lit ''HDEL''} \<or> length (op_fields r) \<noteq> 1
        then Inl (ERR_INVALID_CMD_FOR_HASH_DATASET, lit ''hash set cmd error, or invalid hash field num!'')
        else if bytes_of (col_name (hd (op_fields r))) = [] then Inl (ERR_KEY_FIELD, lit ''hash field name is empty!'')
        else if bytes_of (col_value (hd (op_fields r))) \<noteq> [] then Inl (ERR_KEY_FIELD, lit ''hash field value is not empty!'')
        else Inr (with_redis (\<lambda>r. r\<lparr>redis_cmd_read := lit ''HGET''\<rparr>) m)
      else if int_of_field (redis_structure r) = REDIS_T_STRING
      then Inr (with_redis (\<lambda>r. r\<lparr>redis_cmd_read := lit ''GET'', op_fields := []\<rparr>) m)
      else Inl (ERR_UNDEFINE_REDIS_OPERATE, lit ''only hash an string had update dataset supported!''))"

definition UpdateBothWithDataset :: "proxy_env \<Rightarrow> 'd proxy \<Rightarrow> storage_step \<Rightarrow> mem_operate \<Rightarrow> trace \<Rightarrow> (trace \<times> bool) option" where
  "UpdateBothWithDataset e p st m tr =
     (case check_update p m of
        Inl (err, msg) \<Rightarrow> Some (refuse e st err msg tr)
      | Inr m' \<Rightarrow>
          let key = (if is_hash (redis_of m) then key_field p (redis_of m) else [])
          in if_running (update_emit e (new_update st m' (columns p (table_name (db_of m))) key) tr))"

section \<open>The handler\<close>

text \<open>A request on both: the verdict on it, with the request as it goes on.\<close>

definition prepare_both :: "proxy_env \<Rightarrow> 'd proxy \<Rightarrow> mem_operate \<Rightarrow> mem_operate verdict option" where
  "prepare_both e p m =
     (let r = redis_of m; d = db_of m in
      if op_type r = T_WRITE \<and> query_type d \<in> {UPDATE, DELETE} then Some (Inr m)
      else if related p r ''dataset'' then
        (case CheckDataSet p r d of
           Inl err \<Rightarrow> Some (Inl err)
         | Inr _ \<Rightarrow> Some (if op_type r = T_READ then Inr m else PrepareForWriteBothWithDataset e p m))
      else if related p r ''join'' then
        (case CheckJoinField p r d of
           Inl err \<Rightarrow> Some (Inl err)
         | Inr _ \<Rightarrow> if op_type r = T_READ then Some (Inr m) else PrepareForWriteBothWithFieldJoin p m)
      else Some (Inr m))"

definition start_both :: "proxy_env \<Rightarrow> 'd proxy \<Rightarrow> storage_step \<Rightarrow> mem_operate \<Rightarrow> trace \<Rightarrow> (trace \<times> bool) option" where
  "start_both e p st m tr =
     (if op_type (redis_of m) = T_READ then ReadEither e p st m tr
      else if query_type (db_of m) = UPDATE \<and> related p (redis_of m) ''dataset'' then UpdateBothWithDataset e p st m tr
      else WriteBoth e st m tr)"

definition start_request :: "proxy_env \<Rightarrow> 'd proxy \<Rightarrow> storage_step \<Rightarrow> mem_operate \<Rightarrow> trace \<Rightarrow> (trace \<times> bool) option" where
  "start_request e p st m tr =
     (if db_part m = None then RedisOnly e p st m tr
      else if redis_part m = None then Some (DbOnly e st m tr)
      else case prepare_both e p m of
          None \<Rightarrow> None
        | Some (Inl (err, msg)) \<Rightarrow> Some (refuse e st err msg tr)
        | Some (Inr m) \<Rightarrow> start_both e p st m tr)"

definition client :: "int \<times> u32 \<Rightarrow> msg_head \<Rightarrow> redis_ring option \<Rightarrow> storage_step" where
  "client sh head ring =
     \<lparr>m_stMsgShell = sh, m_oReqMsgHead = head, m_pNodeSession = ring, m_strMasterNode = '''', m_strSlaveNode = ''''\<rparr>"

definition AnyMessage :: "'d fpu \<Rightarrow> u32 \<times> u32 \<Rightarrow> proxy_env \<Rightarrow> int \<times> u32 \<Rightarrow> msg_head \<Rightarrow> byte list \<Rightarrow> 'd proxy \<Rightarrow> trace \<Rightarrow>
    ('d proxy \<times> trace \<times> bool) option" where
  "AnyMessage fp junk e sh head body p tr =
     (let (ok, m) = oper_parse e body in
      if \<not> ok
      then Some (p, refuse e (client sh head None) ERR_PARASE_PROTOBUF
                      (lit ''failed to parse DataMem::MemOperate from oInMsgBody.body()!'') tr)
      else case Preprocess p m of
          None \<Rightarrow> None
        | Some m \<Rightarrow>
            (case CheckRequest fp junk p m of
               None \<Rightarrow> None
             | Some (p, Inl (err, msg)) \<Rightarrow> Some (p, refuse e (client sh head None) err msg tr)
             | Some (p, Inr _) \<Rightarrow>
                 map_option (Pair p) (start_request e p (client sh head (m_pRedisNodeSession p)) m tr)))"

end
