(* ===== verification/Proxy_Rows.thy ===== *)
theory Proxy_Rows
  imports Proxy_Cmd
begin

text \<open>
  Rows through the proxy: changing the columns of a row that redis holds, writing the rows of the database back to
  redis, and reading them again, in one answer or in several. The generated code of a record is used through one
  fact, \<open>record_codec\<close>: parsing what was serialised gives the record.
\<close>

definition record_codec :: "proxy_env \<Rightarrow> bool" where
  "record_codec e \<longleftrightarrow> (\<forall>row. record_parse e (record_bytes e row) = (True, row))"

section \<open>Changing columns\<close>

lemma length_set_column [simp]: "length (set_column names f k row) = length row"
  by (simp add: set_column_def)

lemma set_column_nth: "k < length row \<Longrightarrow> set_column names f j row ! k =
    (if j = k \<and> column_matches (names ! k) f then (row ! k)\<lparr>col_value := Some (bytes_of (col_value f))\<rparr> else row ! k)"
  by (auto simp: set_column_def column_matches_def)

lemma fold_columns: "length (fold (set_column names f) ks row) = length row \<and>
    (k < length row \<longrightarrow> distinct ks \<longrightarrow> fold (set_column names f) ks row ! k =
      (if k \<in> set ks \<and> column_matches (names ! k) f then (row ! k)\<lparr>col_value := Some (bytes_of (col_value f))\<rparr> else row ! k))"
  by (induction ks arbitrary: row) (auto simp: set_column_nth)

lemma set_columns_snoc: "set_columns names (fs @ [f]) row = fold (set_column names f) [0..<length names] (set_columns names fs row)"
  by (simp add: set_columns_def)

lemma length_set_columns [simp]: "length (set_columns names fs row) = length row"
  by (induction fs rule: rev_induct) (simp_all add: set_columns_snoc fold_columns, simp add: set_columns_def)

lemma set_columns_nth: "k < length row \<Longrightarrow> set_columns names fs row ! k =
    (case find (column_matches (names ! k)) (rev fs) of
       Some f \<Rightarrow> if k < length names then (row ! k)\<lparr>col_value := Some (bytes_of (col_value f))\<rparr> else row ! k
     | None \<Rightarrow> row ! k)"
proof (induction fs rule: rev_induct)
  case Nil
  then show ?case by (simp add: set_columns_def)
next
  case (snoc f fs)
  then show ?case
    using fold_columns [of names f "[0..<length names]" "set_columns names fs row" k]
    by (auto simp: set_columns_snoc split: option.splits)
qed

lemma length_pad_row [simp]: "length (pad_row n row) = max n (length row)"
  by (simp add: pad_row_def)

lemma pad_row_nth: "k < length (pad_row n row) \<Longrightarrow> pad_row n row ! k = (if k < length row then row ! k else value_field [])"
  by (auto simp: pad_row_def nth_append)

text \<open>C18: the changed row has the table's columns; every column that the request names, by its name or its alias,
  has the value of the last such field of the request, and every other column keeps its value, a missing one being empty.\<close>

theorem changed_row:
  assumes "k < max (length names) (length row)"
  shows "col_value (update_row names fs row ! k) =
      (case find (column_matches (names ! k)) (rev fs) of
         Some f \<Rightarrow> if k < length names then Some (bytes_of (col_value f)) else col_value (row ! k)
       | None \<Rightarrow> if k < length row then col_value (row ! k) else Some [])
    \<and> length (update_row names fs row) = max (length names) (length row)"
  using assms by (auto simp: update_row_def set_columns_nth pad_row_nth value_field_def split: option.splits)

section \<open>Answers\<close>

text \<open>The answers in a list of calls.\<close>

fun sent_rows :: "trace \<Rightarrow> mem_record list" where
  "sent_rows [] = []"
| "sent_rows ((SendTo sh head rsp, ok) # tr) = record_data rsp @ sent_rows tr"
| "sent_rows (c # tr) = sent_rows tr"

lemma sent_rows_append [simp]: "sent_rows (xs @ ys) = sent_rows xs @ sent_rows ys"
  by (induction xs rule: sent_rows.induct) simp_all

text \<open>What the worker answers to messages for the client.\<close>

definition sends :: "proxy_env \<Rightarrow> bool" where
  "sends e \<longleftrightarrow> (\<forall>tr sh head rsp. answer e tr (SendTo sh head rsp))"

definition answer_call :: "proxy_env \<Rightarrow> 'x storage_step_scheme \<Rightarrow> mem_rsp \<Rightarrow> call" where
  "answer_call e st rsp =
     SendTo (m_stMsgShell st) ((m_oReqMsgHead st)\<lparr>h_cmd := h_cmd (m_oReqMsgHead st) + 1, h_msgbody_len := rsp_body_size e rsp\<rparr>) rsp"

lemma sendsD: "sends e \<Longrightarrow> answer e tr (SendTo sh head rsp)"
  by (cases sh) (simp add: sends_def)

lemma Response_sends: "sends e \<Longrightarrow> Response e st rsp tr = (tr @ [(answer_call e st rsp, True)], True)"
  by (simp add: Response_def invoke_def answer_call_def Let_def sendsD)

definition answers :: "proxy_env \<Rightarrow> 'x storage_step_scheme \<Rightarrow> mem_rsp list \<Rightarrow> trace" where
  "answers e st rsps = map (\<lambda>rsp. (answer_call e st rsp, True)) rsps"

lemma answers_simps [simp]:
  "answers e st [] = []" "answers e st (rsp # rsps) = (answer_call e st rsp, True) # answers e st rsps"
  by (simp_all add: answers_def)

lemma sent_answers: "sent_rows (answers e st rsps) = concat (map record_data rsps)"
  by (induction rsps) (simp_all add: answer_call_def)

text \<open>How an array of texts is divided: the rows of an answer, with their sizes, stay within the limit.\<close>

fun packets :: "mem_rsp \<Rightarrow> int \<Rightarrow> nat \<Rightarrow> (mem_record \<times> nat) list \<Rightarrow> mem_rsp list" where
  "packets rsp len i [] = [rsp\<lparr>curcount := Some (int i)\<rparr>]"
| "packets rsp len i ((row, n) # xs) =
     (if len + int n > max_size
      then rsp\<lparr>curcount := Some (int i + 1)\<rparr> #
           packets (add_row row (rsp\<lparr>curcount := Some (int i + 1), record_data := []\<rparr>)) (int n) (Suc i) xs
      else packets (add_row row rsp) (len + int n) (Suc i) xs)"

lemma packets_rows: "concat (map record_data (packets rsp len i xs)) = record_data rsp @ map fst xs"
  by (induction rsp len i xs rule: packets.induct) (simp_all add: add_row_def)

lemma packets_last: "packets rsp len i xs \<noteq> [] \<and> curcount (last (packets rsp len i xs)) = Some (int (i + length xs))"
  by (induction rsp len i xs rule: packets.induct) simp_all

lemma packets_total: "p \<in> set (packets rsp len i xs) \<Longrightarrow> totalcount p = totalcount rsp \<and> err_no p = err_no rsp \<and> rsp_from p = rsp_from rsp"
  by (induction rsp len i xs rule: packets.induct) (auto simp: add_row_def split: if_splits)

lemma array_texts:
  assumes "sends e" "\<forall>s \<in> set ss. int (length s) \<le> max_size"
  shows "array_loop e st whole i (map RString ss) rsp len tr =
    (tr @ answers e st (packets rsp len i (map (\<lambda>s. ([value_field s], length s)) ss)), True)"
  using assms(2)
proof (induction ss arbitrary: i rsp len tr)
  case Nil
  then show ?case by (simp add: Response_sends [OF assms(1)])
next
  case (Cons s ss)
  then show ?case by (simp add: make_room_def Response_sends [OF assms(1)] not_less Let_def)
qed

lemma dataset_texts:
  assumes "sends e" "\<forall>s \<in> set ss. int (length s) \<le> max_size \<and> dataset_of e st s = Inr (row s)"
  shows "dataset_loop e st whole i (map RString ss) rsp len tr =
    (tr @ answers e st (packets rsp len i (map (\<lambda>s. (row s, length s)) ss)), True)"
  using assms(2)
proof (induction ss arbitrary: i rsp len tr)
  case Nil
  then show ?case by (simp add: Response_sends [OF assms(1)])
next
  case (Cons s ss)
  then show ?case by (simp add: make_room_def Response_sends [OF assms(1)] not_less Let_def)
qed

text \<open>The size of the texts in an answer.\<close>

definition payload :: "mem_rsp \<Rightarrow> int" where
  "payload rsp = sum_list (map (\<lambda>row. sum_list (map (\<lambda>f. int (length (bytes_of (col_value f)))) row)) (record_data rsp))"

lemma payload_simps [simp]:
  "payload (rsp\<lparr>curcount := c\<rparr>) = payload rsp"
  "payload (add_row [value_field s] rsp) = payload rsp + int (length s)"
  "payload (rsp\<lparr>record_data := []\<rparr>) = 0"
  by (simp_all add: payload_def add_row_def value_field_def bytes_of_def)

lemma packets_payload:
  assumes "payload rsp \<le> len" "payload rsp \<le> max_size" "\<forall>s \<in> set ss. int (length s) \<le> max_size"
  shows "\<forall>p \<in> set (packets rsp len i (map (\<lambda>s. ([value_field s], length s)) ss)). payload p \<le> max_size"
  using assms
proof (induction ss arbitrary: rsp len i)
  case (Cons s ss)
  show ?case
  proof (cases "len + int (length s) > max_size")
    case True
    have "\<forall>p \<in> set (packets (add_row [value_field s] (rsp\<lparr>curcount := Some (int i + 1), record_data := []\<rparr>))
        (int (length s)) (Suc i) (map (\<lambda>s. ([value_field s], length s)) ss)). payload p \<le> max_size"
      using Cons.prems by (intro Cons.IH) auto
    then show ?thesis using True Cons.prems(2) by simp
  next
    case False
    have "\<forall>p \<in> set (packets (add_row [value_field s] rsp) (len + int (length s)) (Suc i)
        (map (\<lambda>s. ([value_field s], length s)) ss)). payload p \<le> max_size"
      using Cons.prems False by (intro Cons.IH) auto
    then show ?thesis using False by simp
  qed
qed simp

text \<open>C40: an array of texts, each within the limit, is answered with all its elements in their order, divided into
  answers whose texts stay within the limit; each answer has the number of elements, and the last one counts them all.\<close>

theorem array_read_completely:
  assumes "sends e" "\<forall>s \<in> set ss. length s \<le> 1000000" "0 \<le> rsp_size e (redis_rsp\<lparr>totalcount := Some (int (length ss))\<rparr>)"
  shows "\<exists>rsps. ReadReplyArrayWithoutDataSet e st (map RString ss) tr = (tr @ answers e st rsps, True)
    \<and> concat (map record_data rsps) = map (\<lambda>s. [value_field s]) ss
    \<and> (\<forall>p \<in> set rsps. payload p \<le> 1000000 \<and> totalcount p = Some (int (length ss)) \<and> err_no p = 0)
    \<and> rsps \<noteq> [] \<and> curcount (last rsps) = Some (int (length ss))"
proof -
  let ?rsp = "redis_rsp\<lparr>totalcount := Some (int (length ss))\<rparr>"
  let ?ps = "packets ?rsp (rsp_size e ?rsp) 0 (map (\<lambda>s. ([value_field s], length s)) ss)"
  have short: "\<forall>s \<in> set ss. int (length s) \<le> max_size" using assms(2) by (auto simp: max_size_def)
  have base: "record_data ?rsp = []" "payload ?rsp = 0" by (simp_all add: redis_rsp_def error_rsp_def payload_def)
  have "ReadReplyArrayWithoutDataSet e st (map RString ss) tr = (tr @ answers e st ?ps, True)"
    by (simp add: ReadReplyArrayWithoutDataSet_def Let_def array_texts [OF assms(1) short])
  moreover have "concat (map record_data ?ps) = map (\<lambda>s. [value_field s]) ss" by (simp add: packets_rows base o_def)
  moreover have "\<forall>p \<in> set ?ps. payload p \<le> 1000000"
    using packets_payload [OF _ _ short, of ?rsp "rsp_size e ?rsp" 0] assms(3) base(2) by (simp add: max_size_def)
  moreover have "\<forall>p \<in> set ?ps. totalcount p = Some (int (length ss)) \<and> err_no p = 0"
    using packets_total by (fastforce simp: redis_rsp_def error_rsp_def)
  ultimately show ?thesis using packets_last [of ?rsp "rsp_size e ?rsp" 0 "map (\<lambda>s. ([value_field s], length s)) ss"] by fastforce
qed

text \<open>An answer before the last one may count all elements: when the last element does not fit.\<close>

lemma early_count:
  assumes "sends e" "length a \<le> 1000000" "length b \<le> 1000000"
    "base = rsp_size e (redis_rsp\<lparr>totalcount := Some 2\<rparr>)" "base + int (length a) \<le> 1000000" "base + int (length a) + int (length b) > 1000000"
  shows "\<exists>p q. ReadReplyArrayWithoutDataSet e st [RString a, RString b] tr = (tr @ answers e st [p, q], True)
    \<and> curcount p = totalcount p \<and> record_data p = [[value_field a]] \<and> record_data q = [[value_field b]]"
proof -
  have short: "\<forall>s \<in> set [a, b]. int (length s) \<le> max_size" using assms(2,3) by (simp add: max_size_def)
  have "ReadReplyArrayWithoutDataSet e st (map RString [a, b]) tr =
      (tr @ answers e st (packets (redis_rsp\<lparr>totalcount := Some 2\<rparr>) base 0 (map (\<lambda>s. ([value_field s], length s)) [a, b])), True)"
    unfolding ReadReplyArrayWithoutDataSet_def Let_def array_texts [OF assms(1) short] by (simp add: assms(4))
  then show ?thesis using assms(5,6)
    by (intro exI [of _ "redis_rsp\<lparr>totalcount := Some 2, curcount := Some 2, record_data := [[value_field a]]\<rparr>"]
        exI [of _ "redis_rsp\<lparr>totalcount := Some 2, curcount := Some 2, record_data := [[value_field b]]\<rparr>"])
      (simp add: max_size_def add_row_def redis_rsp_def error_rsp_def)
qed

section \<open>Written, then read\<close>

fun second_ones :: "'a list \<Rightarrow> 'a list" where
  "second_ones (x # y # xs) = y # second_ones xs"
| "second_ones _ = []"

lemma hash_rows_values: "hash_rows e k rows = Some args \<Longrightarrow> second_ones args = map (\<lambda>row. record_bytes e (dataset_row row)) rows"
  by (induction rows arbitrary: args) (auto split: if_splits)

lemma make_hash_values: "MakeCmdForHashWithDataSet e st rsp = Some args \<Longrightarrow>
    second_ones args = map (\<lambda>row. record_bytes e (dataset_row row)) (record_data rsp) \<and> record_data rsp \<noteq> []"
  by (auto simp: MakeCmdForHashWithDataSet_def hash_rows_values split: if_splits option.splits)

lemma dataset_of_codec: "record_codec e \<Longrightarrow> m_iTableFieldNum st \<in> {0, length row} \<Longrightarrow> dataset_of e st (record_bytes e row) = Inr row"
  by (auto simp: dataset_of_def record_codec_def)

lemma length_dataset_row [simp]: "length (dataset_row row) = length row"
  by (simp add: dataset_row_def)

lemma dataset_read:
  assumes "sends e" "record_codec e" "\<forall>row \<in> set rows. m_iTableFieldNum st \<in> {0, length row} \<and> length (record_bytes e row) \<le> 1000000"
  shows "\<exists>new. ReadReplyArrayWithDataSet e st (map (\<lambda>row. RString (record_bytes e row)) rows) tr = (tr @ new, True) \<and> sent_rows new = rows"
proof -
  let ?ss = "map (record_bytes e) rows"
  have ok: "\<forall>s \<in> set ?ss. int (length s) \<le> max_size \<and> dataset_of e st s = Inr (snd (record_parse e s))"
    using assms(2,3) by (auto simp: max_size_def dataset_of_codec record_codec_def)
  have "map (\<lambda>row. RString (record_bytes e row)) rows = map RString ?ss" by simp
  moreover have "sent_rows (answers e st (packets rsp len 0 (map (\<lambda>s. (snd (record_parse e s), length s)) ?ss))) = record_data rsp @ rows" for rsp len
    using assms(2) by (simp add: sent_answers packets_rows o_def record_codec_def)
  ultimately show ?thesis
    using dataset_texts [OF assms(1) ok] by (simp add: ReadReplyArrayWithDataSet_def Let_def redis_rsp_def error_rsp_def del: map_map)
qed


section \<open>Changed, then read\<close>

lemma last_write_argv: "last (write_argv (r\<lparr>op_fields := [f\<lparr>col_value := Some s\<rparr>]\<rparr>)) = s"
  by (simp add: write_argv_def given_def)

lemma with_value_argv:
  assumes "length (op_fields (redis_of m)) \<le> 1"
  shows "last (write_argv (redis_of (with_value s m))) = s"
proof -
  have "\<exists>f. redis_of (with_value s m) = (redis_of m)\<lparr>op_fields := [f\<lparr>col_value := Some s\<rparr>]\<rparr>"
    using assms by (cases "op_fields (redis_of m)") (auto simp: with_value_def redis_of_def value_field_def Let_def)
  then show ?thesis by (auto simp: last_write_argv)
qed

lemma write_emit_command:
  assumes "write_emit e st tr = Some (tr', s)" "sends e" "s = STATUS_CMD_RUNNING"
  shows "\<exists>node w. tr' = tr @ [(RedisCommand node (write_argv (m_oRedisOperate st)) w, True)]"
  using assms
  by (auto simp: write_emit_def locate_def invoke_def fail_def Let_def split: option.splits if_splits)

text \<open>C17: a row that redis holds and a request changes: the command that is written to redis carries the changed row,
  and a reader of the written value is answered with it.\<close>

theorem changed_row_read_back:
  assumes "sends e" "record_codec e" "row \<noteq> []" "length (op_fields (redis_of (m_oMemOperate st))) \<le> 1"
    "update_reply e st (RString (record_bytes e row)) tr = Some (tr', STATUS_CMD_COMPLETED)"
    "m_bIsDataSet rd" "m_iTableFieldNum rd \<in> {0, max (length (m_oTableFields st)) (length row)}"
  shows "\<exists>node argv w new. tr' = tr @ [(RedisCommand node argv w, True)]
    \<and> read_reply e rd (RString (last argv)) tr2 = (tr2 @ new, STATUS_CMD_COMPLETED)
    \<and> sent_rows new = [update_row (m_oTableFields st) (db_fields (db_of (m_oMemOperate st))) row]"
proof -
  let ?new = "update_row (m_oTableFields st) (db_fields (db_of (m_oMemOperate st))) row"
  let ?m = "with_value (record_bytes e ?new) (m_oMemOperate st)"
  have "update_reply e st (RString (record_bytes e row)) tr = ExecUpdate e st ?m False tr"
    using assms(2,3) by (simp add: update_reply_def record_codec_def Let_def)
  with assms(5) obtain s where "write_emit e (new_write st (redis_of ?m)
      (Some (new_db st ?m RELATIVE_DATASET (m_oTableFields st) (m_strKeyField st) []))) tr = Some (tr', s)" "s = STATUS_CMD_RUNNING"
    by (auto simp: ExecUpdate_def Let_def split: if_splits)
  from write_emit_command [OF this(1) assms(1) this(2)] obtain node w where
    tr': "tr' = tr @ [(RedisCommand node (write_argv (redis_of ?m)) w, True)]" by (auto simp: new_write_def)
  have len: "length ?new = max (length (m_oTableFields st)) (length row)" by (simp add: update_row_def)
  have "dataset_of e rd (record_bytes e ?new) = Inr ?new" using assms(2,7) len by (intro dataset_of_codec) auto
  then have "read_reply e rd (RString (last (write_argv (redis_of ?m)))) tr2 =
      (tr2 @ [(answer_call e rd (add_row ?new redis_rsp), True)], STATUS_CMD_COMPLETED)"
    using with_value_argv [OF assms(4)] assms(6) by (simp add: read_reply_def done_if_def Response_sends [OF assms(1)])
  then show ?thesis using tr' by (simp add: answer_call_def add_row_def redis_rsp_def error_rsp_def)
qed

end
