(* ===== verification/Proxy_Safety.thy ===== *)
theory Proxy_Safety
  imports Proxy_Rows
begin

text \<open>
  The life of the proxy: requests of clients, replies of redis, and answers or silence of the database agent, in any
  order. An invariant of the trace says what the proxy never asks of the redis servers, whatever they and the worker
  answer.
\<close>

section \<open>Events\<close>

text \<open>The step that waits for the answer to a call that was accepted.\<close>

fun waiting :: "call \<times> bool \<Rightarrow> proxy_step option" where
  "waiting (RedisCommand node argv s, True) = Some s"
| "waiting (SendToNext agent head m s, True) = Some s"
| "waiting _ = None"

datatype proxy_event = RedisAnswer redis_answer | AgentAnswer "byte list" | AgentTimeout

text \<open>\<open>None\<close>: undefined behaviour, or an event that is not for this kind of step.\<close>

fun handle_event :: "proxy_env \<Rightarrow> proxy_step \<Rightarrow> proxy_event \<Rightarrow> trace \<Rightarrow> (trace \<times> cmd_status) option" where
  "handle_event e (ReadStep s) (RedisAnswer a) tr = read_callback e s a tr"
| "handle_event e (WriteStep s) (RedisAnswer a) tr = Some (write_callback e s a tr)"
| "handle_event e (UpdateStep s) (RedisAnswer a) tr = update_callback e s a tr"
| "handle_event e (BackStep s) (RedisAnswer a) tr = Some (back_callback e s a tr)"
| "handle_event e (TtlStep s) (RedisAnswer a) tr = Some (tr, ttl_callback a)"
| "handle_event e (DbStep s) (AgentAnswer body) tr = db_callback e s body tr"
| "handle_event e (DbStep s) AgentTimeout tr = Some (db_timeout e s tr)"
| "handle_event e _ _ tr = None"

definition is_db :: "proxy_step \<Rightarrow> bool" where
  "is_db s \<longleftrightarrow> (case s of DbStep _ \<Rightarrow> True | _ \<Rightarrow> False)"

text \<open>The proxy, the trace and the calls that have had their last answer. A database step that is still running
  waits for further answers.\<close>

inductive proxy_life :: "'d fpu \<Rightarrow> u32 \<times> u32 \<Rightarrow> proxy_env \<Rightarrow> 'd proxy \<Rightarrow> trace \<Rightarrow> nat set \<Rightarrow> bool"
  for fp junk e where
  life_start: "proxy_life fp junk e p [] {}"
| life_request: "proxy_life fp junk e p tr D \<Longrightarrow> AnyMessage fp junk e sh head body p tr = Some (p', tr', ok) \<Longrightarrow>
    proxy_life fp junk e p' tr' D"
| life_event: "proxy_life fp junk e p tr D \<Longrightarrow> i < length tr \<Longrightarrow> i \<notin> D \<Longrightarrow> waiting (tr ! i) = Some s \<Longrightarrow>
    handle_event e s ev tr = Some (tr', status) \<Longrightarrow>
    proxy_life fp junk e p tr' (if status = STATUS_CMD_RUNNING \<and> is_db s then D else insert i D)"

section \<open>The invariant\<close>

definition oper_ok :: "mem_operate \<Rightarrow> bool" where
  "oper_ok m \<longleftrightarrow> \<not> flush_cmd (redis_cmd_read (redis_of m)) \<and> \<not> flush_cmd (redis_cmd_write (redis_of m))"

definition next_ok :: "db_step option \<Rightarrow> bool" where
  "next_ok nx \<longleftrightarrow> (\<forall>d. nx = Some d \<longrightarrow> oper_ok (m_oMemOperate d))"

fun step_ok :: "proxy_step \<Rightarrow> bool" where
  "step_ok (ReadStep s) = (m_iReadNum s = 1 \<and> \<not> flush_cmd (redis_cmd_read (m_oRedisOperate s)) \<and> next_ok (m_pNextStep s))"
| "step_ok (WriteStep s) = (\<not> flush_cmd (redis_cmd_write (m_oRedisOperate s)) \<and> next_ok (m_pNextStep s))"
| "step_ok (UpdateStep s) = oper_ok (m_oMemOperate s)"
| "step_ok (BackStep s) = oper_ok (m_oMemOperate s)"
| "step_ok (TtlStep s) = True"
| "step_ok (DbStep s) = oper_ok (m_oMemOperate s)"

fun call_ok :: "call \<Rightarrow> bool" where
  "call_ok (RedisCommand node argv s) =
     (argv \<noteq> [] \<and> \<not> flush_cmd (hd argv) \<and> step_ok s \<and> (\<forall>r. s = ReadStep r \<longrightarrow> node = m_strSlaveNode r))"
| "call_ok (SendToNext agent head m s) = step_ok s"
| "call_ok _ = True"

definition trace_ok :: "trace \<Rightarrow> bool" where
  "trace_ok tr \<longleftrightarrow> (\<forall>c \<in> set tr. call_ok (fst c))"

lemma trace_ok_Nil [simp]: "trace_ok []"
  by (simp add: trace_ok_def)

lemma trace_ok_invoke [simp]: "trace_ok (fst (invoke e c tr)) \<longleftrightarrow> trace_ok tr \<and> call_ok c"
  by (auto simp: trace_ok_def invoke_def)

lemma invoke_ok: "invoke e c tr = (tr', ok) \<Longrightarrow> trace_ok tr \<Longrightarrow> call_ok c \<Longrightarrow> trace_ok tr'"
  using trace_ok_invoke [of e c tr] by simp

lemma waiting_ok: "trace_ok tr \<Longrightarrow> i < length tr \<Longrightarrow> waiting (tr ! i) = Some s \<Longrightarrow> step_ok s"
  unfolding trace_ok_def by (drule bspec [OF _ nth_mem], assumption) (cases "tr ! i" rule: waiting.cases, auto)

section \<open>Answers\<close>

lemma Response_ok [simp]: "trace_ok (fst (Response e st rsp tr)) = trace_ok tr"
  by (simp add: Response_def Let_def)

lemma Response_ok': "Response e st rsp tr = (tr', ok) \<Longrightarrow> trace_ok tr' = trace_ok tr"
  using Response_ok [of e st rsp tr] by simp

lemma Response_err_ok [simp]: "trace_ok (fst (Response_err e st err msg tr)) = trace_ok tr"
  by (simp add: Response_err_def)

lemma fail_ok [simp]: "trace_ok (fst (fail e st err msg tr)) = trace_ok tr"
  by (simp add: fail_def)

lemma fail_eq [simp]: "fail e st err msg tr = (tr', s) \<longleftrightarrow> tr' = fst (Response_err e st err msg tr) \<and> s = STATUS_CMD_FAULT"
  by (auto simp: fail_def)

lemma of_pair: "r = (tr', s) \<Longrightarrow> trace_ok (fst r) \<Longrightarrow> trace_ok tr'"
  by simp

lemma refuse_ok [simp]: "trace_ok (fst (refuse e st err msg tr)) = trace_ok tr"
  by (simp add: refuse_def)

lemma refuse_eq [simp]: "refuse e st err msg tr = (tr', ok) \<longleftrightarrow> tr' = fst (Response_err e st err msg tr) \<and> \<not> ok"
  by (auto simp: refuse_def)

lemma send_raw_ok [simp]: "trace_ok (fst (send_raw e st body tr)) = trace_ok tr"
  by (simp add: send_raw_def Let_def)

lemma done_if_ok [simp]: "fst (done_if r) = fst r"
  by (simp add: done_if_def)

section \<open>The database step\<close>

lemma expire_ok: "\<not> flush_cmd (lit ''EXPIRE'')"
  by (simp add: flush_cmd_def ascii_def)

lemma ttl_emit_ok [simp]: "trace_ok (fst (ttl_emit e st tr)) = trace_ok tr"
  by (simp add: ttl_emit_def expire_ok split_def Let_def)

lemma locate_fields: "locate r ring st = Some (ok, st') \<Longrightarrow> \<exists>a b. st' = st\<lparr>m_strMasterNode := a, m_strSlaveNode := b\<rparr>"
  by (auto simp: locate_def)

lemma back_emit_ok:
  assumes "back_emit e st rsp tr = Some (tr', s)" "trace_ok tr" "oper_ok (m_oMemOperate st)"
  shows "trace_ok tr'"
  using assms
  by (auto simp: back_emit_def Let_def oper_ok_def split_def
      dest!: locate_fields split: option.splits if_splits)

lemma back_callback_ok: "trace_ok tr \<Longrightarrow> trace_ok (fst (back_callback e st a tr))"
  by (simp add: back_callback_def Let_def split: option.split)

lemma db_emit_oper [simp]: "m_oMemOperate (fst (db_emit e st tr)) = m_oMemOperate st"
  by (simp add: db_emit_def Let_def split_def)

lemma db_emit_ok: "trace_ok tr \<Longrightarrow> oper_ok (m_oMemOperate st) \<Longrightarrow> trace_ok (fst (snd (db_emit e st tr)))"
  by (simp add: db_emit_def Let_def split_def)

lemma try_register_oper [simp]: "m_oMemOperate (fst (try_register e n st tr)) = m_oMemOperate st"
  by (induction n arbitrary: tr) (simp_all add: Let_def split_def)

lemma try_register_ok [simp]: "trace_ok (snd (try_register e n st tr)) = trace_ok tr"
  by (induction n arbitrary: tr) (simp_all add: Let_def split_def)

lemma NextStep_ok: "trace_ok tr \<Longrightarrow> oper_ok (m_oMemOperate st) \<Longrightarrow> trace_ok (fst (NextStep e st tr))"
  by (simp add: NextStep_def Let_def split_def db_emit_ok)

lemma or_next_ok:
  "trace_ok tr \<Longrightarrow> next_ok (m_pNextStep st) \<Longrightarrow> trace_ok (fst otherwise) \<Longrightarrow> trace_ok (fst (or_next e st otherwise good bad tr))"
  by (auto simp: or_next_def next_ok_def split_def Let_def NextStep_ok split: option.split)

lemma WriteBack_ok: "WriteBackToRedis e st rsp tr = Some tr' \<Longrightarrow> trace_ok tr \<Longrightarrow> oper_ok (m_oMemOperate st) \<Longrightarrow> trace_ok tr'"
  by (auto simp: WriteBackToRedis_def new_back_def dest!: back_emit_ok split: if_splits)

lemma db_callback_ok: "db_callback e st body tr = Some (tr', s) \<Longrightarrow> trace_ok tr \<Longrightarrow> oper_ok (m_oMemOperate st) \<Longrightarrow> trace_ok tr'"
  by (auto simp: db_callback_def Let_def split_def dest!: WriteBack_ok split: if_splits option.splits)

section \<open>Reading\<close>

lemma make_room_ok: "trace_ok (fst (snd (snd (make_room e st i x rsp len tr)))) = trace_ok tr"
  by (simp add: make_room_def Let_def split_def)

lemma array_loop_ok: "trace_ok tr \<Longrightarrow> next_ok (m_pNextStep st) \<Longrightarrow> trace_ok (fst (array_loop e st whole i xs rsp len tr))"
proof (induction xs arbitrary: i rsp len tr)
  case (Cons x xs)
  then show ?case
    by (cases x) (simp_all add: Let_def split_def make_room_ok or_next_ok)
qed simp

lemma dataset_loop_ok: "trace_ok tr \<Longrightarrow> next_ok (m_pNextStep st) \<Longrightarrow> trace_ok (fst (dataset_loop e st whole i xs rsp len tr))"
proof (induction xs arbitrary: i rsp len tr)
  case (Cons x xs)
  then show ?case
    by (cases x) (simp_all add: Let_def split_def make_room_ok or_next_ok split: sum.split)
qed simp

lemma hash_loop_ok: "trace_ok tr \<Longrightarrow> next_ok (m_pNextStep st) \<Longrightarrow> trace_ok (fst (hash_loop e st whole i xs rsp row len tr))"
proof (induction xs arbitrary: i row len)
  case (Cons x xs)
  then show ?case
    by (cases x) (simp_all add: Let_def or_next_ok)
qed simp

lemma pairs_loop_ok: "trace_ok tr \<Longrightarrow> next_ok (m_pNextStep st) \<Longrightarrow> trace_ok (fst (pairs_loop e st whole i xs rsp row len tr))"
proof (induction xs arbitrary: i row len rule: induct_list012)
  case (3 x y xs)
  then show ?case
    by (cases x; cases y) (simp_all add: Let_def or_next_ok)
qed simp_all

lemma hgetall_loop_ok: "trace_ok tr \<Longrightarrow> trace_ok (fst (hgetall_loop e st whole i xs rsp kept names vs len tr))"
proof (induction xs arbitrary: i rsp kept names vs len tr rule: induct_list012)
  case (3 x y xs)
  then show ?case
    by (cases x; cases y) (simp_all add: Let_def split_def make_room_ok)
qed simp_all

lemmas reader_defs = ReadReplyArrayWithoutDataSet_def ReadReplyArrayWithDataSet_def ReadReplyArray_def ReadReplyHash_def
  ReadReplyArrayForHashWithoutDataSet_def ReadReplyArrayForHgetallWithoutDataSet_def ReadReplyArrayForHgetallWithDataSet_def
lemmas loops_ok = array_loop_ok dataset_loop_ok hash_loop_ok pairs_loop_ok hgetall_loop_ok

lemma read_reply_ok: "trace_ok tr \<Longrightarrow> next_ok (m_pNextStep st) \<Longrightarrow> trace_ok (fst (read_reply e st x tr))"
  by (cases x) (simp_all add: read_reply_def reader_defs loops_ok or_next_ok Let_def split: sum.split)

lemma read_argv_ok: "\<not> flush_cmd (redis_cmd_read r) \<Longrightarrow> read_argv r \<noteq> [] \<and> \<not> flush_cmd (hd (read_argv r))"
  by (simp add: read_argv_def)

lemma write_argv_ok: "\<not> flush_cmd (redis_cmd_write r) \<Longrightarrow> write_argv r \<noteq> [] \<and> \<not> flush_cmd (hd (write_argv r))"
  by (simp add: write_argv_def)

lemma read_emit_ok:
  assumes "read_emit e st tr = Some (tr', s)" "trace_ok tr" "m_iReadNum st = 0"
    "\<not> flush_cmd (redis_cmd_read (m_oRedisOperate st))" "next_ok (m_pNextStep st)"
  shows "trace_ok tr'"
  using assms
  by (auto simp: read_emit_def Let_def split_def read_argv_ok dest!: locate_fields split: option.splits if_splits)

lemma read_callback_ok: "read_callback e st a tr = Some (tr', s) \<Longrightarrow> trace_ok tr \<Longrightarrow> step_ok (ReadStep st) \<Longrightarrow> trace_ok tr'"
  by (auto simp: read_callback_def intro: of_pair read_reply_ok split: if_splits option.splits)

section \<open>Writing\<close>

lemma write_emit_ok:
  assumes "write_emit e st tr = Some (tr', s)" "trace_ok tr" "step_ok (WriteStep st)"
  shows "trace_ok tr'"
  using assms
  by (auto simp: write_emit_def Let_def split_def write_argv_ok dest!: locate_fields split: option.splits if_splits)

lemma next_ok_None [simp]: "next_ok None"
  by (simp add: next_ok_def)

lemma write_array_ok: "trace_ok tr \<Longrightarrow> trace_ok (write_array e st xs tr)"
  by (simp add: write_array_def reader_defs Let_def loops_ok)

lemma write_ttl_ok [simp]: "trace_ok (write_ttl e st tr) = trace_ok tr"
  by (simp add: write_ttl_def Let_def)

lemma write_reply_ok: "trace_ok tr \<Longrightarrow> next_ok (m_pNextStep st) \<Longrightarrow> trace_ok (fst (write_reply e st x tr))"
  by (cases x) (auto simp: write_reply_def Let_def write_array_ok next_ok_def NextStep_ok split: option.split)

lemma write_callback_ok: "trace_ok tr \<Longrightarrow> next_ok (m_pNextStep st) \<Longrightarrow> trace_ok (fst (write_callback e st a tr))"
  by (simp add: write_callback_def write_reply_ok split: option.split)

lemma update_emit_ok:
  assumes "update_emit e st tr = Some (tr', s)" "trace_ok tr" "oper_ok (m_oMemOperate st)"
  shows "trace_ok tr'"
  using assms
  by (auto simp: update_emit_def Let_def split_def read_argv_ok oper_ok_def dest!: locate_fields split: option.splits if_splits)

lemma no_redis_ok: "oper_ok (m\<lparr>redis_part := None\<rparr>)"
  by (simp add: oper_ok_def redis_of_def no_redis_def flush_cmd_def ascii_def)

lemma with_value_ok [simp]: "oper_ok (with_value s m) = oper_ok m"
  by (simp add: oper_ok_def redis_of_def with_value_def Let_def)

lemma ExecUpdate_ok:
  assumes "ExecUpdate e st m db_only tr = Some (tr', s)" "trace_ok tr" "oper_ok m"
  shows "trace_ok tr'"
proof (cases db_only)
  case True
  then show ?thesis
    using assms by (auto simp: ExecUpdate_def Let_def split_def new_db_def no_redis_ok db_emit_ok split: if_splits intro: of_pair)
next
  case False
  let ?w = "new_write st (redis_of m) (Some (new_db st m RELATIVE_DATASET (m_oTableFields st) (m_strKeyField st) []))"
  have "step_ok (WriteStep ?w)" using assms(3) by (simp add: new_write_def next_ok_def new_db_def oper_ok_def)
  then show ?thesis using False assms(1,2) by (auto simp: ExecUpdate_def Let_def intro: write_emit_ok)
qed

lemma update_callback_ok:
  "update_callback e st a tr = Some (tr', s) \<Longrightarrow> trace_ok tr \<Longrightarrow> oper_ok (m_oMemOperate st) \<Longrightarrow> trace_ok tr'"
  by (auto simp: update_callback_def update_reply_def Let_def fail_def split_def dest: ExecUpdate_ok
      split: if_splits option.splits redis_reply.splits)

lemma handle_event_ok: "handle_event e s ev tr = Some (tr', status) \<Longrightarrow> trace_ok tr \<Longrightarrow> step_ok s \<Longrightarrow> trace_ok tr'"
  by (cases "(e, s, ev, tr)" rule: handle_event.cases)
    (auto intro: read_callback_ok update_callback_ok db_callback_ok
      of_pair [OF _ write_callback_ok] of_pair [OF _ back_callback_ok] simp: db_timeout_def)

section \<open>Requests\<close>

text \<open>The commands of a request that passed the checks are not flushes; its preparation keeps them.\<close>

lemma c_bytes_ok: "CheckRedisOperate fp junk p r = Some (Inr ()) \<Longrightarrow> \<not> flush_cmd (redis_cmd_read r) \<and> \<not> flush_cmd (redis_cmd_write r)"
  by (auto simp: CheckRedisOperate_def split: if_splits presult.splits option.splits)

lemma oper_ok_None: "redis_part m = None \<Longrightarrow> oper_ok m"
  by (simp add: oper_ok_def redis_of_def no_redis_def flush_cmd_def ascii_def)

lemma CheckRequest_ok:
  assumes "CheckRequest fp junk p m = Some (p', Inr ())"
  shows "oper_ok m"
proof (cases "redis_part m")
  case None
  then show ?thesis by (rule oper_ok_None)
next
  case (Some r)
  with assms obtain v where v: "CheckRedisOperate fp junk p r = Some v" by (auto simp: CheckRequest_def)
  have "v = Inr ()"
    using assms Some v by (cases v) (simp_all add: CheckRequest_def and_then_def)
  with v have "CheckRedisOperate fp junk p r = Some (Inr ())" by simp
  then show ?thesis using Some c_bytes_ok by (simp add: oper_ok_def redis_of_def)
qed

lemma with_fields_ok [simp]: "oper_ok (with_fields fs m) = oper_ok m"
  by (simp add: oper_ok_def redis_of_def with_fields_def)

lemma prepare_both_ok:
  assumes "prepare_both e p m = Some (Inr m')"
  shows "oper_ok m' = oper_ok m"
proof -
  have *: "PrepareForWriteBothWithDataset e p m = Inr m' \<Longrightarrow> oper_ok m' = oper_ok m"
    by (auto simp: PrepareForWriteBothWithDataset_def Let_def no_key_field_def refusal_def
        split: if_splits sum.splits list.splits)
  have **: "PrepareForWriteBothWithFieldJoin p m = Some (Inr m') \<Longrightarrow> oper_ok m' = oper_ok m"
    by (auto simp: PrepareForWriteBothWithFieldJoin_def Let_def no_key_field_def refusal_def
        split: if_splits sum.splits list.splits)
  show ?thesis using assms * **
    by (auto simp: prepare_both_def Let_def split: if_splits sum.splits)
qed

lemma if_running_ok: "if_running r = Some (tr', ok) \<Longrightarrow> \<exists>s. r = Some (tr', s)"
  by (auto simp: if_running_def)

lemma writing_ok: "oper_ok m \<Longrightarrow> step_ok (WriteStep (new_write st (redis_of m) None))"
  "oper_ok m \<Longrightarrow> step_ok (WriteStep (new_write st (redis_of m) (Some (new_db st' m rel t k j))))"
  by (simp_all add: new_write_def new_db_def next_ok_def oper_ok_def)

lemma reading_ok:
  assumes "read_emit e (reading_step p st m nx) tr = Some (tr', s)" "trace_ok tr" "oper_ok m" "next_ok nx"
  shows "trace_ok tr'"
proof (rule read_emit_ok [OF assms(1,2)])
  show "m_iReadNum (reading_step p st m nx) = 0" "next_ok (m_pNextStep (reading_step p st m nx))"
    "\<not> flush_cmd (redis_cmd_read (m_oRedisOperate (reading_step p st m nx)))"
    using assms(3,4) by (simp_all add: reading_step_def new_read_def oper_ok_def Let_def)
qed

lemma check_update_ok: "check_update p m = Inr m' \<Longrightarrow> oper_ok m \<Longrightarrow> oper_ok m'"
  by (auto simp: check_update_def with_redis_def oper_ok_def redis_of_def flush_cmd_def ascii_def Let_def
      split: if_splits)

lemma DbOnly_ok: "trace_ok tr \<Longrightarrow> oper_ok m \<Longrightarrow> trace_ok (fst (DbOnly e st m tr))"
  by (simp add: DbOnly_def Let_def split_def db_emit_ok new_db_def)

lemma start_both_ok:
  assumes "start_both e p st m tr = Some (tr', ok)" "trace_ok tr" "oper_ok m"
  shows "trace_ok tr'"
proof -
  have next_db: "next_ok (Some (new_db st m rel t k j))" for rel t k j using assms(3) by (simp add: next_ok_def new_db_def)
  have "ReadEither e p st m tr = Some (tr', ok) \<Longrightarrow> trace_ok tr'"
    by (auto simp: ReadEither_def Let_def dest!: if_running_ok intro: reading_ok [OF _ assms(2,3) next_db])
  moreover have "WriteBoth e st m tr = Some (tr', ok) \<Longrightarrow> trace_ok tr'"
    by (auto simp: WriteBoth_def dest!: if_running_ok intro: write_emit_ok [OF _ assms(2) writing_ok(2) [OF assms(3)]])
  moreover have "UpdateBothWithDataset e p st m tr = Some (tr', ok) \<Longrightarrow> trace_ok tr'"
    using assms(2,3)
    by (auto simp: UpdateBothWithDataset_def Let_def new_update_def split: sum.splits dest!: if_running_ok check_update_ok
        dest: update_emit_ok)
  ultimately show ?thesis using assms(1) by (auto simp: start_both_def split: if_splits)
qed

lemma start_request_ok:
  assumes "start_request e p st m tr = Some (tr', ok)" "trace_ok tr" "oper_ok m"
  shows "trace_ok tr'"
proof -
  have "RedisOnly e p st m tr = Some (tr', ok) \<Longrightarrow> trace_ok tr'"
    using assms(2,3)
    by (auto simp: RedisOnly_def split: if_splits dest!: if_running_ok intro: reading_ok write_emit_ok writing_ok(1))
  then show ?thesis using assms
    by (auto simp: start_request_def prepare_both_ok split: if_splits option.splits sum.splits
        intro: start_both_ok of_pair [OF _ DbOnly_ok])
qed

lemma AnyMessage_ok: "AnyMessage fp junk e sh head body p tr = Some (p', tr', ok) \<Longrightarrow> trace_ok tr \<Longrightarrow> trace_ok tr'"
  by (auto simp: AnyMessage_def Let_def split_def intro: start_request_ok [OF _ _ CheckRequest_ok]
      split: if_splits option.splits sum.splits)

lemma life_ok: "proxy_life fp junk e p tr D \<Longrightarrow> trace_ok tr"
  by (induction rule: proxy_life.induct) (auto intro: AnyMessage_ok handle_event_ok waiting_ok)


text \<open>a read waits for the slave node of its key, and is not repeated: the master is never read when the slave fails.\<close>

theorem reads_ask_the_slave:
  assumes "proxy_life fp junk e p tr D" "(RedisCommand node argv (ReadStep s), ok) \<in> set tr"
  shows "node = m_strSlaveNode s \<and> m_iReadNum s = 1"
  using life_ok [OF assms(1)] assms(2) unfolding trace_ok_def by force

text \<open>when a slave fails, the client is told so and no other call is made: the reader does not turn to the master.\<close>

theorem failed_read_told:
  assumes "proxy_life fp junk e p tr D" "i < length tr" "waiting (tr ! i) = Some (ReadStep s)" "ans_status a \<noteq> 0"
  shows "\<exists>msg. handle_event e (ReadStep s) (RedisAnswer a) tr = Some (fail e s ERR_REDIS_CMD msg tr)"
proof -
  have "m_iReadNum s = 1" using waiting_ok [OF life_ok [OF assms(1)] assms(2,3)] by simp
  then show ?thesis using assms(4) by (auto simp: read_callback_def)
qed

end
