(* ===== verification/Proxy_Example.thy ===== *)
theory Proxy_Example
  imports Proxy_Safety
begin

text \<open>
  A worker, a record codec and a configuration at which the properties of the data proxy can be used: every call is
  accepted, a record is the number of its fields and, for each field, its set parts with their lengths in unary.
\<close>

section \<open>A record codec\<close>

definition put_nat :: "nat \<Rightarrow> byte list" where
  "put_nat n = replicate n 1 @ [0]"

fun get_nat :: "byte list \<Rightarrow> nat \<times> byte list" where
  "get_nat (b # bs) = (if b = 1 then (let (n, r) = get_nat bs in (Suc n, r)) else (0, bs))"
| "get_nat [] = (0, [])"

lemma get_put_nat [simp]: "get_nat (put_nat n @ r) = (n, r)"
  by (induction n) (simp_all add: put_nat_def)

definition put_text :: "byte list option \<Rightarrow> byte list" where
  "put_text v = (case v of None \<Rightarrow> [0] | Some s \<Rightarrow> put_nat (Suc (length s)) @ s)"

definition get_text :: "byte list \<Rightarrow> byte list option \<times> byte list" where
  "get_text bs = (case get_nat bs of (0, r) \<Rightarrow> (None, r) | (Suc n, r) \<Rightarrow> (Some (take n r), drop n r))"

lemma get_put_text [simp]: "get_text (put_text v @ r) = (v, r)"
  using get_put_nat [of 0 r] by (auto simp: get_text_def put_text_def put_nat_def [of 0] split: option.split)

definition put_int :: "int option \<Rightarrow> byte list" where
  "put_int v = (case v of None \<Rightarrow> put_nat 0 | Some i \<Rightarrow> put_nat (if i < 0 then 1 else 2) @ put_nat (nat \<bar>i\<bar>))"

definition get_int :: "byte list \<Rightarrow> int option \<times> byte list" where
  "get_int bs =
     (let (k, r) = get_nat bs in
      if k = 0 then (None, r) else let (n, r) = get_nat r in (Some (if k = 1 then - int n else int n), r))"

lemma get_put_int [simp]: "get_int (put_int v @ r) = (v, r)"
  by (cases v) (auto simp: get_int_def put_int_def)

definition put_field :: "mem_field \<Rightarrow> byte list" where
  "put_field f = put_text (col_name f) @ put_int (col_type f) @ put_text (col_value f) @ put_text (col_as f)"

definition get_field :: "byte list \<Rightarrow> mem_field \<times> byte list" where
  "get_field bs =
     (let (n, r) = get_text bs; (t, r) = get_int r; (v, r) = get_text r; (a, r) = get_text r
      in (\<lparr>col_name = n, col_type = t, col_value = v, col_as = a\<rparr>, r))"

lemma get_put_field [simp]: "get_field (put_field f @ r) = (f, r)"
  by (simp add: get_field_def put_field_def)

fun get_fields :: "nat \<Rightarrow> byte list \<Rightarrow> mem_record" where
  "get_fields 0 bs = []"
| "get_fields (Suc n) bs = (let (f, r) = get_field bs in f # get_fields n r)"

lemma get_put_fields: "get_fields (length row) (concat (map put_field row)) = row"
  by (induction row) simp_all

definition put_record :: "mem_record \<Rightarrow> byte list" where
  "put_record row = put_nat (length row) @ concat (map put_field row)"

definition get_record :: "byte list \<Rightarrow> bool \<times> mem_record" where
  "get_record bs = (let (n, r) = get_nat bs in (True, get_fields n r))"

lemma get_put_record: "get_record (put_record row) = (True, row)"
  by (simp add: get_record_def put_record_def get_put_fields)

section \<open>A worker and a configuration\<close>

definition example_struct :: jval where
  "example_struct = JObj [(ascii ''data_type'', JInt 1), (ascii ''section_factor'', JInt 1)]"

definition example_tables :: "int jobj" where
  "example_tables = extern_jobj (of_jval int_fpu None (JObj [(ascii ''relative'', JObj [(ascii ''dataset'', JInt 1)]),
     (ascii ''redis_struct'', JObj [(ascii ''7'', example_struct)])]))"

definition example_ring :: redis_ring where
  "example_ring = \<lparr>m_iHashAlgorithm = 0, m_iVirtualNodeNum = 4, m_mapRedisNode = [],
     m_mapRedisNodeHash = [(5, ''master'', ''slave'')]\<rparr>"

definition example_proxy :: "int proxy" where
  "example_proxy = \<lparr>m_oJsonTableRelative = example_tables, m_mapFactorSection = [(''1:1'', [100])], m_mapTableFields = [],
     m_mapNodeSession = [(''1:1:100'', example_ring)], m_pRedisNodeSession = None\<rparr>"

definition example_read :: redis_operate where
  "example_read = no_redis\<lparr>key_name := ascii ''k'', redis_cmd_read := ascii ''get'', data_purpose := Some 7\<rparr>"

definition example_request :: mem_operate where
  "example_request = \<lparr>section_factor = 42, redis_part = Some example_read, db_part = None\<rparr>"

definition proxy_example :: proxy_env where
  "proxy_example = \<lparr>answer = \<lambda>tr c. True, sequence_of = \<lambda>tr. 1, record_bytes = put_record, record_parse = get_record,
     rsp_size = \<lambda>rsp. 0, rsp_parse = \<lambda>bs. (True, redis_rsp), rsp_body_size = \<lambda>rsp. 0, raw_body_size = \<lambda>bs. 0,
     oper_body_size = \<lambda>m. 0, oper_parse = \<lambda>bs. (True, example_request)\<rparr>"

lemma proxy_example_ok: "sends proxy_example" "record_codec proxy_example"
  by (simp_all add: sends_def record_codec_def proxy_example_def get_put_record)

lemma get_json_built:
  assumes "wf_jval j" "get_member ob k = Some (of_jval fp nm j)"
  shows "\<exists>ob'. Get_key_json fp junk ob k = Done (Some ob')"
proof -
  have c: "c_bytes (text_of fp 0 True j) = text_of fp 0 True j" by (rule c_bytes_id [OF text_of_no_zero [OF assms(1)]])
  have "cJSON_Parse fp junk (text_of fp 0 True j) = Done (of_jval fp None j)"
    unfolding text_of_def by (rule cJSON_Parse_print [OF assms(1)])
  then show ?thesis using assms(2) by (simp add: Get_key_json_def cJSON_Print_def print_of_jval Jobj_Parse_def c)
qed

section \<open>A read\<close>

definition example_checked :: mem_operate where
  "example_checked = example_request\<lparr>redis_part := Some (example_read\<lparr>redis_cmd_read := ascii ''GET''\<rparr>)\<rparr>"

definition example_head :: msg_head where
  "example_head = \<lparr>h_cmd = 1, h_msgbody_len = 0, h_seq = 2\<rparr>"

definition example_step :: read_step where
  "example_step = (new_read (client (3, 1) example_head (Some example_ring)) (redis_of example_checked) False 0 None)
     \<lparr>m_strMasterNode := ''master'', m_strSlaveNode := ''slave'', m_iReadNum := 1\<rparr>"

lemma example_preprocess: "Preprocess example_proxy example_request = Some example_checked"
  by code_simp

lemma example_member: "get_member (sub (m_oJsonTableRelative example_proxy) ''redis_struct'') (purpose (redis_of example_checked)) =
    Some (of_jval int_fpu (Some (ascii ''7'')) example_struct)"
  by code_simp

lemma example_check: "CheckRedisOperate int_fpu (0, 0) example_proxy (redis_of example_checked) = Some (Inr ())"
proof -
  have "wf_jval example_struct" by (simp add: example_struct_def ascii_def)
  from get_json_built [OF this example_member] obtain ob where
    "Get_key_json int_fpu (0, 0) (sub (m_oJsonTableRelative example_proxy) ''redis_struct'') (purpose (redis_of example_checked)) = Done (Some ob)"
    by blast
  moreover have "\<not> flush_cmd (redis_cmd_write (redis_of example_checked))" "\<not> flush_cmd (redis_cmd_read (redis_of example_checked))"
    "\<not> mismatched (redis_of example_checked)" by code_simp+
  ultimately show ?thesis by (simp add: CheckRedisOperate_def)
qed

lemma example_route: "find_ring (section_factor example_checked) (redis_of example_checked) example_proxy =
    (example_proxy\<lparr>m_pRedisNodeSession := Some example_ring\<rparr>, Inr ())"
  by code_simp

lemma example_start: "start_request proxy_example (example_proxy\<lparr>m_pRedisNodeSession := Some example_ring\<rparr>)
    (client (3, 1) example_head (Some example_ring)) example_checked [] =
    Some ([(RedisCommand ''slave'' [ascii ''GET'', ascii ''k''] (ReadStep example_step), True)], True)"
  by code_simp

definition example_trace :: trace where
  "example_trace = [(RedisCommand ''slave'' [ascii ''GET'', ascii ''k''] (ReadStep example_step), True)]"

lemma example_life: "\<exists>p. proxy_life int_fpu (0, 0) proxy_example p example_trace {}"
proof -
  have parts: "redis_part example_checked = Some (redis_of example_checked)" "db_part example_checked = None"
    by (simp_all add: example_checked_def redis_of_def example_request_def)
  have "CheckRequest int_fpu (0, 0) example_proxy example_checked = Some (example_proxy\<lparr>m_pRedisNodeSession := Some example_ring\<rparr>, Inr ())"
    by (simp add: CheckRequest_def parts example_check and_then_def example_route)
  then have "AnyMessage int_fpu (0, 0) proxy_example (3, 1) example_head [] example_proxy [] =
      Some (example_proxy\<lparr>m_pRedisNodeSession := Some example_ring\<rparr>, example_trace, True)"
    by (simp add: AnyMessage_def proxy_example_def [THEN arg_cong [of _ _ oper_parse]] example_preprocess example_start example_trace_def)
  then show ?thesis using life_request [OF life_start] by blast
qed

section \<open>Properties at the example\<close>


theorem reads_ask_the_slave_witness: "m_strSlaveNode example_step = ''slave'' \<and> m_iReadNum example_step = 1"
proof -
  obtain p where p: "proxy_life int_fpu (0, 0) proxy_example p example_trace {}" using example_life by blast
  have "(RedisCommand ''slave'' [ascii ''GET'', ascii ''k''] (ReadStep example_step), True) \<in> set example_trace"
    by (simp add: example_trace_def)
  from reads_ask_the_slave [OF p this] show ?thesis by simp
qed

theorem failed_read_told_witness:
  "\<exists>msg. handle_event proxy_example (ReadStep example_step)
     (RedisAnswer \<lparr>ans_status = -1, ans_err = 1, ans_errstr = [], ans_reply = None\<rparr>) example_trace =
     Some (fail proxy_example example_step ERR_REDIS_CMD msg example_trace)"
proof -
  obtain p where p: "proxy_life int_fpu (0, 0) proxy_example p example_trace {}" using example_life by blast
  show ?thesis
    by (rule failed_read_told [OF p, of 0]) (simp_all add: example_trace_def)
qed

definition two_columns :: "byte list list" where
  "two_columns = [ascii ''id'', ascii ''name'']"

theorem changed_row_witness:
  "col_value (update_row two_columns [(value_field [7])\<lparr>col_name := Some (ascii ''name'')\<rparr>] [value_field [1]] ! 1) = Some [7] \<and>
   col_value (update_row two_columns [(value_field [7])\<lparr>col_name := Some (ascii ''name'')\<rparr>] [value_field [1]] ! 0) = Some [1]"
  using changed_row [of 1 two_columns "[value_field [1]]" "[(value_field [7])\<lparr>col_name := Some (ascii ''name'')\<rparr>]"]
    changed_row [of 0 two_columns "[value_field [1]]" "[(value_field [7])\<lparr>col_name := Some (ascii ''name'')\<rparr>]"]
  by (simp add: two_columns_def column_matches_def bytes_of_def value_field_def no_field_def ascii_def)

theorem array_read_completely_witness:
  "\<exists>rsps. ReadReplyArrayWithoutDataSet proxy_example example_step (map RString [[1], [2, 3]]) [] = (answers proxy_example example_step rsps, True)
    \<and> concat (map record_data rsps) = [[value_field [1]], [value_field [2, 3]]]"
  using array_read_completely [of proxy_example "[[1], [2, 3]]" example_step "[]"] proxy_example_ok(1)
  by (auto simp: proxy_example_def)

definition example_back :: relative_step where
  "example_back = \<lparr>m_stMsgShell = (3, 1), m_oReqMsgHead = example_head, m_pNodeSession = None, m_strMasterNode = '''', m_strSlaveNode = '''',
     m_oMemOperate = example_request\<lparr>db_part := Some (no_db\<lparr>db_fields := [name_field (ascii ''id''), name_field (ascii ''name'')]\<rparr>)\<rparr>,
     m_strKeyField = ascii ''id'', m_iRelative = RELATIVE_DATASET, m_oJoinField = []\<rparr>"

definition example_rows :: mem_rsp where
  "example_rows = redis_rsp\<lparr>record_data := [[value_field [1], value_field [9]], [value_field [2], value_field [8]]]\<rparr>"

definition example_reader :: read_step where
  "example_reader = example_step\<lparr>m_bIsDataSet := True, m_iTableFieldNum := 2,
     m_oRedisOperate := example_read\<lparr>redis_cmd_read := ascii ''HVALS'', redis_structure := Some REDIS_T_HASH\<rparr>\<rparr>"

lemma example_back_args: "MakeCmdForHashWithDataSet proxy_example example_back example_rows =
    Some [[1], put_record [value_field [1], value_field [9]], [2], put_record [value_field [2], value_field [8]]]"
  by code_simp


definition example_update :: update_step where
  "example_update = \<lparr>m_stMsgShell = (3, 1), m_oReqMsgHead = example_head, m_pNodeSession = Some example_ring, m_strMasterNode = '''',
     m_strSlaveNode = '''', m_oMemOperate = example_request\<lparr>db_part := Some (no_db\<lparr>query_type := UPDATE,
       db_fields := [(value_field [7])\<lparr>col_name := Some (ascii ''name'')\<rparr>]\<rparr>)\<rparr>,
     m_strKeyField = [], m_oTableFields = two_columns\<rparr>"

lemma snd_of: "map_option snd r = Some s \<Longrightarrow> \<exists>t. r = Some (t, s)"
  by (cases r) auto

lemma example_update_done: "map_option snd (update_reply proxy_example example_update (RString (record_bytes proxy_example [value_field [1], value_field [9]])) []) =
    Some STATUS_CMD_COMPLETED"
  by code_simp

theorem changed_row_read_back_witness:
  "\<exists>argv new. read_reply proxy_example (example_step\<lparr>m_bIsDataSet := True\<rparr>) (RString (last argv)) [] = (new, STATUS_CMD_COMPLETED)
    \<and> sent_rows new = [[value_field [1], value_field [7]]]"
proof -
  let ?old = "[value_field [1], value_field [9]]" and ?rd = "example_step\<lparr>m_bIsDataSet := True\<rparr>"
  obtain tr' where run: "update_reply proxy_example example_update (RString (record_bytes proxy_example ?old)) [] =
      Some (tr', STATUS_CMD_COMPLETED)" using snd_of [OF example_update_done] by blast
  have len: "length (op_fields (redis_of (m_oMemOperate example_update))) \<le> 1" by code_simp
  have num: "m_iTableFieldNum ?rd \<in> {0, max (length (m_oTableFields example_update)) (length ?old)}"
    by (simp add: example_step_def new_read_def)
  have row: "update_row (m_oTableFields example_update) (db_fields (db_of (m_oMemOperate example_update))) ?old =
      [value_field [1], value_field [7]]" by code_simp
  have "?old \<noteq> []" "m_bIsDataSet ?rd" by simp_all
  from changed_row_read_back [OF proxy_example_ok this(1) len run this(2) num, of "[]"] show ?thesis
    unfolding row append_Nil by blast
qed

end
