(* ===== verification/Proxy_Order.thy ===== *)
theory Proxy_Order
  imports Proxy_Example
begin

text \<open>
  The order of a write on redis and the database, the choice of the section of a request, and what happens when the
  ring of the section is not there.
\<close>

section \<open>Redis first\<close>

definition accepts :: "proxy_env \<Rightarrow> bool" where
  "accepts e \<longleftrightarrow> (\<forall>tr c. answer e tr c)"

lemma accepts_invoke: "accepts e \<Longrightarrow> invoke e c tr = (tr @ [(c, True)], True)"
  by (simp add: accepts_def invoke_def)

lemma accepts_sends: "accepts e \<Longrightarrow> sends e"
  by (simp add: accepts_def sends_def)

lemma fail_sends: "sends e \<Longrightarrow> fail e st err msg tr = (tr @ [(answer_call e st (error_rsp (error_code err) msg), True)], STATUS_CMD_FAULT)"
  by (simp add: fail_def Response_err_def Response_sends)

lemma write_ttl_shape: "accepts e \<Longrightarrow> \<exists>ttl. write_ttl e st tr = tr @ ttl \<and> (\<forall>c \<in> set ttl. \<exists>n args s. c = (RedisCommand n args (TtlStep s), True))"
  by (simp add: write_ttl_def ttl_emit_def accepts_invoke Let_def)

lemma NextStep_write:
  assumes "accepts e" "m_ulSequence db = None" "query_type (db_of (m_oMemOperate db)) \<noteq> SELECT" "redis_part (m_oMemOperate db) \<noteq> None"
  shows "\<exists>db' head. NextStep e db tr = (tr @ [(RegisterStep (DbStep db), True),
      (SendToNext ''DBAGENT_W'' head (m_oMemOperate db) (DbStep db'), True)], True) \<and> \<not> m_bNeedResponse db'"
  using assms(2-4) by (simp add: NextStep_def db_emit_def Let_def accepts_invoke [OF assms(1)] numeral_3_eq_3)


text \<open>Without a ring a read and a write of redis make no call at all: the client is not answered.\<close>

lemma no_ring_silent:
  assumes "m_pNodeSession st = None"
  shows "RedisOnly e p st m tr = Some (tr, False) \<and> ReadEither e p st m tr = Some (tr, False) \<and> WriteBoth e st m tr = Some (tr, False)"
  using assms
  by (simp add: RedisOnly_def ReadEither_def WriteBoth_def if_running_def read_emit_def write_emit_def reading_step_def
      new_read_def new_write_def Let_def)

section \<open>The section of a request\<close>

definition sections_ok :: "'d proxy \<Rightarrow> bool" where
  "sections_ok p \<longleftrightarrow> (\<forall>e \<in> set (m_mapFactorSection p). set_ok (snd e))"

lemma fold_keeps: "(\<And>x s. P s \<Longrightarrow> P (f x s)) \<Longrightarrow> P s \<Longrightarrow> P (fold f xs s)"
  by (induction xs arbitrary: s) simp_all

lemma entries_after_put: "set (map_put k v m) \<subseteq> insert (k, v) (set m)"
  by (induction k v m rule: map_put.induct) auto

lemma add_section_ok: "set_ok (fst acc) \<Longrightarrow> set_ok (fst (add_section md5 conf dt sf k acc))"
  by (simp add: add_section_def Let_def set_put_ok split: option.split)

lemma add_factor_ok:
  assumes "sections_ok p"
  shows "sections_ok (add_factor md5 conf dt sf p)"
proof -
  have "set_ok (fst (fold (\<lambda>k. add_section md5 conf dt x (int k)) ks ([], ss)))" for x ks ss
    by (rule fold_keeps [of "\<lambda>a. set_ok (fst a)"], rule add_section_ok, assumption) (simp add: set_ok_def)
  then show ?thesis
    using assms entries_after_put
    by (fastforce simp: add_factor_def sections_ok_def map_insert_def Let_def split_def split: option.split)
qed

lemma add_type_ok: "sections_ok p \<Longrightarrow> sections_ok (add_type md5 conf dt p)"
  by (auto simp: add_type_def intro: fold_keeps add_factor_ok split: option.split)

lemma conf_sections_ok: "ReadDataProxyConf fp junk md5 file p = Some (p', ok) \<Longrightarrow> sections_ok p \<Longrightarrow> sections_ok p'"
  by (auto simp: ReadDataProxyConf_def intro: fold_keeps add_type_ok split: option.splits presult.splits if_splits prod.splits)

lemma find_in_map: "map_find k m = Some v \<Longrightarrow> (k, v) \<in> set m"
  by (induction k m rule: map_find.induct) (auto split: if_splits)

lemma lower_section_least:
  assumes "set_ok s"
  shows "lower_section f s = (if \<exists>b \<in> set s. f \<le> b then Some (Min {b \<in> set s. f \<le> b}) else None)"
  using assms
proof (induction s)
  case (Cons b s)
  have ok: "set_ok s" "\<forall>c \<in> set s. b < c" using Cons.prems by (auto simp: set_ok_def)
  show ?case
  proof (cases "f \<le> b")
    case True
    then have "Min {c \<in> set (b # s). f \<le> c} = b" using ok(2) by (intro Min_eqI) auto
    then show ?thesis using True by (auto simp: lower_section_def)
  next
    case False
    then have "{c \<in> set (b # s). f \<le> c} = {c \<in> set s. f \<le> c}" by auto
    then show ?thesis using Cons.IH [OF ok(1)] False by (simp add: lower_section_def)
  qed
qed (simp add: lower_section_def)


section \<open>Examples\<close>

definition example_db :: db_step where
  "example_db = new_db (client (3, 1) example_head (Some example_ring))
     (example_request\<lparr>db_part := Some (no_db\<lparr>query_type := INSERT\<rparr>)\<rparr>) RELATIVE_TABLE [] [] []"


definition example_sections :: jval where
  "example_sections = JObj [(ascii ''cluster'', JObj []), (ascii ''redis_group'', JObj []), (ascii ''data_type'', JArr [JStr (ascii ''a'')]),
     (ascii ''data_type_enum'', JObj [(ascii ''a'', JInt 1)]), (ascii ''section_factor'', JArr [JStr (ascii ''i'')]),
     (ascii ''section_factor_enum'', JObj [(ascii ''i'', JInt 1)]), (ascii ''factor_section'', JObj [(ascii ''i'', JArr [JInt 9, JInt 5])])]"

definition empty_proxy :: "int proxy" where
  "empty_proxy = \<lparr>m_oJsonTableRelative = empty_jobj, m_mapFactorSection = [], m_mapTableFields = [], m_mapNodeSession = [], m_pRedisNodeSession = None\<rparr>"

definition example_conf :: "int jobj" where
  "example_conf = empty_jobj\<lparr>jdata := Some (of_jval int_fpu None example_sections)\<rparr>"

lemma example_conf_parse: "Jobj_Parse int_fpu (0, 0) (text_of int_fpu 0 False example_sections) = Done (example_conf, True)"
proof -
  have wf: "wf_jval example_sections" by (simp add: example_sections_def ascii_def)
  have c: "c_bytes (text_of int_fpu 0 False example_sections) = text_of int_fpu 0 False example_sections"
    by (rule c_bytes_id [OF text_of_no_zero [OF wf]])
  have "cJSON_Parse int_fpu (0, 0) (text_of int_fpu 0 False example_sections) = Done (of_jval int_fpu None example_sections)"
    unfolding text_of_def by (rule cJSON_Parse_print [OF wf])
  then show ?thesis by (simp add: Jobj_Parse_def c example_conf_def)
qed

lemma example_conf_read: "m_mapFactorSection (fold (add_type example_md5 example_conf) (texts (sub example_conf ''data_type'')) empty_proxy) =
    [(''1:1'', [5, 9])]"
  by code_simp


end
