(* ===== verification/Spec2Isabelle.thy ===== *)
theory Spec2Isabelle
  imports Base64 Starship_Codec CJsonObject_Laws Center_Types Worker_Reactor Manager_Handover Redis_Ring String_Coder Tlv Worker_Session Worker_Redis Proxy_Order
begin

text \<open>
  Verification of the push quotation server: its message codecs, its JSON library, the worker and manager
  processes of a node, the center, the ring of storage nodes, and the data proxy over it.

  The program (all paths under \<open>code/trunk\<close>) is a set of server processes built on one framework,
  \<open>Starship\<close>, over a utility library, \<open>loss\<close>. Every node (Access, Logic, DataProxy, DbAgent, Interface)
  is a manager process and worker processes that exchange framed messages; message bodies are JSON or
  protobuf. A manager registers its node with the center (\<open>Center\<close>), reports its load to it, and is told by it
  which other nodes exist; it passes this on to its workers, which route messages to the workers of other
  nodes over connections that the managers hand to them. This development models that path bottom-up.

  \<^bold>\<open>Prelude and interfaces.\<close> \<open>Prelude\<close> holds the machine types, memory copies, C strings and decimal printing.
  \<open>Interfaces\<close> holds the contracts between layers as locales: a byte queue, a stream codec over a queue, a
  cipher. \<open>StdMap\<close> and \<open>StdSet\<close> are \<open>std::map\<close> and \<open>std::set\<close> as sorted lists, with the contract
  \<open>ordered_map\<close>. Each locale is interpreted in the theory of the component that provides it.

  \<^bold>\<open>Carrying messages.\<close>
  \<^item> \<open>CBuffer\<close>: \<open>loss/src/util/CBuffer.hpp\<close>, the growing buffer with read and write index; every operation but
    the two \<open>printf\<close> wrappers, allocation as an argument. Lemmas: first-in first-out, growth keeps the
    content and ends, transfers, search.
  \<^item> \<open>Rc5\<close>: \<open>loss/src/util/encrypt/rc5.c\<close>, key expansion, block cipher and the CBC object. Lemmas: domain of
    key expansion, decryption inverts encryption, updates compose.
  \<^item> \<open>Base64\<close>: \<open>base64.c\<close> and \<open>hconv.c\<close> with round trips and exact output bounds.
  \<^item> \<open>Starship_Codec\<close>: \<open>Starship/src/codec\<close>, the RC5 wrappers, the internal protocol (\<open>ProtoCodec\<close>) and the client
    protocol (\<open>ClientMsgCodec\<close>). The generated protobuf classes and zlib are arguments with a round-trip
    hypothesis. Lemmas: streams of messages are decoded in order, partial frames wait, and the inputs on
    which the code goes wrong.
  \<^item> \<open>Tlv\<close>: \<open>loss/src/util/CTlv.cpp\<close>, an instance of the same stream contract. \<open>String_Coder\<close>: \<open>StringCoder.cpp\<close>, URL
    and hexadecimal coding and parameter lists with their round trips.

  \<^bold>\<open>JSON.\<close>
  \<^item> \<open>CJson\<close>: \<open>loss/src/util/json/cJSON.c\<close>, an item as a tree, the parser with fuel, both printers, array and
    object operations. Floating point is the parameter \<open>fpu\<close>. \<open>CJson_Total\<close> shows that the fuel, twice the
    length of the text plus two, is never used up, so the parser returns on every text; each level of the
    recursion takes at least one character in two calls. \<open>CJson_Roundtrip\<close> shows that parsing inverts printing for
    values without fractions, \<open>CJson_Object\<close> that objects are maps over case-insensitive names and how large the
    print buffers must be.
  \<^item> \<open>CJsonObject\<close>: the wrapper class \<open>CJsonObject.cpp\<close>, all readers and writers by key and by index.
    \<open>CJsonObject_Laws\<close>: one locale for the typed accessors with an instance for each type, the member map, the
    element list, copies.

  \<^bold>\<open>The center.\<close>
  \<^item> \<open>Center_Session\<close>: \<open>Center/src/Comm.hpp\<close> and the state of \<open>NodeSession\<close>: node records, statistics, load status,
    configuration, node types, the node map. The record \<open>center\<close> also keeps the statements issued, the
    messages sent and the routes entered, in order. The database is a function from its state and a
    statement to a new state and the rows or an error; the clock is a sequence of readings.
  \<^item> \<open>Center_Store\<close>: everything \<open>NodeSession.cpp\<close> writes to the database with the intervals that guard it.
  \<^item> \<open>Center_Cmd\<close>: \<open>NodeRegMgr.cpp\<close> and the handlers of the five commands, whole, with every early return; the
    result \<open>None\<close> is undefined behaviour (a key that overflows its buffer, a database text with a percent sign
    used as a format string).
  \<^item> \<open>Center_Frame\<close>: which part of the session each function leaves alone, and the rules that take a handler apart
    along its branches. \<open>Center_Registry\<close>: the registry as an abstract machine with four steps, its invariant,
    and the proof that every command refines a step. \<open>Center_Example\<close>: a concrete run for the witnesses.
  \<^item> \<open>Center_Register\<close>, \<open>Center_Report\<close>, \<open>Center_Types\<close>: the properties: the registry invariant over all runs, what a
    registration, a report, a disconnection and a load query do, sums of the statistics, and that
    the integers of the model stay in 32 bits.

  \<^bold>\<open>The worker process\<close> (\<open>Starship/src/labor/duty/OssWorker.cpp\<close> and the system commands and steps).
  \<^item> \<open>Worker_State\<close>: connections with their buffers, the named shells of workers, the routing table
    (\<open>AddNodeIdentify\<close>, \<open>DelNodeIdentify\<close>), events and timers. Sockets and the event loop are an environment record
    whose functions say what each call returns.
  \<^item> \<open>Worker_Send\<close>: every way of sending a protobuf message. \<open>Worker_Io\<close>: what the worker does when the event loop calls
    it, the dispatch to commands and steps, and the steps and commands that set up a connection.
    \<open>Worker_Notice\<close>: the node notices of the center (\<open>StepNodeNotice.cpp\<close>).
  \<^item> \<open>Worker_Route\<close>, \<open>Worker_Turns\<close>, \<open>Worker_Learn\<close>: the routing table refines a map from workers to types, sending to a type
    takes its workers in turn, and the notices printed by the center are learned by the worker.
  \<^item> \<open>Worker_Stream\<close>, \<open>Worker_Channel\<close>, \<open>Worker_Setup\<close>: the bytes of a connection form a line that keeps its order
    however the socket behaves; the set-up of a connection introduces two workers to each other.
    \<open>Worker_Reactor\<close>: the callbacks as events and what every run of them keeps. \<open>Worker_Example\<close>: an environment for
    the witnesses.
  \<^item> Objects of the business code, with a store from addresses to objects so that the use of freed memory is visible:
    \<open>Worker_Clock\<close> and \<open>Worker_Session\<close> (\<open>session/Session.cpp\<close> and the sessions of \<open>OssWorker.cpp\<close>), \<open>Step_Chain\<close>
    (\<open>step/Step.cpp\<close> and the registration, deletion and running of steps, of which \<open>Worker_Io\<close> keeps only the
    numbers), \<open>Worker_Redis\<close> (the connections to redis servers). Virtual functions are arguments, in runs they are
    scripts of calls to the framework. Lemmas: runs that follow stated rules use no freed memory, the table
    of sessions is a map, chains of steps end and are deleted as a whole (\<open>Step_Safety\<close>), answers of redis reach the steps in the
    order of their commands; and where the framework breaks the rules itself.

  \<^bold>\<open>The manager process\<close> (\<open>Starship/src/labor/duty/OssManager.cpp\<close>).
  \<^item> \<open>Manager_State\<close>: connections, worker processes with their load, the counts of client addresses, the steps in
    progress. \<open>Manager_Cmd\<close>: its callbacks and the messages of workers, of the center and of other nodes.
    \<open>Manager_Workers\<close>: starting, restarting, supervising and stopping the workers, and the reports.
  \<^item> \<open>Manager_Laws\<close>: callbacks as events, with one locale for what every run keeps. \<open>Manager_Props\<close>: indices of workers,
    the limit on the connections of an address, the answer to a stop request, whose waiting is bounded by
    \<open>Manager_Stop\<close>. \<open>Manager_Read\<close>: messages that arrive. \<open>Manager_Handover\<close>: manager and two workers together, the
    whole way of a new connection.

  \<^bold>\<open>Storage nodes.\<close> \<open>Hash_Calc\<close>: \<open>loss/src/util/HashCalc.cpp\<close>. \<open>Redis_Ring\<close>: \<open>DataProxy/src/SessionRedisNode.cpp\<close>, the ring of
    points on which keys are placed; it refines an abstract cluster, and a new node takes over only the keys it now
    holds.

  \<^bold>\<open>The data proxy\<close> (\<open>DataProxy/src/CmdDataProxy\<close>): requests of the storage protocol become redis commands to the
  ring and requests to the database agent.
  \<^item> \<open>Proxy_Types\<close>: the messages (\<open>Starship/proto/dataproxy.proto\<close>), redis replies, the steps as records that extend
    each other, and \<open>trace\<close>: the calls the steps make to the worker, each with the answer it got. The generated code of the messages is
    the record \<open>proxy_env\<close>; \<open>record_codec\<close> is its documented round trip.
  \<^item> \<open>Proxy_Back\<close> (\<open>StepWriteBackToRedis\<close>, \<open>StepSetTtl\<close>), \<open>Proxy_Db\<close> (\<open>StepSendToDbAgent\<close>), \<open>Proxy_Read\<close>
    (\<open>StepReadFromRedis\<close>), \<open>Proxy_Write\<close> (\<open>StepWriteToRedis\<close>, \<open>StepReadFromRedisForWrite\<close>): \<open>Emit\<close> and \<open>Callback\<close> of each
    step, whole. \<open>Proxy_Conf\<close>, \<open>Proxy_Check\<close>, \<open>Proxy_Cmd\<close>: \<open>CmdDataProxy.cpp\<close>, the configuration and sections, the checks
    as values, the handler.
  \<^item> \<open>Proxy_Rows\<close>: what happens to rows: changed, written and read back, divided into packets. \<open>Proxy_Safety\<close>: requests and
    answers in any order as \<open>proxy_life\<close>, and what every life keeps: no command that clears a node is sent. \<open>Proxy_Order\<close>:
    redis, client and database in their order, and the section of a request. \<open>Proxy_Example\<close>: a message code and
    a configuration for the witnesses.

  \<^bold>\<open>Conventions.\<close> A C++ \<open>int\<close> of the center is an \<open>int\<close> whose range is proved, other machine integers are words;
  \<open>size_t\<close> is a natural number with its wrap-around written out. Undefined behaviour and errors are values.
  Node numbers are bounded by the number of messages served, and the invariant is stated for fewer than
  \<open>2 ^ 31\<close> of them, where the next number still fits an \<open>int\<close>. The loops over the messages in a receive buffer
  have the number of its bytes as fuel: each round but the last takes at least one byte. The rounds of the stop timer are
  counted by the code itself, at most six. Loops that code under the framework may keep alive for ever are
  partial functions whose value is then \<open>None\<close>.

  \<^bold>\<open>Not modelled.\<close> Log output, memory exhaustion and the depth of the call stack. Of the modelled parts: the
  AES wrappers (they only call Crypto++), the \<open>printf\<close> wrappers of the buffer, the cache of
  \<open>CJsonObject::operator[]\<close>, the reading of configuration files and \<open>Init\<close> of worker and manager, which create sockets and loggers
  from them. Of the worker: HTTP and websocket codecs and the HTTP half of receiving, and the loading of shared
  objects. The database agent turns requests into statements of the MySQL client, and \<open>CmdLocateData\<close> repeats the
  routing of the data proxy for clients that ask where a key is. Generated protobuf classes,
  \<open>libev\<close>, hiredis, mongoc, Crypto++ and the joyent HTTP parser are third-party code.

  \<^bold>\<open>Plan.\<close> What would come next: the reading of the configuration by the manager, and the SQL that the
  database agent builds.
\<close>

end
